(* ===== verification/Prelude.thy ===== *)
theory Prelude
  imports Main "HOL-Library.Word" "HOL-Library.Monad_Syntax"
begin

text \<open>
  Shared ground of the development: the machine types of the C sources, modular arithmetic
  on \<open>size_t\<close> and \<open>uint64_t\<close>, raw memory, little-endian fields of packed
  structures, and the status codes every component returns.

  Conventions used by every component theory:
  \<^item> \<open>size_t\<close> and \<open>uint64_t\<close> values are natural numbers; every addition,
    subtraction or multiplication the C code performs on them is written with
    \<open>add64\<close>, \<open>sub64\<close>, \<open>mul64\<close>, which wrap at \<open>2 ^ 64\<close>
    (the secure partitions are built for AArch64). Identifiers and registers that are only
    compared or taken apart bitwise are \<open>32 word\<close>, \<open>16 word\<close> or
    \<open>8 word\<close>.
  \<^item> An object in memory is the list of its bytes. Reading or writing outside it is
    undefined behaviour in C; the model makes it visible: \<open>mem_read\<close> and
    \<open>mem_write\<close> return \<open>None\<close>, and an operation that touches raw memory has
    an \<open>option\<close> result in which \<open>None\<close> means undefined behaviour. That an
    operation never yields \<open>None\<close> is a theorem, never an assumption.
  \<^item> C status codes are the integers of the headers.
\<close>

named_theorems arith64 \<comment> \<open>modular arithmetic without wrap-around\<close>
named_theorems mem_simps \<comment> \<open>raw memory access within bounds\<close>
named_theorems wire_simps \<comment> \<open>packed structures and little-endian fields\<close>

type_synonym byte = "8 word"
type_synonym bytes = "8 word list"
type_synonym u16 = "16 word"
type_synonym u32 = "32 word"
type_synonym size_t = nat
type_synonym lba_t = nat


section \<open>Arithmetic on 64-bit unsigned values\<close>

definition add64 :: "nat \<Rightarrow> nat \<Rightarrow> nat" where
  "add64 a b = (a + b) mod 2 ^ 64"

definition mul64 :: "nat \<Rightarrow> nat \<Rightarrow> nat" where
  "mul64 a b = (a * b) mod 2 ^ 64"

definition sub64 :: "nat \<Rightarrow> nat \<Rightarrow> nat" where
  "sub64 a b = (a + (2 ^ 64 - b mod 2 ^ 64)) mod 2 ^ 64"

lemma add64_exact [arith64]: "a + b < 2 ^ 64 \<Longrightarrow> add64 a b = a + b"
  by (simp add: add64_def)

lemma mul64_exact [arith64]: "a * b < 2 ^ 64 \<Longrightarrow> mul64 a b = a * b"
  by (simp add: mul64_def)

lemma sub64_exact [arith64]:
  assumes "b \<le> a" and "a < 2 ^ 64"
  shows "sub64 a b = a - b"
proof -
  have b: "b mod 2 ^ 64 = b"
    using assms by simp
  have "a + (2 ^ 64 - b) = (a - b) + 2 ^ 64"
    using assms by linarith
  then have "sub64 a b = ((a - b) + 2 ^ 64) mod 2 ^ 64"
    unfolding sub64_def b by (rule arg_cong)
  also have "\<dots> = (a - b) mod 2 ^ 64"
    by (rule mod_add_self2)
  also have "\<dots> = a - b"
    using assms by (intro mod_less) linarith
  finally show ?thesis .
qed

lemma add64_bound: "add64 a b < 2 ^ 64"
  by (simp add: add64_def)

lemma mul64_bound: "mul64 a b < 2 ^ 64"
  by (simp add: mul64_def)

lemma sub64_bound: "sub64 a b < 2 ^ 64"
  by (simp add: sub64_def)

abbreviation UINT32_MAX :: nat where
  "UINT32_MAX \<equiv> 4294967295"

text \<open>Overflow-checked helpers of \<open>compiler.h\<close>: the flag is raised when the exact result
  does not fit a \<open>size_t\<close>, and the wrapped result is stored either way.\<close>

definition ADD_OVERFLOW :: "nat \<Rightarrow> nat \<Rightarrow> bool \<times> nat" where
  "ADD_OVERFLOW a b = (2 ^ 64 \<le> a + b, add64 a b)"

definition MUL_OVERFLOW :: "nat \<Rightarrow> nat \<Rightarrow> bool \<times> nat" where
  "MUL_OVERFLOW a b = (2 ^ 64 \<le> a * b, mul64 a b)"

text \<open>Conversion of a C integer to a signed 32-bit one.\<close>

definition to_int32 :: "int \<Rightarrow> int" where
  "to_int32 x = (x + 2 ^ 31) mod 2 ^ 32 - 2 ^ 31"

lemma to_int32_id [simp]: "- (2 ^ 31) \<le> x \<Longrightarrow> x < 2 ^ 31 \<Longrightarrow> to_int32 x = x"
  by (simp add: to_int32_def)

lemma to_int32_bounds: "- (2 ^ 31) \<le> to_int32 x" "to_int32 x < 2 ^ 31"
proof -
  have "0 \<le> (x + 2 ^ 31) mod 2 ^ 32" and "(x + 2 ^ 31) mod 2 ^ 32 < 2 ^ 32"
    by simp_all
  then show "- (2 ^ 31) \<le> to_int32 x" and "to_int32 x < 2 ^ 31"
    by (simp_all add: to_int32_def)
qed


section \<open>Raw memory\<close>

text \<open>\<open>splice m off d\<close> is \<open>m\<close> with the bytes from \<open>off\<close> on replaced by
  \<open>d\<close>; \<open>slice m off n\<close> are the \<open>n\<close> bytes from \<open>off\<close> on.\<close>

definition splice :: "'a list \<Rightarrow> nat \<Rightarrow> 'a list \<Rightarrow> 'a list" where
  "splice m off d = take off m @ d @ drop (off + length d) m"

definition slice :: "'a list \<Rightarrow> nat \<Rightarrow> nat \<Rightarrow> 'a list" where
  "slice m off n = take n (drop off m)"

definition mem_read :: "'a list \<Rightarrow> nat \<Rightarrow> nat \<Rightarrow> 'a list option" where
  "mem_read m off n = (if off + n \<le> length m then Some (slice m off n) else None)"

definition mem_write :: "'a list \<Rightarrow> nat \<Rightarrow> 'a list \<Rightarrow> 'a list option" where
  "mem_write m off d = (if off + length d \<le> length m then Some (splice m off d) else None)"

lemma mem_read_in [mem_simps]: "off + n \<le> length m \<Longrightarrow> mem_read m off n = Some (slice m off n)"
  by (simp add: mem_read_def)

lemma mem_write_in [mem_simps]:
  "off + length d \<le> length m \<Longrightarrow> mem_write m off d = Some (splice m off d)"
  by (simp add: mem_write_def)

lemma mem_read_SomeD: "mem_read m off n = Some d \<Longrightarrow> off + n \<le> length m \<and> d = slice m off n"
  by (auto simp: mem_read_def split: if_splits)

lemma mem_write_SomeD:
  "mem_write m off d = Some m' \<Longrightarrow> off + length d \<le> length m \<and> m' = splice m off d"
  by (auto simp: mem_write_def split: if_splits)

lemma length_splice [simp]: "off + length d \<le> length m \<Longrightarrow> length (splice m off d) = length m"
  by (simp add: splice_def)

lemma length_slice [simp]: "off + n \<le> length m \<Longrightarrow> length (slice m off n) = n"
  by (simp add: slice_def)

lemma slice_0 [simp]: "slice m off 0 = []"
  by (simp add: slice_def)

lemma slice_all [simp]: "slice m 0 (length m) = m"
  by (simp add: slice_def)

lemma splice_Nil [simp]: "splice m off [] = m"
  by (simp add: splice_def)

lemma nth_splice:
  assumes "off + length d \<le> length m" and "i < length m"
  shows "splice m off d ! i = (if off \<le> i \<and> i < off + length d then d ! (i - off) else m ! i)"
proof -
  consider "i < off" | "off \<le> i" "i < off + length d" | "off + length d \<le> i"
    by linarith
  then show ?thesis
    using assms by cases (auto simp: splice_def nth_append)
qed

lemma nth_slice: "off + n \<le> length m \<Longrightarrow> i < n \<Longrightarrow> slice m off n ! i = m ! (off + i)"
  by (simp add: slice_def)

text \<open>Reading what was written, and reading beside what was written.\<close>

lemma slice_splice_same:
  "off + length d \<le> length m \<Longrightarrow> slice (splice m off d) off (length d) = d"
  by (simp add: slice_def splice_def)

lemma slice_splice_inside:
  assumes "off \<le> a" and "a + n \<le> off + length d" and "off + length d \<le> length m"
  shows "slice (splice m off d) a n = slice d (a - off) n"
  using assms by (intro nth_equalityI) (auto simp: nth_slice nth_splice)

lemma slice_splice_disjoint:
  assumes "a + n \<le> off \<or> off + length d \<le> a" and "off + length d \<le> length m" and "a + n \<le> length m"
  shows "slice (splice m off d) a n = slice m a n"
  using assms by (intro nth_equalityI) (auto simp: nth_slice nth_splice)

text \<open>Consecutive reads and writes fuse.\<close>

lemma slice_append:
  "off + n + k \<le> length m \<Longrightarrow> slice m off n @ slice m (off + n) k = slice m off (n + k)"
  unfolding slice_def by (subst take_add) (simp add: add.commute)

lemma splice_splice_adjacent:
  assumes "off + length d + length e \<le> length m"
  shows "splice (splice m off d) (off + length d) e = splice m off (d @ e)"
  using assms by (intro nth_equalityI) (auto simp: nth_splice nth_append)

lemma slice_slice: "a + k \<le> n \<Longrightarrow> slice (slice m off n) a k = slice m (off + a) k"
  by (simp add: slice_def min_def add.commute drop_take)

lemma splice_slice_of_part:
  assumes "base + n \<le> length m" and "off + length d \<le> n"
  shows "slice (splice m (base + off) d) base n = splice (slice m base n) off d"
  using assms by (intro nth_equalityI) (auto simp: nth_slice nth_splice)

lemma slice_replicate [simp]: "off + n \<le> k \<Longrightarrow> slice (replicate k x) off n = replicate n x"
  by (simp add: slice_def)


lemma nth_update_if: "xs[i := x] ! j = (if i = j \<and> i < length xs then x else xs ! j)"
  by (cases "i < length xs") (auto simp: nth_list_update list_update_beyond)

text \<open>An element of a C array; an index outside it is undefined behaviour.\<close>

definition array_get :: "'a list \<Rightarrow> int \<Rightarrow> 'a option" where
  "array_get xs i = (if 0 \<le> i \<and> nat i < length xs then Some (xs ! nat i) else None)"

lemma array_get_in [mem_simps]: "0 \<le> i \<Longrightarrow> nat i < length xs \<Longrightarrow> array_get xs i = Some (xs ! nat i)"
  by (simp add: array_get_def)

lemma array_get_int [mem_simps]: "k < length xs \<Longrightarrow> array_get xs (int k) = Some (xs ! k)"
  by (simp add: array_get_def)

text \<open>The allocator: \<open>alloc_ok n\<close> says whether a request for \<open>n\<close> bytes is met, \<open>junk\<close>
  gives the indeterminate contents of fresh bytes. \<open>realloc\<close> keeps the old contents.\<close>

definition c_realloc ::
  "(size_t \<Rightarrow> bool) \<Rightarrow> (nat \<Rightarrow> byte) \<Rightarrow> bytes option \<Rightarrow> size_t \<Rightarrow> bytes option" where
  "c_realloc alloc_ok junk p n =
     (if alloc_ok n
      then Some (let old = (case p of None \<Rightarrow> [] | Some b \<Rightarrow> b)
                 in take n old @ map junk [length old..<n])
      else None)"

text \<open>The length of a NUL-terminated string.\<close>

definition c_strlen :: "bytes \<Rightarrow> nat" where
  "c_strlen s = length (takeWhile (\<lambda>b. b \<noteq> 0) s)"

lemma c_strlen_le: "c_strlen s \<le> length s"
  by (simp add: c_strlen_def length_takeWhile_le)


section \<open>Little-endian fields of packed structures\<close>

text \<open>The \<open>packed-c\<close> messages are C structures without padding on a little-endian
  machine: \<open>le_bytes k n\<close> is the memory image of the \<open>k\<close>-byte unsigned field with
  value \<open>n\<close> (storing into the field truncates), \<open>le_val\<close> reads a field back.\<close>

primrec le_bytes :: "nat \<Rightarrow> nat \<Rightarrow> bytes" where
  "le_bytes 0 n = []"
| "le_bytes (Suc k) n = word_of_nat n # le_bytes k (n div 256)"

primrec le_val :: "bytes \<Rightarrow> nat" where
  "le_val [] = 0"
| "le_val (b # bs) = unat b + 256 * le_val bs"

lemma unat_byte_less: "unat (b :: byte) < 256"
  using unsigned_less [of b, where ?'a = nat] by simp

lemma length_le_bytes [simp]: "length (le_bytes k n) = k"
  by (induction k arbitrary: n) simp_all

lemma le_val_le_bytes_mod: "le_val (le_bytes k n) = n mod 256 ^ k"
proof (induction k arbitrary: n)
  case 0
  then show ?case by simp
next
  case (Suc k)
  have "le_val (le_bytes (Suc k) n) = n mod 256 + 256 * (n div 256 mod 256 ^ k)"
    by (simp add: Suc.IH unat_of_nat)
  also have "\<dots> = n mod (256 * 256 ^ k)"
    by (simp add: mod_mult2_eq)
  finally show ?case by simp
qed

lemma le_val_le_bytes [wire_simps]: "n < 256 ^ k \<Longrightarrow> le_val (le_bytes k n) = n"
  by (simp add: le_val_le_bytes_mod)

lemma le_val_bound: "le_val bs < 256 ^ length bs"
proof (induction bs)
  case Nil
  then show ?case by simp
next
  case (Cons b bs)
  have "unat b < 256"
    by (rule unat_byte_less)
  with Cons.IH show ?case by simp
qed

lemma le_bytes_le_val: "le_bytes (length bs) (le_val bs) = bs"
proof (induction bs)
  case Nil
  then show ?case by simp
next
  case (Cons b bs)
  have b: "unat b < 256"
    by (rule unat_byte_less)
  have z: "(256 :: byte) = 0"
    by simp
  have "word_of_nat (unat b + 256 * le_val bs) = b"
    by (simp only: of_nat_add of_nat_mult of_nat_numeral z) simp
  with b Cons.IH show ?case by simp
qed

text \<open>Signed 32-bit fields (\<open>int32_t\<close>).\<close>

definition le_int32_bytes :: "int \<Rightarrow> bytes" where
  "le_int32_bytes i = le_bytes 4 (nat (i mod 2 ^ 32))"

definition le_int32_val :: "bytes \<Rightarrow> int" where
  "le_int32_val bs = to_int32 (int (le_val bs))"

lemma length_le_int32_bytes [simp]: "length (le_int32_bytes i) = 4"
  by (simp add: le_int32_bytes_def)

lemma le_int32_round_trip [wire_simps]:
  assumes "- (2 ^ 31) \<le> i" and "i < 2 ^ 31"
  shows "le_int32_val (le_int32_bytes i) = i"
proof -
  have "nat (i mod 2 ^ 32) < 256 ^ 4"
    by (simp add: nat_less_iff)
  then have "le_int32_val (le_int32_bytes i) = to_int32 (i mod 2 ^ 32)"
    by (simp add: le_int32_val_def le_int32_bytes_def le_val_le_bytes)
  also have "\<dots> = to_int32 i"
    by (simp add: to_int32_def mod_simps)
  finally show ?thesis
    using assms by simp
qed


section \<open>Status codes\<close>

text \<open>\<open>psa/error.h\<close>\<close>

type_synonym psa_status = int

abbreviation PSA_SUCCESS :: psa_status where
  "PSA_SUCCESS \<equiv> 0"
abbreviation PSA_ERROR_GENERIC_ERROR :: psa_status where
  "PSA_ERROR_GENERIC_ERROR \<equiv> - 132"
abbreviation PSA_ERROR_NOT_PERMITTED :: psa_status where
  "PSA_ERROR_NOT_PERMITTED \<equiv> - 133"
abbreviation PSA_ERROR_INVALID_ARGUMENT :: psa_status where
  "PSA_ERROR_INVALID_ARGUMENT \<equiv> - 135"
abbreviation PSA_ERROR_BAD_STATE :: psa_status where
  "PSA_ERROR_BAD_STATE \<equiv> - 137"
abbreviation PSA_ERROR_BUFFER_TOO_SMALL :: psa_status where
  "PSA_ERROR_BUFFER_TOO_SMALL \<equiv> - 138"
abbreviation PSA_ERROR_INSUFFICIENT_MEMORY :: psa_status where
  "PSA_ERROR_INSUFFICIENT_MEMORY \<equiv> - 141"
abbreviation PSA_ERROR_INSUFFICIENT_DATA :: psa_status where
  "PSA_ERROR_INSUFFICIENT_DATA \<equiv> - 143"
abbreviation PSA_ERROR_STORAGE_FAILURE :: psa_status where
  "PSA_ERROR_STORAGE_FAILURE \<equiv> - 146"
abbreviation PSA_ERROR_INVALID_SIGNATURE :: psa_status where
  "PSA_ERROR_INVALID_SIGNATURE \<equiv> - 149"

text \<open>\<open>rpc_status.h\<close>\<close>

type_synonym rpc_status = int
type_synonym service_status = int

abbreviation RPC_SUCCESS :: rpc_status where
  "RPC_SUCCESS \<equiv> 0"
abbreviation RPC_ERROR_INTERNAL :: rpc_status where
  "RPC_ERROR_INTERNAL \<equiv> - 1"
abbreviation RPC_ERROR_INVALID_VALUE :: rpc_status where
  "RPC_ERROR_INVALID_VALUE \<equiv> - 2"
abbreviation RPC_ERROR_NOT_FOUND :: rpc_status where
  "RPC_ERROR_NOT_FOUND \<equiv> - 3"
abbreviation RPC_ERROR_INVALID_STATE :: rpc_status where
  "RPC_ERROR_INVALID_STATE \<equiv> - 4"
abbreviation RPC_ERROR_INVALID_REQUEST_BODY :: rpc_status where
  "RPC_ERROR_INVALID_REQUEST_BODY \<equiv> - 6"

end
