(* ===== verification/Rpc.thy ===== *)
theory Rpc
  imports Prelude
begin

text \<open>
  The endpoint side of the RPC layer: \<open>rpc_buffer\<close> and \<open>rpc_request\<close>
  (\<open>rpc_service_interface.h\<close>), the opcode dispatch of a service provider and the chain of
  responsibility of providers (\<open>service_provider.c\<close>, \<open>rpc_service_interface.c\<close>),
  and \<open>rpc_service\<close>, the contract an endpoint promises its transport.

  Providers refer to one another by pointer, so they live in a store
  \<open>nat \<Rightarrow> ('c, 'w) service_provider option\<close> from addresses to objects; \<open>'c\<close> is the
  concrete service's context pointer and \<open>'w\<close> the state the handlers work on.
\<close>

section \<open>Buffers and requests\<close>

record rpc_buffer =
  rb_data :: bytes
  rb_data_length :: size_t
  rb_size :: size_t

record rpc_request =
  req_source_id :: u16
  req_interface_id :: byte
  req_opcode :: u16
  req_client_id :: u32
  req_service_status :: service_status
  req_request :: rpc_buffer
  req_response :: rpc_buffer

text \<open>A buffer owns \<open>size\<close> bytes, of which the first \<open>data_length\<close> are in use.\<close>

definition wf_rpc_buffer :: "rpc_buffer \<Rightarrow> bool" where
  "wf_rpc_buffer b \<longleftrightarrow>
     length (rb_data b) = rb_size b \<and> rb_data_length b \<le> rb_size b \<and> rb_size b < 2 ^ 64"

text \<open>The RPC protocols carry the request length in 32 bits.\<close>

definition wf_rpc_request :: "rpc_request \<Rightarrow> bool" where
  "wf_rpc_request req \<longleftrightarrow>
     wf_rpc_buffer (req_request req) \<and> wf_rpc_buffer (req_response req)
     \<and> rb_data_length (req_request req) \<le> UINT32_MAX"

text \<open>The write every packed-c serializer performs once the message is known to fit: copy it to
  the start of the buffer and set the used length.\<close>

definition rpc_buffer_put :: "rpc_buffer \<Rightarrow> bytes \<Rightarrow> rpc_buffer option" where
  "rpc_buffer_put b msg =
     do {
       d \<leftarrow> mem_write (rb_data b) 0 msg;
       Some (b\<lparr>rb_data := d, rb_data_length := length msg\<rparr>)
     }"

lemma rpc_buffer_put_in [mem_simps]:
  assumes "wf_rpc_buffer b" and "length msg \<le> rb_size b"
  shows "rpc_buffer_put b msg
    = Some (b\<lparr>rb_data := splice (rb_data b) 0 msg, rb_data_length := length msg\<rparr>)"
  using assms by (simp add: rpc_buffer_put_def wf_rpc_buffer_def mem_simps)

lemma wf_rpc_buffer_put [intro]:
  assumes "wf_rpc_buffer b" and "length msg \<le> rb_size b"
  shows "wf_rpc_buffer (b\<lparr>rb_data := splice (rb_data b) 0 msg, rb_data_length := length msg\<rparr>)"
  using assms by (simp add: wf_rpc_buffer_def)

lemma wf_rpc_buffer_read [mem_simps]:
  "wf_rpc_buffer b \<Longrightarrow> off + n \<le> rb_data_length b \<Longrightarrow>
    mem_read (rb_data b) off n = Some (slice (rb_data b) off n)"
  by (simp add: wf_rpc_buffer_def mem_simps)


section \<open>Service providers\<close>

type_synonym 'w handler_result = "(rpc_status \<times> rpc_request \<times> 'w) option"

record ('c, 'w) service_handler =
  sh_opcode :: u32
  sh_invoke :: "'c \<Rightarrow> rpc_request \<Rightarrow> 'w \<Rightarrow> 'w handler_result"

record ('c, 'w) service_provider =
  sp_context :: 'c
  sp_uuid :: bytes
  sp_handlers :: "('c, 'w) service_handler list"
  sp_opcode_range_lo :: u32
  sp_opcode_range_hi :: u32
  sp_successor :: "nat option"

type_synonym ('c, 'w) provider_store = "nat \<Rightarrow> ('c, 'w) service_provider option"

text \<open>The \<open>while\<close> loop of \<open>find_handler\<close> from a given index on.\<close>

fun find_handler_from :: "('c, 'w) service_handler list \<Rightarrow> u32 \<Rightarrow> ('c, 'w) service_handler option" where
  "find_handler_from [] opc = None"
| "find_handler_from (h # hs) opc = (if sh_opcode h = opc then Some h else find_handler_from hs opc)"

definition find_handler :: "('c, 'w) service_provider \<Rightarrow> u32 \<Rightarrow> ('c, 'w) service_handler option" where
  "find_handler sp opc =
     (if sp_opcode_range_lo sp \<le> opc \<and> opc \<le> sp_opcode_range_hi sp
      then find_handler_from (sp_handlers sp) opc
      else None)"

text \<open>The loop of \<open>set_opcode_range\<close> with its two accumulators.\<close>

fun opcode_range_from :: "('c, 'w) service_handler list \<Rightarrow> u32 \<Rightarrow> u32 \<Rightarrow> u32 \<times> u32" where
  "opcode_range_from [] lo hi = (lo, hi)"
| "opcode_range_from (h # hs) lo hi =
     opcode_range_from hs
       (if sh_opcode h < lo then sh_opcode h else lo)
       (if hi < sh_opcode h then sh_opcode h else hi)"

definition set_opcode_range :: "('c, 'w) service_provider \<Rightarrow> ('c, 'w) service_provider" where
  "set_opcode_range sp =
     (let (lo, hi) = opcode_range_from (sp_handlers sp) 0xFFFFFFFF 0
      in sp\<lparr>sp_opcode_range_lo := lo, sp_opcode_range_hi := hi\<rparr>)"

definition service_provider_init ::
  "'c \<Rightarrow> bytes \<Rightarrow> ('c, 'w) service_handler list \<Rightarrow> ('c, 'w) service_provider" where
  "service_provider_init ctx uuid handlers =
     set_opcode_range
       \<lparr>sp_context = ctx, sp_uuid = uuid, sp_handlers = handlers,
        sp_opcode_range_lo = 0, sp_opcode_range_hi = 0, sp_successor = None\<rparr>"

text \<open>\<open>receive\<close> of the provider at address \<open>p\<close>: its own handler, else its successor, else
  an error. A cyclic chain would recurse forever, so the result is an option.\<close>

partial_function (option) receive ::
  "('c, 'w) provider_store \<Rightarrow> nat \<Rightarrow> rpc_request \<Rightarrow> 'w \<Rightarrow> 'w handler_result" where
  "receive st p req w =
     (case st p of
        None \<Rightarrow> None
      | Some sp \<Rightarrow>
          (case find_handler sp (ucast (req_opcode req)) of
             Some h \<Rightarrow> sh_invoke h (sp_context sp) req w
           | None \<Rightarrow>
               (case sp_successor sp of
                  Some q \<Rightarrow> receive st q req w
                | None \<Rightarrow> Some (RPC_ERROR_INVALID_VALUE, req, w))))"

definition rpc_service_receive ::
  "('c, 'w) provider_store \<Rightarrow> nat option \<Rightarrow> rpc_request \<Rightarrow> 'w \<Rightarrow> 'w handler_result" where
  "rpc_service_receive st service req w =
     (case service of
        None \<Rightarrow> Some (RPC_ERROR_INVALID_VALUE, req, w)
      | Some p \<Rightarrow> receive st p req w)"

text \<open>\<open>service_provider_extend\<close> and \<open>service_provider_link_successor\<close> write through the
  provider pointers; a pointer to no object is undefined behaviour.\<close>

definition service_provider_extend ::
  "('c, 'w) provider_store \<Rightarrow> nat \<Rightarrow> nat \<Rightarrow> ('c, 'w) provider_store option" where
  "service_provider_extend st ctx sub =
     do {
       c \<leftarrow> st ctx;
       s \<leftarrow> st sub;
       let st1 = st(sub \<mapsto> s\<lparr>sp_successor := sp_successor c\<rparr>);
       c1 \<leftarrow> st1 ctx;
       Some (st1(ctx \<mapsto> c1\<lparr>sp_successor := Some sub\<rparr>))
     }"

definition service_provider_link_successor ::
  "('c, 'w) provider_store \<Rightarrow> nat \<Rightarrow> nat option \<Rightarrow> ('c, 'w) provider_store option" where
  "service_provider_link_successor st p succ =
     do {
       sp \<leftarrow> st p;
       Some (st(p \<mapsto> sp\<lparr>sp_successor := succ\<rparr>))
     }"


section \<open>The opcode range is only a shortcut\<close>

definition opcode_range_ok :: "('c, 'w) service_provider \<Rightarrow> bool" where
  "opcode_range_ok sp \<longleftrightarrow>
     (sp_opcode_range_lo sp, sp_opcode_range_hi sp) = opcode_range_from (sp_handlers sp) 0xFFFFFFFF 0"

lemma opcode_range_from_bounds:
  assumes "opcode_range_from hs lo hi = (l, u)"
  shows "l \<le> lo \<and> hi \<le> u \<and> (\<forall>h \<in> set hs. l \<le> sh_opcode h \<and> sh_opcode h \<le> u)"
  using assms
proof (induction hs arbitrary: lo hi)
  case Nil
  then show ?case by simp
next
  case (Cons h hs)
  let ?lo = "if sh_opcode h < lo then sh_opcode h else lo"
  let ?hi = "if hi < sh_opcode h then sh_opcode h else hi"
  from Cons.prems have "opcode_range_from hs ?lo ?hi = (l, u)"
    by simp
  then have "l \<le> ?lo \<and> ?hi \<le> u \<and> (\<forall>h \<in> set hs. l \<le> sh_opcode h \<and> sh_opcode h \<le> u)"
    by (rule Cons.IH)
  then show ?case
    by (auto split: if_splits)
qed

lemma find_handler_from_find:
  "find_handler_from hs opc = find (\<lambda>h. sh_opcode h = opc) hs"
  by (induction hs) simp_all

lemma find_handler_from_Some:
  "find_handler_from hs opc = Some h \<Longrightarrow> h \<in> set hs \<and> sh_opcode h = opc"
  by (induction hs) (auto split: if_splits)

lemma find_handler_eq_find:
  assumes "opcode_range_ok sp"
  shows "find_handler sp opc = find (\<lambda>h. sh_opcode h = opc) (sp_handlers sp)"
proof (cases "sp_opcode_range_lo sp \<le> opc \<and> opc \<le> sp_opcode_range_hi sp")
  case True
  then show ?thesis
    by (simp add: find_handler_def find_handler_from_find)
next
  case False
  have "find_handler_from (sp_handlers sp) opc = None"
  proof (rule ccontr)
    assume "find_handler_from (sp_handlers sp) opc \<noteq> None"
    then obtain h where "h \<in> set (sp_handlers sp)" "sh_opcode h = opc"
      by (auto dest: find_handler_from_Some)
    with assms opcode_range_from_bounds [of "sp_handlers sp"] False show False
      by (metis opcode_range_ok_def)
  qed
  with False show ?thesis
    by (simp add: find_handler_def find_handler_from_find)
qed

lemma service_provider_init_range_ok: "opcode_range_ok (service_provider_init c u hs)"
  by (simp add: service_provider_init_def set_opcode_range_def opcode_range_ok_def split: prod.splits)

lemma service_provider_init_simps [simp]:
  "sp_context (service_provider_init c u hs) = c"
  "sp_uuid (service_provider_init c u hs) = u"
  "sp_handlers (service_provider_init c u hs) = hs"
  "sp_successor (service_provider_init c u hs) = None"
  by (simp_all add: service_provider_init_def set_opcode_range_def split: prod.splits)


section \<open>The chain of responsibility\<close>

text \<open>\<open>provider_chain st p ps\<close>: following successors from \<open>p\<close> visits exactly the providers
  \<open>ps\<close> and ends.\<close>

inductive provider_chain :: "('c, 'w) provider_store \<Rightarrow> nat \<Rightarrow> nat list \<Rightarrow> bool" where
  last: "st p = Some sp \<Longrightarrow> sp_successor sp = None \<Longrightarrow> provider_chain st p [p]"
| link: "st p = Some sp \<Longrightarrow> sp_successor sp = Some q \<Longrightarrow> provider_chain st q qs \<Longrightarrow>
     provider_chain st p (p # qs)"

inductive_cases provider_chainE: "provider_chain st p ps"

text \<open>The reference: offer the request to each provider in turn.\<close>

fun dispatch ::
  "('c, 'w) service_provider list \<Rightarrow> rpc_request \<Rightarrow> 'w \<Rightarrow> 'w handler_result" where
  "dispatch [] req w = Some (RPC_ERROR_INVALID_VALUE, req, w)"
| "dispatch (sp # sps) req w =
     (case find (\<lambda>h. sh_opcode h = ucast (req_opcode req)) (sp_handlers sp) of
        Some h \<Rightarrow> sh_invoke h (sp_context sp) req w
      | None \<Rightarrow> dispatch sps req w)"

definition providers_ok :: "('c, 'w) provider_store \<Rightarrow> bool" where
  "providers_ok st \<longleftrightarrow> (\<forall>p sp. st p = Some sp \<longrightarrow> opcode_range_ok sp)"

lemma receive_chain:
  assumes "provider_chain st p ps" and "providers_ok st"
  shows "receive st p req w = dispatch (map (\<lambda>q. the (st q)) ps) req w"
  using assms
proof (induction rule: provider_chain.induct)
  case (last st p sp)
  then have "opcode_range_ok sp"
    by (simp add: providers_ok_def)
  with last show ?case
    by (subst receive.simps) (simp add: find_handler_eq_find split: option.splits)
next
  case (link st p sp q qs)
  then have "opcode_range_ok sp"
    by (simp add: providers_ok_def)
  with link show ?case
    by (subst receive.simps) (simp add: find_handler_eq_find split: option.splits)
qed

text \<open>A service made of one provider dispatches on its own table only.\<close>

lemma single_provider_receive:
  "rpc_service_receive [a \<mapsto> service_provider_init c u hs] (Some a) req w =
     (case find (\<lambda>h. sh_opcode h = ucast (req_opcode req)) hs of
        Some h \<Rightarrow> sh_invoke h c req w
      | None \<Rightarrow> Some (RPC_ERROR_INVALID_VALUE, req, w))"
proof -
  let ?sp = "service_provider_init c u hs"
  have "provider_chain [a \<mapsto> ?sp] a [a]"
    by (rule provider_chain.last [where sp = ?sp]) (simp_all add: service_provider_init_def set_opcode_range_def split: prod.split)
  moreover have "providers_ok [a \<mapsto> ?sp]"
    by (simp add: providers_ok_def service_provider_init_range_ok)
  ultimately show ?thesis
    by (simp add: rpc_service_receive_def receive_chain split: option.splits)
qed

lemma provider_chain_hd: "provider_chain st p ps \<Longrightarrow> \<exists>qs. ps = p # qs"
  by (auto elim: provider_chainE)

lemma provider_chain_in_store: "provider_chain st p ps \<Longrightarrow> q \<in> set ps \<Longrightarrow> st q \<noteq> None"
  by (induction rule: provider_chain.induct) auto

lemma provider_chain_frame:
  assumes "provider_chain st p ps" and "\<And>q. q \<in> set ps \<Longrightarrow> st' q = st q"
  shows "provider_chain st' p ps"
  using assms
proof (induction rule: provider_chain.induct)
  case (last st p sp)
  then show ?case by (auto intro: provider_chain.last)
next
  case (link st p sp q qs)
  then have "provider_chain st' q qs" and "st' p = Some sp"
    by simp_all
  with link.hyps(2) show ?case
    by (auto intro: provider_chain.link)
qed

text \<open>Extending a provider inserts the sub-provider right behind it.\<close>

lemma service_provider_extend_chain:
  assumes chain: "provider_chain st p (p # ps)" and fresh: "s \<notin> set (p # ps)" "st s \<noteq> None"
    and distinct: "p \<notin> set ps"
  obtains st' where "service_provider_extend st p s = Some st'"
    and "provider_chain st' p (p # s # ps)"
    and "\<And>q. map_option sp_handlers (st' q) = map_option sp_handlers (st q)"
    and "\<And>q. map_option sp_context (st' q) = map_option sp_context (st q)"
    and "providers_ok st \<Longrightarrow> providers_ok st'"
proof -
  obtain c where c: "st p = Some c"
    using provider_chain_in_store [OF chain, of p] by auto
  obtain d where d: "st s = Some d"
    using fresh by auto
  let ?st = "st(s \<mapsto> d\<lparr>sp_successor := sp_successor c\<rparr>, p \<mapsto> c\<lparr>sp_successor := Some s\<rparr>)"
  have ps: "p \<noteq> s"
    using fresh by auto
  then have eq: "service_provider_extend st p s = Some ?st"
    by (simp add: service_provider_extend_def c d Let_def)
  have tail: "provider_chain ?st s (s # ps)"
  proof (cases "sp_successor c")
    case None
    with chain c have "ps = []"
      by (auto elim: provider_chainE)
    with None ps show ?thesis
      by (auto intro: provider_chain.last)
  next
    case (Some q)
    with chain c have "provider_chain st q ps"
      by (auto elim: provider_chainE)
    then have "provider_chain ?st q ps"
      by (rule provider_chain_frame) (use fresh distinct in auto)
    with Some ps show ?thesis
      by (auto intro: provider_chain.link)
  qed
  have "provider_chain ?st p (p # s # ps)"
    by (rule provider_chain.link [OF _ _ tail]) (use ps in auto)
  moreover have "providers_ok st \<Longrightarrow> providers_ok ?st"
    using c d by (auto simp: providers_ok_def opcode_range_ok_def)
  ultimately show ?thesis
    using that [OF eq] c d by auto
qed


section \<open>The contract of an RPC endpoint\<close>

text \<open>
  What a transport relies on: on a well-formed request, in a state satisfying the service's
  invariant, the endpoint returns (no undefined behaviour, no divergence), keeps the invariant,
  and leaves the request well-formed with its buffers at their sizes.
\<close>

definition same_buffer_sizes :: "rpc_request \<Rightarrow> rpc_request \<Rightarrow> bool" where
  "same_buffer_sizes req req' \<longleftrightarrow>
     rb_size (req_response req') = rb_size (req_response req) \<and> req_request req' = req_request req"

locale rpc_service =
  fixes serve :: "rpc_request \<Rightarrow> 'w \<Rightarrow> 'w handler_result"
    and service_inv :: "'w \<Rightarrow> bool"
  assumes serve_returns:
    "service_inv w \<Longrightarrow> wf_rpc_request req \<Longrightarrow>
      \<exists>st req' w'. serve req w = Some (st, req', w') \<and> service_inv w'
        \<and> wf_rpc_request req' \<and> same_buffer_sizes req req'"
begin

lemma serve_inv:
  "service_inv w \<Longrightarrow> wf_rpc_request req \<Longrightarrow> serve req w = Some (st, req', w') \<Longrightarrow> service_inv w'"
  using serve_returns by fastforce

lemma serve_response_in_buffer:
  assumes "service_inv w" and "wf_rpc_request req" and "serve req w = Some (st, req', w')"
  shows "rb_data_length (req_response req') \<le> rb_size (req_response req)
    \<and> length (rb_data (req_response req')) = rb_size (req_response req)"
  using serve_returns [OF assms(1,2)] assms(3)
  by (auto simp: wf_rpc_request_def wf_rpc_buffer_def same_buffer_sizes_def)

end



section \<open>Concrete requests\<close>

text \<open>A request with body \<open>body\<close> and room for \<open>n\<close> bytes of response.\<close>

definition sample_request :: "u16 \<Rightarrow> bytes \<Rightarrow> nat \<Rightarrow> rpc_request" where
  "sample_request opc body n =
     \<lparr>req_source_id = 0, req_interface_id = 0, req_opcode = opc, req_client_id = 0,
      req_service_status = 0,
      req_request = \<lparr>rb_data = body, rb_data_length = length body, rb_size = length body\<rparr>,
      req_response = \<lparr>rb_data = replicate n 0, rb_data_length = 0, rb_size = n\<rparr>\<rparr>"

lemma sample_request_wf:
  "length body \<le> UINT32_MAX \<Longrightarrow> n \<le> UINT32_MAX \<Longrightarrow> wf_rpc_request (sample_request opc body n)"
  by (simp add: wf_rpc_request_def wf_rpc_buffer_def sample_request_def)


section \<open>Properties\<close>

text \<open>
  Property C23. The opcode range a provider computes at initialisation is only a shortcut: looking
  an opcode up gives the first handler registered for it, whatever the range.
\<close>

theorem find_handler_is_first_match:
  "find_handler (service_provider_init c u hs) opc = find (\<lambda>h. sh_opcode h = opc) hs"
  using find_handler_eq_find [OF service_provider_init_range_ok, of c u hs opc] by simp

text \<open>
  Property C24. Extending a provider with a sub-provider inserts the sub-provider right behind it
  in the chain of responsibility: from then on a request is offered to the provider, then to the
  sub-provider, then to the rest of the chain, and every request is answered.
\<close>

theorem provider_extend_dispatch_order:
  assumes "provider_chain st p (p # ps)" and "s \<notin> set (p # ps)" and "st s \<noteq> None" and "p \<notin> set ps"
    and "providers_ok st"
  shows "\<exists>st'. service_provider_extend st p s = Some st'
    \<and> receive st' p req w = dispatch (map (\<lambda>q. the (st' q)) (p # s # ps)) req w
    \<and> (\<forall>q. map_option sp_handlers (st' q) = map_option sp_handlers (st q))"
proof (rule service_provider_extend_chain [OF assms(1-4)])
  fix st'
  assume st': "service_provider_extend st p s = Some st'" "provider_chain st' p (p # s # ps)"
    "\<And>q. map_option sp_handlers (st' q) = map_option sp_handlers (st q)"
    "providers_ok st \<Longrightarrow> providers_ok st'"
  have "receive st' p req w = dispatch (map (\<lambda>q. the (st' q)) (p # s # ps)) req w"
    by (rule receive_chain [OF st'(2) st'(4) [OF assms(5)]])
  with st'(1,3) show ?thesis
    by (intro exI [of _ st'] conjI allI)
qed

definition sample_store :: "(unit, nat) provider_store" where
  "sample_store =
     [0 \<mapsto> service_provider_init () [] [\<lparr>sh_opcode = 1, sh_invoke = (\<lambda>_ req w. Some (0, req, w + 1))\<rparr>],
      1 \<mapsto> service_provider_init () [] [\<lparr>sh_opcode = 2, sh_invoke = (\<lambda>_ req w. Some (0, req, w + 2))\<rparr>]]"

theorem provider_extend_dispatch_order_witness:
  "\<exists>st'. service_provider_extend sample_store 0 1 = Some st'
    \<and> receive st' 0 (sample_request 2 [] 0) 5
        = dispatch (map (\<lambda>q. the (st' q)) [0, 1]) (sample_request 2 [] 0) 5"
proof -
  have sp: "\<exists>sp. sample_store 0 = Some sp \<and> sp_successor sp = None"
    by (simp add: sample_store_def service_provider_init_def set_opcode_range_def)
  have "provider_chain sample_store 0 [0]"
    using sp by (auto intro: provider_chain.last)
  moreover have "sample_store 1 \<noteq> None"
    by (simp add: sample_store_def)
  moreover have "providers_ok sample_store"
    by (auto simp: providers_ok_def sample_store_def service_provider_init_range_ok)
  ultimately have "\<exists>st'. service_provider_extend sample_store 0 1 = Some st'
    \<and> receive st' 0 (sample_request 2 [] 0) 5
        = dispatch (map (\<lambda>q. the (st' q)) [0, 1]) (sample_request 2 [] 0) 5
    \<and> (\<forall>q. map_option sp_handlers (st' q) = map_option sp_handlers (sample_store q))"
    by (intro provider_extend_dispatch_order) simp_all
  then show ?thesis by blast
qed

end
