(* ===== verification/RpcCaller.thy ===== *)
theory RpcCaller
  imports Rpc
begin

text \<open>
  The caller side of the RPC layer: the caller interface (\<open>rpc_caller.h\<close>,
  \<open>rpc_caller.c\<close>), call transactions over a session (\<open>rpc_caller_session.c\<close>) and the
  direct caller (\<open>direct_caller.c\<close>), which hands requests to a service in the same image.

  The caller object behind the interface has the state \<open>'c\<close>; it is passed along beside the
  session, whose \<open>ses_caller\<close> says whether the session's caller pointer is set. A NULL
  argument that the code tests for is a \<open>None\<close> or a false flag. The request and response
  buffers of a transaction are the shared memory of the session.
\<close>

section \<open>The caller interface\<close>

record rpc_caller_shared_memory =
  shm_id :: nat
  shm_buffer :: "bytes option"
  shm_size :: size_t

definition null_shared_memory :: rpc_caller_shared_memory where
  "null_shared_memory = \<lparr>shm_id = 0, shm_buffer = None, shm_size = 0\<rparr>"

record 'c rpc_caller_interface =
  ci_open_session :: "'c \<Rightarrow> bytes \<Rightarrow> u16 \<Rightarrow> rpc_status \<times> 'c"
  ci_find_and_open_session :: "'c \<Rightarrow> bytes \<Rightarrow> rpc_status \<times> 'c"
  ci_close_session :: "'c \<Rightarrow> rpc_status \<times> 'c"
  ci_create_shared_memory ::
    "'c \<Rightarrow> size_t \<Rightarrow> rpc_caller_shared_memory \<Rightarrow> rpc_status \<times> rpc_caller_shared_memory \<times> 'c"
  ci_release_shared_memory ::
    "'c \<Rightarrow> rpc_caller_shared_memory \<Rightarrow> rpc_status \<times> rpc_caller_shared_memory \<times> 'c"
  ci_call ::
    "'c \<Rightarrow> u16 \<Rightarrow> rpc_caller_shared_memory \<Rightarrow> size_t \<Rightarrow>
      (rpc_status \<times> rpc_caller_shared_memory \<times> size_t \<times> service_status \<times> 'c) option"

definition rpc_caller_open_session ::
  "'c rpc_caller_interface \<Rightarrow> bool \<Rightarrow> 'c \<Rightarrow> bytes \<Rightarrow> u16 \<Rightarrow> rpc_status \<times> 'c" where
  "rpc_caller_open_session ci caller c uuid ep =
     (if \<not> caller then (RPC_ERROR_INVALID_VALUE, c) else ci_open_session ci c uuid ep)"

definition rpc_caller_find_and_open_session ::
  "'c rpc_caller_interface \<Rightarrow> bool \<Rightarrow> 'c \<Rightarrow> bytes \<Rightarrow> rpc_status \<times> 'c" where
  "rpc_caller_find_and_open_session ci caller c uuid =
     (if \<not> caller then (RPC_ERROR_INVALID_VALUE, c) else ci_find_and_open_session ci c uuid)"

definition rpc_caller_close_session ::
  "'c rpc_caller_interface \<Rightarrow> bool \<Rightarrow> 'c \<Rightarrow> rpc_status \<times> 'c" where
  "rpc_caller_close_session ci caller c =
     (if \<not> caller then (RPC_ERROR_INVALID_VALUE, c) else ci_close_session ci c)"

definition rpc_caller_create_shared_memory ::
  "'c rpc_caller_interface \<Rightarrow> bool \<Rightarrow> 'c \<Rightarrow> size_t \<Rightarrow> rpc_caller_shared_memory \<Rightarrow>
    rpc_status \<times> rpc_caller_shared_memory \<times> 'c" where
  "rpc_caller_create_shared_memory ci caller c len shm =
     (if \<not> caller then (RPC_ERROR_INVALID_VALUE, shm, c) else ci_create_shared_memory ci c len shm)"

definition rpc_caller_release_shared_memory ::
  "'c rpc_caller_interface \<Rightarrow> bool \<Rightarrow> 'c \<Rightarrow> rpc_caller_shared_memory \<Rightarrow>
    rpc_status \<times> rpc_caller_shared_memory \<times> 'c" where
  "rpc_caller_release_shared_memory ci caller c shm =
     (if \<not> caller then (RPC_ERROR_INVALID_VALUE, shm, c) else ci_release_shared_memory ci c shm)"

text \<open>\<open>rpc_caller_call\<close> also returns what it left in \<open>*response_length\<close> and
  \<open>*service_status\<close>; with a NULL caller both out-parameters keep their values.\<close>

definition rpc_caller_call ::
  "'c rpc_caller_interface \<Rightarrow> bool \<Rightarrow> 'c \<Rightarrow> u16 \<Rightarrow> rpc_caller_shared_memory \<Rightarrow> size_t \<Rightarrow> size_t \<Rightarrow>
    service_status \<Rightarrow>
    (rpc_status \<times> rpc_caller_shared_memory \<times> size_t \<times> service_status \<times> 'c) option" where
  "rpc_caller_call ci caller c opc shm request_length response_length service_status =
     (if \<not> caller then Some (RPC_ERROR_INVALID_VALUE, shm, response_length, service_status, c)
      else ci_call ci c opc shm request_length)"


section \<open>Sessions and call transactions\<close>

datatype rpc_caller_memory_policy = alloc_for_each_call | alloc_for_session | invalid_policy nat

record rpc_caller_session =
  ses_caller :: bool
  ses_shared_memory :: rpc_caller_shared_memory
  ses_policy :: rpc_caller_memory_policy
  ses_in_progress :: bool
  ses_request_length :: size_t

definition initalize_shared_memory ::
  "'c rpc_caller_interface \<Rightarrow> rpc_caller_session \<Rightarrow> bool \<Rightarrow> 'c \<Rightarrow> size_t \<Rightarrow>
    rpc_status \<times> rpc_caller_session \<times> 'c" where
  "initalize_shared_memory ci ses caller c shared_memory_size =
     (if shared_memory_size \<noteq> 0 then
        (let (status, shm, c1) =
           rpc_caller_create_shared_memory ci caller c shared_memory_size (ses_shared_memory ses)
         in if status \<noteq> RPC_SUCCESS
            then (status, ses\<lparr>ses_shared_memory := shm\<rparr>, snd (rpc_caller_close_session ci caller c1))
            else (RPC_SUCCESS,
                  ses\<lparr>ses_shared_memory := shm, ses_policy := alloc_for_session\<rparr>, c1))
      else
        (RPC_SUCCESS,
         ses\<lparr>ses_shared_memory := null_shared_memory, ses_policy := alloc_for_each_call\<rparr>, c))"

text \<open>The common tail of the two open functions: shared memory, then the session fields.\<close>

definition rpc_caller_session_setup ::
  "'c rpc_caller_interface \<Rightarrow> rpc_caller_session \<Rightarrow> bool \<Rightarrow> 'c \<Rightarrow> size_t \<Rightarrow>
    rpc_status \<times> rpc_caller_session \<times> 'c" where
  "rpc_caller_session_setup ci ses caller c shared_memory_size =
     (let (status, ses1, c1) = initalize_shared_memory ci ses caller c shared_memory_size
      in if status \<noteq> RPC_SUCCESS then (status, ses1, c1)
         else (status,
               ses1\<lparr>ses_caller := caller, ses_in_progress := False, ses_request_length := 0\<rparr>, c1))"

definition rpc_caller_session_open ::
  "'c rpc_caller_interface \<Rightarrow> rpc_caller_session option \<Rightarrow> bool \<Rightarrow> 'c \<Rightarrow> bytes option \<Rightarrow> u16 \<Rightarrow> size_t \<Rightarrow>
    rpc_status \<times> rpc_caller_session option \<times> 'c" where
  "rpc_caller_session_open ci session caller c service_uuid endpoint_id shared_memory_size =
     (case (session, service_uuid) of
        (Some ses, Some uuid) \<Rightarrow>
          (if \<not> caller then (RPC_ERROR_INVALID_VALUE, session, c)
           else
             (let (status, c1) = rpc_caller_open_session ci caller c uuid endpoint_id
              in if status \<noteq> RPC_SUCCESS then (status, session, c1)
                 else
                   (let (status, ses1, c2) =
                      rpc_caller_session_setup ci ses caller c1 shared_memory_size
                    in (status, Some ses1, c2))))
      | _ \<Rightarrow> (RPC_ERROR_INVALID_VALUE, session, c))"

definition rpc_caller_session_find_and_open ::
  "'c rpc_caller_interface \<Rightarrow> rpc_caller_session option \<Rightarrow> bool \<Rightarrow> 'c \<Rightarrow> bytes option \<Rightarrow> size_t \<Rightarrow>
    rpc_status \<times> rpc_caller_session option \<times> 'c" where
  "rpc_caller_session_find_and_open ci session caller c service_uuid shared_memory_size =
     (case (session, service_uuid) of
        (Some ses, Some uuid) \<Rightarrow>
          (if \<not> caller then (RPC_ERROR_INVALID_VALUE, session, c)
           else
             (let (status, c1) = rpc_caller_find_and_open_session ci caller c uuid
              in if status \<noteq> RPC_SUCCESS then (status, session, c1)
                 else
                   (let (status, ses1, c2) =
                      rpc_caller_session_setup ci ses caller c1 shared_memory_size
                    in (status, Some ses1, c2))))
      | _ \<Rightarrow> (RPC_ERROR_INVALID_VALUE, session, c))"

definition rpc_caller_session_close ::
  "'c rpc_caller_interface \<Rightarrow> rpc_caller_session option \<Rightarrow> 'c \<Rightarrow>
    rpc_status \<times> rpc_caller_session option \<times> 'c" where
  "rpc_caller_session_close ci session c =
     (case session of
        None \<Rightarrow> (RPC_ERROR_INVALID_VALUE, session, c)
      | Some ses \<Rightarrow>
          (if ses_in_progress ses then (RPC_ERROR_INVALID_STATE, session, c)
           else if ses_policy ses = alloc_for_session then
             (let (status, shm, c1) =
                rpc_caller_release_shared_memory ci (ses_caller ses) c (ses_shared_memory ses);
                  ses1 = ses\<lparr>ses_shared_memory := shm\<rparr>
              in if status \<noteq> RPC_SUCCESS then (status, Some ses1, c1)
                 else (let (status, c2) = rpc_caller_close_session ci (ses_caller ses1) c1
                       in (status, Some ses1, c2)))
           else (let (status, c1) = rpc_caller_close_session ci (ses_caller ses) c
                 in (status, session, c1))))"

text \<open>\<open>begin\<close> returns whether a handle was issued; the request buffer is then the buffer of
  the session's shared memory.\<close>

definition rpc_caller_session_begin ::
  "'c rpc_caller_interface \<Rightarrow> rpc_caller_session option \<Rightarrow> 'c \<Rightarrow> bool \<Rightarrow> size_t \<Rightarrow> size_t \<Rightarrow>
    bool \<times> rpc_caller_session option \<times> 'c" where
  "rpc_caller_session_begin ci session c request_buffer request_length response_max_length =
     (let required = max request_length response_max_length
      in if UINT32_MAX < required then (False, session, c)
         else
           (case session of
              None \<Rightarrow> (False, session, c)
            | Some ses \<Rightarrow>
                (if \<not> request_buffer \<or> ses_in_progress ses then (False, session, c)
                 else
                   (case ses_policy ses of
                      alloc_for_each_call \<Rightarrow>
                        (if shm_buffer (ses_shared_memory ses) \<noteq> None
                            \<or> shm_size (ses_shared_memory ses) \<noteq> 0
                         then (False, session, c)
                         else
                           (let (status, shm, c1) =
                              rpc_caller_create_shared_memory ci (ses_caller ses) c required
                                (ses_shared_memory ses);
                                ses1 = ses\<lparr>ses_shared_memory := shm\<rparr>
                            in if status \<noteq> RPC_SUCCESS then (False, Some ses1, c1)
                               else (True,
                                     Some (ses1\<lparr>ses_in_progress := True,
                                                ses_request_length := request_length\<rparr>), c1)))
                    | alloc_for_session \<Rightarrow>
                        (if shm_buffer (ses_shared_memory ses) = None
                            \<or> shm_size (ses_shared_memory ses) = 0
                         then (False, session, c)
                         else if shm_size (ses_shared_memory ses) < required
                         then (False, session, c)
                         else (True,
                               Some (ses\<lparr>ses_in_progress := True,
                                         ses_request_length := request_length\<rparr>), c))
                    | invalid_policy _ \<Rightarrow> (False, session, c)))))"

text \<open>The result of \<open>invoke\<close>: status, the response buffer and length (\<open>None\<close> for the NULL
  pointer), the service status, and the new states. \<open>out_pointers\<close> says that the response
  buffer and length pointers are both given, \<open>out_length\<close> and \<open>out_status\<close> are the
  values of the out-parameters before the call.\<close>

definition rpc_caller_session_invoke ::
  "'c rpc_caller_interface \<Rightarrow> rpc_caller_session option \<Rightarrow> 'c \<Rightarrow> u32 \<Rightarrow> bool \<Rightarrow> size_t \<Rightarrow>
    service_status \<Rightarrow>
    (rpc_status \<times> bytes option \<times> size_t \<times> service_status \<times> rpc_caller_session option \<times> 'c) option"
where
  "rpc_caller_session_invoke ci session c opc out_pointers out_length out_status =
     (case session of
        None \<Rightarrow> Some (RPC_ERROR_INVALID_VALUE, None, out_length, out_status, session, c)
      | Some ses \<Rightarrow>
          (if \<not> out_pointers
           then Some (RPC_ERROR_INVALID_VALUE, None, out_length, out_status, session, c)
           else if \<not> ses_in_progress ses
           then Some (RPC_ERROR_INVALID_STATE, None, out_length, out_status, session, c)
           else if ses_request_length ses \<noteq> 0
             \<and> (shm_buffer (ses_shared_memory ses) = None \<or> shm_size (ses_shared_memory ses) = 0)
           then Some (RPC_ERROR_INVALID_STATE, None, out_length, out_status, session, c)
           else
             do {
               (status, shm, len, sstatus, c1) \<leftarrow>
                 rpc_caller_call ci (ses_caller ses) c (ucast opc) (ses_shared_memory ses)
                   (ses_request_length ses) out_length out_status;
               let ses1 = ses\<lparr>ses_shared_memory := shm\<rparr>;
               if status \<noteq> RPC_SUCCESS \<or> shm_size shm < len
               then Some (status, None, 0, sstatus, Some ses1, c1)
               else Some (status, shm_buffer shm, len, sstatus, Some ses1, c1)
             }))"

definition rpc_caller_session_end ::
  "'c rpc_caller_interface \<Rightarrow> rpc_caller_session option \<Rightarrow> 'c \<Rightarrow>
    rpc_status \<times> rpc_caller_session option \<times> 'c" where
  "rpc_caller_session_end ci session c =
     (case session of
        None \<Rightarrow> (RPC_ERROR_INVALID_VALUE, session, c)
      | Some ses \<Rightarrow>
          (if \<not> ses_in_progress ses then (RPC_ERROR_INVALID_STATE, session, c)
           else if ses_request_length ses \<noteq> 0
             \<and> (shm_buffer (ses_shared_memory ses) = None \<or> shm_size (ses_shared_memory ses) = 0)
           then (RPC_ERROR_INVALID_STATE, session, c)
           else
             (case ses_policy ses of
                alloc_for_each_call \<Rightarrow>
                  (let (status, shm, c1) =
                     rpc_caller_release_shared_memory ci (ses_caller ses) c (ses_shared_memory ses)
                   in if status \<noteq> RPC_SUCCESS
                      then (status, Some (ses\<lparr>ses_shared_memory := shm\<rparr>), c1)
                      else (RPC_SUCCESS,
                            Some (ses\<lparr>ses_shared_memory := null_shared_memory,
                                      ses_in_progress := False, ses_request_length := 0\<rparr>), c1))
              | alloc_for_session \<Rightarrow>
                  (RPC_SUCCESS, Some (ses\<lparr>ses_in_progress := False, ses_request_length := 0\<rparr>), c)
              | invalid_policy _ \<Rightarrow> (RPC_ERROR_INVALID_STATE, session, c))))"

text \<open>A client fills the request buffer it got from \<open>begin\<close>: the \<open>memcpy\<close> to
  \<open>req_buf + off\<close>.\<close>

definition rpc_request_buffer_write ::
  "rpc_caller_session option \<Rightarrow> nat \<Rightarrow> bytes \<Rightarrow> rpc_caller_session option option" where
  "rpc_request_buffer_write session off d =
     (if d = [] then Some session
      else
        do {
          ses \<leftarrow> session;
          b \<leftarrow> shm_buffer (ses_shared_memory ses);
          b' \<leftarrow> mem_write b off d;
          Some (Some (ses\<lparr>ses_shared_memory := (ses_shared_memory ses)\<lparr>shm_buffer := Some b'\<rparr>\<rparr>))
        })"

text \<open>
  The call every service client makes: begin, fill the request buffer by a sequence of copies,
  invoke, end. The result is \<open>None\<close> when no handle was issued, else what \<open>invoke\<close>
  returned.
\<close>

fun rpc_request_buffer_writes ::
  "rpc_caller_session option \<Rightarrow> (nat \<times> bytes) list \<Rightarrow> rpc_caller_session option option" where
  "rpc_request_buffer_writes session [] = Some session"
| "rpc_request_buffer_writes session ((off, d) # ws) =
     do {
       session1 \<leftarrow> rpc_request_buffer_write session off d;
       rpc_request_buffer_writes session1 ws
     }"

definition rpc_client_call ::
  "'c rpc_caller_interface \<Rightarrow> rpc_caller_session option \<Rightarrow> 'c \<Rightarrow> u32 \<Rightarrow> size_t \<Rightarrow> (nat \<times> bytes) list \<Rightarrow>
    size_t \<Rightarrow>
    ((rpc_status \<times> bytes option \<times> size_t \<times> service_status) option
      \<times> rpc_caller_session option \<times> 'c) option" where
  "rpc_client_call ci session c opc req_len writes response_max =
     (let (handle, s1, c1) = rpc_caller_session_begin ci session c True req_len response_max
      in if \<not> handle then Some (None, s1, c1)
         else
           do {
             s2 \<leftarrow> rpc_request_buffer_writes s1 writes;
             (status, resp, len, sstatus, s3, c2) \<leftarrow>
               rpc_caller_session_invoke ci s2 c1 opc True 0 0;
             let (_, s4, c3) = rpc_caller_session_end ci s3 c2;
             Some (Some (status, resp, len, sstatus), s4, c3)
           })"

text \<open>The common case of one message.\<close>

definition rpc_client_transaction ::
  "'c rpc_caller_interface \<Rightarrow> rpc_caller_session option \<Rightarrow> 'c \<Rightarrow> u32 \<Rightarrow> bytes \<Rightarrow> size_t \<Rightarrow>
    ((rpc_status \<times> bytes option \<times> size_t \<times> service_status) option
      \<times> rpc_caller_session option \<times> 'c) option" where
  "rpc_client_transaction ci session c opc msg response_max =
     rpc_client_call ci session c opc (length msg) [(0, msg)] response_max"

text \<open>A header followed by a payload is one message.\<close>

lemma request_buffer_write_append:
  assumes "a \<noteq> []"
  shows "rpc_request_buffer_writes session [(off, a), (off + length a, b)]
    = rpc_request_buffer_writes session [(off, a @ b)]"
  using assms
  by (cases session; cases "b = []")
    (auto simp: rpc_request_buffer_write_def mem_write_def splice_splice_adjacent
      split: option.splits bind_splits)

lemma rpc_client_call_no_request:
  "rpc_client_call ci session c opc 0 [] ml = rpc_client_transaction ci session c opc [] ml"
proof -
  have "rpc_request_buffer_writes session1 [(0, [])] = rpc_request_buffer_writes session1 []" for session1
    by (simp add: rpc_request_buffer_write_def)
  then show ?thesis
    by (simp add: rpc_client_call_def rpc_client_transaction_def split: prod.split
        del: rpc_request_buffer_writes.simps)
qed

lemma rpc_client_call_header_payload:
  assumes "a \<noteq> []" and "req_len = length a + length b" and "n = length a"
  shows "rpc_client_call ci session c opc req_len [(0, a), (n, b)] ml
    = rpc_client_transaction ci session c opc (a @ b) ml"
  using request_buffer_write_append [OF assms(1), of _ 0 b] assms(2,3)
  by (simp add: rpc_client_call_def rpc_client_transaction_def split: prod.split
      del: rpc_request_buffer_writes.simps)


section \<open>The direct caller\<close>

record 'w direct_caller_context =
  dc_service_uuid :: bytes
  dc_endpoint_id :: u16
  dc_world :: 'w

text \<open>The static counter \<open>next_caller_id\<close> is 32 bits wide, the identifier it assigns 16.\<close>

definition allocate_caller_endpoint_id :: "u32 \<Rightarrow> u16 \<times> u32" where
  "allocate_caller_endpoint_id next_caller_id = (ucast next_caller_id, next_caller_id + 1)"

definition direct_find_and_open_session ::
  "'w direct_caller_context \<Rightarrow> bytes \<Rightarrow> rpc_status \<times> 'w direct_caller_context" where
  "direct_find_and_open_session ctx uuid =
     (if uuid \<noteq> dc_service_uuid ctx then (RPC_ERROR_NOT_FOUND, ctx) else (RPC_SUCCESS, ctx))"

definition direct_open_session ::
  "'w direct_caller_context \<Rightarrow> bytes \<Rightarrow> u16 \<Rightarrow> rpc_status \<times> 'w direct_caller_context" where
  "direct_open_session ctx uuid endpoint_id = direct_find_and_open_session ctx uuid"

definition direct_close_session ::
  "'w direct_caller_context \<Rightarrow> rpc_status \<times> 'w direct_caller_context" where
  "direct_close_session ctx = (RPC_SUCCESS, ctx)"

text \<open>\<open>alloc_ok n\<close> says whether \<open>calloc\<close> finds \<open>n\<close> bytes; the code does not look.\<close>

definition direct_create_shared_memory ::
  "(size_t \<Rightarrow> bool) \<Rightarrow> 'w direct_caller_context \<Rightarrow> size_t \<Rightarrow> rpc_caller_shared_memory \<Rightarrow>
    rpc_status \<times> rpc_caller_shared_memory \<times> 'w direct_caller_context" where
  "direct_create_shared_memory alloc_ok ctx n shm =
     (RPC_SUCCESS,
      shm\<lparr>shm_id := 0, shm_buffer := (if alloc_ok n then Some (replicate n 0) else None),
          shm_size := n\<rparr>,
      ctx)"

definition direct_release_shared_memory ::
  "'w direct_caller_context \<Rightarrow> rpc_caller_shared_memory \<Rightarrow>
    rpc_status \<times> rpc_caller_shared_memory \<times> 'w direct_caller_context" where
  "direct_release_shared_memory ctx shm = (RPC_SUCCESS, shm, ctx)"

text \<open>Request and response both lie in the shared memory. The services read their parameters
  before they write the response, so the two buffers start out as two views of the same bytes and
  the memory afterwards is the response view.\<close>

definition direct_request ::
  "'w direct_caller_context \<Rightarrow> u16 \<Rightarrow> rpc_caller_shared_memory \<Rightarrow> size_t \<Rightarrow> rpc_request" where
  "direct_request ctx opc shm request_length =
     (let mem = (case shm_buffer shm of Some b \<Rightarrow> b | None \<Rightarrow> [])
      in \<lparr>req_source_id = dc_endpoint_id ctx, req_interface_id = 0, req_opcode = opc,
          req_client_id = 0, req_service_status = 0,
          req_request = \<lparr>rb_data = mem, rb_data_length = request_length, rb_size = shm_size shm\<rparr>,
          req_response = \<lparr>rb_data = mem, rb_data_length = 0, rb_size = shm_size shm\<rparr>\<rparr>)"

definition direct_call ::
  "(rpc_request \<Rightarrow> 'w \<Rightarrow> 'w handler_result) \<Rightarrow> 'w direct_caller_context \<Rightarrow> u16 \<Rightarrow>
    rpc_caller_shared_memory \<Rightarrow> size_t \<Rightarrow>
    (rpc_status \<times> rpc_caller_shared_memory \<times> size_t \<times> service_status \<times> 'w direct_caller_context)
    option" where
  "direct_call serve ctx opc shm request_length =
     do {
       (status, req, w) \<leftarrow> serve (direct_request ctx opc shm request_length) (dc_world ctx);
       Some (status,
             shm\<lparr>shm_buffer := map_option (\<lambda>_. rb_data (req_response req)) (shm_buffer shm)\<rparr>,
             rb_data_length (req_response req), req_service_status req, ctx\<lparr>dc_world := w\<rparr>)
     }"

definition direct_caller_interface ::
  "(rpc_request \<Rightarrow> 'w \<Rightarrow> 'w handler_result) \<Rightarrow> (size_t \<Rightarrow> bool) \<Rightarrow>
    'w direct_caller_context rpc_caller_interface" where
  "direct_caller_interface serve alloc_ok =
     \<lparr>ci_open_session = direct_open_session,
      ci_find_and_open_session = direct_find_and_open_session,
      ci_close_session = direct_close_session,
      ci_create_shared_memory = direct_create_shared_memory alloc_ok,
      ci_release_shared_memory = direct_release_shared_memory,
      ci_call = direct_call serve\<rparr>"

text \<open>\<open>direct_caller_init\<close>: \<open>caller\<close> is \<open>None\<close> for a NULL pointer, else the caller's
  current context; \<open>ctx_alloc\<close> whether the context could be allocated.\<close>

definition direct_caller_init ::
  "'w direct_caller_context option option \<Rightarrow> bool \<Rightarrow> bytes \<Rightarrow> 'w \<Rightarrow> u32 \<Rightarrow>
    rpc_status \<times> 'w direct_caller_context option option \<times> u32" where
  "direct_caller_init caller ctx_alloc uuid w next_id =
     (case caller of
        Some None \<Rightarrow>
          (if \<not> ctx_alloc then (RPC_ERROR_INTERNAL, caller, next_id)
           else
             (let (ep, next_id1) = allocate_caller_endpoint_id next_id
              in (RPC_SUCCESS,
                  Some (Some \<lparr>dc_service_uuid = uuid, dc_endpoint_id = ep, dc_world = w\<rparr>),
                  next_id1)))
      | _ \<Rightarrow> (RPC_ERROR_INVALID_VALUE, caller, next_id))"

text \<open>\<open>direct_caller_deinit\<close> frees the context (the last component says so) and leaves the
  pointer to it in the caller.\<close>

definition direct_caller_deinit ::
  "'w direct_caller_context option option \<Rightarrow> rpc_status \<times> 'w direct_caller_context option option \<times> bool"
where
  "direct_caller_deinit caller =
     (case caller of
        Some (Some ctx) \<Rightarrow> (RPC_SUCCESS, caller, True)
      | _ \<Rightarrow> (RPC_ERROR_INVALID_VALUE, caller, False))"

text \<open>A transaction makes at most one allocation.\<close>

lemma direct_transaction_alloc:
  assumes "ses_policy ses = alloc_for_each_call \<longrightarrow> alloc_ok (max (length msg) ml)"
  shows "rpc_client_transaction (direct_caller_interface serve alloc_ok) (Some ses) c opc msg ml
    = rpc_client_transaction (direct_caller_interface serve (\<lambda>_. True)) (Some ses) c opc msg ml"
proof -
  let ?a = "direct_caller_interface serve alloc_ok" and ?b = "direct_caller_interface serve (\<lambda>_. True)"
  have begins: "rpc_caller_session_begin ?a (Some ses) c True (length msg) ml = rpc_caller_session_begin ?b (Some ses) c True (length msg) ml"
    using assms
    by (cases "ses_policy ses")
      (simp_all add: rpc_caller_session_begin_def rpc_caller_create_shared_memory_def direct_caller_interface_def
        direct_create_shared_memory_def Let_def)
  have calls: "rpc_caller_call ?a = rpc_caller_call ?b"
    "rpc_caller_release_shared_memory ?a = rpc_caller_release_shared_memory ?b"
    by (simp_all add: fun_eq_iff rpc_caller_call_def rpc_caller_release_shared_memory_def direct_caller_interface_def)
  have rest: "rpc_caller_session_invoke ?a = rpc_caller_session_invoke ?b" "rpc_caller_session_end ?a = rpc_caller_session_end ?b"
    unfolding rpc_caller_session_invoke_def [abs_def] rpc_caller_session_end_def [abs_def] calls by (rule refl)+
  show ?thesis unfolding rpc_client_transaction_def rpc_client_call_def begins rest by (rule refl)
qed


section \<open>The contract of a caller\<close>

definition shm_valid :: "rpc_caller_shared_memory \<Rightarrow> bool" where
  "shm_valid shm \<longleftrightarrow>
     (case shm_buffer shm of None \<Rightarrow> False | Some b \<Rightarrow> length b = shm_size shm)"

lemma shm_valid_write:
  "shm_valid shm \<Longrightarrow> off + length d \<le> shm_size shm \<Longrightarrow>
    shm_valid (shm\<lparr>shm_buffer := Some (splice (the (shm_buffer shm)) off d)\<rparr>)"
  by (auto simp: shm_valid_def split: option.splits)

text \<open>
  \<open>session_ok\<close>: the session owns shared memory exactly while its policy says so, the
  request fits it, and an idle per-call session holds none.
\<close>

definition session_ok :: "rpc_caller_session \<Rightarrow> bool" where
  "session_ok ses \<longleftrightarrow>
     ses_caller ses \<and> ses_request_length ses \<le> UINT32_MAX \<and>
     (case ses_policy ses of
        alloc_for_each_call \<Rightarrow>
          (if ses_in_progress ses
           then shm_valid (ses_shared_memory ses) \<and> shm_size (ses_shared_memory ses) \<le> UINT32_MAX
             \<and> ses_request_length ses \<le> shm_size (ses_shared_memory ses)
           else ses_shared_memory ses = null_shared_memory)
      | alloc_for_session \<Rightarrow>
          shm_valid (ses_shared_memory ses) \<and> 0 < shm_size (ses_shared_memory ses)
          \<and> shm_size (ses_shared_memory ses) < 2 ^ 64
          \<and> ses_request_length ses \<le> shm_size (ses_shared_memory ses)
      | invalid_policy _ \<Rightarrow> False)"

lemma session_ok_in_progress:
  assumes "session_ok ses" and "ses_in_progress ses"
  shows "shm_valid (ses_shared_memory ses)" and "shm_size (ses_shared_memory ses) < 2 ^ 64"
    and "ses_request_length ses \<le> shm_size (ses_shared_memory ses)"
    and "ses_request_length ses \<le> UINT32_MAX" and "ses_caller ses"
  using assms by (auto simp: session_ok_def split: rpc_caller_memory_policy.splits)

lemma session_ok_update_shm:
  assumes "session_ok ses" and "ses_in_progress ses" and "shm_valid shm"
    and "shm_size shm = shm_size (ses_shared_memory ses)"
  shows "session_ok (ses\<lparr>ses_shared_memory := shm\<rparr>)"
  using assms by (auto simp: session_ok_def split: rpc_caller_memory_policy.splits)

lemma session_guard:
  assumes "session_ok ses" and "ses_in_progress ses"
  shows "\<not> (ses_request_length ses \<noteq> 0
    \<and> (shm_buffer (ses_shared_memory ses) = None \<or> shm_size (ses_shared_memory ses) = 0))"
  using session_ok_in_progress [OF assms] by (auto simp: shm_valid_def split: option.splits)

lemma request_buffer_write_in:
  assumes "session_ok ses" and "ses_in_progress ses"
    and "off + length d \<le> shm_size (ses_shared_memory ses)"
  obtains ses' where "rpc_request_buffer_write (Some ses) off d = Some (Some ses')"
    and "session_ok ses'" and "ses_in_progress ses'"
    and "ses_request_length ses' = ses_request_length ses"
    and "shm_buffer (ses_shared_memory ses')
      = Some (splice (the (shm_buffer (ses_shared_memory ses))) off d)"
    and "shm_size (ses_shared_memory ses') = shm_size (ses_shared_memory ses)"
    and "ses_policy ses' = ses_policy ses"
proof -
  from assms obtain b where b: "shm_buffer (ses_shared_memory ses) = Some b"
    and len: "length b = shm_size (ses_shared_memory ses)"
    by (auto dest: session_ok_in_progress simp: shm_valid_def split: option.splits)
  let ?shm = "(ses_shared_memory ses)\<lparr>shm_buffer := Some (splice b off d)\<rparr>"
  let ?ses = "ses\<lparr>ses_shared_memory := ?shm\<rparr>"
  have "rpc_request_buffer_write (Some ses) off d = Some (Some ?ses)"
  proof (cases "d = []")
    case True
    have "?shm = ses_shared_memory ses"
      using True b by simp
    then have "?ses = ses"
      by simp
    with True show ?thesis
      by (simp add: rpc_request_buffer_write_def)
  next
    case False
    with b len assms(3) show ?thesis
      by (simp add: rpc_request_buffer_write_def mem_simps)
  qed
  moreover have "session_ok ?ses"
    using assms len by (intro session_ok_update_shm) (auto simp: shm_valid_def)
  ultimately show ?thesis
    using that assms b by simp
qed

text \<open>
  What sessions rely on. A caller keeps its own invariant; shared memory it reports as created has
  the requested size; it can always release it; and a call on valid shared memory returns, leaving
  that memory valid.
\<close>

locale rpc_caller_contract =
  fixes ci :: "'c rpc_caller_interface" and caller_inv :: "'c \<Rightarrow> bool"
  assumes create_gives:
      "caller_inv c \<Longrightarrow> ci_create_shared_memory ci c n shm = (st, shm', c') \<Longrightarrow>
        caller_inv c' \<and> (if st = RPC_SUCCESS then shm_valid shm' \<and> shm_size shm' = n else shm' = shm)"
    and release_keeps:
      "caller_inv c \<Longrightarrow> ci_release_shared_memory ci c shm = (st, shm', c') \<Longrightarrow>
        caller_inv c' \<and> st = RPC_SUCCESS"
    and call_returns:
      "caller_inv c \<Longrightarrow> shm_valid shm \<Longrightarrow> shm_size shm < 2 ^ 64 \<Longrightarrow> len \<le> shm_size shm \<Longrightarrow>
        len \<le> UINT32_MAX \<Longrightarrow>
        \<exists>st shm' rl ss c'. ci_call ci c opc shm len = Some (st, shm', rl, ss, c')
          \<and> caller_inv c' \<and> shm_valid shm' \<and> shm_size shm' = shm_size shm"
begin

lemma begin_keeps:
  assumes "session_ok ses" and "caller_inv c"
    and "rpc_caller_session_begin ci (Some ses) c True rl ml = (h, s', c')"
  obtains ses' where "s' = Some ses'" and "session_ok ses'" and "caller_inv c'"
    and "h \<Longrightarrow> ses_in_progress ses' \<and> ses_request_length ses' = rl
         \<and> max rl ml \<le> shm_size (ses_shared_memory ses')"
    and "\<not> h \<Longrightarrow> ses_in_progress ses' = ses_in_progress ses"
    and "ses_policy ses' = ses_policy ses"
proof (cases "UINT32_MAX < max rl ml \<or> ses_in_progress ses")
  case True
  with assms that show ?thesis
    by (auto simp: rpc_caller_session_begin_def Let_def split: if_splits)
next
  case False
  show ?thesis
  proof (cases "ses_policy ses")
    case alloc_for_each_call
    obtain st shm c1 where create:
      "ci_create_shared_memory ci c (max rl ml) (ses_shared_memory ses) = (st, shm, c1)"
      by (metis prod_cases3)
    with create_gives assms(2)
    have "caller_inv c1" and "if st = RPC_SUCCESS then shm_valid shm \<and> shm_size shm = max rl ml
        else shm = ses_shared_memory ses"
      by blast+
    moreover from False have "rl \<le> UINT32_MAX" and "ml \<le> UINT32_MAX"
      by auto
    ultimately show ?thesis
      using assms False alloc_for_each_call create that
      by (auto simp: rpc_caller_session_begin_def session_ok_def null_shared_memory_def
          rpc_caller_create_shared_memory_def Let_def split: if_splits)
  next
    case alloc_for_session
    with assms False that show ?thesis
      by (auto simp: rpc_caller_session_begin_def session_ok_def shm_valid_def Let_def not_less
          split: if_splits option.splits)
  next
    case (invalid_policy k)
    with assms(1) show ?thesis
      by (simp add: session_ok_def)
  qed
qed

lemma invoke_returns:
  assumes "session_ok ses" and "ses_in_progress ses" and "caller_inv c"
  obtains st resp len ss ses' c' where
    "rpc_caller_session_invoke ci (Some ses) c opc True ol os = Some (st, resp, len, ss, Some ses', c')"
    and "session_ok ses'" and "ses_in_progress ses'" and "caller_inv c'"
    and "st = RPC_SUCCESS \<Longrightarrow> len \<noteq> 0 \<Longrightarrow> (\<exists>b. resp = Some b \<and> len \<le> length b)"
    and "ses_policy ses' = ses_policy ses"
proof -
  note ok = session_ok_in_progress [OF assms(1,2)]
  from call_returns [OF assms(3) ok(1-4), of "ucast opc"]
  obtain st shm rl ss c1 where call:
    "ci_call ci c (ucast opc) (ses_shared_memory ses) (ses_request_length ses)
      = Some (st, shm, rl, ss, c1)"
    and inv: "caller_inv c1" and valid: "shm_valid shm"
    and size: "shm_size shm = shm_size (ses_shared_memory ses)"
    by blast
  let ?ses = "ses\<lparr>ses_shared_memory := shm\<rparr>"
  have keeps: "session_ok ?ses"
    using assms(1,2) valid size by (rule session_ok_update_shm)
  have eq: "rpc_caller_session_invoke ci (Some ses) c opc True ol os =
    (if st \<noteq> RPC_SUCCESS \<or> shm_size shm < rl then Some (st, None, 0, ss, Some ?ses, c1)
     else Some (st, shm_buffer shm, rl, ss, Some ?ses, c1))"
    using assms(2) ok(5) session_guard [OF assms(1,2)] call
    by (auto simp: rpc_caller_session_invoke_def rpc_caller_call_def)
  show ?thesis
  proof (cases "st \<noteq> RPC_SUCCESS \<or> shm_size shm < rl")
    case True
    with eq keeps inv assms(2) show ?thesis
      by (intro that [of st None 0 ss ?ses c1]) auto
  next
    case False
    with valid have "\<exists>b. shm_buffer shm = Some b \<and> rl \<le> length b"
      by (auto simp: shm_valid_def split: option.splits)
    with False eq keeps inv assms(2) show ?thesis
      by (intro that [of st "shm_buffer shm" rl ss ?ses c1]) auto
  qed
qed

lemma end_idles:
  assumes "session_ok ses" and "ses_in_progress ses" and "caller_inv c"
  obtains ses' c' where "rpc_caller_session_end ci (Some ses) c = (RPC_SUCCESS, Some ses', c')"
    and "session_ok ses'" and "\<not> ses_in_progress ses'" and "caller_inv c'"
    and "ses_policy ses' = ses_policy ses"
proof (cases "ses_policy ses")
  case alloc_for_each_call
  obtain st shm c1 where release:
    "ci_release_shared_memory ci c (ses_shared_memory ses) = (st, shm, c1)"
    by (metis prod_cases3)
  with release_keeps assms(3) have "caller_inv c1" and "st = RPC_SUCCESS"
    by blast+
  moreover from assms have "ses_caller ses"
    by (simp add: session_ok_def)
  ultimately show ?thesis
    using assms(2) alloc_for_each_call release session_guard [OF assms(1,2)]
    by (intro that [of "ses\<lparr>ses_shared_memory := null_shared_memory, ses_in_progress := False,
          ses_request_length := 0\<rparr>" c1])
      (auto simp: rpc_caller_session_end_def rpc_caller_release_shared_memory_def session_ok_def)
next
  case alloc_for_session
  with assms show ?thesis
    using session_guard [OF assms(1,2)]
    by (intro that [of "ses\<lparr>ses_in_progress := False, ses_request_length := 0\<rparr>" c])
      (auto simp: rpc_caller_session_end_def session_ok_def)
next
  case (invalid_policy k)
  with assms(1) show ?thesis
    by (simp add: session_ok_def)
qed

text \<open>A whole transaction: it never fails undefined, and an idle session is idle again.\<close>

lemma transaction_returns:
  assumes "session_ok ses" and "\<not> ses_in_progress ses" and "caller_inv c"
  obtains r ses' c' where
    "rpc_client_transaction ci (Some ses) c opc msg ml = Some (r, Some ses', c')"
    and "session_ok ses'" and "\<not> ses_in_progress ses'" and "caller_inv c'"
    and "ses_policy ses' = ses_policy ses"
    and "\<And>st resp len ss. r = Some (st, resp, len, ss) \<Longrightarrow> st = RPC_SUCCESS \<Longrightarrow> len \<noteq> 0 \<Longrightarrow>
      (\<exists>b. resp = Some b \<and> len \<le> length b)"
proof -
  obtain h s1 c1 where begins:
    "rpc_caller_session_begin ci (Some ses) c True (length msg) ml = (h, s1, c1)"
    by (metis prod_cases3)
  from begin_keeps [OF assms(1,3) begins] obtain ses1 where s1: "s1 = Some ses1"
    and ok1: "session_ok ses1" and inv1: "caller_inv c1"
    and yes: "h \<Longrightarrow> ses_in_progress ses1 \<and> length msg \<le> shm_size (ses_shared_memory ses1)"
    and no: "\<not> h \<Longrightarrow> ses_in_progress ses1 = ses_in_progress ses"
    and pol1: "ses_policy ses1 = ses_policy ses"
    by (metis max.bounded_iff)
  show ?thesis
  proof (cases h)
    case False
    with begins s1 ok1 inv1 no assms(2) pol1 show ?thesis
      by (intro that [of None ses1 c1]) (auto simp: rpc_client_transaction_def rpc_client_call_def)
  next
    case True
    with yes have prog1: "ses_in_progress ses1"
      and fits: "0 + length msg \<le> shm_size (ses_shared_memory ses1)"
      by simp_all
    from request_buffer_write_in [OF ok1 prog1 fits] obtain ses2 where
      wr: "rpc_request_buffer_write s1 0 msg = Some (Some ses2)"
      and ok2: "session_ok ses2" and prog2: "ses_in_progress ses2"
      and pol2: "ses_policy ses2 = ses_policy ses1"
      using s1 by metis
    from invoke_returns [OF ok2 prog2 inv1, of opc 0 0] obtain st resp len ss ses3 c2 where
      iv: "rpc_caller_session_invoke ci (Some ses2) c1 opc True 0 0
        = Some (st, resp, len, ss, Some ses3, c2)"
      and ok3: "session_ok ses3" and prog3: "ses_in_progress ses3" and inv2: "caller_inv c2"
      and resp: "st = RPC_SUCCESS \<Longrightarrow> len \<noteq> 0 \<Longrightarrow> (\<exists>b. resp = Some b \<and> len \<le> length b)"
      and pol3: "ses_policy ses3 = ses_policy ses2"
      by metis
    from end_idles [OF ok3 prog3 inv2] obtain ses4 c3 where
      en: "rpc_caller_session_end ci (Some ses3) c2 = (RPC_SUCCESS, Some ses4, c3)"
      and "session_ok ses4" and "\<not> ses_in_progress ses4" and "caller_inv c3"
      and "ses_policy ses4 = ses_policy ses3"
      by metis
    with True begins wr iv resp pol1 pol2 pol3 show ?thesis
      by (intro that [of "Some (st, resp, len, ss)" ses4 c3])
        (auto simp: rpc_client_transaction_def rpc_client_call_def)
  qed
qed

end


section \<open>The direct caller meets the contract\<close>

text \<open>Over any service that keeps the endpoint contract, and with an allocator that does not run
  out, the direct caller is a caller in the sense above.\<close>

lemma direct_request_wf:
  "shm_valid shm \<Longrightarrow> shm_size shm < 2 ^ 64 \<Longrightarrow> len \<le> shm_size shm \<Longrightarrow> len \<le> UINT32_MAX \<Longrightarrow>
    wf_rpc_request (direct_request ctx opc shm len)"
  by (auto simp: direct_request_def wf_rpc_request_def wf_rpc_buffer_def shm_valid_def Let_def
      split: option.splits)

sublocale rpc_service \<subseteq> direct: rpc_caller_contract
  "direct_caller_interface serve (\<lambda>_. True)" "\<lambda>ctx. service_inv (dc_world ctx)"
proof (unfold_locales, goal_cases)
  case (1 c n shm st shm' c')
  then show ?case
    by (auto simp: direct_caller_interface_def direct_create_shared_memory_def shm_valid_def)
next
  case (2 c shm st shm' c')
  then show ?case
    by (auto simp: direct_caller_interface_def direct_release_shared_memory_def)
next
  case (3 c shm len opc)
  let ?req = "direct_request c opc shm len"
  from 3 have "wf_rpc_request ?req"
    by (intro direct_request_wf)
  from serve_returns [OF 3(1) this] obtain st req' w' where
    "serve ?req (dc_world c) = Some (st, req', w')" "service_inv w'"
    "wf_rpc_request req'" "same_buffer_sizes ?req req'"
    by blast
  with 3 show ?case
    by (auto simp: direct_caller_interface_def direct_call_def wf_rpc_request_def wf_rpc_buffer_def
        same_buffer_sizes_def direct_request_def shm_valid_def Let_def split: option.splits)
qed


text \<open>What a whole transaction over the direct caller amounts to: the service handles a request
  that carries the client's message and has room for the response it asked for.\<close>

definition session_room :: "rpc_caller_session \<Rightarrow> size_t \<Rightarrow> size_t" where
  "session_room ses required =
     (case ses_policy ses of
        alloc_for_session \<Rightarrow> shm_size (ses_shared_memory ses)
      | _ \<Rightarrow> required)"

lemma session_begin_grants:
  assumes "session_ok ses" and "\<not> ses_in_progress ses" and "max rl ml \<le> UINT32_MAX"
    and "max rl ml \<le> session_room ses (max rl ml)"
  obtains ses' where
    "rpc_caller_session_begin (direct_caller_interface serve (\<lambda>_. True)) (Some ses) c True rl ml
      = (True, Some ses', c)"
    and "shm_size (ses_shared_memory ses') = session_room ses (max rl ml)"
    and "session_ok ses'" and "ses_in_progress ses'" and "ses_request_length ses' = rl"
    and "ses_policy ses' = ses_policy ses"
proof (cases "ses_policy ses")
  case alloc_for_each_call
  with assms show ?thesis
    by (intro that [of "ses\<lparr>ses_shared_memory := \<lparr>shm_id = 0,
          shm_buffer = Some (replicate (max rl ml) 0), shm_size = max rl ml\<rparr>,
          ses_in_progress := True, ses_request_length := rl\<rparr>"])
      (auto simp: rpc_caller_session_begin_def session_ok_def session_room_def shm_valid_def
        direct_caller_interface_def direct_create_shared_memory_def null_shared_memory_def
        rpc_caller_create_shared_memory_def Let_def)
next
  case alloc_for_session
  with assms show ?thesis
    by (intro that [of "ses\<lparr>ses_in_progress := True, ses_request_length := rl\<rparr>"])
      (auto simp: rpc_caller_session_begin_def session_ok_def session_room_def shm_valid_def Let_def
        split: option.splits)
next
  case (invalid_policy k)
  with assms(1) show ?thesis
    by (simp add: session_ok_def)
qed

context rpc_service
begin

lemma direct_transaction:
  assumes ok: "session_ok ses" and idle: "\<not> ses_in_progress ses" and inv: "service_inv (dc_world c)"
    and lim: "max (length msg) ml \<le> UINT32_MAX"
    and room: "max (length msg) ml \<le> session_room ses (max (length msg) ml)"
  obtains req st req' w' ses' where "wf_rpc_request req" and "req_opcode req = ucast opc"
    and "req_source_id req = dc_endpoint_id c" and "rb_data_length (req_request req) = length msg"
    and "slice (rb_data (req_request req)) 0 (length msg) = msg"
    and "rb_size (req_response req) = session_room ses (max (length msg) ml)"
    and "rb_data_length (req_response req) = 0"
    and "serve req (dc_world c) = Some (st, req', w')"
    and "wf_rpc_request req'" and "service_inv w'" and "same_buffer_sizes req req'"
    and "rpc_client_transaction (direct_caller_interface serve (\<lambda>_. True)) (Some ses) c opc msg ml =
      Some (Some (if st = RPC_SUCCESS
                  then (st, Some (rb_data (req_response req')), rb_data_length (req_response req'),
                        req_service_status req')
                  else (st, None, 0, req_service_status req')),
            Some ses', c\<lparr>dc_world := w'\<rparr>)"
    and "session_ok ses'" and "\<not> ses_in_progress ses'"
    and "\<And>n. session_room ses' n = session_room ses n"
proof -
  let ?ci = "direct_caller_interface serve (\<lambda>_. True)"
  let ?n = "session_room ses (max (length msg) ml)"
  obtain ses1 where b: "rpc_caller_session_begin ?ci (Some ses) c True (length msg) ml = (True, Some ses1, c)"
    and n1: "shm_size (ses_shared_memory ses1) = ?n" and ok1: "session_ok ses1"
    and p1: "ses_in_progress ses1" and l1: "ses_request_length ses1 = length msg"
    and pol1: "ses_policy ses1 = ses_policy ses"
    by (rule session_begin_grants [OF ok idle lim room])
  have "0 + length msg \<le> shm_size (ses_shared_memory ses1)"
    using room n1 by simp
  from request_buffer_write_in [OF ok1 p1 this] obtain ses2 where
    w: "rpc_request_buffer_write (Some ses1) 0 msg = Some (Some ses2)" and ok2: "session_ok ses2"
    and p2: "ses_in_progress ses2" and l2: "ses_request_length ses2 = length msg"
    and m2: "shm_buffer (ses_shared_memory ses2)
      = Some (splice (the (shm_buffer (ses_shared_memory ses1))) 0 msg)"
    and n2: "shm_size (ses_shared_memory ses2) = ?n" and pol2: "ses_policy ses2 = ses_policy ses"
    using l1 n1 pol1 by metis
  note v1 = session_ok_in_progress [OF ok1 p1] and v2 = session_ok_in_progress [OF ok2 p2]
  let ?shm = "ses_shared_memory ses2"
  let ?req = "direct_request c (ucast opc) ?shm (length msg)"
  have wf: "wf_rpc_request ?req"
    using v2 l2 by (intro direct_request_wf) simp_all
  obtain m where m: "shm_buffer (ses_shared_memory ses1) = Some m" "length m = ?n"
    using v1(1) n1 by (auto simp: shm_valid_def split: option.splits)
  have req: "req_opcode ?req = ucast opc" "req_source_id ?req = dc_endpoint_id c" "rb_data_length (req_request ?req) = length msg"
    "slice (rb_data (req_request ?req)) 0 (length msg) = msg" "rb_size (req_response ?req) = ?n"
    "rb_data_length (req_response ?req) = 0"
    using m m2 n2 room by (simp_all add: direct_request_def Let_def slice_splice_same)
  from serve_returns [OF inv wf] obtain st req' w' where
    s: "serve ?req (dc_world c) = Some (st, req', w')" "service_inv w'" "wf_rpc_request req'"
      "same_buffer_sizes ?req req'"
    by blast
  let ?shm' = "?shm\<lparr>shm_buffer := Some (rb_data (req_response req'))\<rparr>"
  let ?c = "c\<lparr>dc_world := w'\<rparr>" and ?ses3 = "ses2\<lparr>ses_shared_memory := ?shm'\<rparr>"
  have len': "rb_data_length (req_response req') \<le> ?n" "length (rb_data (req_response req')) = ?n"
    using s(3,4) req by (auto simp: wf_rpc_request_def wf_rpc_buffer_def same_buffer_sizes_def)
  have ok3: "session_ok ?ses3"
    by (rule session_ok_update_shm [OF ok2 p2]) (use len' n2 in \<open>simp_all add: shm_valid_def\<close>)
  have i: "rpc_caller_session_invoke ?ci (Some ses2) c opc True 0 0 =
      Some (if st = RPC_SUCCESS
            then (st, Some (rb_data (req_response req')), rb_data_length (req_response req'),
                  req_service_status req', Some ?ses3, ?c)
            else (st, None, 0, req_service_status req', Some ?ses3, ?c))"
    using p2 v2 session_guard [OF ok2 p2] s(1) l2 n2 len' m2
    by (auto simp: rpc_caller_session_invoke_def rpc_caller_call_def direct_caller_interface_def
        direct_call_def)
  have "ses_in_progress ?ses3" and "service_inv (dc_world ?c)"
    using p2 s(2) by simp_all
  from direct.end_idles [OF ok3 this] obtain ses4 c' where
    e: "rpc_caller_session_end ?ci (Some ?ses3) ?c = (RPC_SUCCESS, Some ses4, c')"
    and ok4: "session_ok ses4" and idle4: "\<not> ses_in_progress ses4"
    by metis
  have c': "c' = ?c"
    using e by (auto simp: rpc_caller_session_end_def rpc_caller_release_shared_memory_def
        direct_caller_interface_def direct_release_shared_memory_def Let_def
        split: if_splits rpc_caller_memory_policy.splits)
  have "ses_policy ses4 = ses_policy ses" and "ses_policy ses = alloc_for_session \<Longrightarrow>
      shm_size (ses_shared_memory ses4) = shm_size (ses_shared_memory ses)"
    using e pol2 n2
    by (auto simp: rpc_caller_session_end_def Let_def session_room_def
        split: if_splits rpc_caller_memory_policy.splits prod.splits)
  then have room4: "session_room ses4 n = session_room ses n" for n
    by (auto simp: session_room_def split: rpc_caller_memory_policy.split)
  show ?thesis
  proof (rule that [OF wf req s(1,3,2,4) _ ok4 idle4 room4])
    show "rpc_client_transaction ?ci (Some ses) c opc msg ml =
      Some (Some (if st = RPC_SUCCESS
                  then (st, Some (rb_data (req_response req')), rb_data_length (req_response req'),
                        req_service_status req')
                  else (st, None, 0, req_service_status req')),
            Some ses4, ?c)"
      using b w i e c' by (simp add: rpc_client_transaction_def rpc_client_call_def)
  qed
qed

end



section \<open>Properties\<close>

text \<open>
  Property C25. When the allocation of shared memory fails, the direct caller still reports
  success: \<open>rpc_caller_session_begin\<close> issues a handle whose request buffer is NULL, and a
  client that copies its message there runs into undefined behaviour.
\<close>

theorem direct_caller_hides_failed_allocation:
  assumes "session_ok ses" and "\<not> ses_in_progress ses" and "ses_policy ses = alloc_for_each_call"
    and "msg \<noteq> []" and "max (length msg) ml \<le> UINT32_MAX"
  shows "\<exists>ses'. rpc_caller_session_begin (direct_caller_interface serve (\<lambda>_. False)) (Some ses) c True
        (length msg) ml = (True, Some ses', c)
      \<and> shm_buffer (ses_shared_memory ses') = None
      \<and> rpc_client_transaction (direct_caller_interface serve (\<lambda>_. False)) (Some ses) c opc msg ml = None"
  using assms
  by (auto simp: rpc_client_transaction_def rpc_client_call_def rpc_caller_session_begin_def
      session_ok_def null_shared_memory_def direct_caller_interface_def direct_create_shared_memory_def
      rpc_caller_create_shared_memory_def rpc_request_buffer_write_def Let_def)

theorem direct_caller_hides_failed_allocation_witness:
  "rpc_client_transaction (direct_caller_interface (\<lambda>req w. Some (0, req, w)) (\<lambda>_. False))
     (Some \<lparr>ses_caller = True, ses_shared_memory = null_shared_memory, ses_policy = alloc_for_each_call,
        ses_in_progress = False, ses_request_length = 0\<rparr>)
     \<lparr>dc_service_uuid = [], dc_endpoint_id = 0, dc_world = ()\<rparr> 1 [7] 0 = None"
proof -
  let ?ses = "\<lparr>ses_caller = True, ses_shared_memory = null_shared_memory, ses_policy = alloc_for_each_call,
        ses_in_progress = False, ses_request_length = 0\<rparr>"
  have "session_ok ?ses" "\<not> ses_in_progress ?ses" "ses_policy ?ses = alloc_for_each_call"
    "[7 :: byte] \<noteq> []" "max (length [7 :: byte]) 0 \<le> UINT32_MAX"
    by (simp_all add: session_ok_def)
  from direct_caller_hides_failed_allocation [OF this] show ?thesis
    by blast
qed

end
