(* ===== verification/ServiceClient.thy ===== *)
theory ServiceClient
  imports RpcCaller
begin

text \<open>
  The part common to all service clients (\<open>service_client.c\<close>): the session the client
  calls through, the status of its last RPC, and what it knows of the service. The session pointer
  is modelled by the session it points to, \<open>None\<close> for NULL.
\<close>

record service_info =
  si_supported_encodings :: u32
  si_max_payload :: size_t

record service_client =
  sc_session :: "rpc_caller_session option"
  sc_rpc_status :: rpc_status
  sc_service_info :: service_info

definition service_client_init ::
  "service_client option \<Rightarrow> rpc_caller_session option \<Rightarrow> psa_status \<times> service_client option" where
  "service_client_init context session =
     (case (context, session) of
        (Some cl, Some ses) \<Rightarrow>
          (PSA_SUCCESS,
           Some (cl\<lparr>sc_session := Some ses, sc_rpc_status := RPC_SUCCESS,
                    sc_service_info := \<lparr>si_supported_encodings = 0, si_max_payload = 4096\<rparr>\<rparr>))
      | _ \<Rightarrow> (PSA_ERROR_INVALID_ARGUMENT, context))"

definition service_client_deinit :: "service_client \<Rightarrow> service_client" where
  "service_client_deinit context = context\<lparr>sc_session := None\<rparr>"

definition service_client_set_service_info :: "service_client \<Rightarrow> service_info \<Rightarrow> service_client" where
  "service_client_set_service_info context info = context\<lparr>sc_service_info := info\<rparr>"

text \<open>A client between two calls.\<close>

definition client_idle :: "service_client \<Rightarrow> bool" where
  "client_idle cl \<longleftrightarrow>
     (case sc_session cl of None \<Rightarrow> False | Some ses \<Rightarrow> session_ok ses \<and> \<not> ses_in_progress ses)"

text \<open>The client has room for a request of \<open>rl\<close> and a response of \<open>ml\<close> bytes.\<close>

definition client_room :: "service_client \<Rightarrow> size_t \<Rightarrow> size_t \<Rightarrow> bool" where
  "client_room cl rl ml \<longleftrightarrow>
     max rl ml \<le> UINT32_MAX
     \<and> (case sc_session cl of None \<Rightarrow> False | Some ses \<Rightarrow> max rl ml \<le> session_room ses (max rl ml))"

lemma client_idle_cases:
  assumes "client_idle cl"
  obtains ses where "sc_session cl = Some ses" and "session_ok ses" and "\<not> ses_in_progress ses"
  using assms by (auto simp: client_idle_def split: option.splits)

lemma client_idle_session [simp]:
  "session_ok ses \<Longrightarrow> \<not> ses_in_progress ses \<Longrightarrow>
    client_idle (cl\<lparr>sc_session := Some ses, sc_rpc_status := st\<rparr>)"
  by (simp add: client_idle_def)


text \<open>Calls leave the session's shared-memory policy and size alone.\<close>

definition client_same_room :: "service_client \<Rightarrow> service_client \<Rightarrow> bool" where
  "client_same_room cl cl' \<longleftrightarrow>
     (\<forall>n. map_option (\<lambda>ses. session_room ses n) (sc_session cl')
        = map_option (\<lambda>ses. session_room ses n) (sc_session cl))"

lemma client_same_room_trans:
  "client_same_room a b \<Longrightarrow> client_same_room b c \<Longrightarrow> client_same_room a c"
  by (simp add: client_same_room_def)

lemma client_same_roomD: "client_same_room cl cl' \<Longrightarrow> client_room cl' rl ml = client_room cl rl ml"
  by (auto simp: client_same_room_def client_room_def split: option.splits)

lemma client_same_room_the:
  "client_same_room cl cl' \<Longrightarrow> client_idle cl \<Longrightarrow>
    session_room (the (sc_session cl')) n = session_room (the (sc_session cl)) n"
  by (auto simp: client_same_room_def client_idle_def split: option.splits)


text \<open>The request a provider gets for a client's message: the opcode, the message in the request
  buffer and an empty response buffer.\<close>

definition carried_request :: "u16 \<Rightarrow> u32 \<Rightarrow> bytes \<Rightarrow> size_t \<Rightarrow> rpc_request \<Rightarrow> bool" where
  "carried_request src opc msg room req \<longleftrightarrow>
     wf_rpc_request req \<and> req_opcode req = ucast opc \<and> req_source_id req = src
     \<and> rb_data_length (req_request req) = length msg
     \<and> slice (rb_data (req_request req)) 0 (length msg) = msg
     \<and> rb_size (req_response req) = room \<and> rb_data_length (req_response req) = 0"

context rpc_service
begin

lemma client_transaction:
  assumes "client_idle cl" and "service_inv (dc_world c)" and "client_room cl (length msg) ml"
  obtains req st req' w' ses' where
    "carried_request (dc_endpoint_id c) opc msg
       (session_room (the (sc_session cl)) (max (length msg) ml)) req"
    and "serve req (dc_world c) = Some (st, req', w')"
    and "rpc_client_transaction (direct_caller_interface serve (\<lambda>_. True)) (sc_session cl) c opc msg ml =
      Some (Some (if st = RPC_SUCCESS
                  then (st, Some (rb_data (req_response req')), rb_data_length (req_response req'),
                        req_service_status req')
                  else (st, None, 0, req_service_status req')),
            Some ses', c\<lparr>dc_world := w'\<rparr>)"
    and "client_idle (cl\<lparr>sc_session := Some ses', sc_rpc_status := st\<rparr>)"
    and "client_same_room cl (cl\<lparr>sc_session := Some ses', sc_rpc_status := st\<rparr>)"
    and "wf_rpc_request req'" and "service_inv w'"
proof -
  obtain ses where ses: "sc_session cl = Some ses" "session_ok ses" "\<not> ses_in_progress ses"
    using assms(1) by (rule client_idle_cases)
  have room: "max (length msg) ml \<le> UINT32_MAX"
      "max (length msg) ml \<le> session_room ses (max (length msg) ml)"
    using assms(3) ses(1) by (simp_all add: client_room_def)
  show ?thesis
    apply (rule direct_transaction [OF ses(2,3) assms(2) room, of opc])
    subgoal for req st req' w' ses'
      using that [of req st req' w' ses'] ses(1)
      by (simp add: carried_request_def client_same_room_def)
    done
qed

end


text \<open>A concrete client: a session that gets its shared memory with every call.\<close>

definition sample_session :: rpc_caller_session where
  "sample_session =
     \<lparr>ses_caller = True, ses_shared_memory = null_shared_memory, ses_policy = alloc_for_each_call,
      ses_in_progress = False, ses_request_length = 0\<rparr>"

definition sample_client :: service_client where
  "sample_client =
     \<lparr>sc_session = Some sample_session, sc_rpc_status = RPC_SUCCESS,
      sc_service_info = \<lparr>si_supported_encodings = 0, si_max_payload = 4096\<rparr>\<rparr>"

lemma sample_client_idle: "client_idle sample_client"
  by (simp add: sample_client_def sample_session_def client_idle_def session_ok_def)

lemma sample_client_room: "rl \<le> UINT32_MAX \<Longrightarrow> ml \<le> UINT32_MAX \<Longrightarrow> client_room sample_client rl ml"
  by (simp add: sample_client_def sample_session_def client_room_def session_room_def)

end
