(* ===== verification/LuaProvider.thy ===== *)
theory LuaProvider
  imports ServiceClient
begin

text \<open>
  The Lua service provider (\<open>lua_provider.c\<close>, \<open>lua_provider.h\<close>) and its packed-c
  serializer (\<open>packedc_lua_serializer.c\<close>): a pool of sixteen script environments behind the
  operations create, append, execute and delete.

  The Lua virtual machine is a library the provider calls; its state \<open>'L\<close> and its API are the
  parameters of \<open>lua_platform\<close>, together with the allocator. Everything the provider itself
  keeps (the environment pool, its free list threaded through the entries, the script buffers) is
  modelled as the code has it.
\<close>

section \<open>Status codes and wire format\<close>

type_synonym lua_status = int

abbreviation LUA_SUCCESS :: lua_status where
  "LUA_SUCCESS \<equiv> 0"
abbreviation LUA_ERROR_GENERIC_ERROR :: lua_status where
  "LUA_ERROR_GENERIC_ERROR \<equiv> - 1"
abbreviation LUA_ERROR_OUT_OF_FREE_ENVIRONMENTS :: lua_status where
  "LUA_ERROR_OUT_OF_FREE_ENVIRONMENTS \<equiv> - 2"
abbreviation LUA_ERROR_ENVIRONMENT_DOES_NOT_EXIST :: lua_status where
  "LUA_ERROR_ENVIRONMENT_DOES_NOT_EXIST \<equiv> - 3"
abbreviation LUA_ERROR_OUT_OF_MEMORY :: lua_status where
  "LUA_ERROR_OUT_OF_MEMORY \<equiv> - 4"
abbreviation LUA_ERROR_BUFFER_TOO_SMALL :: lua_status where
  "LUA_ERROR_BUFFER_TOO_SMALL \<equiv> - 5"
abbreviation LUA_ERROR_PARSER_ERROR :: lua_status where
  "LUA_ERROR_PARSER_ERROR \<equiv> - 6"
abbreviation LUA_ERROR_INTERPRETER_ERROR :: lua_status where
  "LUA_ERROR_INTERPRETER_ERROR \<equiv> - 7"

abbreviation TS_LUA_OPCODE_ENV_CREATE :: u32 where
  "TS_LUA_OPCODE_ENV_CREATE \<equiv> 0x200"
abbreviation TS_LUA_OPCODE_ENV_APPEND :: u32 where
  "TS_LUA_OPCODE_ENV_APPEND \<equiv> 0x201"
abbreviation TS_LUA_OPCODE_ENV_EXECUTE :: u32 where
  "TS_LUA_OPCODE_ENV_EXECUTE \<equiv> 0x202"
abbreviation TS_LUA_OPCODE_ENV_DELETE :: u32 where
  "TS_LUA_OPCODE_ENV_DELETE \<equiv> 0x203"

text \<open>All four fixed-size messages consist of one \<open>int32_t env_index\<close>.\<close>

abbreviation sizeof_ts_lua_msg :: size_t where
  "sizeof_ts_lua_msg \<equiv> 4"


section \<open>Serializer\<close>

record lua_serializer =
  ls_serialize_env_create_resp :: "rpc_buffer \<Rightarrow> int \<Rightarrow> (rpc_status \<times> rpc_buffer) option"
  ls_deserialize_env_append_req ::
    "rpc_buffer \<Rightarrow> (rpc_status \<times> (int \<times> bytes \<times> size_t) option) option"
  ls_deserialize_env_execute_req :: "rpc_buffer \<Rightarrow> (rpc_status \<times> int option) option"
  ls_serialize_env_execute_resp ::
    "rpc_buffer \<Rightarrow> bytes \<Rightarrow> size_t \<Rightarrow> (rpc_status \<times> rpc_buffer) option"
  ls_deserialize_env_delete_req :: "rpc_buffer \<Rightarrow> (rpc_status \<times> int option) option"

definition serialize_env_create_resp :: "rpc_buffer \<Rightarrow> int \<Rightarrow> (rpc_status \<times> rpc_buffer) option" where
  "serialize_env_create_resp resp_buf env_index =
     (if sizeof_ts_lua_msg \<le> rb_size resp_buf
      then do {
        b \<leftarrow> rpc_buffer_put resp_buf (le_int32_bytes env_index);
        Some (RPC_SUCCESS, b)
      }
      else Some (RPC_ERROR_INTERNAL, resp_buf))"

text \<open>The script is not copied but pointed to in the request buffer: the bytes after the fixed
  part.\<close>

definition deserialize_env_append_req ::
  "rpc_buffer \<Rightarrow> (rpc_status \<times> (int \<times> bytes \<times> size_t) option) option" where
  "deserialize_env_append_req req_buf =
     (if sizeof_ts_lua_msg \<le> rb_data_length req_buf
      then do {
        msg \<leftarrow> mem_read (rb_data req_buf) 0 sizeof_ts_lua_msg;
        script \<leftarrow> mem_read (rb_data req_buf) sizeof_ts_lua_msg
          (rb_data_length req_buf - sizeof_ts_lua_msg);
        Some (RPC_SUCCESS,
              Some (le_int32_val msg, script, rb_data_length req_buf - sizeof_ts_lua_msg))
      }
      else Some (RPC_ERROR_INVALID_REQUEST_BODY, None))"

definition deserialize_env_execute_req :: "rpc_buffer \<Rightarrow> (rpc_status \<times> int option) option" where
  "deserialize_env_execute_req req_buf =
     (if sizeof_ts_lua_msg \<le> rb_data_length req_buf
      then do {
        msg \<leftarrow> mem_read (rb_data req_buf) 0 sizeof_ts_lua_msg;
        Some (RPC_SUCCESS, Some (le_int32_val msg))
      }
      else Some (RPC_ERROR_INVALID_REQUEST_BODY, None))"

definition serialize_env_execute_resp ::
  "rpc_buffer \<Rightarrow> bytes \<Rightarrow> size_t \<Rightarrow> (rpc_status \<times> rpc_buffer) option" where
  "serialize_env_execute_resp resp_buf err_msg err_len =
     (if err_len = 0 then Some (RPC_SUCCESS, resp_buf\<lparr>rb_data_length := 0\<rparr>)
      else if err_len \<le> rb_size resp_buf
      then do {
        msg \<leftarrow> mem_read err_msg 0 err_len;
        b \<leftarrow> rpc_buffer_put resp_buf msg;
        Some (RPC_SUCCESS, b)
      }
      else Some (RPC_ERROR_INTERNAL, resp_buf))"

definition deserialize_env_delete_req :: "rpc_buffer \<Rightarrow> (rpc_status \<times> int option) option" where
  "deserialize_env_delete_req req_buf =
     (if sizeof_ts_lua_msg \<le> rb_data_length req_buf
      then do {
        msg \<leftarrow> mem_read (rb_data req_buf) 0 sizeof_ts_lua_msg;
        Some (RPC_SUCCESS, Some (le_int32_val msg))
      }
      else Some (RPC_ERROR_INVALID_REQUEST_BODY, None))"

definition packedc_lua_serializer_instance :: lua_serializer where
  "packedc_lua_serializer_instance =
     \<lparr>ls_serialize_env_create_resp = serialize_env_create_resp,
      ls_deserialize_env_append_req = deserialize_env_append_req,
      ls_deserialize_env_execute_req = deserialize_env_execute_req,
      ls_serialize_env_execute_resp = serialize_env_execute_resp,
      ls_deserialize_env_delete_req = deserialize_env_delete_req\<rparr>"


section \<open>The platform: Lua API and allocator\<close>

text \<open>
  \<open>luaL_ref\<close>, \<open>luaL_unref\<close> and \<open>lua_rawgeti\<close> are used on the registry only.
  \<open>luaL_loadbuffer\<close> and \<open>lua_pcall\<close> return whether the status is \<open>LUA_OK\<close>;
  \<open>lua_tostring\<close> is taken at the top of the stack.
\<close>

record 'L lua_platform =
  lua_refnil :: int
  luaL_newstate :: "'L option"
  luaL_requiref :: "'L \<Rightarrow> string \<Rightarrow> 'L"
  lua_pop :: "'L \<Rightarrow> nat \<Rightarrow> 'L"
  lua_pushcfunction_log :: "'L \<Rightarrow> 'L"
  lua_setglobal :: "'L \<Rightarrow> string \<Rightarrow> 'L"
  luaL_newmetatable :: "'L \<Rightarrow> string \<Rightarrow> bool \<times> 'L"
  lua_pushglobaltable :: "'L \<Rightarrow> 'L"
  lua_setfield :: "'L \<Rightarrow> int \<Rightarrow> string \<Rightarrow> 'L"
  lua_newtable :: "'L \<Rightarrow> 'L"
  luaL_setmetatable :: "'L \<Rightarrow> string \<Rightarrow> 'L"
  luaL_ref :: "'L \<Rightarrow> int \<times> 'L"
  luaL_unref :: "'L \<Rightarrow> int \<Rightarrow> 'L"
  luaL_loadbuffer :: "'L \<Rightarrow> bytes \<Rightarrow> string \<Rightarrow> bool \<times> 'L"
  lua_rawgeti :: "'L \<Rightarrow> int \<Rightarrow> 'L"
  lua_setupvalue :: "'L \<Rightarrow> int \<Rightarrow> int \<Rightarrow> 'L"
  lua_pcall :: "'L \<Rightarrow> bool \<times> 'L"
  lua_tostring :: "'L \<Rightarrow> bytes option"
  plat_alloc_ok :: "size_t \<Rightarrow> bool"
  plat_junk :: "nat \<Rightarrow> byte"

text \<open>
  What the provider relies on: \<open>luaL_ref\<close> yields \<open>LUA_REFNIL\<close> only for \<open>nil\<close>
  (the reference manual), so never for the table just pushed; and an allocation cannot exceed
  \<open>PTRDIFF_MAX\<close>.
\<close>

definition lua_platform_ok :: "'L lua_platform \<Rightarrow> bool" where
  "lua_platform_ok pl \<longleftrightarrow>
     (\<forall>L name. fst (luaL_ref pl (luaL_setmetatable pl (lua_newtable pl L) name)) \<noteq> lua_refnil pl)
     \<and> (\<forall>n. plat_alloc_ok pl n \<longrightarrow> n < 2 ^ 63)"


section \<open>Provider state and operations\<close>

record env_entry =
  ee_lua_env_ref :: int
  ee_script_buf :: "bytes option"
  ee_script_len :: size_t
  ee_next :: int

record 'L lua_provider =
  lp_serializer :: "lua_serializer option"
  lp_lua_state :: "'L option"
  lp_env_entries :: "env_entry list"
  lp_free_env_entry_ind :: int

abbreviation MAX_ENV_COUNT :: nat where
  "MAX_ENV_COUNT \<equiv> 16"

abbreviation NIL :: int where
  "NIL \<equiv> - 1"

text \<open>The binding behind Lua's \<open>print\<close>: one trace call per argument, a tab between two.\<close>

fun lua_log_from :: "nat \<Rightarrow> string list \<Rightarrow> string list" where
  "lua_log_from i [] = []"
| "lua_log_from i (s # ss) =
     (if 1 < i then [[CHR 0x09]] else []) @ [s] @ lua_log_from (Suc i) ss"

definition lua_log :: "string list \<Rightarrow> string list" where
  "lua_log args = lua_log_from 1 args"

text \<open>Set-up of the virtual machine, in the order of \<open>lua_provider_init\<close>.\<close>

definition lua_load_lib :: "'L lua_platform \<Rightarrow> string \<Rightarrow> 'L \<Rightarrow> 'L" where
  "lua_load_lib pl name L = lua_pop pl (luaL_requiref pl L name) 1"

definition lua_setup_state :: "'L lua_platform \<Rightarrow> 'L \<Rightarrow> 'L" where
  "lua_setup_state pl L0 =
     (let L1 = fold (lua_load_lib pl)
                 [''_G'', ''math'', ''string'', ''table'', ''coroutine'', ''utf8''] L0;
          L2 = lua_setglobal pl (lua_pushcfunction_log pl L1) ''print'';
          (created, L3) = luaL_newmetatable pl L2 ''global_env_meta'';
          L4 = (if created then lua_setfield pl (lua_pushglobaltable pl L3) (- 2) ''__index'' else L3)
      in lua_pop pl L4 1)"

text \<open>The pool after the initialisation loop: entry \<open>i\<close> links to \<open>i + 1\<close>, the last to
  \<open>NIL\<close>.\<close>

definition lua_free_entry :: "'L lua_platform \<Rightarrow> int \<Rightarrow> env_entry" where
  "lua_free_entry pl nxt =
     \<lparr>ee_lua_env_ref = lua_refnil pl, ee_script_buf = None, ee_script_len = 0, ee_next = nxt\<rparr>"

definition lua_env_pool_init :: "'L lua_platform \<Rightarrow> env_entry list" where
  "lua_env_pool_init pl =
     map (\<lambda>i. lua_free_entry pl (int (i + 1))) [0..<MAX_ENV_COUNT - 1] @ [lua_free_entry pl NIL]"

text \<open>\<open>lua_provider_init\<close>: a NULL context or a failing \<open>luaL_newstate\<close> yields no interface.
  A state left from an earlier initialisation is closed, so it drops out of the provider.\<close>

definition lua_provider_init ::
  "'L lua_platform \<Rightarrow> 'L lua_provider option \<Rightarrow> bool \<times> 'L lua_provider option" where
  "lua_provider_init pl ctx =
     (case ctx of
        None \<Rightarrow> (False, None)
      | Some p \<Rightarrow>
          (case luaL_newstate pl of
             None \<Rightarrow> (False, Some (p\<lparr>lp_lua_state := None\<rparr>))
           | Some L \<Rightarrow>
               (True,
                Some (p\<lparr>lp_lua_state := Some (lua_setup_state pl L),
                        lp_env_entries := lua_env_pool_init pl,
                        lp_free_env_entry_ind := 0\<rparr>))))"

definition lua_provider_register_serializer ::
  "'L lua_provider \<Rightarrow> lua_serializer option \<Rightarrow> 'L lua_provider" where
  "lua_provider_register_serializer p ser = p\<lparr>lp_serializer := ser\<rparr>"

definition get_lua_serializer :: "'L lua_provider \<Rightarrow> rpc_request \<Rightarrow> lua_serializer option" where
  "get_lua_serializer p req = lp_serializer p"

type_synonym 'L lua_handler = "rpc_request \<Rightarrow> 'L lua_provider \<Rightarrow> 'L lua_provider handler_result"

abbreviation lua_reply :: "rpc_request \<Rightarrow> lua_status \<Rightarrow> 'L lua_provider \<Rightarrow> 'L lua_provider handler_result" where
  "lua_reply req st p \<equiv> Some (RPC_SUCCESS, req\<lparr>req_service_status := st\<rparr>, p)"

definition env_create_handler :: "'L lua_platform \<Rightarrow> 'L lua_handler" where
  "env_create_handler pl req p =
     (let free_idx = lp_free_env_entry_ind p
      in if free_idx = NIL then lua_reply req LUA_ERROR_OUT_OF_FREE_ENVIRONMENTS p
         else
           do {
             entry \<leftarrow> array_get (lp_env_entries p) free_idx;
             let p1 = p\<lparr>lp_free_env_entry_ind := ee_next entry\<rparr>;
             L \<leftarrow> lp_lua_state p1;
             let L1 = luaL_setmetatable pl (lua_newtable pl L) ''global_env_meta'';
             let (env_ref, L2) = luaL_ref pl L1;
             let entry1 = \<lparr>ee_lua_env_ref = env_ref, ee_script_buf = None, ee_script_len = 0,
                           ee_next = NIL\<rparr>;
             let p2 = p1\<lparr>lp_lua_state := Some L2,
                         lp_env_entries := (lp_env_entries p1)[nat free_idx := entry1]\<rparr>;
             let req1 = req\<lparr>req_service_status := LUA_SUCCESS\<rparr>;
             case get_lua_serializer p2 req1 of
               None \<Rightarrow> Some (RPC_ERROR_INTERNAL, req1, p2)
             | Some ser \<Rightarrow>
                 do {
                   (st, buf) \<leftarrow> ls_serialize_env_create_resp ser (req_response req1) free_idx;
                   Some (st, req1\<lparr>req_response := buf\<rparr>, p2)
                 }
           })"

text \<open>The check shared by append, execute and delete: the index is in range and names an
  environment in use. The range is tested before the entry is read.\<close>

definition env_exists :: "'L lua_platform \<Rightarrow> 'L lua_provider \<Rightarrow> int \<Rightarrow> bool option" where
  "env_exists pl p env_index =
     (if env_index < 0 \<or> int MAX_ENV_COUNT \<le> env_index then Some False
      else do {
        e \<leftarrow> array_get (lp_env_entries p) env_index;
        Some (ee_lua_env_ref e \<noteq> lua_refnil pl)
      })"

definition env_append_handler :: "'L lua_platform \<Rightarrow> 'L lua_handler" where
  "env_append_handler pl req p =
     do {
       (st, args) \<leftarrow>
         (case get_lua_serializer p req of
            None \<Rightarrow> Some (RPC_ERROR_INTERNAL, None)
          | Some ser \<Rightarrow> ls_deserialize_env_append_req ser (req_request req));
       if st \<noteq> RPC_SUCCESS then lua_reply req LUA_ERROR_GENERIC_ERROR p
       else do {
         (env_index, script, script_len) \<leftarrow> args;
         ex \<leftarrow> env_exists pl p env_index;
         if \<not> ex then lua_reply req LUA_ERROR_ENVIRONMENT_DOES_NOT_EXIST p
         else do {
           entry \<leftarrow> array_get (lp_env_entries p) env_index;
           let new_len = add64 (ee_script_len entry) script_len;
           case c_realloc (plat_alloc_ok pl) (plat_junk pl) (ee_script_buf entry) (add64 new_len 1) of
             None \<Rightarrow> lua_reply req LUA_ERROR_OUT_OF_MEMORY p
           | Some tmp \<Rightarrow>
               do {
                 chunk \<leftarrow> mem_read script 0 script_len;
                 tmp1 \<leftarrow> mem_write tmp (ee_script_len entry) chunk;
                 let entry1 = entry\<lparr>ee_script_buf := Some tmp1, ee_script_len := new_len\<rparr>;
                 lua_reply req LUA_SUCCESS
                   (p\<lparr>lp_env_entries := (lp_env_entries p)[nat env_index := entry1]\<rparr>)
               }
         }
       }
     }"

fun nat_digits :: "nat \<Rightarrow> string" where
  "nat_digits n = (if n < 10 then [char_of (48 + n)] else nat_digits (n div 10) @ [char_of (48 + n mod 10)])"

declare nat_digits.simps [simp del]

text \<open>\<open>snprintf (script_name, 32, "environment_%d", env_index)\<close>\<close>

definition env_script_name :: "int \<Rightarrow> string" where
  "env_script_name env_index =
     take 31 (''environment_'' @ (if env_index < 0 then ''-'' else '''') @ nat_digits (nat \<bar>env_index\<bar>))"

text \<open>Report a Lua error: the message at the top of the stack goes into the response (when it
  fits; the serializer's status is not looked at) and is popped.\<close>

definition env_execute_error ::
  "'L lua_platform \<Rightarrow> lua_serializer \<Rightarrow> lua_status \<Rightarrow> 'L \<Rightarrow> 'L lua_handler" where
  "env_execute_error pl ser status L req p =
     (let msg = lua_tostring pl L;
          msg_len = (case msg of None \<Rightarrow> 0 | Some s \<Rightarrow> c_strlen s);
          err = (case msg of None \<Rightarrow> [] | Some s \<Rightarrow> s)
      in do {
           (_, buf) \<leftarrow> ls_serialize_env_execute_resp ser (req_response req) err msg_len;
           Some (RPC_SUCCESS, req\<lparr>req_service_status := status, req_response := buf\<rparr>,
                 p\<lparr>lp_lua_state := Some (lua_pop pl L 1)\<rparr>)
         })"

definition env_execute_handler :: "'L lua_platform \<Rightarrow> 'L lua_handler" where
  "env_execute_handler pl req p =
     (case get_lua_serializer p req of
        None \<Rightarrow> lua_reply req LUA_ERROR_GENERIC_ERROR p
      | Some ser \<Rightarrow>
          do {
            (st, args) \<leftarrow> ls_deserialize_env_execute_req ser (req_request req);
            if st \<noteq> RPC_SUCCESS then lua_reply req LUA_ERROR_GENERIC_ERROR p
            else do {
              env_index \<leftarrow> args;
              ex \<leftarrow> env_exists pl p env_index;
              if \<not> ex then lua_reply req LUA_ERROR_ENVIRONMENT_DOES_NOT_EXIST p
              else do {
                entry \<leftarrow> array_get (lp_env_entries p) env_index;
                if ee_script_buf entry = None \<or> ee_script_len entry = 0
                then do {
                  (_, buf) \<leftarrow> ls_serialize_env_execute_resp ser (req_response req) [] 0;
                  Some (RPC_SUCCESS, req\<lparr>req_service_status := LUA_SUCCESS, req_response := buf\<rparr>, p)
                }
                else do {
                  L \<leftarrow> lp_lua_state p;
                  blk \<leftarrow> ee_script_buf entry;
                  src \<leftarrow> mem_read blk 0 (ee_script_len entry);
                  let (loaded, L1) = luaL_loadbuffer pl L src (env_script_name env_index);
                  if \<not> loaded then env_execute_error pl ser LUA_ERROR_PARSER_ERROR L1 req p
                  else do {
                    let entry1 = entry\<lparr>ee_script_buf := None, ee_script_len := 0\<rparr>;
                    let p1 = p\<lparr>lp_env_entries := (lp_env_entries p)[nat env_index := entry1]\<rparr>;
                    let L2 = lua_setupvalue pl (lua_rawgeti pl L1 (ee_lua_env_ref entry1)) (- 2) 1;
                    let (called, L3) = lua_pcall pl L2;
                    if \<not> called then env_execute_error pl ser LUA_ERROR_INTERPRETER_ERROR L3 req p1
                    else do {
                      (_, buf) \<leftarrow> ls_serialize_env_execute_resp ser (req_response req) [] 0;
                      Some (RPC_SUCCESS,
                            req\<lparr>req_service_status := LUA_SUCCESS, req_response := buf\<rparr>,
                            p1\<lparr>lp_lua_state := Some L3\<rparr>)
                    }
                  }
                }
              }
            }
          })"

definition env_delete_handler :: "'L lua_platform \<Rightarrow> 'L lua_handler" where
  "env_delete_handler pl req p =
     do {
       (st, args) \<leftarrow>
         (case get_lua_serializer p req of
            None \<Rightarrow> Some (RPC_ERROR_INTERNAL, None)
          | Some ser \<Rightarrow> ls_deserialize_env_delete_req ser (req_request req));
       if st \<noteq> RPC_SUCCESS then lua_reply req LUA_ERROR_GENERIC_ERROR p
       else do {
         env_index \<leftarrow> args;
         ex \<leftarrow> env_exists pl p env_index;
         if \<not> ex then lua_reply req LUA_ERROR_ENVIRONMENT_DOES_NOT_EXIST p
         else do {
           entry \<leftarrow> array_get (lp_env_entries p) env_index;
           L \<leftarrow> lp_lua_state p;
           let L1 = luaL_unref pl L (ee_lua_env_ref entry);
           let entry1 = \<lparr>ee_lua_env_ref = lua_refnil pl, ee_script_buf = None, ee_script_len = 0,
                         ee_next = lp_free_env_entry_ind p\<rparr>;
           lua_reply req LUA_SUCCESS
             (p\<lparr>lp_lua_state := Some L1,
                lp_env_entries := (lp_env_entries p)[nat env_index := entry1],
                lp_free_env_entry_ind := env_index\<rparr>)
         }
       }
     }"

text \<open>The handler table and the service at the provider's RPC interface. The context pointer of
  the handlers is the provider itself, which is the state \<open>'w\<close>.\<close>

definition lua_handler_table ::
  "'L lua_platform \<Rightarrow> (unit, 'L lua_provider) service_handler list" where
  "lua_handler_table pl =
     [\<lparr>sh_opcode = TS_LUA_OPCODE_ENV_CREATE, sh_invoke = (\<lambda>_. env_create_handler pl)\<rparr>,
      \<lparr>sh_opcode = TS_LUA_OPCODE_ENV_APPEND, sh_invoke = (\<lambda>_. env_append_handler pl)\<rparr>,
      \<lparr>sh_opcode = TS_LUA_OPCODE_ENV_EXECUTE, sh_invoke = (\<lambda>_. env_execute_handler pl)\<rparr>,
      \<lparr>sh_opcode = TS_LUA_OPCODE_ENV_DELETE, sh_invoke = (\<lambda>_. env_delete_handler pl)\<rparr>]"

definition TS_LUA_SERVICE_UUID :: bytes where
  "TS_LUA_SERVICE_UUID =
     [0xcf, 0x0c, 0xfc, 0xf8, 0x83, 0x76, 0x46, 0xad, 0x90, 0x3f, 0x77, 0x7e, 0xce, 0xb8, 0xaf, 0x2a]"

definition lua_base_provider :: "'L lua_platform \<Rightarrow> (unit, 'L lua_provider) service_provider" where
  "lua_base_provider pl = service_provider_init () TS_LUA_SERVICE_UUID (lua_handler_table pl)"

definition lua_serve :: "'L lua_platform \<Rightarrow> 'L lua_handler" where
  "lua_serve pl req p = rpc_service_receive [0 \<mapsto> lua_base_provider pl] (Some 0) req p"


section \<open>Invariant of the environment pool\<close>

text \<open>Following \<open>next\<close> from \<open>i\<close> visits exactly the entries \<open>ks\<close> and ends at \<open>NIL\<close>.\<close>

fun free_chain :: "env_entry list \<Rightarrow> int \<Rightarrow> nat list \<Rightarrow> bool" where
  "free_chain es i [] \<longleftrightarrow> i = NIL"
| "free_chain es i (k # ks) \<longleftrightarrow> i = int k \<and> k < length es \<and> free_chain es (ee_next (es ! k)) ks"

definition env_used :: "'L lua_platform \<Rightarrow> env_entry \<Rightarrow> bool" where
  "env_used pl e \<longleftrightarrow> ee_lua_env_ref e \<noteq> lua_refnil pl"

text \<open>A script buffer has one byte more than the script; only environments in use own one.\<close>

definition env_entry_ok :: "'L lua_platform \<Rightarrow> env_entry \<Rightarrow> bool" where
  "env_entry_ok pl e \<longleftrightarrow>
     (case ee_script_buf e of
        None \<Rightarrow> ee_script_len e = 0
      | Some b \<Rightarrow> length b = ee_script_len e + 1 \<and> length b < 2 ^ 63)
     \<and> (\<not> env_used pl e \<longrightarrow> ee_script_buf e = None)"

definition free_list_ok :: "'L lua_platform \<Rightarrow> env_entry list \<Rightarrow> int \<Rightarrow> nat list \<Rightarrow> bool" where
  "free_list_ok pl es i ks \<longleftrightarrow>
     free_chain es i ks \<and> distinct ks \<and> (\<forall>k < length es. k \<in> set ks \<longleftrightarrow> \<not> env_used pl (es ! k))"

definition lua_inv :: "'L lua_platform \<Rightarrow> 'L lua_provider \<Rightarrow> bool" where
  "lua_inv pl p \<longleftrightarrow>
     length (lp_env_entries p) = MAX_ENV_COUNT \<and> lp_lua_state p \<noteq> None
     \<and> (\<exists>ks. free_list_ok pl (lp_env_entries p) (lp_free_env_entry_ind p) ks)
     \<and> (\<forall>k < MAX_ENV_COUNT. env_entry_ok pl (lp_env_entries p ! k))"

text \<open>A provider in service: initialised, with the packed-c serializer registered.\<close>

definition lua_service_inv :: "'L lua_platform \<Rightarrow> 'L lua_provider \<Rightarrow> bool" where
  "lua_service_inv pl p \<longleftrightarrow>
     lua_platform_ok pl \<and> lp_serializer p = Some packedc_lua_serializer_instance \<and> lua_inv pl p"

lemma free_chain_update:
  "k \<notin> set ks \<Longrightarrow> free_chain (es[k := e]) i ks = free_chain es i ks"
  by (induction ks arbitrary: i) auto

lemma free_chain_in: "free_chain es i ks \<Longrightarrow> k \<in> set ks \<Longrightarrow> k < length es"
  by (induction ks arbitrary: i) auto

text \<open>Taking the head of the free list, and putting an entry back.\<close>

lemma free_list_take:
  assumes "free_list_ok pl es i (k # ks)" and "env_used pl e"
  shows "free_list_ok pl (es[k := e]) (ee_next (es ! k)) ks"
  using assms by (auto simp: free_list_ok_def free_chain_update nth_update_if)

lemma free_list_put:
  assumes "free_list_ok pl es i ks" and "k < length es" and "env_used pl (es ! k)"
    and "\<not> env_used pl e" and "ee_next e = i"
  shows "free_list_ok pl (es[k := e]) (int k) (k # ks)"
proof -
  have "k \<notin> set ks"
    using assms by (auto simp: free_list_ok_def)
  with assms show ?thesis
    by (auto simp: free_list_ok_def free_chain_update nth_update_if)
qed

lemma free_list_same:
  assumes "free_list_ok pl es i ks" and "k < length es" and "env_used pl (es ! k)" and "env_used pl e"
  shows "free_list_ok pl (es[k := e]) i ks"
proof -
  have "k \<notin> set ks"
    using assms by (auto simp: free_list_ok_def)
  with assms show ?thesis
    by (auto simp: free_list_ok_def free_chain_update nth_update_if)
qed

lemma free_list_empty_iff:
  assumes "free_list_ok pl es i ks"
  shows "i = NIL \<longleftrightarrow> (\<forall>k < length es. env_used pl (es ! k))"
  using assms free_chain_in [of es i ks]
  by (cases ks) (auto simp: free_list_ok_def)

lemma free_list_head:
  assumes "free_list_ok pl es i ks" and "i \<noteq> NIL"
  obtains k ks' where "ks = k # ks'" and "i = int k" and "k < length es" and "\<not> env_used pl (es ! k)"
  using assms by (cases ks) (auto simp: free_list_ok_def)


section \<open>Abstract view: a finite map from indices to pending scripts\<close>

definition env_script :: "env_entry \<Rightarrow> bytes" where
  "env_script e = (case ee_script_buf e of None \<Rightarrow> [] | Some b \<Rightarrow> take (ee_script_len e) b)"

type_synonym lua_env_map = "nat \<Rightarrow> bytes option"

definition lua_envs :: "'L lua_platform \<Rightarrow> 'L lua_provider \<Rightarrow> lua_env_map" where
  "lua_envs pl p k =
     (if k < length (lp_env_entries p) \<and> env_used pl (lp_env_entries p ! k)
      then Some (env_script (lp_env_entries p ! k)) else None)"

lemma lua_envs_update:
  assumes "k < length (lp_env_entries p)"
    and "lp_env_entries p' = (lp_env_entries p)[k := e]"
  shows "lua_envs pl p' = (lua_envs pl p)(k := if env_used pl e then Some (env_script e) else None)"
  using assms by (auto simp: lua_envs_def fun_eq_iff nth_update_if)

lemma lua_envs_cong:
  "lp_env_entries p' = lp_env_entries p \<Longrightarrow> lua_envs pl p' = lua_envs pl p"
  by (simp add: lua_envs_def fun_eq_iff)

lemma lua_inv_envs:
  assumes "lua_inv pl p" and "lua_envs pl p k = Some s"
  shows "k < MAX_ENV_COUNT" and "k < length (lp_env_entries p)"
    and "env_used pl (lp_env_entries p ! k)" and "env_script (lp_env_entries p ! k) = s"
    and "env_entry_ok pl (lp_env_entries p ! k)"
  using assms by (auto simp: lua_envs_def lua_inv_def split: if_splits)

lemma env_exists_envs:
  assumes "lua_inv pl p"
  shows "env_exists pl p i = Some (0 \<le> i \<and> lua_envs pl p (nat i) \<noteq> None)"
  using assms
  by (auto simp: env_exists_def lua_inv_def lua_envs_def env_used_def array_get_def)

text \<open>Replacing the entry of an environment in use by another one in use keeps the invariant.\<close>

lemma lua_inv_replace:
  assumes "lua_inv pl p" and "lua_envs pl p k = Some s" and "env_used pl e" and "env_entry_ok pl e"
    and "lp_env_entries p' = (lp_env_entries p)[k := e]"
    and "lp_free_env_entry_ind p' = lp_free_env_entry_ind p"
    and "lp_lua_state p' \<noteq> None"
  shows "lua_inv pl p'"
proof -
  note k = lua_inv_envs [OF assms(1,2)]
  obtain ks where "free_list_ok pl (lp_env_entries p) (lp_free_env_entry_ind p) ks"
    using assms(1) by (auto simp: lua_inv_def)
  then have "free_list_ok pl (lp_env_entries p') (lp_free_env_entry_ind p') ks"
    using free_list_same [of pl "lp_env_entries p" _ ks k e] k assms by simp
  with assms show ?thesis
    by (auto simp: lua_inv_def nth_update_if)
qed

lemma lua_inv_state:
  assumes "lua_inv pl p" and "lp_env_entries p' = lp_env_entries p"
    and "lp_free_env_entry_ind p' = lp_free_env_entry_ind p" and "lp_lua_state p' \<noteq> None"
  shows "lua_inv pl p'"
  using assms by (simp add: lua_inv_def)


section \<open>Initialisation\<close>

lemma free_chain_count_up:
  assumes "length es = n" and "\<And>k. k < n - 1 \<Longrightarrow> ee_next (es ! k) = int (k + 1)"
    and "0 < n" and "ee_next (es ! (n - 1)) = NIL" and "k < n"
  shows "free_chain es (int k) [k..<n]"
  using assms
proof (induction "n - k" arbitrary: k)
  case 0
  then show ?case by simp
next
  case (Suc d)
  show ?case
  proof (cases "Suc k < n")
    case True
    then have "free_chain es (int (Suc k)) [Suc k..<n]"
      using Suc by (intro Suc.hyps(1)) auto
    moreover have "ee_next (es ! k) = int (Suc k)"
      using Suc.prems(2) [of k] True by simp
    ultimately show ?thesis
      using Suc.prems True by (simp add: upt_conv_Cons)
  next
    case False
    then have "n = Suc k"
      using Suc.prems by simp
    then show ?thesis
      using Suc.prems by simp
  qed
qed

lemma lua_env_pool_init_nth:
  "k < MAX_ENV_COUNT \<Longrightarrow>
    lua_env_pool_init pl ! k = lua_free_entry pl (if k = MAX_ENV_COUNT - 1 then NIL else int (k + 1))"
  by (simp add: lua_env_pool_init_def nth_append)

lemma length_lua_env_pool_init [simp]: "length (lua_env_pool_init pl) = MAX_ENV_COUNT"
  by (simp add: lua_env_pool_init_def)

lemma lua_free_entry_simps [simp]:
  "\<not> env_used pl (lua_free_entry pl n)" "env_entry_ok pl (lua_free_entry pl n)"
  "ee_next (lua_free_entry pl n) = n"
  by (simp_all add: env_used_def env_entry_ok_def lua_free_entry_def)

lemma lua_env_pool_init_free_list:
  "free_list_ok pl (lua_env_pool_init pl) 0 [0..<MAX_ENV_COUNT]"
proof -
  have "free_chain (lua_env_pool_init pl) (int 0) [0..<MAX_ENV_COUNT]"
    by (rule free_chain_count_up) (simp_all add: lua_env_pool_init_nth)
  then show ?thesis
    unfolding free_list_ok_def by (simp add: lua_env_pool_init_nth del: upt_rec_numeral)
qed

lemma lua_provider_init_inv:
  assumes "lua_provider_init pl ctx = (True, Some p)"
  shows "lua_inv pl p" and "lua_envs pl p = Map.empty"
  using assms lua_env_pool_init_free_list [of pl]
  by (auto simp: lua_provider_init_def lua_inv_def lua_envs_def fun_eq_iff lua_env_pool_init_nth
      split: option.splits)


section \<open>Decoded requests\<close>

definition lua_req_index :: "rpc_request \<Rightarrow> int" where
  "lua_req_index req = le_int32_val (slice (rb_data (req_request req)) 0 sizeof_ts_lua_msg)"

definition lua_req_script :: "rpc_request \<Rightarrow> bytes" where
  "lua_req_script req = slice (rb_data (req_request req)) sizeof_ts_lua_msg
     (rb_data_length (req_request req) - sizeof_ts_lua_msg)"

definition lua_req_complete :: "rpc_request \<Rightarrow> bool" where
  "lua_req_complete req \<longleftrightarrow> sizeof_ts_lua_msg \<le> rb_data_length (req_request req)"

lemma length_lua_req_script:
  "wf_rpc_request req \<Longrightarrow> lua_req_complete req \<Longrightarrow>
    length (lua_req_script req) = rb_data_length (req_request req) - sizeof_ts_lua_msg"
  by (simp add: lua_req_script_def lua_req_complete_def wf_rpc_request_def wf_rpc_buffer_def)

lemma packedc_lua_deserialize [wire_simps]:
  assumes "wf_rpc_request req"
  shows "ls_deserialize_env_append_req packedc_lua_serializer_instance (req_request req) =
      Some (if lua_req_complete req
            then (RPC_SUCCESS, Some (lua_req_index req, lua_req_script req, length (lua_req_script req)))
            else (RPC_ERROR_INVALID_REQUEST_BODY, None))"
    and "ls_deserialize_env_execute_req packedc_lua_serializer_instance (req_request req) =
      Some (if lua_req_complete req then (RPC_SUCCESS, Some (lua_req_index req))
            else (RPC_ERROR_INVALID_REQUEST_BODY, None))"
    and "ls_deserialize_env_delete_req packedc_lua_serializer_instance (req_request req) =
      Some (if lua_req_complete req then (RPC_SUCCESS, Some (lua_req_index req))
            else (RPC_ERROR_INVALID_REQUEST_BODY, None))"
  using assms length_lua_req_script [OF assms]
  by (auto simp: packedc_lua_serializer_instance_def deserialize_env_append_req_def
      deserialize_env_execute_req_def deserialize_env_delete_req_def lua_req_complete_def
      lua_req_index_def lua_req_script_def wf_rpc_request_def mem_simps)

definition lua_create_response :: "rpc_buffer \<Rightarrow> nat \<Rightarrow> rpc_buffer" where
  "lua_create_response b k =
     b\<lparr>rb_data := splice (rb_data b) 0 (le_int32_bytes (int k)), rb_data_length := sizeof_ts_lua_msg\<rparr>"

definition lua_error_response :: "rpc_buffer \<Rightarrow> bytes \<Rightarrow> rpc_buffer" where
  "lua_error_response b msg =
     (if length msg \<le> rb_size b
      then b\<lparr>rb_data := splice (rb_data b) 0 msg, rb_data_length := length msg\<rparr> else b)"

lemma packedc_lua_serialize_create [wire_simps]:
  assumes "wf_rpc_buffer b"
  shows "ls_serialize_env_create_resp packedc_lua_serializer_instance b (int k) =
    Some (if sizeof_ts_lua_msg \<le> rb_size b then (RPC_SUCCESS, lua_create_response b k)
          else (RPC_ERROR_INTERNAL, b))"
  using assms
  by (simp add: packedc_lua_serializer_instance_def serialize_env_create_resp_def
      lua_create_response_def mem_simps)

lemma splice_0_Nil [simp]: "b\<lparr>rb_data := splice (rb_data b) 0 [], rb_data_length := n\<rparr>
    = b\<lparr>rb_data_length := n\<rparr>"
  by simp

lemma packedc_lua_serialize_execute [wire_simps]:
  assumes "wf_rpc_buffer b" and "n \<le> length msg"
  shows "\<exists>st. ls_serialize_env_execute_resp packedc_lua_serializer_instance b msg n
    = Some (st, lua_error_response b (take n msg))"
  using assms
  by (auto simp: packedc_lua_serializer_instance_def serialize_env_execute_resp_def
      lua_error_response_def mem_simps slice_def)

lemma wf_lua_error_response [intro]: "wf_rpc_buffer b \<Longrightarrow> wf_rpc_buffer (lua_error_response b msg)"
  by (auto simp: lua_error_response_def)

lemma wf_lua_create_response [intro]:
  "wf_rpc_buffer b \<Longrightarrow> sizeof_ts_lua_msg \<le> rb_size b \<Longrightarrow> wf_rpc_buffer (lua_create_response b k)"
  by (simp add: lua_create_response_def wf_rpc_buffer_def)

lemma lua_response_sizes [simp]:
  "rb_size (lua_error_response b msg) = rb_size b" "rb_size (lua_create_response b k) = rb_size b"
  by (simp_all add: lua_error_response_def lua_create_response_def)


section \<open>The handlers on the abstract map\<close>

lemma env_create_full:
  assumes "lua_inv pl p" and "\<forall>k < MAX_ENV_COUNT. lua_envs pl p k \<noteq> None"
  shows "env_create_handler pl req p = lua_reply req LUA_ERROR_OUT_OF_FREE_ENVIRONMENTS p"
proof -
  obtain ks where ks: "free_list_ok pl (lp_env_entries p) (lp_free_env_entry_ind p) ks"
    using assms(1) by (auto simp: lua_inv_def)
  have "\<forall>k < length (lp_env_entries p). env_used pl (lp_env_entries p ! k)"
    using assms by (auto simp: lua_inv_def lua_envs_def split: if_splits)
  then show ?thesis
    using free_list_empty_iff [OF ks] by (simp add: env_create_handler_def)
qed

text \<open>With a free slot, create claims the head of the free list.\<close>

lemma env_create_claims:
  assumes inv: "lua_service_inv pl p" and free: "k' < MAX_ENV_COUNT" "lua_envs pl p k' = None"
    and wf: "wf_rpc_request req"
  obtains k p' where "k < MAX_ENV_COUNT" and "lp_free_env_entry_ind p = int k"
    and "lua_envs pl p k = None" and "lua_service_inv pl p'" and "lua_envs pl p' = (lua_envs pl p)(k \<mapsto> [])"
    and "env_create_handler pl req p =
      (if sizeof_ts_lua_msg \<le> rb_size (req_response req)
       then Some (RPC_SUCCESS, req\<lparr>req_service_status := LUA_SUCCESS,
              req_response := lua_create_response (req_response req) k\<rparr>, p')
       else Some (RPC_ERROR_INTERNAL, req\<lparr>req_service_status := LUA_SUCCESS\<rparr>, p'))"
proof -
  let ?es = "lp_env_entries p"
  have linv: "lua_inv pl p" and plok: "lua_platform_ok pl"
    and ser: "lp_serializer p = Some packedc_lua_serializer_instance"
    using inv by (simp_all add: lua_service_inv_def)
  obtain ks0 L where ks0: "free_list_ok pl ?es (lp_free_env_entry_ind p) ks0"
    and len: "length ?es = MAX_ENV_COUNT" and L: "lp_lua_state p = Some L"
    and ok: "\<forall>k < MAX_ENV_COUNT. env_entry_ok pl (?es ! k)"
    using linv by (auto simp: lua_inv_def)
  have "lp_free_env_entry_ind p \<noteq> NIL"
    using free_list_empty_iff [OF ks0] free len by (auto simp: lua_envs_def split: if_splits)
  from free_list_head [OF ks0 this] obtain k ks where
    k: "ks0 = k # ks" "lp_free_env_entry_ind p = int k" "k < length ?es" "\<not> env_used pl (?es ! k)" .
  obtain r L2 where ref: "luaL_ref pl (luaL_setmetatable pl (lua_newtable pl L) ''global_env_meta'') = (r, L2)"
    by fastforce
  have "r \<noteq> lua_refnil pl"
    using plok unfolding lua_platform_ok_def by (metis ref fst_conv)
  define e where "e = \<lparr>ee_lua_env_ref = r, ee_script_buf = None, ee_script_len = 0, ee_next = NIL\<rparr>"
  define p' where "p' = p\<lparr>lp_free_env_entry_ind := ee_next (?es ! k), lp_lua_state := Some L2,
      lp_env_entries := ?es[k := e]\<rparr>"
  have e: "env_used pl e" "env_entry_ok pl e" "env_script e = []"
    using \<open>r \<noteq> lua_refnil pl\<close> by (simp_all add: e_def env_used_def env_entry_ok_def env_script_def)
  have "lua_envs pl p' = (lua_envs pl p)(k \<mapsto> [])"
    using lua_envs_update [of k p p' e pl] k e by (simp add: p'_def)
  moreover have "free_list_ok pl (?es[k := e]) (ee_next (?es ! k)) ks"
    using ks0 k(1) e(1) by (auto intro: free_list_take)
  then have "lua_service_inv pl p'"
    using inv len ok e by (auto simp: lua_service_inv_def lua_inv_def p'_def nth_update_if)
  moreover have "env_create_handler pl req p =
      (if sizeof_ts_lua_msg \<le> rb_size (req_response req)
       then Some (RPC_SUCCESS, req\<lparr>req_service_status := LUA_SUCCESS,
              req_response := lua_create_response (req_response req) k\<rparr>, p')
       else Some (RPC_ERROR_INTERNAL, req\<lparr>req_service_status := LUA_SUCCESS\<rparr>, p'))"
    using k L ref ser wf
    by (simp add: env_create_handler_def array_get_int Let_def get_lua_serializer_def p'_def e_def
        wf_rpc_request_def wire_simps)
  moreover have "lua_envs pl p k = None"
    using k by (simp add: lua_envs_def)
  ultimately show ?thesis
    using that k len by simp
qed

lemma c_realloc_length: "c_realloc ok junk p n = Some b \<Longrightarrow> length b = n"
  by (auto simp: c_realloc_def Let_def split: if_splits option.splits)

lemma c_realloc_prefix:
  "c_realloc ok junk (Some a) n = Some b \<Longrightarrow> m \<le> length a \<Longrightarrow> m \<le> n \<Longrightarrow> take m b = take m a"
  by (auto simp: c_realloc_def Let_def split: if_splits)

lemma env_append_existing:
  assumes inv: "lua_service_inv pl p" and wf: "wf_rpc_request req" and c: "lua_req_complete req"
    and idx: "lua_req_index req = int k" and s: "lua_envs pl p k = Some s"
  obtains (out_of_memory) "\<not> plat_alloc_ok pl (length s + length (lua_req_script req) + 1)"
      "env_append_handler pl req p = lua_reply req LUA_ERROR_OUT_OF_MEMORY p"
    | (appended) p' where "plat_alloc_ok pl (length s + length (lua_req_script req) + 1)"
      "env_append_handler pl req p = lua_reply req LUA_SUCCESS p'"
      "lua_service_inv pl p'" "lua_envs pl p' = (lua_envs pl p)(k \<mapsto> s @ lua_req_script req)"
proof -
  let ?e = "lp_env_entries p ! k" and ?c = "lua_req_script req"
  have linv: "lua_inv pl p" and plok: "lua_platform_ok pl"
    and ser: "lp_serializer p = Some packedc_lua_serializer_instance"
    using inv by (simp_all add: lua_service_inv_def)
  note k = lua_inv_envs [OF linv s]
  have exists_k: "env_exists pl p (int k) = Some True"
    using env_exists_envs [OF linv, of "int k"] s by simp
  have len: "ee_script_len ?e = length s" and s_lt: "length s < 2 ^ 63"
    using k(4,5) by (auto simp: env_entry_ok_def env_script_def split: option.splits)
  have c_lt: "length ?c \<le> UINT32_MAX"
    using length_lua_req_script [OF wf c] wf unfolding wf_rpc_request_def by linarith
  have new: "add64 (add64 (length s) (length ?c)) 1 = length s + length ?c + 1"
    "add64 (length s) (length ?c) = length s + length ?c"
    using s_lt c_lt by (simp_all add: arith64)
  have handler: "env_append_handler pl req p =
      (case c_realloc (plat_alloc_ok pl) (plat_junk pl) (ee_script_buf ?e) (length s + length ?c + 1) of
         None \<Rightarrow> lua_reply req LUA_ERROR_OUT_OF_MEMORY p
       | Some tmp \<Rightarrow> do {
           tmp1 \<leftarrow> mem_write tmp (length s) ?c;
           lua_reply req LUA_SUCCESS (p\<lparr>lp_env_entries := (lp_env_entries p)[k :=
             ?e\<lparr>ee_script_buf := Some tmp1, ee_script_len := length s + length ?c\<rparr>]\<rparr>) })"
    using k(2) len new c idx ser wf
    by (simp add: env_append_handler_def get_lua_serializer_def wire_simps exists_k array_get_int
        mem_simps Let_def cong: option.case_cong)
  show thesis
  proof (cases "c_realloc (plat_alloc_ok pl) (plat_junk pl) (ee_script_buf ?e) (length s + length ?c + 1)")
    case None
    then have "\<not> plat_alloc_ok pl (length s + length ?c + 1)"
      by (auto simp: c_realloc_def split: if_splits)
    with None handler out_of_memory show ?thesis by simp
  next
    case (Some tmp)
    then have alloc: "plat_alloc_ok pl (length s + length ?c + 1)"
      by (auto simp: c_realloc_def split: if_splits)
    then have lt: "length s + length ?c + 1 < 2 ^ 63"
      using plok unfolding lua_platform_ok_def by blast
    have ltmp: "length tmp = length s + length ?c + 1"
      using c_realloc_length [OF Some] .
    have pre: "take (length s) tmp = s"
    proof (cases "ee_script_buf ?e")
      case None
      then show ?thesis
        using k(4) by (simp add: env_script_def)
    next
      case (Some b)
      then show ?thesis
        using c_realloc_prefix [of _ _ b _ tmp "length s"] \<open>c_realloc _ _ _ _ = Some tmp\<close> k(4,5) len
        by (auto simp: env_script_def env_entry_ok_def)
    qed
    define e where "e = ?e\<lparr>ee_script_buf := Some (splice tmp (length s) ?c),
        ee_script_len := length s + length ?c\<rparr>"
    define p' where "p' = p\<lparr>lp_env_entries := (lp_env_entries p)[k := e]\<rparr>"
    have e: "env_used pl e" "env_entry_ok pl e" "env_script e = s @ ?c"
      using k(3) ltmp lt pre
      by (simp_all add: e_def env_used_def env_entry_ok_def env_script_def splice_def)
    have "lua_inv pl p'"
      by (rule lua_inv_replace [OF linv s e(1,2)]) (use linv in \<open>simp_all add: p'_def lua_inv_def\<close>)
    then have "lua_service_inv pl p'"
      using plok ser by (simp add: lua_service_inv_def p'_def)
    moreover have "lua_envs pl p' = (lua_envs pl p)(k \<mapsto> s @ ?c)"
      using lua_envs_update [of k p p' e pl] k e by (simp add: p'_def)
    moreover have "env_append_handler pl req p = lua_reply req LUA_SUCCESS p'"
      using handler Some ltmp by (simp add: mem_simps p'_def e_def)
    ultimately show ?thesis
      using appended alloc by blast
  qed
qed


lemma env_delete_existing:
  assumes inv: "lua_service_inv pl p" and wf: "wf_rpc_request req" and c: "lua_req_complete req"
    and idx: "lua_req_index req = int k" and s: "lua_envs pl p k = Some s"
  obtains p' where "env_delete_handler pl req p = lua_reply req LUA_SUCCESS p'"
    and "lua_service_inv pl p'" and "lua_envs pl p' = (lua_envs pl p)(k := None)"
    and "lp_free_env_entry_ind p' = int k"
proof -
  let ?es = "lp_env_entries p"
  have linv: "lua_inv pl p" and plok: "lua_platform_ok pl"
    and ser: "lp_serializer p = Some packedc_lua_serializer_instance"
    using inv by (simp_all add: lua_service_inv_def)
  note k = lua_inv_envs [OF linv s]
  have exists_k: "env_exists pl p (int k) = Some True"
    using env_exists_envs [OF linv, of "int k"] s by simp
  obtain ks L where ks: "free_list_ok pl ?es (lp_free_env_entry_ind p) ks"
    and L: "lp_lua_state p = Some L" and len: "length ?es = MAX_ENV_COUNT"
    and ok: "\<forall>k < MAX_ENV_COUNT. env_entry_ok pl (?es ! k)"
    using linv by (auto simp: lua_inv_def)
  define e where "e = \<lparr>ee_lua_env_ref = lua_refnil pl, ee_script_buf = None, ee_script_len = 0,
      ee_next = lp_free_env_entry_ind p\<rparr>"
  define p' where "p' = p\<lparr>lp_lua_state := Some (luaL_unref pl L (ee_lua_env_ref (?es ! k))),
      lp_env_entries := ?es[k := e], lp_free_env_entry_ind := int k\<rparr>"
  have e: "\<not> env_used pl e" "env_entry_ok pl e" "ee_next e = lp_free_env_entry_ind p"
    by (simp_all add: e_def env_used_def env_entry_ok_def)
  have "free_list_ok pl (?es[k := e]) (int k) (k # ks)"
    using ks k(2,3) e(1,3) by (rule free_list_put)
  then have "lua_service_inv pl p'"
    using inv len ok e by (auto simp: lua_service_inv_def lua_inv_def p'_def nth_update_if)
  moreover have "lua_envs pl p' = (lua_envs pl p)(k := None)"
    using lua_envs_update [of k p p' e pl] k e by (simp add: p'_def)
  moreover have "env_delete_handler pl req p = lua_reply req LUA_SUCCESS p'"
    using k(2) c idx ser wf L
    by (simp add: env_delete_handler_def get_lua_serializer_def wire_simps exists_k array_get_int
        Let_def p'_def e_def)
  ultimately show ?thesis
    using that by (simp add: p'_def)
qed

text \<open>The outcome of running a script, as the Lua library reports it.\<close>

datatype lua_outcome = Parse_Failed | Run_Failed | Run_Ok

definition lua_run :: "'L lua_platform \<Rightarrow> 'L \<Rightarrow> int \<Rightarrow> int \<Rightarrow> bytes \<Rightarrow> lua_outcome \<times> 'L" where
  "lua_run pl L r i src =
     (let (loaded, L1) = luaL_loadbuffer pl L src (env_script_name i)
      in if \<not> loaded then (Parse_Failed, L1)
         else let (called, L3) = lua_pcall pl (lua_setupvalue pl (lua_rawgeti pl L1 r) (- 2) 1)
              in (if called then Run_Ok else Run_Failed, L3))"

definition lua_error_message :: "'L lua_platform \<Rightarrow> 'L \<Rightarrow> bytes" where
  "lua_error_message pl L =
     (case lua_tostring pl L of None \<Rightarrow> [] | Some s \<Rightarrow> takeWhile (\<lambda>b. b \<noteq> 0) s)"

lemma env_execute_error_reply:
  assumes "wf_rpc_buffer (req_response req)"
  shows "env_execute_error pl packedc_lua_serializer_instance status L req p =
    Some (RPC_SUCCESS, req\<lparr>req_service_status := status,
            req_response := lua_error_response (req_response req) (lua_error_message pl L)\<rparr>,
          p\<lparr>lp_lua_state := Some (lua_pop pl L 1)\<rparr>)"
proof -
  let ?m = "case lua_tostring pl L of None \<Rightarrow> [] | Some s \<Rightarrow> s"
  let ?n = "case lua_tostring pl L of None \<Rightarrow> 0 | Some s \<Rightarrow> c_strlen s"
  have n: "?n \<le> length ?m"
    by (simp add: c_strlen_le split: option.split)
  have "take ?n ?m = lua_error_message pl L"
    by (simp add: lua_error_message_def c_strlen_def takeWhile_eq_take [symmetric] split: option.split)
  with packedc_lua_serialize_execute [OF assms n] show ?thesis
    by (auto simp: env_execute_error_def Let_def)
qed

lemma env_execute_empty:
  assumes inv: "lua_service_inv pl p" and wf: "wf_rpc_request req" and c: "lua_req_complete req"
    and idx: "lua_req_index req = int k" and s: "lua_envs pl p k = Some []"
  shows "env_execute_handler pl req p =
    Some (RPC_SUCCESS, req\<lparr>req_service_status := LUA_SUCCESS,
            req_response := (req_response req)\<lparr>rb_data_length := 0\<rparr>\<rparr>, p)"
proof -
  have linv: "lua_inv pl p" and ser: "lp_serializer p = Some packedc_lua_serializer_instance"
    using inv by (simp_all add: lua_service_inv_def)
  note k = lua_inv_envs [OF linv s]
  have "env_exists pl p (int k) = Some True"
    using env_exists_envs [OF linv, of "int k"] s by simp
  moreover have "ee_script_buf (lp_env_entries p ! k) = None \<or> ee_script_len (lp_env_entries p ! k) = 0"
    using k(4,5) by (auto simp: env_entry_ok_def env_script_def split: option.splits)
  moreover have "ls_serialize_env_execute_resp packedc_lua_serializer_instance (req_response req) [] 0
    = Some (RPC_SUCCESS, (req_response req)\<lparr>rb_data_length := 0\<rparr>)"
    by (simp add: packedc_lua_serializer_instance_def serialize_env_execute_resp_def)
  ultimately show ?thesis
    using k(2) c idx ser wf
    by (simp add: env_execute_handler_def get_lua_serializer_def wire_simps array_get_int)
qed

lemma env_execute_script:
  assumes inv: "lua_service_inv pl p" and wf: "wf_rpc_request req" and c: "lua_req_complete req"
    and idx: "lua_req_index req = int k" and s: "lua_envs pl p k = Some s" "s \<noteq> []"
    and L: "lp_lua_state p = Some L"
    and run: "lua_run pl L (ee_lua_env_ref (lp_env_entries p ! k)) (int k) s = (out, L')"
  obtains p' where "lua_service_inv pl p'"
    and "lua_envs pl p' = (if out = Parse_Failed then lua_envs pl p else (lua_envs pl p)(k \<mapsto> []))"
    and "lp_lua_state p' = Some (if out = Run_Ok then L' else lua_pop pl L' 1)"
    and "env_execute_handler pl req p =
      Some (RPC_SUCCESS, req\<lparr>
         req_service_status := (case out of Parse_Failed \<Rightarrow> LUA_ERROR_PARSER_ERROR
           | Run_Failed \<Rightarrow> LUA_ERROR_INTERPRETER_ERROR | Run_Ok \<Rightarrow> LUA_SUCCESS),
         req_response := (if out = Run_Ok then (req_response req)\<lparr>rb_data_length := 0\<rparr>
           else lua_error_response (req_response req) (lua_error_message pl L'))\<rparr>, p')"
proof -
  let ?es = "lp_env_entries p"
  have linv: "lua_inv pl p" and plok: "lua_platform_ok pl"
    and ser: "lp_serializer p = Some packedc_lua_serializer_instance"
    using inv by (simp_all add: lua_service_inv_def)
  note k = lua_inv_envs [OF linv s(1)]
  have ex: "env_exists pl p (int k) = Some True"
    using env_exists_envs [OF linv, of "int k"] s by simp
  obtain b where b: "ee_script_buf (?es ! k) = Some b" "mem_read b 0 (ee_script_len (?es ! k)) = Some s"
      "ee_script_len (?es ! k) \<noteq> 0"
    using k(4,5) s(2)
    by (auto simp: env_entry_ok_def env_script_def mem_simps slice_def split: option.splits)
  define e where "e = (?es ! k)\<lparr>ee_script_buf := None, ee_script_len := 0\<rparr>"
  define p1 where "p1 = (if out = Parse_Failed then p else p\<lparr>lp_env_entries := ?es[k := e]\<rparr>)"
  define p' where "p' = p1\<lparr>lp_lua_state := Some (if out = Run_Ok then L' else lua_pop pl L' 1)\<rparr>"
  have e: "env_used pl e" "env_entry_ok pl e" "env_script e = []"
    using k(3) by (simp_all add: e_def env_used_def env_entry_ok_def env_script_def)
  have "lua_inv pl p1"
    using lua_inv_replace [OF linv s(1) e(1,2), of p1] linv L by (cases "out = Parse_Failed") (simp_all add: p1_def)
  then have "lua_service_inv pl p'"
    using inv by (auto simp: lua_service_inv_def p'_def p1_def intro: lua_inv_state)
  moreover have "lua_envs pl p1 = (if out = Parse_Failed then lua_envs pl p else (lua_envs pl p)(k \<mapsto> []))"
    using lua_envs_update [of k p p1 e pl] k e by (cases "out = Parse_Failed") (simp_all add: p1_def)
  then have "lua_envs pl p' = (if out = Parse_Failed then lua_envs pl p else (lua_envs pl p)(k \<mapsto> []))"
    using lua_envs_cong [of p' p1] by (simp add: p'_def)
  moreover have ser0: "ls_serialize_env_execute_resp packedc_lua_serializer_instance (req_response req) [] 0
    = Some (RPC_SUCCESS, (req_response req)\<lparr>rb_data_length := 0\<rparr>)"
    by (simp add: packedc_lua_serializer_instance_def serialize_env_execute_resp_def)
  have "env_execute_handler pl req p =
      Some (RPC_SUCCESS, req\<lparr>
         req_service_status := (case out of Parse_Failed \<Rightarrow> LUA_ERROR_PARSER_ERROR
           | Run_Failed \<Rightarrow> LUA_ERROR_INTERPRETER_ERROR | Run_Ok \<Rightarrow> LUA_SUCCESS),
         req_response := (if out = Run_Ok then (req_response req)\<lparr>rb_data_length := 0\<rparr>
           else lua_error_response (req_response req) (lua_error_message pl L'))\<rparr>, p')"
    using k(2) c idx ser wf L b ex run
    by (auto simp: env_execute_handler_def get_lua_serializer_def wire_simps array_get_int ser0
        Let_def lua_run_def p'_def p1_def e_def env_execute_error_reply wf_rpc_request_def
        split: prod.splits if_splits)
  ultimately show ?thesis
    using that by (simp add: p'_def)
qed

lemma env_missing:
  assumes "lua_service_inv pl p" and "wf_rpc_request req" and "lua_req_complete req"
    and "lua_req_index req < 0 \<or> lua_envs pl p (nat (lua_req_index req)) = None"
  shows "env_append_handler pl req p = lua_reply req LUA_ERROR_ENVIRONMENT_DOES_NOT_EXIST p"
    and "env_execute_handler pl req p = lua_reply req LUA_ERROR_ENVIRONMENT_DOES_NOT_EXIST p"
    and "env_delete_handler pl req p = lua_reply req LUA_ERROR_ENVIRONMENT_DOES_NOT_EXIST p"
proof -
  have "env_exists pl p (lua_req_index req) = Some False"
    using assms env_exists_envs [of pl p "lua_req_index req"] by (auto simp: lua_service_inv_def)
  with assms(1-3)
  show "env_append_handler pl req p = lua_reply req LUA_ERROR_ENVIRONMENT_DOES_NOT_EXIST p"
    and "env_execute_handler pl req p = lua_reply req LUA_ERROR_ENVIRONMENT_DOES_NOT_EXIST p"
    and "env_delete_handler pl req p = lua_reply req LUA_ERROR_ENVIRONMENT_DOES_NOT_EXIST p"
    by (simp_all add: env_append_handler_def env_execute_handler_def env_delete_handler_def
        get_lua_serializer_def lua_service_inv_def wire_simps)
qed

lemma env_malformed:
  assumes "lua_service_inv pl p" and "wf_rpc_request req" and "\<not> lua_req_complete req"
  shows "env_append_handler pl req p = lua_reply req LUA_ERROR_GENERIC_ERROR p"
    and "env_execute_handler pl req p = lua_reply req LUA_ERROR_GENERIC_ERROR p"
    and "env_delete_handler pl req p = lua_reply req LUA_ERROR_GENERIC_ERROR p"
  using assms
  by (simp_all add: env_append_handler_def env_execute_handler_def env_delete_handler_def
      get_lua_serializer_def lua_service_inv_def wire_simps)


section \<open>Specification of the service and refinement\<close>

datatype lua_op =
    Op_Create
  | Op_Append int bytes
  | Op_Execute int
  | Op_Delete int
  | Op_Malformed
  | Op_Unknown

text \<open>What a request asks for, read off its opcode and body.\<close>

definition lua_decode :: "rpc_request \<Rightarrow> lua_op" where
  "lua_decode req =
     (let opc = (ucast (req_opcode req) :: u32)
      in if opc = TS_LUA_OPCODE_ENV_CREATE then Op_Create
         else if opc \<notin> {TS_LUA_OPCODE_ENV_APPEND, TS_LUA_OPCODE_ENV_EXECUTE, TS_LUA_OPCODE_ENV_DELETE}
         then Op_Unknown
         else if \<not> lua_req_complete req then Op_Malformed
         else if opc = TS_LUA_OPCODE_ENV_APPEND then Op_Append (lua_req_index req) (lua_req_script req)
         else if opc = TS_LUA_OPCODE_ENV_EXECUTE then Op_Execute (lua_req_index req)
         else Op_Delete (lua_req_index req))"

fun lua_op_index :: "lua_op \<Rightarrow> int option" where
  "lua_op_index (Op_Append i _) = Some i"
| "lua_op_index (Op_Execute i) = Some i"
| "lua_op_index (Op_Delete i) = Some i"
| "lua_op_index _ = None"

text \<open>\<open>lua_spec op m rpc st m'\<close>: the operation may take the environments \<open>m\<close> to \<open>m'\<close> with
  call status \<open>rpc\<close> and, when the call succeeds, service status \<open>st\<close>. An operation changes at
  most the environment it names.\<close>

inductive lua_spec ::
  "lua_op \<Rightarrow> lua_env_map \<Rightarrow> rpc_status \<Rightarrow> lua_status \<Rightarrow> lua_env_map \<Rightarrow> bool" where
  create: "k < MAX_ENV_COUNT \<Longrightarrow> m k = None \<Longrightarrow> rpc = RPC_SUCCESS \<or> rpc = RPC_ERROR_INTERNAL \<Longrightarrow>
     lua_spec Op_Create m rpc LUA_SUCCESS (m(k \<mapsto> []))"
| create_full: "\<forall>k < MAX_ENV_COUNT. m k \<noteq> None \<Longrightarrow>
     lua_spec Op_Create m RPC_SUCCESS LUA_ERROR_OUT_OF_FREE_ENVIRONMENTS m"
| missing: "lua_op_index op = Some i \<Longrightarrow> i < 0 \<or> m (nat i) = None \<Longrightarrow>
     lua_spec op m RPC_SUCCESS LUA_ERROR_ENVIRONMENT_DOES_NOT_EXIST m"
| append: "m k = Some s \<Longrightarrow> lua_spec (Op_Append (int k) c) m RPC_SUCCESS LUA_SUCCESS (m(k \<mapsto> s @ c))"
| append_no_memory: "m k = Some s \<Longrightarrow> lua_spec (Op_Append (int k) c) m RPC_SUCCESS LUA_ERROR_OUT_OF_MEMORY m"
| execute_nothing: "m k = Some [] \<Longrightarrow> lua_spec (Op_Execute (int k)) m RPC_SUCCESS LUA_SUCCESS m"
| execute: "m k = Some s \<Longrightarrow> s \<noteq> [] \<Longrightarrow> st = LUA_SUCCESS \<or> st = LUA_ERROR_INTERPRETER_ERROR \<Longrightarrow>
     lua_spec (Op_Execute (int k)) m RPC_SUCCESS st (m(k \<mapsto> []))"
| execute_parse: "m k = Some s \<Longrightarrow> s \<noteq> [] \<Longrightarrow>
     lua_spec (Op_Execute (int k)) m RPC_SUCCESS LUA_ERROR_PARSER_ERROR m"
| delete: "m k = Some s \<Longrightarrow> lua_spec (Op_Delete (int k)) m RPC_SUCCESS LUA_SUCCESS (m(k := None))"
| malformed: "lua_spec Op_Malformed m RPC_SUCCESS LUA_ERROR_GENERIC_ERROR m"
| unknown: "lua_spec Op_Unknown m RPC_ERROR_INVALID_VALUE st m"

inductive_cases lua_spec_CreateE: "lua_spec Op_Create m rpc st m'"
inductive_cases lua_spec_DeleteE: "lua_spec (Op_Delete i) m rpc st m'"

text \<open>What every handler lemma yields: the reply is well-formed, the buffers keep their sizes, the
  state is good and the step is one of the specification.\<close>

definition lua_refines ::
  "'L lua_platform \<Rightarrow> rpc_request \<Rightarrow> 'L lua_provider \<Rightarrow> 'L lua_provider handler_result \<Rightarrow> bool" where
  "lua_refines pl req p r \<longleftrightarrow>
     (case r of
        None \<Rightarrow> False
      | Some (rpc, req', p') \<Rightarrow>
          lua_service_inv pl p' \<and> wf_rpc_request req' \<and> same_buffer_sizes req req'
          \<and> lua_spec (lua_decode req) (lua_envs pl p) rpc (req_service_status req') (lua_envs pl p'))"

lemma lua_refines_reply:
  assumes "wf_rpc_request req" and "lua_service_inv pl p'"
    and "lua_spec (lua_decode req) (lua_envs pl p) RPC_SUCCESS st (lua_envs pl p')"
  shows "lua_refines pl req p (lua_reply req st p')"
  using assms by (simp add: lua_refines_def same_buffer_sizes_def wf_rpc_request_def)

lemma lua_refines_response:
  assumes "wf_rpc_request req" and "lua_service_inv pl p'" and "wf_rpc_buffer b"
    and "rb_size b = rb_size (req_response req)"
    and "lua_spec (lua_decode req) (lua_envs pl p) RPC_SUCCESS st (lua_envs pl p')"
  shows "lua_refines pl req p (Some (RPC_SUCCESS, req\<lparr>req_service_status := st, req_response := b\<rparr>, p'))"
  using assms by (simp add: lua_refines_def same_buffer_sizes_def wf_rpc_request_def)

lemma env_create_refines:
  assumes inv: "lua_service_inv pl p" and wf: "wf_rpc_request req" and op: "lua_decode req = Op_Create"
  shows "lua_refines pl req p (env_create_handler pl req p)"
proof (cases "\<forall>k < MAX_ENV_COUNT. lua_envs pl p k \<noteq> None")
  case True
  then have "env_create_handler pl req p = lua_reply req LUA_ERROR_OUT_OF_FREE_ENVIRONMENTS p"
    using env_create_full inv unfolding lua_service_inv_def by blast
  with True op inv wf show ?thesis
    using lua_refines_reply [OF wf inv] lua_spec.create_full by simp
next
  case False
  then obtain k' where k': "k' < MAX_ENV_COUNT" "lua_envs pl p k' = None" by auto
  obtain k p' where *: "k < MAX_ENV_COUNT" "lua_envs pl p k = None" "lua_service_inv pl p'"
    "lua_envs pl p' = (lua_envs pl p)(k \<mapsto> [])"
    "env_create_handler pl req p =
      (if sizeof_ts_lua_msg \<le> rb_size (req_response req)
       then Some (RPC_SUCCESS, req\<lparr>req_service_status := LUA_SUCCESS,
              req_response := lua_create_response (req_response req) k\<rparr>, p')
       else Some (RPC_ERROR_INTERNAL, req\<lparr>req_service_status := LUA_SUCCESS\<rparr>, p'))"
    by (rule env_create_claims [OF inv k' wf])
  with wf op show ?thesis
    by (auto simp: lua_refines_def same_buffer_sizes_def wf_rpc_request_def intro: lua_spec.create)
qed

text \<open>The three operations on an index share the case distinction.\<close>

lemma lua_index_cases:
  obtains (absent) "i < 0 \<or> lua_envs pl p (nat i) = None"
  | (present) k s where "i = int k" and "lua_envs pl p k = Some s"
proof (cases "0 \<le> i")
  case True
  then have "i = int (nat i)" by simp
  with absent present show ?thesis
    by (cases "lua_envs pl p (nat i)") blast+
next
  case False
  then show ?thesis using absent by simp
qed

lemma env_append_refines:
  assumes inv: "lua_service_inv pl p" and wf: "wf_rpc_request req" and c: "lua_req_complete req"
    and op: "lua_decode req = Op_Append (lua_req_index req) (lua_req_script req)"
  shows "lua_refines pl req p (env_append_handler pl req p)"
proof (cases rule: lua_index_cases [of "lua_req_index req" pl p])
  case absent
  then show ?thesis
    using lua_refines_reply [OF wf inv] env_missing(1) [OF inv wf c] op lua_spec.missing by simp
next
  case (present k s)
  show ?thesis
  proof (cases rule: env_append_existing [OF inv wf c present])
    case out_of_memory: 1
    then show ?thesis
      using lua_refines_reply [OF wf inv] op present lua_spec.append_no_memory by simp
  next
    case appended: (2 p')
    then show ?thesis
      using lua_refines_reply [OF wf appended(3)] op present lua_spec.append by simp
  qed
qed

lemma env_execute_refines:
  assumes inv: "lua_service_inv pl p" and wf: "wf_rpc_request req" and c: "lua_req_complete req"
    and op: "lua_decode req = Op_Execute (lua_req_index req)"
  shows "lua_refines pl req p (env_execute_handler pl req p)"
proof (cases rule: lua_index_cases [of "lua_req_index req" pl p])
  case absent
  then show ?thesis
    using lua_refines_reply [OF wf inv] env_missing(2) [OF inv wf c] op lua_spec.missing by simp
next
  case (present k s)
  have wfb: "wf_rpc_buffer (req_response req)" and wfb0: "wf_rpc_buffer ((req_response req)\<lparr>rb_data_length := 0\<rparr>)"
    using wf by (simp_all add: wf_rpc_request_def wf_rpc_buffer_def)
  show ?thesis
  proof (cases "s = []")
    case True
    then show ?thesis
      using env_execute_empty [OF inv wf c present(1)] present op
        lua_refines_response [OF wf inv wfb0] lua_spec.execute_nothing by simp
  next
    case False
    obtain L where L: "lp_lua_state p = Some L"
      using inv by (auto simp: lua_service_inv_def lua_inv_def)
    obtain out L' where run: "lua_run pl L (ee_lua_env_ref (lp_env_entries p ! k)) (int k) s = (out, L')"
      by fastforce
    obtain p' where p': "lua_service_inv pl p'"
      "lua_envs pl p' = (if out = Parse_Failed then lua_envs pl p else (lua_envs pl p)(k \<mapsto> []))"
      and h: "env_execute_handler pl req p =
      Some (RPC_SUCCESS, req\<lparr>
         req_service_status := (case out of Parse_Failed \<Rightarrow> LUA_ERROR_PARSER_ERROR
           | Run_Failed \<Rightarrow> LUA_ERROR_INTERPRETER_ERROR | Run_Ok \<Rightarrow> LUA_SUCCESS),
         req_response := (if out = Run_Ok then (req_response req)\<lparr>rb_data_length := 0\<rparr>
           else lua_error_response (req_response req) (lua_error_message pl L'))\<rparr>, p')"
      by (rule env_execute_script [OF inv wf c present False L run])
    show ?thesis
      unfolding h using wfb wfb0 present False op p'
      by (intro lua_refines_response [OF wf]) (cases out; auto intro: lua_spec.intros)+
  qed
qed

lemma env_delete_refines:
  assumes inv: "lua_service_inv pl p" and wf: "wf_rpc_request req" and c: "lua_req_complete req"
    and op: "lua_decode req = Op_Delete (lua_req_index req)"
  shows "lua_refines pl req p (env_delete_handler pl req p)"
proof (cases rule: lua_index_cases [of "lua_req_index req" pl p])
  case absent
  then show ?thesis
    using lua_refines_reply [OF wf inv] env_missing(3) [OF inv wf c] op lua_spec.missing by simp
next
  case (present k s)
  obtain p' where "env_delete_handler pl req p = lua_reply req LUA_SUCCESS p'"
    "lua_service_inv pl p'" "lua_envs pl p' = (lua_envs pl p)(k := None)"
    by (rule env_delete_existing [OF inv wf c present])
  then show ?thesis
    using lua_refines_reply [OF wf, of pl p'] op present lua_spec.delete by simp
qed

lemma lua_serve_dispatch:
  "lua_serve pl req p =
     (case find (\<lambda>h. sh_opcode h = ucast (req_opcode req)) (lua_handler_table pl) of
        Some h \<Rightarrow> sh_invoke h () req p
      | None \<Rightarrow> Some (RPC_ERROR_INVALID_VALUE, req, p))"
  unfolding lua_serve_def lua_base_provider_def by (rule single_provider_receive)

lemma lua_serve_refines:
  assumes "lua_service_inv pl p" and "wf_rpc_request req"
  shows "lua_refines pl req p (lua_serve pl req p)"
proof -
  let ?opc = "ucast (req_opcode req) :: u32"
  note simps = lua_serve_dispatch lua_handler_table_def lua_decode_def Let_def
  consider "?opc = TS_LUA_OPCODE_ENV_CREATE" | "?opc = TS_LUA_OPCODE_ENV_APPEND"
    | "?opc = TS_LUA_OPCODE_ENV_EXECUTE" | "?opc = TS_LUA_OPCODE_ENV_DELETE"
    | "?opc \<notin> {TS_LUA_OPCODE_ENV_CREATE, TS_LUA_OPCODE_ENV_APPEND, TS_LUA_OPCODE_ENV_EXECUTE,
        TS_LUA_OPCODE_ENV_DELETE}"
    by blast
  then show ?thesis
  proof cases
    case 1
    then show ?thesis
      using env_create_refines [OF assms] by (simp add: simps)
  next
    case 2
    then show ?thesis
      using env_append_refines [OF assms] lua_refines_reply [OF assms(2,1)] env_malformed(1) [OF assms]
        lua_spec.malformed
      by (cases "lua_req_complete req") (simp_all add: simps)
  next
    case 3
    then show ?thesis
      using env_execute_refines [OF assms] lua_refines_reply [OF assms(2,1)] env_malformed(2) [OF assms]
        lua_spec.malformed
      by (cases "lua_req_complete req") (simp_all add: simps)
  next
    case 4
    then show ?thesis
      using env_delete_refines [OF assms] lua_refines_reply [OF assms(2,1)] env_malformed(3) [OF assms]
        lua_spec.malformed
      by (cases "lua_req_complete req") (simp_all add: simps)
  next
    case 5
    then have "lua_decode req = Op_Unknown" "lua_serve pl req p = Some (RPC_ERROR_INVALID_VALUE, req, p)"
      by (auto simp: simps)
    with assms show ?thesis
      by (simp add: lua_refines_def same_buffer_sizes_def lua_spec.unknown)
  qed
qed

interpretation lua: rpc_service "lua_serve pl" "lua_service_inv pl" for pl
proof unfold_locales
  fix p req
  assume "lua_service_inv pl p" and "wf_rpc_request req"
  then show "\<exists>st req' p'. lua_serve pl req p = Some (st, req', p') \<and> lua_service_inv pl p'
    \<and> wf_rpc_request req' \<and> same_buffer_sizes req req'"
    using lua_serve_refines [of pl p req]
    by (auto simp: lua_refines_def split: option.splits)
qed


section \<open>Reachable states\<close>

text \<open>A provider that was initialised, had its serializer registered, and served any sequence of
  requests.\<close>

inductive lua_reachable :: "'L lua_platform \<Rightarrow> 'L lua_provider \<Rightarrow> bool" for pl where
  start: "lua_provider_init pl (Some p0) = (True, Some p) \<Longrightarrow>
     lua_reachable pl (lua_provider_register_serializer p (Some packedc_lua_serializer_instance))"
| serve: "lua_reachable pl p \<Longrightarrow> wf_rpc_request req \<Longrightarrow> lua_serve pl req p = Some (st, req', p') \<Longrightarrow>
     lua_reachable pl p'"

lemma lua_start_inv:
  assumes "lua_platform_ok pl" and "lua_provider_init pl (Some p0) = (True, Some p)"
  defines "p1 \<equiv> lua_provider_register_serializer p (Some packedc_lua_serializer_instance)"
  shows "lua_service_inv pl p1" and "lua_envs pl p1 = Map.empty"
proof -
  have e: "lp_env_entries p1 = lp_env_entries p" "lp_free_env_entry_ind p1 = lp_free_env_entry_ind p"
    "lp_lua_state p1 = lp_lua_state p" "lp_serializer p1 = Some packedc_lua_serializer_instance"
    by (simp_all add: p1_def lua_provider_register_serializer_def)
  have "lua_inv pl p" "lua_envs pl p = Map.empty"
    using lua_provider_init_inv [OF assms(2)] by simp_all
  with e assms(1) show "lua_service_inv pl p1" "lua_envs pl p1 = Map.empty"
    using lua_envs_cong [OF e(1), of pl] by (simp_all add: lua_service_inv_def lua_inv_def)
qed

lemma lua_reachable_inv:
  assumes "lua_reachable pl p" and "lua_platform_ok pl"
  shows "lua_service_inv pl p"
  using assms
proof (induction rule: lua_reachable.induct)
  case (start p0 p)
  then show ?case using lua_start_inv(1) by blast
next
  case (serve p req st req' p')
  then show ?case using lua.serve_inv by blast
qed


section \<open>A concrete platform\<close>

text \<open>A Lua machine small enough to compute with, on which the theorems are exercised: the state
  counts the references handed out, a script whose first byte is \<open>0xFF\<close> does not parse, and
  one whose first byte is \<open>0xFE\<close> fails when run.\<close>

definition sample_lua :: "(nat \<times> bool) lua_platform" where
  "sample_lua =
     \<lparr>lua_refnil = - 1, luaL_newstate = Some (0, True), luaL_requiref = (\<lambda>L _. L), lua_pop = (\<lambda>L _. L),
      lua_pushcfunction_log = id, lua_setglobal = (\<lambda>L _. L), luaL_newmetatable = (\<lambda>L _. (True, L)),
      lua_pushglobaltable = id, lua_setfield = (\<lambda>L _ _. L), lua_newtable = id,
      luaL_setmetatable = (\<lambda>L _. L), luaL_ref = (\<lambda>L. (int (fst L), (Suc (fst L), snd L))),
      luaL_unref = (\<lambda>L _. L),
      luaL_loadbuffer = (\<lambda>L s _. (hd s \<noteq> 0xFF, (fst L, hd s \<noteq> 0xFE))), lua_rawgeti = (\<lambda>L _. L),
      lua_setupvalue = (\<lambda>L _ _. L), lua_pcall = (\<lambda>L. (snd L, L)),
      lua_tostring = (\<lambda>_. Some [0x65, 0x72, 0x72, 0]), plat_alloc_ok = (\<lambda>n. n < 4096),
      plat_junk = (\<lambda>_. 0)\<rparr>"

lemma sample_lua_ok: "lua_platform_ok sample_lua"
  by (simp add: lua_platform_ok_def sample_lua_def)

definition sample_provider :: "(nat \<times> bool) lua_provider" where
  "sample_provider =
     \<lparr>lp_serializer = Some packedc_lua_serializer_instance, lp_lua_state = Some (0, True),
      lp_env_entries = lua_env_pool_init sample_lua, lp_free_env_entry_ind = 0\<rparr>"

lemma sample_provider_init:
  "lua_provider_init sample_lua (Some \<lparr>lp_serializer = None, lp_lua_state = None, lp_env_entries = [],
      lp_free_env_entry_ind = 0\<rparr>)
    = (True, Some (sample_provider\<lparr>lp_serializer := None\<rparr>))"
  by (simp add: lua_provider_init_def sample_provider_def sample_lua_def lua_setup_state_def
      lua_load_lib_def)

lemma sample_provider_reachable: "lua_reachable sample_lua sample_provider"
  using lua_reachable.start [OF sample_provider_init]
  by (simp add: lua_provider_register_serializer_def sample_provider_def)

lemma sample_provider_envs: "lua_envs sample_lua sample_provider = Map.empty"
  using lua_start_inv(2) [OF sample_lua_ok sample_provider_init]
  by (simp add: lua_provider_register_serializer_def sample_provider_def)

text \<open>A create request on the sample provider, and the state after it.\<close>

lemma sample_create:
  obtains p1 where
    "lua_serve sample_lua (sample_request 0x200 [] 4) sample_provider =
      Some (RPC_SUCCESS, (sample_request 0x200 [] 4)\<lparr>req_service_status := LUA_SUCCESS,
        req_response := lua_create_response (req_response (sample_request 0x200 [] 4)) 0\<rparr>, p1)"
    and "lua_reachable sample_lua p1" and "lua_envs sample_lua p1 = [0 \<mapsto> []]"
proof -
  let ?req = "sample_request 0x200 [] 4"
  have inv: "lua_service_inv sample_lua sample_provider"
    using lua_reachable_inv [OF sample_provider_reachable sample_lua_ok] .
  have wf: "wf_rpc_request ?req"
    by (rule sample_request_wf) simp_all
  have serve: "lua_serve sample_lua ?req sample_provider = env_create_handler sample_lua ?req sample_provider"
    by (simp add: lua_serve_dispatch lua_handler_table_def sample_request_def)
  show ?thesis
  proof (rule env_create_claims [OF inv _ _ wf, of 0])
    fix k p'
    assume "lp_free_env_entry_ind sample_provider = int k"
      and env: "lua_envs sample_lua p' = (lua_envs sample_lua sample_provider)(k \<mapsto> [])"
      and h: "env_create_handler sample_lua ?req sample_provider =
      (if sizeof_ts_lua_msg \<le> rb_size (req_response ?req)
       then Some (RPC_SUCCESS, ?req\<lparr>req_service_status := LUA_SUCCESS,
              req_response := lua_create_response (req_response ?req) k\<rparr>, p')
       else Some (RPC_ERROR_INTERNAL, ?req\<lparr>req_service_status := LUA_SUCCESS\<rparr>, p'))"
    then have "k = 0"
      by (simp add: sample_provider_def)
    with h serve have s: "lua_serve sample_lua ?req sample_provider =
      Some (RPC_SUCCESS, ?req\<lparr>req_service_status := LUA_SUCCESS,
        req_response := lua_create_response (req_response ?req) 0\<rparr>, p')"
      by (simp add: sample_request_def)
    then show thesis
      using that lua_reachable.serve [OF sample_provider_reachable wf s] env \<open>k = 0\<close>
        sample_provider_envs by simp
  qed (simp_all add: sample_provider_envs)
qed


section \<open>Properties\<close>

text \<open>
  Property C1. In every state the provider can reach, every well-formed request is answered
  without undefined behaviour, in a well-formed response, and the change of the environments is
  one the specification allows for the decoded operation.
\<close>

theorem lua_service_refines_spec:
  assumes "lua_platform_ok pl" and "lua_reachable pl p" and "wf_rpc_request req"
  shows "\<exists>rpc req' p'. lua_serve pl req p = Some (rpc, req', p')
    \<and> lua_reachable pl p' \<and> wf_rpc_request req' \<and> same_buffer_sizes req req'
    \<and> lua_spec (lua_decode req) (lua_envs pl p) rpc (req_service_status req') (lua_envs pl p')"
  using lua_serve_refines [OF lua_reachable_inv [OF assms(2,1)] assms(3)]
    lua_reachable.serve [OF assms(2,3)]
  by (auto simp: lua_refines_def split: option.splits)

theorem lua_service_refines_spec_witness:
  "\<exists>rpc req' p'. lua_serve sample_lua (sample_request 0x200 [] 4) sample_provider = Some (rpc, req', p')
    \<and> lua_spec Op_Create Map.empty rpc (req_service_status req') (lua_envs sample_lua p')"
proof -
  have "lua_decode (sample_request 0x200 [] 4) = Op_Create"
    by (simp add: lua_decode_def sample_request_def)
  then show ?thesis
    using lua_service_refines_spec [OF sample_lua_ok sample_provider_reachable
        sample_request_wf [of "[]" 4 "0x200"]] sample_provider_envs
    by auto
qed

text \<open>
  Property C12. Environments are isolated from each other: a request that does not name
  environment \<open>j\<close> leaves its pending script as it is, and does not delete it.
\<close>

theorem lua_environments_isolated:
  assumes "lua_platform_ok pl" and "lua_reachable pl p" and "wf_rpc_request req"
    and "lua_serve pl req p = Some (rpc, req', p')"
    and "lua_envs pl p j = Some s" and "lua_op_index (lua_decode req) \<noteq> Some (int j)"
  shows "lua_envs pl p' j = Some s"
proof -
  have "lua_spec (lua_decode req) (lua_envs pl p) rpc (req_service_status req') (lua_envs pl p')"
    using lua_serve_refines [OF lua_reachable_inv [OF assms(2,1)] assms(3)] assms(4)
    by (simp add: lua_refines_def)
  then show ?thesis
    using assms(5,6) by cases auto
qed


theorem lua_environments_isolated_witness:
  "\<exists>p1 rpc req' p2. lua_reachable sample_lua p1 \<and> lua_envs sample_lua p1 0 = Some []
    \<and> lua_serve sample_lua (sample_request 0x200 [] 4) p1 = Some (rpc, req', p2)
    \<and> lua_envs sample_lua p2 0 = Some []"
proof -
  let ?req = "sample_request 0x200 [] 4"
  have wf: "wf_rpc_request ?req"
    by (rule sample_request_wf) simp_all
  obtain p1 where p1: "lua_reachable sample_lua p1" "lua_envs sample_lua p1 = [0 \<mapsto> []]"
    by (rule sample_create)
  then obtain rpc req' p2 where s: "lua_serve sample_lua ?req p1 = Some (rpc, req', p2)"
    using lua.serve_returns [OF lua_reachable_inv [OF p1(1) sample_lua_ok] wf] by blast
  have "lua_op_index (lua_decode ?req) = None"
    by (simp add: lua_decode_def sample_request_def)
  then have "lua_envs sample_lua p2 0 = Some []"
    using lua_environments_isolated [OF sample_lua_ok p1(1) wf s, of 0 "[]"] p1(2) by simp
  with p1 s show ?thesis by auto
qed

text \<open>
  Property C14. The free list is sound in every reachable state: following \<open>next\<close> from
  \<open>free_env_entry_ind\<close> visits each unused slot once and ends, and every script buffer is one
  byte longer than the script it holds.
\<close>

theorem lua_free_list_sound:
  assumes "lua_platform_ok pl" and "lua_reachable pl p"
  shows "length (lp_env_entries p) = MAX_ENV_COUNT
    \<and> (\<exists>ks. free_chain (lp_env_entries p) (lp_free_env_entry_ind p) ks \<and> distinct ks
        \<and> set ks = {k. k < MAX_ENV_COUNT \<and> lua_envs pl p k = None})
    \<and> (\<forall>k b. k < MAX_ENV_COUNT \<and> ee_script_buf (lp_env_entries p ! k) = Some b \<longrightarrow>
        lua_envs pl p k = Some (butlast b))"
proof -
  have inv: "lua_inv pl p"
    using lua_reachable_inv [OF assms(2,1)] by (simp add: lua_service_inv_def)
  then obtain ks where len: "length (lp_env_entries p) = MAX_ENV_COUNT"
    and ks: "free_list_ok pl (lp_env_entries p) (lp_free_env_entry_ind p) ks"
    and ok: "\<forall>k < MAX_ENV_COUNT. env_entry_ok pl (lp_env_entries p ! k)"
    by (auto simp: lua_inv_def)
  have "set ks \<subseteq> {..<MAX_ENV_COUNT}"
    using ks free_chain_in [of "lp_env_entries p" "lp_free_env_entry_ind p" ks] len
    by (auto simp: free_list_ok_def)
  then have "set ks = {k. k < MAX_ENV_COUNT \<and> lua_envs pl p k = None}"
    using ks len by (auto simp: free_list_ok_def lua_envs_def split: if_splits)
  moreover have "lua_envs pl p k = Some (butlast b)"
    if "k < MAX_ENV_COUNT" and "ee_script_buf (lp_env_entries p ! k) = Some b" for k b
  proof -
    have e: "env_entry_ok pl (lp_env_entries p ! k)"
      using ok that(1) by simp
    then have "env_used pl (lp_env_entries p ! k)"
      using that(2) by (auto simp: env_entry_ok_def)
    then show ?thesis
      using e that len
      by (simp add: lua_envs_def env_script_def env_entry_ok_def butlast_conv_take)
  qed
  ultimately show ?thesis
    using ks len by (auto simp: free_list_ok_def)
qed

theorem lua_free_list_sound_witness:
  "\<exists>ks. free_chain (lp_env_entries sample_provider) (lp_free_env_entry_ind sample_provider) ks
    \<and> distinct ks \<and> set ks = {k. k < MAX_ENV_COUNT}"
  using lua_free_list_sound [OF sample_lua_ok sample_provider_reachable] sample_provider_envs by simp

text \<open>
  Creating an environment fails exactly when all sixteen are in use; otherwise a
  slot that was unused becomes an empty environment and the response carries its index.
\<close>

theorem lua_create_gives_fresh_index:
  assumes "lua_platform_ok pl" and "lua_reachable pl p" and "wf_rpc_request req"
    and "lua_decode req = Op_Create" and "sizeof_ts_lua_msg \<le> rb_size (req_response req)"
    and "lua_serve pl req p = Some (rpc, req', p')"
  shows "rpc = RPC_SUCCESS
    \<and> ((\<forall>k < MAX_ENV_COUNT. lua_envs pl p k \<noteq> None) \<longrightarrow>
       req_service_status req' = LUA_ERROR_OUT_OF_FREE_ENVIRONMENTS \<and> p' = p)
    \<and> (\<forall>k' < MAX_ENV_COUNT. lua_envs pl p k' = None \<longrightarrow>
       req_service_status req' = LUA_SUCCESS
       \<and> (\<exists>k. k < MAX_ENV_COUNT \<and> lua_envs pl p k = None
            \<and> lua_envs pl p' = (lua_envs pl p)(k \<mapsto> [])
            \<and> slice (rb_data (req_response req')) 0 (rb_data_length (req_response req'))
                = le_int32_bytes (int k)))"
proof -
  have inv: "lua_service_inv pl p"
    using lua_reachable_inv [OF assms(2,1)] .
  have serve: "env_create_handler pl req p = Some (rpc, req', p')"
    using assms(4,6) by (simp add: lua_decode_def lua_serve_dispatch lua_handler_table_def Let_def
        split: if_splits)
  show ?thesis
  proof (cases "\<forall>k < MAX_ENV_COUNT. lua_envs pl p k \<noteq> None")
    case True
    then have "env_create_handler pl req p = lua_reply req LUA_ERROR_OUT_OF_FREE_ENVIRONMENTS p"
      using env_create_full inv unfolding lua_service_inv_def by blast
    with serve True show ?thesis by auto
  next
    case False
    then obtain k' where free: "k' < MAX_ENV_COUNT" "lua_envs pl p k' = None" by auto
    show ?thesis
    proof (rule env_create_claims [OF inv free assms(3)])
      fix k p1
      assume k: "k < MAX_ENV_COUNT" "lua_envs pl p k = None" "lua_envs pl p1 = (lua_envs pl p)(k \<mapsto> [])"
        and h: "env_create_handler pl req p =
      (if sizeof_ts_lua_msg \<le> rb_size (req_response req)
       then Some (RPC_SUCCESS, req\<lparr>req_service_status := LUA_SUCCESS,
              req_response := lua_create_response (req_response req) k\<rparr>, p1)
       else Some (RPC_ERROR_INTERNAL, req\<lparr>req_service_status := LUA_SUCCESS\<rparr>, p1))"
      have r: "rpc = RPC_SUCCESS" "p' = p1" "req' = req\<lparr>req_service_status := LUA_SUCCESS,
          req_response := lua_create_response (req_response req) k\<rparr>"
        using h serve assms(5) by simp_all
      have "slice (rb_data (req_response req')) 0 (rb_data_length (req_response req'))
          = le_int32_bytes (int k)"
        using r(3) assms(3,5)
          slice_splice_same [of 0 "le_int32_bytes (int k)" "rb_data (req_response req)"]
        by (simp add: lua_create_response_def wf_rpc_request_def wf_rpc_buffer_def)
      with k r free show ?thesis by auto
    qed
  qed
qed

theorem lua_create_gives_fresh_index_witness:
  "\<exists>k req' p'. lua_serve sample_lua (sample_request 0x200 [] 4) sample_provider = Some (RPC_SUCCESS, req', p')
    \<and> lua_envs sample_lua p' = [k \<mapsto> []]
    \<and> slice (rb_data (req_response req')) 0 (rb_data_length (req_response req')) = le_int32_bytes (int k)"
proof -
  let ?req = "sample_request 0x200 [] 4"
  have hyps: "wf_rpc_request ?req" "lua_decode ?req = Op_Create"
    "sizeof_ts_lua_msg \<le> rb_size (req_response ?req)"
    by (simp_all add: sample_request_wf lua_decode_def) (simp_all add: sample_request_def)
  obtain p' where s: "lua_serve sample_lua ?req sample_provider =
      Some (RPC_SUCCESS, ?req\<lparr>req_service_status := LUA_SUCCESS,
        req_response := lua_create_response (req_response ?req) 0\<rparr>, p')"
    by (rule sample_create)
  have "lua_envs sample_lua sample_provider 0 = None" and "(0::nat) < MAX_ENV_COUNT"
    using sample_provider_envs by simp_all
  then show ?thesis
    using lua_create_gives_fresh_index [OF sample_lua_ok sample_provider_reachable hyps s] s
      sample_provider_envs by fastforce
qed

text \<open>
  Property C29. Create takes the slot before it looks at the response buffer: with less than four
  bytes of room and a free slot the caller gets \<open>RPC_ERROR_INTERNAL\<close> and an untouched response, so no
  index is reported, yet one more environment, with an empty script, is in use. It stays in use
  until a client deletes that index, which it was not told.
\<close>

theorem lua_create_leaks_slot:
  assumes "lua_platform_ok pl" and "lua_reachable pl p" and "wf_rpc_request req"
    and "lua_decode req = Op_Create" and "rb_size (req_response req) < sizeof_ts_lua_msg"
    and "k' < MAX_ENV_COUNT" and "lua_envs pl p k' = None"
  shows "\<exists>k p' req'. lua_serve pl req p = Some (RPC_ERROR_INTERNAL, req', p')
    \<and> req_response req' = req_response req \<and> lua_envs pl p k = None
    \<and> lua_envs pl p' = (lua_envs pl p)(k \<mapsto> [])"
proof -
  have inv: "lua_service_inv pl p"
    using lua_reachable_inv [OF assms(2,1)] .
  have serve: "lua_serve pl req p = env_create_handler pl req p"
    using assms(4) by (simp add: lua_decode_def lua_serve_dispatch lua_handler_table_def Let_def
        split: if_splits)
  show ?thesis
    by (rule env_create_claims [OF inv assms(6,7,3)]) (use assms(5) serve in auto)
qed

theorem lua_create_leaks_slot_witness:
  "\<exists>k p' req'. lua_serve sample_lua (sample_request 0x200 [] 0) sample_provider
      = Some (RPC_ERROR_INTERNAL, req', p')
    \<and> lua_envs sample_lua p' = [k \<mapsto> []]"
proof -
  let ?req = "sample_request 0x200 [] 0"
  have hyps: "wf_rpc_request ?req" "lua_decode ?req = Op_Create"
    "rb_size (req_response ?req) < sizeof_ts_lua_msg"
    by (simp_all add: sample_request_wf lua_decode_def) (simp_all add: sample_request_def)
  show ?thesis
    using lua_create_leaks_slot [OF sample_lua_ok sample_provider_reachable hyps, of 0]
      sample_provider_envs by auto
qed

end
