(* ===== verification/LuaClient.thy ===== *)
theory LuaClient
  imports LuaProvider
begin

text \<open>
  The Lua client (\<open>lua_client.c\<close>), and what a client that talks to the provider over the
  direct caller observes.
\<close>

section \<open>Operations\<close>

type_synonym ('r, 'c) client_result = "('r \<times> service_client \<times> 'c) option"

definition client_env_create ::
  "'c rpc_caller_interface \<Rightarrow> service_client \<Rightarrow> 'c \<Rightarrow> (lua_status \<times> int, 'c) client_result" where
  "client_env_create ci cl c =
     do {
       (r, ses, c1) \<leftarrow>
         rpc_client_call ci (sc_session cl) c TS_LUA_OPCODE_ENV_CREATE 0 [] sizeof_ts_lua_msg;
       case r of
         None \<Rightarrow>
           Some ((LUA_ERROR_GENERIC_ERROR, - 1),
                 cl\<lparr>sc_session := ses, sc_rpc_status := RPC_ERROR_INTERNAL\<rparr>, c1)
       | Some (rpc_status, resp_buf, resp_len, service_status) \<Rightarrow>
           (let cl1 = cl\<lparr>sc_session := ses, sc_rpc_status := rpc_status\<rparr>
            in if rpc_status \<noteq> RPC_SUCCESS then Some ((LUA_ERROR_GENERIC_ERROR, - 1), cl1, c1)
               else if service_status \<noteq> LUA_SUCCESS then Some ((service_status, - 1), cl1, c1)
               else if resp_len \<noteq> sizeof_ts_lua_msg
               then Some ((LUA_ERROR_GENERIC_ERROR, - 1), cl1, c1)
               else do {
                 b \<leftarrow> resp_buf;
                 msg \<leftarrow> mem_read b 0 sizeof_ts_lua_msg;
                 Some ((service_status, le_int32_val msg), cl1, c1)
               })
     }"

text \<open>The status of an operation with no output: the service status of a call that went
  through.\<close>

definition client_plain_status ::
  "service_client \<Rightarrow> (rpc_status \<times> bytes option \<times> size_t \<times> service_status) option
    \<times> rpc_caller_session option \<times> 'c \<Rightarrow> (lua_status, 'c) client_result" where
  "client_plain_status cl r =
     (case r of
        (None, ses, c1) \<Rightarrow>
          Some (LUA_ERROR_GENERIC_ERROR,
                cl\<lparr>sc_session := ses, sc_rpc_status := RPC_ERROR_INTERNAL\<rparr>, c1)
      | (Some (rpc_status, _, _, service_status), ses, c1) \<Rightarrow>
          Some (if rpc_status = RPC_SUCCESS then service_status else LUA_ERROR_GENERIC_ERROR,
                cl\<lparr>sc_session := ses, sc_rpc_status := rpc_status\<rparr>, c1))"

text \<open>The request length is a \<open>size_t\<close> sum; the script is \<open>script_len\<close> bytes of
  \<open>script_bytes\<close>.\<close>

definition client_env_append ::
  "'c rpc_caller_interface \<Rightarrow> service_client \<Rightarrow> 'c \<Rightarrow> int \<Rightarrow> bytes \<Rightarrow> size_t \<Rightarrow>
    (lua_status, 'c) client_result" where
  "client_env_append ci cl c env_index script_bytes script_len =
     do {
       script \<leftarrow> mem_read script_bytes 0 script_len;
       r \<leftarrow> rpc_client_call ci (sc_session cl) c TS_LUA_OPCODE_ENV_APPEND
              (add64 sizeof_ts_lua_msg script_len)
              [(0, le_int32_bytes env_index), (sizeof_ts_lua_msg, script)] 0;
       client_plain_status cl r
     }"

definition client_env_execute ::
  "'c rpc_caller_interface \<Rightarrow> service_client \<Rightarrow> 'c \<Rightarrow> int \<Rightarrow> size_t \<Rightarrow>
    (lua_status \<times> bytes, 'c) client_result" where
  "client_env_execute ci cl c env_index error_msg_buf_size =
     do {
       (r, ses, c1) \<leftarrow>
         rpc_client_call ci (sc_session cl) c TS_LUA_OPCODE_ENV_EXECUTE sizeof_ts_lua_msg
           [(0, le_int32_bytes env_index)] error_msg_buf_size;
       case r of
         None \<Rightarrow>
           Some ((LUA_ERROR_GENERIC_ERROR, []),
                 cl\<lparr>sc_session := ses, sc_rpc_status := RPC_ERROR_INTERNAL\<rparr>, c1)
       | Some (rpc_status, resp_buf, resp_len, service_status) \<Rightarrow>
           (let cl1 = cl\<lparr>sc_session := ses, sc_rpc_status := rpc_status\<rparr>
            in if rpc_status \<noteq> RPC_SUCCESS then Some ((LUA_ERROR_GENERIC_ERROR, []), cl1, c1)
               else if service_status = LUA_SUCCESS then Some ((service_status, []), cl1, c1)
               else if error_msg_buf_size < resp_len
               then Some ((PSA_ERROR_BUFFER_TOO_SMALL, []), cl1, c1)
               else if resp_len = 0 then Some ((service_status, []), cl1, c1)
               else do {
                 b \<leftarrow> resp_buf;
                 msg \<leftarrow> mem_read b 0 resp_len;
                 Some ((service_status, msg), cl1, c1)
               })
     }"

definition client_env_delete ::
  "'c rpc_caller_interface \<Rightarrow> service_client \<Rightarrow> 'c \<Rightarrow> int \<Rightarrow> (lua_status, 'c) client_result" where
  "client_env_delete ci cl c env_index =
     do {
       r \<leftarrow> rpc_client_call ci (sc_session cl) c TS_LUA_OPCODE_ENV_DELETE sizeof_ts_lua_msg
              [(0, le_int32_bytes env_index)] 0;
       client_plain_status cl r
     }"

text \<open>\<open>lua_client_init\<close> drops the status of the base initialisation.\<close>

definition lua_client_init :: "service_client \<Rightarrow> rpc_caller_session option \<Rightarrow> service_client option" where
  "lua_client_init lua_client session = snd (service_client_init (Some lua_client) session)"

definition lua_client_deinit :: "service_client \<Rightarrow> service_client" where
  "lua_client_deinit lua_client = service_client_deinit lua_client"


section \<open>The client over the direct caller\<close>

abbreviation lua_ci :: "'L lua_platform \<Rightarrow> 'L lua_provider direct_caller_context rpc_caller_interface" where
  "lua_ci pl \<equiv> direct_caller_interface (lua_serve pl) (\<lambda>_. True)"

text \<open>A request as the provider gets it: the opcode, the index and the script of the message.\<close>

definition lua_request :: "u32 \<Rightarrow> bytes \<Rightarrow> size_t \<Rightarrow> rpc_request \<Rightarrow> bool" where
  "lua_request opc msg room req \<longleftrightarrow>
     wf_rpc_request req \<and> req_opcode req = ucast opc
     \<and> rb_data_length (req_request req) = length msg
     \<and> slice (rb_data (req_request req)) 0 (length msg) = msg
     \<and> rb_size (req_response req) = room \<and> rb_data_length (req_response req) = 0"

lemma lua_request_index:
  assumes "lua_request opc (le_int32_bytes i @ s) room req" and "- (2 ^ 31) \<le> i" and "i < 2 ^ 31"
  shows "lua_req_complete req" and "lua_req_index req = i" and "lua_req_script req = s"
proof -
  let ?d = "rb_data (req_request req)"
  have msg: "slice ?d 0 (4 + length s) = le_int32_bytes i @ s"
    and len: "rb_data_length (req_request req) = 4 + length s"
    using assms(1) by (simp_all add: lua_request_def)
  show "lua_req_complete req"
    using len by (simp add: lua_req_complete_def)
  have "slice ?d 0 4 @ slice ?d 4 (length s) = le_int32_bytes i @ s"
    using slice_append [of 0 4 "length s" ?d] msg len assms(1)
    by (simp add: lua_request_def wf_rpc_request_def wf_rpc_buffer_def)
  moreover have "length (slice ?d 0 4) = 4"
    using assms(1) len by (simp add: lua_request_def wf_rpc_request_def wf_rpc_buffer_def)
  ultimately have "slice ?d 0 4 = le_int32_bytes i" and "slice ?d 4 (length s) = s"
    by (simp_all add: append_eq_append_conv)
  then show "lua_req_index req = i" and "lua_req_script req = s"
    using assms(2,3) len by (simp_all add: lua_req_index_def lua_req_script_def wire_simps)
qed

lemma lua_transaction:
  assumes "client_idle cl" and "lua_service_inv pl (dc_world c)" and "client_room cl (length msg) ml"
  obtains req st req' w' ses' where
    "lua_request opc msg (session_room (the (sc_session cl)) (max (length msg) ml)) req"
    and "lua_serve pl req (dc_world c) = Some (st, req', w')"
    and "rpc_client_transaction (lua_ci pl) (sc_session cl) c opc msg ml =
      Some (Some (if st = RPC_SUCCESS
                  then (st, Some (rb_data (req_response req')), rb_data_length (req_response req'),
                        req_service_status req')
                  else (st, None, 0, req_service_status req')),
            Some ses', c\<lparr>dc_world := w'\<rparr>)"
    and "client_idle (cl\<lparr>sc_session := Some ses', sc_rpc_status := st\<rparr>)"
    and "client_same_room cl (cl\<lparr>sc_session := Some ses', sc_rpc_status := st\<rparr>)"
    and "wf_rpc_request req'"
    and "lua_refines pl req (dc_world c) (Some (st, req', w'))"
proof (rule lua.client_transaction [OF assms, of opc])
  fix req st req' w' ses'
  assume *: "carried_request (dc_endpoint_id c) opc msg (session_room (the (sc_session cl)) (max (length msg) ml)) req"
    "lua_serve pl req (dc_world c) = Some (st, req', w')"
    and t: "rpc_client_transaction (lua_ci pl) (sc_session cl) c opc msg ml =
      Some (Some (if st = RPC_SUCCESS
                  then (st, Some (rb_data (req_response req')), rb_data_length (req_response req'),
                        req_service_status req')
                  else (st, None, 0, req_service_status req')),
            Some ses', c\<lparr>dc_world := w'\<rparr>)"
    and keeps: "client_idle (cl\<lparr>sc_session := Some ses', sc_rpc_status := st\<rparr>)"
      "client_same_room cl (cl\<lparr>sc_session := Some ses', sc_rpc_status := st\<rparr>)" "wf_rpc_request req'"
  have "lua_request opc msg (session_room (the (sc_session cl)) (max (length msg) ml)) req"
    using *(1) by (simp add: lua_request_def carried_request_def)
  moreover have "lua_refines pl req (dc_world c) (Some (st, req', w'))"
    using lua_serve_refines [OF assms(2), of req] * by (simp add: carried_request_def)
  ultimately show thesis
    using that *(2) t keeps by simp
qed

lemma lua_serve_op:
  "lua_request TS_LUA_OPCODE_ENV_CREATE msg room req \<Longrightarrow> lua_serve pl req p = env_create_handler pl req p"
  "lua_request TS_LUA_OPCODE_ENV_APPEND msg room req \<Longrightarrow> lua_serve pl req p = env_append_handler pl req p"
  "lua_request TS_LUA_OPCODE_ENV_EXECUTE msg room req \<Longrightarrow> lua_serve pl req p = env_execute_handler pl req p"
  "lua_request TS_LUA_OPCODE_ENV_DELETE msg room req \<Longrightarrow> lua_serve pl req p = env_delete_handler pl req p"
  by (simp_all add: lua_request_def lua_serve_dispatch lua_handler_table_def)

lemma client_create_direct:
  assumes idle: "client_idle cl" and inv: "lua_service_inv pl (dc_world c)"
    and room: "client_room cl 0 sizeof_ts_lua_msg"
    and free: "k' < MAX_ENV_COUNT" "lua_envs pl (dc_world c) k' = None"
  obtains k cl' w' where
    "client_env_create (lua_ci pl) cl c = Some ((LUA_SUCCESS, int k), cl', c\<lparr>dc_world := w'\<rparr>)"
    and "k < MAX_ENV_COUNT" and "lua_envs pl (dc_world c) k = None"
    and "lp_free_env_entry_ind (dc_world c) = int k"
    and "lua_envs pl w' = (lua_envs pl (dc_world c))(k \<mapsto> [])"
    and "client_idle cl'" and "lua_service_inv pl w'" and "client_same_room cl cl'"
proof -
  let ?opc = TS_LUA_OPCODE_ENV_CREATE
  obtain req st req' w' ses' where
    rq: "lua_request ?opc [] (session_room (the (sc_session cl)) sizeof_ts_lua_msg) req"
    and sv: "lua_serve pl req (dc_world c) = Some (st, req', w')"
    and t: "rpc_client_transaction (lua_ci pl) (sc_session cl) c ?opc [] sizeof_ts_lua_msg =
      Some (Some (if st = RPC_SUCCESS
                  then (st, Some (rb_data (req_response req')), rb_data_length (req_response req'),
                        req_service_status req')
                  else (st, None, 0, req_service_status req')),
            Some ses', c\<lparr>dc_world := w'\<rparr>)"
    and idle': "client_idle (cl\<lparr>sc_session := Some ses', sc_rpc_status := st\<rparr>)"
    and same': "client_same_room cl (cl\<lparr>sc_session := Some ses', sc_rpc_status := st\<rparr>)"
    by (rule lua_transaction [OF idle inv, of "[]" sizeof_ts_lua_msg ?opc]) (use room in simp_all)
  have wf: "wf_rpc_request req"
    using rq by (simp add: lua_request_def)
  have big: "sizeof_ts_lua_msg \<le> rb_size (req_response req)"
    using rq room idle by (auto simp: lua_request_def client_room_def client_idle_def split: option.splits)
  from env_create_claims [OF inv free wf] big obtain k p' where
    k: "k < MAX_ENV_COUNT" "lp_free_env_entry_ind (dc_world c) = int k"
      "lua_envs pl (dc_world c) k = None" "lua_service_inv pl p'"
      "lua_envs pl p' = (lua_envs pl (dc_world c))(k \<mapsto> [])"
    and h: "env_create_handler pl req (dc_world c) = Some (RPC_SUCCESS,
      req\<lparr>req_service_status := LUA_SUCCESS, req_response := lua_create_response (req_response req) k\<rparr>, p')"
    by (metis (no_types))
  have r: "st = RPC_SUCCESS" "req' = req\<lparr>req_service_status := LUA_SUCCESS,
      req_response := lua_create_response (req_response req) k\<rparr>" "w' = p'"
    using sv h lua_serve_op(1) [OF rq, of pl "dc_world c"] by simp_all
  have "mem_read (rb_data (lua_create_response (req_response req) k)) 0 sizeof_ts_lua_msg
      = Some (le_int32_bytes (int k))"
    using wf big slice_splice_same [of 0 "le_int32_bytes (int k)" "rb_data (req_response req)"]
    by (simp add: lua_create_response_def mem_simps wf_rpc_request_def wf_rpc_buffer_def)
  then have "client_env_create (lua_ci pl) cl c = Some ((LUA_SUCCESS, int k),
      cl\<lparr>sc_session := Some ses', sc_rpc_status := RPC_SUCCESS\<rparr>, c\<lparr>dc_world := w'\<rparr>)"
    using t r k(1)
    by (simp add: client_env_create_def rpc_client_call_no_request lua_create_response_def wire_simps)
  then show ?thesis
    using that k idle' same' r by simp
qed

lemma client_append_direct:
  assumes idle: "client_idle cl" and inv: "lua_service_inv pl (dc_world c)"
    and room: "client_room cl (sizeof_ts_lua_msg + length script) 0"
    and env: "lua_envs pl (dc_world c) k = Some s"
    and alloc: "plat_alloc_ok pl (length s + length script + 1)"
  obtains cl' w' where
    "client_env_append (lua_ci pl) cl c (int k) script (length script)
      = Some (LUA_SUCCESS, cl', c\<lparr>dc_world := w'\<rparr>)"
    and "lua_envs pl w' = (lua_envs pl (dc_world c))(k \<mapsto> s @ script)"
    and "client_idle cl'" and "lua_service_inv pl w'" and "client_same_room cl cl'"
proof -
  let ?opc = TS_LUA_OPCODE_ENV_APPEND and ?msg = "le_int32_bytes (int k) @ script"
  have k: "k < MAX_ENV_COUNT"
    using lua_inv_envs(1) [OF _ env] inv by (simp add: lua_service_inv_def)
  obtain req st req' w' ses' room' where
    rq: "lua_request ?opc ?msg room' req"
    and sv: "lua_serve pl req (dc_world c) = Some (st, req', w')"
    and t: "rpc_client_transaction (lua_ci pl) (sc_session cl) c ?opc ?msg 0 =
      Some (Some (if st = RPC_SUCCESS
                  then (st, Some (rb_data (req_response req')), rb_data_length (req_response req'),
                        req_service_status req')
                  else (st, None, 0, req_service_status req')),
            Some ses', c\<lparr>dc_world := w'\<rparr>)"
    and idle': "client_idle (cl\<lparr>sc_session := Some ses', sc_rpc_status := st\<rparr>)"
    and same': "client_same_room cl (cl\<lparr>sc_session := Some ses', sc_rpc_status := st\<rparr>)"
    by (rule lua_transaction [OF idle inv, of ?msg 0 ?opc]) (use room in simp_all)
  have wf: "wf_rpc_request req"
    using rq by (simp add: lua_request_def)
  have dec: "lua_req_complete req" "lua_req_index req = int k" "lua_req_script req = script"
    using lua_request_index [OF rq] k by simp_all
  obtain p' where h: "env_append_handler pl req (dc_world c) = lua_reply req LUA_SUCCESS p'"
    and p': "lua_service_inv pl p'" "lua_envs pl p' = (lua_envs pl (dc_world c))(k \<mapsto> s @ script)"
    by (rule env_append_existing [OF inv wf dec(1,2) env]) (use alloc dec in auto)
  have r: "st = RPC_SUCCESS" "req' = req\<lparr>req_service_status := LUA_SUCCESS\<rparr>" "w' = p'"
    using sv h lua_serve_op(2) [OF rq, of pl "dc_world c"] by simp_all
  have "sizeof_ts_lua_msg + length script \<le> UINT32_MAX"
    using room by (simp add: client_room_def)
  then have add: "add64 sizeof_ts_lua_msg (length script) = sizeof_ts_lua_msg + length script"
    by (simp add: arith64)
  have ne: "le_int32_bytes (int k) \<noteq> []"
    using length_le_int32_bytes [of "int k"] by fastforce
  have "client_env_append (lua_ci pl) cl c (int k) script (length script) = Some (LUA_SUCCESS,
      cl\<lparr>sc_session := Some ses', sc_rpc_status := RPC_SUCCESS\<rparr>, c\<lparr>dc_world := w'\<rparr>)"
    using t r
    by (simp add: client_env_append_def mem_simps add client_plain_status_def
        rpc_client_call_header_payload [OF ne])
  then show ?thesis
    using that p' idle' same' r by simp
qed


text \<open>What the client gets to see of an execution with outcome \<open>out\<close>: an error message that
  fits the shared memory is returned when it fits the caller's buffer too, and dropped when it
  does not fit the shared memory.\<close>

definition client_execute_result :: "size_t \<Rightarrow> size_t \<Rightarrow> lua_outcome \<Rightarrow> bytes \<Rightarrow> lua_status \<times> bytes" where
  "client_execute_result room err_size out msg =
     (let st = (case out of Parse_Failed \<Rightarrow> LUA_ERROR_PARSER_ERROR
                | Run_Failed \<Rightarrow> LUA_ERROR_INTERPRETER_ERROR | Run_Ok \<Rightarrow> LUA_SUCCESS)
      in if out = Run_Ok then (st, [])
         else if room < length msg then (st, [])
         else if err_size < length msg then (PSA_ERROR_BUFFER_TOO_SMALL, [])
         else (st, msg))"

lemma client_execute_direct:
  assumes idle: "client_idle cl" and inv: "lua_service_inv pl (dc_world c)"
    and room: "client_room cl sizeof_ts_lua_msg err_size"
    and env: "lua_envs pl (dc_world c) k = Some s" "s \<noteq> []"
    and L: "lp_lua_state (dc_world c) = Some L"
    and run: "lua_run pl L (ee_lua_env_ref (lp_env_entries (dc_world c) ! k)) (int k) s = (out, L')"
  obtains cl' w' where
    "client_env_execute (lua_ci pl) cl c (int k) err_size
      = Some (client_execute_result (session_room (the (sc_session cl)) (max sizeof_ts_lua_msg err_size))
                err_size out (lua_error_message pl L'), cl', c\<lparr>dc_world := w'\<rparr>)"
    and "lua_envs pl w' = (if out = Parse_Failed then lua_envs pl (dc_world c)
           else (lua_envs pl (dc_world c))(k \<mapsto> []))"
    and "client_idle cl'" and "lua_service_inv pl w'" and "client_same_room cl cl'"
proof -
  let ?opc = TS_LUA_OPCODE_ENV_EXECUTE and ?msg = "le_int32_bytes (int k)"
  let ?room = "session_room (the (sc_session cl)) (max sizeof_ts_lua_msg err_size)"
  have k: "k < MAX_ENV_COUNT"
    using lua_inv_envs(1) [OF _ env(1)] inv by (simp add: lua_service_inv_def)
  obtain req st req' w' ses' where
    rq: "lua_request ?opc ?msg ?room req"
    and sv: "lua_serve pl req (dc_world c) = Some (st, req', w')"
    and t: "rpc_client_transaction (lua_ci pl) (sc_session cl) c ?opc ?msg err_size =
      Some (Some (if st = RPC_SUCCESS
                  then (st, Some (rb_data (req_response req')), rb_data_length (req_response req'),
                        req_service_status req')
                  else (st, None, 0, req_service_status req')),
            Some ses', c\<lparr>dc_world := w'\<rparr>)"
    and idle': "client_idle (cl\<lparr>sc_session := Some ses', sc_rpc_status := st\<rparr>)"
    and same': "client_same_room cl (cl\<lparr>sc_session := Some ses', sc_rpc_status := st\<rparr>)"
    by (rule lua_transaction [OF idle inv, of ?msg err_size ?opc]) (use room in simp_all)
  have wf: "wf_rpc_request req" and rsz: "rb_size (req_response req) = ?room"
    and rlen: "rb_data_length (req_response req) = 0"
    using rq by (simp_all add: lua_request_def)
  have dec: "lua_req_complete req" "lua_req_index req = int k"
    using lua_request_index [of ?opc "int k" "[]" ?room req] rq k by simp_all
  obtain p' where p': "lua_service_inv pl p'"
    "lua_envs pl p' = (if out = Parse_Failed then lua_envs pl (dc_world c)
       else (lua_envs pl (dc_world c))(k \<mapsto> []))"
    and h: "env_execute_handler pl req (dc_world c) =
      Some (RPC_SUCCESS, req\<lparr>
         req_service_status := (case out of Parse_Failed \<Rightarrow> LUA_ERROR_PARSER_ERROR
           | Run_Failed \<Rightarrow> LUA_ERROR_INTERPRETER_ERROR | Run_Ok \<Rightarrow> LUA_SUCCESS),
         req_response := (if out = Run_Ok then (req_response req)\<lparr>rb_data_length := 0\<rparr>
           else lua_error_response (req_response req) (lua_error_message pl L'))\<rparr>, p')"
    by (rule env_execute_script [OF inv wf dec env L run])
  let ?m = "lua_error_message pl L'"
  have rd: "length ?m \<le> ?room \<Longrightarrow>
      mem_read (splice (rb_data (req_response req)) 0 ?m) 0 (length ?m) = Some ?m"
    using wf rsz slice_splice_same [of 0 ?m "rb_data (req_response req)"]
    by (simp add: mem_simps wf_rpc_request_def wf_rpc_buffer_def)
  have "client_env_execute (lua_ci pl) cl c (int k) err_size
      = Some (client_execute_result ?room err_size out ?m,
          cl\<lparr>sc_session := Some ses', sc_rpc_status := RPC_SUCCESS\<rparr>, c\<lparr>dc_world := p'\<rparr>)"
    using t sv h rsz rlen rd lua_serve_op(3) [OF rq, of pl "dc_world c"]
    by (cases out) (auto simp: client_env_execute_def client_execute_result_def Let_def
        rpc_client_transaction_def lua_error_response_def not_less)
  moreover have "st = RPC_SUCCESS" "w' = p'"
    using sv h lua_serve_op(3) [OF rq, of pl "dc_world c"] by simp_all
  ultimately show ?thesis
    using that p' idle' same' by simp
qed

lemma client_delete_direct:
  assumes idle: "client_idle cl" and inv: "lua_service_inv pl (dc_world c)"
    and room: "client_room cl sizeof_ts_lua_msg 0"
    and env: "lua_envs pl (dc_world c) k = Some s"
  obtains cl' w' where
    "client_env_delete (lua_ci pl) cl c (int k) = Some (LUA_SUCCESS, cl', c\<lparr>dc_world := w'\<rparr>)"
    and "lua_envs pl w' = (lua_envs pl (dc_world c))(k := None)"
    and "lp_free_env_entry_ind w' = int k" and "client_idle cl'" and "lua_service_inv pl w'" and "client_same_room cl cl'"
proof -
  let ?opc = TS_LUA_OPCODE_ENV_DELETE and ?msg = "le_int32_bytes (int k)"
  have k: "k < MAX_ENV_COUNT"
    using lua_inv_envs(1) [OF _ env] inv by (simp add: lua_service_inv_def)
  obtain req st req' w' ses' room' where
    rq: "lua_request ?opc ?msg room' req"
    and sv: "lua_serve pl req (dc_world c) = Some (st, req', w')"
    and t: "rpc_client_transaction (lua_ci pl) (sc_session cl) c ?opc ?msg 0 =
      Some (Some (if st = RPC_SUCCESS
                  then (st, Some (rb_data (req_response req')), rb_data_length (req_response req'),
                        req_service_status req')
                  else (st, None, 0, req_service_status req')),
            Some ses', c\<lparr>dc_world := w'\<rparr>)"
    and idle': "client_idle (cl\<lparr>sc_session := Some ses', sc_rpc_status := st\<rparr>)"
    and same': "client_same_room cl (cl\<lparr>sc_session := Some ses', sc_rpc_status := st\<rparr>)"
    by (rule lua_transaction [OF idle inv, of ?msg 0 ?opc]) (use room in simp_all)
  have wf: "wf_rpc_request req"
    using rq by (simp add: lua_request_def)
  have dec: "lua_req_complete req" "lua_req_index req = int k"
    using lua_request_index [of ?opc "int k" "[]" room' req] rq k by simp_all
  obtain p' where h: "env_delete_handler pl req (dc_world c) = lua_reply req LUA_SUCCESS p'"
    and p': "lua_service_inv pl p'" "lua_envs pl p' = (lua_envs pl (dc_world c))(k := None)"
      "lp_free_env_entry_ind p' = int k"
    by (rule env_delete_existing [OF inv wf dec env])
  have r: "st = RPC_SUCCESS" "req' = req\<lparr>req_service_status := LUA_SUCCESS\<rparr>" "w' = p'"
    using sv h lua_serve_op(4) [OF rq, of pl "dc_world c"] by simp_all
  have "client_env_delete (lua_ci pl) cl c (int k) = Some (LUA_SUCCESS,
      cl\<lparr>sc_session := Some ses', sc_rpc_status := RPC_SUCCESS\<rparr>, c\<lparr>dc_world := w'\<rparr>)"
    using t r by (simp add: client_env_delete_def rpc_client_transaction_def client_plain_status_def)
  then show ?thesis
    using that p' idle' same' r by simp
qed


section \<open>A concrete client\<close>

definition sample_context :: "'w \<Rightarrow> 'w direct_caller_context" where
  "sample_context w = \<lparr>dc_service_uuid = TS_LUA_SERVICE_UUID, dc_endpoint_id = 1, dc_world = w\<rparr>"

lemma sample_context_inv: "lua_service_inv sample_lua (dc_world (sample_context sample_provider))"
  using lua_reachable_inv [OF sample_provider_reachable sample_lua_ok] by (simp add: sample_context_def)

lemma sample_scripted:
  obtains cl p where "client_idle cl" and "client_same_room sample_client cl"
    and "lua_service_inv sample_lua p" and "lua_envs sample_lua p 0 = Some [0xFF]"
proof -
  obtain p1 where p1: "lua_reachable sample_lua p1" "lua_envs sample_lua p1 = [0 \<mapsto> []]"
    by (rule sample_create)
  have hyps: "lua_service_inv sample_lua (dc_world (sample_context p1))"
    "client_room sample_client (sizeof_ts_lua_msg + length [0xFF :: byte]) 0"
    "lua_envs sample_lua (dc_world (sample_context p1)) 0 = Some []"
    "plat_alloc_ok sample_lua (length ([] :: bytes) + length [0xFF :: byte] + 1)"
    using p1 lua_reachable_inv [OF p1(1) sample_lua_ok]
    by (simp_all add: sample_client_room sample_context_def) (simp add: sample_lua_def)
  show ?thesis
    by (rule client_append_direct [OF sample_client_idle hyps]) (use that in auto)
qed


section \<open>Properties\<close>

text \<open>
  Property C19. Script delivery, end to end: a client that creates an environment, appends the
  chunks \<open>a\<close> and \<open>b\<close> and executes it makes the Lua machine run exactly the
  concatenation of the chunks in that environment, and gets to see the outcome; the environment
  was not in use before, and all others keep their scripts.
\<close>

theorem lua_client_script_delivery:
  assumes idle: "client_idle cl" and inv: "lua_service_inv pl (dc_world c)"
    and free: "k' < MAX_ENV_COUNT" "lua_envs pl (dc_world c) k' = None"
    and room: "client_room cl 0 sizeof_ts_lua_msg"
      "client_room cl (sizeof_ts_lua_msg + length a) 0" "client_room cl (sizeof_ts_lua_msg + length b) 0"
      "client_room cl sizeof_ts_lua_msg err_size"
    and alloc: "plat_alloc_ok pl (length a + 1)" "plat_alloc_ok pl (length a + length b + 1)"
    and script: "a @ b \<noteq> []"
  shows "\<exists>k cl1 c1 cl2 c2 cl3 c3 L. lua_envs pl (dc_world c) k = None
    \<and> client_env_create (lua_ci pl) cl c = Some ((LUA_SUCCESS, int k), cl1, c1)
    \<and> client_env_append (lua_ci pl) cl1 c1 (int k) a (length a) = Some (LUA_SUCCESS, cl2, c2)
    \<and> client_env_append (lua_ci pl) cl2 c2 (int k) b (length b) = Some (LUA_SUCCESS, cl3, c3)
    \<and> lp_lua_state (dc_world c3) = Some L
    \<and> (let (out, L') = lua_run pl L (ee_lua_env_ref (lp_env_entries (dc_world c3) ! k)) (int k) (a @ b)
       in \<exists>cl4 c4. client_env_execute (lua_ci pl) cl3 c3 (int k) err_size
            = Some (client_execute_result
                      (session_room (the (sc_session cl)) (max sizeof_ts_lua_msg err_size)) err_size
                      out (lua_error_message pl L'), cl4, c4)
          \<and> (\<forall>j. j \<noteq> k \<longrightarrow> lua_envs pl (dc_world c4) j = lua_envs pl (dc_world c) j))"
proof -
  obtain k cl1 w1 where 1: "client_env_create (lua_ci pl) cl c = Some ((LUA_SUCCESS, int k), cl1, c\<lparr>dc_world := w1\<rparr>)"
    "lua_envs pl (dc_world c) k = None" "lua_envs pl w1 = (lua_envs pl (dc_world c))(k \<mapsto> [])"
    "client_idle cl1" "lua_service_inv pl w1" "client_same_room cl cl1"
    by (rule client_create_direct [OF idle inv room(1) free])
  define c1 where "c1 = c\<lparr>dc_world := w1\<rparr>"
  have c1: "dc_world c1 = w1"
    by (simp add: c1_def)
  obtain cl2 w2 where 2: "client_env_append (lua_ci pl) cl1 c1 (int k) a (length a)
      = Some (LUA_SUCCESS, cl2, c1\<lparr>dc_world := w2\<rparr>)"
    "lua_envs pl w2 = (lua_envs pl (dc_world c1))(k \<mapsto> [] @ a)" "client_idle cl2" "lua_service_inv pl w2"
    "client_same_room cl1 cl2"
    by (rule client_append_direct [of cl1 pl c1 a k "[]"])
      (use 1 c1 room(2) alloc(1) client_same_roomD in auto)
  define c2 where "c2 = c1\<lparr>dc_world := w2\<rparr>"
  have c2: "dc_world c2 = w2"
    by (simp add: c2_def)
  obtain cl3 w3 where 3: "client_env_append (lua_ci pl) cl2 c2 (int k) b (length b)
      = Some (LUA_SUCCESS, cl3, c2\<lparr>dc_world := w3\<rparr>)"
    "lua_envs pl w3 = (lua_envs pl (dc_world c2))(k \<mapsto> a @ b)" "client_idle cl3" "lua_service_inv pl w3"
    "client_same_room cl2 cl3"
    by (rule client_append_direct [of cl2 pl c2 b k a])
      (use 1 2 c1 c2 room(3) alloc(2) client_same_roomD in auto)
  define c3 where "c3 = c2\<lparr>dc_world := w3\<rparr>"
  have c3: "dc_world c3 = w3"
    by (simp add: c3_def)
  have same: "client_same_room cl cl3"
    using 1(6) 2(5) 3(5) by (blast intro: client_same_room_trans)
  obtain L where L: "lp_lua_state w3 = Some L"
    using 3(4) by (auto simp: lua_service_inv_def lua_inv_def)
  obtain out L' where run: "lua_run pl L (ee_lua_env_ref (lp_env_entries w3 ! k)) (int k) (a @ b) = (out, L')"
    by fastforce
  obtain cl4 w4 where 4: "client_env_execute (lua_ci pl) cl3 c3 (int k) err_size
      = Some (client_execute_result (session_room (the (sc_session cl3)) (max sizeof_ts_lua_msg err_size))
                err_size out (lua_error_message pl L'), cl4, c3\<lparr>dc_world := w4\<rparr>)"
    "lua_envs pl w4 = (if out = Parse_Failed then lua_envs pl (dc_world c3)
           else (lua_envs pl (dc_world c3))(k \<mapsto> []))"
    by (rule client_execute_direct [of cl3 pl c3 err_size k "a @ b" L out L'])
      (use 3 c3 room(4) script L run client_same_roomD [OF same] in auto)
  have "\<forall>j. j \<noteq> k \<longrightarrow> lua_envs pl w4 j = lua_envs pl (dc_world c) j"
    using 4(2) 3(2) 2(2) 1(3) c1 c2 c3 by auto
  moreover have "session_room (the (sc_session cl3)) n = session_room (the (sc_session cl)) n" for n
    using client_same_room_the [OF same idle] .
  ultimately show ?thesis
    using 1(1,2) 2(1) 3(1) 4(1) L run c3 unfolding c1_def [symmetric] c2_def [symmetric] c3_def [symmetric]
    by (intro exI [of _ k] exI [of _ cl1] exI [of _ c1] exI [of _ cl2] exI [of _ c2] exI [of _ cl3]
        exI [of _ c3] exI [of _ L]) auto
qed

theorem lua_client_script_delivery_witness:
  "\<exists>k cl1 c1 cl2 c2 cl3 c3.
     client_env_create (lua_ci sample_lua) sample_client (sample_context sample_provider)
       = Some ((LUA_SUCCESS, int k), cl1, c1)
     \<and> client_env_append (lua_ci sample_lua) cl1 c1 (int k) [0x61] 1 = Some (LUA_SUCCESS, cl2, c2)
     \<and> client_env_append (lua_ci sample_lua) cl2 c2 (int k) [0x62] 1 = Some (LUA_SUCCESS, cl3, c3)"
proof -
  have "client_idle sample_client" "lua_service_inv sample_lua (dc_world (sample_context sample_provider))"
    "0 < MAX_ENV_COUNT" "lua_envs sample_lua (dc_world (sample_context sample_provider)) 0 = None"
    "client_room sample_client 0 sizeof_ts_lua_msg"
    "client_room sample_client (sizeof_ts_lua_msg + length [0x61 :: byte]) 0"
    "client_room sample_client (sizeof_ts_lua_msg + length [0x62 :: byte]) 0"
    "client_room sample_client sizeof_ts_lua_msg 16"
    "plat_alloc_ok sample_lua (length [0x61 :: byte] + 1)"
    "plat_alloc_ok sample_lua (length [0x61 :: byte] + length [0x62 :: byte] + 1)"
    "[0x61 :: byte] @ [0x62] \<noteq> []"
    using sample_client_idle sample_context_inv sample_provider_envs
    by (simp_all add: sample_client_room sample_context_def) (simp_all add: sample_lua_def)
  from lua_client_script_delivery [OF this] show ?thesis
    by (auto 0 3)
qed

text \<open>
  Property C26. Slots are recycled most recently freed first: when a client deletes an environment
  and creates one, it gets the index it just gave up, with an empty script.
\<close>

theorem lua_client_delete_create_recycles:
  assumes idle: "client_idle cl" and inv: "lua_service_inv pl (dc_world c)"
    and env: "lua_envs pl (dc_world c) k = Some s"
    and room: "client_room cl sizeof_ts_lua_msg 0" "client_room cl 0 sizeof_ts_lua_msg"
  shows "\<exists>cl1 c1 cl2 c2. client_env_delete (lua_ci pl) cl c (int k) = Some (LUA_SUCCESS, cl1, c1)
    \<and> lua_envs pl (dc_world c1) k = None
    \<and> client_env_create (lua_ci pl) cl1 c1 = Some ((LUA_SUCCESS, int k), cl2, c2)
    \<and> lua_envs pl (dc_world c2) = (lua_envs pl (dc_world c))(k \<mapsto> [])"
proof -
  obtain cl1 w1 where 1: "client_env_delete (lua_ci pl) cl c (int k) = Some (LUA_SUCCESS, cl1, c\<lparr>dc_world := w1\<rparr>)"
    "lua_envs pl w1 = (lua_envs pl (dc_world c))(k := None)" "lp_free_env_entry_ind w1 = int k"
    "client_idle cl1" "lua_service_inv pl w1" "client_same_room cl cl1"
    by (rule client_delete_direct [OF idle inv room(1) env])
  define c1 where "c1 = c\<lparr>dc_world := w1\<rparr>"
  have c1: "dc_world c1 = w1"
    by (simp add: c1_def)
  have k: "k < MAX_ENV_COUNT"
    using lua_inv_envs(1) [OF _ env] inv by (simp add: lua_service_inv_def)
  obtain k2 cl2 w2 where 2: "client_env_create (lua_ci pl) cl1 c1 = Some ((LUA_SUCCESS, int k2), cl2, c1\<lparr>dc_world := w2\<rparr>)"
    "lp_free_env_entry_ind (dc_world c1) = int k2" "lua_envs pl w2 = (lua_envs pl (dc_world c1))(k2 \<mapsto> [])"
    by (rule client_create_direct [of cl1 pl c1 k])
      (use 1 c1 k room(2) client_same_roomD [OF 1(6)] in auto)
  then have "k2 = k"
    using 1(3) c1 by simp
  with 1(1,2) 2(1,3) c1 show ?thesis
    unfolding c1_def [symmetric]
    by (intro exI [of _ cl1] exI [of _ c1] exI [of _ cl2] exI [of _ "c1\<lparr>dc_world := w2\<rparr>"]) simp
qed

theorem lua_client_delete_create_recycles_witness:
  "\<exists>p1 cl1 c1 cl2 c2. lua_envs sample_lua p1 0 = Some []
    \<and> client_env_delete (lua_ci sample_lua) sample_client (sample_context p1) 0 = Some (LUA_SUCCESS, cl1, c1)
    \<and> client_env_create (lua_ci sample_lua) cl1 c1 = Some ((LUA_SUCCESS, 0), cl2, c2)"
proof -
  obtain p1 where p1: "lua_reachable sample_lua p1" "lua_envs sample_lua p1 = [0 \<mapsto> []]"
    by (rule sample_create)
  have "lua_service_inv sample_lua (dc_world (sample_context p1))"
    "lua_envs sample_lua (dc_world (sample_context p1)) 0 = Some []"
    "client_room sample_client sizeof_ts_lua_msg 0" "client_room sample_client 0 sizeof_ts_lua_msg"
    using lua_reachable_inv [OF p1(1) sample_lua_ok] p1(2)
    by (simp_all add: sample_context_def sample_client_room)
  from lua_client_delete_create_recycles [OF sample_client_idle this] p1(2) show ?thesis
    by (intro exI [of _ p1]) (auto 0 3)
qed


text \<open>
  Property C28. The error message of a failed execution reaches the client when it fits both the
  shared memory and the client's buffer. When it fits the shared memory only, the client does not
  get the service's status but \<open>PSA_ERROR_BUFFER_TOO_SMALL\<close> (-138), a code outside the Lua
  service's own range; when it does not fit the shared memory, the status arrives with an empty
  message.
\<close>

theorem lua_client_error_message:
  assumes "client_idle cl" and "lua_service_inv pl (dc_world c)"
    and "client_room cl sizeof_ts_lua_msg err_size"
    and "lua_envs pl (dc_world c) k = Some s" and "s \<noteq> []"
    and "lp_lua_state (dc_world c) = Some L"
    and "lua_run pl L (ee_lua_env_ref (lp_env_entries (dc_world c) ! k)) (int k) s = (out, L')"
    and "out \<noteq> Run_Ok"
  shows "\<exists>st msg cl' c'. client_env_execute (lua_ci pl) cl c (int k) err_size = Some ((st, msg), cl', c')
    \<and> (let m = lua_error_message pl L';
          shm = session_room (the (sc_session cl)) (max sizeof_ts_lua_msg err_size)
       in if shm < length m then st \<in> {LUA_ERROR_PARSER_ERROR, LUA_ERROR_INTERPRETER_ERROR} \<and> msg = []
          else if err_size < length m then st = PSA_ERROR_BUFFER_TOO_SMALL \<and> msg = []
          else st \<in> {LUA_ERROR_PARSER_ERROR, LUA_ERROR_INTERPRETER_ERROR} \<and> msg = m)"
  by (rule client_execute_direct [OF assms(1-7)])
    (use assms(8) in \<open>cases out; auto simp: client_execute_result_def Let_def\<close>)

theorem lua_client_error_message_witness:
  "\<exists>cl p cl' c'. lua_envs sample_lua p 0 = Some [0xFF]
    \<and> client_env_execute (lua_ci sample_lua) cl (sample_context p) 0 2 = Some ((PSA_ERROR_BUFFER_TOO_SMALL, []), cl', c')"
proof -
  obtain cl p where sc: "client_idle cl" "client_same_room sample_client cl"
    "lua_service_inv sample_lua p" "lua_envs sample_lua p 0 = Some [0xFF]"
    by (rule sample_scripted)
  define c where "c = sample_context p"
  have *: "client_idle cl" "client_same_room sample_client cl"
    "lua_service_inv sample_lua (dc_world c)" "lua_envs sample_lua (dc_world c) 0 = Some [0xFF]"
    using sc by (simp_all add: c_def sample_context_def)
  have room: "client_room cl sizeof_ts_lua_msg 2"
    using client_same_roomD [OF *(2)] sample_client_room [of sizeof_ts_lua_msg 2] by simp
  have shm: "session_room (the (sc_session cl)) (max sizeof_ts_lua_msg 2) = sizeof_ts_lua_msg"
    using client_same_room_the [OF *(2) sample_client_idle, of sizeof_ts_lua_msg]
    by (simp add: sample_client_def sample_session_def session_room_def)
  obtain L where L: "lp_lua_state (dc_world c) = Some L"
    using *(3) by (auto simp: lua_service_inv_def lua_inv_def)
  have run: "lua_run sample_lua L (ee_lua_env_ref (lp_env_entries (dc_world c) ! 0)) (int 0) [0xFF]
      = (Parse_Failed, (fst L, True))"
    by (simp add: lua_run_def sample_lua_def)
  have m: "length (lua_error_message sample_lua (fst L, True)) = 3"
    by (simp add: lua_error_message_def sample_lua_def)
  obtain st msg cl' c' where "client_env_execute (lua_ci sample_lua) cl c (int 0) 2 = Some ((st, msg), cl', c')"
    "st = PSA_ERROR_BUFFER_TOO_SMALL \<and> msg = []"
    using lua_client_error_message [OF *(1,3) room *(4) _ L run] m shm by (auto simp: Let_def)
  then have "client_env_execute (lua_ci sample_lua) cl (sample_context p) 0 2
      = Some ((PSA_ERROR_BUFFER_TOO_SMALL, []), cl', c')"
    by (simp add: c_def)
  with sc(4) show ?thesis by blast
qed


text \<open>
  Property C27. The session discipline holds for every opcode and every message: when the shared memory of the call
  can be allocated, a transaction of an idle session with the Lua service over the direct caller returns, never touches
  memory outside its buffers, leaves the session idle and well-formed and the service in a good state. The condition is on
  the one allocation of the call, and only for a session that allocates for each call; a failed allocation
  is not reported by the direct caller and is a property of its own.
\<close>

theorem lua_session_transaction_safe:
  assumes "session_ok ses" and "\<not> ses_in_progress ses" and "lua_service_inv pl (dc_world c)"
    and "ses_policy ses = alloc_for_each_call \<longrightarrow> alloc_ok (max (length msg) ml)"
  shows "\<exists>r ses' c'. rpc_client_transaction (direct_caller_interface (lua_serve pl) alloc_ok) (Some ses) c opc msg ml
      = Some (r, Some ses', c')
    \<and> session_ok ses' \<and> \<not> ses_in_progress ses' \<and> lua_service_inv pl (dc_world c')"
  unfolding direct_transaction_alloc [of ses alloc_ok msg ml, OF assms(4)]
  by (rule lua.direct.transaction_returns [OF assms(1-3)]) blast

theorem lua_session_transaction_safe_witness:
  "\<exists>r ses' c'. rpc_client_transaction (direct_caller_interface (lua_serve sample_lua) (\<lambda>n. n \<le> 8)) (Some sample_session)
      (sample_context sample_provider) 0x3FF [1, 2, 3] 8 = Some (r, Some ses', c')
    \<and> session_ok ses' \<and> \<not> ses_in_progress ses'"
proof -
  have "session_ok sample_session" "\<not> ses_in_progress sample_session"
    by (simp_all add: sample_session_def session_ok_def)
  moreover have "ses_policy sample_session = alloc_for_each_call \<longrightarrow> max (length [1, 2, 3 :: byte]) 8 \<le> 8" by simp
  ultimately show ?thesis
    using lua_session_transaction_safe [OF _ _ sample_context_inv, of sample_session "\<lambda>n. n \<le> 8" "[1, 2, 3]" 8 "0x3FF"] by blast
qed

end
