(* ===== verification/StoragePartition.thy ===== *)
theory StoragePartition
  imports Prelude
begin

text \<open>
  Storage partitions and their access control lists (\<open>storage_partition.c\<close>,
  \<open>storage_partition_acl.c\<close>): who may open and use a partition, and how requests are clipped
  to its extent.
\<close>

section \<open>Access control list\<close>

type_synonym uuid_octets = bytes

abbreviation STORAGE_PARTITION_ACL_ALLOWLIST_LEN :: nat where
  "STORAGE_PARTITION_ACL_ALLOWLIST_LEN \<equiv> 1"

abbreviation STORAGE_PARTITION_ACL_MAX_OWNER_ID_LEN :: nat where
  "STORAGE_PARTITION_ACL_MAX_OWNER_ID_LEN \<equiv> 40"

record storage_partition_acl =
  acl_owner_id :: bytes
  acl_allowlist_len :: size_t
  acl_allowlist :: "u32 list"

text \<open>An authorizer gets the client and the owner ID array; a NULL pointer is \<open>None\<close>.\<close>

type_synonym storage_partition_authorizer = "(u32 \<Rightarrow> bytes \<Rightarrow> bool) option"

definition storage_partition_acl_init :: "storage_partition_acl" where
  "storage_partition_acl_init =
     \<lparr>acl_owner_id = replicate STORAGE_PARTITION_ACL_MAX_OWNER_ID_LEN 0, acl_allowlist_len = 0,
      acl_allowlist = replicate STORAGE_PARTITION_ACL_ALLOWLIST_LEN 0\<rparr>"

definition storage_partition_acl_add ::
  "storage_partition_acl \<Rightarrow> u32 \<Rightarrow> bool \<times> storage_partition_acl" where
  "storage_partition_acl_add acl client_id =
     (if acl_allowlist_len acl < STORAGE_PARTITION_ACL_ALLOWLIST_LEN
      then (True,
            acl\<lparr>acl_allowlist := (acl_allowlist acl)[acl_allowlist_len acl := client_id],
                acl_allowlist_len := acl_allowlist_len acl + 1\<rparr>)
      else (False, acl))"

text \<open>\<open>owner_id\<close> is the memory the string pointer points to; a string without its terminator
  is undefined behaviour.\<close>

definition storage_partition_acl_set_owner_id ::
  "storage_partition_acl \<Rightarrow> bytes \<Rightarrow> (bool \<times> storage_partition_acl) option" where
  "storage_partition_acl_set_owner_id acl owner_id =
     (if c_strlen owner_id = length owner_id then None
      else if STORAGE_PARTITION_ACL_MAX_OWNER_ID_LEN < c_strlen owner_id + 1 then Some (False, acl)
      else do {
        s \<leftarrow> mem_read owner_id 0 (c_strlen owner_id + 1);
        o' \<leftarrow> mem_write (acl_owner_id acl) 0 s;
        Some (True, acl\<lparr>acl_owner_id := o'\<rparr>)
      })"

definition storage_partition_acl_check :: "storage_partition_acl \<Rightarrow> u32 \<Rightarrow> bool" where
  "storage_partition_acl_check acl client_id =
     list_ex (\<lambda>a. client_id = a) (take (acl_allowlist_len acl) (acl_allowlist acl))"

definition storage_partition_acl_authorize ::
  "storage_partition_acl \<Rightarrow> u32 \<Rightarrow> storage_partition_authorizer \<Rightarrow> bool \<times> storage_partition_acl" where
  "storage_partition_acl_authorize acl client_id authorizer =
     (if storage_partition_acl_check acl client_id then (True, acl)
      else
        (case authorizer of
           Some auth \<Rightarrow>
             (if auth client_id (acl_owner_id acl) then storage_partition_acl_add acl client_id
              else (False, acl))
         | None \<Rightarrow>
             (if acl_allowlist_len acl = 0 \<and> acl_owner_id acl ! 0 = 0
              then storage_partition_acl_add acl client_id
              else (False, acl))))"


section \<open>Partitions\<close>

record storage_partition =
  prt_guid :: uuid_octets
  prt_block_size :: size_t
  prt_num_blocks :: size_t
  prt_base_lba :: lba_t
  prt_acl :: storage_partition_acl

definition null_uuid :: uuid_octets where
  "null_uuid = replicate 16 0"

definition storage_partition_zero :: storage_partition where
  "storage_partition_zero =
     \<lparr>prt_guid = null_uuid, prt_block_size = 0, prt_num_blocks = 0, prt_base_lba = 0,
      prt_acl = storage_partition_acl_init\<rparr>"

definition storage_partition_init ::
  "uuid_octets option \<Rightarrow> size_t \<Rightarrow> size_t \<Rightarrow> storage_partition" where
  "storage_partition_init partition_guid num_blocks block_size =
     storage_partition_zero
       \<lparr>prt_guid := (case partition_guid of Some g \<Rightarrow> g | None \<Rightarrow> null_uuid),
        prt_block_size := block_size, prt_num_blocks := num_blocks, prt_base_lba := 0,
        prt_acl := storage_partition_acl_init\<rparr>"

definition storage_partition_deinit :: "storage_partition \<Rightarrow> storage_partition" where
  "storage_partition_deinit prt = storage_partition_zero"

definition storage_partition_grant_access ::
  "storage_partition \<Rightarrow> u32 \<Rightarrow> bool \<times> storage_partition" where
  "storage_partition_grant_access prt client_id =
     (let (ok, acl) = storage_partition_acl_add (prt_acl prt) client_id
      in (ok, prt\<lparr>prt_acl := acl\<rparr>))"

definition storage_partition_assign_ownership ::
  "storage_partition \<Rightarrow> bytes \<Rightarrow> (bool \<times> storage_partition) option" where
  "storage_partition_assign_ownership prt owner_id =
     do {
       (ok, acl) \<leftarrow> storage_partition_acl_set_owner_id (prt_acl prt) owner_id;
       Some (ok, prt\<lparr>prt_acl := acl\<rparr>)
     }"

definition storage_partition_is_guid_matched :: "storage_partition \<Rightarrow> uuid_octets \<Rightarrow> bool" where
  "storage_partition_is_guid_matched prt partition_guid \<longleftrightarrow> prt_guid prt = partition_guid"

definition storage_partition_is_open_permitted ::
  "storage_partition \<Rightarrow> u32 \<Rightarrow> storage_partition_authorizer \<Rightarrow> bool \<times> storage_partition" where
  "storage_partition_is_open_permitted prt client_id authorizer =
     (let (ok, acl) = storage_partition_acl_authorize (prt_acl prt) client_id authorizer
      in (ok, prt\<lparr>prt_acl := acl\<rparr>))"

definition storage_partition_is_access_permitted :: "storage_partition \<Rightarrow> u32 \<Rightarrow> bool" where
  "storage_partition_is_access_permitted prt client_id =
     storage_partition_acl_check (prt_acl prt) client_id"

definition storage_partition_is_lba_legal :: "storage_partition \<Rightarrow> lba_t \<Rightarrow> bool" where
  "storage_partition_is_lba_legal prt lba \<longleftrightarrow> lba < prt_num_blocks prt"

definition storage_partition_clip_length ::
  "storage_partition \<Rightarrow> lba_t \<Rightarrow> size_t \<Rightarrow> size_t \<Rightarrow> size_t" where
  "storage_partition_clip_length prt lba offset req_len =
     (if lba < prt_num_blocks prt
      then
        (let remaining_len = mul64 (prt_num_blocks prt - lba) (prt_block_size prt);
             remaining_len = (if offset < remaining_len then remaining_len - offset else 0)
         in if remaining_len < req_len then remaining_len else req_len)
      else 0)"

definition storage_partition_clip_num_blocks ::
  "storage_partition \<Rightarrow> lba_t \<Rightarrow> size_t \<Rightarrow> size_t" where
  "storage_partition_clip_num_blocks prt lba num_blocks =
     (if lba < prt_num_blocks prt
      then
        (let remaining_blocks = prt_num_blocks prt - lba
         in if remaining_blocks < num_blocks then remaining_blocks else num_blocks)
      else 0)"


section \<open>Lemmas\<close>

text \<open>An access control list whose length field is within the array.\<close>

definition acl_ok :: "storage_partition_acl \<Rightarrow> bool" where
  "acl_ok acl \<longleftrightarrow>
     length (acl_allowlist acl) = STORAGE_PARTITION_ACL_ALLOWLIST_LEN
     \<and> acl_allowlist_len acl \<le> STORAGE_PARTITION_ACL_ALLOWLIST_LEN
     \<and> length (acl_owner_id acl) = STORAGE_PARTITION_ACL_MAX_OWNER_ID_LEN"

definition acl_members :: "storage_partition_acl \<Rightarrow> u32 set" where
  "acl_members acl = set (take (acl_allowlist_len acl) (acl_allowlist acl))"

lemma acl_check_members: "storage_partition_acl_check acl c \<longleftrightarrow> c \<in> acl_members acl"
  by (auto simp: storage_partition_acl_check_def acl_members_def list_ex_iff)

lemma acl_init_ok [simp]: "acl_ok storage_partition_acl_init"
  "acl_members storage_partition_acl_init = {}"
  by (simp_all add: acl_ok_def storage_partition_acl_init_def acl_members_def)

lemma acl_add_ok:
  assumes "acl_ok acl" and "storage_partition_acl_add acl c = (ok, acl')"
  shows "acl_ok acl'" and "acl_members acl' = (if ok then insert c (acl_members acl) else acl_members acl)"
    and "ok \<longleftrightarrow> acl_allowlist_len acl < STORAGE_PARTITION_ACL_ALLOWLIST_LEN"
    and "acl_owner_id acl' = acl_owner_id acl"
  using assms
  by (auto simp: acl_ok_def storage_partition_acl_add_def acl_members_def take_Suc_conv_app_nth
      length_Suc_conv split: if_splits)

lemma acl_authorize_ok:
  assumes "acl_ok acl" and "storage_partition_acl_authorize acl c auth = (ok, acl')"
  shows "acl_ok acl'" and "acl_members acl' = (if ok then insert c (acl_members acl) else acl_members acl)"
  using assms acl_add_ok(1,2) [OF assms(1)]
  by (auto simp: storage_partition_acl_authorize_def acl_check_members insert_absorb
      split: if_splits option.splits)

text \<open>The number of bytes a request for \<open>n\<close> bytes at \<open>offset\<close> of a block may cover.\<close>

lemma clip_length_within_block:
  assumes "lba < prt_num_blocks p" and "offset < prt_block_size p"
    and "prt_num_blocks p * prt_block_size p < 2 ^ 64"
  shows "min (storage_partition_clip_length p lba offset n) (prt_block_size p - offset)
    = min n (prt_block_size p - offset)"
proof -
  define r where "r = (prt_num_blocks p - lba) * prt_block_size p"
  have ge: "prt_block_size p \<le> r"
    using assms(1) unfolding r_def by (cases "prt_num_blocks p - lba") auto
  have "r \<le> prt_num_blocks p * prt_block_size p"
    unfolding r_def by (simp add: mult_le_mono1)
  then have "mul64 (prt_num_blocks p - lba) (prt_block_size p) = r"
    unfolding r_def using assms(3) by (intro mul64_exact) (rule le_less_trans)
  then show ?thesis
    using assms(1,2) ge by (auto simp: storage_partition_clip_length_def Let_def min_def)
qed

lemma clip_num_blocks_min:
  "lba < prt_num_blocks p \<Longrightarrow>
    storage_partition_clip_num_blocks p lba n = min n (prt_num_blocks p - lba)"
  by (auto simp: storage_partition_clip_num_blocks_def Let_def)

end
