(* ===== verification/BlockStore.thy ===== *)
theory BlockStore
  imports StoragePartition
begin

text \<open>
  The block store interface (\<open>block_store.h\<close>, \<open>block_store.c\<close>) and its contract. A concrete
  store is a record of operations on a state \<open>'s\<close>; a result \<open>None\<close> is undefined
  behaviour or a failed assertion. The out-parameters are part of the result and mean something
  only when the status is \<open>PSA_SUCCESS\<close>.

  Two locales state the contract: \<open>block_store_geometry\<close>, what every store promises on
  statuses, lengths and access; and \<open>block_store_contents\<close>, which adds that the store
  remembers what was written, handle by handle.
\<close>

section \<open>Interface\<close>

type_synonym storage_partition_handle_t = u32

record storage_partition_info =
  spi_num_blocks :: size_t
  spi_block_size :: size_t
  spi_partition_guid :: uuid_octets
  spi_parent_guid :: uuid_octets

record 's block_store_interface =
  bsi_get_partition_info ::
    "'s \<Rightarrow> uuid_octets \<Rightarrow> (psa_status \<times> storage_partition_info option \<times> 's) option"
  bsi_open ::
    "'s \<Rightarrow> u32 \<Rightarrow> uuid_octets \<Rightarrow> (psa_status \<times> storage_partition_handle_t \<times> 's) option"
  bsi_close :: "'s \<Rightarrow> u32 \<Rightarrow> storage_partition_handle_t \<Rightarrow> (psa_status \<times> 's) option"
  bsi_read ::
    "'s \<Rightarrow> u32 \<Rightarrow> storage_partition_handle_t \<Rightarrow> lba_t \<Rightarrow> size_t \<Rightarrow> size_t \<Rightarrow>
      (psa_status \<times> bytes \<times> 's) option"
  bsi_write ::
    "'s \<Rightarrow> u32 \<Rightarrow> storage_partition_handle_t \<Rightarrow> lba_t \<Rightarrow> size_t \<Rightarrow> bytes \<Rightarrow>
      (psa_status \<times> size_t \<times> 's) option"
  bsi_erase ::
    "'s \<Rightarrow> u32 \<Rightarrow> storage_partition_handle_t \<Rightarrow> lba_t \<Rightarrow> size_t \<Rightarrow> (psa_status \<times> 's) option"

text \<open>The call wrappers; a NULL store or interface fails the assertion.\<close>

definition block_store_get_partition_info ::
  "'s block_store_interface option \<Rightarrow> 's \<Rightarrow> uuid_octets \<Rightarrow>
    (psa_status \<times> storage_partition_info option \<times> 's) option" where
  "block_store_get_partition_info bs s partition_guid =
     do { iface \<leftarrow> bs; bsi_get_partition_info iface s partition_guid }"

definition block_store_open ::
  "'s block_store_interface option \<Rightarrow> 's \<Rightarrow> u32 \<Rightarrow> uuid_octets \<Rightarrow>
    (psa_status \<times> storage_partition_handle_t \<times> 's) option" where
  "block_store_open bs s client_id partition_guid =
     do { iface \<leftarrow> bs; bsi_open iface s client_id partition_guid }"

definition block_store_close ::
  "'s block_store_interface option \<Rightarrow> 's \<Rightarrow> u32 \<Rightarrow> storage_partition_handle_t \<Rightarrow>
    (psa_status \<times> 's) option" where
  "block_store_close bs s client_id handle =
     do { iface \<leftarrow> bs; bsi_close iface s client_id handle }"

definition block_store_read ::
  "'s block_store_interface option \<Rightarrow> 's \<Rightarrow> u32 \<Rightarrow> storage_partition_handle_t \<Rightarrow> lba_t \<Rightarrow> size_t \<Rightarrow>
    size_t \<Rightarrow> (psa_status \<times> bytes \<times> 's) option" where
  "block_store_read bs s client_id handle lba offset buffer_size =
     do { iface \<leftarrow> bs; bsi_read iface s client_id handle lba offset buffer_size }"

definition block_store_write ::
  "'s block_store_interface option \<Rightarrow> 's \<Rightarrow> u32 \<Rightarrow> storage_partition_handle_t \<Rightarrow> lba_t \<Rightarrow> size_t \<Rightarrow>
    bytes \<Rightarrow> (psa_status \<times> size_t \<times> 's) option" where
  "block_store_write bs s client_id handle lba offset d =
     do { iface \<leftarrow> bs; bsi_write iface s client_id handle lba offset d }"

definition block_store_erase ::
  "'s block_store_interface option \<Rightarrow> 's \<Rightarrow> u32 \<Rightarrow> storage_partition_handle_t \<Rightarrow> lba_t \<Rightarrow> size_t \<Rightarrow>
    (psa_status \<times> 's) option" where
  "block_store_erase bs s client_id handle begin_lba num_blocks =
     do { iface \<leftarrow> bs; bsi_erase iface s client_id handle begin_lba num_blocks }"

lemmas block_store_wrappers = block_store_get_partition_info_def block_store_open_def
  block_store_close_def block_store_read_def block_store_write_def block_store_erase_def


section \<open>Contract\<close>

text \<open>The status of a read or write of a block, and of an erase, given the outcome of the access
  check and the extent of the partition.\<close>

definition io_status :: "psa_status \<Rightarrow> nat \<Rightarrow> nat \<Rightarrow> lba_t \<Rightarrow> size_t \<Rightarrow> psa_status" where
  "io_status acc nblocks bsize lba off =
     (if acc \<noteq> PSA_SUCCESS then acc
      else if lba < nblocks \<and> off < bsize then PSA_SUCCESS else PSA_ERROR_INVALID_ARGUMENT)"

definition erase_status :: "psa_status \<Rightarrow> nat \<Rightarrow> lba_t \<Rightarrow> psa_status" where
  "erase_status acc nblocks lba =
     (if acc \<noteq> PSA_SUCCESS then acc
      else if lba < nblocks then PSA_SUCCESS else PSA_ERROR_INVALID_ARGUMENT)"

text \<open>\<open>access s c h\<close> is what the store answers client \<open>c\<close> on handle \<open>h\<close>; it is
  \<open>PSA_SUCCESS\<close> for a handle the client has open.\<close>

definition extent_kept ::
  "('s \<Rightarrow> u32 \<Rightarrow> storage_partition_handle_t \<Rightarrow> psa_status) \<Rightarrow> ('s \<Rightarrow> storage_partition_handle_t \<Rightarrow> nat) \<Rightarrow>
    ('s \<Rightarrow> storage_partition_handle_t \<Rightarrow> nat) \<Rightarrow> 's \<Rightarrow> 's \<Rightarrow> bool" where
  "extent_kept acc nblocks bsize s s' \<longleftrightarrow>
     (\<forall>c h. acc s c h = PSA_SUCCESS \<longrightarrow>
        acc s' c h = PSA_SUCCESS \<and> nblocks s' h = nblocks s h \<and> bsize s' h = bsize s h)"

lemma extent_kept_refl [simp]: "extent_kept a b c s s"
  by (simp add: extent_kept_def)

locale block_store_geometry =
  fixes iface :: "'s block_store_interface" and store_inv :: "'s \<Rightarrow> bool"
    and acc :: "'s \<Rightarrow> u32 \<Rightarrow> storage_partition_handle_t \<Rightarrow> psa_status"
    and nblocks :: "'s \<Rightarrow> storage_partition_handle_t \<Rightarrow> nat"
    and bsize :: "'s \<Rightarrow> storage_partition_handle_t \<Rightarrow> nat"
  assumes extent_bound: "store_inv s \<Longrightarrow> acc s c h = PSA_SUCCESS \<Longrightarrow>
      nblocks s h * bsize s h < 2 ^ 64 \<and> nblocks s h < 2 ^ 64"
    and info_returns: "store_inv s \<Longrightarrow>
      \<exists>st io s'. bsi_get_partition_info iface s g = Some (st, io, s') \<and> store_inv s'
        \<and> extent_kept acc nblocks bsize s s' \<and> (st = PSA_SUCCESS \<longleftrightarrow> io \<noteq> None)"
    and open_returns: "store_inv s \<Longrightarrow>
      \<exists>st h s'. bsi_open iface s c g = Some (st, h, s') \<and> store_inv s'
        \<and> extent_kept acc nblocks bsize s s' \<and> (st = PSA_SUCCESS \<longrightarrow> acc s' c h = PSA_SUCCESS)"
    and close_returns: "store_inv s \<Longrightarrow>
      \<exists>s'. bsi_close iface s c h = Some (acc s c h, s') \<and> store_inv s'
        \<and> extent_kept acc nblocks bsize s s'"
    and read_returns: "store_inv s \<Longrightarrow>
      \<exists>d s'. bsi_read iface s c h lba off n
          = Some (io_status (acc s c h) (nblocks s h) (bsize s h) lba off, d, s')
        \<and> store_inv s' \<and> extent_kept acc nblocks bsize s s'
        \<and> length d = (if io_status (acc s c h) (nblocks s h) (bsize s h) lba off = PSA_SUCCESS
                      then min n (bsize s h - off) else 0)"
    and write_returns: "store_inv s \<Longrightarrow>
      \<exists>k s'. bsi_write iface s c h lba off d
          = Some (io_status (acc s c h) (nblocks s h) (bsize s h) lba off, k, s')
        \<and> store_inv s' \<and> extent_kept acc nblocks bsize s s'
        \<and> (io_status (acc s c h) (nblocks s h) (bsize s h) lba off = PSA_SUCCESS \<longrightarrow>
             k = min (length d) (bsize s h - off))"
    and erase_returns: "store_inv s \<Longrightarrow>
      \<exists>s'. bsi_erase iface s c h lba n = Some (erase_status (acc s c h) (nblocks s h) lba, s')
        \<and> store_inv s' \<and> extent_kept acc nblocks bsize s s'"

text \<open>The part of the contents of a partition that a read, a write and an erase concern.\<close>

definition contents_kept ::
  "('s \<Rightarrow> u32 \<Rightarrow> storage_partition_handle_t \<Rightarrow> psa_status) \<Rightarrow> ('s \<Rightarrow> storage_partition_handle_t \<Rightarrow> bytes) \<Rightarrow>
    storage_partition_handle_t set \<Rightarrow> 's \<Rightarrow> 's \<Rightarrow> bool" where
  "contents_kept acc contents X s s' \<longleftrightarrow>
     (\<forall>c h. acc s c h = PSA_SUCCESS \<longrightarrow> h \<notin> X \<longrightarrow> contents s' h = contents s h)"

lemma contents_kept_refl [simp]: "contents_kept a b X s s"
  by (simp add: contents_kept_def)

locale block_store_contents = block_store_geometry +
  fixes contents :: "'s \<Rightarrow> storage_partition_handle_t \<Rightarrow> bytes" and erased :: byte
  assumes contents_extent: "store_inv s \<Longrightarrow> acc s c h = PSA_SUCCESS \<Longrightarrow>
      length (contents s h) = nblocks s h * bsize s h"
    and info_keeps: "store_inv s \<Longrightarrow> bsi_get_partition_info iface s g = Some (st, io, s') \<Longrightarrow>
      contents_kept acc contents {} s s'"
    and open_keeps: "store_inv s \<Longrightarrow> bsi_open iface s c g = Some (st, h, s') \<Longrightarrow>
      contents_kept acc contents {} s s'"
    and close_keeps: "store_inv s \<Longrightarrow> bsi_close iface s c h = Some (st, s') \<Longrightarrow>
      contents_kept acc contents {} s s'"
    and read_gives: "store_inv s \<Longrightarrow> bsi_read iface s c h lba off n = Some (st, d, s') \<Longrightarrow>
      contents_kept acc contents {} s s'
      \<and> (st = PSA_SUCCESS \<longrightarrow> d = slice (contents s h) (lba * bsize s h + off) (min n (bsize s h - off)))"
    and write_puts: "store_inv s \<Longrightarrow> bsi_write iface s c h lba off d = Some (st, k, s') \<Longrightarrow>
      (if st = PSA_SUCCESS
       then contents_kept acc contents {h} s s'
         \<and> contents s' h = splice (contents s h) (lba * bsize s h + off) (take k d)
       else contents_kept acc contents {} s s')"
    and erase_clears: "store_inv s \<Longrightarrow> bsi_erase iface s c h lba n = Some (st, s') \<Longrightarrow>
      (if st = PSA_SUCCESS
       then contents_kept acc contents {h} s s'
         \<and> contents s' h = splice (contents s h) (lba * bsize s h)
             (replicate (min n (nblocks s h - lba) * bsize s h) erased)
       else contents_kept acc contents {} s s')"
    and open_matches_info: "store_inv s \<Longrightarrow>
      bsi_get_partition_info iface s g = Some (PSA_SUCCESS, Some info, s1) \<Longrightarrow>
      bsi_open iface s1 c g = Some (PSA_SUCCESS, h, s2) \<Longrightarrow>
      nblocks s2 h = spi_num_blocks info \<and> bsize s2 h = spi_block_size info"
begin

lemma in_partition:
  assumes "store_inv s" and "io_status (acc s c h) (nblocks s h) (bsize s h) lba off = PSA_SUCCESS"
    and "m \<le> bsize s h - off"
  shows "lba * bsize s h + off + m \<le> length (contents s h)" and "acc s c h = PSA_SUCCESS"
    and "lba < nblocks s h" and "off < bsize s h"
proof -
  show a: "acc s c h = PSA_SUCCESS" and l: "lba < nblocks s h" and o: "off < bsize s h"
    using assms(2) by (auto simp: io_status_def split: if_splits)
  have "lba * bsize s h + bsize s h \<le> nblocks s h * bsize s h"
    using l mult_le_mono1 [of "Suc lba" "nblocks s h" "bsize s h"] by simp
  then show "lba * bsize s h + off + m \<le> length (contents s h)"
    using assms(3) o contents_extent [OF assms(1) a] by simp
qed

text \<open>Reading back a block returns what was written to it.\<close>

lemma read_after_write:
  assumes inv: "store_inv s" and w: "bsi_write iface s c h lba off d = Some (PSA_SUCCESS, k, s')"
  shows "\<exists>s''. bsi_read iface s' c h lba off k = Some (PSA_SUCCESS, take k d, s'')"
    and "k = min (length d) (bsize s h - off)"
proof -
  obtain s1 where st: "io_status (acc s c h) (nblocks s h) (bsize s h) lba off = PSA_SUCCESS"
    and k: "k = min (length d) (bsize s h - off)" and inv': "store_inv s'"
    and kept: "extent_kept acc nblocks bsize s s'"
    using write_returns [OF inv, of c h lba off d] w by auto
  show "k = min (length d) (bsize s h - off)" by (rule k)
  have a: "acc s c h = PSA_SUCCESS"
    using in_partition(2) [OF inv st, of 0] by simp
  have same: "acc s' c h = PSA_SUCCESS" "nblocks s' h = nblocks s h" "bsize s' h = bsize s h"
    using kept a by (auto simp: extent_kept_def)
  have st': "io_status (acc s' c h) (nblocks s' h) (bsize s' h) lba off = PSA_SUCCESS"
    using st same a by simp
  have cont: "contents s' h = splice (contents s h) (lba * bsize s h + off) (take k d)"
    using write_puts [OF inv w] by simp
  have fit: "lba * bsize s h + off + length (take k d) \<le> length (contents s h)"
    by (rule in_partition(1) [OF inv st]) (simp add: k)
  obtain d' s'' where r: "bsi_read iface s' c h lba off k = Some (PSA_SUCCESS, d', s'')"
    using read_returns [OF inv', of c h lba off k] st' by auto
  have "d' = slice (contents s' h) (lba * bsize s h + off) (min k (bsize s h - off))"
    using read_gives [OF inv' r] same by simp
  also have "min k (bsize s h - off) = length (take k d)"
    by (simp add: k)
  also have "slice (contents s' h) (lba * bsize s h + off) (length (take k d)) = take k d"
    unfolding cont by (rule slice_splice_same [OF fit])
  finally show "\<exists>s''. bsi_read iface s' c h lba off k = Some (PSA_SUCCESS, take k d, s'')"
    using r by simp
qed

text \<open>Writing to one open partition cannot be seen through another.\<close>

lemma write_isolated:
  assumes "store_inv s" and "bsi_write iface s c h lba off d = Some (st, k, s')"
    and "acc s c' h' = PSA_SUCCESS" and "h' \<noteq> h"
  shows "contents s' h' = contents s h'"
  using write_puts [OF assms(1,2)] assms(3,4) by (auto simp: contents_kept_def split: if_splits)

text \<open>An erased block reads as erased.\<close>

lemma read_after_erase:
  assumes inv: "store_inv s" and e: "bsi_erase iface s c h lba n = Some (PSA_SUCCESS, s')"
    and j: "j < min n (nblocks s h - lba)" and off: "off < bsize s h"
  shows "\<exists>s''. bsi_read iface s' c h (lba + j) off m
    = Some (PSA_SUCCESS, replicate (min m (bsize s h - off)) erased, s'')"
proof -
  have es: "erase_status (acc s c h) (nblocks s h) lba = PSA_SUCCESS" and inv': "store_inv s'"
    and kept: "extent_kept acc nblocks bsize s s'"
    using erase_returns [OF inv, of c h lba n] e by auto
  then have a: "acc s c h = PSA_SUCCESS" and l: "lba < nblocks s h"
    by (auto simp: erase_status_def split: if_splits)
  have same: "acc s' c h = PSA_SUCCESS" "nblocks s' h = nblocks s h" "bsize s' h = bsize s h"
    using kept a by (auto simp: extent_kept_def)
  let ?k = "min n (nblocks s h - lba)" and ?o = "lba * bsize s h"
  have cont: "contents s' h = splice (contents s h) ?o (replicate (?k * bsize s h) erased)"
    using erase_clears [OF inv e] by simp
  have "(lba + ?k) * bsize s h \<le> nblocks s h * bsize s h"
    using l by (intro mult_le_mono1) simp
  then have fit: "?o + length (replicate (?k * bsize s h) erased) \<le> length (contents s h)"
    using contents_extent [OF inv a] by (simp add: add_mult_distrib)
  obtain d' s'' where r: "bsi_read iface s' c h (lba + j) off m = Some (PSA_SUCCESS, d', s'')"
    using read_returns [OF inv', of c h "lba + j" off m] same off j l by (auto simp: io_status_def)
  have "(j + 1) * bsize s h \<le> ?k * bsize s h"
    using j by (intro mult_le_mono1) simp
  then have ins: "j * bsize s h + off + min m (bsize s h - off) \<le> ?k * bsize s h"
    using off by simp
  have "d' = slice (contents s' h) ((lba + j) * bsize s h + off) (min m (bsize s h - off))"
    using read_gives [OF inv' r] same by simp
  also have "\<dots> = slice (contents s' h) (?o + (j * bsize s h + off)) (min m (bsize s h - off))"
    by (simp add: add_mult_distrib add.assoc)
  also have "\<dots> = slice (slice (contents s' h) ?o (?k * bsize s h)) (j * bsize s h + off) (min m (bsize s h - off))"
    using ins by (simp add: slice_slice)
  also have "slice (contents s' h) ?o (?k * bsize s h) = replicate (?k * bsize s h) erased"
    unfolding cont using slice_splice_same [OF fit] by simp
  finally show ?thesis
    using r ins by simp
qed

end

end
