(* ===== verification/BlockDevice.thy ===== *)
theory BlockDevice
  imports BlockStore
begin

text \<open>
  The block device base (\<open>block_device.c\<close>) and two devices: the RAM block store
  (\<open>ram_block_store.c\<close>), which keeps the whole contract, and the null block store
  (\<open>null_block_store.c\<close>), which discards writes and so keeps the geometry only.
\<close>

section \<open>Block device\<close>

record block_device =
  bd_storage_partition :: storage_partition

abbreviation BLOCK_DEVICE_PARTITION_HANDLE :: storage_partition_handle_t where
  "BLOCK_DEVICE_PARTITION_HANDLE \<equiv> 0"

definition block_device_check_access_permitted ::
  "block_device \<Rightarrow> u32 \<Rightarrow> storage_partition_handle_t \<Rightarrow> psa_status" where
  "block_device_check_access_permitted bd client_id handle =
     (if handle \<noteq> BLOCK_DEVICE_PARTITION_HANDLE then PSA_ERROR_INVALID_ARGUMENT
      else if \<not> storage_partition_is_access_permitted (bd_storage_partition bd) client_id
      then PSA_ERROR_NOT_PERMITTED
      else PSA_SUCCESS)"

definition block_device_get_partition_info ::
  "block_device \<Rightarrow> uuid_octets \<Rightarrow> psa_status \<times> storage_partition_info option" where
  "block_device_get_partition_info bd partition_guid =
     (let prt = bd_storage_partition bd
      in if storage_partition_is_guid_matched prt partition_guid
         then (PSA_SUCCESS,
               Some \<lparr>spi_num_blocks = prt_num_blocks prt, spi_block_size = prt_block_size prt,
                     spi_partition_guid = prt_guid prt, spi_parent_guid = null_uuid\<rparr>)
         else (PSA_ERROR_INVALID_ARGUMENT, None))"

definition block_device_open ::
  "block_device \<Rightarrow> u32 \<Rightarrow> uuid_octets \<Rightarrow> psa_status \<times> storage_partition_handle_t \<times> block_device" where
  "block_device_open bd client_id partition_guid =
     (if storage_partition_is_guid_matched (bd_storage_partition bd) partition_guid
      then
        (let (ok, prt) = storage_partition_is_open_permitted (bd_storage_partition bd) client_id None;
             bd1 = bd\<lparr>bd_storage_partition := prt\<rparr>
         in if ok then (PSA_SUCCESS, BLOCK_DEVICE_PARTITION_HANDLE, bd1)
            else (PSA_ERROR_NOT_PERMITTED, 0, bd1))
      else (PSA_ERROR_NOT_PERMITTED, 0, bd))"

definition block_device_close ::
  "block_device \<Rightarrow> u32 \<Rightarrow> storage_partition_handle_t \<Rightarrow> psa_status" where
  "block_device_close bd client_id handle = block_device_check_access_permitted bd client_id handle"

definition block_device_init :: "uuid_octets option \<Rightarrow> size_t \<Rightarrow> size_t \<Rightarrow> block_device" where
  "block_device_init disk_guid num_blocks block_size =
     \<lparr>bd_storage_partition = storage_partition_init disk_guid num_blocks block_size\<rparr>"

definition block_device_deinit :: "block_device \<Rightarrow> block_device" where
  "block_device_deinit bd =
     bd\<lparr>bd_storage_partition := storage_partition_deinit (bd_storage_partition bd)\<rparr>"

definition block_device_configure ::
  "block_device \<Rightarrow> uuid_octets option \<Rightarrow> size_t \<Rightarrow> size_t \<Rightarrow> block_device" where
  "block_device_configure bd disk_guid num_blocks block_size =
     bd\<lparr>bd_storage_partition := storage_partition_init disk_guid num_blocks block_size\<rparr>"


section \<open>RAM block store\<close>

record ram_block_store =
  rbs_base_block_device :: block_device
  rbs_ram_back_store :: "bytes option"

abbreviation RAM_BLOCK_STORE_ERASED_VALUE :: byte where
  "RAM_BLOCK_STORE_ERASED_VALUE \<equiv> 0xff"

definition ram_block_store_get_partition_info ::
  "ram_block_store \<Rightarrow> uuid_octets \<Rightarrow> (psa_status \<times> storage_partition_info option \<times> ram_block_store) option"
where
  "ram_block_store_get_partition_info r partition_guid =
     (let (st, info) = block_device_get_partition_info (rbs_base_block_device r) partition_guid
      in Some (st, info, r))"

definition ram_block_store_open ::
  "ram_block_store \<Rightarrow> u32 \<Rightarrow> uuid_octets \<Rightarrow>
    (psa_status \<times> storage_partition_handle_t \<times> ram_block_store) option" where
  "ram_block_store_open r client_id partition_guid =
     (let (st, h, bd) = block_device_open (rbs_base_block_device r) client_id partition_guid
      in Some (st, h, r\<lparr>rbs_base_block_device := bd\<rparr>))"

definition ram_block_store_close ::
  "ram_block_store \<Rightarrow> u32 \<Rightarrow> storage_partition_handle_t \<Rightarrow> (psa_status \<times> ram_block_store) option" where
  "ram_block_store_close r client_id handle =
     Some (block_device_close (rbs_base_block_device r) client_id handle, r)"

definition ram_block_store_read ::
  "ram_block_store \<Rightarrow> u32 \<Rightarrow> storage_partition_handle_t \<Rightarrow> lba_t \<Rightarrow> size_t \<Rightarrow> size_t \<Rightarrow>
    (psa_status \<times> bytes \<times> ram_block_store) option" where
  "ram_block_store_read r client_id handle lba offset buffer_size =
     (let status = block_device_check_access_permitted (rbs_base_block_device r) client_id handle;
          prt = bd_storage_partition (rbs_base_block_device r)
      in if status \<noteq> PSA_SUCCESS then Some (status, [], r)
         else if storage_partition_is_lba_legal prt lba \<and> offset < prt_block_size prt
         then
           (let bytes_remaining = prt_block_size prt - offset;
                bytes_to_read = (if buffer_size < bytes_remaining then buffer_size else bytes_remaining)
            in do {
                 mem \<leftarrow> rbs_ram_back_store r;
                 d \<leftarrow> mem_read mem (mul64 lba (prt_block_size prt) + offset) bytes_to_read;
                 Some (PSA_SUCCESS, d, r)
               })
         else Some (PSA_ERROR_INVALID_ARGUMENT, [], r))"

definition ram_block_store_write ::
  "ram_block_store \<Rightarrow> u32 \<Rightarrow> storage_partition_handle_t \<Rightarrow> lba_t \<Rightarrow> size_t \<Rightarrow> bytes \<Rightarrow>
    (psa_status \<times> size_t \<times> ram_block_store) option" where
  "ram_block_store_write r client_id handle lba offset d =
     (let status = block_device_check_access_permitted (rbs_base_block_device r) client_id handle;
          prt = bd_storage_partition (rbs_base_block_device r)
      in if status \<noteq> PSA_SUCCESS then Some (status, 0, r)
         else if storage_partition_is_lba_legal prt lba \<and> offset < prt_block_size prt
         then
           (let bytes_remaining = prt_block_size prt - offset;
                bytes_to_write = (if length d < bytes_remaining then length d else bytes_remaining)
            in do {
                 mem \<leftarrow> rbs_ram_back_store r;
                 chunk \<leftarrow> mem_read d 0 bytes_to_write;
                 mem1 \<leftarrow> mem_write mem (mul64 lba (prt_block_size prt) + offset) chunk;
                 Some (PSA_SUCCESS, bytes_to_write, r\<lparr>rbs_ram_back_store := Some mem1\<rparr>)
               })
         else Some (PSA_ERROR_INVALID_ARGUMENT, 0, r))"

definition ram_block_store_erase ::
  "ram_block_store \<Rightarrow> u32 \<Rightarrow> storage_partition_handle_t \<Rightarrow> lba_t \<Rightarrow> size_t \<Rightarrow>
    (psa_status \<times> ram_block_store) option" where
  "ram_block_store_erase r client_id handle begin_lba num_blocks =
     (let prt = bd_storage_partition (rbs_base_block_device r);
          status = block_device_check_access_permitted (rbs_base_block_device r) client_id handle;
          status = (if status = PSA_SUCCESS \<and> \<not> storage_partition_is_lba_legal prt begin_lba
                    then PSA_ERROR_INVALID_ARGUMENT else status)
      in if status \<noteq> PSA_SUCCESS then Some (status, r)
         else
           (let blocks_to_erase = storage_partition_clip_num_blocks prt begin_lba num_blocks;
                erase_len = mul64 blocks_to_erase (prt_block_size prt)
            in do {
                 mem \<leftarrow> rbs_ram_back_store r;
                 mem1 \<leftarrow> mem_write mem (mul64 begin_lba (prt_block_size prt))
                   (replicate erase_len RAM_BLOCK_STORE_ERASED_VALUE);
                 Some (PSA_SUCCESS, r\<lparr>rbs_ram_back_store := Some mem1\<rparr>)
               }))"

definition ram_block_store_interface :: "ram_block_store block_store_interface" where
  "ram_block_store_interface =
     \<lparr>bsi_get_partition_info = ram_block_store_get_partition_info,
      bsi_open = ram_block_store_open, bsi_close = ram_block_store_close,
      bsi_read = ram_block_store_read, bsi_write = ram_block_store_write,
      bsi_erase = ram_block_store_erase\<rparr>"

text \<open>\<open>ram_block_store_init\<close>: the size of the back store is a \<open>size_t\<close> product; when
  \<open>malloc\<close> fails there is no store and the device is left as it was.\<close>

definition ram_block_store_init ::
  "(size_t \<Rightarrow> bool) \<Rightarrow> ram_block_store \<Rightarrow> uuid_octets option \<Rightarrow> size_t \<Rightarrow> size_t \<Rightarrow> bool \<times> ram_block_store" where
  "ram_block_store_init alloc_ok r disk_guid num_blocks block_size =
     (let back_store_size = mul64 num_blocks block_size
      in if alloc_ok back_store_size
         then (True,
               \<lparr>rbs_base_block_device = block_device_init disk_guid num_blocks block_size,
                rbs_ram_back_store = Some (replicate back_store_size RAM_BLOCK_STORE_ERASED_VALUE)\<rparr>)
         else (False, r\<lparr>rbs_ram_back_store := None\<rparr>))"

definition ram_block_store_deinit :: "ram_block_store \<Rightarrow> ram_block_store" where
  "ram_block_store_deinit r =
     r\<lparr>rbs_base_block_device := block_device_deinit (rbs_base_block_device r)\<rparr>"

definition ram_block_store_modify ::
  "ram_block_store \<Rightarrow> size_t \<Rightarrow> bytes \<Rightarrow> (psa_status \<times> ram_block_store) option" where
  "ram_block_store_modify r offset d =
     (let prt = bd_storage_partition (rbs_base_block_device r);
          back_store_size = mul64 (prt_block_size prt) (prt_num_blocks prt)
      in if offset < back_store_size
         then
           (let write_len = (if add64 offset (length d) < back_store_size then length d
                             else back_store_size - offset)
            in do {
                 mem \<leftarrow> rbs_ram_back_store r;
                 chunk \<leftarrow> mem_read d 0 write_len;
                 mem1 \<leftarrow> mem_write mem offset chunk;
                 Some (PSA_SUCCESS, r\<lparr>rbs_ram_back_store := Some mem1\<rparr>)
               })
         else Some (PSA_ERROR_INVALID_ARGUMENT, r))"


section \<open>Null block store\<close>

record null_block_store =
  nbs_base_block_device :: block_device

definition null_block_store_get_partition_info ::
  "null_block_store \<Rightarrow> uuid_octets \<Rightarrow> (psa_status \<times> storage_partition_info option \<times> null_block_store) option"
where
  "null_block_store_get_partition_info r partition_guid =
     (let (st, info) = block_device_get_partition_info (nbs_base_block_device r) partition_guid
      in Some (st, info, r))"

definition null_block_store_open ::
  "null_block_store \<Rightarrow> u32 \<Rightarrow> uuid_octets \<Rightarrow>
    (psa_status \<times> storage_partition_handle_t \<times> null_block_store) option" where
  "null_block_store_open r client_id partition_guid =
     (let (st, h, bd) = block_device_open (nbs_base_block_device r) client_id partition_guid
      in Some (st, h, r\<lparr>nbs_base_block_device := bd\<rparr>))"

definition null_block_store_close ::
  "null_block_store \<Rightarrow> u32 \<Rightarrow> storage_partition_handle_t \<Rightarrow> (psa_status \<times> null_block_store) option" where
  "null_block_store_close r client_id handle =
     Some (block_device_close (nbs_base_block_device r) client_id handle, r)"

definition null_block_store_read ::
  "null_block_store \<Rightarrow> u32 \<Rightarrow> storage_partition_handle_t \<Rightarrow> lba_t \<Rightarrow> size_t \<Rightarrow> size_t \<Rightarrow>
    (psa_status \<times> bytes \<times> null_block_store) option" where
  "null_block_store_read r client_id handle lba offset buffer_size =
     (let status = block_device_check_access_permitted (nbs_base_block_device r) client_id handle;
          prt = bd_storage_partition (nbs_base_block_device r)
      in if status \<noteq> PSA_SUCCESS then Some (status, [], r)
         else if storage_partition_is_lba_legal prt lba \<and> offset < prt_block_size prt
         then
           (let bytes_remaining = prt_block_size prt - offset;
                bytes_to_read = (if buffer_size < bytes_remaining then buffer_size else bytes_remaining)
            in Some (PSA_SUCCESS, replicate bytes_to_read 0, r))
         else Some (PSA_ERROR_INVALID_ARGUMENT, [], r))"

definition null_block_store_write ::
  "null_block_store \<Rightarrow> u32 \<Rightarrow> storage_partition_handle_t \<Rightarrow> lba_t \<Rightarrow> size_t \<Rightarrow> bytes \<Rightarrow>
    (psa_status \<times> size_t \<times> null_block_store) option" where
  "null_block_store_write r client_id handle lba offset d =
     (let status = block_device_check_access_permitted (nbs_base_block_device r) client_id handle;
          prt = bd_storage_partition (nbs_base_block_device r)
      in if status \<noteq> PSA_SUCCESS then Some (status, 0, r)
         else if storage_partition_is_lba_legal prt lba \<and> offset < prt_block_size prt
         then
           (let bytes_remaining = prt_block_size prt - offset;
                bytes_to_write = (if length d < bytes_remaining then length d else bytes_remaining)
            in Some (PSA_SUCCESS, bytes_to_write, r))
         else Some (PSA_ERROR_INVALID_ARGUMENT, 0, r))"

definition null_block_store_erase ::
  "null_block_store \<Rightarrow> u32 \<Rightarrow> storage_partition_handle_t \<Rightarrow> lba_t \<Rightarrow> size_t \<Rightarrow>
    (psa_status \<times> null_block_store) option" where
  "null_block_store_erase r client_id handle begin_lba num_blocks =
     (let prt = bd_storage_partition (nbs_base_block_device r);
          status = block_device_check_access_permitted (nbs_base_block_device r) client_id handle
      in Some (if status = PSA_SUCCESS \<and> \<not> storage_partition_is_lba_legal prt begin_lba
               then PSA_ERROR_INVALID_ARGUMENT else status, r))"

definition null_block_store_interface :: "null_block_store block_store_interface" where
  "null_block_store_interface =
     \<lparr>bsi_get_partition_info = null_block_store_get_partition_info,
      bsi_open = null_block_store_open, bsi_close = null_block_store_close,
      bsi_read = null_block_store_read, bsi_write = null_block_store_write,
      bsi_erase = null_block_store_erase\<rparr>"

definition null_block_store_init :: "uuid_octets option \<Rightarrow> size_t \<Rightarrow> size_t \<Rightarrow> null_block_store" where
  "null_block_store_init disk_guid num_blocks block_size =
     \<lparr>nbs_base_block_device = block_device_init disk_guid num_blocks block_size\<rparr>"

definition null_block_store_deinit :: "null_block_store \<Rightarrow> null_block_store" where
  "null_block_store_deinit r =
     r\<lparr>nbs_base_block_device := block_device_deinit (nbs_base_block_device r)\<rparr>"


section \<open>Access and extent of a device\<close>

definition block_device_ok :: "block_device \<Rightarrow> bool" where
  "block_device_ok bd \<longleftrightarrow>
     acl_ok (prt_acl (bd_storage_partition bd)) \<and> prt_num_blocks (bd_storage_partition bd) < 2 ^ 64
     \<and> prt_num_blocks (bd_storage_partition bd) * prt_block_size (bd_storage_partition bd) < 2 ^ 64"

lemma block_device_init_ok:
  "num_blocks * block_size < 2 ^ 64 \<Longrightarrow> num_blocks < 2 ^ 64 \<Longrightarrow>
    block_device_ok (block_device_init g num_blocks block_size)"
  by (simp add: block_device_ok_def block_device_init_def storage_partition_init_def)

lemma access_permitted_members:
  "storage_partition_is_access_permitted prt c \<longleftrightarrow> c \<in> acl_members (prt_acl prt)"
  by (simp add: storage_partition_is_access_permitted_def acl_check_members)

lemma check_access_success:
  "block_device_check_access_permitted bd c h = PSA_SUCCESS
    \<longleftrightarrow> h = 0 \<and> c \<in> acl_members (prt_acl (bd_storage_partition bd))"
  by (simp add: block_device_check_access_permitted_def access_permitted_members)

text \<open>Opening changes nothing but the access list, where it can only add the client.\<close>

lemma block_device_open_facts:
  assumes "block_device_ok bd" and "block_device_open bd c g = (st, h, bd')"
  shows "block_device_ok bd'"
    and "prt_num_blocks (bd_storage_partition bd') = prt_num_blocks (bd_storage_partition bd)"
    and "prt_block_size (bd_storage_partition bd') = prt_block_size (bd_storage_partition bd)"
    and "prt_guid (bd_storage_partition bd') = prt_guid (bd_storage_partition bd)"
    and "acl_members (prt_acl (bd_storage_partition bd'))
      = (if st = PSA_SUCCESS then insert c (acl_members (prt_acl (bd_storage_partition bd)))
         else acl_members (prt_acl (bd_storage_partition bd)))"
    and "h = 0" and "st = PSA_SUCCESS \<Longrightarrow> g = prt_guid (bd_storage_partition bd)"
proof -
  let ?p = "bd_storage_partition bd"
  obtain ok acl where a: "storage_partition_acl_authorize (prt_acl ?p) c None = (ok, acl)"
    by fastforce
  have aok: "acl_ok (prt_acl ?p)"
    using assms(1) by (simp add: block_device_ok_def)
  note f = acl_authorize_ok [OF aok a]
  have eq: "block_device_open bd c g =
      (if g = prt_guid ?p
       then (if ok then PSA_SUCCESS else PSA_ERROR_NOT_PERMITTED, 0,
             bd\<lparr>bd_storage_partition := ?p\<lparr>prt_acl := acl\<rparr>\<rparr>)
       else (PSA_ERROR_NOT_PERMITTED, 0, bd))"
    using a by (auto simp: block_device_open_def storage_partition_is_open_permitted_def
        storage_partition_is_guid_matched_def)
  consider "g = prt_guid ?p" "st = (if ok then PSA_SUCCESS else PSA_ERROR_NOT_PERMITTED)" "h = 0"
      "bd' = bd\<lparr>bd_storage_partition := ?p\<lparr>prt_acl := acl\<rparr>\<rparr>"
    | "st = PSA_ERROR_NOT_PERMITTED" "h = 0" "bd' = bd"
    using eq assms(2) by (auto split: if_splits)
  note cs = this
  show "block_device_ok bd'"
    using cs assms(1) f(1) by cases (simp_all add: block_device_ok_def)
  show "prt_num_blocks (bd_storage_partition bd') = prt_num_blocks ?p"
    and "prt_block_size (bd_storage_partition bd') = prt_block_size ?p"
    and "prt_guid (bd_storage_partition bd') = prt_guid ?p" and "h = 0"
    using cs by (cases, simp_all)+
  show "acl_members (prt_acl (bd_storage_partition bd'))
      = (if st = PSA_SUCCESS then insert c (acl_members (prt_acl ?p)) else acl_members (prt_acl ?p))"
    using cs f(2) by cases simp_all
  show "st = PSA_SUCCESS \<Longrightarrow> g = prt_guid ?p"
    using cs by cases simp_all
qed


section \<open>The devices keep the contract\<close>

definition ram_inv :: "ram_block_store \<Rightarrow> bool" where
  "ram_inv r \<longleftrightarrow>
     block_device_ok (rbs_base_block_device r)
     \<and> (case rbs_ram_back_store r of
          None \<Rightarrow> False
        | Some mem \<Rightarrow> length mem = prt_num_blocks (bd_storage_partition (rbs_base_block_device r))
             * prt_block_size (bd_storage_partition (rbs_base_block_device r)))"

abbreviation ram_acc :: "ram_block_store \<Rightarrow> u32 \<Rightarrow> storage_partition_handle_t \<Rightarrow> psa_status" where
  "ram_acc r c h \<equiv> block_device_check_access_permitted (rbs_base_block_device r) c h"
abbreviation ram_nblocks :: "ram_block_store \<Rightarrow> storage_partition_handle_t \<Rightarrow> nat" where
  "ram_nblocks r h \<equiv> prt_num_blocks (bd_storage_partition (rbs_base_block_device r))"
abbreviation ram_bsize :: "ram_block_store \<Rightarrow> storage_partition_handle_t \<Rightarrow> nat" where
  "ram_bsize r h \<equiv> prt_block_size (bd_storage_partition (rbs_base_block_device r))"
abbreviation ram_contents :: "ram_block_store \<Rightarrow> storage_partition_handle_t \<Rightarrow> bytes" where
  "ram_contents r h \<equiv> (case rbs_ram_back_store r of None \<Rightarrow> [] | Some mem \<Rightarrow> mem)"

lemma ram_block_offset:
  assumes "ram_inv r" and "lba < ram_nblocks r h"
  shows "mul64 lba (ram_bsize r h) = lba * ram_bsize r h"
    and "lba * ram_bsize r h + ram_bsize r h \<le> length (ram_contents r h)"
proof -
  have len: "length (ram_contents r h) = ram_nblocks r h * ram_bsize r h"
    and lt: "ram_nblocks r h * ram_bsize r h < 2 ^ 64"
    using assms(1) by (auto simp: ram_inv_def block_device_ok_def split: option.splits)
  show le: "lba * ram_bsize r h + ram_bsize r h \<le> length (ram_contents r h)"
    unfolding len using assms(2) mult_le_mono1 [of "Suc lba" "ram_nblocks r h" "ram_bsize r h"] by simp
  show "mul64 lba (ram_bsize r h) = lba * ram_bsize r h"
    using le len lt by (intro mul64_exact) linarith
qed

lemma ram_read_eq:
  assumes "ram_inv r"
  shows "ram_block_store_read r c h lba off n =
    (let st = io_status (ram_acc r c h) (ram_nblocks r h) (ram_bsize r h) lba off
     in Some (st, if st = PSA_SUCCESS
                  then slice (ram_contents r h) (lba * ram_bsize r h + off) (min n (ram_bsize r h - off))
                  else [], r))"
proof (cases "io_status (ram_acc r c h) (ram_nblocks r h) (ram_bsize r h) lba off = PSA_SUCCESS")
  case True
  then have ok: "ram_acc r c h = PSA_SUCCESS" "lba < ram_nblocks r h" "off < ram_bsize r h"
    by (auto simp: io_status_def split: if_splits)
  obtain mem where mem: "rbs_ram_back_store r = Some mem"
    using assms by (auto simp: ram_inv_def split: option.splits)
  show ?thesis
    using ok mem ram_block_offset [OF assms ok(2)] True
    by (auto simp: ram_block_store_read_def storage_partition_is_lba_legal_def Let_def mem_simps min_def)
next
  case False
  then show ?thesis
    by (auto simp: ram_block_store_read_def storage_partition_is_lba_legal_def io_status_def Let_def)
qed

lemma ram_write_eq:
  assumes "ram_inv r"
  shows "ram_block_store_write r c h lba off d =
    (let st = io_status (ram_acc r c h) (ram_nblocks r h) (ram_bsize r h) lba off;
         k = min (length d) (ram_bsize r h - off)
     in if st = PSA_SUCCESS
        then Some (st, k, r\<lparr>rbs_ram_back_store :=
               Some (splice (ram_contents r h) (lba * ram_bsize r h + off) (take k d))\<rparr>)
        else Some (st, 0, r))"
proof (cases "io_status (ram_acc r c h) (ram_nblocks r h) (ram_bsize r h) lba off = PSA_SUCCESS")
  case True
  then have ok: "ram_acc r c h = PSA_SUCCESS" "lba < ram_nblocks r h" "off < ram_bsize r h"
    by (auto simp: io_status_def split: if_splits)
  obtain mem where mem: "rbs_ram_back_store r = Some mem"
    using assms by (auto simp: ram_inv_def split: option.splits)
  have "(if length d < ram_bsize r h - off then length d else ram_bsize r h - off)
      = min (length d) (ram_bsize r h - off)"
    by (simp add: min_def)
  then show ?thesis
    using ok mem ram_block_offset [OF assms ok(2)] True
    by (simp add: ram_block_store_write_def storage_partition_is_lba_legal_def Let_def mem_simps slice_def)
next
  case False
  then show ?thesis
    by (auto simp: ram_block_store_write_def storage_partition_is_lba_legal_def io_status_def Let_def)
qed

lemma ram_erase_eq:
  assumes "ram_inv r"
  shows "ram_block_store_erase r c h lba n =
    (let st = erase_status (ram_acc r c h) (ram_nblocks r h) lba
     in if st = PSA_SUCCESS
        then Some (st, r\<lparr>rbs_ram_back_store := Some (splice (ram_contents r h) (lba * ram_bsize r h)
               (replicate (min n (ram_nblocks r h - lba) * ram_bsize r h) RAM_BLOCK_STORE_ERASED_VALUE))\<rparr>)
        else Some (st, r))"
proof (cases "erase_status (ram_acc r c h) (ram_nblocks r h) lba = PSA_SUCCESS")
  case True
  then have ok: "ram_acc r c h = PSA_SUCCESS" "lba < ram_nblocks r h"
    by (auto simp: erase_status_def split: if_splits)
  obtain mem where mem: "rbs_ram_back_store r = Some mem"
    and len: "length mem = ram_nblocks r h * ram_bsize r h"
    and lt: "ram_nblocks r h * ram_bsize r h < 2 ^ 64"
    using assms by (auto simp: ram_inv_def block_device_ok_def split: option.splits)
  let ?k = "min n (ram_nblocks r h - lba)"
  have le: "(lba + ?k) * ram_bsize r h \<le> ram_nblocks r h * ram_bsize r h"
    using ok(2) by (intro mult_le_mono1) simp
  then have "mul64 ?k (ram_bsize r h) = ?k * ram_bsize r h"
    using lt by (intro mul64_exact) (simp add: add_mult_distrib)
  moreover have "lba * ram_bsize r h + ?k * ram_bsize r h \<le> length mem"
    using le len by (simp add: add_mult_distrib)
  ultimately show ?thesis
    using ok mem ram_block_offset(1) [OF assms ok(2)] True
    by (simp add: ram_block_store_erase_def storage_partition_is_lba_legal_def Let_def
        clip_num_blocks_min mem_simps)
next
  case False
  then show ?thesis
    by (auto simp: ram_block_store_erase_def storage_partition_is_lba_legal_def erase_status_def Let_def)
qed


lemma block_device_get_info_facts:
  "block_device_get_partition_info bd g = (st, info) \<Longrightarrow>
    (st = PSA_SUCCESS \<longleftrightarrow> info \<noteq> None) \<and>
    (\<forall>i. info = Some i \<longrightarrow> g = prt_guid (bd_storage_partition bd)
       \<and> spi_num_blocks i = prt_num_blocks (bd_storage_partition bd)
       \<and> spi_block_size i = prt_block_size (bd_storage_partition bd))"
  by (auto simp: block_device_get_partition_info_def storage_partition_is_guid_matched_def Let_def
      split: if_splits)

lemma ram_open_facts:
  assumes "ram_inv r" and "ram_block_store_open r c g = Some (st, h, r')"
  shows "ram_inv r'" and "extent_kept ram_acc ram_nblocks ram_bsize r r'"
    and "st = PSA_SUCCESS \<Longrightarrow> ram_acc r' c h = PSA_SUCCESS"
    and "rbs_ram_back_store r' = rbs_ram_back_store r"
    and "ram_nblocks r' h = ram_nblocks r h" and "ram_bsize r' h = ram_bsize r h"
proof -
  obtain bd where o: "block_device_open (rbs_base_block_device r) c g = (st, h, bd)"
    and r': "r' = r\<lparr>rbs_base_block_device := bd\<rparr>"
    using assms(2) by (auto simp: ram_block_store_open_def split: prod.splits)
  have ok: "block_device_ok (rbs_base_block_device r)"
    using assms(1) by (simp add: ram_inv_def)
  note f = block_device_open_facts [OF ok o]
  show "ram_inv r'"
    using assms(1) f r' by (auto simp: ram_inv_def split: option.splits)
  show "extent_kept ram_acc ram_nblocks ram_bsize r r'"
    using f r' by (auto simp: extent_kept_def check_access_success split: if_splits)
  show "st = PSA_SUCCESS \<Longrightarrow> ram_acc r' c h = PSA_SUCCESS"
    using f r' by (simp add: check_access_success)
  show "rbs_ram_back_store r' = rbs_ram_back_store r" "ram_nblocks r' h = ram_nblocks r h"
    "ram_bsize r' h = ram_bsize r h"
    using f r' by simp_all
qed

lemma ram_inv_back_store:
  "ram_inv r \<Longrightarrow> length mem = ram_nblocks r h * ram_bsize r h \<Longrightarrow>
    ram_inv (r\<lparr>rbs_ram_back_store := Some mem\<rparr>)"
  by (simp add: ram_inv_def)

lemma ram_length: "ram_inv r \<Longrightarrow> length (ram_contents r h) = ram_nblocks r h * ram_bsize r h"
  by (auto simp: ram_inv_def split: option.splits)

lemma ram_write_inv:
  assumes "ram_inv r" and "io_status (ram_acc r c h) (ram_nblocks r h) (ram_bsize r h) lba off = PSA_SUCCESS"
  shows "ram_inv (r\<lparr>rbs_ram_back_store := Some (splice (ram_contents r h) (lba * ram_bsize r h + off)
    (take (min (length d) (ram_bsize r h - off)) d))\<rparr>)"
proof -
  have l: "lba < ram_nblocks r h" and o: "off < ram_bsize r h"
    using assms(2) by (auto simp: io_status_def split: if_splits)
  have "lba * ram_bsize r h + off + length (take (min (length d) (ram_bsize r h - off)) d)
      \<le> length (ram_contents r h)"
    using ram_block_offset(2) [OF assms(1) l] o by simp
  then show ?thesis
    using ram_length [OF assms(1)] by (intro ram_inv_back_store [OF assms(1)]) simp
qed

lemma ram_erase_inv:
  assumes "ram_inv r" and "lba < ram_nblocks r h"
  shows "ram_inv (r\<lparr>rbs_ram_back_store := Some (splice (ram_contents r h) (lba * ram_bsize r h)
    (replicate (min n (ram_nblocks r h - lba) * ram_bsize r h) e))\<rparr>)"
proof -
  have "(lba + min n (ram_nblocks r h - lba)) * ram_bsize r h \<le> ram_nblocks r h * ram_bsize r h"
    using assms(2) by (intro mult_le_mono1) simp
  then show ?thesis
    using ram_length [OF assms(1)]
    by (intro ram_inv_back_store [OF assms(1)]) (simp add: add_mult_distrib)
qed

interpretation ram: block_store_contents ram_block_store_interface ram_inv ram_acc ram_nblocks
  ram_bsize ram_contents RAM_BLOCK_STORE_ERASED_VALUE
proof (unfold_locales, goal_cases)
  case (1 r c h)
  then show ?case by (simp add: ram_inv_def block_device_ok_def)
next
  case (2 r g)
  then show ?case
    using block_device_get_info_facts
    by (fastforce simp: ram_block_store_interface_def ram_block_store_get_partition_info_def
        split: prod.splits)
next
  case (3 r c g)
  obtain st h r' where o: "ram_block_store_open r c g = Some (st, h, r')"
    by (cases "block_device_open (rbs_base_block_device r) c g") (simp add: ram_block_store_open_def)
  then show ?case
    using ram_open_facts [OF 3 o] by (auto simp: ram_block_store_interface_def)
next
  case (4 r c h)
  then show ?case
    by (simp add: ram_block_store_interface_def ram_block_store_close_def block_device_close_def)
next
  case (5 r c h lba off n)
  then show ?case
    using ram_block_offset(2) [OF 5, of lba]
    by (auto simp: ram_block_store_interface_def ram_read_eq Let_def io_status_def)
next
  case (6 r c h lba off d)
  then show ?case
    using ram_write_inv [OF 6, of c h lba off d]
    by (auto simp: ram_block_store_interface_def ram_write_eq Let_def extent_kept_def)
next
  case (7 r c h lba n)
  then show ?case
    using ram_erase_inv [OF 7, of lba n]
    by (auto simp: ram_block_store_interface_def ram_erase_eq Let_def extent_kept_def
        erase_status_def)
next
  case (8 r c h)
  then show ?case by (simp add: ram_length)
next
  case (9 r g st io r')
  then show ?case
    by (auto simp: ram_block_store_interface_def ram_block_store_get_partition_info_def
        split: prod.splits)
next
  case (10 r c g st h r')
  then show ?case
    using ram_open_facts(4) [of r c g st h r']
    by (simp add: ram_block_store_interface_def contents_kept_def)
next
  case (11 r c h st r')
  then show ?case
    by (simp add: ram_block_store_interface_def ram_block_store_close_def)
next
  case (12 r c h lba off n st d r')
  then show ?case
    by (auto simp: ram_block_store_interface_def ram_read_eq Let_def)
next
  case (13 r c h lba off d st k r')
  then show ?case
    by (auto simp: ram_block_store_interface_def ram_write_eq Let_def contents_kept_def
        check_access_success io_status_def split: if_splits)
next
  case (14 r c h lba n st r')
  then show ?case
    by (auto simp: ram_block_store_interface_def ram_erase_eq Let_def contents_kept_def
        check_access_success erase_status_def split: if_splits)
next
  case (15 r g info r1 c h r2)
  then have "r1 = r" and i: "spi_num_blocks info = ram_nblocks r h" "spi_block_size info = ram_bsize r h"
    using block_device_get_info_facts [of "rbs_base_block_device r" g PSA_SUCCESS "Some info"]
    by (auto simp: ram_block_store_interface_def ram_block_store_get_partition_info_def
        split: prod.splits)
  with 15 show ?case
    using ram_open_facts(5,6) [of r c g PSA_SUCCESS h r2] by (simp add: ram_block_store_interface_def)
qed

text \<open>The null store: the same statuses and lengths, but no contents.\<close>

definition null_inv :: "null_block_store \<Rightarrow> bool" where
  "null_inv r \<longleftrightarrow> block_device_ok (nbs_base_block_device r)"

abbreviation null_acc :: "null_block_store \<Rightarrow> u32 \<Rightarrow> storage_partition_handle_t \<Rightarrow> psa_status" where
  "null_acc r c h \<equiv> block_device_check_access_permitted (nbs_base_block_device r) c h"
abbreviation null_nblocks :: "null_block_store \<Rightarrow> storage_partition_handle_t \<Rightarrow> nat" where
  "null_nblocks r h \<equiv> prt_num_blocks (bd_storage_partition (nbs_base_block_device r))"
abbreviation null_bsize :: "null_block_store \<Rightarrow> storage_partition_handle_t \<Rightarrow> nat" where
  "null_bsize r h \<equiv> prt_block_size (bd_storage_partition (nbs_base_block_device r))"

interpretation null_store: block_store_geometry null_block_store_interface null_inv null_acc
  null_nblocks null_bsize
proof (unfold_locales, goal_cases)
  case (1 r c h)
  then show ?case by (simp add: null_inv_def block_device_ok_def)
next
  case (2 r g)
  then show ?case
    using block_device_get_info_facts
    by (fastforce simp: null_block_store_interface_def null_block_store_get_partition_info_def
        split: prod.splits)
next
  case (3 r c g)
  obtain st h bd where o: "block_device_open (nbs_base_block_device r) c g = (st, h, bd)"
    by (metis prod_cases3)
  have "block_device_ok (nbs_base_block_device r)"
    using 3 by (simp add: null_inv_def)
  note f = block_device_open_facts [OF this o]
  show ?case
    using o f by (auto simp: null_block_store_interface_def null_block_store_open_def null_inv_def
        extent_kept_def check_access_success split: if_splits)
next
  case (4 r c h)
  then show ?case
    by (simp add: null_block_store_interface_def null_block_store_close_def block_device_close_def)
next
  case (5 r c h lba off n)
  then show ?case
    by (auto simp: null_block_store_interface_def null_block_store_read_def io_status_def
        storage_partition_is_lba_legal_def Let_def min_def)
next
  case (6 r c h lba off d)
  then show ?case
    by (auto simp: null_block_store_interface_def null_block_store_write_def io_status_def
        storage_partition_is_lba_legal_def Let_def min_def)
next
  case (7 r c h lba n)
  then show ?case
    by (auto simp: null_block_store_interface_def null_block_store_erase_def erase_status_def
        storage_partition_is_lba_legal_def Let_def)
qed



section \<open>Properties\<close>

lemma block_device_open_first:
  "block_device_open (block_device_init (Some g) n b) c g =
    (PSA_SUCCESS, 0, \<lparr>bd_storage_partition = (storage_partition_init (Some g) n b)
       \<lparr>prt_acl := storage_partition_acl_init\<lparr>acl_allowlist := [c], acl_allowlist_len := 1\<rparr>\<rparr>\<rparr>)"
  by (simp add: block_device_open_def block_device_init_def storage_partition_init_def
      storage_partition_is_guid_matched_def storage_partition_is_open_permitted_def
      storage_partition_acl_authorize_def storage_partition_acl_check_def
      storage_partition_acl_init_def storage_partition_acl_add_def)

text \<open>Opening is the only operation of the device that changes its state; a sequence of opens by any clients, with
  any identifiers.\<close>

fun device_opens :: "block_device \<Rightarrow> (u32 \<times> uuid_octets) list \<Rightarrow> block_device" where
  "device_opens bd [] = bd"
| "device_opens bd ((c, g) # cs) = device_opens (snd (snd (block_device_open bd c g))) cs"

definition owned_device :: "uuid_octets \<Rightarrow> size_t \<Rightarrow> size_t \<Rightarrow> u32 \<Rightarrow> block_device" where
  "owned_device g n b c = \<lparr>bd_storage_partition = (storage_partition_init (Some g) n b)
     \<lparr>prt_acl := storage_partition_acl_init\<lparr>acl_allowlist := [c], acl_allowlist_len := 1\<rparr>\<rparr>\<rparr>"

lemma owned_device_open:
  "block_device_open (owned_device g n b c) c' g' =
     (if g' = g \<and> c' = c then PSA_SUCCESS else PSA_ERROR_NOT_PERMITTED, 0, owned_device g n b c)"
  by (auto simp: owned_device_def block_device_open_def storage_partition_init_def storage_partition_is_guid_matched_def
      storage_partition_is_open_permitted_def storage_partition_acl_authorize_def storage_partition_acl_check_def
      storage_partition_acl_init_def)

lemma owned_device_access:
  "block_device_check_access_permitted (owned_device g n b c) c' 0 = (if c' = c then PSA_SUCCESS else PSA_ERROR_NOT_PERMITTED)"
  by (simp add: owned_device_def block_device_check_access_permitted_def storage_partition_is_access_permitted_def
      storage_partition_acl_check_def storage_partition_acl_init_def)

lemma owned_device_opens: "device_opens (owned_device g n b c) cs = owned_device g n b c"
  by (induction cs) (auto simp: owned_device_open)

text \<open>
  Property C31. A freshly initialised block device belongs to the first client that opens it. After that, whatever
  sequence of opens any clients make, with right or wrong identifiers, every other client is refused when it opens the
  device, closes it or uses the handle, and the first client can open and use it again. Closing gives nothing back,
  as it has no effect on the state. The header \<open>storage_partition.h\<close> and the service description say the
  contrary, that a device without an owner is open to any client.
\<close>

theorem block_device_first_client_only:
  assumes "c' \<noteq> c"
  shows "\<exists>bd. block_device_open (block_device_init (Some g) n b) c g = (PSA_SUCCESS, 0, bd)
    \<and> (\<forall>calls. let bd' = device_opens bd calls in
          block_device_open bd' c g = (PSA_SUCCESS, 0, bd')
        \<and> block_device_check_access_permitted bd' c 0 = PSA_SUCCESS
        \<and> block_device_open bd' c' g' = (PSA_ERROR_NOT_PERMITTED, 0, bd')
        \<and> block_device_check_access_permitted bd' c' 0 = PSA_ERROR_NOT_PERMITTED
        \<and> block_device_close bd' c' 0 = PSA_ERROR_NOT_PERMITTED)"
  using assms
  unfolding block_device_open_first owned_device_def [symmetric]
  by (auto simp: owned_device_opens owned_device_open owned_device_access block_device_close_def)

theorem block_device_first_client_only_witness:
  "\<exists>bd. block_device_open (block_device_init (Some null_uuid) 8 512) 1 null_uuid = (PSA_SUCCESS, 0, bd)
    \<and> (let bd' = device_opens bd [(2, null_uuid), (1, null_uuid), (3, [1])]
       in block_device_open bd' 2 null_uuid = (PSA_ERROR_NOT_PERMITTED, 0, bd'))"
proof -
  have "(2 :: u32) \<noteq> 1" by simp
  from block_device_first_client_only [OF this, of null_uuid 8 512 null_uuid] show ?thesis unfolding Let_def by blast
qed

text \<open>A RAM store in use: initialised within the address space and opened by client \<open>c\<close>.\<close>

lemma ram_init_open:
  assumes "num_blocks * block_size < 2 ^ 64" and "alloc_ok (num_blocks * block_size)"
    and "num_blocks < 2 ^ 64"
    and "ram_block_store_init alloc_ok r0 (Some g) num_blocks block_size = (ok, r)"
  obtains r1 where "ok" and "ram_inv r" and "ram_block_store_open r c g = Some (PSA_SUCCESS, 0, r1)"
    and "ram_inv r1" and "ram_acc r1 c 0 = PSA_SUCCESS" and "ram_nblocks r1 0 = num_blocks"
    and "ram_bsize r1 0 = block_size"
    and "ram_contents r1 0 = replicate (num_blocks * block_size) RAM_BLOCK_STORE_ERASED_VALUE"
proof -
  have m: "mul64 num_blocks block_size = num_blocks * block_size"
    using assms(1) by (rule mul64_exact)
  have r: "ok" "r = \<lparr>rbs_base_block_device = block_device_init (Some g) num_blocks block_size,
      rbs_ram_back_store = Some (replicate (num_blocks * block_size) RAM_BLOCK_STORE_ERASED_VALUE)\<rparr>"
    using assms(2,4) by (simp_all add: ram_block_store_init_def m)
  have inv: "ram_inv r"
    using assms(1,3) block_device_init_ok [of num_blocks block_size "Some g"] r(2)
    by (simp add: ram_inv_def block_device_init_def storage_partition_init_def)
  obtain r1 where o: "ram_block_store_open r c g = Some (PSA_SUCCESS, 0, r1)"
    using r(2) by (simp add: ram_block_store_open_def block_device_open_first)
  note f = ram_open_facts [OF inv o]
  have "ram_nblocks r1 0 = num_blocks" "ram_bsize r1 0 = block_size"
    using f(5,6) r(2) by (simp_all add: block_device_init_def storage_partition_init_def)
  with f r inv o show ?thesis
    using that by simp
qed

text \<open>
  The RAM store is a memory: on a store initialised within the address space and
  opened by a client, data the client writes within a block is what it reads back, and a block
  that was not written reads as erased.
\<close>

theorem ram_store_round_trip:
  assumes "num_blocks * block_size < 2 ^ 64" and "alloc_ok (num_blocks * block_size)"
    and "lba < num_blocks" and "off + length d \<le> block_size" and "d \<noteq> []"
    and "lba' < num_blocks" and "lba' \<noteq> lba"
  shows "\<exists>r r1 r2. ram_block_store_init alloc_ok r0 (Some g) num_blocks block_size = (True, r)
    \<and> ram_block_store_open r c g = Some (PSA_SUCCESS, 0, r1)
    \<and> ram_block_store_write r1 c 0 lba off d = Some (PSA_SUCCESS, length d, r2)
    \<and> ram_block_store_read r2 c 0 lba off (length d) = Some (PSA_SUCCESS, d, r2)
    \<and> ram_block_store_read r2 c 0 lba' 0 block_size
        = Some (PSA_SUCCESS, replicate block_size RAM_BLOCK_STORE_ERASED_VALUE, r2)"
proof -
  obtain ok r where i: "ram_block_store_init alloc_ok r0 (Some g) num_blocks block_size = (ok, r)"
    by fastforce
  have "block_size \<noteq> 0"
    using assms(4,5) by (cases d) auto
  then have "num_blocks \<le> num_blocks * block_size"
    by simp
  then have lt: "num_blocks < 2 ^ 64"
    using assms(1) by (rule le_less_trans)
  obtain r1 where ok and inv: "ram_inv r1" and o: "ram_block_store_open r c g = Some (PSA_SUCCESS, 0, r1)"
    and a: "ram_acc r1 c 0 = PSA_SUCCESS" and n: "ram_nblocks r1 0 = num_blocks" and b: "ram_bsize r1 0 = block_size"
    and cont: "ram_contents r1 0 = replicate (num_blocks * block_size) RAM_BLOCK_STORE_ERASED_VALUE"
    by (rule ram_init_open [OF assms(1,2) lt i])
  define r2 where "r2 = r1\<lparr>rbs_ram_back_store := Some (splice (ram_contents r1 0) (lba * block_size + off) d)\<rparr>"
  have off: "off < block_size"
    using assms(4,5) by (cases d) auto
  have ios: "io_status (ram_acc r1 c 0) (ram_nblocks r1 0) (ram_bsize r1 0) lba off = PSA_SUCCESS"
    using a n b assms(3) off by (simp add: io_status_def)
  have w: "ram_block_store_write r1 c 0 lba off d = Some (PSA_SUCCESS, length d, r2)"
    using assms(4) ios b by (simp add: ram_write_eq [OF inv] Let_def r2_def)
  then have inv2: "ram_inv r2"
    using ram.write_returns [OF inv, of c 0 lba off d] by (auto simp: ram_block_store_interface_def)
  have same: "ram_acc r2 c 0 = PSA_SUCCESS" "ram_nblocks r2 0 = num_blocks" "ram_bsize r2 0 = block_size"
    using a n b by (simp_all add: r2_def)
  have fit: "lba * block_size + off + length d \<le> length (ram_contents r1 0)"
  proof -
    have "Suc lba * block_size \<le> num_blocks * block_size"
      using assms(3) by (intro mult_le_mono1) simp
    then show ?thesis
      using assms(4) cont by simp
  qed
  have "slice (ram_contents r2 0) (lba * block_size + off) (length d) = d"
    using slice_splice_same [OF fit] by (simp add: r2_def)
  then have rd: "ram_block_store_read r2 c 0 lba off (length d) = Some (PSA_SUCCESS, d, r2)"
    using same assms(3,4) off by (simp add: ram_read_eq [OF inv2] Let_def io_status_def)
  have disj: "lba' * block_size + block_size \<le> lba * block_size + off
      \<or> lba * block_size + off + length d \<le> lba' * block_size"
  proof (cases "lba' < lba")
    case True
    then have "Suc lba' * block_size \<le> lba * block_size"
      by (intro mult_le_mono1) simp
    then show ?thesis by simp
  next
    case False
    then have "Suc lba * block_size \<le> lba' * block_size"
      using assms(7) by (intro mult_le_mono1) simp
    then show ?thesis using assms(4) by simp
  qed
  have fit': "lba' * block_size + block_size \<le> num_blocks * block_size"
    using assms(6) mult_le_mono1 [of "Suc lba'" num_blocks block_size] by simp
  have "slice (ram_contents r2 0) (lba' * block_size) block_size
      = slice (ram_contents r1 0) (lba' * block_size) block_size"
    using disj fit fit' by (auto simp: r2_def cont slice_splice_disjoint)
  then have "slice (ram_contents r2 0) (lba' * block_size) block_size
      = replicate block_size RAM_BLOCK_STORE_ERASED_VALUE"
    using fit' by (simp add: cont)
  then have "ram_block_store_read r2 c 0 lba' 0 block_size
      = Some (PSA_SUCCESS, replicate block_size RAM_BLOCK_STORE_ERASED_VALUE, r2)"
    using same assms(6) off by (simp add: ram_read_eq [OF inv2] Let_def io_status_def)
  with i o w rd \<open>ok\<close> show ?thesis by auto
qed

theorem ram_store_round_trip_witness:
  "\<exists>r r1 r2. ram_block_store_init (\<lambda>_. True) \<lparr>rbs_base_block_device = block_device_init None 0 0,
        rbs_ram_back_store = None\<rparr> (Some null_uuid) 4 16 = (True, r)
    \<and> ram_block_store_open r 7 null_uuid = Some (PSA_SUCCESS, 0, r1)
    \<and> ram_block_store_write r1 7 0 2 3 [1, 2] = Some (PSA_SUCCESS, length [1 :: byte, 2], r2)
    \<and> ram_block_store_read r2 7 0 2 3 (length [1 :: byte, 2]) = Some (PSA_SUCCESS, [1, 2], r2)"
  using ram_store_round_trip [of 4 16 "\<lambda>_. True" 2 3 "[1, 2]" 1
      "\<lparr>rbs_base_block_device = block_device_init None 0 0, rbs_ram_back_store = None\<rparr>" null_uuid 7]
  by auto

text \<open>
  Property C36. The size of the RAM back store is computed without an overflow check: when the
  product of block count and block size wraps to less than one block, initialisation succeeds,
  and the first block, which the store considers legal, lies outside the allocated memory.
\<close>

theorem ram_store_size_wraps:
  assumes "mul64 num_blocks block_size < block_size" and "0 < num_blocks"
    and "alloc_ok (mul64 num_blocks block_size)"
  shows "\<exists>r r1. ram_block_store_init alloc_ok r0 (Some g) num_blocks block_size = (True, r)
    \<and> ram_block_store_open r c g = Some (PSA_SUCCESS, 0, r1)
    \<and> ram_block_store_read r1 c 0 0 0 block_size = None"
  using assms
  by (simp add: ram_block_store_init_def ram_block_store_open_def block_device_open_first
      ram_block_store_read_def Let_def block_device_check_access_permitted_def
      storage_partition_is_access_permitted_def storage_partition_acl_check_def
      storage_partition_is_lba_legal_def storage_partition_init_def mem_read_def mul64_def)

theorem ram_store_size_wraps_witness:
  "\<exists>r r1. ram_block_store_init (\<lambda>_. True) \<lparr>rbs_base_block_device = block_device_init None 0 0,
        rbs_ram_back_store = None\<rparr> (Some null_uuid) (2 ^ 60) 16 = (True, r)
    \<and> ram_block_store_open r 7 null_uuid = Some (PSA_SUCCESS, 0, r1)
    \<and> ram_block_store_read r1 7 0 0 0 16 = None"
proof -
  have "mul64 (2 ^ 60) 16 < 16"
    by (simp add: mul64_def)
  then show ?thesis
    using ram_store_size_wraps [of "2 ^ 60" 16 "\<lambda>_. True"
        "\<lparr>rbs_base_block_device = block_device_init None 0 0, rbs_ram_back_store = None\<rparr>" null_uuid 7]
    by simp
qed

end
