(* ===== verification/PartitionedBlockStore.thy ===== *)
theory PartitionedBlockStore
  imports BlockDevice
begin

text \<open>
  The partitioned block store (\<open>partitioned_block_store.c\<close>): a block store that presents
  extents of an underlying store as partitions of their own. Over any back store that keeps the
  contract, and as long as the configured extents do not overlap, it keeps the contract itself:
  partitions are isolated from one another.
\<close>

section \<open>State and operations\<close>

abbreviation PARTITIONED_BLOCK_STORE_MAX_PARTITIONS :: nat where
  "PARTITIONED_BLOCK_STORE_MAX_PARTITIONS \<equiv> 8"

text \<open>\<open>'s\<close> is the state of the back store, which the structure points to. The configuration
  listener is a function on the table of partitions: it is given the partition count and the
  partitions, the GUID asked for and the back store information, and may add partitions.\<close>

type_synonym partition_config_listener =
  "nat \<Rightarrow> storage_partition list \<Rightarrow> uuid_octets \<Rightarrow> storage_partition_info \<Rightarrow>
    bool \<times> nat \<times> storage_partition list"

record 's partitioned_block_store =
  pbs_local_client_id :: u32
  pbs_authorizer :: storage_partition_authorizer
  pbs_config_listener :: "partition_config_listener option"
  pbs_num_partitions :: nat
  pbs_storage_partition :: "storage_partition list"
  pbs_back_store_handle :: storage_partition_handle_t
  pbs_back_store :: 's
  pbs_back_store_info :: storage_partition_info

text \<open>The \<open>for\<close> loop over the first \<open>num_partitions\<close> entries.\<close>

fun find_guid_from :: "storage_partition list \<Rightarrow> uuid_octets \<Rightarrow> nat \<Rightarrow> nat option" where
  "find_guid_from [] g i = None"
| "find_guid_from (p # ps) g i =
     (if storage_partition_is_guid_matched p g then Some i else find_guid_from ps g (Suc i))"

definition find_guid :: "'s partitioned_block_store \<Rightarrow> uuid_octets \<Rightarrow> nat option" where
  "find_guid p g = find_guid_from (take (pbs_num_partitions p) (pbs_storage_partition p)) g 0"

text \<open>The \<open>do\<close> loop runs at most twice: the listener is asked once.\<close>

definition find_by_partition_guid ::
  "'s partitioned_block_store \<Rightarrow> uuid_octets \<Rightarrow> psa_status \<times> nat \<times> 's partitioned_block_store" where
  "find_by_partition_guid p partition_guid =
     (case find_guid p partition_guid of
        Some i \<Rightarrow> (PSA_SUCCESS, i, p)
      | None \<Rightarrow>
          (case pbs_config_listener p of
             None \<Rightarrow> (PSA_ERROR_INVALID_ARGUMENT, 0, p)
           | Some listener \<Rightarrow>
               (let (again, n, ps) = listener (pbs_num_partitions p) (pbs_storage_partition p)
                      partition_guid (pbs_back_store_info p);
                    p1 = p\<lparr>pbs_num_partitions := n, pbs_storage_partition := ps\<rparr>
                in if \<not> again then (PSA_ERROR_INVALID_ARGUMENT, 0, p1)
                   else
                     (case find_guid p1 partition_guid of
                        Some i \<Rightarrow> (PSA_SUCCESS, i, p1)
                      | None \<Rightarrow> (PSA_ERROR_INVALID_ARGUMENT, 0, p1)))))"

definition validate_partition_request ::
  "'s partitioned_block_store \<Rightarrow> u32 \<Rightarrow> storage_partition_handle_t \<Rightarrow>
    (psa_status \<times> storage_partition option) option" where
  "validate_partition_request p client_id handle =
     (let index = unat handle
      in if PARTITIONED_BLOCK_STORE_MAX_PARTITIONS \<le> index then Some (PSA_ERROR_INVALID_ARGUMENT, None)
         else do {
           prt \<leftarrow> array_get (pbs_storage_partition p) (int index);
           if \<not> storage_partition_is_access_permitted prt client_id
           then Some (PSA_ERROR_NOT_PERMITTED, None)
           else Some (PSA_SUCCESS, Some prt)
         })"

definition partitioned_block_store_get_partition_info ::
  "'s partitioned_block_store \<Rightarrow> uuid_octets \<Rightarrow>
    (psa_status \<times> storage_partition_info option \<times> 's partitioned_block_store) option" where
  "partitioned_block_store_get_partition_info p partition_guid =
     (let (status, i, p1) = find_by_partition_guid p partition_guid
      in if status = PSA_SUCCESS
         then do {
           prt \<leftarrow> array_get (pbs_storage_partition p1) (int i);
           Some (status,
                 Some \<lparr>spi_num_blocks = prt_num_blocks prt, spi_block_size = prt_block_size prt,
                       spi_partition_guid = prt_guid prt,
                       spi_parent_guid = spi_partition_guid (pbs_back_store_info p1)\<rparr>, p1)
         }
         else Some (status, None, p1))"

definition partitioned_block_store_open ::
  "'s partitioned_block_store \<Rightarrow> u32 \<Rightarrow> uuid_octets \<Rightarrow>
    (psa_status \<times> storage_partition_handle_t \<times> 's partitioned_block_store) option" where
  "partitioned_block_store_open p client_id partition_guid =
     (let (status, i, p1) = find_by_partition_guid p partition_guid
      in if status = PSA_SUCCESS
         then do {
           prt \<leftarrow> array_get (pbs_storage_partition p1) (int i);
           let (ok, prt1) = storage_partition_is_open_permitted prt client_id (pbs_authorizer p1);
           let p2 = p1\<lparr>pbs_storage_partition := (pbs_storage_partition p1)[i := prt1]\<rparr>;
           if ok then Some (PSA_SUCCESS, of_nat i, p2) else Some (PSA_ERROR_NOT_PERMITTED, 0, p2)
         }
         else Some (status, 0, p1))"

definition partitioned_block_store_close ::
  "'s partitioned_block_store \<Rightarrow> u32 \<Rightarrow> storage_partition_handle_t \<Rightarrow>
    (psa_status \<times> 's partitioned_block_store) option" where
  "partitioned_block_store_close p client_id handle =
     do {
       (status, prt) \<leftarrow> validate_partition_request p client_id handle;
       Some (status, p)
     }"

definition partitioned_block_store_read ::
  "'s block_store_interface option \<Rightarrow> 's partitioned_block_store \<Rightarrow> u32 \<Rightarrow> storage_partition_handle_t \<Rightarrow>
    lba_t \<Rightarrow> size_t \<Rightarrow> size_t \<Rightarrow> (psa_status \<times> bytes \<times> 's partitioned_block_store) option" where
  "partitioned_block_store_read back p client_id handle lba offset buffer_size =
     do {
       (status, prt) \<leftarrow> validate_partition_request p client_id handle;
       case prt of
         None \<Rightarrow> Some (status, [], p)
       | Some prt \<Rightarrow>
           (if storage_partition_is_lba_legal prt lba
            then do {
              let clipped_read_len = storage_partition_clip_length prt lba offset buffer_size;
              (st, d, s) \<leftarrow> block_store_read back (pbs_back_store p) (pbs_local_client_id p)
                (pbs_back_store_handle p) (add64 (prt_base_lba prt) lba) offset clipped_read_len;
              Some (st, d, p\<lparr>pbs_back_store := s\<rparr>)
            }
            else Some (PSA_ERROR_INVALID_ARGUMENT, [], p))
     }"

definition partitioned_block_store_write ::
  "'s block_store_interface option \<Rightarrow> 's partitioned_block_store \<Rightarrow> u32 \<Rightarrow> storage_partition_handle_t \<Rightarrow>
    lba_t \<Rightarrow> size_t \<Rightarrow> bytes \<Rightarrow> (psa_status \<times> size_t \<times> 's partitioned_block_store) option" where
  "partitioned_block_store_write back p client_id handle lba offset d =
     do {
       (status, prt) \<leftarrow> validate_partition_request p client_id handle;
       case prt of
         None \<Rightarrow> Some (status, 0, p)
       | Some prt \<Rightarrow>
           (if storage_partition_is_lba_legal prt lba
            then do {
              let clipped_data_len = storage_partition_clip_length prt lba offset (length d);
              (st, k, s) \<leftarrow> block_store_write back (pbs_back_store p) (pbs_local_client_id p)
                (pbs_back_store_handle p) (add64 (prt_base_lba prt) lba) offset
                (take clipped_data_len d);
              Some (st, k, p\<lparr>pbs_back_store := s\<rparr>)
            }
            else Some (PSA_ERROR_INVALID_ARGUMENT, 0, p))
     }"

definition partitioned_block_store_erase ::
  "'s block_store_interface option \<Rightarrow> 's partitioned_block_store \<Rightarrow> u32 \<Rightarrow> storage_partition_handle_t \<Rightarrow>
    lba_t \<Rightarrow> size_t \<Rightarrow> (psa_status \<times> 's partitioned_block_store) option" where
  "partitioned_block_store_erase back p client_id handle begin_lba num_blocks =
     do {
       (status, prt) \<leftarrow> validate_partition_request p client_id handle;
       case prt of
         None \<Rightarrow> Some (status, p)
       | Some prt \<Rightarrow>
           (if storage_partition_is_lba_legal prt begin_lba
            then do {
              let clipped_num_blocks = storage_partition_clip_num_blocks prt begin_lba num_blocks;
              (st, s) \<leftarrow> block_store_erase back (pbs_back_store p) (pbs_local_client_id p)
                (pbs_back_store_handle p) (add64 (prt_base_lba prt) begin_lba) clipped_num_blocks;
              Some (st, p\<lparr>pbs_back_store := s\<rparr>)
            }
            else Some (PSA_ERROR_INVALID_ARGUMENT, p))
     }"

definition partitioned_block_store_interface ::
  "'s block_store_interface option \<Rightarrow> 's partitioned_block_store block_store_interface" where
  "partitioned_block_store_interface back =
     \<lparr>bsi_get_partition_info = partitioned_block_store_get_partition_info,
      bsi_open = partitioned_block_store_open, bsi_close = partitioned_block_store_close,
      bsi_read = partitioned_block_store_read back, bsi_write = partitioned_block_store_write back,
      bsi_erase = partitioned_block_store_erase back\<rparr>"

text \<open>\<open>partitioned_block_store_init\<close>: the result says whether the store is usable. The table of
  partitions is not touched.\<close>

definition partitioned_block_store_init ::
  "'s block_store_interface option \<Rightarrow> 's partitioned_block_store \<Rightarrow> u32 \<Rightarrow> uuid_octets \<Rightarrow> 's \<Rightarrow>
    storage_partition_authorizer \<Rightarrow> (bool \<times> 's partitioned_block_store) option" where
  "partitioned_block_store_init back p local_client_id back_store_guid back_store authorizer =
     do {
       let p1 = p\<lparr>pbs_local_client_id := local_client_id, pbs_authorizer := authorizer,
                  pbs_config_listener := None, pbs_num_partitions := 0\<rparr>;
       (status, info, s1) \<leftarrow> block_store_get_partition_info back back_store back_store_guid;
       let p2 = p1\<lparr>pbs_back_store := s1\<rparr>;
       if status \<noteq> PSA_SUCCESS then Some (False, p2)
       else do {
         i \<leftarrow> info;
         let p3 = p2\<lparr>pbs_back_store_info := i\<rparr>;
         (status, h, s2) \<leftarrow> block_store_open back s1 local_client_id back_store_guid;
         let p4 = p3\<lparr>pbs_back_store := s2\<rparr>;
         if status \<noteq> PSA_SUCCESS then Some (False, p4)
         else Some (True, p4\<lparr>pbs_back_store_handle := h\<rparr>)
       }
     }"

definition partitioned_block_store_deinit ::
  "'s block_store_interface option \<Rightarrow> 's partitioned_block_store \<Rightarrow> 's partitioned_block_store option" where
  "partitioned_block_store_deinit back p =
     do {
       (_, s) \<leftarrow> block_store_close back (pbs_back_store p) (pbs_local_client_id p)
         (pbs_back_store_handle p);
       let n = pbs_num_partitions p;
       Some (p\<lparr>pbs_back_store := s,
               pbs_storage_partition :=
                 map storage_partition_deinit (take n (pbs_storage_partition p))
                 @ drop n (pbs_storage_partition p)\<rparr>)
     }"

definition partitioned_block_store_attach_config_listener ::
  "'s partitioned_block_store \<Rightarrow> partition_config_listener option \<Rightarrow> 's partitioned_block_store" where
  "partitioned_block_store_attach_config_listener p listener = p\<lparr>pbs_config_listener := listener\<rparr>"

text \<open>Attributes and owner are ignored by the code.\<close>

definition partitioned_block_store_add_partition ::
  "'s partitioned_block_store \<Rightarrow> uuid_octets option \<Rightarrow> lba_t \<Rightarrow> lba_t \<Rightarrow> nat \<Rightarrow> bytes option \<Rightarrow>
    bool \<times> 's partitioned_block_store" where
  "partitioned_block_store_add_partition p partition_guid starting_lba ending_lba attributes owner =
     (if PARTITIONED_BLOCK_STORE_MAX_PARTITIONS \<le> pbs_num_partitions p then (False, p)
      else if ending_lba < starting_lba \<or> spi_num_blocks (pbs_back_store_info p) \<le> ending_lba
      then (False, p)
      else
        (let prt = (storage_partition_init partition_guid (add64 (sub64 ending_lba starting_lba) 1)
                      (spi_block_size (pbs_back_store_info p)))\<lparr>prt_base_lba := starting_lba\<rparr>
         in (True, p\<lparr>pbs_storage_partition := (pbs_storage_partition p)[pbs_num_partitions p := prt],
                     pbs_num_partitions := pbs_num_partitions p + 1\<rparr>)))"

definition partitioned_block_store_get_back_store_info ::
  "'s partitioned_block_store \<Rightarrow> storage_partition_info" where
  "partitioned_block_store_get_back_store_info p = pbs_back_store_info p"



section \<open>Well-formed partition tables\<close>

definition extents_disjoint :: "storage_partition \<Rightarrow> storage_partition \<Rightarrow> bool" where
  "extents_disjoint p q \<longleftrightarrow>
     prt_base_lba p + prt_num_blocks p \<le> prt_base_lba q \<or> prt_base_lba q + prt_num_blocks q \<le> prt_base_lba p"

text \<open>The first \<open>n\<close> entries lie in the back store and do not overlap; nobody has access to the
  other entries.\<close>

definition table_ok :: "storage_partition_info \<Rightarrow> nat \<Rightarrow> storage_partition list \<Rightarrow> bool" where
  "table_ok info n ps \<longleftrightarrow>
     length ps = PARTITIONED_BLOCK_STORE_MAX_PARTITIONS \<and> n \<le> PARTITIONED_BLOCK_STORE_MAX_PARTITIONS
     \<and> (\<forall>i < PARTITIONED_BLOCK_STORE_MAX_PARTITIONS. acl_ok (prt_acl (ps ! i)))
     \<and> (\<forall>i. n \<le> i \<and> i < PARTITIONED_BLOCK_STORE_MAX_PARTITIONS \<longrightarrow> acl_members (prt_acl (ps ! i)) = {})
     \<and> (\<forall>i < n. prt_block_size (ps ! i) = spi_block_size info
                \<and> prt_base_lba (ps ! i) + prt_num_blocks (ps ! i) \<le> spi_num_blocks info)
     \<and> (\<forall>i < n. \<forall>j < n. i \<noteq> j \<longrightarrow> extents_disjoint (ps ! i) (ps ! j))"

text \<open>What the store relies on of a configuration listener: it keeps the table well-formed and the
  partitions that are there.\<close>

definition listener_ok :: "partition_config_listener \<Rightarrow> bool" where
  "listener_ok l \<longleftrightarrow>
     (\<forall>n ps g info again n' ps'. table_ok info n ps \<longrightarrow> l n ps g info = (again, n', ps') \<longrightarrow>
        table_ok info n' ps' \<and> n \<le> n' \<and> (\<forall>i < n. ps' ! i = ps ! i))"

definition pbs_acc :: "'s partitioned_block_store \<Rightarrow> u32 \<Rightarrow> storage_partition_handle_t \<Rightarrow> psa_status" where
  "pbs_acc p c h =
     (if PARTITIONED_BLOCK_STORE_MAX_PARTITIONS \<le> unat h then PSA_ERROR_INVALID_ARGUMENT
      else if c \<in> acl_members (prt_acl (pbs_storage_partition p ! unat h)) then PSA_SUCCESS
      else PSA_ERROR_NOT_PERMITTED)"

definition pbs_nblocks :: "'s partitioned_block_store \<Rightarrow> storage_partition_handle_t \<Rightarrow> nat" where
  "pbs_nblocks p h = prt_num_blocks (pbs_storage_partition p ! unat h)"

definition pbs_bsize :: "'s partitioned_block_store \<Rightarrow> storage_partition_handle_t \<Rightarrow> nat" where
  "pbs_bsize p h = prt_block_size (pbs_storage_partition p ! unat h)"

definition pbs_base :: "'s partitioned_block_store \<Rightarrow> storage_partition_handle_t \<Rightarrow> nat" where
  "pbs_base p h = prt_base_lba (pbs_storage_partition p ! unat h)"

text \<open>The contents of a partition are an extent of the contents of the back store.\<close>

definition pbs_contents ::
  "('s \<Rightarrow> storage_partition_handle_t \<Rightarrow> bytes) \<Rightarrow> 's partitioned_block_store \<Rightarrow>
    storage_partition_handle_t \<Rightarrow> bytes" where
  "pbs_contents back_contents p h =
     slice (back_contents (pbs_back_store p) (pbs_back_store_handle p))
       (pbs_base p h * pbs_bsize p h) (pbs_nblocks p h * pbs_bsize p h)"

definition pbs_inv ::
  "('s \<Rightarrow> bool) \<Rightarrow> ('s \<Rightarrow> u32 \<Rightarrow> storage_partition_handle_t \<Rightarrow> psa_status) \<Rightarrow>
    ('s \<Rightarrow> storage_partition_handle_t \<Rightarrow> nat) \<Rightarrow> ('s \<Rightarrow> storage_partition_handle_t \<Rightarrow> nat) \<Rightarrow>
    's partitioned_block_store \<Rightarrow> bool" where
  "pbs_inv back_inv back_acc back_nblocks back_bsize p \<longleftrightarrow>
     back_inv (pbs_back_store p)
     \<and> back_acc (pbs_back_store p) (pbs_local_client_id p) (pbs_back_store_handle p) = PSA_SUCCESS
     \<and> back_nblocks (pbs_back_store p) (pbs_back_store_handle p) = spi_num_blocks (pbs_back_store_info p)
     \<and> back_bsize (pbs_back_store p) (pbs_back_store_handle p) = spi_block_size (pbs_back_store_info p)
     \<and> table_ok (pbs_back_store_info p) (pbs_num_partitions p) (pbs_storage_partition p)
     \<and> (\<forall>l. pbs_config_listener p = Some l \<longrightarrow> listener_ok l)"

lemma validate_partition_request_eq:
  assumes "length (pbs_storage_partition p) = PARTITIONED_BLOCK_STORE_MAX_PARTITIONS"
  shows "validate_partition_request p c h =
    Some (pbs_acc p c h,
          if pbs_acc p c h = PSA_SUCCESS then Some (pbs_storage_partition p ! unat h) else None)"
proof (cases "unat h < PARTITIONED_BLOCK_STORE_MAX_PARTITIONS")
  case True
  then have "array_get (pbs_storage_partition p) (uint h) = Some (pbs_storage_partition p ! unat h)"
    using assms array_get_int [of "unat h" "pbs_storage_partition p"] by simp
  with True show ?thesis
    by (simp add: validate_partition_request_def pbs_acc_def Let_def access_permitted_members)
next
  case False
  then show ?thesis
    by (simp add: validate_partition_request_def pbs_acc_def)
qed

lemma pbs_acc_success:
  assumes "table_ok info (pbs_num_partitions p) (pbs_storage_partition p)" and "pbs_acc p c h = PSA_SUCCESS"
  shows "unat h < pbs_num_partitions p" and "c \<in> acl_members (prt_acl (pbs_storage_partition p ! unat h))"
    and "pbs_bsize p h = spi_block_size info" and "pbs_base p h + pbs_nblocks p h \<le> spi_num_blocks info"
proof -
  have lt: "unat h < PARTITIONED_BLOCK_STORE_MAX_PARTITIONS"
    and m: "c \<in> acl_members (prt_acl (pbs_storage_partition p ! unat h))"
    using assms(2) by (auto simp: pbs_acc_def split: if_splits)
  show "c \<in> acl_members (prt_acl (pbs_storage_partition p ! unat h))" by (rule m)
  show n: "unat h < pbs_num_partitions p"
  proof (rule ccontr)
    assume "\<not> unat h < pbs_num_partitions p"
    with assms(1) lt have "acl_members (prt_acl (pbs_storage_partition p ! unat h)) = {}"
      by (simp add: table_ok_def not_less)
    with m show False by simp
  qed
  show "pbs_bsize p h = spi_block_size info" "pbs_base p h + pbs_nblocks p h \<le> spi_num_blocks info"
    using assms(1) n by (auto simp: table_ok_def pbs_bsize_def pbs_base_def pbs_nblocks_def)
qed

lemma find_guid_from_Some:
  "find_guid_from ps g i = Some k \<Longrightarrow> i \<le> k \<and> k < i + length ps \<and> prt_guid (ps ! (k - i)) = g"
proof (induction ps arbitrary: i)
  case Nil
  then show ?case by simp
next
  case (Cons p ps)
  show ?case
  proof (cases "storage_partition_is_guid_matched p g")
    case True
    then show ?thesis
      using Cons.prems by (auto simp: storage_partition_is_guid_matched_def)
  next
    case False
    then have "find_guid_from ps g (Suc i) = Some k"
      using Cons.prems by simp
    from Cons.IH [OF this] have *: "Suc i \<le> k" "k < Suc i + length ps" "prt_guid (ps ! (k - Suc i)) = g"
      by simp_all
    then have "k - i = Suc (k - Suc i)"
      by simp
    with * show ?thesis by simp
  qed
qed

lemma find_guid_Some:
  assumes "find_guid p g = Some i" and "table_ok info (pbs_num_partitions p) (pbs_storage_partition p)"
  shows "i < pbs_num_partitions p" and "i < length (pbs_storage_partition p)"
    and "i < PARTITIONED_BLOCK_STORE_MAX_PARTITIONS"
  using find_guid_from_Some [OF assms(1) [unfolded find_guid_def]] assms(2)
  by (auto simp: table_ok_def)

text \<open>The lookup changes at most the table, and only by adding partitions.\<close>

definition table_grows :: "'s partitioned_block_store \<Rightarrow> 's partitioned_block_store \<Rightarrow> bool" where
  "table_grows p p' \<longleftrightarrow>
     pbs_num_partitions p \<le> pbs_num_partitions p'
     \<and> (\<forall>i < pbs_num_partitions p. pbs_storage_partition p' ! i = pbs_storage_partition p ! i)
     \<and> pbs_back_store p' = pbs_back_store p \<and> pbs_back_store_handle p' = pbs_back_store_handle p"

lemma find_by_partition_guid_facts:
  assumes inv: "pbs_inv bi ba bn bb p" and f: "find_by_partition_guid p g = (st, i, p')"
  shows "pbs_inv bi ba bn bb p'" and "table_grows p p'"
    and "st = PSA_SUCCESS \<or> st = PSA_ERROR_INVALID_ARGUMENT"
    and "st = PSA_SUCCESS \<Longrightarrow> find_guid p' g = Some i"
    and "pbs_authorizer p' = pbs_authorizer p"
proof -
  have t: "table_ok (pbs_back_store_info p) (pbs_num_partitions p) (pbs_storage_partition p)"
    using inv by (simp add: pbs_inv_def)
  consider (found) "find_guid p g = Some i" "p' = p" "st = PSA_SUCCESS"
    | (none) "p' = p" "st = PSA_ERROR_INVALID_ARGUMENT"
    | (listener) l again n ps where "pbs_config_listener p = Some l"
        "l (pbs_num_partitions p) (pbs_storage_partition p) g (pbs_back_store_info p) = (again, n, ps)"
        "p' = p\<lparr>pbs_num_partitions := n, pbs_storage_partition := ps\<rparr>"
        "st = PSA_ERROR_INVALID_ARGUMENT \<or> st = PSA_SUCCESS \<and> find_guid p' g = Some i"
  proof (cases "find_guid p g")
    case (Some k)
    then have "find_guid p g = Some i \<and> p' = p \<and> st = PSA_SUCCESS"
      using f by (auto simp: find_by_partition_guid_def)
    then show ?thesis
      using that(1) by blast
  next
    case no: None
    show ?thesis
    proof (cases "pbs_config_listener p")
      case None
      then have "p' = p \<and> st = PSA_ERROR_INVALID_ARGUMENT"
        using f no by (auto simp: find_by_partition_guid_def)
      then show ?thesis
        using that(2) by blast
    next
      case (Some l)
      obtain again n ps where l:
        "l (pbs_num_partitions p) (pbs_storage_partition p) g (pbs_back_store_info p) = (again, n, ps)"
        by (metis prod_cases3)
      let ?p = "p\<lparr>pbs_num_partitions := n, pbs_storage_partition := ps\<rparr>"
      have "p' = ?p" "st = PSA_ERROR_INVALID_ARGUMENT \<or> st = PSA_SUCCESS \<and> find_guid ?p g = Some i"
        using f no Some l
        by (cases again; cases "find_guid ?p g"; simp add: find_by_partition_guid_def Let_def)+
      then show ?thesis
        using that(3) [OF Some l] by blast
    qed
  qed
  note cs = this
  have main: "pbs_inv bi ba bn bb p' \<and> table_grows p p' \<and> (st = PSA_SUCCESS \<or> st = PSA_ERROR_INVALID_ARGUMENT)
    \<and> (st = PSA_SUCCESS \<longrightarrow> find_guid p' g = Some i) \<and> pbs_authorizer p' = pbs_authorizer p"
    using cs
  proof cases
    case found
    then show ?thesis using inv by (simp add: table_grows_def)
  next
    case none
    then show ?thesis using inv by (simp add: table_grows_def)
  next
    case listener
    then have "listener_ok l"
      using inv by (simp add: pbs_inv_def)
    then have "table_ok (pbs_back_store_info p) n ps \<and> pbs_num_partitions p \<le> n
      \<and> (\<forall>i < pbs_num_partitions p. ps ! i = pbs_storage_partition p ! i)"
      using t listener(2) unfolding listener_ok_def by blast
    then show ?thesis
      using inv listener(3,4) by (auto simp: pbs_inv_def table_grows_def)
  qed
  then show "pbs_inv bi ba bn bb p'" "table_grows p p'"
    "st = PSA_SUCCESS \<or> st = PSA_ERROR_INVALID_ARGUMENT"
    "st = PSA_SUCCESS \<Longrightarrow> find_guid p' g = Some i" "pbs_authorizer p' = pbs_authorizer p"
    by simp_all
qed

lemma table_grows_kept:
  assumes "pbs_inv bi ba bn bb p" and "table_grows p p'" and "pbs_acc p c h = PSA_SUCCESS"
  shows "pbs_acc p' c h = PSA_SUCCESS" and "pbs_nblocks p' h = pbs_nblocks p h"
    and "pbs_bsize p' h = pbs_bsize p h" and "pbs_contents bc p' h = pbs_contents bc p h"
proof -
  have "unat h < pbs_num_partitions p"
    using assms(1,3) pbs_acc_success(1) by (auto simp: pbs_inv_def)
  then have "pbs_storage_partition p' ! unat h = pbs_storage_partition p ! unat h"
    and "pbs_back_store p' = pbs_back_store p" "pbs_back_store_handle p' = pbs_back_store_handle p"
    using assms(2) by (auto simp: table_grows_def)
  then show "pbs_acc p' c h = PSA_SUCCESS" "pbs_nblocks p' h = pbs_nblocks p h"
    "pbs_bsize p' h = pbs_bsize p h" "pbs_contents bc p' h = pbs_contents bc p h"
    using assms(3) by (simp_all add: pbs_acc_def pbs_nblocks_def pbs_bsize_def pbs_contents_def
        pbs_base_def split: if_splits)
qed

text \<open>Opening replaces the access list of one configured entry.\<close>

lemma table_ok_acl:
  assumes "table_ok info n ps" and "i < n" and "acl_ok acl"
  shows "table_ok info n (ps[i := (ps ! i)\<lparr>prt_acl := acl\<rparr>])"
  using assms by (auto simp: table_ok_def nth_update_if extents_disjoint_def)


lemma handle_index: "i < PARTITIONED_BLOCK_STORE_MAX_PARTITIONS \<Longrightarrow> unat (of_nat i :: u32) = i"
  by (simp add: unat_of_nat)

lemma partitioned_open_found:
  assumes inv: "pbs_inv bi ba bn bb p" and fg: "find_guid p g = Some i"
  obtains st acl p' where "partitioned_block_store_open p c g = Some (st, if st = PSA_SUCCESS then of_nat i else 0, p')"
    and "p' = p\<lparr>pbs_storage_partition := (pbs_storage_partition p)[i := (pbs_storage_partition p ! i)\<lparr>prt_acl := acl\<rparr>]\<rparr>"
    and "acl_ok acl" and "acl_members acl
      = (if st = PSA_SUCCESS then insert c (acl_members (prt_acl (pbs_storage_partition p ! i)))
         else acl_members (prt_acl (pbs_storage_partition p ! i)))"
proof -
  have t: "table_ok (pbs_back_store_info p) (pbs_num_partitions p) (pbs_storage_partition p)"
    using inv by (simp add: pbs_inv_def)
  note i = find_guid_Some [OF fg t]
  let ?q = "pbs_storage_partition p ! i"
  obtain ok acl where a: "storage_partition_acl_authorize (prt_acl ?q) c (pbs_authorizer p) = (ok, acl)"
    by fastforce
  have "acl_ok (prt_acl ?q)"
    using t i by (simp add: table_ok_def)
  note f = acl_authorize_ok [OF this a]
  have "find_by_partition_guid p g = (PSA_SUCCESS, i, p)"
    using fg by (simp add: find_by_partition_guid_def)
  then have "partitioned_block_store_open p c g =
      Some (if ok then PSA_SUCCESS else PSA_ERROR_NOT_PERMITTED, if ok then of_nat i else 0,
        p\<lparr>pbs_storage_partition := (pbs_storage_partition p)[i := ?q\<lparr>prt_acl := acl\<rparr>]\<rparr>)"
    using a i(2) by (simp add: partitioned_block_store_open_def array_get_int Let_def
        storage_partition_is_open_permitted_def)
  then show ?thesis
    using that [of "if ok then PSA_SUCCESS else PSA_ERROR_NOT_PERMITTED"] f by (cases ok) simp_all
qed

lemma pbs_inv_acl:
  assumes "pbs_inv bi ba bn bb p" and "i < pbs_num_partitions p" and "acl_ok acl"
  shows "pbs_inv bi ba bn bb
    (p\<lparr>pbs_storage_partition := (pbs_storage_partition p)[i := (pbs_storage_partition p ! i)\<lparr>prt_acl := acl\<rparr>]\<rparr>)"
  using assms table_ok_acl by (simp add: pbs_inv_def)

lemma pbs_acl_kept:
  assumes "acl_members (prt_acl (pbs_storage_partition p ! i)) \<subseteq> acl_members acl"
    and "p' = p\<lparr>pbs_storage_partition := (pbs_storage_partition p)[i := (pbs_storage_partition p ! i)\<lparr>prt_acl := acl\<rparr>]\<rparr>"
  shows "pbs_acc p c h = PSA_SUCCESS \<Longrightarrow> pbs_acc p' c h = PSA_SUCCESS"
    and "pbs_nblocks p' h = pbs_nblocks p h" and "pbs_bsize p' h = pbs_bsize p h"
    and "pbs_contents bc p' h = pbs_contents bc p h"
  using assms
  by (auto simp: pbs_acc_def pbs_nblocks_def pbs_bsize_def pbs_contents_def pbs_base_def nth_update_if
      split: if_splits)

text \<open>Opening, with or without a configuration on demand.\<close>

lemma partitioned_open_facts:
  assumes inv: "pbs_inv bi ba bn bb p"
  obtains st h p' where "partitioned_block_store_open p c g = Some (st, h, p')"
    and "pbs_inv bi ba bn bb p'" and "extent_kept pbs_acc pbs_nblocks pbs_bsize p p'"
    and "contents_kept pbs_acc (pbs_contents bc) {} p p'"
    and "st = PSA_SUCCESS \<Longrightarrow> pbs_acc p' c h = PSA_SUCCESS"
proof -
  obtain st1 i p1 where f: "find_by_partition_guid p g = (st1, i, p1)"
    by (metis prod_cases3)
  note ff = find_by_partition_guid_facts [OF inv f]
  note grow = table_grows_kept [OF inv ff(2)]
  show ?thesis
  proof (cases "st1 = PSA_SUCCESS")
    case False
    then have "partitioned_block_store_open p c g = Some (st1, 0, p1)"
      using f by (simp add: partitioned_block_store_open_def)
    then show ?thesis
      using that False ff(1) grow by (simp add: extent_kept_def contents_kept_def)
  next
    case True
    then have fg: "find_guid p1 g = Some i"
      using ff(4) by simp
    have t: "table_ok (pbs_back_store_info p1) (pbs_num_partitions p1) (pbs_storage_partition p1)"
      using ff(1) by (simp add: pbs_inv_def)
    note il = find_guid_Some [OF fg t]
    obtain st acl p' where o: "partitioned_block_store_open p1 c g = Some (st, if st = PSA_SUCCESS then of_nat i else 0, p')"
      and p': "p' = p1\<lparr>pbs_storage_partition := (pbs_storage_partition p1)[i := (pbs_storage_partition p1 ! i)\<lparr>prt_acl := acl\<rparr>]\<rparr>"
      and acl: "acl_ok acl" and m: "acl_members acl
      = (if st = PSA_SUCCESS then insert c (acl_members (prt_acl (pbs_storage_partition p1 ! i)))
         else acl_members (prt_acl (pbs_storage_partition p1 ! i)))"
      by (rule partitioned_open_found [OF ff(1) fg])
    have "find_by_partition_guid p1 g = (PSA_SUCCESS, i, p1)"
      using fg by (simp add: find_by_partition_guid_def)
    then have o': "partitioned_block_store_open p c g = Some (st, if st = PSA_SUCCESS then of_nat i else 0, p')"
      using o f True by (simp add: partitioned_block_store_open_def)
    have sub: "acl_members (prt_acl (pbs_storage_partition p1 ! i)) \<subseteq> acl_members acl"
      using m by (simp add: subset_insertI split: if_splits)
    note kept = pbs_acl_kept [OF sub p']
    have "st = PSA_SUCCESS \<Longrightarrow> pbs_acc p' c (of_nat i) = PSA_SUCCESS"
      using m p' il by (simp add: pbs_acc_def handle_index)
    then show ?thesis
      using that [OF o'] pbs_inv_acl [OF ff(1) il(1) acl] grow kept p'
      by (simp add: extent_kept_def contents_kept_def)
  qed
qed

text \<open>Asking for information, and opening right after it.\<close>

lemma partitioned_info_facts:
  assumes inv: "pbs_inv bi ba bn bb p"
  obtains st io p' where "partitioned_block_store_get_partition_info p g = Some (st, io, p')"
    and "pbs_inv bi ba bn bb p'" and "extent_kept pbs_acc pbs_nblocks pbs_bsize p p'"
    and "contents_kept pbs_acc (pbs_contents bc) {} p p'" and "st = PSA_SUCCESS \<longleftrightarrow> io \<noteq> None"
    and "\<And>info. io = Some info \<Longrightarrow> (\<exists>i. find_guid p' g = Some i
        \<and> prt_num_blocks (pbs_storage_partition p' ! i) = spi_num_blocks info
        \<and> prt_block_size (pbs_storage_partition p' ! i) = spi_block_size info)"
proof -
  obtain st1 i p1 where f: "find_by_partition_guid p g = (st1, i, p1)"
    by (metis prod_cases3)
  note ff = find_by_partition_guid_facts [OF inv f]
  note grow = table_grows_kept [OF inv ff(2)]
  show ?thesis
  proof (cases "st1 = PSA_SUCCESS")
    case False
    then have "partitioned_block_store_get_partition_info p g = Some (st1, None, p1)"
      using f by (simp add: partitioned_block_store_get_partition_info_def)
    then show ?thesis
      using that False ff(1) grow by (simp add: extent_kept_def contents_kept_def)
  next
    case True
    then have fg: "find_guid p1 g = Some i"
      using ff(4) by simp
    have "table_ok (pbs_back_store_info p1) (pbs_num_partitions p1) (pbs_storage_partition p1)"
      using ff(1) by (simp add: pbs_inv_def)
    note il = find_guid_Some [OF fg this]
    have "partitioned_block_store_get_partition_info p g = Some (PSA_SUCCESS,
        Some \<lparr>spi_num_blocks = prt_num_blocks (pbs_storage_partition p1 ! i),
              spi_block_size = prt_block_size (pbs_storage_partition p1 ! i),
              spi_partition_guid = prt_guid (pbs_storage_partition p1 ! i),
              spi_parent_guid = spi_partition_guid (pbs_back_store_info p1)\<rparr>, p1)"
      using f True il by (simp add: partitioned_block_store_get_partition_info_def array_get_int)
    then show ?thesis
      using that ff(1) grow fg by (fastforce simp: extent_kept_def contents_kept_def)
  qed
qed



section \<open>A partitioned store over any store that keeps the contract\<close>

text \<open>\<open>partitioned_back\<close> is the contract of the back store, under a name of its own: every store
  that keeps it gives a partitioned store that keeps the contract again.\<close>

locale partitioned_back = block_store_contents
begin

lemma part_facts:
  assumes inv: "pbs_inv store_inv acc nblocks bsize p" and a: "pbs_acc p c h = PSA_SUCCESS"
  shows "nblocks (pbs_back_store p) (pbs_back_store_handle p) * pbs_bsize p h < 2 ^ 64"
    and "nblocks (pbs_back_store p) (pbs_back_store_handle p) < 2 ^ 64"
    and "pbs_base p h + pbs_nblocks p h \<le> nblocks (pbs_back_store p) (pbs_back_store_handle p)"
    and "pbs_bsize p h = bsize (pbs_back_store p) (pbs_back_store_handle p)"
    and "pbs_base p h * pbs_bsize p h + pbs_nblocks p h * pbs_bsize p h
      \<le> length (contents (pbs_back_store p) (pbs_back_store_handle p))"
    and "store_inv (pbs_back_store p)"
    and "acc (pbs_back_store p) (pbs_local_client_id p) (pbs_back_store_handle p) = PSA_SUCCESS"
    and "pbs_nblocks p h * pbs_bsize p h < 2 ^ 64"
proof -
  let ?s = "pbs_back_store p" and ?hb = "pbs_back_store_handle p"
  have t: "table_ok (pbs_back_store_info p) (pbs_num_partitions p) (pbs_storage_partition p)"
    and si: "store_inv ?s" and sa: "acc ?s (pbs_local_client_id p) ?hb = PSA_SUCCESS"
    and n: "nblocks ?s ?hb = spi_num_blocks (pbs_back_store_info p)"
    and b: "bsize ?s ?hb = spi_block_size (pbs_back_store_info p)"
    using inv by (simp_all add: pbs_inv_def)
  note f = pbs_acc_success [OF t a]
  show "store_inv ?s" "acc ?s (pbs_local_client_id p) ?hb = PSA_SUCCESS" by (rule si, rule sa)
  show pb: "pbs_bsize p h = bsize ?s ?hb" and le: "pbs_base p h + pbs_nblocks p h \<le> nblocks ?s ?hb"
    using f(3,4) n b by simp_all
  show "nblocks ?s ?hb < 2 ^ 64" and lt: "nblocks ?s ?hb * pbs_bsize p h < 2 ^ 64"
    using extent_bound [OF si sa] pb by simp_all
  have "(pbs_base p h + pbs_nblocks p h) * pbs_bsize p h \<le> nblocks ?s ?hb * pbs_bsize p h"
    using le by (rule mult_le_mono1)
  then have le2: "pbs_base p h * pbs_bsize p h + pbs_nblocks p h * pbs_bsize p h \<le> nblocks ?s ?hb * pbs_bsize p h"
    by (simp add: add_mult_distrib)
  then show "pbs_base p h * pbs_bsize p h + pbs_nblocks p h * pbs_bsize p h \<le> length (contents ?s ?hb)"
    using contents_extent [OF si sa] pb by simp
  show "pbs_nblocks p h * pbs_bsize p h < 2 ^ 64"
    using le2 lt by linarith
qed

lemma part_read:
  assumes inv: "pbs_inv store_inv acc nblocks bsize p"
  obtains d p' where "partitioned_block_store_read (Some iface) p c h lba off n
      = Some (io_status (pbs_acc p c h) (pbs_nblocks p h) (pbs_bsize p h) lba off, d, p')"
    and "pbs_inv store_inv acc nblocks bsize p'" and "extent_kept pbs_acc pbs_nblocks pbs_bsize p p'"
    and "contents_kept pbs_acc (pbs_contents contents) {} p p'"
    and "d = (if io_status (pbs_acc p c h) (pbs_nblocks p h) (pbs_bsize p h) lba off = PSA_SUCCESS
      then slice (pbs_contents contents p h) (lba * pbs_bsize p h + off) (min n (pbs_bsize p h - off)) else [])"
proof (cases "pbs_acc p c h = PSA_SUCCESS \<and> lba < pbs_nblocks p h")
  case False
  have len: "length (pbs_storage_partition p) = PARTITIONED_BLOCK_STORE_MAX_PARTITIONS"
    using inv by (simp add: pbs_inv_def table_ok_def)
  have "partitioned_block_store_read (Some iface) p c h lba off n
      = Some (io_status (pbs_acc p c h) (pbs_nblocks p h) (pbs_bsize p h) lba off, [], p)"
    using False by (auto simp: partitioned_block_store_read_def validate_partition_request_eq [OF len]
        io_status_def storage_partition_is_lba_legal_def pbs_nblocks_def)
  then show ?thesis
    using that [of "[]" p] inv False by (auto simp: io_status_def)
next
  case True
  then have a: "pbs_acc p c h = PSA_SUCCESS" and l: "lba < pbs_nblocks p h" by simp_all
  have len: "length (pbs_storage_partition p) = PARTITIONED_BLOCK_STORE_MAX_PARTITIONS"
    using inv by (simp add: pbs_inv_def table_ok_def)
  let ?s = "pbs_back_store p" and ?hb = "pbs_back_store_handle p" and ?q = "pbs_storage_partition p ! unat h"
  let ?st = "io_status (pbs_acc p c h) (pbs_nblocks p h) (pbs_bsize p h) lba off"
  let ?n = "storage_partition_clip_length ?q lba off n"
  note f = part_facts [OF inv a]
  have base: "add64 (prt_base_lba ?q) lba = pbs_base p h + lba"
    using f(2,3) l by (simp add: arith64 pbs_base_def)
  have st: "io_status (acc ?s (pbs_local_client_id p) ?hb) (nblocks ?s ?hb) (bsize ?s ?hb) (pbs_base p h + lba) off = ?st"
    using a l f(3,4,7) by (simp add: io_status_def)
  obtain d s' where r: "bsi_read iface ?s (pbs_local_client_id p) ?hb (pbs_base p h + lba) off ?n = Some (?st, d, s')"
    and s': "store_inv s'" "extent_kept acc nblocks bsize ?s s'"
    and dl: "length d = (if ?st = PSA_SUCCESS then min ?n (bsize ?s ?hb - off) else 0)"
    using read_returns [OF f(6), of "pbs_local_client_id p" ?hb "pbs_base p h + lba" off ?n] st by auto
  have sk: "contents s' ?hb = contents ?s ?hb"
    and d: "?st = PSA_SUCCESS \<Longrightarrow> d = slice (contents ?s ?hb) ((pbs_base p h + lba) * bsize ?s ?hb + off) (min ?n (bsize ?s ?hb - off))"
    using read_gives [OF f(6) r] f(7) by (auto simp: contents_kept_def)
  let ?p = "p\<lparr>pbs_back_store := s'\<rparr>"
  have eq: "partitioned_block_store_read (Some iface) p c h lba off n = Some (?st, d, ?p)"
    using a l r by (simp add: partitioned_block_store_read_def validate_partition_request_eq [OF len]
        storage_partition_is_lba_legal_def pbs_nblocks_def block_store_read_def base Let_def)
  have dd: "d = (if ?st = PSA_SUCCESS then slice (pbs_contents contents p h) (lba * pbs_bsize p h + off) (min n (pbs_bsize p h - off)) else [])"
  proof (cases "?st = PSA_SUCCESS")
    case True
    then have o: "off < pbs_bsize p h"
      by (auto simp: io_status_def split: if_splits)
    have mn: "min ?n (pbs_bsize p h - off) = min n (pbs_bsize p h - off)"
      using clip_length_within_block [of lba ?q off n] l o f(8)
      by (simp add: pbs_nblocks_def pbs_bsize_def)
    have "(lba + 1) * pbs_bsize p h \<le> pbs_nblocks p h * pbs_bsize p h"
      using l by (intro mult_le_mono1) simp
    then have "lba * pbs_bsize p h + off + min n (pbs_bsize p h - off) \<le> pbs_nblocks p h * pbs_bsize p h"
      using o by simp
    then show ?thesis
      using d True f(4) mn
      by (simp add: pbs_contents_def slice_slice add_mult_distrib add.assoc)
  next
    case False
    then show ?thesis using dl by simp
  qed
  have inv': "pbs_inv store_inv acc nblocks bsize ?p"
    using inv s' f(7) by (auto simp: pbs_inv_def extent_kept_def)
  have "extent_kept pbs_acc pbs_nblocks pbs_bsize p ?p"
    by (simp add: extent_kept_def pbs_acc_def pbs_nblocks_def pbs_bsize_def)
  moreover have "contents_kept pbs_acc (pbs_contents contents) {} p ?p"
    using sk by (simp add: contents_kept_def pbs_contents_def pbs_base_def pbs_nblocks_def pbs_bsize_def)
  ultimately show ?thesis
    using that [OF eq inv'] dd by simp
qed

text \<open>A change inside one partition leaves the others alone.\<close>

lemma part_disjoint:
  assumes inv: "pbs_inv store_inv acc nblocks bsize p" and a: "pbs_acc p c h = PSA_SUCCESS"
    and a': "pbs_acc p c' h' = PSA_SUCCESS" and ne: "h' \<noteq> h"
    and x: "x + length d \<le> pbs_nblocks p h * pbs_bsize p h"
  shows "slice (splice (contents (pbs_back_store p) (pbs_back_store_handle p)) (pbs_base p h * pbs_bsize p h + x) d)
      (pbs_base p h' * pbs_bsize p h') (pbs_nblocks p h' * pbs_bsize p h')
    = slice (contents (pbs_back_store p) (pbs_back_store_handle p))
      (pbs_base p h' * pbs_bsize p h') (pbs_nblocks p h' * pbs_bsize p h')"
proof -
  have t: "table_ok (pbs_back_store_info p) (pbs_num_partitions p) (pbs_storage_partition p)"
    using inv by (simp add: pbs_inv_def)
  note f = pbs_acc_success [OF t a] and f' = pbs_acc_success [OF t a']
  have "unat h' \<noteq> unat h"
    using ne unsigned_word_eqI by blast
  then have "extents_disjoint (pbs_storage_partition p ! unat h) (pbs_storage_partition p ! unat h')"
    using t f(1) f'(1) unfolding table_ok_def by metis
  then have "pbs_base p h + pbs_nblocks p h \<le> pbs_base p h' \<or> pbs_base p h' + pbs_nblocks p h' \<le> pbs_base p h"
    by (simp add: extents_disjoint_def pbs_base_def pbs_nblocks_def)
  moreover have bs: "pbs_bsize p h' = pbs_bsize p h"
    using f(3) f'(3) by simp
  ultimately have "(pbs_base p h + pbs_nblocks p h) * pbs_bsize p h \<le> pbs_base p h' * pbs_bsize p h
      \<or> (pbs_base p h' + pbs_nblocks p h') * pbs_bsize p h \<le> pbs_base p h * pbs_bsize p h"
    by (auto intro: mult_le_mono1)
  then have "pbs_base p h' * pbs_bsize p h' + pbs_nblocks p h' * pbs_bsize p h' \<le> pbs_base p h * pbs_bsize p h + x
      \<or> pbs_base p h * pbs_bsize p h + x + length d \<le> pbs_base p h' * pbs_bsize p h'"
    using bs x by (simp add: add_mult_distrib) linarith
  moreover have "pbs_base p h * pbs_bsize p h + x + length d
      \<le> length (contents (pbs_back_store p) (pbs_back_store_handle p))"
    using part_facts(5) [OF inv a] x by simp
  ultimately show ?thesis
    using part_facts(5) [OF inv a'] by (intro slice_splice_disjoint)
qed

text \<open>The back store after a change of the bytes \<open>x ..< x + length d\<close> of partition \<open>h\<close>.\<close>

lemma part_change:
  assumes inv: "pbs_inv store_inv acc nblocks bsize p" and a: "pbs_acc p c h = PSA_SUCCESS"
    and s': "store_inv s'" "extent_kept acc nblocks bsize (pbs_back_store p) s'"
    and x: "x + length d \<le> pbs_nblocks p h * pbs_bsize p h"
    and cont: "contents s' (pbs_back_store_handle p)
      = splice (contents (pbs_back_store p) (pbs_back_store_handle p)) (pbs_base p h * pbs_bsize p h + x) d"
  shows "pbs_inv store_inv acc nblocks bsize (p\<lparr>pbs_back_store := s'\<rparr>)"
    and "contents_kept pbs_acc (pbs_contents contents) {h} p (p\<lparr>pbs_back_store := s'\<rparr>)"
    and "pbs_contents contents (p\<lparr>pbs_back_store := s'\<rparr>) h = splice (pbs_contents contents p h) x d"
proof -
  note f = part_facts [OF inv a]
  show "pbs_inv store_inv acc nblocks bsize (p\<lparr>pbs_back_store := s'\<rparr>)"
    using inv s' f(7) by (auto simp: pbs_inv_def extent_kept_def)
  show "pbs_contents contents (p\<lparr>pbs_back_store := s'\<rparr>) h = splice (pbs_contents contents p h) x d"
    using splice_slice_of_part [OF f(5) x] cont
    by (simp add: pbs_contents_def pbs_base_def pbs_nblocks_def pbs_bsize_def)
  show "contents_kept pbs_acc (pbs_contents contents) {h} p (p\<lparr>pbs_back_store := s'\<rparr>)"
    using part_disjoint [OF inv a _ _ x] cont
    by (auto simp: contents_kept_def pbs_contents_def pbs_base_def pbs_nblocks_def pbs_bsize_def)
qed

lemma pbs_extent_back [simp]: "extent_kept pbs_acc pbs_nblocks pbs_bsize p (p\<lparr>pbs_back_store := s'\<rparr>)"
  by (simp add: extent_kept_def pbs_acc_def pbs_nblocks_def pbs_bsize_def)

lemma part_write:
  fixes p c h lba off d
  assumes inv: "pbs_inv store_inv acc nblocks bsize p"
  defines "st \<equiv> io_status (pbs_acc p c h) (pbs_nblocks p h) (pbs_bsize p h) lba off"
  obtains k p' where "partitioned_block_store_write (Some iface) p c h lba off d = Some (st, k, p')"
    and "pbs_inv store_inv acc nblocks bsize p'" and "extent_kept pbs_acc pbs_nblocks pbs_bsize p p'"
    and "st = PSA_SUCCESS \<Longrightarrow> k = min (length d) (pbs_bsize p h - off)
      \<and> contents_kept pbs_acc (pbs_contents contents) {h} p p'
      \<and> pbs_contents contents p' h = splice (pbs_contents contents p h) (lba * pbs_bsize p h + off) (take k d)"
    and "st \<noteq> PSA_SUCCESS \<Longrightarrow> contents_kept pbs_acc (pbs_contents contents) {} p p'"
proof (cases "pbs_acc p c h = PSA_SUCCESS \<and> lba < pbs_nblocks p h")
  case False
  have len: "length (pbs_storage_partition p) = PARTITIONED_BLOCK_STORE_MAX_PARTITIONS"
    using inv by (simp add: pbs_inv_def table_ok_def)
  have "partitioned_block_store_write (Some iface) p c h lba off d = Some (st, 0, p)"
    using False by (auto simp: partitioned_block_store_write_def validate_partition_request_eq [OF len]
        io_status_def st_def storage_partition_is_lba_legal_def pbs_nblocks_def)
  moreover have "st \<noteq> PSA_SUCCESS"
    using False by (auto simp: st_def io_status_def)
  ultimately show ?thesis
    using that inv by simp
next
  case True
  then have a: "pbs_acc p c h = PSA_SUCCESS" and l: "lba < pbs_nblocks p h" by simp_all
  have len: "length (pbs_storage_partition p) = PARTITIONED_BLOCK_STORE_MAX_PARTITIONS"
    using inv by (simp add: pbs_inv_def table_ok_def)
  let ?s = "pbs_back_store p" and ?hb = "pbs_back_store_handle p" and ?q = "pbs_storage_partition p ! unat h"
  let ?n = "storage_partition_clip_length ?q lba off (length d)"
  note f = part_facts [OF inv a]
  have base: "add64 (prt_base_lba ?q) lba = pbs_base p h + lba"
    using f(2,3) l by (simp add: arith64 pbs_base_def)
  have st: "io_status (acc ?s (pbs_local_client_id p) ?hb) (nblocks ?s ?hb) (bsize ?s ?hb) (pbs_base p h + lba) off = st"
    using a l f(3,4,7) by (simp add: io_status_def st_def)
  obtain k s' where w: "bsi_write iface ?s (pbs_local_client_id p) ?hb (pbs_base p h + lba) off (take ?n d) = Some (st, k, s')"
    and s': "store_inv s'" "extent_kept acc nblocks bsize ?s s'"
    and k: "st = PSA_SUCCESS \<Longrightarrow> k = min (length (take ?n d)) (bsize ?s ?hb - off)"
    using write_returns [OF f(6), of "pbs_local_client_id p" ?hb "pbs_base p h + lba" off "take ?n d"] st by auto
  let ?p = "p\<lparr>pbs_back_store := s'\<rparr>"
  have eq: "partitioned_block_store_write (Some iface) p c h lba off d = Some (st, k, ?p)"
    using a l w by (simp add: partitioned_block_store_write_def validate_partition_request_eq [OF len]
        storage_partition_is_lba_legal_def pbs_nblocks_def block_store_write_def base Let_def)
  show ?thesis
  proof (cases "st = PSA_SUCCESS")
    case True
    then have o: "off < pbs_bsize p h"
      by (auto simp: st_def io_status_def split: if_splits)
    have "min ?n (pbs_bsize p h - off) = min (length d) (pbs_bsize p h - off)"
      using clip_length_within_block [of lba ?q off "length d"] l o f(8)
      by (simp add: pbs_nblocks_def pbs_bsize_def)
    then have kk: "k = min (length d) (pbs_bsize p h - off)" "take k (take ?n d) = take k d"
      using k [OF True] f(4) by (auto simp: min_def)
    have "(lba + 1) * pbs_bsize p h \<le> pbs_nblocks p h * pbs_bsize p h"
      using l by (intro mult_le_mono1) simp
    then have x: "(lba * pbs_bsize p h + off) + length (take k d) \<le> pbs_nblocks p h * pbs_bsize p h"
      using o kk(1) by simp
    have "contents s' ?hb = splice (contents ?s ?hb) (pbs_base p h * pbs_bsize p h + (lba * pbs_bsize p h + off)) (take k d)"
      using write_puts [OF f(6) w] True kk(2) f(4) by (simp add: add_mult_distrib add.assoc)
    from part_change [OF inv a s' x this] show ?thesis
      using that [OF eq] kk(1) True by simp
  next
    case False
    then have sk: "contents s' ?hb = contents ?s ?hb"
      using write_puts [OF f(6) w] f(7) by (simp add: contents_kept_def)
    have "pbs_inv store_inv acc nblocks bsize ?p"
      using inv s' f(7) by (auto simp: pbs_inv_def extent_kept_def)
    moreover have "contents_kept pbs_acc (pbs_contents contents) {} p ?p"
      using sk by (simp add: contents_kept_def pbs_contents_def pbs_base_def pbs_nblocks_def pbs_bsize_def)
    ultimately show ?thesis
      using that [OF eq] False by simp
  qed
qed

lemma part_erase:
  fixes p c h lba n
  assumes inv: "pbs_inv store_inv acc nblocks bsize p"
  defines "st \<equiv> erase_status (pbs_acc p c h) (pbs_nblocks p h) lba"
  obtains p' where "partitioned_block_store_erase (Some iface) p c h lba n = Some (st, p')"
    and "pbs_inv store_inv acc nblocks bsize p'" and "extent_kept pbs_acc pbs_nblocks pbs_bsize p p'"
    and "st = PSA_SUCCESS \<Longrightarrow> contents_kept pbs_acc (pbs_contents contents) {h} p p'
      \<and> pbs_contents contents p' h = splice (pbs_contents contents p h) (lba * pbs_bsize p h)
          (replicate (min n (pbs_nblocks p h - lba) * pbs_bsize p h) erased)"
    and "st \<noteq> PSA_SUCCESS \<Longrightarrow> contents_kept pbs_acc (pbs_contents contents) {} p p'"
proof (cases "pbs_acc p c h = PSA_SUCCESS \<and> lba < pbs_nblocks p h")
  case False
  have len: "length (pbs_storage_partition p) = PARTITIONED_BLOCK_STORE_MAX_PARTITIONS"
    using inv by (simp add: pbs_inv_def table_ok_def)
  have "partitioned_block_store_erase (Some iface) p c h lba n = Some (st, p)"
    using False by (auto simp: partitioned_block_store_erase_def validate_partition_request_eq [OF len]
        erase_status_def st_def storage_partition_is_lba_legal_def pbs_nblocks_def)
  moreover have "st \<noteq> PSA_SUCCESS"
    using False by (auto simp: st_def erase_status_def)
  ultimately show ?thesis
    using that inv by simp
next
  case True
  then have a: "pbs_acc p c h = PSA_SUCCESS" and l: "lba < pbs_nblocks p h" and ok: "st = PSA_SUCCESS"
    by (simp_all add: st_def erase_status_def)
  have len: "length (pbs_storage_partition p) = PARTITIONED_BLOCK_STORE_MAX_PARTITIONS"
    using inv by (simp add: pbs_inv_def table_ok_def)
  let ?s = "pbs_back_store p" and ?hb = "pbs_back_store_handle p" and ?q = "pbs_storage_partition p ! unat h"
  let ?n = "min n (pbs_nblocks p h - lba)"
  note f = part_facts [OF inv a]
  have base: "add64 (prt_base_lba ?q) lba = pbs_base p h + lba"
    using f(2,3) l by (simp add: arith64 pbs_base_def)
  have clip: "storage_partition_clip_num_blocks ?q lba n = ?n"
    using l clip_num_blocks_min [of lba ?q n] by (simp add: pbs_nblocks_def)
  have st: "erase_status (acc ?s (pbs_local_client_id p) ?hb) (nblocks ?s ?hb) (pbs_base p h + lba) = PSA_SUCCESS"
    using l f(3,7) by (simp add: erase_status_def)
  obtain s' where e: "bsi_erase iface ?s (pbs_local_client_id p) ?hb (pbs_base p h + lba) ?n = Some (PSA_SUCCESS, s')"
    and s': "store_inv s'" "extent_kept acc nblocks bsize ?s s'"
    using erase_returns [OF f(6), of "pbs_local_client_id p" ?hb "pbs_base p h + lba" ?n] st by auto
  let ?p = "p\<lparr>pbs_back_store := s'\<rparr>"
  have eq: "partitioned_block_store_erase (Some iface) p c h lba n = Some (st, ?p)"
    using a l e ok by (simp add: partitioned_block_store_erase_def validate_partition_request_eq [OF len]
        storage_partition_is_lba_legal_def pbs_nblocks_def block_store_erase_def base Let_def clip [unfolded pbs_nblocks_def])
  have "min ?n (nblocks ?s ?hb - (pbs_base p h + lba)) = ?n"
    using f(3) by simp
  then have cont: "contents s' ?hb = splice (contents ?s ?hb) (pbs_base p h * pbs_bsize p h + lba * pbs_bsize p h)
      (replicate (?n * pbs_bsize p h) erased)"
    using erase_clears [OF f(6) e] f(4) by (simp add: add_mult_distrib)
  have "(lba + ?n) * pbs_bsize p h \<le> pbs_nblocks p h * pbs_bsize p h"
    using l by (intro mult_le_mono1) simp
  then have x: "lba * pbs_bsize p h + length (replicate (?n * pbs_bsize p h) erased) \<le> pbs_nblocks p h * pbs_bsize p h"
    by (simp add: add_mult_distrib)
  from part_change [OF inv a s' x cont] show ?thesis
    using that [OF eq] ok by simp
qed

end

sublocale partitioned_back \<subseteq> partitioned: block_store_contents
  "partitioned_block_store_interface (Some iface)" "pbs_inv store_inv acc nblocks bsize"
  pbs_acc pbs_nblocks pbs_bsize "pbs_contents contents" erased
proof (unfold_locales, goal_cases)
  case (1 p c h)
  then show ?case
    using part_facts(2,3,8) [OF 1] by simp
next
  case (2 p g)
  show ?case
    by (rule partitioned_info_facts [OF 2, of g]) (auto simp: partitioned_block_store_interface_def)
next
  case (3 p c g)
  show ?case
    by (rule partitioned_open_facts [OF 3, of c g]) (auto simp: partitioned_block_store_interface_def)
next
  case (4 p c h)
  then have len: "length (pbs_storage_partition p) = PARTITIONED_BLOCK_STORE_MAX_PARTITIONS"
    by (simp add: pbs_inv_def table_ok_def)
  with 4 show ?case
    by (simp add: partitioned_block_store_interface_def partitioned_block_store_close_def
        validate_partition_request_eq)
next
  case (5 p c h lba off n)
  have "lba < pbs_nblocks p h \<Longrightarrow> off < pbs_bsize p h \<Longrightarrow> pbs_acc p c h = PSA_SUCCESS \<Longrightarrow>
      length (slice (pbs_contents contents p h) (lba * pbs_bsize p h + off) (min n (pbs_bsize p h - off)))
        = min n (pbs_bsize p h - off)"
    using part_facts(5) [OF 5, of c h] mult_le_mono1 [of "Suc lba" "pbs_nblocks p h" "pbs_bsize p h"]
    by (simp add: pbs_contents_def)
  then show ?case
    by (rule_tac part_read [OF 5, of c h lba off n])
      (auto simp: partitioned_block_store_interface_def io_status_def split: if_splits)
next
  case (6 p c h lba off d)
  show ?case
    by (rule part_write [OF 6, of c h lba off d]) (auto simp: partitioned_block_store_interface_def)
next
  case (7 p c h lba n)
  show ?case
    by (rule part_erase [OF 7, of c h lba n]) (auto simp: partitioned_block_store_interface_def)
next
  case (8 p c h)
  then show ?case
    using part_facts(5) [OF 8] by (simp add: pbs_contents_def)
next
  case (9 p g st io p')
  show ?case
    by (rule partitioned_info_facts [OF 9(1), of g contents])
      (use 9(2) in \<open>auto simp: partitioned_block_store_interface_def\<close>)
next
  case (10 p c g st h p')
  show ?case
    by (rule partitioned_open_facts [OF 10(1), of c g contents])
      (use 10(2) in \<open>auto simp: partitioned_block_store_interface_def\<close>)
next
  case (11 p c h st p')
  then have "p' = p"
    by (auto simp: partitioned_block_store_interface_def partitioned_block_store_close_def
        split: bind_splits)
  then show ?case by simp
next
  case (12 p c h lba off n st d p')
  show ?case
    by (rule part_read [OF 12(1), of c h lba off n])
      (use 12(2) in \<open>auto simp: partitioned_block_store_interface_def\<close>)
next
  case (13 p c h lba off d st k p')
  show ?case
    by (rule part_write [OF 13(1), of c h lba off d])
      (use 13(2) in \<open>auto simp: partitioned_block_store_interface_def\<close>)
next
  case (14 p c h lba n st p')
  show ?case
    by (rule part_erase [OF 14(1), of c h lba n])
      (use 14(2) in \<open>auto simp: partitioned_block_store_interface_def\<close>)
next
  case (15 p g info p1 c h p2)
  show ?case
  proof (rule partitioned_info_facts [OF 15(1), of g contents])
    fix st io p'
    assume i: "partitioned_block_store_get_partition_info p g = Some (st, io, p')"
      and inv': "pbs_inv store_inv acc nblocks bsize p'"
      and m: "\<And>info. io = Some info \<Longrightarrow> (\<exists>i. find_guid p' g = Some i
        \<and> prt_num_blocks (pbs_storage_partition p' ! i) = spi_num_blocks info
        \<and> prt_block_size (pbs_storage_partition p' ! i) = spi_block_size info)"
    have p1: "p' = p1" "io = Some info"
      using i 15(2) by (simp_all add: partitioned_block_store_interface_def)
    from m [OF p1(2)] obtain i where fg: "find_guid p1 g = Some i"
      and n: "prt_num_blocks (pbs_storage_partition p1 ! i) = spi_num_blocks info"
        "prt_block_size (pbs_storage_partition p1 ! i) = spi_block_size info"
      unfolding p1 by blast
    have t: "table_ok (pbs_back_store_info p1) (pbs_num_partitions p1) (pbs_storage_partition p1)"
      using inv' unfolding p1 by (simp add: pbs_inv_def)
    note il = find_guid_Some [OF fg t]
    show ?case
      by (rule partitioned_open_found [OF inv' [unfolded p1] fg, of c])
        (use 15(3) n il in \<open>auto simp: partitioned_block_store_interface_def pbs_nblocks_def
          pbs_bsize_def handle_index nth_update_if\<close>)
  qed
qed

text \<open>Building the table: initialisation over a table nobody has access to, then partitions that do
  not overlap.\<close>

definition table_blank :: "storage_partition list \<Rightarrow> bool" where
  "table_blank ps \<longleftrightarrow>
     length ps = PARTITIONED_BLOCK_STORE_MAX_PARTITIONS
     \<and> (\<forall>p \<in> set ps. acl_ok (prt_acl p) \<and> acl_members (prt_acl p) = {})"

lemma table_blank_ok: "table_blank ps \<Longrightarrow> table_ok info 0 ps"
  by (auto simp: table_blank_def table_ok_def)

lemma add_partition_inv:
  assumes inv: "pbs_inv bi ba bn bb p" and bound: "spi_num_blocks (pbs_back_store_info p) < 2 ^ 64"
    and disj: "\<forall>i < pbs_num_partitions p. prt_base_lba (pbs_storage_partition p ! i) + prt_num_blocks (pbs_storage_partition p ! i) \<le> ini
        \<or> fin < prt_base_lba (pbs_storage_partition p ! i)"
    and add: "partitioned_block_store_add_partition p g ini fin attrs owner = (ok, p')"
  shows "pbs_inv bi ba bn bb p'"
    and "ok \<longleftrightarrow> pbs_num_partitions p < PARTITIONED_BLOCK_STORE_MAX_PARTITIONS \<and> ini \<le> fin
      \<and> fin < spi_num_blocks (pbs_back_store_info p)"
    and "ok \<Longrightarrow> pbs_num_partitions p' = pbs_num_partitions p + 1 \<and> table_grows p p'
      \<and> prt_base_lba (pbs_storage_partition p' ! pbs_num_partitions p) = ini
      \<and> prt_num_blocks (pbs_storage_partition p' ! pbs_num_partitions p) = fin + 1 - ini"
proof -
  show okk: "ok \<longleftrightarrow> pbs_num_partitions p < PARTITIONED_BLOCK_STORE_MAX_PARTITIONS \<and> ini \<le> fin
      \<and> fin < spi_num_blocks (pbs_back_store_info p)"
    using add by (auto simp: partitioned_block_store_add_partition_def Let_def split: if_splits)
  let ?n = "pbs_num_partitions p" and ?ps = "pbs_storage_partition p" and ?info = "pbs_back_store_info p"
  have t: "table_ok ?info ?n ?ps"
    using inv by (simp add: pbs_inv_def)
  define q where "q = (storage_partition_init g (fin + 1 - ini) (spi_block_size ?info))\<lparr>prt_base_lba := ini\<rparr>"
  have p': "p' = p\<lparr>pbs_storage_partition := ?ps[?n := q], pbs_num_partitions := ?n + 1\<rparr>" if ok
  proof -
    have "ini \<le> fin" "fin < 2 ^ 64"
      using okk that bound by auto
    then have "add64 (sub64 fin ini) 1 = fin + 1 - ini" if "fin - ini + 1 < 2 ^ 64"
      using that by (simp add: arith64)
    moreover have "fin - ini + 1 < 2 ^ 64"
      using okk \<open>ok\<close> bound by linarith
    ultimately show ?thesis
      using add okk that by (auto simp: partitioned_block_store_add_partition_def Let_def q_def split: if_splits)
  qed
  have q: "acl_ok (prt_acl q)" "acl_members (prt_acl q) = {}" "prt_block_size q = spi_block_size ?info"
    "prt_base_lba q = ini" "prt_num_blocks q = fin + 1 - ini"
    by (simp_all add: q_def storage_partition_init_def)
  have tab: "table_ok ?info (?n + 1) (?ps[?n := q])" if ok
  proof -
    have n: "?n < PARTITIONED_BLOCK_STORE_MAX_PARTITIONS" "ini \<le> fin" "fin < spi_num_blocks ?info"
      using okk that by simp_all
    have "extents_disjoint (?ps ! i) q \<and> extents_disjoint q (?ps ! i)" if "i < ?n" for i
      using disj that q(4,5) n(2) by (fastforce simp: extents_disjoint_def)
    then show ?thesis
      using t q n by (auto simp: table_ok_def nth_update_if less_Suc_eq)
  qed
  show "pbs_inv bi ba bn bb p'"
  proof (cases ok)
    case True
    then show ?thesis
      using inv tab p' by (simp add: pbs_inv_def)
  next
    case False
    then have "p' = p"
      using add by (auto simp: partitioned_block_store_add_partition_def Let_def split: if_splits)
    then show ?thesis using inv by simp
  qed
  show "pbs_num_partitions p' = ?n + 1 \<and> table_grows p p'
      \<and> prt_base_lba (pbs_storage_partition p' ! ?n) = ini
      \<and> prt_num_blocks (pbs_storage_partition p' ! ?n) = fin + 1 - ini" if ok
    using p' [OF that] q okk that t by (auto simp: table_grows_def nth_update_if table_ok_def)
qed

context partitioned_back
begin

lemma partitioned_init_inv:
  assumes "store_inv s" and "table_blank (pbs_storage_partition p)"
    and "partitioned_block_store_init (Some iface) p lc g s auth = Some (True, p')"
  shows "pbs_inv store_inv acc nblocks bsize p'" and "pbs_num_partitions p' = 0"
    and "pbs_storage_partition p' = pbs_storage_partition p"
    and "spi_num_blocks (pbs_back_store_info p') < 2 ^ 64"
proof -
  obtain st io s1 where i: "bsi_get_partition_info iface s g = Some (st, io, s1)" "store_inv s1"
    using info_returns [OF assms(1), of g] by blast
  obtain st2 h s2 where o: "bsi_open iface s1 lc g = Some (st2, h, s2)" "store_inv s2"
      "st2 = PSA_SUCCESS \<longrightarrow> acc s2 lc h = PSA_SUCCESS"
    using open_returns [OF i(2), of lc g] by blast
  obtain info where st: "st = PSA_SUCCESS" "io = Some info" "st2 = PSA_SUCCESS"
    and p': "p' = p\<lparr>pbs_local_client_id := lc, pbs_authorizer := auth, pbs_config_listener := None,
        pbs_num_partitions := 0, pbs_back_store := s2, pbs_back_store_info := info, pbs_back_store_handle := h\<rparr>"
    using assms(3) i(1) o(1)
    by (auto simp: partitioned_block_store_init_def block_store_wrappers Let_def
        split: if_splits option.splits bind_splits)
  have m: "nblocks s2 h = spi_num_blocks info" "bsize s2 h = spi_block_size info"
    using open_matches_info [OF assms(1), of g info s1 lc h s2] i(1) o(1) st by simp_all
  show "pbs_inv store_inv acc nblocks bsize p'"
    using p' o(2,3) st m table_blank_ok [OF assms(2)] by (simp add: pbs_inv_def)
  show "pbs_num_partitions p' = 0" "pbs_storage_partition p' = pbs_storage_partition p"
    using p' by simp_all
  show "spi_num_blocks (pbs_back_store_info p') < 2 ^ 64"
    using extent_bound [OF o(2), of lc h] o(3) st(3) m(1) p' by simp
qed

end

interpretation ram_partitioned: partitioned_back ram_block_store_interface ram_inv ram_acc ram_nblocks
  ram_bsize ram_contents RAM_BLOCK_STORE_ERASED_VALUE
  by unfold_locales



section \<open>A concrete table\<close>

text \<open>A RAM disk of sixteen blocks of four bytes, split in two halves that clients 5 and 6 have
  open.\<close>

definition sample_guid :: "byte \<Rightarrow> uuid_octets" where
  "sample_guid b = replicate 16 b"

definition sample_disk :: ram_block_store where
  "sample_disk = snd (ram_block_store_init (\<lambda>_. True)
     \<lparr>rbs_base_block_device = block_device_init None 0 0, rbs_ram_back_store = None\<rparr>
     (Some (sample_guid 9)) 16 4)"

definition sample_blank :: "ram_block_store partitioned_block_store" where
  "sample_blank =
     \<lparr>pbs_local_client_id = 0, pbs_authorizer = None, pbs_config_listener = None, pbs_num_partitions = 0,
      pbs_storage_partition =
        [storage_partition_zero, storage_partition_zero, storage_partition_zero, storage_partition_zero,
         storage_partition_zero, storage_partition_zero, storage_partition_zero, storage_partition_zero],
      pbs_back_store_handle = 0, pbs_back_store = sample_disk,
      pbs_back_store_info = \<lparr>spi_num_blocks = 0, spi_block_size = 0, spi_partition_guid = null_uuid,
        spi_parent_guid = null_uuid\<rparr>\<rparr>"

abbreviation ram_back :: "ram_block_store block_store_interface option" where
  "ram_back \<equiv> Some ram_block_store_interface"

abbreviation ram_pbs_inv :: "ram_block_store partitioned_block_store \<Rightarrow> bool" where
  "ram_pbs_inv \<equiv> pbs_inv ram_inv ram_acc ram_nblocks ram_bsize"

definition sample_table :: "ram_block_store partitioned_block_store option" where
  "sample_table =
     do {
       (ok, p1) \<leftarrow> partitioned_block_store_init ram_back sample_blank 1 (sample_guid 9) sample_disk None;
       let (ok1, p2) = partitioned_block_store_add_partition p1 (Some (sample_guid 1)) 0 7 0 None;
       let (ok2, p3) = partitioned_block_store_add_partition p2 (Some (sample_guid 2)) 8 15 0 None;
       (st1, h1, p4) \<leftarrow> partitioned_block_store_open p3 5 (sample_guid 1);
       (st2, h2, p5) \<leftarrow> partitioned_block_store_open p4 6 (sample_guid 2);
       if ok \<and> ok1 \<and> ok2 then Some p5 else None
     }"

lemmas sample_table_eval = sample_table_def sample_blank_def sample_disk_def sample_guid_def
  partitioned_block_store_init_def block_store_wrappers ram_block_store_interface_def
  ram_block_store_get_partition_info_def block_device_get_partition_info_def
  ram_block_store_init_def mul64_def ram_block_store_open_def block_device_open_def Let_def
  partitioned_block_store_add_partition_def partitioned_block_store_open_def
  find_by_partition_guid_def find_guid_def storage_partition_is_guid_matched_def
  storage_partition_is_open_permitted_def storage_partition_acl_authorize_def
  storage_partition_acl_check_def storage_partition_acl_add_def storage_partition_acl_init_def
  storage_partition_init_def storage_partition_zero_def array_get_def add64_def sub64_def
  pbs_acc_def pbs_nblocks_def pbs_bsize_def acl_members_def null_uuid_def block_device_init_def

lemma sample_disk_inv: "ram_inv sample_disk"
  by (rule ram_init_open [of 16 4 "\<lambda>_. True"
        "\<lparr>rbs_base_block_device = block_device_init None 0 0, rbs_ram_back_store = None\<rparr>"
        "sample_guid 9" True sample_disk])
    (simp_all add: sample_disk_def ram_block_store_init_def mul64_def)

lemma sample_table_steps:
  obtains p1 p2 p3 p4 p5 st1 h1 st2 h2 where
    "partitioned_block_store_init ram_back sample_blank 1 (sample_guid 9) sample_disk None = Some (True, p1)"
    and "partitioned_block_store_add_partition p1 (Some (sample_guid 1)) 0 7 0 None = (True, p2)"
    and "partitioned_block_store_add_partition p2 (Some (sample_guid 2)) 8 15 0 None = (True, p3)"
    and "partitioned_block_store_open p3 5 (sample_guid 1) = Some (st1, h1, p4)"
    and "partitioned_block_store_open p4 6 (sample_guid 2) = Some (st2, h2, p5)"
    and "sample_table = Some p5"
proof -
  have "(case sample_table of Some p \<Rightarrow> True | None \<Rightarrow> False)"
    by (simp add: sample_table_eval)
  then show ?thesis
    using that unfolding sample_table_def
    by (auto simp: Let_def split: option.splits bind_splits prod.splits if_splits)
qed

lemma sample_table_ok:
  obtains p where "sample_table = Some p" and "ram_pbs_inv p" and "pbs_acc p 5 0 = PSA_SUCCESS"
    and "pbs_acc p 6 1 = PSA_SUCCESS" and "pbs_nblocks p 0 = 8" and "pbs_bsize p 0 = 4"
proof -
  obtain p1 p2 p3 p4 p5 st1 h1 st2 h2 where
    i: "partitioned_block_store_init ram_back sample_blank 1 (sample_guid 9) sample_disk None = Some (True, p1)"
    and a1: "partitioned_block_store_add_partition p1 (Some (sample_guid 1)) 0 7 0 None = (True, p2)"
    and a2: "partitioned_block_store_add_partition p2 (Some (sample_guid 2)) 8 15 0 None = (True, p3)"
    and o1: "partitioned_block_store_open p3 5 (sample_guid 1) = Some (st1, h1, p4)"
    and o2: "partitioned_block_store_open p4 6 (sample_guid 2) = Some (st2, h2, p5)"
    and t: "sample_table = Some p5"
    by (rule sample_table_steps)
  have "table_blank (pbs_storage_partition sample_blank)"
    by (simp add: table_blank_def sample_blank_def storage_partition_zero_def)
  note i' = ram_partitioned.partitioned_init_inv [OF sample_disk_inv this i]
  have d1: "\<forall>i < pbs_num_partitions p1. prt_base_lba (pbs_storage_partition p1 ! i) + prt_num_blocks (pbs_storage_partition p1 ! i) \<le> 0
      \<or> 7 < prt_base_lba (pbs_storage_partition p1 ! i)"
    using i'(2) by simp
  note a1' = add_partition_inv [OF i'(1,4) d1 a1]
  have info: "pbs_back_store_info p2 = pbs_back_store_info p1"
    using a1 by (auto simp: partitioned_block_store_add_partition_def Let_def split: if_splits)
  have d2: "\<forall>i < pbs_num_partitions p2. prt_base_lba (pbs_storage_partition p2 ! i) + prt_num_blocks (pbs_storage_partition p2 ! i) \<le> 8
      \<or> 15 < prt_base_lba (pbs_storage_partition p2 ! i)"
    using a1'(3) i'(2) by simp
  have a2': "ram_pbs_inv p3"
    using add_partition_inv(1) [OF a1'(1) _ d2 a2] i'(4) info by simp
  have "ram_pbs_inv p4"
    using ram_partitioned.partitioned.open_returns [OF a2', of 5 "sample_guid 1"] o1
    by (auto simp: partitioned_block_store_interface_def)
  then have "ram_pbs_inv p5"
    using ram_partitioned.partitioned.open_returns [of p4 6 "sample_guid 2"] o2
    by (auto simp: partitioned_block_store_interface_def)
  moreover have "case sample_table of None \<Rightarrow> False
    | Some p \<Rightarrow> pbs_acc p 5 0 = PSA_SUCCESS \<and> pbs_acc p 6 1 = PSA_SUCCESS \<and> pbs_nblocks p 0 = 8 \<and> pbs_bsize p 0 = 4"
    by (simp add: sample_table_eval)
  ultimately show ?thesis
    unfolding t option.case by (intro that [OF t]) simp_all
qed

text \<open>A table in memory that was not cleared: its third entry lists client 5.\<close>

definition stale_blank :: "ram_block_store partitioned_block_store" where
  "stale_blank = sample_blank\<lparr>pbs_storage_partition :=
     [storage_partition_zero, storage_partition_zero,
      storage_partition_zero\<lparr>prt_num_blocks := 4, prt_block_size := 4, prt_base_lba := 8,
        prt_acl := \<lparr>acl_owner_id = replicate 40 0, acl_allowlist_len = 1, acl_allowlist = [5]\<rparr>\<rparr>,
      storage_partition_zero, storage_partition_zero, storage_partition_zero,
      storage_partition_zero, storage_partition_zero]\<rparr>"


section \<open>Properties\<close>

text \<open>
  Property C5. Partitions that do not overlap are isolated. In a well-formed store over a RAM disk (\<open>ram_pbs_inv\<close>: the extents of the
  configured partitions lie on the disk and are pairwise disjoint, entries not in use admit no client, and the
  access lists are well formed), whatever client \<open>c\<close> writes or erases through its handle, any client reading any
  block of another open partition gets exactly what it would have got before. That the extents are disjoint is a
  condition on the configuration: \<open>partitioned_block_store_add_partition\<close> does not check it.
\<close>

theorem partitions_isolated:
  assumes inv: "ram_pbs_inv p" and other: "pbs_acc p c' h' = PSA_SUCCESS" "h' \<noteq> h"
    and change: "partitioned_block_store_write ram_back p c h lba off d = Some (st, k, p')
      \<or> partitioned_block_store_erase ram_back p c h lba n = Some (st, p')"
  shows "\<exists>st' d' q q'. partitioned_block_store_read ram_back p c' h' lba' off' m = Some (st', d', q)
    \<and> partitioned_block_store_read ram_back p' c' h' lba' off' m = Some (st', d', q')"
proof -
  let ?i = "partitioned_block_store_interface ram_back"
  note P = ram_partitioned.partitioned.block_store_contents_axioms
  have ch: "bsi_write ?i p c h lba off d = Some (st, k, p') \<or> bsi_erase ?i p c h lba n = Some (st, p')"
    using change by (simp add: partitioned_block_store_interface_def)
  have inv': "ram_pbs_inv p'" and kept: "extent_kept pbs_acc pbs_nblocks pbs_bsize p p'"
    using ch ram_partitioned.partitioned.write_returns [OF inv, of c h lba off d]
      ram_partitioned.partitioned.erase_returns [OF inv, of c h lba n] by auto
  have cont: "pbs_contents ram_contents p' h' = pbs_contents ram_contents p h'"
    using ch ram_partitioned.partitioned.write_puts [OF inv, of c h lba off d st k p']
      ram_partitioned.partitioned.erase_clears [OF inv, of c h lba n st p'] other
    by (auto simp: contents_kept_def split: if_splits)
  have same: "pbs_acc p' c' h' = PSA_SUCCESS" "pbs_nblocks p' h' = pbs_nblocks p h'" "pbs_bsize p' h' = pbs_bsize p h'"
    using kept other(1) by (auto simp: extent_kept_def)
  show ?thesis
    by (rule ram_partitioned.part_read [OF inv, of c' h' lba' off' m];
        rule ram_partitioned.part_read [OF inv', of c' h' lba' off' m])
      (use same other(1) cont in auto)
qed

theorem partitions_isolated_witness:
  "\<exists>p p' st k st' d' q q'. sample_table = Some p
    \<and> partitioned_block_store_write ram_back p 5 0 3 1 [1, 2] = Some (st, k, p')
    \<and> partitioned_block_store_read ram_back p 6 1 0 0 4 = Some (st', d', q)
    \<and> partitioned_block_store_read ram_back p' 6 1 0 0 4 = Some (st', d', q')"
proof -
  obtain p where p: "sample_table = Some p" "ram_pbs_inv p" "pbs_acc p 6 1 = PSA_SUCCESS"
    by (rule sample_table_ok)
  obtain k p' where "partitioned_block_store_write ram_back p 5 0 3 1 [1, 2]
      = Some (io_status (pbs_acc p 5 0) (pbs_nblocks p 0) (pbs_bsize p 0) 3 1, k, p')"
    using ram_partitioned.partitioned.write_returns [OF p(2), of 5 0 3 1 "[1, 2]"]
    by (auto simp: partitioned_block_store_interface_def)
  then show ?thesis
    using p(1) partitions_isolated [OF p(2,3), of 0 5 3 1 "[1, 2]" _ k p' 0 0 0 4] by fastforce
qed

text \<open>
  Property C22. A write through a partition handle lands at the right place of the disk: inside a
  block of the partition, exactly the bytes of block \<open>base + lba\<close> of the RAM disk change, and
  reading through the handle returns the data.
\<close>

theorem partition_write_location:
  assumes inv: "ram_pbs_inv p" and acc: "pbs_acc p c h = PSA_SUCCESS"
    and blk: "lba < pbs_nblocks p h" "off + length d \<le> pbs_bsize p h" "d \<noteq> []"
  shows "\<exists>p' q. partitioned_block_store_write ram_back p c h lba off d = Some (PSA_SUCCESS, length d, p')
    \<and> ram_contents (pbs_back_store p') 0
        = splice (ram_contents (pbs_back_store p) 0) ((pbs_base p h + lba) * pbs_bsize p h + off) d
    \<and> partitioned_block_store_read ram_back p' c h lba off (length d) = Some (PSA_SUCCESS, d, q)"
proof -
  let ?i = "partitioned_block_store_interface ram_back"
  have off: "off < pbs_bsize p h"
    using blk(2,3) by (cases d) auto
  have st: "io_status (pbs_acc p c h) (pbs_nblocks p h) (pbs_bsize p h) lba off = PSA_SUCCESS"
    using acc blk(1) off by (simp add: io_status_def)
  have k: "min (length d) (pbs_bsize p h - off) = length d"
    using blk(2) by simp
  obtain p' where w: "bsi_write ?i p c h lba off d = Some (PSA_SUCCESS, length d, p')"
    using ram_partitioned.partitioned.write_returns [OF inv, of c h lba off d] st k by auto
  from ram_partitioned.partitioned.read_after_write(1) [OF inv w] obtain q where
    r: "bsi_read ?i p' c h lba off (length d) = Some (PSA_SUCCESS, d, q)"
    by auto
  note f = ram_partitioned.part_facts [OF inv acc]
  let ?s = "pbs_back_store p" and ?q = "pbs_storage_partition p ! unat h"
  have len: "length (pbs_storage_partition p) = PARTITIONED_BLOCK_STORE_MAX_PARTITIONS"
    using inv by (simp add: pbs_inv_def table_ok_def)
  have base: "add64 (prt_base_lba ?q) lba = pbs_base p h + lba"
    using f(2,3) blk(1) by (simp add: arith64 pbs_base_def)
  have clip: "take (storage_partition_clip_length ?q lba off (length d)) d = d"
    using clip_length_within_block [of lba ?q off "length d"] blk off f(8) k
    by (simp add: pbs_nblocks_def pbs_bsize_def min_def split: if_splits)
  have bst: "io_status (ram_acc ?s (pbs_local_client_id p) (pbs_back_store_handle p)) (ram_nblocks ?s 0)
      (ram_bsize ?s 0) (pbs_base p h + lba) off = PSA_SUCCESS"
    using f(3,4,7) blk(1) off by (simp add: io_status_def)
  have "p' = p\<lparr>pbs_back_store := ?s\<lparr>rbs_ram_back_store := Some (splice (ram_contents ?s 0)
      ((pbs_base p h + lba) * pbs_bsize p h + off) d)\<rparr>\<rparr>"
    using w acc blk(1) bst f(4) k clip
    by (simp add: partitioned_block_store_interface_def partitioned_block_store_write_def
        validate_partition_request_eq [OF len] storage_partition_is_lba_legal_def pbs_nblocks_def
        block_store_write_def ram_block_store_interface_def base Let_def ram_write_eq [OF f(6)])
  with w r show ?thesis
    by (auto simp: partitioned_block_store_interface_def)
qed

theorem partition_write_location_witness:
  "\<exists>p p' q. sample_table = Some p
    \<and> partitioned_block_store_write ram_back p 5 0 3 1 [1, 2] = Some (PSA_SUCCESS, length [1 :: byte, 2], p')
    \<and> partitioned_block_store_read ram_back p' 5 0 3 1 (length [1 :: byte, 2]) = Some (PSA_SUCCESS, [1, 2], q)"
proof -
  obtain p where p: "sample_table = Some p" "ram_pbs_inv p" "pbs_acc p 5 0 = PSA_SUCCESS"
    and n: "pbs_nblocks p 0 = 8" "pbs_bsize p 0 = 4"
    by (rule sample_table_ok)
  from partition_write_location [OF p(2,3), of 3 1 "[1, 2]"] n p(1) show ?thesis
    by auto
qed

text \<open>
  Property C30. Adding partitions keeps the store well-formed as long as the new extent does not
  overlap a configured one; the call succeeds exactly when there is room in the table and the
  extent is a non-empty part of the back store, and existing partitions are left alone. The check
  for overlap is the caller's.
\<close>

theorem add_partition_keeps_table:
  assumes "ram_pbs_inv p" and "spi_num_blocks (pbs_back_store_info p) < 2 ^ 64"
    and "\<forall>i < pbs_num_partitions p.
      prt_base_lba (pbs_storage_partition p ! i) + prt_num_blocks (pbs_storage_partition p ! i) \<le> starting
      \<or> ending < prt_base_lba (pbs_storage_partition p ! i)"
    and "partitioned_block_store_add_partition p g starting ending attrs owner = (ok, p')"
  shows "ram_pbs_inv p'
    \<and> (ok \<longleftrightarrow> pbs_num_partitions p < PARTITIONED_BLOCK_STORE_MAX_PARTITIONS \<and> starting \<le> ending
         \<and> ending < spi_num_blocks (pbs_back_store_info p))
    \<and> (ok \<longrightarrow> pbs_num_partitions p' = pbs_num_partitions p + 1 \<and> table_grows p p')"
  using add_partition_inv [OF assms] by blast

theorem add_partition_keeps_table_witness:
  "\<exists>p1 p2. partitioned_block_store_init ram_back sample_blank 1 (sample_guid 9) sample_disk None = Some (True, p1)
    \<and> partitioned_block_store_add_partition p1 (Some (sample_guid 1)) 0 7 0 None = (True, p2) \<and> ram_pbs_inv p2"
proof -
  obtain p1 p2 where
    i: "partitioned_block_store_init ram_back sample_blank 1 (sample_guid 9) sample_disk None = Some (True, p1)"
    and a: "partitioned_block_store_add_partition p1 (Some (sample_guid 1)) 0 7 0 None = (True, p2)"
    by (rule sample_table_steps)
  have "table_blank (pbs_storage_partition sample_blank)"
    by (simp add: table_blank_def sample_blank_def storage_partition_zero_def)
  note i' = ram_partitioned.partitioned_init_inv [OF sample_disk_inv this i]
  have d: "\<forall>i < pbs_num_partitions p1.
      prt_base_lba (pbs_storage_partition p1 ! i) + prt_num_blocks (pbs_storage_partition p1 ! i) \<le> 0
      \<or> 7 < prt_base_lba (pbs_storage_partition p1 ! i)"
    using i'(2) by simp
  from add_partition_keeps_table [OF i'(1,4) d a] i a show ?thesis by auto
qed

text \<open>
  Property C35. The owner given to \<open>partitioned_block_store_add_partition\<close> has no effect: with
  no authorizer configured, the first client to ask is let in, whoever the owner is.
\<close>

theorem partition_owner_ignored:
  assumes "partitioned_block_store_add_partition p (Some g) starting ending attrs owner = (True, p')"
    and "find_guid p' g = Some (pbs_num_partitions p)" and "pbs_authorizer p = None"
    and "length (pbs_storage_partition p) = PARTITIONED_BLOCK_STORE_MAX_PARTITIONS"
  shows "\<exists>p''. partitioned_block_store_open p' c g = Some (PSA_SUCCESS, of_nat (pbs_num_partitions p), p'')"
  using assms
  by (auto simp: partitioned_block_store_add_partition_def partitioned_block_store_open_def
      find_by_partition_guid_def array_get_def Let_def storage_partition_is_open_permitted_def
      storage_partition_init_def storage_partition_acl_authorize_def storage_partition_acl_check_def
      storage_partition_acl_init_def storage_partition_acl_add_def split: if_splits)

theorem partition_owner_ignored_witness:
  "\<exists>p1 p2 p3. partitioned_block_store_init ram_back sample_blank 1 (sample_guid 9) sample_disk None = Some (True, p1)
    \<and> partitioned_block_store_add_partition p1 (Some (sample_guid 1)) 0 7 0 (Some [0x61, 0]) = (True, p2)
    \<and> partitioned_block_store_open p2 77 (sample_guid 1) = Some (PSA_SUCCESS, of_nat (pbs_num_partitions p1), p3)"
proof -
  define p1 where "p1 = snd (the (partitioned_block_store_init ram_back sample_blank 1 (sample_guid 9) sample_disk None))"
  define p2 where "p2 = snd (partitioned_block_store_add_partition p1 (Some (sample_guid 1)) 0 7 0 (Some [0x61, 0]))"
  have i: "partitioned_block_store_init ram_back sample_blank 1 (sample_guid 9) sample_disk None = Some (True, p1)"
    unfolding p1_def by (simp add: sample_table_eval)
  have a: "partitioned_block_store_add_partition p1 (Some (sample_guid 1)) 0 7 0 (Some [0x61, 0]) = (True, p2)"
    and f: "find_guid p2 (sample_guid 1) = Some (pbs_num_partitions p1)" and n: "pbs_authorizer p1 = None"
      "length (pbs_storage_partition p1) = PARTITIONED_BLOCK_STORE_MAX_PARTITIONS"
    unfolding p2_def p1_def by (simp_all add: sample_table_eval)
  from partition_owner_ignored [OF a f n, of 77] i a show ?thesis by auto
qed

text \<open>
  Property C34. Initialisation does not clear the table, and a request is checked against the size
  of the table instead of the number of partitions: when an entry of the memory the structure is
  put in happens to list the client, that client reaches the back store through it although no
  partition was ever configured.
\<close>

theorem stale_entry_gives_access:
  assumes "partitioned_block_store_init (Some iface) p lc g s auth = Some (True, p')"
    and "length (pbs_storage_partition p) = PARTITIONED_BLOCK_STORE_MAX_PARTITIONS"
    and "unat h < PARTITIONED_BLOCK_STORE_MAX_PARTITIONS"
    and "storage_partition_is_access_permitted (pbs_storage_partition p ! unat h) c"
    and "lba < prt_num_blocks (pbs_storage_partition p ! unat h)"
  shows "pbs_num_partitions p' = 0
    \<and> partitioned_block_store_read (Some iface) p' c h lba off n =
        map_option (\<lambda>(st, d, s'). (st, d, p'\<lparr>pbs_back_store := s'\<rparr>))
          (bsi_read iface (pbs_back_store p') lc (pbs_back_store_handle p')
             (add64 (prt_base_lba (pbs_storage_partition p ! unat h)) lba) off
             (storage_partition_clip_length (pbs_storage_partition p ! unat h) lba off n))"
proof -
  have p': "pbs_num_partitions p' = 0" "pbs_storage_partition p' = pbs_storage_partition p"
    "pbs_local_client_id p' = lc"
    using assms(1)
    by (auto simp: partitioned_block_store_init_def block_store_wrappers Let_def
        split: if_splits option.splits bind_splits)
  have "validate_partition_request p' c h = Some (PSA_SUCCESS, Some (pbs_storage_partition p ! unat h))"
    using validate_partition_request_eq [of p' c h] p' assms(2-4)
    by (simp add: pbs_acc_def access_permitted_members)
  then show ?thesis
    using p' assms(5)
    by (simp add: partitioned_block_store_read_def storage_partition_is_lba_legal_def
        block_store_read_def Let_def split: option.splits bind_splits)
qed

theorem stale_entry_gives_access_witness:
  "\<exists>p'. partitioned_block_store_init ram_back stale_blank 1 (sample_guid 9) sample_disk None = Some (True, p')
    \<and> pbs_num_partitions p' = 0
    \<and> partitioned_block_store_read ram_back p' 5 2 1 0 4 =
        map_option (\<lambda>(st, d, s'). (st, d, p'\<lparr>pbs_back_store := s'\<rparr>))
          (ram_block_store_read (pbs_back_store p') 1 (pbs_back_store_handle p') 9 0 4)"
proof -
  define p' where "p' = snd (the (partitioned_block_store_init ram_back stale_blank 1 (sample_guid 9) sample_disk None))"
  have i: "partitioned_block_store_init ram_back stale_blank 1 (sample_guid 9) sample_disk None = Some (True, p')"
    unfolding p'_def by (simp add: sample_table_eval stale_blank_def)
  have e: "pbs_storage_partition stale_blank ! 2 = storage_partition_zero\<lparr>prt_num_blocks := 4, prt_block_size := 4,
      prt_base_lba := 8, prt_acl := \<lparr>acl_owner_id = replicate 40 0, acl_allowlist_len = 1, acl_allowlist = [5]\<rparr>\<rparr>"
    by (simp add: stale_blank_def)
  have "length (pbs_storage_partition stale_blank) = PARTITIONED_BLOCK_STORE_MAX_PARTITIONS"
    by (simp add: stale_blank_def)
  from stale_entry_gives_access [OF i this, of 2 5 1 0 4] i show ?thesis
    by (auto simp: e access_permitted_members acl_members_def add64_def ram_block_store_interface_def
        storage_partition_clip_length_def sub64_def mul64_def Let_def storage_partition_is_lba_legal_def)
qed

end
