(* ===== verification/BlockStorageProvider.thy ===== *)
theory BlockStorageProvider
  imports PartitionedBlockStore ServiceClient
begin

text \<open>
  The block storage service provider (\<open>block_storage_provider.c\<close>) and its packed-c
  serializer (\<open>packedc_block_storage_serializer.c\<close>): a block store put behind an RPC
  endpoint. The caller's endpoint identifier is the client identifier of the store.

  \<open>bs_decode\<close> and \<open>bs_apply\<close> give the meaning of a request directly in terms of the block
  store; \<open>block_storage_serve_eq\<close> shows that the provider implements it, and every store that
  keeps the contract of \<open>BlockStore\<close> yields an RPC endpoint that keeps the contract of
  \<open>Rpc\<close>.
\<close>

section \<open>Wire format\<close>

abbreviation TS_BLOCK_STORAGE_OPCODE_GET_PARTITION_INFO :: u32 where
  "TS_BLOCK_STORAGE_OPCODE_GET_PARTITION_INFO \<equiv> 0x101"
abbreviation TS_BLOCK_STORAGE_OPCODE_OPEN :: u32 where
  "TS_BLOCK_STORAGE_OPCODE_OPEN \<equiv> 0x102"
abbreviation TS_BLOCK_STORAGE_OPCODE_CLOSE :: u32 where
  "TS_BLOCK_STORAGE_OPCODE_CLOSE \<equiv> 0x103"
abbreviation TS_BLOCK_STORAGE_OPCODE_READ :: u32 where
  "TS_BLOCK_STORAGE_OPCODE_READ \<equiv> 0x104"
abbreviation TS_BLOCK_STORAGE_OPCODE_WRITE :: u32 where
  "TS_BLOCK_STORAGE_OPCODE_WRITE \<equiv> 0x105"
abbreviation TS_BLOCK_STORAGE_OPCODE_ERASE :: u32 where
  "TS_BLOCK_STORAGE_OPCODE_ERASE \<equiv> 0x106"

text \<open>The sizes of the packed structures of \<open>messages.h\<close>.\<close>

abbreviation sizeof_guid_in :: size_t where
  "sizeof_guid_in \<equiv> 16"
abbreviation sizeof_get_partition_info_out :: size_t where
  "sizeof_get_partition_info_out \<equiv> 44"
abbreviation sizeof_u64_msg :: size_t where
  "sizeof_u64_msg \<equiv> 8"
abbreviation sizeof_read_in :: size_t where
  "sizeof_read_in \<equiv> 24"
abbreviation sizeof_write_in :: size_t where
  "sizeof_write_in \<equiv> 20"
abbreviation sizeof_erase_in :: size_t where
  "sizeof_erase_in \<equiv> 20"

text \<open>The sixteen octets of a UUID, the identity on the lists that stand for one.\<close>

definition uuid_field :: "uuid_octets \<Rightarrow> bytes" where
  "uuid_field g = take 16 (g @ replicate 16 0)"

lemma length_uuid_field [simp]: "length (uuid_field g) = 16"
  by (simp add: uuid_field_def)

lemma uuid_field_id [simp]: "length g = 16 \<Longrightarrow> uuid_field g = g"
  by (simp add: uuid_field_def)

text \<open>An unsigned field of \<open>k\<close> bytes at an offset of a message. Handles are 64 bits wide on the
  wire and 32 bits in the store.\<close>

definition msg_field :: "bytes \<Rightarrow> nat \<Rightarrow> nat \<Rightarrow> nat" where
  "msg_field msg off k = le_val (slice msg off k)"

definition msg_handle :: "bytes \<Rightarrow> storage_partition_handle_t" where
  "msg_handle msg = word_of_nat (msg_field msg 0 8)"


section \<open>Serializer\<close>

record block_storage_serializer =
  bss_deserialize_get_partition_info_req :: "rpc_buffer \<Rightarrow> (rpc_status \<times> uuid_octets option) option"
  bss_serialize_get_partition_info_resp ::
    "rpc_buffer \<Rightarrow> storage_partition_info \<Rightarrow> (rpc_status \<times> rpc_buffer) option"
  bss_deserialize_open_req :: "rpc_buffer \<Rightarrow> (rpc_status \<times> uuid_octets option) option"
  bss_serialize_open_resp ::
    "rpc_buffer \<Rightarrow> storage_partition_handle_t \<Rightarrow> (rpc_status \<times> rpc_buffer) option"
  bss_deserialize_close_req ::
    "rpc_buffer \<Rightarrow> (rpc_status \<times> storage_partition_handle_t option) option"
  bss_deserialize_read_req ::
    "rpc_buffer \<Rightarrow> (rpc_status \<times> (storage_partition_handle_t \<times> lba_t \<times> size_t \<times> size_t) option) option"
  bss_deserialize_write_req ::
    "rpc_buffer \<Rightarrow> (rpc_status \<times> (storage_partition_handle_t \<times> lba_t \<times> size_t \<times> bytes) option) option"
  bss_serialize_write_resp :: "rpc_buffer \<Rightarrow> size_t \<Rightarrow> (rpc_status \<times> rpc_buffer) option"
  bss_deserialize_erase_req ::
    "rpc_buffer \<Rightarrow> (rpc_status \<times> (storage_partition_handle_t \<times> lba_t \<times> size_t) option) option"

definition deserialize_get_partition_info_req ::
  "rpc_buffer \<Rightarrow> (rpc_status \<times> uuid_octets option) option" where
  "deserialize_get_partition_info_req req_buf =
     (if sizeof_guid_in \<le> rb_data_length req_buf
      then do {
        msg \<leftarrow> mem_read (rb_data req_buf) 0 sizeof_guid_in;
        Some (RPC_SUCCESS, Some msg)
      }
      else Some (RPC_ERROR_INVALID_REQUEST_BODY, None))"

definition serialize_get_partition_info_resp ::
  "rpc_buffer \<Rightarrow> storage_partition_info \<Rightarrow> (rpc_status \<times> rpc_buffer) option" where
  "serialize_get_partition_info_resp resp_buf info =
     (let resp_msg = le_bytes 8 (spi_num_blocks info) @ le_bytes 4 (spi_block_size info)
            @ uuid_field (spi_partition_guid info) @ uuid_field (spi_parent_guid info)
      in if sizeof_get_partition_info_out \<le> rb_size resp_buf
         then do {
           b \<leftarrow> rpc_buffer_put resp_buf resp_msg;
           Some (RPC_SUCCESS, b)
         }
         else Some (RPC_ERROR_INTERNAL, resp_buf))"

definition deserialize_open_req :: "rpc_buffer \<Rightarrow> (rpc_status \<times> uuid_octets option) option" where
  "deserialize_open_req req_buf =
     (if sizeof_guid_in \<le> rb_data_length req_buf
      then do {
        msg \<leftarrow> mem_read (rb_data req_buf) 0 sizeof_guid_in;
        Some (RPC_SUCCESS, Some msg)
      }
      else Some (RPC_ERROR_INVALID_REQUEST_BODY, None))"

definition serialize_open_resp ::
  "rpc_buffer \<Rightarrow> storage_partition_handle_t \<Rightarrow> (rpc_status \<times> rpc_buffer) option" where
  "serialize_open_resp resp_buf handle =
     (if sizeof_u64_msg \<le> rb_size resp_buf
      then do {
        b \<leftarrow> rpc_buffer_put resp_buf (le_bytes 8 (unat handle));
        Some (RPC_SUCCESS, b)
      }
      else Some (RPC_ERROR_INTERNAL, resp_buf))"

definition deserialize_close_req ::
  "rpc_buffer \<Rightarrow> (rpc_status \<times> storage_partition_handle_t option) option" where
  "deserialize_close_req req_buf =
     (if sizeof_u64_msg \<le> rb_data_length req_buf
      then do {
        msg \<leftarrow> mem_read (rb_data req_buf) 0 sizeof_u64_msg;
        Some (RPC_SUCCESS, Some (msg_handle msg))
      }
      else Some (RPC_ERROR_INVALID_REQUEST_BODY, None))"

definition deserialize_read_req ::
  "rpc_buffer \<Rightarrow> (rpc_status \<times> (storage_partition_handle_t \<times> lba_t \<times> size_t \<times> size_t) option) option" where
  "deserialize_read_req req_buf =
     (if sizeof_read_in \<le> rb_data_length req_buf
      then do {
        msg \<leftarrow> mem_read (rb_data req_buf) 0 sizeof_read_in;
        Some (RPC_SUCCESS,
              Some (msg_handle msg, msg_field msg 8 8, msg_field msg 16 4, msg_field msg 20 4))
      }
      else Some (RPC_ERROR_INVALID_REQUEST_BODY, None))"

text \<open>The data is not copied but pointed to in the request buffer.\<close>

definition deserialize_write_req ::
  "rpc_buffer \<Rightarrow> (rpc_status \<times> (storage_partition_handle_t \<times> lba_t \<times> size_t \<times> bytes) option) option" where
  "deserialize_write_req req_buf =
     (if sizeof_write_in \<le> rb_data_length req_buf
      then do {
        msg \<leftarrow> mem_read (rb_data req_buf) 0 sizeof_write_in;
        d \<leftarrow> mem_read (rb_data req_buf) sizeof_write_in (rb_data_length req_buf - sizeof_write_in);
        Some (RPC_SUCCESS, Some (msg_handle msg, msg_field msg 8 8, msg_field msg 16 4, d))
      }
      else Some (RPC_ERROR_INVALID_REQUEST_BODY, None))"

definition serialize_write_resp :: "rpc_buffer \<Rightarrow> size_t \<Rightarrow> (rpc_status \<times> rpc_buffer) option" where
  "serialize_write_resp resp_buf num_written =
     (if sizeof_u64_msg \<le> rb_size resp_buf
      then do {
        b \<leftarrow> rpc_buffer_put resp_buf (le_bytes 8 num_written);
        Some (RPC_SUCCESS, b)
      }
      else Some (RPC_ERROR_INTERNAL, resp_buf))"

definition deserialize_erase_req ::
  "rpc_buffer \<Rightarrow> (rpc_status \<times> (storage_partition_handle_t \<times> lba_t \<times> size_t) option) option" where
  "deserialize_erase_req req_buf =
     (if sizeof_erase_in \<le> rb_data_length req_buf
      then do {
        msg \<leftarrow> mem_read (rb_data req_buf) 0 sizeof_erase_in;
        Some (RPC_SUCCESS, Some (msg_handle msg, msg_field msg 8 8, msg_field msg 16 4))
      }
      else Some (RPC_ERROR_INVALID_REQUEST_BODY, None))"

definition packedc_block_storage_serializer_instance :: block_storage_serializer where
  "packedc_block_storage_serializer_instance =
     \<lparr>bss_deserialize_get_partition_info_req = deserialize_get_partition_info_req,
      bss_serialize_get_partition_info_resp = serialize_get_partition_info_resp,
      bss_deserialize_open_req = deserialize_open_req,
      bss_serialize_open_resp = serialize_open_resp,
      bss_deserialize_close_req = deserialize_close_req,
      bss_deserialize_read_req = deserialize_read_req,
      bss_deserialize_write_req = deserialize_write_req,
      bss_serialize_write_resp = serialize_write_resp,
      bss_deserialize_erase_req = deserialize_erase_req\<rparr>"


section \<open>Provider\<close>

text \<open>The provider with the store it points to: the interface and the state of the store.\<close>

record 's block_storage_provider =
  bsp_serializer :: "block_storage_serializer option"
  bsp_block_store :: "'s block_store_interface option"
  bsp_store :: 's

type_synonym 's block_storage_handler =
  "rpc_request \<Rightarrow> 's block_storage_provider \<Rightarrow> 's block_storage_provider handler_result"

definition block_storage_provider_register_serializer ::
  "'s block_storage_provider \<Rightarrow> block_storage_serializer option \<Rightarrow> 's block_storage_provider" where
  "block_storage_provider_register_serializer p ser = p\<lparr>bsp_serializer := ser\<rparr>"

definition get_block_storage_serializer ::
  "'s block_storage_provider \<Rightarrow> rpc_request \<Rightarrow> block_storage_serializer option" where
  "get_block_storage_serializer p req = bsp_serializer p"

text \<open>Every handler starts by decoding the request; without a serializer that fails.\<close>

definition bs_deserialize ::
  "(block_storage_serializer \<Rightarrow> rpc_buffer \<Rightarrow> (rpc_status \<times> 'a option) option) \<Rightarrow>
    's block_storage_provider \<Rightarrow> rpc_request \<Rightarrow> (rpc_status \<times> 'a option) option" where
  "bs_deserialize sel p req =
     (case get_block_storage_serializer p req of
        None \<Rightarrow> Some (RPC_ERROR_INTERNAL, None)
      | Some ser \<Rightarrow> sel ser (req_request req))"

definition get_partition_info_handler :: "'s block_storage_handler" where
  "get_partition_info_handler req p =
     do {
       (rpc_st, args) \<leftarrow> bs_deserialize bss_deserialize_get_partition_info_req p req;
       if rpc_st \<noteq> RPC_SUCCESS then Some (rpc_st, req, p)
       else do {
         partition_guid \<leftarrow> args;
         ser \<leftarrow> get_block_storage_serializer p req;
         (op_status, info, s) \<leftarrow>
           block_store_get_partition_info (bsp_block_store p) (bsp_store p) partition_guid;
         let req1 = req\<lparr>req_service_status := op_status\<rparr>;
         let p1 = p\<lparr>bsp_store := s\<rparr>;
         if op_status = PSA_SUCCESS
         then do {
           partition_info \<leftarrow> info;
           (st, buf) \<leftarrow> bss_serialize_get_partition_info_resp ser (req_response req1) partition_info;
           Some (st, req1\<lparr>req_response := buf\<rparr>, p1)
         }
         else Some (rpc_st, req1, p1)
       }
     }"

definition open_handler :: "'s block_storage_handler" where
  "open_handler req p =
     do {
       (rpc_st, args) \<leftarrow> bs_deserialize bss_deserialize_open_req p req;
       if rpc_st \<noteq> RPC_SUCCESS then Some (rpc_st, req, p)
       else do {
         partition_guid \<leftarrow> args;
         ser \<leftarrow> get_block_storage_serializer p req;
         (op_status, handle, s) \<leftarrow>
           block_store_open (bsp_block_store p) (bsp_store p) (ucast (req_source_id req)) partition_guid;
         let req1 = req\<lparr>req_service_status := op_status\<rparr>;
         let p1 = p\<lparr>bsp_store := s\<rparr>;
         if op_status = PSA_SUCCESS
         then do {
           (st, buf) \<leftarrow> bss_serialize_open_resp ser (req_response req1) handle;
           Some (st, req1\<lparr>req_response := buf\<rparr>, p1)
         }
         else Some (rpc_st, req1, p1)
       }
     }"

definition close_handler :: "'s block_storage_handler" where
  "close_handler req p =
     do {
       (rpc_st, args) \<leftarrow> bs_deserialize bss_deserialize_close_req p req;
       if rpc_st \<noteq> RPC_SUCCESS then Some (rpc_st, req, p)
       else do {
         handle \<leftarrow> args;
         (op_status, s) \<leftarrow>
           block_store_close (bsp_block_store p) (bsp_store p) (ucast (req_source_id req)) handle;
         Some (rpc_st, req\<lparr>req_service_status := op_status\<rparr>, p\<lparr>bsp_store := s\<rparr>)
       }
     }"

text \<open>The store reads straight into the response buffer; a read that fails leaves the buffer and
  its length as they are.\<close>

definition read_handler :: "'s block_storage_handler" where
  "read_handler req p =
     do {
       (rpc_st, args) \<leftarrow> bs_deserialize bss_deserialize_read_req p req;
       if rpc_st \<noteq> RPC_SUCCESS then Some (rpc_st, req, p)
       else do {
         (handle, lba, offset, len) \<leftarrow> args;
         let len1 = (if rb_size (req_response req) < len then rb_size (req_response req) else len);
         (op_status, d, s) \<leftarrow>
           block_store_read (bsp_block_store p) (bsp_store p) (ucast (req_source_id req))
             handle lba offset len1;
         buf \<leftarrow> (if op_status = PSA_SUCCESS then rpc_buffer_put (req_response req) d
                else Some (req_response req));
         Some (rpc_st, req\<lparr>req_service_status := op_status, req_response := buf\<rparr>, p\<lparr>bsp_store := s\<rparr>)
       }
     }"

definition write_handler :: "'s block_storage_handler" where
  "write_handler req p =
     do {
       (rpc_st, args) \<leftarrow> bs_deserialize bss_deserialize_write_req p req;
       if rpc_st \<noteq> RPC_SUCCESS then Some (rpc_st, req, p)
       else do {
         (handle, lba, offset, d) \<leftarrow> args;
         ser \<leftarrow> get_block_storage_serializer p req;
         (op_status, num_written, s) \<leftarrow>
           block_store_write (bsp_block_store p) (bsp_store p) (ucast (req_source_id req))
             handle lba offset d;
         let req1 = req\<lparr>req_service_status := op_status\<rparr>;
         let p1 = p\<lparr>bsp_store := s\<rparr>;
         if op_status = PSA_SUCCESS
         then do {
           (st, buf) \<leftarrow> bss_serialize_write_resp ser (req_response req1) num_written;
           Some (st, req1\<lparr>req_response := buf\<rparr>, p1)
         }
         else Some (rpc_st, req1, p1)
       }
     }"

definition erase_handler :: "'s block_storage_handler" where
  "erase_handler req p =
     do {
       (rpc_st, args) \<leftarrow> bs_deserialize bss_deserialize_erase_req p req;
       if rpc_st \<noteq> RPC_SUCCESS then Some (rpc_st, req, p)
       else do {
         (handle, begin_lba, num_blocks) \<leftarrow> args;
         (op_status, s) \<leftarrow>
           block_store_erase (bsp_block_store p) (bsp_store p) (ucast (req_source_id req))
             handle begin_lba num_blocks;
         Some (rpc_st, req\<lparr>req_service_status := op_status\<rparr>, p\<lparr>bsp_store := s\<rparr>)
       }
     }"

definition block_storage_handler_table :: "(unit, 's block_storage_provider) service_handler list" where
  "block_storage_handler_table =
     [\<lparr>sh_opcode = TS_BLOCK_STORAGE_OPCODE_GET_PARTITION_INFO, sh_invoke = (\<lambda>_. get_partition_info_handler)\<rparr>,
      \<lparr>sh_opcode = TS_BLOCK_STORAGE_OPCODE_OPEN, sh_invoke = (\<lambda>_. open_handler)\<rparr>,
      \<lparr>sh_opcode = TS_BLOCK_STORAGE_OPCODE_CLOSE, sh_invoke = (\<lambda>_. close_handler)\<rparr>,
      \<lparr>sh_opcode = TS_BLOCK_STORAGE_OPCODE_READ, sh_invoke = (\<lambda>_. read_handler)\<rparr>,
      \<lparr>sh_opcode = TS_BLOCK_STORAGE_OPCODE_WRITE, sh_invoke = (\<lambda>_. write_handler)\<rparr>,
      \<lparr>sh_opcode = TS_BLOCK_STORAGE_OPCODE_ERASE, sh_invoke = (\<lambda>_. erase_handler)\<rparr>]"

definition TS_BLOCK_STORAGE_SERVICE_UUID :: bytes where
  "TS_BLOCK_STORAGE_SERVICE_UUID =
     [0x63, 0x64, 0x6e, 0x80, 0xeb, 0x52, 0x46, 0x2f, 0xac, 0x4f, 0x8c, 0xdf, 0x39, 0x87, 0x51, 0x9c]"

text \<open>\<open>block_storage_provider_init\<close>: no serializer, the given store, and a base provider with the
  handler table. Without a context there is no interface.\<close>

definition block_storage_base_provider :: "(unit, 's block_storage_provider) service_provider" where
  "block_storage_base_provider =
     service_provider_init () TS_BLOCK_STORAGE_SERVICE_UUID block_storage_handler_table"

definition block_storage_provider_init ::
  "'s block_storage_provider option \<Rightarrow> 's block_store_interface option \<Rightarrow> 's \<Rightarrow>
    ((unit, 's block_storage_provider) service_provider \<times> 's block_storage_provider) option" where
  "block_storage_provider_init context iface s =
     map_option (\<lambda>p. (block_storage_base_provider,
       p\<lparr>bsp_serializer := None, bsp_block_store := iface, bsp_store := s\<rparr>)) context"

definition block_storage_serve :: "'s block_storage_handler" where
  "block_storage_serve req p =
     rpc_service_receive [0 \<mapsto> block_storage_base_provider] (Some 0) req p"


section \<open>The meaning of a request\<close>

datatype bs_op =
    Bs_Info uuid_octets
  | Bs_Open uuid_octets
  | Bs_Close storage_partition_handle_t
  | Bs_Read storage_partition_handle_t lba_t size_t size_t
  | Bs_Write storage_partition_handle_t lba_t size_t bytes
  | Bs_Erase storage_partition_handle_t lba_t size_t

datatype bs_request = Bs_Unknown | Bs_Malformed | Bs_Op bs_op

definition bs_decode_body :: "size_t \<Rightarrow> (bytes \<Rightarrow> bs_op) \<Rightarrow> rpc_request \<Rightarrow> bs_request" where
  "bs_decode_body n f req =
     (if n \<le> rb_data_length (req_request req) then Bs_Op (f (slice (rb_data (req_request req)) 0 n))
      else Bs_Malformed)"

definition bs_write_data :: "rpc_request \<Rightarrow> bytes" where
  "bs_write_data req =
     slice (rb_data (req_request req)) sizeof_write_in (rb_data_length (req_request req) - sizeof_write_in)"

definition bs_decode :: "rpc_request \<Rightarrow> bs_request" where
  "bs_decode req =
     (let opc = ucast (req_opcode req) :: u32
      in if opc = TS_BLOCK_STORAGE_OPCODE_GET_PARTITION_INFO
         then bs_decode_body sizeof_guid_in Bs_Info req
         else if opc = TS_BLOCK_STORAGE_OPCODE_OPEN then bs_decode_body sizeof_guid_in Bs_Open req
         else if opc = TS_BLOCK_STORAGE_OPCODE_CLOSE
         then bs_decode_body sizeof_u64_msg (\<lambda>m. Bs_Close (msg_handle m)) req
         else if opc = TS_BLOCK_STORAGE_OPCODE_READ
         then bs_decode_body sizeof_read_in
           (\<lambda>m. Bs_Read (msg_handle m) (msg_field m 8 8) (msg_field m 16 4) (msg_field m 20 4)) req
         else if opc = TS_BLOCK_STORAGE_OPCODE_WRITE
         then bs_decode_body sizeof_write_in
           (\<lambda>m. Bs_Write (msg_handle m) (msg_field m 8 8) (msg_field m 16 4) (bs_write_data req)) req
         else if opc = TS_BLOCK_STORAGE_OPCODE_ERASE
         then bs_decode_body sizeof_erase_in
           (\<lambda>m. Bs_Erase (msg_handle m) (msg_field m 8 8) (msg_field m 16 4)) req
         else Bs_Unknown)"

definition bs_info_message :: "storage_partition_info \<Rightarrow> bytes" where
  "bs_info_message info =
     le_bytes 8 (spi_num_blocks info) @ le_bytes 4 (spi_block_size info)
     @ uuid_field (spi_partition_guid info) @ uuid_field (spi_parent_guid info)"

lemma length_bs_info_message [simp]: "length (bs_info_message info) = sizeof_get_partition_info_out"
  by (simp add: bs_info_message_def)

text \<open>The status of an operation, what is sent back when it succeeds, and the store after it.\<close>

fun bs_apply ::
  "'s block_store_interface \<Rightarrow> u32 \<Rightarrow> size_t \<Rightarrow> bs_op \<Rightarrow> 's \<Rightarrow> (psa_status \<times> bytes option \<times> 's) option" where
  "bs_apply iface c room (Bs_Info g) s =
     do {
       (st, io, s') \<leftarrow> bsi_get_partition_info iface s g;
       Some (st, if st = PSA_SUCCESS then map_option bs_info_message io else None, s')
     }"
| "bs_apply iface c room (Bs_Open g) s =
     do {
       (st, h, s') \<leftarrow> bsi_open iface s c g;
       Some (st, if st = PSA_SUCCESS then Some (le_bytes 8 (unat h)) else None, s')
     }"
| "bs_apply iface c room (Bs_Close h) s =
     do { (st, s') \<leftarrow> bsi_close iface s c h; Some (st, None, s') }"
| "bs_apply iface c room (Bs_Read h lba off n) s =
     do {
       (st, d, s') \<leftarrow> bsi_read iface s c h lba off (min n room);
       Some (st, if st = PSA_SUCCESS then Some d else None, s')
     }"
| "bs_apply iface c room (Bs_Write h lba off d) s =
     do {
       (st, k, s') \<leftarrow> bsi_write iface s c h lba off d;
       Some (st, if st = PSA_SUCCESS then Some (le_bytes 8 k) else None, s')
     }"
| "bs_apply iface c room (Bs_Erase h lba n) s =
     do { (st, s') \<leftarrow> bsi_erase iface s c h lba n; Some (st, None, s') }"

text \<open>The answer to a request: the operation has taken effect even when its result does not fit
  the response.\<close>

definition bs_answer ::
  "'s block_storage_provider \<Rightarrow> rpc_request \<Rightarrow> psa_status \<times> bytes option \<times> 's \<Rightarrow>
    rpc_status \<times> rpc_request \<times> 's block_storage_provider" where
  "bs_answer p req r =
     (case r of (st, out, s') \<Rightarrow>
        (let req1 = req\<lparr>req_service_status := st\<rparr>; buf = req_response req; p1 = p\<lparr>bsp_store := s'\<rparr>
         in case out of
              None \<Rightarrow> (RPC_SUCCESS, req1, p1)
            | Some msg \<Rightarrow>
                if length msg \<le> rb_size buf
                then (RPC_SUCCESS,
                      req1\<lparr>req_response := buf\<lparr>rb_data := splice (rb_data buf) 0 msg,
                                                  rb_data_length := length msg\<rparr>\<rparr>, p1)
                else (RPC_ERROR_INTERNAL, req1, p1)))"

definition bs_execute ::
  "'s block_store_interface \<Rightarrow> rpc_request \<Rightarrow> 's block_storage_provider \<Rightarrow> bs_request \<Rightarrow>
    's block_storage_provider handler_result" where
  "bs_execute iface req p r =
     (case r of
        Bs_Unknown \<Rightarrow> Some (RPC_ERROR_INVALID_VALUE, req, p)
      | Bs_Malformed \<Rightarrow> Some (RPC_ERROR_INVALID_REQUEST_BODY, req, p)
      | Bs_Op op \<Rightarrow>
          map_option (bs_answer p req)
            (bs_apply iface (ucast (req_source_id req)) (rb_size (req_response req)) op (bsp_store p)))"

definition bs_ready :: "'s block_store_interface \<Rightarrow> 's block_storage_provider \<Rightarrow> bool" where
  "bs_ready iface p \<longleftrightarrow>
     bsp_serializer p = Some packedc_block_storage_serializer_instance \<and> bsp_block_store p = Some iface"

definition bs_service_inv :: "'s block_store_interface \<Rightarrow> ('s \<Rightarrow> bool) \<Rightarrow> 's block_storage_provider \<Rightarrow> bool" where
  "bs_service_inv iface store_inv p \<longleftrightarrow> bs_ready iface p \<and> store_inv (bsp_store p)"

lemmas packedc_block_storage_defs = packedc_block_storage_serializer_instance_def
  deserialize_get_partition_info_req_def serialize_get_partition_info_resp_def
  deserialize_open_req_def serialize_open_resp_def deserialize_close_req_def
  deserialize_read_req_def deserialize_write_req_def serialize_write_resp_def
  deserialize_erase_req_def

lemmas bs_spec_defs = bs_execute_def bs_decode_body_def bs_answer_def bs_write_data_def

lemma bs_put_response:
  assumes "wf_rpc_request req" and "length msg \<le> rb_size (req_response req)"
  shows "rpc_buffer_put (req_response req) msg = Some ((req_response req)\<lparr>rb_data := splice (rb_data (req_response req)) 0 msg,
    rb_data_length := length msg\<rparr>)"
  using assms by (intro rpc_buffer_put_in) (simp_all add: wf_rpc_request_def)

context block_store_geometry
begin

lemma handler_eqs:
  assumes inv: "bs_service_inv iface store_inv p" and wf: "wf_rpc_request req"
  shows "get_partition_info_handler req p = bs_execute iface req p (bs_decode_body sizeof_guid_in Bs_Info req)"
    and "open_handler req p = bs_execute iface req p (bs_decode_body sizeof_guid_in Bs_Open req)"
    and "close_handler req p
      = bs_execute iface req p (bs_decode_body sizeof_u64_msg (\<lambda>m. Bs_Close (msg_handle m)) req)"
    and "read_handler req p = bs_execute iface req p (bs_decode_body sizeof_read_in
      (\<lambda>m. Bs_Read (msg_handle m) (msg_field m 8 8) (msg_field m 16 4) (msg_field m 20 4)) req)"
    and "write_handler req p = bs_execute iface req p (bs_decode_body sizeof_write_in
      (\<lambda>m. Bs_Write (msg_handle m) (msg_field m 8 8) (msg_field m 16 4) (bs_write_data req)) req)"
    and "erase_handler req p = bs_execute iface req p (bs_decode_body sizeof_erase_in
      (\<lambda>m. Bs_Erase (msg_handle m) (msg_field m 8 8) (msg_field m 16 4)) req)"
proof -
  let ?s = "bsp_store p" and ?b = "req_request req" and ?c = "ucast (req_source_id req) :: u32"
  have rdy: "bsp_serializer p = Some packedc_block_storage_serializer_instance"
      "bsp_block_store p = Some iface" and si: "store_inv ?s"
    using inv by (simp_all add: bs_service_inv_def bs_ready_def)
  have wfb: "wf_rpc_buffer ?b"
    using wf by (simp add: wf_rpc_request_def)
  note rd = wf_rpc_buffer_read [OF wfb]
  note defs = bs_deserialize_def get_block_storage_serializer_def rdy packedc_block_storage_defs
    block_store_wrappers bs_spec_defs rd Let_def bs_put_response [OF wf]
  obtain st io s' where i: "bsi_get_partition_info iface ?s (slice (rb_data ?b) 0 sizeof_guid_in) = Some (st, io, s')"
    "st = PSA_SUCCESS \<longleftrightarrow> io \<noteq> None"
    using info_returns [OF si, of "slice (rb_data ?b) 0 sizeof_guid_in"] by blast
  show "get_partition_info_handler req p = bs_execute iface req p (bs_decode_body sizeof_guid_in Bs_Info req)"
    using i bs_put_response [OF wf]
    by (auto simp: get_partition_info_handler_def defs bs_info_message_def)
  obtain st h s' where o: "bsi_open iface ?s ?c (slice (rb_data ?b) 0 sizeof_guid_in) = Some (st, h, s')"
    using open_returns [OF si, of ?c "slice (rb_data ?b) 0 sizeof_guid_in"] by blast
  show "open_handler req p = bs_execute iface req p (bs_decode_body sizeof_guid_in Bs_Open req)"
    using o by (simp add: open_handler_def defs)
  show "close_handler req p
      = bs_execute iface req p (bs_decode_body sizeof_u64_msg (\<lambda>m. Bs_Close (msg_handle m)) req)"
    using close_returns [OF si, of ?c "msg_handle (slice (rb_data ?b) 0 sizeof_u64_msg)"]
    by (auto simp: close_handler_def defs)
  let ?m = "slice (rb_data ?b) 0 sizeof_read_in"
  let ?n = "min (msg_field ?m 20 4) (rb_size (req_response req))"
  obtain st d s' where r: "bsi_read iface ?s ?c (msg_handle ?m) (msg_field ?m 8 8) (msg_field ?m 16 4) ?n
      = Some (st, d, s')" "length d \<le> rb_size (req_response req)"
    using read_returns [OF si, of ?c "msg_handle ?m" "msg_field ?m 8 8" "msg_field ?m 16 4" ?n]
    by (fastforce split: if_splits)
  have "(if rb_size (req_response req) < msg_field ?m 20 4 then rb_size (req_response req) else msg_field ?m 20 4) = ?n"
    by simp
  then show "read_handler req p = bs_execute iface req p (bs_decode_body sizeof_read_in
      (\<lambda>m. Bs_Read (msg_handle m) (msg_field m 8 8) (msg_field m 16 4) (msg_field m 20 4)) req)"
    using r by (simp add: read_handler_def defs)
  let ?m = "slice (rb_data ?b) 0 sizeof_write_in"
  obtain st k s' where w: "bsi_write iface ?s ?c (msg_handle ?m) (msg_field ?m 8 8) (msg_field ?m 16 4)
      (slice (rb_data ?b) sizeof_write_in (rb_data_length ?b - sizeof_write_in)) = Some (st, k, s')"
    using write_returns [OF si] by blast
  then show "write_handler req p = bs_execute iface req p (bs_decode_body sizeof_write_in
      (\<lambda>m. Bs_Write (msg_handle m) (msg_field m 8 8) (msg_field m 16 4) (bs_write_data req)) req)"
    by (simp add: write_handler_def defs)
  show "erase_handler req p = bs_execute iface req p (bs_decode_body sizeof_erase_in
      (\<lambda>m. Bs_Erase (msg_handle m) (msg_field m 8 8) (msg_field m 16 4)) req)"
    using erase_returns [OF si, of ?c "msg_handle ?m" "msg_field ?m 8 8" "msg_field ?m 16 4"]
    by (auto simp: erase_handler_def defs)
qed

lemma block_storage_serve_eq:
  assumes "bs_service_inv iface store_inv p" and "wf_rpc_request req"
  shows "block_storage_serve req p = bs_execute iface req p (bs_decode req)"
  unfolding block_storage_serve_def block_storage_base_provider_def single_provider_receive
  by (simp add: block_storage_handler_table_def handler_eqs [OF assms] bs_decode_def Let_def bs_execute_def)

text \<open>An operation returns, keeps the store's invariant and answers with at most the room there
  is, or with one of the fixed-size messages.\<close>

lemma bs_apply_returns:
  assumes "store_inv s"
  obtains st out s' where "bs_apply iface c room op s = Some (st, out, s')" and "store_inv s'"
    and "extent_kept acc nblocks bsize s s'"
proof (cases op)
  case (Bs_Info g)
  with info_returns [OF assms, of g] that show ?thesis by fastforce
next
  case (Bs_Open g)
  with open_returns [OF assms, of c g] that show ?thesis by fastforce
next
  case (Bs_Close h)
  with close_returns [OF assms, of c h] that show ?thesis by fastforce
next
  case (Bs_Read h lba off n)
  with read_returns [OF assms, of c h lba off "min n room"] that show ?thesis by fastforce
next
  case (Bs_Write h lba off d)
  with write_returns [OF assms, of c h lba off d] that show ?thesis by fastforce
next
  case (Bs_Erase h lba n)
  with erase_returns [OF assms, of c h lba n] that show ?thesis by fastforce
qed

end

lemma bs_answer_keeps:
  assumes "wf_rpc_request req" and "bs_answer p req (st, out, s') = (rpc, req', p')"
  shows "wf_rpc_request req'" and "same_buffer_sizes req req'"
    and "p' = p\<lparr>bsp_store := s'\<rparr>" and "req_service_status req' = st"
  using assms
  by (auto simp: bs_answer_def Let_def wf_rpc_request_def same_buffer_sizes_def wf_rpc_buffer_def
      split: option.splits if_splits)

text \<open>A store that keeps the contract of block stores makes an endpoint that keeps the contract
  of RPC endpoints.\<close>

sublocale block_store_geometry \<subseteq> service: rpc_service block_storage_serve "bs_service_inv iface store_inv"
proof
  fix p req
  assume inv: "bs_service_inv iface store_inv p" and wf: "wf_rpc_request req"
  then have si: "store_inv (bsp_store p)" and rdy: "bs_ready iface p"
    by (simp_all add: bs_service_inv_def)
  show "\<exists>st req' p'. block_storage_serve req p = Some (st, req', p') \<and> bs_service_inv iface store_inv p'
    \<and> wf_rpc_request req' \<and> same_buffer_sizes req req'"
  proof (cases "bs_decode req")
    case (Bs_Op op)
    obtain st out s' where a: "bs_apply iface (ucast (req_source_id req)) (rb_size (req_response req)) op (bsp_store p)
        = Some (st, out, s')" "store_inv s'"
      by (rule bs_apply_returns [OF si])
    obtain rpc req' p' where b: "bs_answer p req (st, out, s') = (rpc, req', p')"
      by (metis prod_cases3)
    from bs_answer_keeps [OF wf b] a b Bs_Op rdy show ?thesis
      by (auto simp: block_storage_serve_eq [OF inv wf] bs_execute_def bs_service_inv_def bs_ready_def)
  qed (use inv wf in \<open>auto simp: block_storage_serve_eq bs_execute_def same_buffer_sizes_def\<close>)
qed


section \<open>A concrete service\<close>

text \<open>The sample partition table behind a provider: client 5 has the first partition open,
  client 6 the second.\<close>

abbreviation ram_pbs_interface :: "ram_block_store partitioned_block_store block_store_interface" where
  "ram_pbs_interface \<equiv> partitioned_block_store_interface ram_back"

abbreviation ram_bs_inv :: "ram_block_store partitioned_block_store block_storage_provider \<Rightarrow> bool" where
  "ram_bs_inv \<equiv> bs_service_inv ram_pbs_interface ram_pbs_inv"

definition sample_bs_provider :: "'s block_store_interface \<Rightarrow> 's \<Rightarrow> 's block_storage_provider" where
  "sample_bs_provider iface s =
     \<lparr>bsp_serializer = Some packedc_block_storage_serializer_instance, bsp_block_store = Some iface,
      bsp_store = s\<rparr>"

lemma sample_bs_provider_store [simp]: "bsp_store (sample_bs_provider iface s) = s"
  by (simp add: sample_bs_provider_def)

lemma sample_bs_provider_inv:
  "store_inv s \<Longrightarrow> bs_service_inv iface store_inv (sample_bs_provider iface s)"
  by (simp add: bs_service_inv_def bs_ready_def sample_bs_provider_def)


section \<open>Properties\<close>

text \<open>
  Property C7. The block storage service over a partitioned RAM disk answers every well-formed
  request as the decoded operation on the block store says, with the caller's endpoint as the
  client: it never runs into undefined behaviour, keeps the store's invariant, and never answers
  with more bytes than the response buffer holds.
\<close>

theorem block_storage_service_refines:
  assumes inv: "ram_bs_inv p" and wf: "wf_rpc_request req"
  shows "block_storage_serve req p = bs_execute ram_pbs_interface req p (bs_decode req)
    \<and> (\<exists>st req' p'. block_storage_serve req p = Some (st, req', p') \<and> ram_bs_inv p'
         \<and> rb_data_length (req_response req') \<le> rb_size (req_response req))"
proof
  show eq: "block_storage_serve req p = bs_execute ram_pbs_interface req p (bs_decode req)"
    by (rule ram_partitioned.partitioned.block_storage_serve_eq [OF assms])
  obtain st req' p' where s: "block_storage_serve req p = Some (st, req', p')" "ram_bs_inv p'"
    using ram_partitioned.partitioned.service.serve_returns [OF assms] by blast
  with ram_partitioned.partitioned.service.serve_response_in_buffer [OF assms s(1)]
  show "\<exists>st req' p'. block_storage_serve req p = Some (st, req', p') \<and> ram_bs_inv p'
         \<and> rb_data_length (req_response req') \<le> rb_size (req_response req)"
    by blast
qed

theorem block_storage_service_refines_witness:
  "\<exists>t. sample_table = Some t
    \<and> block_storage_serve (sample_request 0x103 (le_bytes 8 0) 4) (sample_bs_provider ram_pbs_interface t)
      = bs_execute ram_pbs_interface (sample_request 0x103 (le_bytes 8 0) 4) (sample_bs_provider ram_pbs_interface t)
          (bs_decode (sample_request 0x103 (le_bytes 8 0) 4))"
proof -
  obtain t where t: "sample_table = Some t" "ram_pbs_inv t"
    by (rule sample_table_ok)
  have "wf_rpc_request (sample_request 0x103 (le_bytes 8 0) 4)"
    by (rule sample_request_wf) simp_all
  from block_storage_service_refines [OF sample_bs_provider_inv [of ram_pbs_inv, OF t(2)] this] t(1) show ?thesis
    by blast
qed

text \<open>
  Property C32. An open request whose response buffer cannot hold the handle is answered with an
  RPC error, but the partition has been opened for the caller all the same: where it was free,
  every other client is locked out from then on.
\<close>

theorem open_without_room_takes_partition:
  assumes inv: "ram_bs_inv p" and wf: "wf_rpc_request req"
    and req: "bs_decode req = Bs_Op (Bs_Open g)" "rb_size (req_response req) < sizeof_u64_msg"
    and op: "partitioned_block_store_open (bsp_store p) (ucast (req_source_id req)) g = Some (PSA_SUCCESS, h, s')"
  shows "block_storage_serve req p
      = Some (RPC_ERROR_INTERNAL, req\<lparr>req_service_status := PSA_SUCCESS\<rparr>, p\<lparr>bsp_store := s'\<rparr>)
    \<and> pbs_acc s' (ucast (req_source_id req)) h = PSA_SUCCESS"
proof -
  have si: "ram_pbs_inv (bsp_store p)"
    using inv by (simp add: bs_service_inv_def)
  have o: "bsi_open ram_pbs_interface (bsp_store p) (ucast (req_source_id req)) g = Some (PSA_SUCCESS, h, s')"
    using op by (simp add: partitioned_block_store_interface_def)
  have "pbs_acc s' (ucast (req_source_id req)) h = PSA_SUCCESS"
    using ram_partitioned.partitioned.open_returns [OF si, of "ucast (req_source_id req)" g] o by auto
  moreover have "block_storage_serve req p = bs_execute ram_pbs_interface req p (Bs_Op (Bs_Open g))"
    using ram_partitioned.partitioned.block_storage_serve_eq [OF inv wf] req(1) by simp
  ultimately show ?thesis
    using o req(2) by (simp add: bs_execute_def bs_answer_def Let_def)
qed

theorem open_without_room_takes_partition_witness:
  "\<exists>t s' h. sample_table = Some t
    \<and> block_storage_serve ((sample_request 0x102 (sample_guid 1) 4)\<lparr>req_source_id := 5\<rparr>)
        (sample_bs_provider ram_pbs_interface t)
      = Some (RPC_ERROR_INTERNAL, (sample_request 0x102 (sample_guid 1) 4)\<lparr>req_source_id := 5, req_service_status := PSA_SUCCESS\<rparr>,
          (sample_bs_provider ram_pbs_interface t)\<lparr>bsp_store := s'\<rparr>)
    \<and> pbs_acc s' 5 h = PSA_SUCCESS"
proof -
  let ?r = "(sample_request 0x102 (sample_guid 1) 4)\<lparr>req_source_id := 5\<rparr>"
  obtain t where t: "sample_table = Some t" "ram_pbs_inv t"
    by (rule sample_table_ok)
  have "case sample_table of None \<Rightarrow> False
    | Some t \<Rightarrow> (case partitioned_block_store_open t 5 (sample_guid 1) of None \<Rightarrow> False | Some (st, h, s') \<Rightarrow> st = PSA_SUCCESS)"
    by (simp add: sample_table_eval)
  then obtain h s' where op: "partitioned_block_store_open t 5 (sample_guid 1) = Some (PSA_SUCCESS, h, s')"
    unfolding t option.case by (auto split: option.splits)
  have wf: "wf_rpc_request ?r"
    using sample_request_wf [of "sample_guid 1" 4 "0x102"]
    by (simp add: wf_rpc_request_def sample_guid_def)
  have dec: "bs_decode ?r = Bs_Op (Bs_Open (sample_guid 1))" and sz: "rb_size (req_response ?r) < sizeof_u64_msg"
    by (simp_all add: sample_request_def bs_decode_def bs_decode_body_def sample_guid_def slice_def)
  from open_without_room_takes_partition [OF sample_bs_provider_inv [of ram_pbs_inv, OF t(2)] wf dec sz, of h s'] op t(1)
  show ?thesis by auto
qed

end
