(* ===== verification/BlockStorageClient.thy ===== *)
theory BlockStorageClient
  imports BlockStorageProvider
begin

text \<open>
  The block storage client (\<open>block_storage_client.c\<close>): a block store whose operations are
  calls of the block storage service. Over the direct caller it behaves like the store behind the
  service, as used by the client identified by the caller's endpoint; its own \<open>client_id\<close>
  arguments are not looked at.
\<close>

section \<open>Operations\<close>

text \<open>The client object with its caller: the session is in the client, \<open>'c\<close> is the caller's
  context.\<close>

type_synonym 'c bs_client = "service_client \<times> 'c"

type_synonym bs_call_result = "(rpc_status \<times> bytes option \<times> size_t \<times> service_status) option"

text \<open>What every operation does with the outcome of its call; \<open>decode\<close> turns the response of a
  successful operation into its results, \<open>dflt\<close> are the results of an unsuccessful one.\<close>

definition bs_client_result ::
  "service_client \<Rightarrow> 'a \<Rightarrow> (bytes option \<Rightarrow> size_t \<Rightarrow> (psa_status \<times> 'a) option) \<Rightarrow>
    bs_call_result \<times> rpc_caller_session option \<times> 'c \<Rightarrow> (psa_status \<times> 'a \<times> 'c bs_client) option" where
  "bs_client_result cl dflt decode r =
     (case r of
        (None, ses, c1) \<Rightarrow>
          Some (PSA_ERROR_GENERIC_ERROR, dflt,
                cl\<lparr>sc_session := ses, sc_rpc_status := RPC_ERROR_INTERNAL\<rparr>, c1)
      | (Some (rpc_status, resp_buf, resp_len, service_status), ses, c1) \<Rightarrow>
          (let cl1 = cl\<lparr>sc_session := ses, sc_rpc_status := rpc_status\<rparr>
           in if rpc_status \<noteq> RPC_SUCCESS then Some (PSA_ERROR_GENERIC_ERROR, dflt, cl1, c1)
              else if service_status \<noteq> PSA_SUCCESS then Some (service_status, dflt, cl1, c1)
              else do {
                (st, a) \<leftarrow> decode resp_buf resp_len;
                Some (st, a, cl1, c1)
              }))"

text \<open>A response that is a fixed-size message.\<close>

definition bs_fixed_response ::
  "size_t \<Rightarrow> 'a \<Rightarrow> (bytes \<Rightarrow> 'a) \<Rightarrow> bytes option \<Rightarrow> size_t \<Rightarrow> (psa_status \<times> 'a) option" where
  "bs_fixed_response n dflt f resp_buf resp_len =
     (if n \<le> resp_len
      then do {
        b \<leftarrow> resp_buf;
        msg \<leftarrow> mem_read b 0 n;
        Some (PSA_SUCCESS, f msg)
      }
      else Some (PSA_ERROR_GENERIC_ERROR, dflt))"

definition block_storage_client_get_partition_info ::
  "'c rpc_caller_interface \<Rightarrow> 'c bs_client \<Rightarrow> uuid_octets \<Rightarrow>
    (psa_status \<times> storage_partition_info option \<times> 'c bs_client) option" where
  "block_storage_client_get_partition_info ci cc partition_guid =
     (case cc of (cl, c) \<Rightarrow>
        do {
          r \<leftarrow> rpc_client_call ci (sc_session cl) c TS_BLOCK_STORAGE_OPCODE_GET_PARTITION_INFO
                 sizeof_guid_in [(0, uuid_field partition_guid)] sizeof_get_partition_info_out;
          bs_client_result cl None
            (bs_fixed_response sizeof_get_partition_info_out None
               (\<lambda>m. Some \<lparr>spi_num_blocks = msg_field m 0 8, spi_block_size = msg_field m 8 4,
                          spi_partition_guid = slice m 12 16, spi_parent_guid = slice m 28 16\<rparr>)) r
        })"

definition block_storage_client_open ::
  "'c rpc_caller_interface \<Rightarrow> 'c bs_client \<Rightarrow> u32 \<Rightarrow> uuid_octets \<Rightarrow>
    (psa_status \<times> storage_partition_handle_t \<times> 'c bs_client) option" where
  "block_storage_client_open ci cc client_id partition_guid =
     (case cc of (cl, c) \<Rightarrow>
        do {
          r \<leftarrow> rpc_client_call ci (sc_session cl) c TS_BLOCK_STORAGE_OPCODE_OPEN
                 sizeof_guid_in [(0, uuid_field partition_guid)] sizeof_u64_msg;
          bs_client_result cl 0 (bs_fixed_response sizeof_u64_msg 0 msg_handle) r
        })"

definition block_storage_client_close ::
  "'c rpc_caller_interface \<Rightarrow> 'c bs_client \<Rightarrow> u32 \<Rightarrow> storage_partition_handle_t \<Rightarrow>
    (psa_status \<times> 'c bs_client) option" where
  "block_storage_client_close ci cc client_id handle =
     (case cc of (cl, c) \<Rightarrow>
        do {
          r \<leftarrow> rpc_client_call ci (sc_session cl) c TS_BLOCK_STORAGE_OPCODE_CLOSE
                 sizeof_u64_msg [(0, le_bytes 8 (unat handle))] 0;
          (st, _, cc1) \<leftarrow> bs_client_result cl () (\<lambda>_ _. Some (PSA_SUCCESS, ())) r;
          Some (st, cc1)
        })"

text \<open>The fixed part of the read, write and erase requests; the offset and the two lengths are
  32 bits wide on the wire.\<close>

definition bs_extent_message :: "storage_partition_handle_t \<Rightarrow> lba_t \<Rightarrow> size_t \<Rightarrow> bytes" where
  "bs_extent_message handle lba n = le_bytes 8 (unat handle) @ le_bytes 8 lba @ le_bytes 4 n"

lemma length_bs_extent_message [simp]: "length (bs_extent_message h lba n) = sizeof_write_in"
  by (simp add: bs_extent_message_def)

definition block_storage_client_read ::
  "'c rpc_caller_interface \<Rightarrow> 'c bs_client \<Rightarrow> u32 \<Rightarrow> storage_partition_handle_t \<Rightarrow> lba_t \<Rightarrow> size_t \<Rightarrow>
    size_t \<Rightarrow> (psa_status \<times> bytes \<times> 'c bs_client) option" where
  "block_storage_client_read ci cc client_id handle lba offset buffer_size =
     (case cc of (cl, c) \<Rightarrow>
        do {
          r \<leftarrow> rpc_client_call ci (sc_session cl) c TS_BLOCK_STORAGE_OPCODE_READ sizeof_read_in
                 [(0, bs_extent_message handle lba offset @ le_bytes 4 buffer_size)] buffer_size;
          bs_client_result cl []
            (\<lambda>resp_buf resp_len.
               if resp_len \<le> buffer_size
               then if resp_len = 0 then Some (PSA_SUCCESS, [])
                    else do {
                      b \<leftarrow> resp_buf;
                      d \<leftarrow> mem_read b 0 resp_len;
                      Some (PSA_SUCCESS, d)
                    }
               else Some (PSA_ERROR_BUFFER_TOO_SMALL, [])) r
        })"

definition block_storage_client_write ::
  "'c rpc_caller_interface \<Rightarrow> 'c bs_client \<Rightarrow> u32 \<Rightarrow> storage_partition_handle_t \<Rightarrow> lba_t \<Rightarrow> size_t \<Rightarrow>
    bytes \<Rightarrow> (psa_status \<times> size_t \<times> 'c bs_client) option" where
  "block_storage_client_write ci cc client_id handle lba offset d =
     (case cc of (cl, c) \<Rightarrow>
        do {
          r \<leftarrow> rpc_client_call ci (sc_session cl) c TS_BLOCK_STORAGE_OPCODE_WRITE
                 (add64 sizeof_write_in (length d))
                 [(0, bs_extent_message handle lba offset), (sizeof_write_in, d)] sizeof_u64_msg;
          bs_client_result cl 0 (bs_fixed_response sizeof_u64_msg 0 (\<lambda>m. msg_field m 0 8)) r
        })"

definition block_storage_client_erase ::
  "'c rpc_caller_interface \<Rightarrow> 'c bs_client \<Rightarrow> u32 \<Rightarrow> storage_partition_handle_t \<Rightarrow> lba_t \<Rightarrow> size_t \<Rightarrow>
    (psa_status \<times> 'c bs_client) option" where
  "block_storage_client_erase ci cc client_id handle begin_lba num_blocks =
     (case cc of (cl, c) \<Rightarrow>
        do {
          r \<leftarrow> rpc_client_call ci (sc_session cl) c TS_BLOCK_STORAGE_OPCODE_ERASE sizeof_erase_in
                 [(0, bs_extent_message handle begin_lba num_blocks)] 0;
          (st, _, cc1) \<leftarrow> bs_client_result cl () (\<lambda>_ _. Some (PSA_SUCCESS, ())) r;
          Some (st, cc1)
        })"

definition block_storage_client_interface :: "'c rpc_caller_interface \<Rightarrow> 'c bs_client block_store_interface" where
  "block_storage_client_interface ci =
     \<lparr>bsi_get_partition_info = block_storage_client_get_partition_info ci,
      bsi_open = block_storage_client_open ci, bsi_close = block_storage_client_close ci,
      bsi_read = block_storage_client_read ci, bsi_write = block_storage_client_write ci,
      bsi_erase = block_storage_client_erase ci\<rparr>"

text \<open>\<open>block_storage_client_init\<close> drops the status of the base initialisation.\<close>

definition block_storage_client_init ::
  "'c rpc_caller_interface \<Rightarrow> service_client \<Rightarrow> rpc_caller_session option \<Rightarrow>
    'c bs_client block_store_interface \<times> service_client option" where
  "block_storage_client_init ci cl session =
     (block_storage_client_interface ci, snd (service_client_init (Some cl) session))"

definition block_storage_client_deinit :: "service_client \<Rightarrow> service_client" where
  "block_storage_client_deinit cl = service_client_deinit cl"


section \<open>What the service reads in a request\<close>

lemma carried_slice:
  assumes "carried_request src opc msg room req" and "n \<le> length msg"
  shows "slice (rb_data (req_request req)) 0 n = slice msg 0 n"
proof -
  have m: "slice (rb_data (req_request req)) 0 (length msg) = msg"
    using assms(1) by (simp add: carried_request_def)
  have "slice (slice (rb_data (req_request req)) 0 (length msg)) 0 n = slice (rb_data (req_request req)) 0 n"
    using assms(2) by (simp add: slice_slice)
  with m show ?thesis by simp
qed

lemma slice_extent_message [wire_simps]:
  "slice (bs_extent_message h lba n @ d) 0 20 = bs_extent_message h lba n"
  "slice (bs_extent_message h lba n) 0 20 = bs_extent_message h lba n"
  by (simp_all add: slice_def)

lemma extent_message_fields [wire_simps]:
  "msg_handle (bs_extent_message h lba n @ d) = h"
  "msg_handle (bs_extent_message h lba n) = h"
  "lba < 2 ^ 64 \<Longrightarrow> msg_field (bs_extent_message h lba n @ d) 8 8 = lba"
  "lba < 2 ^ 64 \<Longrightarrow> msg_field (bs_extent_message h lba n) 8 8 = lba"
  "msg_field (bs_extent_message h lba n @ d) 16 4 = n mod 2 ^ 32"
  "msg_field (bs_extent_message h lba n) 16 4 = n mod 2 ^ 32"
proof -
  have h: "word_of_nat (unat h mod 18446744073709551616) = h"
    using unsigned_less [of h, where ?'a = nat] by simp
  show "msg_handle (bs_extent_message h lba n @ d) = h" "msg_handle (bs_extent_message h lba n) = h"
    using h by (simp_all add: msg_handle_def msg_field_def bs_extent_message_def slice_def le_val_le_bytes_mod)
  show "lba < 2 ^ 64 \<Longrightarrow> msg_field (bs_extent_message h lba n @ d) 8 8 = lba"
    "lba < 2 ^ 64 \<Longrightarrow> msg_field (bs_extent_message h lba n) 8 8 = lba"
    "msg_field (bs_extent_message h lba n @ d) 16 4 = n mod 2 ^ 32"
    "msg_field (bs_extent_message h lba n) 16 4 = n mod 2 ^ 32"
    by (simp_all add: msg_field_def bs_extent_message_def slice_def le_val_le_bytes_mod)
qed

lemma msg_handle_le_bytes [wire_simps]: "msg_handle (le_bytes 8 (unat (h :: storage_partition_handle_t))) = h"
proof -
  have "unat h < 256 ^ 8"
    using unsigned_less [of h, where ?'a = nat] by simp
  then show ?thesis
    by (simp add: msg_handle_def msg_field_def slice_def le_val_le_bytes)
qed

lemma decode_info:
  "carried_request src TS_BLOCK_STORAGE_OPCODE_GET_PARTITION_INFO (uuid_field g) room req \<Longrightarrow>
    bs_decode req = Bs_Op (Bs_Info (uuid_field g))"
  using carried_slice [of src TS_BLOCK_STORAGE_OPCODE_GET_PARTITION_INFO "uuid_field g" room req 16]
  by (simp add: carried_request_def bs_decode_def bs_decode_body_def slice_def)

lemma decode_open:
  "carried_request src TS_BLOCK_STORAGE_OPCODE_OPEN (uuid_field g) room req \<Longrightarrow>
    bs_decode req = Bs_Op (Bs_Open (uuid_field g))"
  using carried_slice [of src TS_BLOCK_STORAGE_OPCODE_OPEN "uuid_field g" room req 16]
  by (simp add: carried_request_def bs_decode_def bs_decode_body_def slice_def)

lemma decode_close:
  "carried_request src TS_BLOCK_STORAGE_OPCODE_CLOSE (le_bytes 8 (unat h)) room req \<Longrightarrow>
    bs_decode req = Bs_Op (Bs_Close h)"
  using carried_slice [of src TS_BLOCK_STORAGE_OPCODE_CLOSE "le_bytes 8 (unat h)" room req 8]
  by (simp add: carried_request_def bs_decode_def bs_decode_body_def slice_def wire_simps)

lemma decode_read:
  assumes "carried_request src TS_BLOCK_STORAGE_OPCODE_READ (bs_extent_message h lba off @ le_bytes 4 n) room req"
    and "lba < 2 ^ 64"
  shows "bs_decode req = Bs_Op (Bs_Read h lba (off mod 2 ^ 32) (n mod 2 ^ 32))"
proof -
  let ?m = "bs_extent_message h lba off @ le_bytes 4 n"
  have "slice (rb_data (req_request req)) 0 24 = ?m"
    using carried_slice [OF assms(1), of 24] by (simp add: slice_def)
  moreover have "msg_field ?m 20 4 = n mod 2 ^ 32"
    by (simp add: msg_field_def slice_def le_val_le_bytes_mod)
  ultimately show ?thesis
    using assms by (simp add: carried_request_def bs_decode_def bs_decode_body_def wire_simps)
qed

lemma decode_write:
  assumes "carried_request src TS_BLOCK_STORAGE_OPCODE_WRITE (bs_extent_message h lba off @ d) room req"
    and "lba < 2 ^ 64"
  shows "bs_decode req = Bs_Op (Bs_Write h lba (off mod 2 ^ 32) d)"
proof -
  let ?m = "bs_extent_message h lba off @ d" and ?r = "rb_data (req_request req)"
  have whole: "slice ?r 0 (20 + length d) = ?m"
    using assms(1) by (simp add: carried_request_def)
  have "slice ?r 20 (length d) = slice (slice ?r 0 (20 + length d)) 20 (length d)"
    by (simp add: slice_slice)
  also have "\<dots> = d"
    unfolding whole by (simp add: slice_def)
  finally show ?thesis
    using assms carried_slice [OF assms(1), of 20]
    by (simp add: carried_request_def bs_decode_def bs_decode_body_def bs_write_data_def wire_simps)
qed

lemma decode_erase:
  assumes "carried_request src TS_BLOCK_STORAGE_OPCODE_ERASE (bs_extent_message h lba n) room req"
    and "lba < 2 ^ 64"
  shows "bs_decode req = Bs_Op (Bs_Erase h lba (n mod 2 ^ 32))"
  using assms carried_slice [OF assms(1), of 20]
  by (simp add: carried_request_def bs_decode_def bs_decode_body_def wire_simps)


section \<open>The client behaves like the store\<close>

abbreviation bs_ci :: "'s block_storage_provider direct_caller_context rpc_caller_interface" where
  "bs_ci \<equiv> direct_caller_interface block_storage_serve (\<lambda>_. True)"

abbreviation bs_remote ::
  "'s block_storage_provider direct_caller_context \<Rightarrow> 's \<Rightarrow> 's block_storage_provider direct_caller_context" where
  "bs_remote c s \<equiv> c\<lparr>dc_world := (dc_world c)\<lparr>bsp_store := s\<rparr>\<rparr>"

text \<open>The client is idle again and has the room it had.\<close>

definition bs_client_after :: "service_client \<Rightarrow> service_client \<Rightarrow> bool" where
  "bs_client_after cl cl' \<longleftrightarrow> client_idle cl' \<and> client_same_room cl cl'"

lemma client_room_session:
  "client_room cl rl ml \<Longrightarrow> client_idle cl \<Longrightarrow> max rl ml \<le> session_room (the (sc_session cl)) (max rl ml)"
  by (auto simp: client_room_def client_idle_def split: option.splits)

context block_store_geometry
begin

lemma remote_call:
  assumes idle: "client_idle cl" and inv: "bs_service_inv iface store_inv (dc_world c)"
    and room: "client_room cl (length msg) ml"
    and dec: "\<And>req. carried_request (dc_endpoint_id c) opc msg
        (session_room (the (sc_session cl)) (max (length msg) ml)) req \<Longrightarrow> bs_decode req = Bs_Op op"
    and ap: "bs_apply iface (ucast (dc_endpoint_id c)) (session_room (the (sc_session cl)) (max (length msg) ml)) op
        (bsp_store (dc_world c)) = Some (st, out, s')"
    and fits: "\<And>m. out = Some m \<Longrightarrow> length m \<le> session_room (the (sc_session cl)) (max (length msg) ml)"
  obtains b ses' where
    "rpc_client_transaction bs_ci (sc_session cl) c opc msg ml =
      Some (Some (RPC_SUCCESS, Some b, (case out of None \<Rightarrow> 0 | Some m \<Rightarrow> length m), st), Some ses',
            bs_remote c s')"
    and "\<And>m. out = Some m \<Longrightarrow> mem_read b 0 (length m) = Some m"
    and "bs_client_after cl (cl\<lparr>sc_session := Some ses', sc_rpc_status := RPC_SUCCESS\<rparr>)"
proof (rule service.client_transaction [OF idle inv room, of opc])
  fix req rpc req' w' ses'
  assume cr: "carried_request (dc_endpoint_id c) opc msg
      (session_room (the (sc_session cl)) (max (length msg) ml)) req"
    and sv: "block_storage_serve req (dc_world c) = Some (rpc, req', w')"
    and t: "rpc_client_transaction bs_ci (sc_session cl) c opc msg ml =
      Some (Some (if rpc = RPC_SUCCESS
                  then (rpc, Some (rb_data (req_response req')), rb_data_length (req_response req'),
                        req_service_status req')
                  else (rpc, None, 0, req_service_status req')),
            Some ses', c\<lparr>dc_world := w'\<rparr>)"
    and k: "client_idle (cl\<lparr>sc_session := Some ses', sc_rpc_status := rpc\<rparr>)"
      "client_same_room cl (cl\<lparr>sc_session := Some ses', sc_rpc_status := rpc\<rparr>)"
  have wf: "wf_rpc_request req" and src: "req_source_id req = dc_endpoint_id c"
    and sz: "rb_size (req_response req) = session_room (the (sc_session cl)) (max (length msg) ml)"
    and len: "rb_data_length (req_response req) = 0"
    using cr by (simp_all add: carried_request_def)
  have ans: "bs_answer (dc_world c) req (st, out, s') = (rpc, req', w')"
    using sv ap dec [OF cr] by (simp add: block_storage_serve_eq [OF inv wf] bs_execute_def src sz)
  have wfr: "length (rb_data (req_response req)) = rb_size (req_response req)"
    using wf by (simp add: wf_rpc_request_def wf_rpc_buffer_def)
  have r: "rpc = RPC_SUCCESS" "w' = (dc_world c)\<lparr>bsp_store := s'\<rparr>" "req_service_status req' = st"
    "rb_data_length (req_response req') = (case out of None \<Rightarrow> 0 | Some m \<Rightarrow> length m)"
    using ans fits sz len by (auto simp: bs_answer_def Let_def split: option.splits if_splits)
  have rd: "mem_read (rb_data (req_response req')) 0 (length m) = Some m" if "out = Some m" for m
    using that ans fits [OF that] sz wfr
    by (auto simp: bs_answer_def Let_def mem_read_def slice_splice_same split: if_splits)
  show thesis
    by (rule that [of "rb_data (req_response req')" ses']) (use t r k rd in \<open>simp_all add: bs_client_after_def\<close>)
qed

lemma remote_info:
  assumes idle: "client_idle cl" and inv: "bs_service_inv iface store_inv (dc_world c)"
    and room: "client_room cl sizeof_guid_in sizeof_get_partition_info_out" and g: "length g = 16"
    and op: "bsi_get_partition_info iface (bsp_store (dc_world c)) g = Some (st, io, s')"
    and small: "\<And>i. io = Some i \<Longrightarrow> spi_num_blocks i < 2 ^ 64 \<and> spi_block_size i < 2 ^ 32
      \<and> length (spi_partition_guid i) = 16 \<and> length (spi_parent_guid i) = 16"
  shows "\<exists>cl'. block_storage_client_get_partition_info bs_ci (cl, c) g
      = Some (st, io, cl', bs_remote c s') \<and> bs_client_after cl cl'"
proof -
  let ?out = "if st = PSA_SUCCESS then map_option bs_info_message io else None"
  have io: "st = PSA_SUCCESS \<longleftrightarrow> io \<noteq> None"
    using info_returns [of "bsp_store (dc_world c)" g] inv op by (auto simp: bs_service_inv_def)
  obtain b ses' where t: "rpc_client_transaction bs_ci (sc_session cl) c TS_BLOCK_STORAGE_OPCODE_GET_PARTITION_INFO
        (uuid_field g) sizeof_get_partition_info_out =
      Some (Some (RPC_SUCCESS, Some b, (case ?out of None \<Rightarrow> 0 | Some m \<Rightarrow> length m), st), Some ses', bs_remote c s')"
    and rd: "\<And>m. ?out = Some m \<Longrightarrow> mem_read b 0 (length m) = Some m"
    and k: "bs_client_after cl (cl\<lparr>sc_session := Some ses', sc_rpc_status := RPC_SUCCESS\<rparr>)"
  proof (rule remote_call [OF idle inv, of "uuid_field g" sizeof_get_partition_info_out
        TS_BLOCK_STORAGE_OPCODE_GET_PARTITION_INFO "Bs_Info g" st ?out s'])
    show "length m \<le> session_room (the (sc_session cl)) (max (length (uuid_field g)) sizeof_get_partition_info_out)"
      if "?out = Some m" for m
      using that client_room_session [OF room idle] by (auto split: if_splits)
  qed (use room op g decode_info [of _ g] in \<open>simp_all\<close>)
  have "spi_num_blocks i = msg_field (bs_info_message i) 0 8 \<and> spi_block_size i = msg_field (bs_info_message i) 8 4
      \<and> spi_partition_guid i = slice (bs_info_message i) 12 16 \<and> spi_parent_guid i = slice (bs_info_message i) 28 16"
    if "io = Some i" for i
    using small [OF that] by (simp add: bs_info_message_def msg_field_def slice_def le_val_le_bytes_mod)
  then show ?thesis
    using t rd io k
    by (cases io) (auto simp: block_storage_client_get_partition_info_def rpc_client_transaction_def
        bs_client_result_def bs_fixed_response_def)
qed

lemma remote_open:
  assumes idle: "client_idle cl" and inv: "bs_service_inv iface store_inv (dc_world c)"
    and room: "client_room cl sizeof_guid_in sizeof_u64_msg" and g: "length g = 16"
    and op: "bsi_open iface (bsp_store (dc_world c)) (ucast (dc_endpoint_id c)) g = Some (st, h, s')"
  shows "\<exists>cl'. block_storage_client_open bs_ci (cl, c) cid g
      = Some (st, if st = PSA_SUCCESS then h else 0, cl', bs_remote c s') \<and> bs_client_after cl cl'"
proof -
  let ?out = "if st = PSA_SUCCESS then Some (le_bytes 8 (unat h)) else None"
  obtain b ses' where t: "rpc_client_transaction bs_ci (sc_session cl) c TS_BLOCK_STORAGE_OPCODE_OPEN
        (uuid_field g) sizeof_u64_msg =
      Some (Some (RPC_SUCCESS, Some b, (case ?out of None \<Rightarrow> 0 | Some m \<Rightarrow> length m), st), Some ses', bs_remote c s')"
    and rd: "\<And>m. ?out = Some m \<Longrightarrow> mem_read b 0 (length m) = Some m"
    and k: "bs_client_after cl (cl\<lparr>sc_session := Some ses', sc_rpc_status := RPC_SUCCESS\<rparr>)"
  proof (rule remote_call [OF idle inv, of "uuid_field g" sizeof_u64_msg
        TS_BLOCK_STORAGE_OPCODE_OPEN "Bs_Open g" st ?out s'])
    show "length m \<le> session_room (the (sc_session cl)) (max (length (uuid_field g)) sizeof_u64_msg)"
      if "?out = Some m" for m
      using that client_room_session [OF room idle] by (auto split: if_splits)
  qed (use room op g decode_open [of _ g] in \<open>simp_all\<close>)
  then show ?thesis
    using rd [of "le_bytes 8 (unat h)"]
    by (auto simp: block_storage_client_open_def rpc_client_transaction_def
        bs_client_result_def bs_fixed_response_def wire_simps)
qed

lemma remote_close:
  assumes idle: "client_idle cl" and inv: "bs_service_inv iface store_inv (dc_world c)"
    and room: "client_room cl sizeof_u64_msg 0"
    and op: "bsi_close iface (bsp_store (dc_world c)) (ucast (dc_endpoint_id c)) h = Some (st, s')"
  shows "\<exists>cl'. block_storage_client_close bs_ci (cl, c) cid h = Some (st, cl', bs_remote c s')
    \<and> bs_client_after cl cl'"
proof -
  obtain b ses' where "rpc_client_transaction bs_ci (sc_session cl) c TS_BLOCK_STORAGE_OPCODE_CLOSE
        (le_bytes 8 (unat h)) 0 =
      Some (Some (RPC_SUCCESS, Some b, (case None of None \<Rightarrow> 0 | Some m \<Rightarrow> length (m :: bytes)), st), Some ses', bs_remote c s')"
    and "bs_client_after cl (cl\<lparr>sc_session := Some ses', sc_rpc_status := RPC_SUCCESS\<rparr>)"
    by (rule remote_call [OF idle inv, of "le_bytes 8 (unat h)" 0
        TS_BLOCK_STORAGE_OPCODE_CLOSE "Bs_Close h" st None s'])
      (use room op decode_close [of _ h] in simp_all)
  then show ?thesis
    by (auto simp: block_storage_client_close_def rpc_client_transaction_def bs_client_result_def Let_def)
qed

lemma remote_read:
  assumes idle: "client_idle cl" and inv: "bs_service_inv iface store_inv (dc_world c)"
    and room: "client_room cl sizeof_read_in n" and small: "lba < 2 ^ 64" "off < 2 ^ 32"
    and op: "bsi_read iface (bsp_store (dc_world c)) (ucast (dc_endpoint_id c)) h lba off n = Some (st, d, s')"
  shows "\<exists>cl'. block_storage_client_read bs_ci (cl, c) cid h lba off n = Some (st, d, cl', bs_remote c s')
    \<and> bs_client_after cl cl'"
proof -
  let ?msg = "bs_extent_message h lba off @ le_bytes 4 n"
  let ?out = "if st = PSA_SUCCESS then Some d else None"
  have len: "length d \<le> n" "st \<noteq> PSA_SUCCESS \<Longrightarrow> d = []"
    using read_returns [of "bsp_store (dc_world c)" "ucast (dc_endpoint_id c)" h lba off n] inv op
    by (auto simp: bs_service_inv_def split: if_splits)
  note sr = client_room_session [OF room idle]
  have n: "n < 2 ^ 32" "min n (session_room (the (sc_session cl)) (max (length ?msg) n)) = n"
    using room sr by (simp_all add: client_room_def)
  obtain b ses' where t: "rpc_client_transaction bs_ci (sc_session cl) c TS_BLOCK_STORAGE_OPCODE_READ ?msg n =
      Some (Some (RPC_SUCCESS, Some b, (case ?out of None \<Rightarrow> 0 | Some m \<Rightarrow> length m), st), Some ses', bs_remote c s')"
    and rd: "\<And>m. ?out = Some m \<Longrightarrow> mem_read b 0 (length m) = Some m"
    and k: "bs_client_after cl (cl\<lparr>sc_session := Some ses', sc_rpc_status := RPC_SUCCESS\<rparr>)"
  proof (rule remote_call [OF idle inv, of ?msg n TS_BLOCK_STORAGE_OPCODE_READ "Bs_Read h lba off n" st ?out s'])
    show "bs_decode req = Bs_Op (Bs_Read h lba off n)"
      if "carried_request (dc_endpoint_id c) TS_BLOCK_STORAGE_OPCODE_READ ?msg
        (session_room (the (sc_session cl)) (max (length ?msg) n)) req" for req
      using decode_read [OF that small(1)] small(2) n(1) by simp
    show "bs_apply iface (ucast (dc_endpoint_id c)) (session_room (the (sc_session cl)) (max (length ?msg) n))
        (Bs_Read h lba off n) (bsp_store (dc_world c)) = Some (st, ?out, s')"
      using op unfolding bs_apply.simps n(2) by simp
    show "length m \<le> session_room (the (sc_session cl)) (max (length ?msg) n)" if "?out = Some m" for m
      using that len(1) sr by (auto split: if_splits)
  qed (use room in \<open>simp_all\<close>)
  then show ?thesis
    using rd [of d] len
    by (auto simp: block_storage_client_read_def rpc_client_transaction_def bs_client_result_def)
qed

lemma remote_write:
  assumes idle: "client_idle cl" and inv: "bs_service_inv iface store_inv (dc_world c)"
    and room: "client_room cl (sizeof_write_in + length d) sizeof_u64_msg"
    and small: "lba < 2 ^ 64" "off < 2 ^ 32"
    and op: "bsi_write iface (bsp_store (dc_world c)) (ucast (dc_endpoint_id c)) h lba off d = Some (st, k, s')"
  shows "\<exists>cl'. block_storage_client_write bs_ci (cl, c) cid h lba off d
      = Some (st, if st = PSA_SUCCESS then k else 0, cl', bs_remote c s') \<and> bs_client_after cl cl'"
proof -
  let ?msg = "bs_extent_message h lba off @ d"
  let ?out = "if st = PSA_SUCCESS then Some (le_bytes 8 k) else None"
  have dl: "sizeof_write_in + length d < 2 ^ 32"
    using room by (simp add: client_room_def)
  have k: "st = PSA_SUCCESS \<Longrightarrow> k < 2 ^ 64"
    using write_returns [of "bsp_store (dc_world c)" "ucast (dc_endpoint_id c)" h lba off d] inv op dl
    by (auto simp: bs_service_inv_def)
  obtain b ses' where t: "rpc_client_transaction bs_ci (sc_session cl) c TS_BLOCK_STORAGE_OPCODE_WRITE ?msg sizeof_u64_msg =
      Some (Some (RPC_SUCCESS, Some b, (case ?out of None \<Rightarrow> 0 | Some m \<Rightarrow> length m), st), Some ses', bs_remote c s')"
    and rd: "\<And>m. ?out = Some m \<Longrightarrow> mem_read b 0 (length m) = Some m"
    and af: "bs_client_after cl (cl\<lparr>sc_session := Some ses', sc_rpc_status := RPC_SUCCESS\<rparr>)"
  proof (rule remote_call [OF idle inv, of ?msg sizeof_u64_msg TS_BLOCK_STORAGE_OPCODE_WRITE
        "Bs_Write h lba off d" st ?out s'])
    show "bs_decode req = Bs_Op (Bs_Write h lba off d)"
      if "carried_request (dc_endpoint_id c) TS_BLOCK_STORAGE_OPCODE_WRITE ?msg
        (session_room (the (sc_session cl)) (max (length ?msg) sizeof_u64_msg)) req" for req
      using decode_write [OF that small(1)] small(2) by simp
    show "length m \<le> session_room (the (sc_session cl)) (max (length ?msg) sizeof_u64_msg)" if "?out = Some m" for m
      using that client_room_session [OF room idle] by (auto split: if_splits)
  qed (use room op in \<open>simp_all\<close>)
  have ne: "bs_extent_message h lba off \<noteq> []"
    using length_bs_extent_message [of h lba off] by fastforce
  have sum: "add64 sizeof_write_in (length d) = length (bs_extent_message h lba off) + length d"
    using dl by (simp add: arith64)
  have "rpc_client_call bs_ci (sc_session cl) c TS_BLOCK_STORAGE_OPCODE_WRITE (add64 sizeof_write_in (length d))
      [(0, bs_extent_message h lba off), (sizeof_write_in, d)] sizeof_u64_msg
    = rpc_client_transaction bs_ci (sc_session cl) c TS_BLOCK_STORAGE_OPCODE_WRITE ?msg sizeof_u64_msg"
    by (rule rpc_client_call_header_payload [OF ne sum]) simp
  then show ?thesis
    using t rd [of "le_bytes 8 k"] k af
    by (auto simp: block_storage_client_write_def bs_client_result_def bs_fixed_response_def msg_field_def
        slice_def le_val_le_bytes)
qed

text \<open>The number of blocks is cut to 32 bits.\<close>

lemma remote_erase:
  assumes idle: "client_idle cl" and inv: "bs_service_inv iface store_inv (dc_world c)"
    and room: "client_room cl sizeof_erase_in 0" and small: "lba < 2 ^ 64"
    and op: "bsi_erase iface (bsp_store (dc_world c)) (ucast (dc_endpoint_id c)) h lba (n mod 2 ^ 32) = Some (st, s')"
  shows "\<exists>cl'. block_storage_client_erase bs_ci (cl, c) cid h lba n = Some (st, cl', bs_remote c s')
    \<and> bs_client_after cl cl'"
proof -
  let ?msg = "bs_extent_message h lba n"
  obtain b ses' where "rpc_client_transaction bs_ci (sc_session cl) c TS_BLOCK_STORAGE_OPCODE_ERASE ?msg 0 =
      Some (Some (RPC_SUCCESS, Some b, (case None of None \<Rightarrow> 0 | Some m \<Rightarrow> length (m :: bytes)), st), Some ses', bs_remote c s')"
    and "bs_client_after cl (cl\<lparr>sc_session := Some ses', sc_rpc_status := RPC_SUCCESS\<rparr>)"
    by (rule remote_call [OF idle inv, of ?msg 0 TS_BLOCK_STORAGE_OPCODE_ERASE
          "Bs_Erase h lba (n mod 2 ^ 32)" st None s'])
      (use room op decode_erase [OF _ small] in simp_all)
  then show ?thesis
    by (auto simp: block_storage_client_erase_def rpc_client_transaction_def bs_client_result_def Let_def)
qed

end


section \<open>Properties\<close>

abbreviation bs_context :: "u16 \<Rightarrow> 's block_storage_provider \<Rightarrow> 's block_storage_provider direct_caller_context" where
  "bs_context endpoint p \<equiv> \<lparr>dc_service_uuid = TS_BLOCK_STORAGE_SERVICE_UUID, dc_endpoint_id = endpoint, dc_world = p\<rparr>"

text \<open>
  Property C2. Remote block storage is transparent: over the direct caller, opening, closing,
  reading and writing through the client gives the status and the data, and leaves the disk in the
  state, that the same operation by the caller's endpoint gives on the partitioned store itself,
  as long as the message fits the session and the offset fits 32 bits.
\<close>

theorem block_storage_client_transparent:
  assumes idle: "client_idle cl" and inv: "ram_bs_inv (dc_world c)" and fit: "lba < 2 ^ 64" "off < 2 ^ 32"
    and g: "length g = 16"
    and room: "client_room cl sizeof_guid_in sizeof_u64_msg" "client_room cl sizeof_u64_msg 0"
      "client_room cl sizeof_read_in n" "client_room cl (sizeof_write_in + length d) sizeof_u64_msg"
  shows "(\<exists>st h s' cl'. partitioned_block_store_open (bsp_store (dc_world c)) (ucast (dc_endpoint_id c)) g = Some (st, h, s')
        \<and> block_storage_client_open bs_ci (cl, c) cid g
          = Some (st, if st = PSA_SUCCESS then h else 0, cl', bs_remote c s') \<and> bs_client_after cl cl')
    \<and> (\<exists>st s' cl'. partitioned_block_store_close (bsp_store (dc_world c)) (ucast (dc_endpoint_id c)) h = Some (st, s')
        \<and> block_storage_client_close bs_ci (cl, c) cid h = Some (st, cl', bs_remote c s') \<and> bs_client_after cl cl')
    \<and> (\<exists>st b s' cl'. partitioned_block_store_read ram_back (bsp_store (dc_world c)) (ucast (dc_endpoint_id c)) h lba off n
          = Some (st, b, s')
        \<and> block_storage_client_read bs_ci (cl, c) cid h lba off n = Some (st, b, cl', bs_remote c s')
        \<and> bs_client_after cl cl')
    \<and> (\<exists>st k s' cl'. partitioned_block_store_write ram_back (bsp_store (dc_world c)) (ucast (dc_endpoint_id c)) h lba off d
          = Some (st, k, s')
        \<and> block_storage_client_write bs_ci (cl, c) cid h lba off d
          = Some (st, if st = PSA_SUCCESS then k else 0, cl', bs_remote c s') \<and> bs_client_after cl cl')"
proof -
  let ?s = "bsp_store (dc_world c)" and ?c = "ucast (dc_endpoint_id c) :: u32" and ?i = ram_pbs_interface
  have si: "ram_pbs_inv ?s"
    using inv by (simp add: bs_service_inv_def)
  obtain st1 h1 s1 where o: "bsi_open ?i ?s ?c g = Some (st1, h1, s1)"
    using ram_partitioned.partitioned.open_returns [OF si] by blast
  obtain st2 s2 where cl: "bsi_close ?i ?s ?c h = Some (st2, s2)"
    using ram_partitioned.partitioned.close_returns [OF si] by blast
  obtain st3 d3 s3 where r: "bsi_read ?i ?s ?c h lba off n = Some (st3, d3, s3)"
    using ram_partitioned.partitioned.read_returns [OF si] by blast
  obtain st4 k4 s4 where w: "bsi_write ?i ?s ?c h lba off d = Some (st4, k4, s4)"
    using ram_partitioned.partitioned.write_returns [OF si] by blast
  show ?thesis
    using ram_partitioned.partitioned.remote_open [OF idle inv room(1) g o, of cid]
      ram_partitioned.partitioned.remote_close [OF idle inv room(2) cl, of cid]
      ram_partitioned.partitioned.remote_read [OF idle inv room(3) fit r, of cid]
      ram_partitioned.partitioned.remote_write [OF idle inv room(4) fit w, of cid] o cl r w
    by (simp add: partitioned_block_store_interface_def)
qed

theorem block_storage_client_transparent_witness:
  "\<exists>t st b s' cl'. sample_table = Some t
    \<and> partitioned_block_store_read ram_back t 5 0 3 1 2 = Some (st, b, s')
    \<and> block_storage_client_read bs_ci (sample_client, bs_context 5 (sample_bs_provider ram_pbs_interface t)) 99 0 3 1 2
        = Some (st, b, cl', bs_remote (bs_context 5 (sample_bs_provider ram_pbs_interface t)) s')"
proof -
  obtain t where t: "sample_table = Some t" "ram_pbs_inv t"
    by (rule sample_table_ok)
  let ?c = "bs_context 5 (sample_bs_provider ram_pbs_interface t)"
  have inv: "ram_bs_inv (dc_world ?c)"
    using sample_bs_provider_inv [of ram_pbs_inv, OF t(2)] by simp
  have "client_room sample_client sizeof_guid_in sizeof_u64_msg" "client_room sample_client sizeof_u64_msg 0"
      "client_room sample_client sizeof_read_in 2" "client_room sample_client (sizeof_write_in + length [1 :: byte]) sizeof_u64_msg"
    by (simp_all add: sample_client_room)
  from block_storage_client_transparent [OF sample_client_idle inv _ _ _ this, of 3 1 "sample_guid 1" 99 0] t(1)
  show ?thesis
    by (auto simp: sample_guid_def)
qed

text \<open>
  What a client writes to a block of its partition over the service it reads back
  over the service, even from another session of the same endpoint.
\<close>

theorem remote_round_trip:
  assumes idle: "client_idle cl" "client_idle cl2" and inv: "ram_bs_inv (dc_world c)"
    and acc: "pbs_acc (bsp_store (dc_world c)) (ucast (dc_endpoint_id c)) h = PSA_SUCCESS"
    and blk: "lba < pbs_nblocks (bsp_store (dc_world c)) h" "d \<noteq> []"
      "off + length d \<le> pbs_bsize (bsp_store (dc_world c)) h" "off < 2 ^ 32"
    and room: "client_room cl (sizeof_write_in + length d) sizeof_u64_msg" "client_room cl2 sizeof_read_in (length d)"
  shows "\<exists>cl' cl2' c' c''. block_storage_client_write bs_ci (cl, c) cid h lba off d = Some (PSA_SUCCESS, length d, cl', c')
    \<and> block_storage_client_read bs_ci (cl2, c') cid2 h lba off (length d) = Some (PSA_SUCCESS, d, cl2', c'')
    \<and> ram_bs_inv (dc_world c'')"
proof -
  let ?s = "bsp_store (dc_world c)" and ?c = "ucast (dc_endpoint_id c) :: u32" and ?i = ram_pbs_interface
  have si: "ram_pbs_inv ?s" and rdy: "bs_ready ?i (dc_world c)"
    using inv by (simp_all add: bs_service_inv_def)
  have lba: "lba < 2 ^ 64"
    using ram_partitioned.partitioned.extent_bound [OF si acc] blk(1) by simp
  have off: "off < pbs_bsize ?s h"
    using blk(2,3) by (cases d) auto
  obtain s1 where w: "bsi_write ?i ?s ?c h lba off d = Some (PSA_SUCCESS, length d, s1)" and si1: "ram_pbs_inv s1"
    using ram_partitioned.partitioned.write_returns [OF si, of ?c h lba off d] acc blk off
    by (auto simp: io_status_def)
  obtain s2 where r: "bsi_read ?i s1 ?c h lba off (length d) = Some (PSA_SUCCESS, d, s2)"
    using ram_partitioned.partitioned.read_after_write(1) [OF si w] by auto
  have si2: "ram_pbs_inv s2"
    using ram_partitioned.partitioned.read_returns [OF si1, of ?c h lba off "length d"] r by auto
  have inv1: "ram_bs_inv (dc_world (bs_remote c s1))" and inv2: "ram_bs_inv (dc_world (bs_remote (bs_remote c s1) s2))"
    using rdy si1 si2 by (simp_all add: bs_service_inv_def bs_ready_def)
  have r': "bsi_read ?i (bsp_store (dc_world (bs_remote c s1))) (ucast (dc_endpoint_id (bs_remote c s1))) h lba off (length d)
      = Some (PSA_SUCCESS, d, s2)"
    using r by simp
  from ram_partitioned.partitioned.remote_write [OF idle(1) inv room(1) lba blk(4) w, of cid]
    ram_partitioned.partitioned.remote_read [OF idle(2) inv1 room(2) lba blk(4) r', of cid2] inv2
  show ?thesis by fastforce
qed

theorem remote_round_trip_witness:
  "\<exists>t cl' cl2' c' c''. sample_table = Some t
    \<and> block_storage_client_write bs_ci (sample_client, bs_context 5 (sample_bs_provider ram_pbs_interface t)) 0 0 3 1 [7, 8]
        = Some (PSA_SUCCESS, length [7 :: byte, 8], cl', c')
    \<and> block_storage_client_read bs_ci (sample_client, c') 0 0 3 1 (length [7 :: byte, 8]) = Some (PSA_SUCCESS, [7, 8], cl2', c'')"
proof -
  obtain t where t: "sample_table = Some t" "ram_pbs_inv t" "pbs_acc t 5 0 = PSA_SUCCESS"
      "pbs_nblocks t 0 = 8" "pbs_bsize t 0 = 4"
    by (rule sample_table_ok)
  let ?c = "bs_context 5 (sample_bs_provider ram_pbs_interface t)"
  have inv: "ram_bs_inv (dc_world ?c)"
    using sample_bs_provider_inv [of ram_pbs_inv, OF t(2)] by simp
  have "client_room sample_client (sizeof_write_in + length [7 :: byte, 8]) sizeof_u64_msg"
      "client_room sample_client sizeof_read_in (length [7 :: byte, 8])"
    by (simp_all add: sample_client_room)
  from remote_round_trip [OF sample_client_idle sample_client_idle inv _ _ _ _ _ this, of 0 3 1 0 0] t
  show ?thesis by auto
qed

text \<open>
  Property C33. The client cuts the number of blocks of an erase to 32 bits: a request to erase
  \<open>2 ^ 32\<close> blocks succeeds and erases nothing.
\<close>

theorem remote_erase_truncates:
  assumes idle: "client_idle cl" and inv: "ram_bs_inv (dc_world c)" and room: "client_room cl sizeof_erase_in 0"
    and acc: "pbs_acc (bsp_store (dc_world c)) (ucast (dc_endpoint_id c)) h = PSA_SUCCESS"
    and lba: "lba < pbs_nblocks (bsp_store (dc_world c)) h"
  shows "\<exists>cl' s'. block_storage_client_erase bs_ci (cl, c) cid h lba (2 ^ 32) = Some (PSA_SUCCESS, cl', bs_remote c s')
    \<and> pbs_contents ram_contents s' h = pbs_contents ram_contents (bsp_store (dc_world c)) h"
proof -
  let ?s = "bsp_store (dc_world c)" and ?c = "ucast (dc_endpoint_id c) :: u32" and ?i = ram_pbs_interface
  have si: "ram_pbs_inv ?s"
    using inv by (simp add: bs_service_inv_def)
  have l64: "lba < 2 ^ 64"
    using ram_partitioned.partitioned.extent_bound [OF si acc] lba by simp
  obtain s' where e: "bsi_erase ?i ?s ?c h lba 0 = Some (PSA_SUCCESS, s')"
    using ram_partitioned.partitioned.erase_returns [OF si, of ?c h lba 0] acc lba by (auto simp: erase_status_def)
  have "pbs_contents ram_contents s' h = pbs_contents ram_contents ?s h"
    using ram_partitioned.partitioned.erase_clears [OF si e] by simp
  moreover have "bsi_erase ?i ?s ?c h lba (2 ^ 32 mod 2 ^ 32) = Some (PSA_SUCCESS, s')"
    using e by simp
  ultimately show ?thesis
    using ram_partitioned.partitioned.remote_erase [OF idle inv room l64, of h "2 ^ 32" PSA_SUCCESS s' cid] by blast
qed

theorem remote_erase_truncates_witness:
  "\<exists>t cl' s'. sample_table = Some t
    \<and> block_storage_client_erase bs_ci (sample_client, bs_context 5 (sample_bs_provider ram_pbs_interface t)) 0 0 3 (2 ^ 32)
        = Some (PSA_SUCCESS, cl', bs_remote (bs_context 5 (sample_bs_provider ram_pbs_interface t)) s')"
proof -
  obtain t where t: "sample_table = Some t" "ram_pbs_inv t" "pbs_acc t 5 0 = PSA_SUCCESS" "pbs_nblocks t 0 = 8"
    by (rule sample_table_ok)
  let ?c = "bs_context 5 (sample_bs_provider ram_pbs_interface t)"
  have inv: "ram_bs_inv (dc_world ?c)"
    using sample_bs_provider_inv [of ram_pbs_inv, OF t(2)] by simp
  have "client_room sample_client sizeof_erase_in 0"
    by (simp add: sample_client_room)
  from remote_erase_truncates [OF sample_client_idle inv this, of 0 3 0] t show ?thesis
    by auto
qed

end
