(* ===== verification/Volume.thy ===== *)
theory Volume
  imports Prelude
begin

text \<open>
  The volume base (\<open>volume.c\<close>): the calls by which the firmware components reach a concrete volume.
  Open, close, size, read and write go through the IO storage layer of TF-A, which is not part of
  the sources and passes the call to the functions the volume registered; erase and the query of the
  storage identifiers are optional functions of the volume (without the latter the answer is \<open>-EIO\<close>). A
  volume is known by its address, the type
  variable \<open>'v\<close>, and the functions act on the state \<open>'w\<close> of all volumes.

  The locale \<open>volume_files\<close> is the contract the firmware components rely on: each volume is
  a file of fixed length with a position while it is open.
\<close>

section \<open>Operations\<close>

abbreviation EPERM :: int where
  "EPERM \<equiv> 1"
abbreviation EIO :: int where
  "EIO \<equiv> 5"
abbreviation ENXIO :: int where
  "ENXIO \<equiv> 6"
abbreviation EINVAL :: int where
  "EINVAL \<equiv> 22"

text \<open>\<open>IO_SEEK_SET\<close>, \<open>IO_SEEK_CUR\<close> and any other mode.\<close>

datatype io_seek_mode = IO_SEEK_SET | IO_SEEK_CUR | IO_SEEK_OTHER

type_synonym uuid_bytes = bytes

record ('v, 'w) volume_funcs =
  vf_open :: "'v \<Rightarrow> 'w \<Rightarrow> (int \<times> 'w) option"
  vf_close :: "'v \<Rightarrow> 'w \<Rightarrow> (int \<times> 'w) option"
  vf_seek :: "'v \<Rightarrow> io_seek_mode \<Rightarrow> int \<Rightarrow> 'w \<Rightarrow> (int \<times> 'w) option"
  vf_size :: "'v \<Rightarrow> 'w \<Rightarrow> (int \<times> size_t \<times> 'w) option"
  vf_read :: "'v \<Rightarrow> bytes \<Rightarrow> size_t \<Rightarrow> 'w \<Rightarrow> (int \<times> bytes \<times> size_t \<times> 'w) option"
  vf_write :: "'v \<Rightarrow> bytes \<Rightarrow> size_t \<Rightarrow> 'w \<Rightarrow> (int \<times> size_t \<times> 'w) option"
  vf_erase :: "'v \<Rightarrow> ('w \<Rightarrow> (int \<times> 'w) option) option"
  vf_get_storage_ids :: "'v \<Rightarrow> ('w \<Rightarrow> (int \<times> (uuid_bytes \<times> uuid_bytes) option \<times> 'w) option) option"

definition volume_open :: "('v, 'w) volume_funcs \<Rightarrow> 'v \<Rightarrow> 'w \<Rightarrow> (int \<times> 'w) option" where
  "volume_open vf v w = vf_open vf v w"

definition volume_close :: "('v, 'w) volume_funcs \<Rightarrow> 'v \<Rightarrow> 'w \<Rightarrow> (int \<times> 'w) option" where
  "volume_close vf v w = vf_close vf v w"

definition volume_seek :: "('v, 'w) volume_funcs \<Rightarrow> 'v \<Rightarrow> io_seek_mode \<Rightarrow> int \<Rightarrow> 'w \<Rightarrow> (int \<times> 'w) option" where
  "volume_seek vf v mode off w = vf_seek vf v mode off w"

definition volume_size :: "('v, 'w) volume_funcs \<Rightarrow> 'v \<Rightarrow> 'w \<Rightarrow> (int \<times> size_t \<times> 'w) option" where
  "volume_size vf v w = vf_size vf v w"

definition volume_read ::
  "('v, 'w) volume_funcs \<Rightarrow> 'v \<Rightarrow> bytes \<Rightarrow> size_t \<Rightarrow> 'w \<Rightarrow> (int \<times> bytes \<times> size_t \<times> 'w) option" where
  "volume_read vf v buf len w = vf_read vf v buf len w"

definition volume_write ::
  "('v, 'w) volume_funcs \<Rightarrow> 'v \<Rightarrow> bytes \<Rightarrow> size_t \<Rightarrow> 'w \<Rightarrow> (int \<times> size_t \<times> 'w) option" where
  "volume_write vf v buf len w = vf_write vf v buf len w"

definition volume_erase :: "('v, 'w) volume_funcs \<Rightarrow> 'v \<Rightarrow> 'w \<Rightarrow> (int \<times> 'w) option" where
  "volume_erase vf v w = (case vf_erase vf v of Some erase \<Rightarrow> erase w | None \<Rightarrow> Some (0, w))"

definition volume_get_storage_ids ::
  "('v, 'w) volume_funcs \<Rightarrow> 'v \<Rightarrow> 'w \<Rightarrow> (int \<times> (uuid_bytes \<times> uuid_bytes) option \<times> 'w) option" where
  "volume_get_storage_ids vf v w =
     (case vf_get_storage_ids vf v of Some get \<Rightarrow> get w | None \<Rightarrow> Some (- EIO, None, w))"


section \<open>Volumes are files\<close>

text \<open>A call on \<open>v\<close> leaves the other volumes alone.\<close>

definition only_volume :: "('w \<Rightarrow> 'v \<Rightarrow> bytes) \<Rightarrow> ('w \<Rightarrow> 'v \<Rightarrow> nat option) \<Rightarrow> 'v \<Rightarrow> 'w \<Rightarrow> 'w \<Rightarrow> bool" where
  "only_volume stored pos v w w' \<longleftrightarrow>
     (\<forall>u. u \<noteq> v \<longrightarrow> stored w' u = stored w u \<and> pos w' u = pos w u) \<and> length (stored w' v) = length (stored w v)"

lemma only_volume_refl [simp]: "only_volume stored pos v w w"
  by (simp add: only_volume_def)

lemma only_volume_trans [trans]:
  "only_volume stored pos v w1 w2 \<Longrightarrow> only_volume stored pos v w2 w3 \<Longrightarrow> only_volume stored pos v w1 w3"
  by (simp add: only_volume_def)

text \<open>The contract. \<open>pos\<close> is the file position of an open volume; on a volume that is not open an access has a result and
  keeps to its volume, and nothing more is promised.\<close>

locale volume_files =
  fixes vf :: "('v, 'w) volume_funcs" and wok :: "'w \<Rightarrow> bool"
    and stored :: "'w \<Rightarrow> 'v \<Rightarrow> bytes" and pos :: "'w \<Rightarrow> 'v \<Rightarrow> nat option"
  assumes opens: "wok w \<Longrightarrow> \<exists>st w1. volume_open vf v w = Some (st, w1) \<and> wok w1
      \<and> only_volume stored pos v w w1 \<and> stored w1 v = stored w v \<and> (st = 0 \<longrightarrow> pos w1 v = Some 0)"
    and closes: "wok w \<Longrightarrow> \<exists>st w1. volume_close vf v w = Some (st, w1) \<and> wok w1
      \<and> only_volume stored pos v w w1 \<and> stored w1 v = stored w v"
    and sizes: "wok w \<Longrightarrow> pos w v = Some p \<Longrightarrow>
      \<exists>st n. volume_size vf v w = Some (st, n, w) \<and> (st = 0 \<longrightarrow> n = length (stored w v))"
    and erases: "wok w \<Longrightarrow> pos w v = Some p \<Longrightarrow> \<exists>st w1. volume_erase vf v w = Some (st, w1) \<and> wok w1
      \<and> only_volume stored pos v w w1 \<and> pos w1 v = Some p"
    and reads: "wok w \<Longrightarrow> pos w v = Some p \<Longrightarrow> n \<le> length buf \<Longrightarrow> n < 2 ^ 64 \<Longrightarrow>
      \<exists>st buf1 k w1. volume_read vf v buf n w = Some (st, buf1, k, w1) \<and> wok w1
        \<and> only_volume stored pos v w w1 \<and> stored w1 v = stored w v \<and> length buf1 = length buf
        \<and> (st = 0 \<longrightarrow> k = min n (length (stored w v) - p) \<and> buf1 = splice buf 0 (slice (stored w v) p k)
             \<and> pos w1 v = Some (p + k))"
    and writes: "wok w \<Longrightarrow> pos w v = Some p \<Longrightarrow> n \<le> length buf \<Longrightarrow> n < 2 ^ 64 \<Longrightarrow>
      \<exists>st k w1. volume_write vf v buf n w = Some (st, k, w1) \<and> wok w1 \<and> only_volume stored pos v w w1
        \<and> (st = 0 \<longrightarrow> k = min n (length (stored w v) - p) \<and> stored w1 v = splice (stored w v) p (take k buf)
             \<and> pos w1 v = Some (p + k))"
    and reads_any: "wok w \<Longrightarrow> n \<le> length buf \<Longrightarrow> n < 2 ^ 64 \<Longrightarrow>
      \<exists>st buf1 k w1. volume_read vf v buf n w = Some (st, buf1, k, w1) \<and> wok w1
        \<and> only_volume stored pos v w w1 \<and> stored w1 v = stored w v \<and> length buf1 = length buf"
    and writes_any: "wok w \<Longrightarrow> n \<le> length buf \<Longrightarrow> n < 2 ^ 64 \<Longrightarrow>
      \<exists>st k w1. volume_write vf v buf n w = Some (st, k, w1) \<and> wok w1 \<and> only_volume stored pos v w w1"
    and erases_any: "wok w \<Longrightarrow> \<exists>st w1. volume_erase vf v w = Some (st, w1) \<and> wok w1 \<and> only_volume stored pos v w w1"
    and sizes_any: "wok w \<Longrightarrow> \<exists>st n. volume_size vf v w = Some (st, n, w)"
    and bounded: "wok w \<Longrightarrow> pos w v = Some p \<Longrightarrow> p \<le> length (stored w v) \<and> length (stored w v) < 2 ^ 64"
    and storage_ids: "wok w \<Longrightarrow> \<exists>st ids w1. volume_get_storage_ids vf v w = Some (st, ids, w1) \<and> wok w1
      \<and> stored w1 = stored w \<and> pos w1 = pos w"

text \<open>Volumes on which no call fails.\<close>

locale working_volumes = volume_files +
  assumes open_works: "wok w \<Longrightarrow> volume_open vf v w = Some (st, w1) \<Longrightarrow> st = 0"
    and erase_works: "wok w \<Longrightarrow> pos w v = Some p \<Longrightarrow> volume_erase vf v w = Some (st, w1) \<Longrightarrow> st = 0"
    and read_works: "wok w \<Longrightarrow> pos w v = Some p \<Longrightarrow> n \<le> length buf \<Longrightarrow> n < 2 ^ 64 \<Longrightarrow>
      volume_read vf v buf n w = Some (st, buf1, k, w1) \<Longrightarrow> st = 0"
    and write_works: "wok w \<Longrightarrow> pos w v = Some p \<Longrightarrow> n \<le> length buf \<Longrightarrow> n < 2 ^ 64 \<Longrightarrow>
      volume_write vf v buf n w = Some (st, k, w1) \<Longrightarrow> st = 0"
    and size_works: "wok w \<Longrightarrow> pos w v = Some p \<Longrightarrow> volume_size vf v w = Some (st, n, w1) \<Longrightarrow> st = 0"
    and close_works: "wok w \<Longrightarrow> pos w v = Some p \<Longrightarrow> volume_close vf v w = Some (st, w1) \<Longrightarrow> st = 0"

end
