(* ===== verification/BlockVolume.thy ===== *)
theory BlockVolume
  imports PartitionedBlockStore Volume
begin

text \<open>
  Volumes (\<open>block_volume.c\<close>): a storage partition presented as one seekable file. Reads and
  writes are loops over the blocks the request touches. They end only if the block store makes
  progress, so the loops are partial functions and \<open>None\<close> also means divergence; over a store
  that keeps the contract of \<open>BlockStore\<close> they are shown to return, and the volume is shown to
  be a file: a byte sequence and a position in it.
\<close>

section \<open>Operations\<close>

text \<open>The volume with the store it points to.\<close>

record 's block_volume =
  bv_file_pos :: size_t
  bv_size :: size_t
  bv_block_store :: "'s block_store_interface option"
  bv_store :: 's
  bv_partition_guid :: uuid_octets
  bv_partition_handle :: storage_partition_handle_t
  bv_partition_info :: storage_partition_info

definition block_volume_init ::
  "'s block_volume \<Rightarrow> 's block_store_interface option \<Rightarrow> 's \<Rightarrow> uuid_octets \<Rightarrow> int \<times> 's block_volume" where
  "block_volume_init v block_store s partition_guid =
     (0, v\<lparr>bv_block_store := block_store, bv_store := s, bv_partition_guid := partition_guid,
           bv_file_pos := 0, bv_size := 0, bv_partition_handle := 0,
           bv_partition_info := (bv_partition_info v)\<lparr>spi_block_size := 0, spi_num_blocks := 0\<rparr>\<rparr>)"

definition block_volume_set_partition_guid :: "'s block_volume \<Rightarrow> uuid_octets \<Rightarrow> 's block_volume" where
  "block_volume_set_partition_guid v partition_guid = v\<lparr>bv_partition_guid := partition_guid\<rparr>"

definition block_volume_open :: "'s block_volume \<Rightarrow> (int \<times> 's block_volume) option" where
  "block_volume_open v =
     do {
       (st, io, s) \<leftarrow> block_store_get_partition_info (bv_block_store v) (bv_store v) (bv_partition_guid v);
       let v1 = v\<lparr>bv_store := s\<rparr>;
       if st = PSA_SUCCESS
       then do {
         info \<leftarrow> io;
         let v2 = v1\<lparr>bv_partition_info := info, bv_file_pos := 0,
                     bv_size := mul64 (spi_block_size info) (spi_num_blocks info)\<rparr>;
         (st2, h, s2) \<leftarrow> block_store_open (bv_block_store v2) (bv_store v2) 0 (bv_partition_guid v2);
         Some (if st2 = PSA_SUCCESS then 0 else - EPERM,
               v2\<lparr>bv_partition_handle := (if st2 = PSA_SUCCESS then h else bv_partition_handle v2),
                  bv_store := s2\<rparr>)
       }
       else Some (- EPERM, v1)
     }"

definition block_volume_close :: "'s block_volume \<Rightarrow> (int \<times> 's block_volume) option" where
  "block_volume_close v =
     do {
       (st, s) \<leftarrow> block_store_close (bv_block_store v) (bv_store v) 0 (bv_partition_handle v);
       let v1 = v\<lparr>bv_store := s\<rparr>;
       if st = PSA_SUCCESS then Some (0, v1\<lparr>bv_file_pos := 0, bv_size := 0\<rparr>) else Some (- ENXIO, v1)
     }"

text \<open>The offset is a signed 64-bit value. Comparing it with the size converts it to unsigned, so a
  negative offset is a very large one; the target of a relative seek is computed in unsigned
  arithmetic and read as signed.\<close>

definition to_unsigned64 :: "int \<Rightarrow> nat" where
  "to_unsigned64 x = nat (x mod 2 ^ 64)"

definition to_int64 :: "nat \<Rightarrow> int" where
  "to_int64 n = (int n + 2 ^ 63) mod 2 ^ 64 - 2 ^ 63"

definition block_volume_seek :: "'s block_volume \<Rightarrow> io_seek_mode \<Rightarrow> int \<Rightarrow> int \<times> 's block_volume" where
  "block_volume_seek v mode off =
     (case mode of
        IO_SEEK_SET \<Rightarrow>
          if to_unsigned64 off \<le> bv_size v then (0, v\<lparr>bv_file_pos := to_unsigned64 off\<rparr>)
          else (- EINVAL, v)
      | IO_SEEK_CUR \<Rightarrow>
          (let target_pos = to_int64 (add64 (bv_file_pos v) (to_unsigned64 off))
           in if 0 \<le> target_pos \<and> nat target_pos \<le> bv_size v
              then (0, v\<lparr>bv_file_pos := nat target_pos\<rparr>) else (- EINVAL, v))
      | IO_SEEK_OTHER \<Rightarrow> (- EINVAL, v))"

definition block_volume_size :: "'s block_volume \<Rightarrow> int \<times> size_t" where
  "block_volume_size v = (0, bv_size v)"

text \<open>The block, the offset in it and the length of the next access of a transfer of which
  \<open>todo\<close> bytes are left.\<close>

definition block_volume_next :: "'s block_volume \<Rightarrow> size_t \<Rightarrow> lba_t \<times> size_t \<times> size_t" where
  "block_volume_next v todo =
     (let block_size = spi_block_size (bv_partition_info v);
          lba = bv_file_pos v div block_size;
          offset = bv_file_pos v mod block_size;
          bytes_remaining_in_block = sub64 block_size offset;
          bytes_remaining_in_file = sub64 (bv_size v) (bv_file_pos v);
          bytes_remaining = (if bytes_remaining_in_file < todo then bytes_remaining_in_file else todo);
          requested_len = (if bytes_remaining < bytes_remaining_in_block then bytes_remaining
                           else bytes_remaining_in_block)
      in (lba, offset, requested_len))"

text \<open>The loops of \<open>block_volume_read\<close> and \<open>block_volume_write\<close>. The result is the status,
  the caller's buffer, the length reported and the volume.\<close>

partial_function (option) block_volume_read_loop ::
  "'s block_volume \<Rightarrow> size_t \<Rightarrow> bytes \<Rightarrow> size_t \<Rightarrow> (int \<times> bytes \<times> size_t \<times> 's block_volume) option" where
  "block_volume_read_loop v len buf bytes_read =
     (if bytes_read < len \<and> bv_file_pos v < bv_size v
      then
        (case block_volume_next v (len - bytes_read) of
           (lba, offset, requested_len) \<Rightarrow>
             do {
               (st, d, s) \<leftarrow> block_store_read (bv_block_store v) (bv_store v) 0 (bv_partition_handle v)
                 lba offset requested_len;
               if st \<noteq> PSA_SUCCESS then Some (- EIO, buf, 0, v\<lparr>bv_store := s\<rparr>)
               else do {
                 buf1 \<leftarrow> mem_write buf bytes_read d;
                 block_volume_read_loop
                   (v\<lparr>bv_store := s, bv_file_pos := add64 (bv_file_pos v) (length d)\<rparr>)
                   len buf1 (add64 bytes_read (length d))
               }
             })
      else Some (0, buf, bytes_read, v))"

definition block_volume_read ::
  "'s block_volume \<Rightarrow> bytes \<Rightarrow> size_t \<Rightarrow> (int \<times> bytes \<times> size_t \<times> 's block_volume) option" where
  "block_volume_read v buf len =
     (if spi_block_size (bv_partition_info v) = 0 then Some (- EIO, buf, 0, v)
      else block_volume_read_loop v len buf 0)"

partial_function (option) block_volume_write_loop ::
  "'s block_volume \<Rightarrow> size_t \<Rightarrow> bytes \<Rightarrow> size_t \<Rightarrow> (int \<times> size_t \<times> 's block_volume) option" where
  "block_volume_write_loop v len buf bytes_written =
     (if bytes_written < len \<and> bv_file_pos v < bv_size v
      then
        (case block_volume_next v (len - bytes_written) of
           (lba, offset, requested_len) \<Rightarrow>
             do {
               d \<leftarrow> mem_read buf bytes_written requested_len;
               (st, actual_len, s) \<leftarrow> block_store_write (bv_block_store v) (bv_store v) 0
                 (bv_partition_handle v) lba offset d;
               if st \<noteq> PSA_SUCCESS then Some (- EIO, 0, v\<lparr>bv_store := s\<rparr>)
               else
                 block_volume_write_loop
                   (v\<lparr>bv_store := s, bv_file_pos := add64 (bv_file_pos v) actual_len\<rparr>)
                   len buf (add64 bytes_written actual_len)
             })
      else Some (0, bytes_written, v))"

definition block_volume_write ::
  "'s block_volume \<Rightarrow> bytes \<Rightarrow> size_t \<Rightarrow> (int \<times> size_t \<times> 's block_volume) option" where
  "block_volume_write v buf len =
     (if spi_block_size (bv_partition_info v) = 0 then Some (- EIO, 0, v)
      else block_volume_write_loop v len buf 0)"

definition block_volume_erase :: "'s block_volume \<Rightarrow> (int \<times> 's block_volume) option" where
  "block_volume_erase v =
     do {
       (st, s) \<leftarrow> block_store_erase (bv_block_store v) (bv_store v) 0 (bv_partition_handle v) 0 UINT32_MAX;
       let v1 = v\<lparr>bv_store := s\<rparr>;
       if st \<noteq> PSA_SUCCESS then Some (- EIO, v1) else Some (0, v1)
     }"

definition block_volume_get_storage_ids ::
  "'s block_volume \<Rightarrow> (int \<times> (uuid_octets \<times> uuid_octets) option \<times> 's block_volume) option" where
  "block_volume_get_storage_ids v =
     do {
       (st, io, s) \<leftarrow> block_store_get_partition_info (bv_block_store v) (bv_store v) (bv_partition_guid v);
       let v1 = v\<lparr>bv_store := s\<rparr>;
       if st = PSA_SUCCESS
       then do {
         info \<leftarrow> io;
         Some (0, Some (spi_partition_guid info, spi_parent_guid info), v1)
       }
       else Some (- EINVAL, None, v1)
     }"


section \<open>A volume is a file\<close>

text \<open>The abstract view: the bytes of the file and the position.\<close>

type_synonym byte_file = "bytes \<times> nat"

definition file_read :: "byte_file \<Rightarrow> nat \<Rightarrow> bytes \<times> byte_file" where
  "file_read f n = (case f of (c, pos) \<Rightarrow>
     let k = min n (length c - pos) in (slice c pos k, (c, pos + k)))"

definition file_write :: "byte_file \<Rightarrow> bytes \<Rightarrow> nat \<times> byte_file" where
  "file_write f d = (case f of (c, pos) \<Rightarrow>
     let k = min (length d) (length c - pos) in (k, (splice c pos (take k d), pos + k)))"

text \<open>An open volume over a store with the given contract.\<close>

definition volume_ok ::
  "'s block_store_interface \<Rightarrow> ('s \<Rightarrow> bool) \<Rightarrow> ('s \<Rightarrow> u32 \<Rightarrow> storage_partition_handle_t \<Rightarrow> psa_status) \<Rightarrow>
    ('s \<Rightarrow> storage_partition_handle_t \<Rightarrow> nat) \<Rightarrow> ('s \<Rightarrow> storage_partition_handle_t \<Rightarrow> nat) \<Rightarrow>
    's block_volume \<Rightarrow> bool" where
  "volume_ok iface store_inv acc nblocks bsize v \<longleftrightarrow>
     bv_block_store v = Some iface \<and> store_inv (bv_store v)
     \<and> acc (bv_store v) 0 (bv_partition_handle v) = PSA_SUCCESS
     \<and> nblocks (bv_store v) (bv_partition_handle v) = spi_num_blocks (bv_partition_info v)
     \<and> bsize (bv_store v) (bv_partition_handle v) = spi_block_size (bv_partition_info v)
     \<and> bv_size v = spi_num_blocks (bv_partition_info v) * spi_block_size (bv_partition_info v)
     \<and> bv_file_pos v \<le> bv_size v"

definition volume_file ::
  "('s \<Rightarrow> storage_partition_handle_t \<Rightarrow> bytes) \<Rightarrow> 's block_volume \<Rightarrow> byte_file" where
  "volume_file contents v = (contents (bv_store v) (bv_partition_handle v), bv_file_pos v)"

text \<open>The next access stays in one block of the volume and makes progress.\<close>

lemma block_volume_next_in:
  assumes size: "bv_size v = spi_num_blocks (bv_partition_info v) * spi_block_size (bv_partition_info v)"
    and bound: "bv_size v < 2 ^ 64" and pos: "bv_file_pos v < bv_size v" and todo: "0 < todo"
  obtains lba off k where "block_volume_next v todo = (lba, off, k)"
    and "lba < spi_num_blocks (bv_partition_info v)" and "off < spi_block_size (bv_partition_info v)"
    and "lba * spi_block_size (bv_partition_info v) + off = bv_file_pos v"
    and "0 < k" and "k \<le> spi_block_size (bv_partition_info v) - off"
    and "k \<le> todo" and "k \<le> bv_size v - bv_file_pos v"
proof -
  let ?b = "spi_block_size (bv_partition_info v)" and ?n = "spi_num_blocks (bv_partition_info v)"
  let ?p = "bv_file_pos v"
  have b: "0 < ?b" and n: "0 < ?n"
    using size pos by (auto intro: Nat.gr0I)
  have bb: "?b \<le> bv_size v"
    using n by (simp add: size)
  have off: "?p mod ?b < ?b"
    using b by simp
  have s1: "sub64 ?b (?p mod ?b) = ?b - ?p mod ?b"
    using off bb bound by (intro sub64_exact) simp_all
  have s2: "sub64 (bv_size v) ?p = bv_size v - ?p"
    using pos bound by (intro sub64_exact) simp_all
  have lba: "?p div ?b < ?n"
    using pos b by (simp add: size less_mult_imp_div_less)
  let ?k = "min (min (bv_size v - ?p) todo) (?b - ?p mod ?b)"
  have eq: "block_volume_next v todo = (?p div ?b, ?p mod ?b, ?k)"
    by (auto simp: block_volume_next_def Let_def s1 s2 min_def)
  show ?thesis
    by (rule that [OF eq lba off]) (use pos todo off in auto)
qed

context block_store_contents
begin

abbreviation vol_ok :: "'s block_volume \<Rightarrow> bool" where
  "vol_ok \<equiv> volume_ok iface store_inv acc nblocks bsize"

lemma volume_bounds:
  assumes "vol_ok v"
  shows "bv_size v < 2 ^ 64"
    and "length (contents (bv_store v) (bv_partition_handle v)) = bv_size v"
  using assms extent_bound [of "bv_store v" 0 "bv_partition_handle v"]
    contents_extent [of "bv_store v" 0 "bv_partition_handle v"]
  by (auto simp: volume_ok_def)

text \<open>One step of each loop.\<close>

lemma volume_read_step:
  assumes ok: "vol_ok v" and pos: "bv_file_pos v < bv_size v" and todo: "0 < todo"
  obtains lba off k d s where "block_volume_next v todo = (lba, off, k)" and "0 < k" and "k \<le> todo"
    and "k \<le> bv_size v - bv_file_pos v"
    and "bsi_read iface (bv_store v) 0 (bv_partition_handle v) lba off k = Some (PSA_SUCCESS, d, s)"
    and "d = slice (contents (bv_store v) (bv_partition_handle v)) (bv_file_pos v) k" and "length d = k"
    and "vol_ok (v\<lparr>bv_store := s, bv_file_pos := bv_file_pos v + k\<rparr>)"
    and "contents s (bv_partition_handle v) = contents (bv_store v) (bv_partition_handle v)"
proof -
  let ?s = "bv_store v" and ?h = "bv_partition_handle v"
  note b = volume_bounds [OF ok]
  have v: "store_inv ?s" "acc ?s 0 ?h = PSA_SUCCESS" "nblocks ?s ?h = spi_num_blocks (bv_partition_info v)"
      "bsize ?s ?h = spi_block_size (bv_partition_info v)"
      "bv_size v = spi_num_blocks (bv_partition_info v) * spi_block_size (bv_partition_info v)"
    using ok by (simp_all add: volume_ok_def)
  obtain lba off k where n: "block_volume_next v todo = (lba, off, k)"
    and in_blk: "lba < nblocks ?s ?h" "off < bsize ?s ?h" "lba * bsize ?s ?h + off = bv_file_pos v"
    and k: "0 < k" "k \<le> bsize ?s ?h - off" "k \<le> todo" "k \<le> bv_size v - bv_file_pos v"
    by (rule block_volume_next_in [OF v(5) b(1) pos todo]) (use v in simp)
  have st: "io_status (acc ?s 0 ?h) (nblocks ?s ?h) (bsize ?s ?h) lba off = PSA_SUCCESS"
    using v(2) in_blk by (simp add: io_status_def)
  obtain d s where r: "bsi_read iface ?s 0 ?h lba off k = Some (PSA_SUCCESS, d, s)" and s: "store_inv s"
    and kept: "extent_kept acc nblocks bsize ?s s"
    using read_returns [OF v(1), of 0 ?h lba off k] st by auto
  have d: "d = slice (contents ?s ?h) (bv_file_pos v) k" and ck: "contents_kept acc contents {} ?s s"
    using read_gives [OF v(1) r] k(2) in_blk(3) by simp_all
  have c: "contents s ?h = contents ?s ?h"
    using ck v(2) by (simp add: contents_kept_def)
  have ok': "vol_ok (v\<lparr>bv_store := s, bv_file_pos := bv_file_pos v + k\<rparr>)"
    using ok kept s k(4) pos by (auto simp: volume_ok_def extent_kept_def)
  have "length d = k"
    unfolding d using k(4) pos b(2) by simp
  then show ?thesis
    using that [OF n k(1,3,4) r d _ ok' c] by simp
qed

lemma volume_write_step:
  assumes ok: "vol_ok v" and pos: "bv_file_pos v < bv_size v" and todo: "0 < todo"
  obtains lba off k where "block_volume_next v todo = (lba, off, k)" and "0 < k" and "k \<le> todo"
    and "k \<le> bv_size v - bv_file_pos v"
    and "\<And>d. length d = k \<Longrightarrow> \<exists>s. bsi_write iface (bv_store v) 0 (bv_partition_handle v) lba off d = Some (PSA_SUCCESS, k, s)
      \<and> vol_ok (v\<lparr>bv_store := s, bv_file_pos := bv_file_pos v + k\<rparr>)
      \<and> contents s (bv_partition_handle v) = splice (contents (bv_store v) (bv_partition_handle v)) (bv_file_pos v) d"
proof -
  let ?s = "bv_store v" and ?h = "bv_partition_handle v"
  note b = volume_bounds [OF ok]
  have v: "store_inv ?s" "acc ?s 0 ?h = PSA_SUCCESS" "nblocks ?s ?h = spi_num_blocks (bv_partition_info v)"
      "bsize ?s ?h = spi_block_size (bv_partition_info v)"
      "bv_size v = spi_num_blocks (bv_partition_info v) * spi_block_size (bv_partition_info v)"
    using ok by (simp_all add: volume_ok_def)
  obtain lba off k where n: "block_volume_next v todo = (lba, off, k)"
    and in_blk: "lba < nblocks ?s ?h" "off < bsize ?s ?h" "lba * bsize ?s ?h + off = bv_file_pos v"
    and k: "0 < k" "k \<le> bsize ?s ?h - off" "k \<le> todo" "k \<le> bv_size v - bv_file_pos v"
    by (rule block_volume_next_in [OF v(5) b(1) pos todo]) (use v in simp)
  have st: "io_status (acc ?s 0 ?h) (nblocks ?s ?h) (bsize ?s ?h) lba off = PSA_SUCCESS"
    using v(2) in_blk by (simp add: io_status_def)
  have "\<exists>s. bsi_write iface ?s 0 ?h lba off d = Some (PSA_SUCCESS, k, s)
      \<and> vol_ok (v\<lparr>bv_store := s, bv_file_pos := bv_file_pos v + k\<rparr>)
      \<and> contents s ?h = splice (contents ?s ?h) (bv_file_pos v) d" if len: "length d = k" for d
  proof -
    obtain s where w: "bsi_write iface ?s 0 ?h lba off d = Some (PSA_SUCCESS, k, s)" and s: "store_inv s"
      and kept: "extent_kept acc nblocks bsize ?s s"
      using write_returns [OF v(1), of 0 ?h lba off d] st k(2) len by auto
    have "contents s ?h = splice (contents ?s ?h) (bv_file_pos v) d"
      using write_puts [OF v(1) w] in_blk(3) len by simp
    moreover have "vol_ok (v\<lparr>bv_store := s, bv_file_pos := bv_file_pos v + k\<rparr>)"
      using ok kept s k(4) pos by (auto simp: volume_ok_def extent_kept_def)
    ultimately show ?thesis
      using w by blast
  qed
  then show ?thesis
    using that [OF n k(1,3,4)] by blast
qed

text \<open>The loops transfer what is left of the request or of the file.\<close>

lemma volume_read_loop:
  assumes "vol_ok v" and "br \<le> len" and "len \<le> length buf" and "len < 2 ^ 64"
  shows "\<exists>v'. block_volume_read_loop v len buf br
      = Some (0, splice buf br (slice (contents (bv_store v) (bv_partition_handle v)) (bv_file_pos v)
                  (min (len - br) (bv_size v - bv_file_pos v))),
              br + min (len - br) (bv_size v - bv_file_pos v), v')
    \<and> vol_ok v' \<and> bv_file_pos v' = bv_file_pos v + min (len - br) (bv_size v - bv_file_pos v)
    \<and> contents (bv_store v') (bv_partition_handle v') = contents (bv_store v) (bv_partition_handle v)"
  using assms
proof (induction "len - br" arbitrary: v buf br rule: less_induct)
  case less
  let ?C = "contents (bv_store v) (bv_partition_handle v)" and ?p = "bv_file_pos v"
  note b = volume_bounds [OF less.prems(1)]
  show ?case
  proof (cases "br < len \<and> ?p < bv_size v")
    case False
    then show ?thesis
      using less.prems by (subst block_volume_read_loop.simps) auto
  next
    case True
    obtain lba off k d s where n: "block_volume_next v (len - br) = (lba, off, k)" and k: "0 < k" "k \<le> len - br"
        "k \<le> bv_size v - ?p"
      and r: "bsi_read iface (bv_store v) 0 (bv_partition_handle v) lba off k = Some (PSA_SUCCESS, d, s)"
      and d: "d = slice ?C ?p k" "length d = k"
      and ok': "vol_ok (v\<lparr>bv_store := s, bv_file_pos := ?p + k\<rparr>)" and c: "contents s (bv_partition_handle v) = ?C"
      by (rule volume_read_step [OF less.prems(1), of "len - br"]) (use True in auto)
    let ?v = "v\<lparr>bv_store := s, bv_file_pos := ?p + k\<rparr>"
    let ?m = "min (len - (br + k)) (bv_size v - (?p + k))"
    have iface: "bv_block_store v = Some iface"
      using less.prems(1) by (simp add: volume_ok_def)
    have add: "add64 ?p k = ?p + k" "add64 br k = br + k"
      using k b(1) True less.prems(4) by (simp_all add: arith64)
    have fit: "br + length d \<le> length buf"
      using d(2) k(2) less.prems(3) True by linarith
    note w = mem_write_in [OF fit]
    have step: "block_volume_read_loop v len buf br = block_volume_read_loop ?v len (splice buf br d) (br + k)"
      using True n r iface w d(2) add
      by (subst block_volume_read_loop.simps) (simp add: block_store_read_def)
    have len: "len \<le> length (splice buf br d)"
      using length_splice [OF fit] less.prems(3) by simp
    have dec: "len - (br + k) < len - br" "br + k \<le> len"
      using k True by linarith+
    from less.hyps [OF dec(1) ok' dec(2) len less.prems(4)] obtain v' where
      rec: "block_volume_read_loop ?v len (splice buf br d) (br + k)
        = Some (0, splice (splice buf br d) (br + k) (slice ?C (?p + k) ?m), br + k + ?m, v')"
      and v': "vol_ok v'" "bv_file_pos v' = ?p + k + ?m" "contents (bv_store v') (bv_partition_handle v') = ?C"
      using c by auto
    have m: "k + ?m = min (len - br) (bv_size v - ?p)"
      using k by linarith
    have fit2: "br + k + ?m \<le> length buf" and fitc2: "?p + k + ?m \<le> length ?C"
      using k less.prems(3) True b(2) by (auto simp: min_def)
    have "splice (splice buf br d) (br + k) (slice ?C (?p + k) ?m) = splice buf br (d @ slice ?C (?p + k) ?m)"
      using splice_splice_adjacent [of br d "slice ?C (?p + k) ?m" buf] length_slice [OF fitc2] d(2) fit2 by simp
    also have "d @ slice ?C (?p + k) ?m = slice ?C ?p (k + ?m)"
      unfolding d(1) by (rule slice_append [OF fitc2])
    finally show ?thesis
      using step rec v' m by (simp add: add.assoc)
  qed
qed

lemma volume_write_loop:
  assumes "vol_ok v" and "bw \<le> len" and "len \<le> length buf" and "len < 2 ^ 64"
  shows "\<exists>v'. block_volume_write_loop v len buf bw = Some (0, bw + min (len - bw) (bv_size v - bv_file_pos v), v')
    \<and> vol_ok v' \<and> bv_file_pos v' = bv_file_pos v + min (len - bw) (bv_size v - bv_file_pos v)
    \<and> contents (bv_store v') (bv_partition_handle v')
        = splice (contents (bv_store v) (bv_partition_handle v)) (bv_file_pos v)
            (slice buf bw (min (len - bw) (bv_size v - bv_file_pos v)))"
  using assms
proof (induction "len - bw" arbitrary: v bw rule: less_induct)
  case less
  let ?C = "contents (bv_store v) (bv_partition_handle v)" and ?p = "bv_file_pos v"
  note b = volume_bounds [OF less.prems(1)]
  show ?case
  proof (cases "bw < len \<and> ?p < bv_size v")
    case False
    then show ?thesis
      using less.prems by (subst block_volume_write_loop.simps) auto
  next
    case True
    obtain lba off k where n: "block_volume_next v (len - bw) = (lba, off, k)" and k: "0 < k" "k \<le> len - bw"
        "k \<le> bv_size v - ?p"
      and wr: "\<And>d. length d = k \<Longrightarrow> \<exists>s. bsi_write iface (bv_store v) 0 (bv_partition_handle v) lba off d = Some (PSA_SUCCESS, k, s)
        \<and> vol_ok (v\<lparr>bv_store := s, bv_file_pos := ?p + k\<rparr>) \<and> contents s (bv_partition_handle v) = splice ?C ?p d"
      by (rule volume_write_step [OF less.prems(1), of "len - bw"]) (use True in auto)
    have fit: "bw + k \<le> length buf" and fitc: "?p + k \<le> length ?C"
      using k less.prems(3) True b(2) by linarith+
    obtain s where w: "bsi_write iface (bv_store v) 0 (bv_partition_handle v) lba off (slice buf bw k) = Some (PSA_SUCCESS, k, s)"
      and ok': "vol_ok (v\<lparr>bv_store := s, bv_file_pos := ?p + k\<rparr>)"
      and c: "contents s (bv_partition_handle v) = splice ?C ?p (slice buf bw k)"
      using wr [OF length_slice [OF fit]] by blast
    let ?v = "v\<lparr>bv_store := s, bv_file_pos := ?p + k\<rparr>"
    let ?m = "min (len - (bw + k)) (bv_size v - (?p + k))"
    have iface: "bv_block_store v = Some iface"
      using less.prems(1) by (simp add: volume_ok_def)
    have add: "add64 ?p k = ?p + k" "add64 bw k = bw + k"
      using k b(1) True less.prems(4) by (simp_all add: arith64)
    have step: "block_volume_write_loop v len buf bw = block_volume_write_loop ?v len buf (bw + k)"
      using True n w iface mem_read_in [OF fit] add
      by (subst block_volume_write_loop.simps) (simp add: block_store_write_def)
    have dec: "len - (bw + k) < len - bw" "bw + k \<le> len"
      using k True by linarith+
    from less.hyps [OF dec(1) ok' dec(2) less.prems(3,4)] obtain v' where
      rec: "block_volume_write_loop ?v len buf (bw + k) = Some (0, bw + k + ?m, v')"
      and v': "vol_ok v'" "bv_file_pos v' = ?p + k + ?m"
        "contents (bv_store v') (bv_partition_handle v')
          = splice (splice ?C ?p (slice buf bw k)) (?p + k) (slice buf (bw + k) ?m)"
      using c by auto
    have m: "k + ?m = min (len - bw) (bv_size v - ?p)"
      using k by linarith
    have fit2: "bw + k + ?m \<le> length buf" and fitc2: "?p + k + ?m \<le> length ?C"
      using k less.prems(3) True b(2) by (auto simp: min_def)
    have "splice (splice ?C ?p (slice buf bw k)) (?p + k) (slice buf (bw + k) ?m)
        = splice ?C ?p (slice buf bw k @ slice buf (bw + k) ?m)"
      using splice_splice_adjacent [of ?p "slice buf bw k" "slice buf (bw + k) ?m" ?C]
        length_slice [OF fit] length_slice [OF fit2] fitc2 by simp
    also have "slice buf bw k @ slice buf (bw + k) ?m = slice buf bw (k + ?m)"
      by (rule slice_append [OF fit2])
    finally show ?thesis
      using step rec v' m by (simp add: add.assoc)
  qed
qed

text \<open>The file operations.\<close>

lemma volume_reads_file:
  assumes ok: "vol_ok v" and len: "len \<le> length buf" "len < 2 ^ 64"
    and bs: "spi_block_size (bv_partition_info v) \<noteq> 0"
    and f: "file_read (volume_file contents v) len = (d, f')"
  shows "\<exists>v'. block_volume_read v buf len = Some (0, splice buf 0 d, length d, v') \<and> vol_ok v'
    \<and> volume_file contents v' = f'"
proof -
  let ?k = "min len (bv_size v - bv_file_pos v)"
  note b = volume_bounds [OF ok]
  have "?k \<le> bv_size v - bv_file_pos v" and pos: "bv_file_pos v \<le> bv_size v"
    using ok by (simp_all add: volume_ok_def)
  then have "length (slice (contents (bv_store v) (bv_partition_handle v)) (bv_file_pos v) ?k) = ?k"
    using b(2) by simp
  with volume_read_loop [OF ok _ len, of 0] f b(2) bs show ?thesis
    by (auto simp: block_volume_read_def file_read_def volume_file_def Let_def)
qed

lemma volume_writes_file:
  assumes ok: "vol_ok v" and len: "len \<le> length buf" "len < 2 ^ 64"
    and bs: "spi_block_size (bv_partition_info v) \<noteq> 0"
    and f: "file_write (volume_file contents v) (take len buf) = (k, f')"
  shows "\<exists>v'. block_volume_write v buf len = Some (0, k, v') \<and> vol_ok v' \<and> volume_file contents v' = f'"
proof -
  note b = volume_bounds [OF ok]
  have "slice buf 0 (min len (bv_size v - bv_file_pos v))
      = take (min len (bv_size v - bv_file_pos v)) (take len buf)"
    by (simp add: slice_def)
  with volume_write_loop [OF ok _ len, of 0] f b(2) bs len show ?thesis
    by (auto simp: block_volume_write_def file_write_def volume_file_def Let_def min_absorb2)
qed

lemma volume_opens:
  assumes iface: "bv_block_store v = Some iface" and inv: "store_inv (bv_store v)"
    and op: "block_volume_open v = Some (0, v')"
  shows "vol_ok v'" and "bv_file_pos v' = 0"
proof -
  obtain info s1 h s2 where i: "bsi_get_partition_info iface (bv_store v) (bv_partition_guid v) = Some (PSA_SUCCESS, Some info, s1)"
    and o: "bsi_open iface s1 0 (bv_partition_guid v) = Some (PSA_SUCCESS, h, s2)"
    and v': "v' = v\<lparr>bv_store := s2, bv_partition_info := info, bv_file_pos := 0,
      bv_size := mul64 (spi_block_size info) (spi_num_blocks info), bv_partition_handle := h\<rparr>"
    using op iface by (auto simp: block_volume_open_def block_store_wrappers Let_def split: bind_splits if_splits)
  have s1: "store_inv s1"
    using info_returns [OF inv, of "bv_partition_guid v"] i by auto
  have s2: "store_inv s2" "acc s2 0 h = PSA_SUCCESS"
    using open_returns [OF s1, of 0 "bv_partition_guid v"] o by auto
  note g = open_matches_info [OF inv i o]
  have "spi_block_size info * spi_num_blocks info < 2 ^ 64"
    using extent_bound [OF s2] g by (simp add: mult.commute)
  then show "vol_ok v'" and "bv_file_pos v' = 0"
    using v' s2 g iface by (simp_all add: volume_ok_def arith64 mult.commute)
qed

lemma volume_erases:
  assumes ok: "vol_ok v" and ne: "0 < spi_num_blocks (bv_partition_info v)"
  obtains v' where "block_volume_erase v = Some (0, v')" and "vol_ok v'" and "bv_file_pos v' = bv_file_pos v"
    and "contents (bv_store v') (bv_partition_handle v')
      = splice (contents (bv_store v) (bv_partition_handle v)) 0
          (replicate (min UINT32_MAX (spi_num_blocks (bv_partition_info v)) * spi_block_size (bv_partition_info v)) erased)"
proof -
  let ?s = "bv_store v" and ?h = "bv_partition_handle v"
  have v: "store_inv ?s" "acc ?s 0 ?h = PSA_SUCCESS" "nblocks ?s ?h = spi_num_blocks (bv_partition_info v)"
      "bsize ?s ?h = spi_block_size (bv_partition_info v)" "bv_block_store v = Some iface"
    using ok by (simp_all add: volume_ok_def)
  obtain s where e: "bsi_erase iface ?s 0 ?h 0 UINT32_MAX = Some (PSA_SUCCESS, s)" and s: "store_inv s"
    and kept: "extent_kept acc nblocks bsize ?s s"
    using erase_returns [OF v(1), of 0 ?h 0 UINT32_MAX] v ne by (auto simp: erase_status_def)
  have "contents s ?h = splice (contents ?s ?h) 0
      (replicate (min UINT32_MAX (spi_num_blocks (bv_partition_info v)) * spi_block_size (bv_partition_info v)) erased)"
    using erase_clears [OF v(1) e] v by simp
  moreover have "vol_ok (v\<lparr>bv_store := s\<rparr>)"
    using ok kept s by (auto simp: volume_ok_def extent_kept_def)
  moreover have "block_volume_erase v = Some (0, v\<lparr>bv_store := s\<rparr>)"
    using e v(5) by (simp add: block_volume_erase_def block_store_erase_def)
  ultimately show ?thesis
    using that [of "v\<lparr>bv_store := s\<rparr>"] by simp
qed

end

text \<open>Seeking needs no store. Within \<open>2 ^ 63\<close> the conversions do what they seem to.\<close>

lemma to_unsigned64_nonneg: "0 \<le> x \<Longrightarrow> x < 2 ^ 64 \<Longrightarrow> to_unsigned64 x = nat x"
  by (simp add: to_unsigned64_def)

lemma to_unsigned64_neg: "- (2 ^ 63) \<le> x \<Longrightarrow> x < 0 \<Longrightarrow> to_unsigned64 x = nat (x + 2 ^ 64)"
proof -
  assume x: "- (2 ^ 63) \<le> x" "x < 0"
  have "x mod 2 ^ 64 = (x + 2 ^ 64) mod 2 ^ 64"
    by simp
  also have "\<dots> = x + 2 ^ 64"
    using x by (intro mod_pos_pos_trivial) simp_all
  finally show ?thesis
    by (simp add: to_unsigned64_def)
qed

lemma seek_set:
  assumes "bv_size v < 2 ^ 63" and "- (2 ^ 63) \<le> x" and "x < 2 ^ 63"
  shows "block_volume_seek v IO_SEEK_SET x =
    (if 0 \<le> x \<and> nat x \<le> bv_size v then (0, v\<lparr>bv_file_pos := nat x\<rparr>) else (- EINVAL, v))"
proof (cases "0 \<le> x")
  case True
  then show ?thesis
    using assms by (simp add: block_volume_seek_def to_unsigned64_nonneg)
next
  case False
  then have "\<not> to_unsigned64 x \<le> bv_size v"
    using assms by (simp add: to_unsigned64_neg nat_le_iff)
  with False show ?thesis
    by (simp add: block_volume_seek_def)
qed

lemma seek_cur:
  assumes "bv_size v < 2 ^ 62" and "bv_file_pos v \<le> bv_size v" and "- (2 ^ 62) \<le> x" and "x < 2 ^ 62"
  shows "block_volume_seek v IO_SEEK_CUR x =
    (if 0 \<le> int (bv_file_pos v) + x \<and> nat (int (bv_file_pos v) + x) \<le> bv_size v
     then (0, v\<lparr>bv_file_pos := nat (int (bv_file_pos v) + x)\<rparr>) else (- EINVAL, v))"
proof -
  have p: "int (bv_file_pos v) < 2 ^ 62"
    using assms(1,2) by simp
  have "int (add64 (bv_file_pos v) (to_unsigned64 x)) = (int (bv_file_pos v) + x) mod 2 ^ 64"
    by (simp add: add64_def to_unsigned64_def zmod_int mod_simps)
  then have "to_int64 (add64 (bv_file_pos v) (to_unsigned64 x)) = (int (bv_file_pos v) + x + 2 ^ 63) mod 2 ^ 64 - 2 ^ 63"
    by (simp add: to_int64_def mod_simps)
  also have "(int (bv_file_pos v) + x + 2 ^ 63) mod 2 ^ 64 = int (bv_file_pos v) + x + 2 ^ 63"
    using p assms(3,4) by (intro mod_pos_pos_trivial) simp_all
  finally show ?thesis
    by (simp add: block_volume_seek_def Let_def)
qed


section \<open>Properties\<close>

abbreviation ram_volume_ok :: "ram_block_store partitioned_block_store block_volume \<Rightarrow> bool" where
  "ram_volume_ok \<equiv> volume_ok (partitioned_block_store_interface ram_back) ram_pbs_inv pbs_acc pbs_nblocks pbs_bsize"

abbreviation ram_volume_file :: "ram_block_store partitioned_block_store block_volume \<Rightarrow> byte_file" where
  "ram_volume_file \<equiv> volume_file (pbs_contents ram_contents)"

text \<open>
  Property C6. An open volume over a partition of a RAM disk is a file: reading and writing any
  number of bytes at the current position end, and transfer exactly the bytes the file operation
  transfers, across block boundaries and clipped to the end of the partition.
\<close>

theorem block_volume_is_file:
  assumes ok: "ram_volume_ok v" and len: "len \<le> length buf" "len < 2 ^ 64"
    and bs: "spi_block_size (bv_partition_info v) \<noteq> 0"
  shows "(\<exists>v' d f'. file_read (ram_volume_file v) len = (d, f')
        \<and> block_volume_read v buf len = Some (0, splice buf 0 d, length d, v')
        \<and> ram_volume_ok v' \<and> ram_volume_file v' = f')
    \<and> (\<exists>v' k f'. file_write (ram_volume_file v) (take len buf) = (k, f')
        \<and> block_volume_write v buf len = Some (0, k, v')
        \<and> ram_volume_ok v' \<and> ram_volume_file v' = f')"
proof -
  obtain d f1 where r: "file_read (ram_volume_file v) len = (d, f1)"
    by (rule prod.exhaust)
  obtain k f2 where w: "file_write (ram_volume_file v) (take len buf) = (k, f2)"
    by (rule prod.exhaust)
  from ram_partitioned.partitioned.volume_reads_file [OF assms r]
    ram_partitioned.partitioned.volume_writes_file [OF assms w] r w
  show ?thesis by blast
qed

definition sample_volume :: "ram_block_store partitioned_block_store \<Rightarrow> ram_block_store partitioned_block_store block_volume" where
  "sample_volume p =
     \<lparr>bv_file_pos = 0, bv_size = 0, bv_block_store = Some (partitioned_block_store_interface ram_back),
      bv_store = p, bv_partition_guid = sample_guid 3, bv_partition_handle = 0,
      bv_partition_info = pbs_back_store_info p\<rparr>"

text \<open>A third partition, which the volume opens.\<close>

lemma sample_volume_open:
  obtains p v where "ram_pbs_inv p" and "block_volume_open (sample_volume p) = Some (0, v)" and "ram_volume_ok v"
    and "spi_block_size (bv_partition_info v) = 4" and "bv_size v = 32"
proof -
  define r1 where "r1 = the (partitioned_block_store_init ram_back sample_blank 1 (sample_guid 9) sample_disk None)"
  define r2 where "r2 = partitioned_block_store_add_partition (snd r1) (Some (sample_guid 3)) 0 7 0 None"
  define r3 where "r3 = the (block_volume_open (sample_volume (snd r2)))"
  have i: "partitioned_block_store_init ram_back sample_blank 1 (sample_guid 9) sample_disk None = Some (True, snd r1)"
    unfolding r1_def by (simp add: sample_table_eval)
  have a: "partitioned_block_store_add_partition (snd r1) (Some (sample_guid 3)) 0 7 0 None = (True, snd r2)"
    unfolding r2_def r1_def by (simp add: sample_table_eval)
  have o: "block_volume_open (sample_volume (snd r2)) = Some (0, snd r3)"
    and g: "spi_block_size (bv_partition_info (snd r3)) = 4" "bv_size (snd r3) = 32"
    unfolding r3_def r2_def r1_def
    by (simp_all add: sample_table_eval block_volume_open_def sample_volume_def partitioned_block_store_interface_def
        partitioned_block_store_get_partition_info_def)
  have "table_blank (pbs_storage_partition sample_blank)"
    by (simp add: table_blank_def sample_blank_def storage_partition_zero_def)
  note i' = ram_partitioned.partitioned_init_inv [OF sample_disk_inv this i]
  have d: "\<forall>i < pbs_num_partitions (snd r1). prt_base_lba (pbs_storage_partition (snd r1) ! i)
        + prt_num_blocks (pbs_storage_partition (snd r1) ! i) \<le> 0
      \<or> 7 < prt_base_lba (pbs_storage_partition (snd r1) ! i)"
    using i'(2) by simp
  have inv: "ram_pbs_inv (snd r2)"
    by (rule add_partition_inv(1) [OF i'(1,4) d a])
  have "ram_volume_ok (snd r3)"
    using ram_partitioned.partitioned.volume_opens(1) [OF _ _ o] inv by (simp add: sample_volume_def)
  then show ?thesis
    using that inv o g by blast
qed

theorem block_volume_is_file_witness:
  "\<exists>p v v' k f'. block_volume_open (sample_volume p) = Some (0, v)
    \<and> file_write (ram_volume_file v) (take 6 [1, 2, 3, 4, 5, 6]) = (k, f')
    \<and> block_volume_write v [1, 2, 3, 4, 5, 6] 6 = Some (0, k, v') \<and> ram_volume_file v' = f'"
proof -
  obtain p v where v: "block_volume_open (sample_volume p) = Some (0, v)" "ram_volume_ok v"
      "spi_block_size (bv_partition_info v) = 4"
    by (rule sample_volume_open)
  have "6 \<le> length [1, 2, 3, 4, 5, 6 :: byte]" "(6 :: nat) < 2 ^ 64" "spi_block_size (bv_partition_info v) \<noteq> 0"
    using v(3) by simp_all
  from block_volume_is_file [OF v(2) this] v(1) show ?thesis
    by blast
qed

text \<open>
  What is written to a volume is read back: after a write of \<open>len\<close> bytes at some
  position that lies within the volume, seeking back to that position and reading \<open>len\<close> bytes
  returns them.
\<close>

theorem block_volume_round_trip:
  assumes ok: "ram_volume_ok v" and bs: "spi_block_size (bv_partition_info v) \<noteq> 0"
    and d: "bv_file_pos v + length d \<le> bv_size v" and ne: "d \<noteq> []" and small: "bv_size v < 2 ^ 63"
    and buf: "length buf = length d"
  shows "\<exists>v1 v2 v3. block_volume_write v d (length d) = Some (0, length d, v1)
    \<and> block_volume_seek v1 IO_SEEK_SET (int (bv_file_pos v)) = (0, v2)
    \<and> block_volume_read v2 buf (length d) = Some (0, d, length d, v3)"
proof -
  let ?C = "pbs_contents ram_contents (bv_store v) (bv_partition_handle v)" and ?p = "bv_file_pos v"
  have len: "length d \<le> length d" "length d < 2 ^ 64"
    using d small by simp_all
  have C: "length ?C = bv_size v"
    using ram_partitioned.partitioned.volume_bounds(2) [OF ok] by simp
  have fit: "?p + length d \<le> length ?C"
    using d C by simp
  have w: "file_write (ram_volume_file v) (take (length d) d) = (length d, splice ?C ?p d, ?p + length d)"
    using fit by (simp add: file_write_def volume_file_def Let_def min_absorb1)
  obtain v1 where v1: "block_volume_write v d (length d) = Some (0, length d, v1)" "ram_volume_ok v1"
    and f1: "ram_volume_file v1 = (splice ?C ?p d, ?p + length d)"
    using ram_partitioned.partitioned.volume_writes_file [OF ok len bs w] by blast
  let ?v2 = "v1\<lparr>bv_file_pos := ?p\<rparr>"
  have C1: "pbs_contents ram_contents (bv_store v1) (bv_partition_handle v1) = splice ?C ?p d"
    using f1 by (simp add: volume_file_def)
  have size1: "bv_size v1 = bv_size v"
    using ram_partitioned.partitioned.volume_bounds(2) [OF v1(2)] C1 C fit by simp
  have ok2: "ram_volume_ok ?v2"
    using v1(2) size1 d by (simp add: volume_ok_def)
  have sk: "block_volume_seek v1 IO_SEEK_SET (int ?p) = (0, ?v2)"
    using seek_set [of v1 "int ?p"] size1 small d by simp
  have r: "file_read (ram_volume_file ?v2) (length d) = (d, splice ?C ?p d, ?p + length d)"
    using fit C1 slice_splice_same [OF fit]
    by (simp add: file_read_def volume_file_def Let_def min_absorb1)
  have bs2: "spi_block_size (bv_partition_info ?v2) \<noteq> 0"
  proof
    assume "spi_block_size (bv_partition_info ?v2) = 0"
    then have "bv_size v1 = 0"
      using v1(2) by (simp add: volume_ok_def)
    then show False
      using size1 d ne by simp
  qed
  have len': "length d \<le> length buf"
    using buf by simp
  have "splice buf 0 d = d"
    using buf by (simp add: splice_def)
  with ram_partitioned.partitioned.volume_reads_file [OF ok2 len' len(2) bs2 r] v1(1) sk show ?thesis
    by auto
qed

theorem block_volume_round_trip_witness:
  "\<exists>p v v1 v2 v3. block_volume_open (sample_volume p) = Some (0, v)
    \<and> block_volume_write v [1, 2, 3, 4, 5, 6] (length [1 :: byte, 2, 3, 4, 5, 6])
        = Some (0, length [1 :: byte, 2, 3, 4, 5, 6], v1)
    \<and> block_volume_seek v1 IO_SEEK_SET (int (bv_file_pos v)) = (0, v2)
    \<and> block_volume_read v2 [0, 0, 0, 0, 0, 0] (length [1 :: byte, 2, 3, 4, 5, 6])
        = Some (0, [1, 2, 3, 4, 5, 6], length [1 :: byte, 2, 3, 4, 5, 6], v3)"
proof -
  obtain p v where v: "ram_pbs_inv p" "block_volume_open (sample_volume p) = Some (0, v)" "ram_volume_ok v"
      "spi_block_size (bv_partition_info v) = 4" "bv_size v = 32"
    by (rule sample_volume_open)
  have "bv_file_pos v = 0"
    using ram_partitioned.partitioned.volume_opens(2) [OF _ _ v(2)] v(1) by (simp add: sample_volume_def)
  with block_volume_round_trip [OF v(3), of "[1, 2, 3, 4, 5, 6]" "[0, 0, 0, 0, 0, 0]"] v(4,5)
  have "\<exists>v1 v2 v3. block_volume_write v [1, 2, 3, 4, 5, 6] (length [1 :: byte, 2, 3, 4, 5, 6])
        = Some (0, length [1 :: byte, 2, 3, 4, 5, 6], v1)
    \<and> block_volume_seek v1 IO_SEEK_SET (int (bv_file_pos v)) = (0, v2)
    \<and> block_volume_read v2 [0, 0, 0, 0, 0, 0] (length [1 :: byte, 2, 3, 4, 5, 6])
        = Some (0, [1, 2, 3, 4, 5, 6], length [1 :: byte, 2, 3, 4, 5, 6], v3)"
    by simp
  with v(2) show ?thesis by blast
qed

text \<open>
  Property C37. Erasing a volume erases all of it only when it has fewer than \<open>2 ^ 32\<close> blocks:
  the request is for \<open>UINT32_MAX\<close> blocks, and what lies behind them is kept.
\<close>

theorem block_volume_erase_extent:
  assumes ok: "ram_volume_ok v" and ne: "0 < spi_num_blocks (bv_partition_info v)"
  shows "\<exists>v'. block_volume_erase v = Some (0, v')
    \<and> (let n = min UINT32_MAX (spi_num_blocks (bv_partition_info v)) * spi_block_size (bv_partition_info v)
       in slice (fst (ram_volume_file v')) 0 n = replicate n RAM_BLOCK_STORE_ERASED_VALUE
        \<and> drop n (fst (ram_volume_file v')) = drop n (fst (ram_volume_file v)))"
proof -
  let ?n = "min UINT32_MAX (spi_num_blocks (bv_partition_info v)) * spi_block_size (bv_partition_info v)"
  let ?C = "pbs_contents ram_contents (bv_store v) (bv_partition_handle v)"
  have C: "length ?C = spi_num_blocks (bv_partition_info v) * spi_block_size (bv_partition_info v)"
    using ram_partitioned.partitioned.volume_bounds(2) [OF ok] ok by (simp add: volume_ok_def)
  have fit: "0 + length (replicate ?n RAM_BLOCK_STORE_ERASED_VALUE) \<le> length ?C"
    unfolding C length_replicate by (simp add: mult_le_mono1)
  obtain v' where e: "block_volume_erase v = Some (0, v')"
    and c: "pbs_contents ram_contents (bv_store v') (bv_partition_handle v')
      = splice ?C 0 (replicate ?n RAM_BLOCK_STORE_ERASED_VALUE)"
    by (rule ram_partitioned.partitioned.volume_erases [OF assms])
  have "slice (splice ?C 0 (replicate ?n RAM_BLOCK_STORE_ERASED_VALUE)) 0 ?n = replicate ?n RAM_BLOCK_STORE_ERASED_VALUE"
    using slice_splice_same [OF fit] by simp
  moreover have "drop ?n (splice ?C 0 (replicate ?n RAM_BLOCK_STORE_ERASED_VALUE)) = drop ?n ?C"
    by (simp add: splice_def)
  ultimately show ?thesis
    using e c by (simp add: volume_file_def Let_def)
qed

theorem block_volume_erase_extent_witness:
  "\<exists>p v v'. block_volume_open (sample_volume p) = Some (0, v) \<and> block_volume_erase v = Some (0, v')
    \<and> slice (fst (ram_volume_file v')) 0 32 = replicate 32 RAM_BLOCK_STORE_ERASED_VALUE"
proof -
  obtain p v where v: "block_volume_open (sample_volume p) = Some (0, v)" "ram_volume_ok v"
      "spi_block_size (bv_partition_info v) = 4" "bv_size v = 32"
    by (rule sample_volume_open)
  have n: "spi_num_blocks (bv_partition_info v) = 8"
    using v by (simp add: volume_ok_def)
  from block_volume_erase_extent [OF v(2)] n v show ?thesis
    by (auto simp: Let_def)
qed

end
