(* ===== verification/VolumeIndex.thy ===== *)
theory VolumeIndex
  imports Prelude
begin

text \<open>
  The volume index (\<open>volume_index.c\<close>): a fixed table from volume identifiers to volumes, filled
  when a deployment is configured and searched by the firmware components. Volumes are pointers
  \<open>'v option\<close>.
\<close>

section \<open>Operations\<close>

abbreviation VOLUME_INDEX_MAX_ENTRIES :: nat where
  "VOLUME_INDEX_MAX_ENTRIES \<equiv> 8"

record 'v volume_index =
  vi_size :: size_t
  vi_entries :: "(u32 \<times> 'v option) list"

definition volume_index_clear :: "'v volume_index" where
  "volume_index_clear = \<lparr>vi_size = 0, vi_entries = replicate VOLUME_INDEX_MAX_ENTRIES (0, None)\<rparr>"

definition volume_index_init :: "'v volume_index" where
  "volume_index_init = volume_index_clear"

definition volume_index_add :: "'v volume_index \<Rightarrow> u32 \<Rightarrow> 'v option \<Rightarrow> int \<times> 'v volume_index" where
  "volume_index_add idx volume_id volume =
     (if vi_size idx < VOLUME_INDEX_MAX_ENTRIES
      then (0, idx\<lparr>vi_size := vi_size idx + 1,
                   vi_entries := (vi_entries idx)[vi_size idx := (volume_id, volume)]\<rparr>)
      else (- 1, idx))"

text \<open>The loop over the entries in use.\<close>

fun volume_index_find_from :: "(u32 \<times> 'v option) list \<Rightarrow> u32 \<Rightarrow> (int \<times> 'v option)" where
  "volume_index_find_from [] volume_id = (- 1, None)"
| "volume_index_find_from ((i, v) # es) volume_id =
     (if i = volume_id then (0, v) else volume_index_find_from es volume_id)"

definition volume_index_find :: "'v volume_index \<Rightarrow> u32 \<Rightarrow> int \<times> 'v option" where
  "volume_index_find idx volume_id = volume_index_find_from (take (vi_size idx) (vi_entries idx)) volume_id"

definition volume_index_get :: "'v volume_index \<Rightarrow> u32 \<Rightarrow> 'v option" where
  "volume_index_get idx i =
     (if unat i < vi_size idx then snd (vi_entries idx ! unat i) else None)"

text \<open>The interface the TF-A components expect; \<open>src\<close> reads the device handle and the IO
  specification of a volume.\<close>

definition plat_get_image_source :: "('v \<Rightarrow> 'h) \<Rightarrow> 'v volume_index \<Rightarrow> u32 \<Rightarrow> int \<times> 'h option" where
  "plat_get_image_source src idx volume_id =
     (let (result, volume) = volume_index_find idx volume_id
      in if result = 0
         then (case volume of Some v \<Rightarrow> (result, Some (src v)) | None \<Rightarrow> (- 1, None))
         else (result, None))"


section \<open>The index as an association list\<close>

definition volume_list :: "'v volume_index \<Rightarrow> (u32 \<times> 'v option) list" where
  "volume_list idx = take (vi_size idx) (vi_entries idx)"

definition volume_index_ok :: "'v volume_index \<Rightarrow> bool" where
  "volume_index_ok idx \<longleftrightarrow>
     length (vi_entries idx) = VOLUME_INDEX_MAX_ENTRIES \<and> vi_size idx \<le> VOLUME_INDEX_MAX_ENTRIES"

lemma volume_index_find_map_of:
  "volume_index_find idx i = (case map_of (volume_list idx) i of None \<Rightarrow> (- 1, None) | Some v \<Rightarrow> (0, v))"
proof -
  have "volume_index_find_from es i = (case map_of es i of None \<Rightarrow> (- 1, None) | Some v \<Rightarrow> (0, v))" for es :: "(u32 \<times> 'a option) list"
    by (induction es i rule: volume_index_find_from.induct) auto
  then show ?thesis
    by (simp add: volume_index_find_def volume_list_def)
qed

lemma volume_index_add_list:
  assumes "volume_index_ok idx" and "vi_size idx < VOLUME_INDEX_MAX_ENTRIES"
    and "volume_index_add idx i v = (r, idx')"
  shows "r = 0" and "volume_index_ok idx'" and "volume_list idx' = volume_list idx @ [(i, v)]"
    and "vi_size idx' = vi_size idx + 1"
  using assms
  by (auto simp: volume_index_add_def volume_index_ok_def volume_list_def take_Suc_conv_app_nth)


section \<open>Properties\<close>

text \<open>Adding volumes one after the other.\<close>

definition volume_index_add_all :: "(u32 \<times> 'v option) list \<Rightarrow> 'v volume_index \<Rightarrow> 'v volume_index" where
  "volume_index_add_all vs idx = fold (\<lambda>(i, v) idx. snd (volume_index_add idx i v)) vs idx"

lemma volume_index_add_all_list:
  assumes "volume_index_ok idx" and "vi_size idx + length vs \<le> VOLUME_INDEX_MAX_ENTRIES"
  shows "volume_index_ok (volume_index_add_all vs idx)
    \<and> volume_list (volume_index_add_all vs idx) = volume_list idx @ vs
    \<and> vi_size (volume_index_add_all vs idx) = vi_size idx + length vs"
  using assms
proof (induction vs arbitrary: idx)
  case Nil
  then show ?case by (simp add: volume_index_add_all_def)
next
  case (Cons x vs)
  obtain i v where x: "x = (i, v)"
    by (rule prod.exhaust)
  obtain r idx1 where a: "volume_index_add idx i v = (r, idx1)"
    by (rule prod.exhaust)
  have lt: "vi_size idx < VOLUME_INDEX_MAX_ENTRIES"
    using Cons.prems(2) by simp
  note s = volume_index_add_list [OF Cons.prems(1) lt a]
  have "vi_size idx1 + length vs \<le> VOLUME_INDEX_MAX_ENTRIES"
    using Cons.prems(2) s(4) by simp
  with Cons.IH [OF s(2)] s a x show ?case
    by (simp add: volume_index_add_all_def)
qed

text \<open>
  A volume is found under its identifier once it has been added, as long as at most
  eight have been: the index finds the first volume added under an identifier (a later one is
  shadowed), returns the volumes by number in the order they were added, and refuses a ninth.
\<close>

theorem volume_index_lookup:
  assumes "length vs \<le> VOLUME_INDEX_MAX_ENTRIES"
  shows "let idx = volume_index_add_all vs volume_index_init
    in volume_index_find idx i = (case map_of vs i of None \<Rightarrow> (- 1, None) | Some v \<Rightarrow> (0, v))
      \<and> (unat k < length vs \<longrightarrow> volume_index_get idx k = snd (vs ! unat k))
      \<and> (length vs = VOLUME_INDEX_MAX_ENTRIES \<longrightarrow> volume_index_add idx j v = (- 1, idx))"
proof -
  let ?idx = "volume_index_add_all vs volume_index_init"
  have "volume_index_ok (volume_index_init :: 'a volume_index)" "volume_list (volume_index_init :: 'a volume_index) = []"
      "vi_size (volume_index_init :: 'a volume_index) = 0"
    by (simp_all add: volume_index_init_def volume_index_clear_def volume_index_ok_def volume_list_def)
  then have l: "volume_list ?idx = vs" "vi_size ?idx = length vs"
    using volume_index_add_all_list [of volume_index_init vs] assms by simp_all
  have g: "volume_index_get ?idx k = snd (vs ! unat k)" if "unat k < length vs"
  proof -
    have "volume_list ?idx ! unat k = vi_entries ?idx ! unat k"
      using that l(2) by (simp add: volume_list_def)
    then show ?thesis
      using that l by (simp add: volume_index_get_def)
  qed
  then show ?thesis
    using l by (simp add: volume_index_find_map_of volume_index_add_def Let_def)
qed

theorem volume_index_lookup_witness:
  "volume_index_find (volume_index_add_all [(3, Some True), (4, Some False), (3, None)] volume_index_init) 3 = (0, Some True)"
  using volume_index_lookup [of "[(3, Some True), (4, Some False), (3, None)]" 3 0 0 None]
  by (simp add: Let_def)

end
