(* ===== verification/Tlv.thy ===== *)
theory Tlv
  imports Prelude
begin

text \<open>
  TLV records (\<open>tlv.c\<close>): tag and length, 16 bits each in big-endian order, followed by the
  value. Encoding appends records of ascending tags to a buffer; decoding walks a buffer that may
  hold anything. An iterator's pointers are offsets in the buffer, a record's value pointer too.
\<close>

section \<open>Operations\<close>

abbreviation TLV_HDR_LEN :: size_t where
  "TLV_HDR_LEN \<equiv> 4"

record tlv_record =
  tlv_tag :: u16
  tlv_length :: u16
  tlv_value :: nat

record tlv_iterator =
  ti_pos :: nat
  ti_limit :: nat
  ti_prev_tag :: u16

record tlv_const_iterator =
  tci_pos :: nat
  tci_limit :: nat

definition tlv_required_space :: "size_t \<Rightarrow> size_t" where
  "tlv_required_space n = add64 TLV_HDR_LEN n"

definition tlv_iterator_begin :: "size_t \<Rightarrow> tlv_iterator" where
  "tlv_iterator_begin bufsize = \<lparr>ti_pos = 0, ti_limit = bufsize, ti_prev_tag = 0\<rparr>"

definition tlv_const_iterator_begin :: "size_t \<Rightarrow> tlv_const_iterator" where
  "tlv_const_iterator_begin bufsize = \<lparr>tci_pos = 0, tci_limit = bufsize\<rparr>"

text \<open>A 16-bit field, most significant byte first.\<close>

definition be16_bytes :: "u16 \<Rightarrow> bytes" where
  "be16_bytes x = [ucast (drop_bit 8 x), ucast x]"

definition be16_val :: "byte \<Rightarrow> byte \<Rightarrow> u16" where
  "be16_val hi lo = or (push_bit 8 (ucast hi)) (ucast lo)"

text \<open>\<open>value\<close> is the memory behind the input record's value pointer.\<close>

definition tlv_encode ::
  "bytes \<Rightarrow> tlv_iterator \<Rightarrow> u16 \<Rightarrow> u16 \<Rightarrow> bytes \<Rightarrow> (bool \<times> bytes \<times> tlv_iterator) option" where
  "tlv_encode buf iter tag n val =
     (let required_space = tlv_required_space (unat n);
          available_space = ti_limit iter - ti_pos iter
      in if required_space \<le> available_space \<and> ti_prev_tag iter \<le> tag
         then do {
           b1 \<leftarrow> mem_write buf (ti_pos iter) (be16_bytes tag);
           b2 \<leftarrow> mem_write b1 (ti_pos iter + 2) (be16_bytes n);
           v \<leftarrow> mem_read val 0 (unat n);
           b3 \<leftarrow> mem_write b2 (ti_pos iter + TLV_HDR_LEN) v;
           Some (True, b3, iter\<lparr>ti_pos := ti_pos iter + required_space, ti_prev_tag := tag\<rparr>)
         }
         else Some (False, buf, iter))"

text \<open>The output record is written as soon as there is a header, also when the value does not
  fit.\<close>

definition tlv_decode ::
  "bytes \<Rightarrow> tlv_const_iterator \<Rightarrow> tlv_record \<Rightarrow> (bool \<times> tlv_record \<times> tlv_const_iterator) option" where
  "tlv_decode buf iter output =
     (let max_space = tci_limit iter - tci_pos iter
      in if TLV_HDR_LEN \<le> max_space
         then do {
           hdr \<leftarrow> mem_read buf (tci_pos iter) TLV_HDR_LEN;
           let out = \<lparr>tlv_tag = be16_val (hdr ! 0) (hdr ! 1), tlv_length = be16_val (hdr ! 2) (hdr ! 3),
                      tlv_value = tci_pos iter + TLV_HDR_LEN\<rparr>;
           let record_len = unat (tlv_length out) + TLV_HDR_LEN;
           if record_len \<le> max_space
           then Some (True, out, iter\<lparr>tci_pos := tci_pos iter + record_len\<rparr>)
           else Some (False, out, iter)
         }
         else Some (False, output, iter))"

text \<open>The loop of \<open>tlv_find_decode\<close> with its temporary iterator.\<close>

function tlv_find_loop ::
  "bytes \<Rightarrow> tlv_const_iterator \<Rightarrow> tlv_const_iterator \<Rightarrow> u16 \<Rightarrow> tlv_record \<Rightarrow>
    (bool \<times> tlv_record \<times> tlv_const_iterator) option" where
  "tlv_find_loop buf iter tmp tag output =
     (case tlv_decode buf tmp output of
        None \<Rightarrow> None
      | Some (success, out, tmp1) \<Rightarrow>
          if \<not> success then Some (False, out, iter)
          else if tlv_tag out = tag then Some (True, out, tmp1)
          else if tag < tlv_tag out then Some (False, out, iter)
          else tlv_find_loop buf iter tmp1 tag out)"
  by pat_completeness auto

termination
  by (relation "measure (\<lambda>(_, _, tmp, _, _). tci_limit tmp - tci_pos tmp)")
    (auto simp: tlv_decode_def Let_def split: if_splits bind_splits)

definition tlv_find_decode ::
  "bytes \<Rightarrow> tlv_const_iterator \<Rightarrow> u16 \<Rightarrow> tlv_record \<Rightarrow> (bool \<times> tlv_record \<times> tlv_const_iterator) option" where
  "tlv_find_decode buf iter tag output = tlv_find_loop buf iter iter tag output"

declare tlv_find_loop.simps [simp del]


section \<open>The format\<close>

lemma length_be16_bytes [simp]: "length (be16_bytes x) = 2"
  by (simp add: be16_bytes_def)

lemma be16_round_trip [wire_simps]: "be16_val (ucast (drop_bit 8 x)) (ucast x) = x"
  unfolding be16_val_def
  by (rule bit_word_eqI) (auto simp: bit_simps)

text \<open>A record and its image.\<close>

type_synonym tlv = "u16 \<times> bytes"

definition tlv_image :: "tlv \<Rightarrow> bytes" where
  "tlv_image r = (case r of (tag, v) \<Rightarrow> be16_bytes tag @ be16_bytes (word_of_nat (length v)) @ v)"

definition tlv_images :: "tlv list \<Rightarrow> bytes" where
  "tlv_images rs = concat (map tlv_image rs)"

definition tlv_ok :: "tlv \<Rightarrow> bool" where
  "tlv_ok r \<longleftrightarrow> length (snd r) < 2 ^ 16"

lemma length_tlv_image [simp]: "length (tlv_image (tag, v)) = TLV_HDR_LEN + length v"
  by (simp add: tlv_image_def)

lemma unat_length_field: "n < 2 ^ 16 \<Longrightarrow> unat (word_of_nat n :: u16) = n"
  by (simp add: unat_of_nat)

text \<open>Encoding writes the image at the position.\<close>

lemma tlv_encode_writes:
  assumes ok: "length v < 2 ^ 16" and lim: "ti_limit it \<le> length buf"
    and room: "ti_pos it + TLV_HDR_LEN + length v \<le> ti_limit it" and tag: "ti_prev_tag it \<le> tag"
  shows "tlv_encode buf it tag (word_of_nat (length v)) v
    = Some (True, splice buf (ti_pos it) (tlv_image (tag, v)),
            it\<lparr>ti_pos := ti_pos it + TLV_HDR_LEN + length v, ti_prev_tag := tag\<rparr>)"
proof -
  let ?n = "word_of_nat (length v) :: u16" and ?p = "ti_pos it"
  have n: "unat ?n = length v"
    by (rule unat_length_field [OF ok])
  have req: "tlv_required_space (unat ?n) = TLV_HDR_LEN + length v"
    using ok by (simp add: tlv_required_space_def n arith64)
  have w1: "mem_write buf ?p (be16_bytes tag) = Some (splice buf ?p (be16_bytes tag))"
    using room lim by (intro mem_write_in) simp
  have w2: "mem_write (splice buf ?p (be16_bytes tag)) (?p + 2) (be16_bytes ?n)
      = Some (splice buf ?p (be16_bytes tag @ be16_bytes ?n))"
    using room lim splice_splice_adjacent [of ?p "be16_bytes tag" "be16_bytes ?n" buf]
    by (subst mem_write_in) simp_all
  have w3: "mem_write (splice buf ?p (be16_bytes tag @ be16_bytes ?n)) (?p + TLV_HDR_LEN) v
      = Some (splice buf ?p (tlv_image (tag, v)))"
    using room lim splice_splice_adjacent [of ?p "be16_bytes tag @ be16_bytes ?n" v buf]
    by (subst mem_write_in) (simp_all add: tlv_image_def)
  have r: "mem_read v 0 (unat ?n) = Some v"
    by (simp add: n mem_simps)
  have avail: "TLV_HDR_LEN + length v \<le> ti_limit it - ?p"
    using room by linarith
  show ?thesis
    using tag
    by (simp add: tlv_encode_def Let_def req w1 w2 w3 r avail add.assoc
        del: add_2_eq_Suc add_2_eq_Suc')
qed

text \<open>Decoding an image gives the record back.\<close>

lemma tlv_decode_image:
  assumes at: "slice buf (tci_pos it) (TLV_HDR_LEN + length v) = tlv_image (tag, v)"
    and ok: "length v < 2 ^ 16" and room: "tci_pos it + TLV_HDR_LEN + length v \<le> tci_limit it"
    and lim: "tci_limit it \<le> length buf"
  shows "tlv_decode buf it out
    = Some (True, \<lparr>tlv_tag = tag, tlv_length = word_of_nat (length v), tlv_value = tci_pos it + TLV_HDR_LEN\<rparr>,
            it\<lparr>tci_pos := tci_pos it + TLV_HDR_LEN + length v\<rparr>)"
    and "slice buf (tci_pos it + TLV_HDR_LEN) (length v) = v"
proof -
  have whole: "slice buf (tci_pos it) TLV_HDR_LEN @ slice buf (tci_pos it + TLV_HDR_LEN) (length v)
      = tlv_image (tag, v)"
    using room lim by (subst slice_append) (simp_all add: at)
  have "length (slice buf (tci_pos it) TLV_HDR_LEN) = TLV_HDR_LEN"
    using room lim by simp
  with whole have hdr: "slice buf (tci_pos it) TLV_HDR_LEN = be16_bytes tag @ be16_bytes (word_of_nat (length v))"
    and "slice buf (tci_pos it + TLV_HDR_LEN) (length v) = v"
    using append_eq_append_conv [of "slice buf (tci_pos it) TLV_HDR_LEN" "be16_bytes tag @ be16_bytes (word_of_nat (length v))"
        "slice buf (tci_pos it + TLV_HDR_LEN) (length v)" v]
    by (simp_all add: tlv_image_def)
  then show "slice buf (tci_pos it + TLV_HDR_LEN) (length v) = v"
    by simp
  have rd: "mem_read buf (tci_pos it) TLV_HDR_LEN = Some (be16_bytes tag @ be16_bytes (word_of_nat (length v)))"
    using room lim hdr by (subst mem_read_in) simp_all
  show "tlv_decode buf it out
    = Some (True, \<lparr>tlv_tag = tag, tlv_length = word_of_nat (length v), tlv_value = tci_pos it + TLV_HDR_LEN\<rparr>,
            it\<lparr>tci_pos := tci_pos it + TLV_HDR_LEN + length v\<rparr>)"
    using room ok
    by (simp add: tlv_decode_def rd Let_def be16_bytes_def wire_simps unat_length_field)
qed


section \<open>Sequences of records\<close>

text \<open>Encoding records one after the other, as the services do; \<open>None\<close> when one is refused.\<close>

fun tlv_encode_all :: "bytes \<Rightarrow> tlv_iterator \<Rightarrow> tlv list \<Rightarrow> (bytes \<times> tlv_iterator) option" where
  "tlv_encode_all buf it [] = Some (buf, it)"
| "tlv_encode_all buf it ((tag, v) # rs) =
     do {
       (ok, buf1, it1) \<leftarrow> tlv_encode buf it tag (word_of_nat (length v)) v;
       if ok then tlv_encode_all buf1 it1 rs else None
     }"

lemma tlv_images_simps [simp]:
  "tlv_images [] = []"
  "tlv_images (r # rs) = tlv_image r @ tlv_images rs"
  by (simp_all add: tlv_images_def)

lemma tlv_encode_all_writes:
  assumes "sorted (map fst rs)" and "\<forall>r \<in> set rs. tlv_ok r \<and> ti_prev_tag it \<le> fst r"
    and "ti_limit it \<le> length buf" and "ti_pos it + length (tlv_images rs) \<le> ti_limit it"
  shows "\<exists>it'. tlv_encode_all buf it rs = Some (splice buf (ti_pos it) (tlv_images rs), it')
    \<and> ti_pos it' = ti_pos it + length (tlv_images rs)"
  using assms
proof (induction rs arbitrary: buf it)
  case Nil
  then show ?case by simp
next
  case (Cons r rs)
  obtain tag v where r: "r = (tag, v)"
    by (rule prod.exhaust)
  let ?it = "it\<lparr>ti_pos := ti_pos it + TLV_HDR_LEN + length v, ti_prev_tag := tag\<rparr>"
  let ?buf = "splice buf (ti_pos it) (tlv_image (tag, v))"
  have len: "ti_pos it + length (tlv_image (tag, v)) + length (tlv_images rs) \<le> length buf"
    using Cons.prems(3,4) r by simp
  have e: "tlv_encode buf it tag (word_of_nat (length v)) v = Some (True, ?buf, ?it)"
    using Cons.prems r by (intro tlv_encode_writes) (auto simp: tlv_ok_def)
  have "\<exists>it'. tlv_encode_all ?buf ?it rs = Some (splice ?buf (ti_pos ?it) (tlv_images rs), it')
    \<and> ti_pos it' = ti_pos ?it + length (tlv_images rs)"
    using Cons.prems r len by (intro Cons.IH) auto
  moreover have "splice ?buf (ti_pos ?it) (tlv_images rs) = splice buf (ti_pos it) (tlv_images (r # rs))"
    using splice_splice_adjacent [OF len] r by (simp add: add.assoc)
  ultimately show ?case
    using e r by (simp add: add.assoc)
qed

text \<open>The search over the images of ascending records finds the first with the tag.\<close>

lemma tlv_find_loop_images:
  assumes "sorted (map fst rs)" and "\<forall>r \<in> set rs. tlv_ok r"
    and "tci_limit tmp \<le> length buf" and "tci_limit tmp = tci_pos tmp + length (tlv_images rs)"
    and "slice buf (tci_pos tmp) (length (tlv_images rs)) = tlv_images rs"
  shows "\<exists>ok out' it'. tlv_find_loop buf iter tmp tag out = Some (ok, out', it')
    \<and> (case find (\<lambda>r. fst r = tag) rs of
         Some r \<Rightarrow> ok \<and> tlv_tag out' = tag \<and> mem_read buf (tlv_value out') (unat (tlv_length out')) = Some (snd r)
       | None \<Rightarrow> \<not> ok \<and> it' = iter)"
  using assms
proof (induction rs arbitrary: tmp out)
  case Nil
  then show ?case
    by (subst tlv_find_loop.simps) (simp add: tlv_decode_def, blast)
next
  case (Cons r rs)
  obtain t v where r: "r = (t, v)"
    by (rule prod.exhaust)
  let ?k = "TLV_HDR_LEN + length v" and ?p = "tci_pos tmp" and ?m = "length (tlv_images rs)"
  have okv: "length v < 2 ^ 16"
    using Cons.prems(2) r by (simp add: tlv_ok_def)
  have fit: "?p + ?k + ?m \<le> length buf"
    using Cons.prems(3,4) r by simp
  have "slice buf ?p ?k @ slice buf (?p + ?k) ?m = tlv_image (t, v) @ tlv_images rs"
    using slice_append [OF fit] Cons.prems(5) r by simp
  moreover have "length (slice buf ?p ?k) = length (tlv_image (t, v))"
    using fit by simp
  ultimately have im: "slice buf ?p ?k = tlv_image (t, v)" and rest: "slice buf (?p + ?k) ?m = tlv_images rs"
    using append_eq_append_conv by blast+
  let ?rec = "\<lparr>tlv_tag = t, tlv_length = word_of_nat (length v), tlv_value = ?p + TLV_HDR_LEN\<rparr>"
  let ?tmp = "tmp\<lparr>tci_pos := ?p + TLV_HDR_LEN + length v\<rparr>"
  have room: "?p + TLV_HDR_LEN + length v \<le> tci_limit tmp"
    using Cons.prems(4) r by simp
  note d = tlv_decode_image [OF im okv room Cons.prems(3)]
  have val: "mem_read buf (?p + TLV_HDR_LEN) (length v) = Some v"
    using d(2) fit by (subst mem_read_in) simp_all
  show ?case
  proof (cases "t < tag")
    case True
    have "\<exists>ok out' it'. tlv_find_loop buf iter ?tmp tag ?rec = Some (ok, out', it')
      \<and> (case find (\<lambda>r. fst r = tag) rs of
         Some r \<Rightarrow> ok \<and> tlv_tag out' = tag \<and> mem_read buf (tlv_value out') (unat (tlv_length out')) = Some (snd r)
       | None \<Rightarrow> \<not> ok \<and> it' = iter)"
      using Cons.prems r rest by (intro Cons.IH) (auto simp: add.assoc)
    with True r show ?thesis
      by (subst tlv_find_loop.simps) (auto simp: d(1))
  next
    case False
    then have "find (\<lambda>r. fst r = tag) rs = None" if "t \<noteq> tag"
      using that Cons.prems(1) r by (auto simp: find_None_iff)
    then show ?thesis
      using False r val
      by (subst tlv_find_loop.simps) (auto simp: d(1) unat_length_field [OF okv])
  qed
qed

text \<open>On arbitrary bytes the search stays within the limit.\<close>

lemma tlv_decode_safe:
  assumes "tci_limit it \<le> length buf" and "tci_pos it \<le> tci_limit it"
  shows "\<exists>ok out' it'. tlv_decode buf it out = Some (ok, out', it') \<and> tci_limit it' = tci_limit it
    \<and> tci_pos it' \<le> tci_limit it
    \<and> (ok \<longrightarrow> tlv_value out' + unat (tlv_length out') = tci_pos it' \<and> tci_pos it < tci_pos it')"
proof (cases "TLV_HDR_LEN \<le> tci_limit it - tci_pos it")
  case True
  then have "mem_read buf (tci_pos it) TLV_HDR_LEN = Some (slice buf (tci_pos it) TLV_HDR_LEN)"
    using assms by (intro mem_read_in) linarith
  with True assms show ?thesis
    by (auto simp: tlv_decode_def Let_def)
next
  case False
  with assms show ?thesis
    by (auto simp: tlv_decode_def)
qed

lemma tlv_find_loop_safe:
  assumes "tci_limit tmp \<le> length buf" and "tci_pos tmp \<le> tci_limit tmp"
  shows "\<exists>ok out' it'. tlv_find_loop buf iter tmp tag out = Some (ok, out', it')
    \<and> (if ok then tlv_tag out' = tag \<and> tlv_value out' + unat (tlv_length out') = tci_pos it' \<and> tci_pos it' \<le> tci_limit tmp
       else it' = iter)"
  using assms
proof (induction "tci_limit tmp - tci_pos tmp" arbitrary: tmp out rule: less_induct)
  case less
  obtain ok out' it' where d: "tlv_decode buf tmp out = Some (ok, out', it')" "tci_limit it' = tci_limit tmp"
      "tci_pos it' \<le> tci_limit tmp" "ok \<Longrightarrow> tlv_value out' + unat (tlv_length out') = tci_pos it'"
      "ok \<Longrightarrow> tci_pos tmp < tci_pos it'"
    using tlv_decode_safe [OF less.prems, of out] by blast
  show ?case
  proof (cases "ok \<and> tlv_tag out' \<noteq> tag \<and> \<not> tag < tlv_tag out'")
    case True
    have "tci_limit it' - tci_pos it' < tci_limit tmp - tci_pos tmp"
      using True d less.prems by simp
    moreover have "tci_limit it' \<le> length buf" "tci_pos it' \<le> tci_limit it'"
      using d less.prems by simp_all
    ultimately have "\<exists>ok out2 it2. tlv_find_loop buf iter it' tag out' = Some (ok, out2, it2)
      \<and> (if ok then tlv_tag out2 = tag \<and> tlv_value out2 + unat (tlv_length out2) = tci_pos it2 \<and> tci_pos it2 \<le> tci_limit tmp
         else it2 = iter)"
      using less.hyps [of it' out'] unfolding d(2) by blast
    moreover have "tlv_find_loop buf iter tmp tag out = tlv_find_loop buf iter it' tag out'"
      using True d(1) by (subst tlv_find_loop.simps) simp
    ultimately show ?thesis
      by simp
  next
    case False
    with d show ?thesis
      by (subst tlv_find_loop.simps) auto
  qed
qed


section \<open>Properties\<close>

text \<open>
  Property C21. What was encoded is found again: after encoding records of ascending tags, looking
  for a tag in the encoded bytes yields the first record with that tag and its value, and fails,
  leaving the iterator alone, when there is none.
\<close>

theorem tlv_find_decode_round_trip:
  assumes "sorted (map fst rs)" and "\<forall>r \<in> set rs. tlv_ok r"
    and "length (tlv_images rs) \<le> n" and "n \<le> length buf"
  shows "\<exists>buf' it' ok out' it2. tlv_encode_all buf (tlv_iterator_begin n) rs = Some (buf', it')
    \<and> tlv_find_decode buf' (tlv_const_iterator_begin (ti_pos it')) tag out = Some (ok, out', it2)
    \<and> (case find (\<lambda>r. fst r = tag) rs of
         Some r \<Rightarrow> ok \<and> tlv_tag out' = tag \<and> mem_read buf' (tlv_value out') (unat (tlv_length out')) = Some (snd r)
       | None \<Rightarrow> \<not> ok \<and> it2 = tlv_const_iterator_begin (ti_pos it'))"
proof -
  let ?buf = "splice buf 0 (tlv_images rs)" and ?m = "length (tlv_images rs)"
  have "\<exists>it'. tlv_encode_all buf (tlv_iterator_begin n) rs
        = Some (splice buf (ti_pos (tlv_iterator_begin n)) (tlv_images rs), it')
      \<and> ti_pos it' = ti_pos (tlv_iterator_begin n) + ?m"
    using assms by (intro tlv_encode_all_writes) (simp_all add: tlv_iterator_begin_def)
  then obtain it' where e: "tlv_encode_all buf (tlv_iterator_begin n) rs = Some (?buf, it')" "ti_pos it' = ?m"
    by (auto simp: tlv_iterator_begin_def)
  have "slice ?buf 0 ?m = tlv_images rs"
    using assms(3,4) by (intro slice_splice_same) simp
  then have "\<exists>ok out' it2. tlv_find_loop ?buf (tlv_const_iterator_begin ?m) (tlv_const_iterator_begin ?m) tag out
      = Some (ok, out', it2)
    \<and> (case find (\<lambda>r. fst r = tag) rs of
         Some r \<Rightarrow> ok \<and> tlv_tag out' = tag \<and> mem_read ?buf (tlv_value out') (unat (tlv_length out')) = Some (snd r)
       | None \<Rightarrow> \<not> ok \<and> it2 = tlv_const_iterator_begin ?m)"
    using assms by (intro tlv_find_loop_images) (simp_all add: tlv_const_iterator_begin_def)
  with e(1) show ?thesis
    unfolding tlv_find_decode_def e(2) [symmetric] by blast
qed

theorem tlv_find_decode_round_trip_witness:
  "\<exists>buf' it' ok out' it2. tlv_encode_all (replicate 20 0) (tlv_iterator_begin 20) [(3, [7]), (5, [8, 9])] = Some (buf', it')
    \<and> tlv_find_decode buf' (tlv_const_iterator_begin (ti_pos it')) 5 \<lparr>tlv_tag = 0, tlv_length = 0, tlv_value = 0\<rparr>
        = Some (ok, out', it2)
    \<and> mem_read buf' (tlv_value out') (unat (tlv_length out')) = Some [8, 9]"
  using tlv_find_decode_round_trip [of "[(3, [7]), (5, [8, 9])]" 20 "replicate 20 0" 5
      "\<lparr>tlv_tag = 0, tlv_length = 0, tlv_value = 0\<rparr>"]
  by (fastforce simp: tlv_ok_def)

text \<open>
  Property C20. Decoding is safe on untrusted input: searching for a tag in any bytes ends, reads
  only inside the buffer, and a record it yields lies inside the buffer.
\<close>

theorem tlv_find_decode_safe:
  assumes "n \<le> length buf"
  shows "\<exists>ok out' it'. tlv_find_decode buf (tlv_const_iterator_begin n) tag out = Some (ok, out', it')
    \<and> (if ok then tlv_tag out' = tag \<and> tlv_value out' + unat (tlv_length out') = tci_pos it' \<and> tci_pos it' \<le> n
       else it' = tlv_const_iterator_begin n)"
proof -
  have "tci_limit (tlv_const_iterator_begin n) = n" "tci_pos (tlv_const_iterator_begin n) \<le> n"
    by (simp_all add: tlv_const_iterator_begin_def)
  with tlv_find_loop_safe [of "tlv_const_iterator_begin n" buf "tlv_const_iterator_begin n" tag out] assms
  show ?thesis
    unfolding tlv_find_decode_def by metis
qed

theorem tlv_find_decode_safe_witness:
  "\<exists>ok out' it'. tlv_find_decode [0, 1, 0, 9, 7] (tlv_const_iterator_begin 5) 1
    \<lparr>tlv_tag = 0, tlv_length = 0, tlv_value = 0\<rparr> = Some (ok, out', it')"
  using tlv_find_decode_safe [of 5 "[0, 1, 0, 9, 7]" 1 "\<lparr>tlv_tag = 0, tlv_length = 0, tlv_value = 0\<rparr>"]
  by auto

end
