(* ===== verification/TsRpcAbi.thy ===== *)
theory TsRpcAbi
  imports Prelude
begin

text \<open>
  The register layout of the TS RPC protocol (\<open>ts_rpc_abi.c\<close>): getters and setters of the
  fields carried in the five argument registers of an FF-A direct message. Registers are 32-bit
  words; the array is the list of the five.
\<close>

section \<open>Fields\<close>

type_synonym abi_regs = "u32 list"

definition get_field :: "abi_regs \<Rightarrow> nat \<Rightarrow> nat \<Rightarrow> u32 \<Rightarrow> u32" where
  "get_field regs reg shift msk = and (drop_bit shift (regs ! reg)) msk"

definition set_field :: "abi_regs \<Rightarrow> nat \<Rightarrow> nat \<Rightarrow> u32 \<Rightarrow> u32 \<Rightarrow> abi_regs" where
  "set_field regs reg shift msk val =
     regs[reg := or (and (regs ! reg) (not (push_bit shift msk))) (push_bit shift (and val msk))]"

definition ts_rpc_abi_get_flags :: "abi_regs \<Rightarrow> byte" where
  "ts_rpc_abi_get_flags regs = ucast (get_field regs 0 24 0x3f)"

definition ts_rpc_abi_set_flags :: "abi_regs \<Rightarrow> byte \<Rightarrow> abi_regs" where
  "ts_rpc_abi_set_flags regs flags = set_field regs 0 24 0x3f (ucast flags)"

definition ts_rpc_abi_get_interface_id :: "abi_regs \<Rightarrow> byte" where
  "ts_rpc_abi_get_interface_id regs = ucast (get_field regs 0 16 0xff)"

definition ts_rpc_abi_set_interface_id :: "abi_regs \<Rightarrow> byte \<Rightarrow> abi_regs" where
  "ts_rpc_abi_set_interface_id regs interface_id = set_field regs 0 16 0xff (ucast interface_id)"

abbreviation TS_RPC_MANAGEMENT_INTERFACE_ID :: byte where
  "TS_RPC_MANAGEMENT_INTERFACE_ID \<equiv> 0xff"

definition ts_rpc_abi_is_management_interface_id :: "abi_regs \<Rightarrow> bool" where
  "ts_rpc_abi_is_management_interface_id regs \<longleftrightarrow>
     ts_rpc_abi_get_interface_id regs = TS_RPC_MANAGEMENT_INTERFACE_ID"

definition ts_rpc_abi_set_management_interface_id :: "abi_regs \<Rightarrow> abi_regs" where
  "ts_rpc_abi_set_management_interface_id regs =
     ts_rpc_abi_set_interface_id regs TS_RPC_MANAGEMENT_INTERFACE_ID"

definition ts_rpc_abi_get_opcode :: "abi_regs \<Rightarrow> u16" where
  "ts_rpc_abi_get_opcode regs = ucast (get_field regs 0 0 0xffff)"

definition ts_rpc_abi_set_opcode :: "abi_regs \<Rightarrow> u16 \<Rightarrow> abi_regs" where
  "ts_rpc_abi_set_opcode regs opc = set_field regs 0 0 0xffff (ucast opc)"

definition ts_rpc_abi_copy_control_reg :: "abi_regs \<Rightarrow> abi_regs \<Rightarrow> abi_regs" where
  "ts_rpc_abi_copy_control_reg response_regs request_regs = response_regs[0 := request_regs ! 0]"

definition ts_rpc_abi_get_version :: "abi_regs \<Rightarrow> u32" where
  "ts_rpc_abi_get_version regs = regs ! 1"

definition ts_rpc_abi_set_version :: "abi_regs \<Rightarrow> u32 \<Rightarrow> abi_regs" where
  "ts_rpc_abi_set_version regs version = regs[1 := version]"

text \<open>A 64-bit value in two registers.\<close>

definition ts_rpc_abi_get_memory_handle :: "abi_regs \<Rightarrow> 64 word" where
  "ts_rpc_abi_get_memory_handle regs = or (push_bit 32 (ucast (regs ! 2))) (ucast (regs ! 1))"

definition ts_rpc_abi_set_memory_handle :: "abi_regs \<Rightarrow> 64 word \<Rightarrow> abi_regs" where
  "ts_rpc_abi_set_memory_handle regs handle = regs[1 := ucast handle, 2 := ucast (drop_bit 32 handle)]"

definition ts_rpc_abi_get_memory_tag :: "abi_regs \<Rightarrow> 64 word" where
  "ts_rpc_abi_get_memory_tag regs = or (push_bit 32 (ucast (regs ! 4))) (ucast (regs ! 3))"

definition ts_rpc_abi_set_memory_tag :: "abi_regs \<Rightarrow> 64 word \<Rightarrow> abi_regs" where
  "ts_rpc_abi_set_memory_tag regs tag = regs[3 := ucast tag, 4 := ucast (drop_bit 32 tag)]"

definition ts_rpc_abi_get_rpc_status :: "abi_regs \<Rightarrow> u32" where
  "ts_rpc_abi_get_rpc_status regs = regs ! 1"

definition ts_rpc_abi_set_rpc_status :: "abi_regs \<Rightarrow> u32 \<Rightarrow> abi_regs" where
  "ts_rpc_abi_set_rpc_status regs status = regs[1 := status]"

definition ts_rpc_abi_get_service_status :: "abi_regs \<Rightarrow> u32" where
  "ts_rpc_abi_get_service_status regs = regs ! 2"

definition ts_rpc_abi_set_service_status :: "abi_regs \<Rightarrow> u32 \<Rightarrow> abi_regs" where
  "ts_rpc_abi_set_service_status regs status = regs[2 := status]"

text \<open>\<open>memcpy\<close> between the four registers from number 1 on and the sixteen bytes of a UUID, on a
  little-endian machine.\<close>

definition ts_rpc_abi_get_uuid :: "abi_regs \<Rightarrow> bytes" where
  "ts_rpc_abi_get_uuid regs = concat (map (\<lambda>i. le_bytes 4 (unat (regs ! i))) [1, 2, 3, 4])"

definition ts_rpc_abi_set_uuid :: "abi_regs \<Rightarrow> bytes \<Rightarrow> abi_regs" where
  "ts_rpc_abi_set_uuid regs uuid =
     regs[1 := word_of_nat (le_val (slice uuid 0 4)), 2 := word_of_nat (le_val (slice uuid 4 4)),
          3 := word_of_nat (le_val (slice uuid 8 4)), 4 := word_of_nat (le_val (slice uuid 12 4))]"

definition ts_rpc_abi_get_queried_interface_id :: "abi_regs \<Rightarrow> byte" where
  "ts_rpc_abi_get_queried_interface_id regs = ucast (get_field regs 2 0 0xff)"

definition ts_rpc_abi_set_queried_interface_id :: "abi_regs \<Rightarrow> byte \<Rightarrow> abi_regs" where
  "ts_rpc_abi_set_queried_interface_id regs interface_id = set_field regs 2 0 0xff (ucast interface_id)"

definition ts_rpc_abi_get_request_length :: "abi_regs \<Rightarrow> u32" where
  "ts_rpc_abi_get_request_length regs = regs ! 3"

definition ts_rpc_abi_set_request_length :: "abi_regs \<Rightarrow> u32 \<Rightarrow> abi_regs" where
  "ts_rpc_abi_set_request_length regs n = regs[3 := n]"

definition ts_rpc_abi_get_client_id :: "abi_regs \<Rightarrow> u32" where
  "ts_rpc_abi_get_client_id regs = regs ! 4"

definition ts_rpc_abi_set_client_id :: "abi_regs \<Rightarrow> u32 \<Rightarrow> abi_regs" where
  "ts_rpc_abi_set_client_id regs client_id = regs[4 := client_id]"

definition ts_rpc_abi_get_response_length :: "abi_regs \<Rightarrow> u32" where
  "ts_rpc_abi_get_response_length regs = regs ! 3"

definition ts_rpc_abi_set_response_length :: "abi_regs \<Rightarrow> u32 \<Rightarrow> abi_regs" where
  "ts_rpc_abi_set_response_length regs n = regs[3 := n]"


section \<open>Bit fields\<close>

text \<open>A field whose mask keeps its bits when shifted in place reads back what was stored in it,
  and fields that do not overlap leave each other alone.\<close>

lemma length_set_field [simp]: "length (set_field regs reg shift msk val) = length regs"
  by (simp add: set_field_def)

lemma nth_set_field_other [simp]: "r \<noteq> reg \<Longrightarrow> set_field regs reg shift msk val ! r = regs ! r"
  by (simp add: set_field_def)

lemma get_set_field:
  assumes "reg < length regs" and "w + shift \<le> 32"
  shows "get_field (set_field regs reg shift (mask w) val) reg shift (mask w) = and val (mask w)"
  using assms unfolding get_field_def set_field_def
  by (intro bit_word_eqI) (auto simp: bit_simps)

lemma get_set_field_disjoint:
  assumes "reg < length regs" and "w + shift \<le> 32" and "w + shift \<le> shift' \<or> w' + shift' \<le> shift"
  shows "get_field (set_field regs reg shift' (mask w') val) reg shift (mask w) = get_field regs reg shift (mask w)"
  using assms unfolding get_field_def set_field_def
  by (intro bit_word_eqI) (auto simp: bit_simps)

lemma abi_masks: "(0x3f :: u32) = mask 6" "(0xff :: u32) = mask 8" "(0xffff :: u32) = mask 16"
  by (simp_all add: mask_eq_exp_minus_1)

lemma ucast_and_mask [simp]:
  "ucast (and (ucast (b :: byte)) (mask 8) :: u32) = b"
  "ucast (and (ucast (b :: byte)) (mask 6) :: u32) = and b (mask 6)"
  "ucast (and (ucast (o16 :: u16)) (mask 16) :: u32) = o16"
  by (rule bit_word_eqI; auto simp: bit_simps)+

lemmas abi_fields = ts_rpc_abi_get_flags_def ts_rpc_abi_set_flags_def ts_rpc_abi_get_interface_id_def
  ts_rpc_abi_set_interface_id_def ts_rpc_abi_get_opcode_def ts_rpc_abi_set_opcode_def
  ts_rpc_abi_get_queried_interface_id_def ts_rpc_abi_set_queried_interface_id_def

lemma split_join64: "or (push_bit 32 (ucast (ucast (drop_bit 32 x) :: u32))) (ucast (ucast x :: u32)) = (x :: 64 word)"
  by (rule bit_word_eqI) (auto simp: bit_simps)

lemma le_bytes_word: "length bs = 4 \<Longrightarrow> le_bytes 4 (unat (word_of_nat (le_val bs) :: u32)) = bs"
  using le_bytes_le_val [of bs] le_val_bound [of bs] by (simp add: unat_of_nat)

lemma slices_of_16: "length u = 16 \<Longrightarrow> slice u 0 4 @ slice u 4 4 @ slice u 8 4 @ slice u 12 4 = u"
  using slice_append [of 8 4 4 u] slice_append [of 4 4 8 u] slice_append [of 0 4 12 u] slice_all [of u]
  by simp


section \<open>Properties\<close>

text \<open>
  The control register carries flags, interface and opcode independently: after
  setting the three, each getter returns what was set (the flags cut to their six bits), in the
  presence of arbitrary other bits, and the other registers are untouched.
\<close>

theorem abi_control_fields:
  assumes "length regs = 5"
  shows "let regs' = ts_rpc_abi_set_opcode (ts_rpc_abi_set_interface_id (ts_rpc_abi_set_flags regs flags) iface) opc
    in ts_rpc_abi_get_flags regs' = and flags (mask 6) \<and> ts_rpc_abi_get_interface_id regs' = iface
      \<and> ts_rpc_abi_get_opcode regs' = opc \<and> drop 1 regs' = drop 1 regs"
proof -
  have "drop 1 (set_field r 0 s m v) = drop 1 r" for r s m v
    by (simp add: set_field_def)
  then show ?thesis
    using assms by (simp add: abi_fields abi_masks get_set_field get_set_field_disjoint Let_def)
qed

theorem abi_control_fields_witness:
  "let regs' = ts_rpc_abi_set_opcode (ts_rpc_abi_set_interface_id (ts_rpc_abi_set_flags [0xFFFFFFFF, 1, 2, 3, 4] 0x41) 7) 0x205
   in ts_rpc_abi_get_flags regs' = and 0x41 (mask 6) \<and> ts_rpc_abi_get_interface_id regs' = 7
      \<and> ts_rpc_abi_get_opcode regs' = 0x205 \<and> drop 1 regs' = drop 1 [0xFFFFFFFF, 1, 2, 3, 4]"
  by (rule abi_control_fields) simp

text \<open>
  Wide values survive the registers: a memory handle and a memory tag of 64 bits are
  carried side by side, and the sixteen bytes of a UUID come back as they were.
\<close>

theorem abi_wide_fields:
  assumes "length regs = 5" and "length uuid = 16"
  shows "ts_rpc_abi_get_memory_handle (ts_rpc_abi_set_memory_tag (ts_rpc_abi_set_memory_handle regs handle) tag) = handle
    \<and> ts_rpc_abi_get_memory_tag (ts_rpc_abi_set_memory_tag (ts_rpc_abi_set_memory_handle regs handle) tag) = tag
    \<and> ts_rpc_abi_get_uuid (ts_rpc_abi_set_uuid regs uuid) = uuid
    \<and> ts_rpc_abi_set_uuid regs uuid ! 0 = regs ! 0"
  using assms slices_of_16 [of uuid]
  by (simp add: ts_rpc_abi_get_memory_handle_def ts_rpc_abi_set_memory_handle_def ts_rpc_abi_get_memory_tag_def
      ts_rpc_abi_set_memory_tag_def ts_rpc_abi_get_uuid_def ts_rpc_abi_set_uuid_def split_join64 le_bytes_word)

theorem abi_wide_fields_witness:
  "ts_rpc_abi_get_uuid (ts_rpc_abi_set_uuid [9, 0, 0, 0, 0] (replicate 16 0xAB)) = replicate 16 0xAB"
  using abi_wide_fields [of "[9, 0, 0, 0, 0]" "replicate 16 0xAB"] by simp

text \<open>
  A response keeps the request apart: copying the control register and setting the
  two statuses and the length of a response leaves the opcode, interface and flags of the request
  readable in it, and the four fields do not disturb one another.
\<close>

theorem abi_response_fields:
  assumes "length req = 5" and "length resp = 5"
  shows "let r = ts_rpc_abi_set_response_length (ts_rpc_abi_set_service_status
          (ts_rpc_abi_set_rpc_status (ts_rpc_abi_copy_control_reg resp req) rpc_st) service_st) n
    in ts_rpc_abi_get_opcode r = ts_rpc_abi_get_opcode req \<and> ts_rpc_abi_get_interface_id r = ts_rpc_abi_get_interface_id req
      \<and> ts_rpc_abi_get_flags r = ts_rpc_abi_get_flags req \<and> ts_rpc_abi_get_rpc_status r = rpc_st
      \<and> ts_rpc_abi_get_service_status r = service_st \<and> ts_rpc_abi_get_response_length r = n"
  using assms
  by (simp add: abi_fields get_field_def ts_rpc_abi_copy_control_reg_def ts_rpc_abi_set_rpc_status_def
      ts_rpc_abi_set_service_status_def ts_rpc_abi_set_response_length_def ts_rpc_abi_get_rpc_status_def
      ts_rpc_abi_get_service_status_def ts_rpc_abi_get_response_length_def Let_def)

theorem abi_response_fields_witness:
  "ts_rpc_abi_get_service_status (ts_rpc_abi_set_response_length (ts_rpc_abi_set_service_status
     (ts_rpc_abi_set_rpc_status (ts_rpc_abi_copy_control_reg [0, 0, 0, 0, 0] [5, 1, 2, 3, 4]) 0) 77) 8) = 77"
  using abi_response_fields [of "[5, 1, 2, 3, 4]" "[0, 0, 0, 0, 0]" 0 77 8] by (simp add: Let_def)

end
