(* ===== verification/ConfigStore.thy ===== *)
theory ConfigStore
  imports Prelude
begin

text \<open>
  The configuration store in RAM (\<open>config_ramstore.c\<close>): a linked list of named objects that
  deployments fill at start-up. The singleton's list is the list of its containers, the head
  first; the allocator is a parameter, and the bytes of a name array behind the terminator are
  indeterminate.
\<close>

section \<open>Operations\<close>

datatype config_classifier =
    CONFIG_CLASSIFIER_DEVICE_REGION
  | CONFIG_CLASSIFIER_MEMORY_REGION
  | CONFIG_CLASSIFIER_HW_FEATURE
  | CONFIG_CLASSIFIER_BLOB

record config_container =
  cc_classifier :: config_classifier
  cc_name :: bytes
  cc_instance :: u32
  cc_data :: bytes

abbreviation sizeof_container_name :: size_t where
  "sizeof_container_name \<equiv> 32"

abbreviation sizeof_config_container :: size_t where
  "sizeof_config_container \<equiv> 56"

text \<open>\<open>strncmp (a, b, n) == 0\<close>; reading past either array is undefined behaviour.\<close>

fun strncmp_eq :: "bytes \<Rightarrow> bytes \<Rightarrow> nat \<Rightarrow> bool option" where
  "strncmp_eq xs ys 0 = Some True"
| "strncmp_eq (x # xs) (y # ys) (Suc n) =
     (if x \<noteq> y then Some False else if x = 0 then Some True else strncmp_eq xs ys n)"
| "strncmp_eq _ _ (Suc n) = None"

text \<open>\<open>name\<close> is the memory behind the string pointer. A container whose size wraps is too small
  for the data copied into it.\<close>

definition config_container_create ::
  "(size_t \<Rightarrow> bool) \<Rightarrow> (nat \<Rightarrow> byte) \<Rightarrow> config_classifier \<Rightarrow> bytes \<Rightarrow> u32 \<Rightarrow> bytes \<Rightarrow> size_t \<Rightarrow>
    config_container option option" where
  "config_container_create alloc_ok junk classifier name inst d sz =
     (if c_strlen name = length name then None
      else
        (let name_length = c_strlen name + 1
         in if sizeof_container_name < name_length then Some None
            else if \<not> alloc_ok (add64 sizeof_config_container sz) then Some None
            else do {
              n \<leftarrow> mem_read name 0 name_length;
              copied \<leftarrow> mem_read d 0 sz;
              if add64 sizeof_config_container sz < sizeof_config_container + sz then None
              else Some (Some
                \<lparr>cc_classifier = classifier, cc_name = n @ map junk [name_length..<sizeof_container_name],
                 cc_instance = inst, cc_data = copied\<rparr>)
            }))"

definition config_container_data :: "config_container \<Rightarrow> bytes" where
  "config_container_data c = cc_data c"

type_synonym config_ramstore = "config_container list"

fun config_ramstore_deinit :: "config_ramstore \<Rightarrow> config_ramstore" where
  "config_ramstore_deinit [] = []"
| "config_ramstore_deinit (c # cs) = config_ramstore_deinit cs"

definition config_store_add ::
  "(size_t \<Rightarrow> bool) \<Rightarrow> (nat \<Rightarrow> byte) \<Rightarrow> config_ramstore \<Rightarrow> config_classifier \<Rightarrow> bytes \<Rightarrow> u32 \<Rightarrow> bytes \<Rightarrow> size_t \<Rightarrow>
    (bool \<times> config_ramstore) option" where
  "config_store_add alloc_ok junk store classifier name inst d data_len =
     do {
       c \<leftarrow> config_container_create alloc_ok junk classifier name inst d data_len;
       case c of None \<Rightarrow> Some (False, store) | Some c \<Rightarrow> Some (True, c # store)
     }"

text \<open>The search ends at the first container with the key, whether or not its size fits. The result
  is whether it succeeded and what was copied to the caller's buffer.\<close>

fun config_store_query ::
  "config_ramstore \<Rightarrow> config_classifier \<Rightarrow> bytes \<Rightarrow> u32 \<Rightarrow> size_t \<Rightarrow> (bool \<times> bytes) option" where
  "config_store_query [] classifier name inst data_buf_size = Some (False, [])"
| "config_store_query (c # cs) classifier name inst data_buf_size =
     (if cc_classifier c \<noteq> classifier then config_store_query cs classifier name inst data_buf_size
      else do {
        same \<leftarrow> strncmp_eq (cc_name c) name sizeof_container_name;
        if same \<and> cc_instance c = inst
        then Some (if data_buf_size = length (cc_data c) then (True, config_container_data c) else (False, []))
        else config_store_query cs classifier name inst data_buf_size
      })"

fun config_store_count :: "config_ramstore \<Rightarrow> config_classifier \<Rightarrow> u32" where
  "config_store_count [] classifier = 0"
| "config_store_count (c # cs) classifier =
     (if cc_classifier c = classifier then 1 else 0) + config_store_count cs classifier"


section \<open>The store as a map\<close>

definition c_string :: "bytes \<Rightarrow> bytes" where
  "c_string s = takeWhile (\<lambda>b. b \<noteq> 0) s"

definition c_string_ok :: "bytes \<Rightarrow> bool" where
  "c_string_ok s \<longleftrightarrow> 0 \<in> set s"

lemma c_string_ok_strlen: "c_string_ok s \<longleftrightarrow> c_strlen s \<noteq> length s"
  unfolding c_string_ok_def c_strlen_def
  by (induction s) auto

text \<open>Two terminated strings, one of them shorter than the bound, compare as strings.\<close>

lemma strncmp_eq_strings:
  assumes "c_string_ok xs" and "c_string_ok ys" and "c_strlen xs < n"
  shows "strncmp_eq xs ys n = Some (c_string xs = c_string ys)"
  using assms
proof (induction xs ys n rule: strncmp_eq.induct)
  case (2 x xs y ys n)
  then show ?case
    by (auto simp: c_string_def c_string_ok_def c_strlen_def)
qed (auto simp: c_string_ok_def)

definition container_ok :: "config_container \<Rightarrow> bool" where
  "container_ok c \<longleftrightarrow> length (cc_name c) = sizeof_container_name \<and> c_string_ok (cc_name c)"

lemma container_ok_strlen: "container_ok c \<Longrightarrow> c_strlen (cc_name c) < sizeof_container_name"
  using c_strlen_le [of "cc_name c"] by (auto simp: container_ok_def c_string_ok_strlen)

type_synonym config_key = "config_classifier \<times> bytes \<times> u32"

definition container_key :: "config_container \<Rightarrow> config_key" where
  "container_key c = (cc_classifier c, c_string (cc_name c), cc_instance c)"

definition config_map :: "config_ramstore \<Rightarrow> config_key \<Rightarrow> bytes option" where
  "config_map store = map_of (map (\<lambda>c. (container_key c, cc_data c)) store)"

definition config_ok :: "config_ramstore \<Rightarrow> bool" where
  "config_ok store \<longleftrightarrow> (\<forall>c \<in> set store. container_ok c)"

lemma config_store_query_eq:
  assumes "config_ok store" and "c_string_ok name"
  shows "config_store_query store classifier name inst n =
    Some (case config_map store (classifier, c_string name, inst) of
            None \<Rightarrow> (False, [])
          | Some d \<Rightarrow> if n = length d then (True, d) else (False, []))"
  using assms
proof (induction store)
  case Nil
  then show ?case by (simp add: config_map_def)
next
  case (Cons c cs)
  then have "strncmp_eq (cc_name c) name sizeof_container_name = Some (c_string (cc_name c) = c_string name)"
    by (intro strncmp_eq_strings) (auto simp: config_ok_def container_ok_strlen, simp add: container_ok_def)
  moreover have "config_ok cs"
    using Cons.prems by (simp add: config_ok_def)
  ultimately show ?case
    using Cons.IH Cons.prems(2)
    by (auto simp: config_map_def container_key_def config_container_data_def)
qed

lemma c_string_of_prefix:
  assumes "c_string_ok name"
  shows "c_string (take (c_strlen name + 1) name @ rest) = c_string name"
    and "c_string_ok (take (c_strlen name + 1) name @ rest)"
proof -
  obtain s t where n: "name = s @ 0 # t" "0 \<notin> set s"
    using assms unfolding c_string_ok_def by (metis split_list_first)
  have tw: "takeWhile (\<lambda>b. b \<noteq> 0) (s @ 0 # r) = s" for r
    using n(2) by (induction s) auto
  then show "c_string (take (c_strlen name + 1) name @ rest) = c_string name"
    and "c_string_ok (take (c_strlen name + 1) name @ rest)"
    using n by (auto simp: c_string_def c_strlen_def c_string_ok_def)
qed

lemma config_store_add_eq:
  assumes ok: "config_ok store" and name: "c_string_ok name" and d: "length d < 2 ^ 63"
  shows "if c_strlen name < sizeof_container_name \<and> alloc_ok (sizeof_config_container + length d)
    then \<exists>store'. config_store_add alloc_ok junk store classifier name inst d (length d) = Some (True, store')
      \<and> config_ok store' \<and> config_map store' = (config_map store)((classifier, c_string name, inst) \<mapsto> d)
      \<and> (\<forall>cl. config_store_count store' cl = (if cl = classifier then 1 else 0) + config_store_count store cl)
    else config_store_add alloc_ok junk store classifier name inst d (length d) = Some (False, store)"
proof -
  have a: "add64 sizeof_config_container (length d) = sizeof_config_container + length d"
    using d by (simp add: arith64)
  have t: "c_strlen name \<noteq> length name"
    using name by (simp add: c_string_ok_strlen)
  then have n: "mem_read name 0 (c_strlen name + 1) = Some (take (c_strlen name + 1) name)"
    using c_strlen_le [of name] by (simp add: mem_read_def slice_def)
  have r: "mem_read d 0 (length d) = Some d"
    by (simp add: mem_simps)
  show ?thesis
  proof (cases "c_strlen name < sizeof_container_name \<and> alloc_ok (sizeof_config_container + length d)")
    case True
    let ?nm = "take (c_strlen name + 1) name @ map junk [c_strlen name + 1..<sizeof_container_name]"
    let ?c = "\<lparr>cc_classifier = classifier, cc_name = ?nm, cc_instance = inst, cc_data = d\<rparr>"
    have len: "length ?nm = sizeof_container_name"
      using True t c_strlen_le [of name] by simp
    have "config_store_add alloc_ok junk store classifier name inst d (length d) = Some (True, ?c # store)"
      using True t n r a by (simp add: config_store_add_def config_container_create_def Let_def)
    moreover have "config_ok (?c # store)"
      using ok len c_string_of_prefix(2) [OF name] by (simp add: config_ok_def container_ok_def)
    moreover have "config_map (?c # store) = (config_map store)((classifier, c_string name, inst) \<mapsto> d)"
      using c_string_of_prefix(1) [OF name] by (simp add: config_map_def container_key_def)
    ultimately show ?thesis
      using True by auto
  next
    case False
    with t a show ?thesis
      by (auto simp: config_store_add_def config_container_create_def Let_def)
  qed
qed


section \<open>Properties\<close>

text \<open>
  The configuration store is a map from classifier, name and instance to data: an
  object that is added is found by a query of its exact size, shadows an older one with the same
  key, and leaves every other query alone.
\<close>

theorem config_store_add_query:
  assumes ok: "config_ok store" and names: "c_string_ok name" "c_string_ok name'" and d: "length d < 2 ^ 63"
    and add: "config_store_add alloc_ok junk store classifier name inst d (length d) = Some (True, store')"
  shows "config_ok store' \<and> config_store_query store' classifier' name' inst' n =
    (if (classifier', c_string name', inst') = (classifier, c_string name, inst)
     then Some (if n = length d then (True, d) else (False, []))
     else config_store_query store classifier' name' inst' n)"
proof -
  have s: "config_ok store'" "config_map store' = (config_map store)((classifier, c_string name, inst) \<mapsto> d)"
    using config_store_add_eq [OF ok names(1) d, of alloc_ok junk classifier inst] add by (auto split: if_splits)
  then show ?thesis
    using config_store_query_eq [OF ok names(2)] config_store_query_eq [OF s(1) names(2)] by auto
qed

theorem config_store_add_query_witness:
  "\<exists>store'. config_store_add (\<lambda>_. True) (\<lambda>_. 7) [] CONFIG_CLASSIFIER_BLOB [0x61, 0] 1 [5, 6] (length [5 :: byte, 6]) = Some (True, store')
    \<and> config_store_query store' CONFIG_CLASSIFIER_BLOB [0x61, 0, 9] 1 2 = Some (True, [5, 6])"
proof -
  have ok: "config_ok []" and n: "c_string_ok [0x61, 0]" "c_string_ok [0x61, 0, 9]" and d: "length [5 :: byte, 6] < 2 ^ 63"
    by (simp_all add: config_ok_def c_string_ok_def)
  obtain store' where a: "config_store_add (\<lambda>_. True) (\<lambda>_. 7) [] CONFIG_CLASSIFIER_BLOB [0x61, 0] 1 [5, 6] (length [5 :: byte, 6])
      = Some (True, store')"
    using config_store_add_eq [OF ok n(1) d, of "\<lambda>_. True" "\<lambda>_. 7" CONFIG_CLASSIFIER_BLOB 1]
    by (auto simp: c_strlen_def split: if_splits)
  from config_store_add_query [OF ok n d a, of CONFIG_CLASSIFIER_BLOB 1 2] a show ?thesis
    by (simp add: c_string_def)
qed

end
