(* ===== verification/Rpmb.thy ===== *)
theory Rpmb
  imports Prelude
begin

text \<open>
  Replay protected memory blocks: the data frames and the backend interface
  (\<open>rpmb_backend.h\<close>, \<open>rpmb_backend.c\<close>) and the emulated device
  (\<open>rpmb_backend_emulated.c\<close>).

  Callers may pass the same memory for the request and the response frames, so both live in one
  list of frames, addressed by the positions \<open>req\<close> and \<open>resp\<close> of their first elements. The
  SHA-256 of the PSA Crypto library is the parameter \<open>sha\<close>.
\<close>

section \<open>Data frames\<close>

record rpmb_data_frame =
  rf_stuff_bytes :: bytes
  rf_key_mac :: bytes
  rf_data :: bytes
  rf_nonce :: bytes
  rf_write_counter :: bytes
  rf_address :: bytes
  rf_block_count :: bytes
  rf_op_result :: bytes
  rf_msg_type :: bytes

abbreviation RPMB_KEY_MAC_SIZE :: nat where "RPMB_KEY_MAC_SIZE \<equiv> 32"
abbreviation RPMB_DATA_SIZE :: nat where "RPMB_DATA_SIZE \<equiv> 256"
abbreviation RPMB_NONCE_SIZE :: nat where "RPMB_NONCE_SIZE \<equiv> 16"
abbreviation RPMB_STUFF_DATA_SIZE :: nat where "RPMB_STUFF_DATA_SIZE \<equiv> 196"
abbreviation RPMB_EMMC_CID_SIZE :: nat where "RPMB_EMMC_CID_SIZE \<equiv> 16"
abbreviation RPMB_SIZE_MULT_UNIT :: nat where "RPMB_SIZE_MULT_UNIT \<equiv> 131072"

definition frame_ok :: "rpmb_data_frame \<Rightarrow> bool" where
  "frame_ok f \<longleftrightarrow>
     length (rf_stuff_bytes f) = RPMB_STUFF_DATA_SIZE \<and> length (rf_key_mac f) = RPMB_KEY_MAC_SIZE
     \<and> length (rf_data f) = RPMB_DATA_SIZE \<and> length (rf_nonce f) = RPMB_NONCE_SIZE
     \<and> length (rf_write_counter f) = 4 \<and> length (rf_address f) = 2 \<and> length (rf_block_count f) = 2
     \<and> length (rf_op_result f) = 2 \<and> length (rf_msg_type f) = 2"

text \<open>A frame cleared by \<open>memset\<close>.\<close>

definition zero_frame :: rpmb_data_frame where
  "zero_frame =
     \<lparr>rf_stuff_bytes = replicate RPMB_STUFF_DATA_SIZE 0, rf_key_mac = replicate RPMB_KEY_MAC_SIZE 0,
      rf_data = replicate RPMB_DATA_SIZE 0, rf_nonce = replicate RPMB_NONCE_SIZE 0,
      rf_write_counter = replicate 4 0, rf_address = replicate 2 0, rf_block_count = replicate 2 0,
      rf_op_result = replicate 2 0, rf_msg_type = replicate 2 0\<rparr>"

definition u32_to_rpmb_field :: "u32 \<Rightarrow> bytes" where
  "u32_to_rpmb_field x = [ucast (drop_bit 24 x), ucast (drop_bit 16 x), ucast (drop_bit 8 x), ucast x]"

definition u32_from_rpmb_field :: "bytes \<Rightarrow> u32" where
  "u32_from_rpmb_field f =
     or (or (push_bit 24 (ucast (f ! 0))) (push_bit 16 (ucast (f ! 1))))
        (or (push_bit 8 (ucast (f ! 2))) (ucast (f ! 3)))"

definition u16_to_rpmb_field :: "u16 \<Rightarrow> bytes" where
  "u16_to_rpmb_field x = [ucast (drop_bit 8 x), ucast x]"

definition u16_from_rpmb_field :: "bytes \<Rightarrow> u16" where
  "u16_from_rpmb_field f = or (push_bit 8 (ucast (f ! 0))) (ucast (f ! 1))"

lemma u32_field_bit:
  assumes "n < 32"
  shows "bit (u32_from_rpmb_field (u32_to_rpmb_field x)) n = bit x n"
proof -
  consider "n < 8" | "8 \<le> n" "n < 16" | "16 \<le> n" "n < 24" | "24 \<le> n"
    by linarith
  then show ?thesis
    using assms unfolding u32_from_rpmb_field_def u32_to_rpmb_field_def
    by cases (auto simp: bit_simps)
qed

lemma u32_field_round_trip [simp]: "u32_from_rpmb_field (u32_to_rpmb_field x) = x"
  by (rule bit_word_eqI) (simp add: u32_field_bit)

lemma u16_field_round_trip [simp]: "u16_from_rpmb_field (u16_to_rpmb_field x) = x"
  unfolding u16_from_rpmb_field_def u16_to_rpmb_field_def
  by (rule bit_word_eqI) (auto simp: bit_simps)

lemma length_rpmb_fields [simp]: "length (u32_to_rpmb_field x) = 4" "length (u16_to_rpmb_field y) = 2"
  by (simp_all add: u32_to_rpmb_field_def u16_to_rpmb_field_def)

lemma zero_frame_ok [simp]: "frame_ok zero_frame"
  by (simp add: frame_ok_def zero_frame_def)

text \<open>Message types and results.\<close>

abbreviation RPMB_REQ_TYPE_AUTHENTICATION_KEY_WRITE :: u16 where "RPMB_REQ_TYPE_AUTHENTICATION_KEY_WRITE \<equiv> 1"
abbreviation RPMB_REQ_TYPE_READ_WRITE_COUNTER :: u16 where "RPMB_REQ_TYPE_READ_WRITE_COUNTER \<equiv> 2"
abbreviation RPMB_REQ_TYPE_AUTHENTICATED_DATA_WRITE :: u16 where "RPMB_REQ_TYPE_AUTHENTICATED_DATA_WRITE \<equiv> 3"
abbreviation RPMB_REQ_TYPE_AUTHENTICATED_DATA_READ :: u16 where "RPMB_REQ_TYPE_AUTHENTICATED_DATA_READ \<equiv> 4"
abbreviation RPMB_REQ_TYPE_RESULT_READ_REQUEST :: u16 where "RPMB_REQ_TYPE_RESULT_READ_REQUEST \<equiv> 5"
abbreviation RPMB_RESP_TYPE_AUTHENTICATION_KEY_WRITE :: u16 where "RPMB_RESP_TYPE_AUTHENTICATION_KEY_WRITE \<equiv> 0x100"
abbreviation RPMB_RESP_TYPE_READ_WRITE_COUNTER :: u16 where "RPMB_RESP_TYPE_READ_WRITE_COUNTER \<equiv> 0x200"
abbreviation RPMB_RESP_TYPE_AUTHENTICATED_DATA_WRITE :: u16 where "RPMB_RESP_TYPE_AUTHENTICATED_DATA_WRITE \<equiv> 0x300"
abbreviation RPMB_RESP_TYPE_AUTHENTICATED_DATA_READ :: u16 where "RPMB_RESP_TYPE_AUTHENTICATED_DATA_READ \<equiv> 0x400"

abbreviation RPMB_RES_OK :: u16 where "RPMB_RES_OK \<equiv> 0"
abbreviation RPMB_RES_GENERAL_FAILURE :: u16 where "RPMB_RES_GENERAL_FAILURE \<equiv> 1"
abbreviation RPMB_RES_AUTHENTICATION_FAILURE :: u16 where "RPMB_RES_AUTHENTICATION_FAILURE \<equiv> 2"
abbreviation RPMB_RES_COUNTER_FAILURE :: u16 where "RPMB_RES_COUNTER_FAILURE \<equiv> 3"
abbreviation RPMB_RES_ADDRESS_FAILURE :: u16 where "RPMB_RES_ADDRESS_FAILURE \<equiv> 4"
abbreviation RPMB_RES_WRITE_FAILURE :: u16 where "RPMB_RES_WRITE_FAILURE \<equiv> 5"
abbreviation RPMB_RES_KEY_NOT_PROGRAMMED :: u16 where "RPMB_RES_KEY_NOT_PROGRAMMED \<equiv> 7"
abbreviation RPMB_RES_COUNTER_EXPIRED :: u16 where "RPMB_RES_COUNTER_EXPIRED \<equiv> 0x80"


section \<open>Backend interface\<close>

record rpmb_dev_info =
  rdi_cid :: bytes
  rdi_rpmb_size_mult :: byte

text \<open>\<open>data_request\<close> gets the device, the memory with the positions and numbers of the request
  and response frames, and yields the status, the memory, the number of responses and the
  backend.\<close>

record 'b rpmb_backend_interface =
  rbi_get_dev_info :: "'b \<Rightarrow> u32 \<Rightarrow> (psa_status \<times> rpmb_dev_info \<times> 'b) option"
  rbi_data_request ::
    "'b \<Rightarrow> u32 \<Rightarrow> rpmb_data_frame list \<Rightarrow> nat \<Rightarrow> size_t \<Rightarrow> nat \<Rightarrow> size_t \<Rightarrow>
      (psa_status \<times> rpmb_data_frame list \<times> size_t \<times> 'b) option"

definition rpmb_backend_get_dev_info ::
  "'b rpmb_backend_interface \<Rightarrow> 'b \<Rightarrow> u32 \<Rightarrow> (psa_status \<times> rpmb_dev_info \<times> 'b) option" where
  "rpmb_backend_get_dev_info iface b dev_id = rbi_get_dev_info iface b dev_id"

definition rpmb_backend_data_request ::
  "'b rpmb_backend_interface \<Rightarrow> 'b \<Rightarrow> u32 \<Rightarrow> rpmb_data_frame list \<Rightarrow> nat \<Rightarrow> size_t \<Rightarrow> nat \<Rightarrow> size_t \<Rightarrow>
    (psa_status \<times> rpmb_data_frame list \<times> size_t \<times> 'b) option" where
  "rpmb_backend_data_request iface b dev_id mem req n resp m = rbi_data_request iface b dev_id mem req n resp m"


section \<open>The emulated device\<close>

record rpmb_backend_emulated =
  rbe_buffer :: "bytes option"
  rbe_buffer_size :: size_t
  rbe_key :: bytes
  rbe_key_programmed :: bool
  rbe_write_counter :: u32
  rbe_result :: rpmb_data_frame

definition test_cid :: bytes where
  "test_cid = [0xfe, 0x01, 0x4e, 0x4d, 0x4d, 0x43, 0x30, 0x34, 0x47, 0x42, 0xc8, 0xf6, 0x55, 0x2a, 0x61, 0x15]"

definition rpmb_backend_emulated_get_dev_info ::
  "rpmb_backend_emulated \<Rightarrow> u32 \<Rightarrow> (psa_status \<times> rpmb_dev_info \<times> rpmb_backend_emulated) option" where
  "rpmb_backend_emulated_get_dev_info b dev_id =
     Some (PSA_SUCCESS,
           \<lparr>rdi_cid = test_cid, rdi_rpmb_size_mult = word_of_nat (rbe_buffer_size b div RPMB_SIZE_MULT_UNIT)\<rparr>, b)"

text \<open>What the MAC covers of a frame: everything from the data field on.\<close>

definition frame_tail :: "rpmb_data_frame \<Rightarrow> bytes" where
  "frame_tail f =
     rf_data f @ rf_nonce f @ rf_write_counter f @ rf_address f @ rf_block_count f @ rf_op_result f @ rf_msg_type f"

definition frames_mac :: "(bytes \<Rightarrow> bytes) \<Rightarrow> bytes \<Rightarrow> rpmb_data_frame list \<Rightarrow> bytes" where
  "frames_mac sha key frames = sha (key @ concat (map frame_tail frames))"

definition hash_sized :: "(bytes \<Rightarrow> bytes) \<Rightarrow> bool" where
  "hash_sized sha \<longleftrightarrow> (\<forall>x. length (sha x) = RPMB_KEY_MAC_SIZE)"

lemma length_frames_mac [simp]: "hash_sized sha \<Longrightarrow> length (frames_mac sha key fs) = RPMB_KEY_MAC_SIZE"
  by (simp add: hash_sized_def frames_mac_def)

definition calculate_mac :: "(bytes \<Rightarrow> bytes) \<Rightarrow> rpmb_backend_emulated \<Rightarrow> rpmb_data_frame list \<Rightarrow> bytes" where
  "calculate_mac sha b frames = frames_mac sha (rbe_key b) frames"

definition rpmb_emulated_authentication_key_write ::
  "rpmb_backend_emulated \<Rightarrow> rpmb_data_frame \<Rightarrow> rpmb_backend_emulated" where
  "rpmb_emulated_authentication_key_write b request =
     (let (result, b1) =
            (if \<not> rbe_key_programmed b
             then (RPMB_RES_OK, b\<lparr>rbe_key := rf_key_mac request, rbe_key_programmed := True\<rparr>)
             else (RPMB_RES_GENERAL_FAILURE, b))
      in b1\<lparr>rbe_result := zero_frame\<lparr>rf_op_result := u16_to_rpmb_field result,
              rf_msg_type := u16_to_rpmb_field RPMB_RESP_TYPE_AUTHENTICATION_KEY_WRITE\<rparr>\<rparr>)"

text \<open>The nonce is copied before the response, possibly the same frame, is cleared.\<close>

definition rpmb_emulated_read_write_counter ::
  "(bytes \<Rightarrow> bytes) \<Rightarrow> rpmb_backend_emulated \<Rightarrow> rpmb_data_frame \<Rightarrow> rpmb_data_frame" where
  "rpmb_emulated_read_write_counter sha b request =
     (let response = zero_frame\<lparr>rf_msg_type := u16_to_rpmb_field RPMB_RESP_TYPE_READ_WRITE_COUNTER,
                                rf_op_result := u16_to_rpmb_field RPMB_RES_KEY_NOT_PROGRAMMED\<rparr>
      in if rbe_key_programmed b
         then
           (let r1 = response\<lparr>rf_nonce := rf_nonce request,
                              rf_write_counter := u32_to_rpmb_field (rbe_write_counter b),
                              rf_op_result := u16_to_rpmb_field RPMB_RES_OK\<rparr>
            in r1\<lparr>rf_key_mac := calculate_mac sha b [r1]\<rparr>)
         else response)"

definition frame_address :: "rpmb_data_frame \<Rightarrow> size_t" where
  "frame_address f = unat (u16_from_rpmb_field (rf_address f)) * RPMB_DATA_SIZE"

definition check_write_request ::
  "(bytes \<Rightarrow> bytes) \<Rightarrow> rpmb_backend_emulated \<Rightarrow> rpmb_data_frame \<Rightarrow> u16" where
  "check_write_request sha b request =
     (if rbe_write_counter b = 0xffffffff then or RPMB_RES_COUNTER_EXPIRED RPMB_RES_WRITE_FAILURE
      else
        (let (overflow, address) = MUL_OVERFLOW (unat (u16_from_rpmb_field (rf_address request))) RPMB_DATA_SIZE
         in if overflow then RPMB_RES_ADDRESS_FAILURE
            else if rbe_buffer_size b \<le> address then RPMB_RES_ADDRESS_FAILURE
            else if u16_from_rpmb_field (rf_block_count request) \<noteq> 1 then RPMB_RES_GENERAL_FAILURE
            else if calculate_mac sha b [request] \<noteq> rf_key_mac request then RPMB_RES_AUTHENTICATION_FAILURE
            else if rbe_write_counter b \<noteq> u32_from_rpmb_field (rf_write_counter request)
            then RPMB_RES_COUNTER_FAILURE
            else RPMB_RES_OK))"

text \<open>The response goes to the result register. Its MAC is computed while the result field is
  still zero.\<close>

definition rpmb_emulated_authenticated_data_write ::
  "(bytes \<Rightarrow> bytes) \<Rightarrow> rpmb_backend_emulated \<Rightarrow> rpmb_data_frame \<Rightarrow> rpmb_backend_emulated option" where
  "rpmb_emulated_authenticated_data_write sha b request =
     (let r0 = zero_frame\<lparr>rf_msg_type := u16_to_rpmb_field RPMB_RESP_TYPE_AUTHENTICATED_DATA_WRITE\<rparr>
      in if \<not> rbe_key_programmed b
         then Some (b\<lparr>rbe_result := r0\<lparr>rf_op_result := u16_to_rpmb_field RPMB_RES_KEY_NOT_PROGRAMMED\<rparr>\<rparr>)
         else
           (let result = check_write_request sha b request
            in do {
                 b1 \<leftarrow> (if result = RPMB_RES_OK
                        then do {
                          buf \<leftarrow> rbe_buffer b;
                          buf1 \<leftarrow> mem_write buf (frame_address request) (rf_data request);
                          Some (b\<lparr>rbe_buffer := Some buf1, rbe_write_counter := rbe_write_counter b + 1\<rparr>)
                        }
                        else Some b);
                 let r1 = r0\<lparr>rf_address := rf_address request,
                             rf_write_counter := u32_to_rpmb_field (rbe_write_counter b1)\<rparr>;
                 let r2 = r1\<lparr>rf_key_mac := calculate_mac sha b1 [r1]\<rparr>;
                 Some (b1\<lparr>rbe_result := r2\<lparr>rf_op_result := u16_to_rpmb_field result\<rparr>\<rparr>)
               }))"

definition check_read_request :: "rpmb_backend_emulated \<Rightarrow> rpmb_data_frame \<Rightarrow> u16 \<times> size_t" where
  "check_read_request b request =
     (let (overflow, address) = MUL_OVERFLOW (unat (u16_from_rpmb_field (rf_address request))) RPMB_DATA_SIZE
      in if overflow then (RPMB_RES_ADDRESS_FAILURE, address)
         else if rbe_buffer_size b \<le> address then (RPMB_RES_ADDRESS_FAILURE, address)
         else
           (let block_count = u16_from_rpmb_field (rf_block_count request)
            in if block_count = 0 then (RPMB_RES_GENERAL_FAILURE, address)
               else
                 (let (overflow1, len) = MUL_OVERFLOW (unat block_count) RPMB_DATA_SIZE;
                      (overflow2, end_address) = ADD_OVERFLOW address len
                  in if overflow1 then (RPMB_RES_ADDRESS_FAILURE, address)
                     else if overflow2 then (RPMB_RES_ADDRESS_FAILURE, address)
                     else if rbe_buffer_size b < end_address then (RPMB_RES_ADDRESS_FAILURE, address)
                     else (RPMB_RES_OK, address))))"

text \<open>The loop over the blocks: frame \<open>i\<close> of the response is written to the memory the request
  may be in, so the request's fields are read anew in every round. \<open>n\<close> blocks are left.\<close>

definition read_frame :: "rpmb_data_frame \<Rightarrow> bytes \<Rightarrow> rpmb_data_frame" where
  "read_frame request d =
     zero_frame\<lparr>rf_data := d, rf_nonce := rf_nonce request, rf_address := rf_address request,
                rf_block_count := rf_block_count request, rf_op_result := u16_to_rpmb_field RPMB_RES_OK,
                rf_msg_type := u16_to_rpmb_field RPMB_RESP_TYPE_AUTHENTICATED_DATA_READ\<rparr>"

fun read_blocks ::
  "bytes \<Rightarrow> size_t \<Rightarrow> rpmb_data_frame list \<Rightarrow> nat \<Rightarrow> nat \<Rightarrow> nat \<Rightarrow> nat \<Rightarrow> rpmb_data_frame list option" where
  "read_blocks buf address mem req resp i 0 = Some mem"
| "read_blocks buf address mem req resp i (Suc n) =
     do {
       d \<leftarrow> mem_read buf (address + i * RPMB_DATA_SIZE) RPMB_DATA_SIZE;
       request \<leftarrow> array_get mem (int req);
       mem1 \<leftarrow> mem_write mem (resp + i) [read_frame request d];
       read_blocks buf address mem1 req resp (i + 1) n
     }"

definition rpmb_emulated_authenticated_data_read ::
  "(bytes \<Rightarrow> bytes) \<Rightarrow> rpmb_backend_emulated \<Rightarrow> rpmb_data_frame list \<Rightarrow> nat \<Rightarrow> nat \<Rightarrow> size_t \<Rightarrow>
    (psa_status \<times> rpmb_data_frame list \<times> size_t) option" where
  "rpmb_emulated_authenticated_data_read sha b mem req resp response_count =
     do {
       request \<leftarrow> array_get mem (int req);
       if rbe_key_programmed b
       then
         (let (result, address) = check_read_request b request
          in if result = RPMB_RES_OK
             then
               (let block_count = unat (u16_from_rpmb_field (rf_block_count request))
                in if response_count < block_count then Some (PSA_ERROR_BUFFER_TOO_SMALL, mem, response_count)
                   else do {
                     buf \<leftarrow> rbe_buffer b;
                     mem1 \<leftarrow> read_blocks buf address mem req resp 0 block_count;
                     frames \<leftarrow> mem_read mem1 resp block_count;
                     final \<leftarrow> array_get mem1 (int (resp + block_count - 1));
                     mem2 \<leftarrow> mem_write mem1 (resp + block_count - 1)
                       [final\<lparr>rf_key_mac := calculate_mac sha b frames\<rparr>];
                     Some (PSA_SUCCESS, mem2, block_count)
                   })
             else Some (PSA_SUCCESS, mem, 0))
       else do {
         mem1 \<leftarrow> mem_write mem resp
           [zero_frame\<lparr>rf_op_result := u16_to_rpmb_field RPMB_RES_KEY_NOT_PROGRAMMED,
                        rf_msg_type := u16_to_rpmb_field RPMB_RESP_TYPE_AUTHENTICATED_DATA_READ\<rparr>];
         Some (PSA_SUCCESS, mem1, 1)
       }
     }"

text \<open>The loop over the request frames; \<open>n\<close> are left, \<open>ri\<close> responses have been written.\<close>

fun data_request_loop ::
  "(bytes \<Rightarrow> bytes) \<Rightarrow> rpmb_backend_emulated \<Rightarrow> rpmb_data_frame list \<Rightarrow> nat \<Rightarrow> nat \<Rightarrow> nat \<Rightarrow> size_t \<Rightarrow> nat \<Rightarrow>
    (psa_status \<times> rpmb_data_frame list \<times> size_t \<times> rpmb_backend_emulated) option" where
  "data_request_loop sha b mem req 0 resp m ri = Some (PSA_SUCCESS, mem, ri, b)"
| "data_request_loop sha b mem req (Suc n) resp m ri =
     do {
       request \<leftarrow> array_get mem (int req);
       let msg_type = u16_from_rpmb_field (rf_msg_type request);
       if msg_type = RPMB_REQ_TYPE_AUTHENTICATION_KEY_WRITE
       then data_request_loop sha (rpmb_emulated_authentication_key_write b request) mem (req + 1) n resp m ri
       else if msg_type = RPMB_REQ_TYPE_READ_WRITE_COUNTER
       then if ri < m
            then do {
              mem1 \<leftarrow> mem_write mem (resp + ri) [rpmb_emulated_read_write_counter sha b request];
              data_request_loop sha b mem1 (req + 1) n resp m (ri + 1)
            }
            else Some (PSA_ERROR_BUFFER_TOO_SMALL, mem, m, b)
       else if msg_type = RPMB_REQ_TYPE_AUTHENTICATED_DATA_WRITE
       then do {
         b1 \<leftarrow> rpmb_emulated_authenticated_data_write sha b request;
         data_request_loop sha b1 mem (req + 1) n resp m ri
       }
       else if msg_type = RPMB_REQ_TYPE_AUTHENTICATED_DATA_READ
       then if ri < m
            then do {
              (status, mem1, k) \<leftarrow> rpmb_emulated_authenticated_data_read sha b mem req (resp + ri) (m - ri);
              if status \<noteq> PSA_SUCCESS then Some (status, mem1, m, b)
              else data_request_loop sha b mem1 (req + 1) n resp m (ri + k)
            }
            else Some (PSA_ERROR_BUFFER_TOO_SMALL, mem, m, b)
       else if msg_type = RPMB_REQ_TYPE_RESULT_READ_REQUEST
       then if ri < m
            then do {
              mem1 \<leftarrow> mem_write mem (resp + ri) [rbe_result b];
              data_request_loop sha b mem1 (req + 1) n resp m (ri + 1)
            }
            else Some (PSA_ERROR_BUFFER_TOO_SMALL, mem, m, b)
       else Some (PSA_ERROR_INVALID_ARGUMENT, mem, m, b)
     }"

definition rpmb_backend_emulated_data_request ::
  "(bytes \<Rightarrow> bytes) \<Rightarrow> rpmb_backend_emulated \<Rightarrow> u32 \<Rightarrow> rpmb_data_frame list \<Rightarrow> nat \<Rightarrow> size_t \<Rightarrow> nat \<Rightarrow> size_t \<Rightarrow>
    (psa_status \<times> rpmb_data_frame list \<times> size_t \<times> rpmb_backend_emulated) option" where
  "rpmb_backend_emulated_data_request sha b dev_id mem req n resp m =
     (if dev_id \<noteq> 0 then Some (PSA_ERROR_INVALID_ARGUMENT, mem, m, b)
      else data_request_loop sha b mem req n resp m 0)"

definition rpmb_backend_emulated_interface ::
  "(bytes \<Rightarrow> bytes) \<Rightarrow> rpmb_backend_emulated rpmb_backend_interface" where
  "rpmb_backend_emulated_interface sha =
     \<lparr>rbi_get_dev_info = rpmb_backend_emulated_get_dev_info,
      rbi_data_request = rpmb_backend_emulated_data_request sha\<rparr>"

text \<open>Initialisation sets the buffer only; the other members keep what the caller's memory holds.\<close>

definition rpmb_backend_emulated_init ::
  "(size_t \<Rightarrow> bool) \<Rightarrow> rpmb_backend_emulated option \<Rightarrow> byte \<Rightarrow> bool \<times> rpmb_backend_emulated option" where
  "rpmb_backend_emulated_init alloc_ok context size_mult =
     (case context of
        None \<Rightarrow> (False, None)
      | Some b \<Rightarrow>
          if size_mult = 0 then (False, Some b)
          else
            (let n = unat size_mult * RPMB_SIZE_MULT_UNIT
             in if alloc_ok n then (True, Some (b\<lparr>rbe_buffer_size := n, rbe_buffer := Some (replicate n 0)\<rparr>))
                else (False, Some (b\<lparr>rbe_buffer_size := n, rbe_buffer := None\<rparr>))))"


section \<open>The device is safe on any input\<close>

definition emulated_ok :: "rpmb_backend_emulated \<Rightarrow> bool" where
  "emulated_ok b \<longleftrightarrow>
     (case rbe_buffer b of None \<Rightarrow> False | Some buf \<Rightarrow> length buf = rbe_buffer_size b)
     \<and> RPMB_DATA_SIZE dvd rbe_buffer_size b \<and> frame_ok (rbe_result b)"

lemma emulated_okE:
  assumes "emulated_ok b"
  obtains buf where "rbe_buffer b = Some buf" and "length buf = rbe_buffer_size b" and "RPMB_DATA_SIZE dvd rbe_buffer_size b"
  using assms by (auto simp: emulated_ok_def split: option.splits)

lemma emulated_init_ok:
  "rpmb_backend_emulated_init alloc_ok (Some b) size_mult = (True, Some b') \<Longrightarrow> frame_ok (rbe_result b) \<Longrightarrow>
    emulated_ok b'"
  by (auto simp: rpmb_backend_emulated_init_def emulated_ok_def Let_def split: if_splits intro!: dvd_mult)

lemma rpmb_address_exact: "MUL_OVERFLOW (unat (x :: u16)) RPMB_DATA_SIZE = (False, unat x * RPMB_DATA_SIZE)"
  using unsigned_less [of x, where ?'a = nat] by (simp add: MUL_OVERFLOW_def arith64)

lemma check_write_request_OK:
  assumes "check_write_request sha b r = RPMB_RES_OK"
  shows "frame_address r < rbe_buffer_size b" and "rbe_write_counter b = u32_from_rpmb_field (rf_write_counter r)"
    and "calculate_mac sha b [r] = rf_key_mac r" and "rbe_write_counter b \<noteq> 0xffffffff"
  using assms
  by (auto simp: check_write_request_def rpmb_address_exact frame_address_def split: if_splits)

lemma block_fits:
  assumes "(k :: nat) * c < n" and "c dvd n"
  shows "k * c + c \<le> n"
proof -
  obtain m where m: "n = m * c"
    using assms(2) by (metis dvd_def mult.commute)
  with assms(1) have "Suc k \<le> m"
    by (simp add: Suc_le_eq)
  then have "Suc k * c \<le> m * c"
    by (rule mult_le_mono1)
  with m show ?thesis by simp
qed

text \<open>A write request is taken or refused, and leaves a response in the result register.\<close>

lemma data_write_returns:
  assumes ok: "emulated_ok b" and f: "frame_ok r" and sha: "hash_sized sha"
  shows "\<exists>b'. rpmb_emulated_authenticated_data_write sha b r = Some b' \<and> emulated_ok b'
    \<and> rbe_key b' = rbe_key b \<and> rbe_key_programmed b' = rbe_key_programmed b \<and> rbe_buffer_size b' = rbe_buffer_size b
    \<and> (if rbe_key_programmed b \<and> check_write_request sha b r = RPMB_RES_OK
       then rbe_buffer b' = Some (splice (the (rbe_buffer b)) (frame_address r) (rf_data r))
         \<and> rbe_write_counter b' = rbe_write_counter b + 1
       else rbe_buffer b' = rbe_buffer b \<and> rbe_write_counter b' = rbe_write_counter b)
    \<and> (let r1 = zero_frame\<lparr>rf_msg_type := u16_to_rpmb_field RPMB_RESP_TYPE_AUTHENTICATED_DATA_WRITE,
                           rf_address := rf_address r, rf_write_counter := u32_to_rpmb_field (rbe_write_counter b')\<rparr>
       in rbe_key_programmed b \<longrightarrow> rbe_result b' = r1\<lparr>rf_key_mac := calculate_mac sha b [r1],
            rf_op_result := u16_to_rpmb_field (check_write_request sha b r)\<rparr>)"
proof -
  obtain buf where b: "rbe_buffer b = Some buf" "length buf = rbe_buffer_size b" "RPMB_DATA_SIZE dvd rbe_buffer_size b"
    using ok by (rule emulated_okE)
  have r: "length (rf_data r) = RPMB_DATA_SIZE" "length (rf_address r) = 2"
    using f by (simp_all add: frame_ok_def)
  show ?thesis
  proof (cases "rbe_key_programmed b \<and> check_write_request sha b r = RPMB_RES_OK")
    case True
    then have "frame_address r < rbe_buffer_size b"
      by (auto dest: check_write_request_OK)
    then have "frame_address r + RPMB_DATA_SIZE \<le> rbe_buffer_size b"
      using block_fits b(3) unfolding frame_address_def by blast
    then have w: "mem_write buf (frame_address r) (rf_data r) = Some (splice buf (frame_address r) (rf_data r))"
      and len: "length (splice buf (frame_address r) (rf_data r)) = rbe_buffer_size b"
      using r b(2) by (simp_all add: mem_write_in)
    with True b r show ?thesis
      by (simp add: rpmb_emulated_authenticated_data_write_def emulated_ok_def calculate_mac_def Let_def
          frame_ok_def zero_frame_def sha)
  next
    case False
    with b r show ?thesis
      by (auto simp: rpmb_emulated_authenticated_data_write_def emulated_ok_def calculate_mac_def Let_def
          frame_ok_def zero_frame_def sha)
  qed
qed

text \<open>Reading fills the response frames even when the request is in one of them.\<close>

lemma read_frame_alias [simp]: "read_frame (read_frame r d) d' = read_frame r d'"
  by (simp add: read_frame_def)

lemma read_blocks_fills:
  assumes "req < length mem" and "resp + i + n \<le> length mem" and "address + (i + n) * RPMB_DATA_SIZE \<le> length buf"
  shows "\<exists>mem'. read_blocks buf address mem req resp i n = Some mem' \<and> length mem' = length mem
    \<and> (\<forall>j < length mem. mem' ! j =
         (if resp + i \<le> j \<and> j < resp + i + n
          then read_frame (mem ! req) (slice buf (address + (j - resp) * RPMB_DATA_SIZE) RPMB_DATA_SIZE)
          else mem ! j))"
  using assms
proof (induction n arbitrary: mem i)
  case 0
  then show ?case by auto
next
  case (Suc n)
  let ?d = "slice buf (address + i * RPMB_DATA_SIZE) RPMB_DATA_SIZE"
  let ?f = "read_frame (mem ! req) ?d"
  let ?mem = "mem[resp + i := ?f]"
  have d: "mem_read buf (address + i * RPMB_DATA_SIZE) RPMB_DATA_SIZE = Some ?d"
    using Suc.prems(3) by (intro mem_read_in) simp
  have g: "array_get mem (int req) = Some (mem ! req)"
    using Suc.prems(1) by (simp add: array_get_int)
  have lt: "resp + i < length mem"
    using Suc.prems(2) by simp
  then have w: "mem_write mem (resp + i) [?f] = Some ?mem"
    by (simp add: mem_write_def splice_def upd_conv_take_nth_drop)
  have "read_frame (?mem ! req) x = read_frame (mem ! req) x" for x
    using lt Suc.prems(1) by (cases "req = resp + i") simp_all
  moreover have "\<exists>mem'. read_blocks buf address ?mem req resp (i + 1) n = Some mem' \<and> length mem' = length ?mem
    \<and> (\<forall>j < length ?mem. mem' ! j =
         (if resp + (i + 1) \<le> j \<and> j < resp + (i + 1) + n
          then read_frame (?mem ! req) (slice buf (address + (j - resp) * RPMB_DATA_SIZE) RPMB_DATA_SIZE)
          else ?mem ! j))"
    using Suc.prems by (intro Suc.IH) simp_all
  ultimately obtain mem' where r: "read_blocks buf address ?mem req resp (i + 1) n = Some mem'" "length mem' = length mem"
    and el: "\<forall>j < length mem. mem' ! j =
         (if resp + (i + 1) \<le> j \<and> j < resp + (i + 1) + n
          then read_frame (mem ! req) (slice buf (address + (j - resp) * RPMB_DATA_SIZE) RPMB_DATA_SIZE)
          else ?mem ! j)"
    by auto
  have "\<forall>j < length mem. mem' ! j =
         (if resp + i \<le> j \<and> j < resp + i + Suc n
          then read_frame (mem ! req) (slice buf (address + (j - resp) * RPMB_DATA_SIZE) RPMB_DATA_SIZE)
          else mem ! j)"
  proof (intro allI impI)
    fix j
    assume j: "j < length mem"
    consider "j = resp + i" | "j < resp + i" | "resp + i < j"
      by linarith
    then show "mem' ! j = (if resp + i \<le> j \<and> j < resp + i + Suc n
          then read_frame (mem ! req) (slice buf (address + (j - resp) * RPMB_DATA_SIZE) RPMB_DATA_SIZE)
          else mem ! j)"
      using el j by cases (auto simp: nth_list_update)
  qed
  with r d g w show ?case
    by simp
qed


lemma check_read_request_OK:
  assumes "check_read_request b r = (RPMB_RES_OK, a)"
  shows "a = frame_address r"
    and "a + unat (u16_from_rpmb_field (rf_block_count r)) * RPMB_DATA_SIZE \<le> rbe_buffer_size b"
    and "0 < unat (u16_from_rpmb_field (rf_block_count r))"
proof -
  let ?a = "u16_from_rpmb_field (rf_address r)" and ?n = "u16_from_rpmb_field (rf_block_count r)"
  have "unat ?a < 65536" and "unat ?n < 65536"
    using unsigned_less [of ?a, where ?'a = nat] unsigned_less [of ?n, where ?'a = nat] by simp_all
  then have "ADD_OVERFLOW (unat ?a * RPMB_DATA_SIZE) (unat ?n * RPMB_DATA_SIZE)
    = (False, unat ?a * RPMB_DATA_SIZE + unat ?n * RPMB_DATA_SIZE)"
    by (simp add: ADD_OVERFLOW_def arith64)
  with assms show "a = frame_address r" and "a + unat ?n * RPMB_DATA_SIZE \<le> rbe_buffer_size b"
    and "0 < unat ?n"
    by (auto simp: check_read_request_def rpmb_address_exact frame_address_def Let_def unat_gt_0 split: if_splits)
qed

text \<open>A read request in memory either fails or fills response frames, and leaves frames.\<close>

lemma read_frame_ok: "frame_ok r \<Longrightarrow> length d = RPMB_DATA_SIZE \<Longrightarrow> frame_ok (read_frame r d)"
  by (simp add: frame_ok_def read_frame_def zero_frame_def)

lemma frames_ok_update: "\<forall>f \<in> set mem. frame_ok f \<Longrightarrow> frame_ok f \<Longrightarrow> \<forall>f \<in> set (mem[i := f]). frame_ok f"
  using set_update_subset_insert by fastforce

lemma mem_write_one: "i < length mem \<Longrightarrow> mem_write mem i [x] = Some (mem[i := x])"
  by (simp add: mem_write_def splice_def upd_conv_take_nth_drop)

text \<open>The response to an accepted read of \<open>n\<close> blocks: frame \<open>j\<close> holds block \<open>j\<close>, and the last
  one has the MAC over all of them.\<close>

definition read_response :: "(bytes \<Rightarrow> bytes) \<Rightarrow> bytes \<Rightarrow> rpmb_data_frame \<Rightarrow> bytes \<Rightarrow> nat \<Rightarrow> rpmb_data_frame list" where
  "read_response sha key r d n =
     (let fs = map (\<lambda>j. read_frame r (slice d (j * RPMB_DATA_SIZE) RPMB_DATA_SIZE)) [0..<n]
      in fs[n - 1 := (fs ! (n - 1))\<lparr>rf_key_mac := frames_mac sha key fs\<rparr>])"

lemma read_blocks_splice:
  assumes "req < length mem" and "resp + n \<le> length mem" and "address + n * RPMB_DATA_SIZE \<le> length buf"
  shows "read_blocks buf address mem req resp 0 n =
    Some (splice mem resp (map (\<lambda>j. read_frame (mem ! req)
      (slice (slice buf address (n * RPMB_DATA_SIZE)) (j * RPMB_DATA_SIZE) RPMB_DATA_SIZE)) [0..<n]))"
proof -
  obtain mem' where m: "read_blocks buf address mem req resp 0 n = Some mem'" "length mem' = length mem"
    and el: "\<forall>j < length mem. mem' ! j =
         (if resp \<le> j \<and> j < resp + n
          then read_frame (mem ! req) (slice buf (address + (j - resp) * RPMB_DATA_SIZE) RPMB_DATA_SIZE)
          else mem ! j)"
    using read_blocks_fills [of req mem resp 0 n address buf] assms by auto
  have "slice (slice buf address (n * RPMB_DATA_SIZE)) (j * RPMB_DATA_SIZE) RPMB_DATA_SIZE
      = slice buf (address + j * RPMB_DATA_SIZE) RPMB_DATA_SIZE" if "j < n" for j
    using that mult_le_mono1 [of "Suc j" n RPMB_DATA_SIZE] by (intro slice_slice) simp
  then have "mem' = splice mem resp (map (\<lambda>j. read_frame (mem ! req)
      (slice (slice buf address (n * RPMB_DATA_SIZE)) (j * RPMB_DATA_SIZE) RPMB_DATA_SIZE)) [0..<n])"
    using assms(2) el m(2) by (intro nth_equalityI) (auto simp: nth_splice)
  with m show ?thesis by simp
qed

lemma data_read_success:
  assumes ok: "emulated_ok b" and key: "rbe_key_programmed b" and req: "req < length mem"
    and c: "check_read_request b (mem ! req) = (RPMB_RES_OK, a)"
    and n: "n = unat (u16_from_rpmb_field (rf_block_count (mem ! req)))" "n \<le> m" and room: "resp + m \<le> length mem"
  shows "rpmb_emulated_authenticated_data_read sha b mem req resp m =
    Some (PSA_SUCCESS, splice mem resp
      (read_response sha (rbe_key b) (mem ! req) (slice (the (rbe_buffer b)) (frame_address (mem ! req)) (n * RPMB_DATA_SIZE)) n), n)"
proof -
  note r = check_read_request_OK [OF c, folded n(1)]
  obtain buf where b: "rbe_buffer b = Some buf" "length buf = rbe_buffer_size b"
    using ok by (rule emulated_okE)
  let ?fs = "map (\<lambda>j. read_frame (mem ! req)
    (slice (slice buf (frame_address (mem ! req)) (n * RPMB_DATA_SIZE)) (j * RPMB_DATA_SIZE) RPMB_DATA_SIZE)) [0..<n]"
  have rb: "read_blocks buf a mem req resp 0 n = Some (splice mem resp ?fs)"
    using read_blocks_splice [OF req, of resp n a buf] r b(2) n(2) room by simp
  have l: "resp + n - 1 < length mem"
    using r(3) n(2) room by linarith
  have fs: "slice (splice mem resp ?fs) resp n = ?fs"
    using slice_splice_same [of resp ?fs mem] n(2) room by simp
  have la: "splice mem resp ?fs ! (resp + n - 1) = ?fs ! (n - 1)"
    using l r(3) n(2) room by (subst nth_splice) auto
  have up: "(splice mem resp ?fs)[resp + n - 1 := x] = splice mem resp (?fs[n - 1 := x])" for x
  proof (rule nth_equalityI)
    show "length ((splice mem resp ?fs)[resp + n - 1 := x]) = length (splice mem resp (?fs[n - 1 := x]))"
      using n(2) room by simp
  next
    fix j
    assume "j < length ((splice mem resp ?fs)[resp + n - 1 := x])"
    then have j: "j < length mem"
      using n(2) room by simp
    consider "j = resp + n - 1" | "j \<noteq> resp + n - 1" "resp \<le> j" "j < resp + n" | "j < resp \<or> resp + n \<le> j"
      by linarith
    then show "(splice mem resp ?fs)[resp + n - 1 := x] ! j = splice mem resp (?fs[n - 1 := x]) ! j"
      using j r(3) n(2) room by cases (auto simp: nth_splice nth_list_update)
  qed
  have up1: "mem_write (splice mem resp ?fs) (resp + n - 1) [x] = Some (splice mem resp (?fs[n - 1 := x]))" for x
    using up l n(2) room by (subst mem_write_one) simp_all
  have g: "array_get (splice mem resp ?fs) (int (resp + n - 1)) = Some (?fs ! (n - 1))"
    using la l n(2) room by (subst array_get_int) simp_all
  have rd: "mem_read (splice mem resp ?fs) resp n = Some ?fs"
    using fs n(2) room by (subst mem_read_in) simp_all
  show ?thesis
    using key r(1) leD [OF n(2)] rb b(1)
    by (simp only: rpmb_emulated_authenticated_data_read_def array_get_int [OF req] bind.simps c case_prod_conv
        n(1) [symmetric] Let_def if_True if_False simp_thms rd g up1 option.sel read_response_def calculate_mac_def)
qed

lemma read_response_ok:
  assumes "frame_ok r" and "length d = n * RPMB_DATA_SIZE" and "hash_sized sha" and "0 < n"
  shows "\<forall>f \<in> set (read_response sha key r d n). frame_ok f"
proof -
  let ?fs = "map (\<lambda>j. read_frame r (slice d (j * RPMB_DATA_SIZE) RPMB_DATA_SIZE)) [0..<n]"
  have "frame_ok (read_frame r (slice d (j * RPMB_DATA_SIZE) RPMB_DATA_SIZE))" if "j < n" for j
    using assms(1,2) that mult_le_mono1 [of "Suc j" n RPMB_DATA_SIZE] by (intro read_frame_ok length_slice) simp_all
  then have "\<forall>f \<in> set ?fs. frame_ok f"
    by simp
  moreover have "frame_ok ((?fs ! (n - 1))\<lparr>rf_key_mac := frames_mac sha key ?fs\<rparr>)"
    using calculation assms(3,4) by (simp add: frame_ok_def)
  ultimately show ?thesis
    unfolding read_response_def Let_def by (rule frames_ok_update)
qed

lemma length_read_response [simp]: "length (read_response sha key r d n) = n"
  by (simp add: read_response_def Let_def)

lemma set_splice: "off + length d \<le> length m \<Longrightarrow> set (splice m off d) \<subseteq> set m \<union> set d"
  by (auto simp: splice_def dest: in_set_takeD in_set_dropD)

lemma data_read_returns:
  assumes ok: "emulated_ok b" and mem: "\<forall>f \<in> set mem. frame_ok f" and req: "req < length mem"
    and room: "0 < m" "resp + m \<le> length mem" and sha: "hash_sized sha"
  obtains st mem' k where "rpmb_emulated_authenticated_data_read sha b mem req resp m = Some (st, mem', k)"
    and "length mem' = length mem" and "\<forall>f \<in> set mem'. frame_ok f" and "k \<le> m"
proof (cases "rbe_key_programmed b")
  case False
  let ?r = "zero_frame\<lparr>rf_op_result := u16_to_rpmb_field RPMB_RES_KEY_NOT_PROGRAMMED,
    rf_msg_type := u16_to_rpmb_field RPMB_RESP_TYPE_AUTHENTICATED_DATA_READ\<rparr>"
  have "frame_ok ?r"
    by (simp add: frame_ok_def zero_frame_def)
  with False that [of PSA_SUCCESS "mem[resp := ?r]" 1] req room frames_ok_update [OF mem] show thesis
    by (simp add: rpmb_emulated_authenticated_data_read_def array_get_int mem_write_one)
next
  case True
  let ?n = "unat (u16_from_rpmb_field (rf_block_count (mem ! req)))"
  obtain buf where b: "rbe_buffer b = Some buf" "length buf = rbe_buffer_size b"
    using ok by (rule emulated_okE)
  obtain res a where c: "check_read_request b (mem ! req) = (res, a)"
    by fastforce
  consider "res \<noteq> RPMB_RES_OK" | "res = RPMB_RES_OK" "m < ?n" | "res = RPMB_RES_OK" "?n \<le> m"
    by linarith
  then show thesis
  proof cases
    case 1
    with True c that [of PSA_SUCCESS mem 0] req mem show thesis
      by (simp add: rpmb_emulated_authenticated_data_read_def array_get_int)
  next
    case 2
    with True c that [of PSA_ERROR_BUFFER_TOO_SMALL mem m] req mem show thesis
      by (simp add: rpmb_emulated_authenticated_data_read_def array_get_int)
  next
    case 3
    note r = check_read_request_OK [OF c [unfolded 3(1)]]
    let ?d = "slice buf (frame_address (mem ! req)) (?n * RPMB_DATA_SIZE)"
    have "\<forall>f \<in> set (read_response sha (rbe_key b) (mem ! req) ?d ?n). frame_ok f"
      using mem req r b(2) by (intro read_response_ok sha) simp_all
    then have "\<forall>f \<in> set (splice mem resp (read_response sha (rbe_key b) (mem ! req) ?d ?n)). frame_ok f"
      using set_splice [of resp "read_response sha (rbe_key b) (mem ! req) ?d ?n" mem] mem 3(2) room by auto
    with data_read_success [OF ok True req c [unfolded 3(1)] refl 3(2) room(2), of sha] that 3(2) room b show thesis
      by simp
  qed
qed


section \<open>Histories of the device\<close>

text \<open>What no request can undo: the counter only grows, a programmed key stays.\<close>

definition device_grows :: "rpmb_backend_emulated \<Rightarrow> rpmb_backend_emulated \<Rightarrow> bool" where
  "device_grows b b' \<longleftrightarrow>
     rbe_write_counter b \<le> rbe_write_counter b' \<and> rbe_buffer_size b' = rbe_buffer_size b
     \<and> (rbe_key_programmed b \<longrightarrow> rbe_key_programmed b' \<and> rbe_key b' = rbe_key b)"

lemma device_grows_refl [simp]: "device_grows b b"
  by (simp add: device_grows_def)

lemma device_grows_trans [trans]: "device_grows b b' \<Longrightarrow> device_grows b' b'' \<Longrightarrow> device_grows b b''"
  by (auto simp: device_grows_def)

lemma counter_increment:
  assumes "(c :: u32) \<noteq> 0xffffffff"
  shows "c < c + 1" and "unat (c + 1) = Suc (unat c)"
proof -
  have "1 + c \<noteq> 0"
  proof
    assume "1 + c = 0"
    then have "c = - 1"
      by (simp add: eq_neg_iff_add_eq_0 add.commute)
    with assms show False by simp
  qed
  then have "unat (1 + c) = Suc (unat c)"
    by (rule unatSuc)
  then show "unat (c + 1) = Suc (unat c)" and "c < c + 1"
    by (simp_all add: add.commute word_less_nat_alt)
qed

lemma key_write_grows:
  "emulated_ok b \<Longrightarrow> emulated_ok (rpmb_emulated_authentication_key_write b r)
    \<and> device_grows b (rpmb_emulated_authentication_key_write b r)"
  by (auto simp: rpmb_emulated_authentication_key_write_def emulated_ok_def device_grows_def frame_ok_def
      zero_frame_def split: option.splits)

lemma data_write_grows:
  assumes "emulated_ok b" and "frame_ok r" and "hash_sized sha"
  obtains b' where "rpmb_emulated_authenticated_data_write sha b r = Some b'" and "emulated_ok b'" and "device_grows b b'"
proof -
  obtain b' where w: "rpmb_emulated_authenticated_data_write sha b r = Some b'" "emulated_ok b'"
    and same: "rbe_key b' = rbe_key b" "rbe_key_programmed b' = rbe_key_programmed b" "rbe_buffer_size b' = rbe_buffer_size b"
    and c: "if rbe_key_programmed b \<and> check_write_request sha b r = RPMB_RES_OK
       then rbe_buffer b' = Some (splice (the (rbe_buffer b)) (frame_address r) (rf_data r))
         \<and> rbe_write_counter b' = rbe_write_counter b + 1
       else rbe_buffer b' = rbe_buffer b \<and> rbe_write_counter b' = rbe_write_counter b"
    using data_write_returns [OF assms] by blast
  have "rbe_write_counter b \<le> rbe_write_counter b'"
    using c counter_increment(1) [OF check_write_request_OK(4), of sha b r] less_imp_le
    by (cases "rbe_key_programmed b \<and> check_write_request sha b r = RPMB_RES_OK") auto
  with same have "device_grows b b'"
    by (simp add: device_grows_def)
  with w that show thesis by blast
qed

lemma read_counter_ok:
  "frame_ok r \<Longrightarrow> hash_sized sha \<Longrightarrow> frame_ok (rpmb_emulated_read_write_counter sha b r)"
  by (simp add: rpmb_emulated_read_write_counter_def frame_ok_def zero_frame_def Let_def calculate_mac_def)

definition call_ok :: "rpmb_data_frame list \<Rightarrow> nat \<Rightarrow> nat \<Rightarrow> nat \<Rightarrow> nat \<Rightarrow> bool" where
  "call_ok mem req n resp m \<longleftrightarrow>
     (\<forall>f \<in> set mem. frame_ok f) \<and> req + n \<le> length mem \<and> resp + m \<le> length mem"

definition call_result ::
  "rpmb_backend_emulated \<Rightarrow> rpmb_data_frame list \<Rightarrow> nat \<Rightarrow>
    (psa_status \<times> rpmb_data_frame list \<times> size_t \<times> rpmb_backend_emulated) option \<Rightarrow> bool" where
  "call_result b mem m res \<longleftrightarrow>
     (case res of None \<Rightarrow> False
      | Some (st, mem', k, b') \<Rightarrow>
          length mem' = length mem \<and> (\<forall>f \<in> set mem'. frame_ok f) \<and> k \<le> m \<and> emulated_ok b' \<and> device_grows b b')"

lemma call_result_step:
  "call_result b' mem' m res \<Longrightarrow> device_grows b b' \<Longrightarrow> length mem' = length mem \<Longrightarrow> call_result b mem m res"
  by (auto simp: call_result_def split: option.splits intro: device_grows_trans)

lemma data_request_loop_returns:
  assumes "emulated_ok b" and "call_ok mem req n resp m" and "ri \<le> m"
    and sha: "hash_sized sha"
  shows "call_result b mem m (data_request_loop sha b mem req n resp m ri)"
  using assms(1-3)
proof (induction n arbitrary: b mem req ri)
  case 0
  then show ?case by (simp add: call_result_def call_ok_def)
next
  case (Suc n)
  let ?r = "mem ! req"
  note b = \<open>emulated_ok b\<close>
  have mem: "\<forall>f \<in> set mem. frame_ok f" and req: "req < length mem" and room: "resp + m \<le> length mem"
    using Suc.prems(2) by (auto simp: call_ok_def)
  then have r: "frame_ok ?r" and g: "array_get mem (int req) = Some ?r"
    by (simp_all add: array_get_int)
  have stop: "call_result b mem m (Some (st, mem, m, b))" for st
    using mem b by (simp add: call_result_def)
  have go: "call_result b mem m (data_request_loop sha b' mem' (req + 1) n resp m ri')"
    if "emulated_ok b'" "device_grows b b'" "length mem' = length mem" "\<forall>f \<in> set mem'. frame_ok f" "ri' \<le> m" for b' mem' ri'
    using that Suc.prems(2) by (intro call_result_step [OF Suc.IH]) (auto simp: call_ok_def)
  have put: "call_result b mem m
      (Option.bind (mem_write mem (resp + ri) [f]) (\<lambda>mem1. data_request_loop sha b mem1 (req + 1) n resp m (ri + 1)))"
    if "ri < m" "frame_ok f" for f
    using that room go [OF b device_grows_refl length_list_update frames_ok_update [OF mem]]
    by (subst mem_write_one) simp_all
  consider (key) "u16_from_rpmb_field (rf_msg_type ?r) = RPMB_REQ_TYPE_AUTHENTICATION_KEY_WRITE"
    | (counter) "u16_from_rpmb_field (rf_msg_type ?r) = RPMB_REQ_TYPE_READ_WRITE_COUNTER"
    | (wr) "u16_from_rpmb_field (rf_msg_type ?r) = RPMB_REQ_TYPE_AUTHENTICATED_DATA_WRITE"
    | (rd) "u16_from_rpmb_field (rf_msg_type ?r) = RPMB_REQ_TYPE_AUTHENTICATED_DATA_READ"
    | (res) "u16_from_rpmb_field (rf_msg_type ?r) = RPMB_REQ_TYPE_RESULT_READ_REQUEST"
    | (other) "u16_from_rpmb_field (rf_msg_type ?r) \<notin> {1, 2, 3, 4, 5}"
    by fastforce
  then show ?case
  proof cases
    case key
    then show ?thesis
      using go [OF conjunct1 [OF key_write_grows [OF b]] conjunct2 [OF key_write_grows [OF b]] refl mem Suc.prems(3)]
      by (simp add: g)
  next
    case counter
    then show ?thesis
      using put [OF _ read_counter_ok [OF r sha]] stop by (simp add: g)
  next
    case wr
    obtain b' where "rpmb_emulated_authenticated_data_write sha b ?r = Some b'" "emulated_ok b'" "device_grows b b'"
      using data_write_grows [OF b r sha] .
    then show ?thesis
      using wr go [OF _ _ refl mem Suc.prems(3), of b'] by (simp add: g)
  next
    case rd
    show ?thesis
    proof (cases "ri < m")
      case True
      then have "0 < m - ri" and "resp + ri + (m - ri) \<le> length mem"
        using room by simp_all
      then obtain st mem' k where d: "rpmb_emulated_authenticated_data_read sha b mem req (resp + ri) (m - ri) = Some (st, mem', k)"
        "length mem' = length mem" "\<forall>f \<in> set mem'. frame_ok f" "k \<le> m - ri"
        using data_read_returns [OF b mem req _ _ sha, of "m - ri" "resp + ri"] by blast
      moreover have "call_result b mem m (Some (st, mem', m, b))"
        using d(2,3) b by (simp add: call_result_def)
      moreover have "call_result b mem m (data_request_loop sha b mem' (req + 1) n resp m (ri + k))"
        using d True by (intro go b) simp_all
      ultimately show ?thesis
        using rd True by (simp add: g)
    next
      case False
      with rd stop show ?thesis by (simp add: g)
    qed
  next
    case res
    have "frame_ok (rbe_result b)"
      using b by (simp add: emulated_ok_def)
    then show ?thesis
      using res put stop by (simp add: g)
  next
    case other
    with stop show ?thesis by (simp add: g Let_def)
  qed
qed

lemma data_request_returns:
  assumes "emulated_ok b" and "call_ok mem req n resp m" and "hash_sized sha"
  shows "call_result b mem m (rpmb_backend_emulated_data_request sha b dev_id mem req n resp m)"
  using data_request_loop_returns [OF assms(1,2) _ assms(3), of 0] assms(1,2)
  by (simp add: rpmb_backend_emulated_data_request_def call_result_def call_ok_def)


text \<open>The states a device can get to from \<open>b\<close> by any sequence of calls on frames, from any
  client, with any device number and any overlap of requests and responses.\<close>

inductive device_history :: "(bytes \<Rightarrow> bytes) \<Rightarrow> rpmb_backend_emulated \<Rightarrow> rpmb_backend_emulated \<Rightarrow> bool"
  for sha :: "bytes \<Rightarrow> bytes" and b :: rpmb_backend_emulated where
  now: "device_history sha b b"
| call: "device_history sha b b1 \<Longrightarrow> call_ok mem req n resp m \<Longrightarrow>
    rpmb_backend_emulated_data_request sha b1 dev_id mem req n resp m = Some (st, mem', k, b2) \<Longrightarrow>
    device_history sha b b2"

inductive_cases device_historyE: "device_history sha b b'"

lemma device_history_invariant:
  assumes "device_history sha b b'" and "emulated_ok b" and "hash_sized sha"
  shows "emulated_ok b' \<and> device_grows b b'"
  using assms(1)
proof (induction rule: device_history.induct)
  case now
  then show ?case using assms(2) by simp
next
  case (call b1 mem req n resp m dev_id st mem' k b2)
  then have "call_result b1 mem m (rpmb_backend_emulated_data_request sha b1 dev_id mem req n resp m)"
    using assms(3) by (intro data_request_returns) simp_all
  with call show ?case
    by (auto simp: call_result_def intro: device_grows_trans)
qed

text \<open>
  Property C16. From initialisation on, and whatever frames clients send, every call of the emulated
  device returns a status without touching memory outside the request, the response and its own
  buffer; its write counter never decreases and a key, once programmed, never changes.
\<close>

theorem rpmb_device_safe:
  assumes "rpmb_backend_emulated_init alloc_ok (Some b0) size_mult = (True, Some b1)" and "frame_ok (rbe_result b0)"
    and "hash_sized sha" and "device_history sha b1 b" and "call_ok mem req n resp m"
  shows "\<exists>st mem' k b'. rpmb_backend_emulated_data_request sha b dev_id mem req n resp m = Some (st, mem', k, b')
    \<and> length mem' = length mem \<and> k \<le> m
    \<and> rbe_write_counter b \<le> rbe_write_counter b'
    \<and> (rbe_key_programmed b \<longrightarrow> rbe_key_programmed b' \<and> rbe_key b' = rbe_key b)"
proof -
  have "emulated_ok b1"
    using assms(1,2) by (rule emulated_init_ok)
  then have "emulated_ok b"
    using device_history_invariant [OF assms(4)] assms(3) by blast
  then have "call_result b mem m (rpmb_backend_emulated_data_request sha b dev_id mem req n resp m)"
    using assms(5,3) by (rule data_request_returns)
  then show ?thesis
    by (auto simp: call_result_def device_grows_def split: option.splits)
qed

definition sample_sha :: "bytes \<Rightarrow> bytes" where
  "sample_sha x = take RPMB_KEY_MAC_SIZE (rev x @ replicate RPMB_KEY_MAC_SIZE 0)"

lemma sample_sha_sized: "hash_sized sample_sha"
  by (auto simp: hash_sized_def sample_sha_def min_def)

definition blank_device :: rpmb_backend_emulated where
  "blank_device = \<lparr>rbe_buffer = None, rbe_buffer_size = 0, rbe_key = replicate RPMB_KEY_MAC_SIZE 0,
     rbe_key_programmed = False, rbe_write_counter = 0, rbe_result = zero_frame\<rparr>"

definition sample_device :: rpmb_backend_emulated where
  "sample_device = blank_device\<lparr>rbe_buffer := Some (replicate RPMB_SIZE_MULT_UNIT 0), rbe_buffer_size := RPMB_SIZE_MULT_UNIT\<rparr>"

lemma sample_device_init: "rpmb_backend_emulated_init (\<lambda>_. True) (Some blank_device) 1 = (True, Some sample_device)"
  by (simp add: rpmb_backend_emulated_init_def sample_device_def Let_def)

lemma sample_device_ok: "emulated_ok sample_device"
  by (rule emulated_init_ok [OF sample_device_init]) (simp add: blank_device_def)

theorem rpmb_device_safe_witness:
  "\<exists>st mem' k b'. rpmb_backend_emulated_data_request sample_sha sample_device 0 [zero_frame, zero_frame] 0 2 1 1
      = Some (st, mem', k, b') \<and> length mem' = 2 \<and> k \<le> 1"
  using rpmb_device_safe [OF sample_device_init _ sample_sha_sized device_history.now,
      of "[zero_frame, zero_frame]" 0 2 1 1 0]
  by (auto simp: blank_device_def call_ok_def)

text \<open>
  Property C4. Replay protection: a write frame the device has accepted is refused in every state the
  device can get to afterwards, so the buffer and the counter stay as they are.
\<close>

theorem rpmb_write_no_replay:
  assumes "emulated_ok b" and "hash_sized sha" and "frame_ok r" and "rbe_key_programmed b"
    and "check_write_request sha b r = RPMB_RES_OK"
    and "rpmb_emulated_authenticated_data_write sha b r = Some b1" and "device_history sha b1 b2"
  shows "\<exists>b3. rpmb_emulated_authenticated_data_write sha b2 r = Some b3 \<and> rbe_buffer b3 = rbe_buffer b2
    \<and> rbe_write_counter b3 = rbe_write_counter b2 \<and> check_write_request sha b2 r \<noteq> RPMB_RES_OK"
proof -
  obtain b1' where w: "rpmb_emulated_authenticated_data_write sha b r = Some b1'" "emulated_ok b1'"
    "rbe_write_counter b1' = rbe_write_counter b + 1"
    using data_write_returns [OF assms(1,3,2)] assms(4,5) by auto
  then have h: "emulated_ok b2" "device_grows b1 b2"
    using device_history_invariant [OF assms(7)] assms(2,6) by auto
  have "rbe_write_counter b < rbe_write_counter b1"
    using w assms(6) counter_increment(1) [OF check_write_request_OK(4) [OF assms(5)]] by simp
  with h(2) have "rbe_write_counter b2 \<noteq> u32_from_rpmb_field (rf_write_counter r)"
    using check_write_request_OK(2) [OF assms(5)] by (auto simp: device_grows_def)
  then have "check_write_request sha b2 r \<noteq> RPMB_RES_OK"
    using check_write_request_OK(2) by blast
  with data_write_returns [OF h(1) assms(3,2)] show ?thesis
    by auto
qed


text \<open>A correctly signed write of one block.\<close>

definition write_frame :: "(bytes \<Rightarrow> bytes) \<Rightarrow> bytes \<Rightarrow> u32 \<Rightarrow> u16 \<Rightarrow> bytes \<Rightarrow> rpmb_data_frame" where
  "write_frame sha key counter address d =
     (let f = zero_frame\<lparr>rf_data := d, rf_write_counter := u32_to_rpmb_field counter,
                         rf_address := u16_to_rpmb_field address, rf_block_count := u16_to_rpmb_field 1,
                         rf_msg_type := u16_to_rpmb_field RPMB_REQ_TYPE_AUTHENTICATED_DATA_WRITE\<rparr>
      in f\<lparr>rf_key_mac := frames_mac sha key [f]\<rparr>)"

lemma frames_mac_own [simp]: "frames_mac sha key [f\<lparr>rf_key_mac := m\<rparr>] = frames_mac sha key [f]"
  by (simp add: frames_mac_def frame_tail_def)

lemma write_frame_ok: "hash_sized sha \<Longrightarrow> length d = RPMB_DATA_SIZE \<Longrightarrow> frame_ok (write_frame sha key c a d)"
  by (simp add: write_frame_def frame_ok_def zero_frame_def Let_def)

lemma write_frame_fields [simp]:
  "rf_data (write_frame sha key c a d) = d" "frame_address (write_frame sha key c a d) = unat a * RPMB_DATA_SIZE"
  "rf_address (write_frame sha key c a d) = u16_to_rpmb_field a"
  "u16_from_rpmb_field (rf_msg_type (write_frame sha key c a d)) = RPMB_REQ_TYPE_AUTHENTICATED_DATA_WRITE"
  by (simp_all add: write_frame_def frame_address_def Let_def)

lemma write_frame_accepted:
  assumes "rbe_write_counter b \<noteq> 0xffffffff" and "unat a * RPMB_DATA_SIZE < rbe_buffer_size b"
  shows "check_write_request sha b (write_frame sha (rbe_key b) (rbe_write_counter b) a d) = RPMB_RES_OK"
  using assms by (simp add: check_write_request_def rpmb_address_exact write_frame_def calculate_mac_def Let_def)

definition keyed_device :: rpmb_backend_emulated where
  "keyed_device = sample_device\<lparr>rbe_key_programmed := True\<rparr>"

lemma keyed_device_ok: "emulated_ok keyed_device"
  using sample_device_ok by (simp add: emulated_ok_def keyed_device_def split: option.splits)

lemma keyed_device_fields [simp]:
  "rbe_key_programmed keyed_device" "rbe_write_counter keyed_device = 0"
  "rbe_key keyed_device = replicate RPMB_KEY_MAC_SIZE 0" "rbe_buffer_size keyed_device = RPMB_SIZE_MULT_UNIT"
  "rbe_buffer keyed_device = Some (replicate RPMB_SIZE_MULT_UNIT 0)"
  by (simp_all add: keyed_device_def sample_device_def blank_device_def)

definition sample_write :: rpmb_data_frame where
  "sample_write = write_frame sample_sha (replicate RPMB_KEY_MAC_SIZE 0) 0 3 (replicate RPMB_DATA_SIZE 7)"

lemma sample_write_ok: "frame_ok sample_write"
  unfolding sample_write_def by (rule write_frame_ok [OF sample_sha_sized]) simp

lemma sample_write_accepted: "check_write_request sample_sha keyed_device sample_write = RPMB_RES_OK"
  unfolding sample_write_def using write_frame_accepted [of keyed_device 3] by simp

theorem rpmb_write_no_replay_witness:
  "\<exists>b1 b3. rpmb_emulated_authenticated_data_write sample_sha keyed_device sample_write = Some b1
    \<and> rbe_write_counter b1 = 1
    \<and> rpmb_emulated_authenticated_data_write sample_sha b1 sample_write = Some b3 \<and> rbe_buffer b3 = rbe_buffer b1"
proof -
  obtain b1 where "rpmb_emulated_authenticated_data_write sample_sha keyed_device sample_write = Some b1"
    and "rbe_write_counter b1 = 1"
    using data_write_returns [OF keyed_device_ok sample_write_ok sample_sha_sized] sample_write_accepted by auto
  then show ?thesis
    using rpmb_write_no_replay [OF keyed_device_ok sample_sha_sized sample_write_ok _ sample_write_accepted _ device_history.now]
    by auto
qed

end
