(* ===== verification/RpmbFrontend.thy ===== *)
theory RpmbFrontend
  imports Rpmb
begin

text \<open>
  The RPMB frontend (\<open>rpmb_frontend.c\<close>) and its default platform
  (\<open>rpmb_platform_default.c\<close>).

  The platform and the backend are records of operations with a state of their own, which the
  frontend holds by reference. The PSA hash and random number functions the default platform
  calls are the members of \<open>psa_crypto_api\<close>. A backend is not trusted: it may answer
  with any frames. The build option \<open>RPMB_WRITE_KEY\<close> is the parameter \<open>write_key_option\<close>.
\<close>

section \<open>Platform\<close>

text \<open>The bytes of a result are the contents of the output buffer after the call. The key buffer is
  a member of the frontend and is passed with its contents; nonce and MAC buffers are locals that
  are read only after a call that succeeded, so their length is enough.\<close>

record 'p rpmb_platform_interface =
  rpi_derive_key :: "'p \<Rightarrow> bytes \<Rightarrow> bytes \<Rightarrow> psa_status \<times> bytes \<times> 'p"
  rpi_get_nonce :: "'p \<Rightarrow> size_t \<Rightarrow> psa_status \<times> bytes \<times> 'p"
  rpi_calculate_mac :: "'p \<Rightarrow> bytes \<Rightarrow> rpmb_data_frame list \<Rightarrow> size_t \<Rightarrow> psa_status \<times> bytes \<times> 'p"

record 'c psa_crypto_api =
  psa_hash_setup :: "'c \<Rightarrow> psa_status \<times> 'c"
  psa_hash_update :: "'c \<Rightarrow> bytes \<Rightarrow> psa_status \<times> 'c"
  psa_hash_finish :: "'c \<Rightarrow> size_t \<Rightarrow> psa_status \<times> bytes \<times> size_t \<times> 'c"
  psa_generate_random :: "'c \<Rightarrow> size_t \<Rightarrow> psa_status \<times> bytes \<times> 'c"

definition dummy_huk :: bytes where
  "dummy_huk =
     [0x32, 0x2b, 0x78, 0x27, 0xa3, 0x08, 0xcb, 0x5e, 0xb4, 0x12, 0x0b, 0xab, 0x96, 0xd4, 0x3d, 0x4e,
      0x7b, 0xc4, 0x46, 0x46, 0xad, 0x93, 0xe9, 0x03, 0x28, 0x47, 0xe8, 0xb6, 0x2c, 0xec, 0x5f, 0x14]"

text \<open>The updates of a hash operation one after the other; the first that fails ends it.\<close>

fun hash_updates :: "'c psa_crypto_api \<Rightarrow> 'c \<Rightarrow> bytes list \<Rightarrow> psa_status \<times> 'c" where
  "hash_updates api c [] = (PSA_SUCCESS, c)"
| "hash_updates api c (d # ds) =
     (let (status, c1) = psa_hash_update api c d
      in if status \<noteq> PSA_SUCCESS then (status, c1) else hash_updates api c1 ds)"

definition hash_pieces :: "'c psa_crypto_api \<Rightarrow> 'c \<Rightarrow> bytes list \<Rightarrow> bytes \<Rightarrow> psa_status \<times> bytes \<times> 'c" where
  "hash_pieces api c pieces old =
     (let (status, c1) = psa_hash_setup api c
      in if status \<noteq> PSA_SUCCESS then (status, old, c1)
         else
           (let (status, c2) = hash_updates api c1 pieces
            in if status \<noteq> PSA_SUCCESS then (status, old, c2)
               else
                 (let (status, out, hash_length, c3) = psa_hash_finish api c2 (length old)
                  in if status \<noteq> PSA_SUCCESS then (status, out, c3)
                     else if hash_length \<noteq> length old then (PSA_ERROR_INVALID_SIGNATURE, out, c3)
                     else (PSA_SUCCESS, out, c3))))"

definition rpmb_platform_derive_key ::
  "'c psa_crypto_api \<Rightarrow> 'c \<Rightarrow> bytes \<Rightarrow> bytes \<Rightarrow> psa_status \<times> bytes \<times> 'c" where
  "rpmb_platform_derive_key api c d key = hash_pieces api c [dummy_huk, d] key"

definition rpmb_platform_get_nonce :: "'c psa_crypto_api \<Rightarrow> 'c \<Rightarrow> size_t \<Rightarrow> psa_status \<times> bytes \<times> 'c" where
  "rpmb_platform_get_nonce api c nonce_length = psa_generate_random api c nonce_length"

definition rpmb_platform_calculate_mac ::
  "'c psa_crypto_api \<Rightarrow> 'c \<Rightarrow> bytes \<Rightarrow> rpmb_data_frame list \<Rightarrow> size_t \<Rightarrow> psa_status \<times> bytes \<times> 'c" where
  "rpmb_platform_calculate_mac api c key frames mac_length =
     hash_pieces api c (key # map frame_tail frames) (replicate mac_length 0)"

definition rpmb_platform_default_interface :: "'c psa_crypto_api \<Rightarrow> 'c rpmb_platform_interface" where
  "rpmb_platform_default_interface api =
     \<lparr>rpi_derive_key = rpmb_platform_derive_key api, rpi_get_nonce = rpmb_platform_get_nonce api,
      rpi_calculate_mac = rpmb_platform_calculate_mac api\<rparr>"


section \<open>Frontend\<close>

record ('p, 'b) rpmb_frontend =
  rfe_platform :: "'p option"
  rfe_backend :: "'b option"
  rfe_dev_id :: u32
  rfe_initialized :: bool
  rfe_block_count :: size_t
  rfe_key :: bytes
  rfe_write_counter :: u32

definition zero_frontend :: "('p, 'b) rpmb_frontend" where
  "zero_frontend =
     \<lparr>rfe_platform = None, rfe_backend = None, rfe_dev_id = 0, rfe_initialized = False, rfe_block_count = 0,
      rfe_key = replicate RPMB_KEY_MAC_SIZE 0, rfe_write_counter = 0\<rparr>"

definition rpmb_derive_key ::
  "'p rpmb_platform_interface \<Rightarrow> ('p, 'b) rpmb_frontend \<Rightarrow> bytes \<Rightarrow> bytes \<Rightarrow>
    (psa_status \<times> bytes \<times> ('p, 'b) rpmb_frontend) option" where
  "rpmb_derive_key pif f d key0 =
     do {
       p \<leftarrow> rfe_platform f;
       let (status, key, p1) = rpi_derive_key pif p d key0;
       Some (status, key, f\<lparr>rfe_platform := Some p1\<rparr>)
     }"

definition rpmb_get_nonce ::
  "'p rpmb_platform_interface \<Rightarrow> ('p, 'b) rpmb_frontend \<Rightarrow>
    (psa_status \<times> bytes \<times> ('p, 'b) rpmb_frontend) option" where
  "rpmb_get_nonce pif f =
     do {
       p \<leftarrow> rfe_platform f;
       let (status, nonce, p1) = rpi_get_nonce pif p RPMB_NONCE_SIZE;
       Some (status, nonce, f\<lparr>rfe_platform := Some p1\<rparr>)
     }"

definition rpmb_calculate_mac ::
  "'p rpmb_platform_interface \<Rightarrow> ('p, 'b) rpmb_frontend \<Rightarrow> rpmb_data_frame list \<Rightarrow>
    (psa_status \<times> bytes \<times> ('p, 'b) rpmb_frontend) option" where
  "rpmb_calculate_mac pif f frames =
     do {
       p \<leftarrow> rfe_platform f;
       let (status, mac, p1) = rpi_calculate_mac pif p (rfe_key f) frames RPMB_KEY_MAC_SIZE;
       Some (status, mac, f\<lparr>rfe_platform := Some p1\<rparr>)
     }"

text \<open>The call of the backend the frontend refers to; the request starts the frame memory, which
  takes the response too.\<close>

definition frontend_request ::
  "'b rpmb_backend_interface \<Rightarrow> ('p, 'b) rpmb_frontend \<Rightarrow> rpmb_data_frame list \<Rightarrow> size_t \<Rightarrow> size_t \<Rightarrow>
    (psa_status \<times> rpmb_data_frame list \<times> size_t \<times> ('p, 'b) rpmb_frontend) option" where
  "frontend_request bif f mem n m =
     do {
       b \<leftarrow> rfe_backend f;
       (status, mem1, k, b1) \<leftarrow> rpmb_backend_data_request bif b (rfe_dev_id f) mem 0 n 0 m;
       Some (status, mem1, k, f\<lparr>rfe_backend := Some b1\<rparr>)
     }"

definition rpmb_read_write_counter ::
  "'p rpmb_platform_interface \<Rightarrow> 'b rpmb_backend_interface \<Rightarrow> ('p, 'b) rpmb_frontend \<Rightarrow>
    (psa_status \<times> ('p, 'b) rpmb_frontend) option" where
  "rpmb_read_write_counter pif bif f =
     do {
       (status, nonce, f1) \<leftarrow> rpmb_get_nonce pif f;
       if status \<noteq> PSA_SUCCESS then Some (status, f1)
       else do {
         (status, mem, k, f2) \<leftarrow> frontend_request bif f1
            [zero_frame\<lparr>rf_nonce := nonce, rf_msg_type := u16_to_rpmb_field RPMB_REQ_TYPE_READ_WRITE_COUNTER\<rparr>] 1 1;
         if status \<noteq> PSA_SUCCESS then Some (status, f2)
         else do {
           frame \<leftarrow> array_get mem 0;
           if u16_from_rpmb_field (rf_op_result frame) \<noteq> RPMB_RES_OK then Some (PSA_ERROR_STORAGE_FAILURE, f2)
           else if u16_from_rpmb_field (rf_msg_type frame) \<noteq> RPMB_RESP_TYPE_READ_WRITE_COUNTER
           then Some (PSA_ERROR_STORAGE_FAILURE, f2)
           else if rf_nonce frame \<noteq> nonce then Some (PSA_ERROR_STORAGE_FAILURE, f2)
           else do {
             (status, mac, f3) \<leftarrow> rpmb_calculate_mac pif f2 [frame];
             if status \<noteq> PSA_SUCCESS then Some (status, f3)
             else if rf_key_mac frame \<noteq> mac then Some (PSA_ERROR_STORAGE_FAILURE, f3)
             else Some (PSA_SUCCESS, f3\<lparr>rfe_write_counter := u32_from_rpmb_field (rf_write_counter frame)\<rparr>)
           }
         }
       }
     }"

definition rpmb_is_key_set ::
  "'p rpmb_platform_interface \<Rightarrow> 'b rpmb_backend_interface \<Rightarrow> ('p, 'b) rpmb_frontend \<Rightarrow>
    (bool \<times> ('p, 'b) rpmb_frontend) option" where
  "rpmb_is_key_set pif bif f =
     do { (status, f1) \<leftarrow> rpmb_read_write_counter pif bif f; Some (status = PSA_SUCCESS, f1) }"

definition rpmb_write_key ::
  "'b rpmb_backend_interface \<Rightarrow> ('p, 'b) rpmb_frontend \<Rightarrow> (psa_status \<times> ('p, 'b) rpmb_frontend) option" where
  "rpmb_write_key bif f =
     do {
       (status, mem, k, f1) \<leftarrow> frontend_request bif f
          [zero_frame\<lparr>rf_key_mac := rfe_key f, rf_msg_type := u16_to_rpmb_field RPMB_REQ_TYPE_AUTHENTICATION_KEY_WRITE\<rparr>,
           zero_frame\<lparr>rf_msg_type := u16_to_rpmb_field RPMB_REQ_TYPE_RESULT_READ_REQUEST\<rparr>] 2 1;
       if status \<noteq> PSA_SUCCESS then Some (status, f1)
       else if k \<noteq> 1 then Some (PSA_ERROR_INSUFFICIENT_DATA, f1)
       else do {
         frame \<leftarrow> array_get mem 0;
         if u16_from_rpmb_field (rf_op_result frame) \<noteq> RPMB_RES_OK
            \<or> u16_from_rpmb_field (rf_msg_type frame) \<noteq> RPMB_RESP_TYPE_AUTHENTICATION_KEY_WRITE
         then Some (PSA_ERROR_STORAGE_FAILURE, f1)
         else Some (PSA_SUCCESS, f1)
       }
     }"

definition rpmb_frontend_create ::
  "('p, 'b) rpmb_frontend option \<Rightarrow> 'p option \<Rightarrow> 'b option \<Rightarrow> u32 \<Rightarrow>
    psa_status \<times> ('p, 'b) rpmb_frontend option" where
  "rpmb_frontend_create context platform backend dev_id =
     (if context = None \<or> platform = None \<or> backend = None then (PSA_ERROR_INVALID_ARGUMENT, context)
      else (PSA_SUCCESS, Some (zero_frontend\<lparr>rfe_platform := platform, rfe_backend := backend, rfe_dev_id := dev_id\<rparr>)))"

abbreviation RPMB_CID_PRODUCT_REVISION :: nat where "RPMB_CID_PRODUCT_REVISION \<equiv> 9"
abbreviation RPMB_FRAME_SIZE :: nat where "RPMB_FRAME_SIZE \<equiv> 512"
abbreviation RPMB_CID_CRC7 :: nat where "RPMB_CID_CRC7 \<equiv> 15"

definition rpmb_frontend_init ::
  "bool \<Rightarrow> 'p rpmb_platform_interface \<Rightarrow> 'b rpmb_backend_interface \<Rightarrow> ('p, 'b) rpmb_frontend \<Rightarrow>
    (psa_status \<times> ('p, 'b) rpmb_frontend) option" where
  "rpmb_frontend_init write_key_option pif bif f =
     do {
       b \<leftarrow> rfe_backend f;
       (status, dev_info, b1) \<leftarrow> rpmb_backend_get_dev_info bif b (rfe_dev_id f);
       let f1 = f\<lparr>rfe_backend := Some b1\<rparr>;
       if status \<noteq> PSA_SUCCESS then Some (status, f1)
       else if rdi_rpmb_size_mult dev_info = 0 then Some (PSA_ERROR_INVALID_ARGUMENT, f1)
       else
         (let (overflow, block_count) =
                MUL_OVERFLOW (unat (rdi_rpmb_size_mult dev_info)) (RPMB_SIZE_MULT_UNIT div RPMB_DATA_SIZE);
              f2 = f1\<lparr>rfe_block_count := block_count\<rparr>
          in if overflow then Some (PSA_ERROR_INVALID_ARGUMENT, f2)
             else do {
               let cid = (rdi_cid dev_info)[RPMB_CID_PRODUCT_REVISION := 0, RPMB_CID_CRC7 := 0];
               (status, key, f3) \<leftarrow> rpmb_derive_key pif f2 cid (rfe_key f2);
               let f4 = f3\<lparr>rfe_key := key\<rparr>;
               if status \<noteq> PSA_SUCCESS then Some (status, f4)
               else do {
                 (status, f5) \<leftarrow>
                   (if write_key_option
                    then do {
                      (key_set, f5) \<leftarrow> rpmb_is_key_set pif bif f4;
                      if \<not> key_set then rpmb_write_key bif f5 else Some (PSA_SUCCESS, f5)
                    }
                    else Some (PSA_SUCCESS, f4));
                 if status \<noteq> PSA_SUCCESS then Some (status, f5)
                 else do {
                   (status, f6) \<leftarrow> rpmb_read_write_counter pif bif f5;
                   if status \<noteq> PSA_SUCCESS then Some (status, f6)
                   else Some (PSA_SUCCESS, f6\<lparr>rfe_initialized := True\<rparr>)
                 }
               }
             })
     }"

definition rpmb_frontend_destroy :: "('p, 'b) rpmb_frontend \<Rightarrow> ('p, 'b) rpmb_frontend" where
  "rpmb_frontend_destroy f = zero_frontend"

definition rpmb_frontend_block_size :: "('p, 'b) rpmb_frontend \<Rightarrow> psa_status \<times> size_t" where
  "rpmb_frontend_block_size f = (PSA_SUCCESS, RPMB_DATA_SIZE)"

definition rpmb_frontend_block_count :: "('p, 'b) rpmb_frontend \<Rightarrow> psa_status \<times> size_t option" where
  "rpmb_frontend_block_count f =
     (if \<not> rfe_initialized f then (PSA_ERROR_BAD_STATE, None) else (PSA_SUCCESS, Some (rfe_block_count f)))"


text \<open>Both loops count with a \<open>uint16_t\<close>, which wraps, against a \<open>size_t\<close> number of blocks.\<close>

partial_function (option) rpmb_write_loop ::
  "'p rpmb_platform_interface \<Rightarrow> 'b rpmb_backend_interface \<Rightarrow> ('p, 'b) rpmb_frontend \<Rightarrow> u16 \<Rightarrow> bytes \<Rightarrow>
    size_t \<Rightarrow> u16 \<Rightarrow> (psa_status \<times> ('p, 'b) rpmb_frontend) option" where
  "rpmb_write_loop pif bif f block_index d block_count i =
     (if unat i < block_count
      then do {
        block \<leftarrow> mem_read d (unat i * RPMB_DATA_SIZE) RPMB_DATA_SIZE;
        let packet = zero_frame\<lparr>rf_data := block, rf_write_counter := u32_to_rpmb_field (rfe_write_counter f),
              rf_address := u16_to_rpmb_field (block_index + i), rf_block_count := u16_to_rpmb_field 1,
              rf_msg_type := u16_to_rpmb_field RPMB_REQ_TYPE_AUTHENTICATED_DATA_WRITE\<rparr>;
        (status, mac, f1) \<leftarrow> rpmb_calculate_mac pif f [packet];
        if status \<noteq> PSA_SUCCESS then Some (status, f1)
        else do {
          (status, mem, k, f2) \<leftarrow> frontend_request bif f1
             [packet\<lparr>rf_key_mac := mac\<rparr>,
              zero_frame\<lparr>rf_msg_type := u16_to_rpmb_field RPMB_REQ_TYPE_RESULT_READ_REQUEST\<rparr>] 2 1;
          if status \<noteq> PSA_SUCCESS then Some (status, f2)
          else if k \<noteq> 1 then Some (PSA_ERROR_INSUFFICIENT_DATA, f2)
          else do {
            response \<leftarrow> array_get mem 0;
            (status, mac, f3) \<leftarrow> rpmb_calculate_mac pif f2 [response];
            if status \<noteq> PSA_SUCCESS then Some (status, f3)
            else if rf_key_mac response \<noteq> mac then Some (PSA_ERROR_INVALID_SIGNATURE, f3)
            else if u32_from_rpmb_field (rf_write_counter response) \<noteq> rfe_write_counter f3 + 1
            then Some (PSA_ERROR_INVALID_ARGUMENT, f3)
            else if unat (u16_from_rpmb_field (rf_address response)) \<noteq> unat block_index + unat i
            then Some (PSA_ERROR_INVALID_ARGUMENT, f3)
            else if u16_from_rpmb_field (rf_op_result response) \<noteq> RPMB_RES_OK
            then Some (PSA_ERROR_INVALID_ARGUMENT, f3)
            else if u16_from_rpmb_field (rf_msg_type response) \<noteq> RPMB_RESP_TYPE_AUTHENTICATED_DATA_WRITE
            then Some (PSA_ERROR_INVALID_ARGUMENT, f3)
            else rpmb_write_loop pif bif
                   (f3\<lparr>rfe_write_counter := u32_from_rpmb_field (rf_write_counter response)\<rparr>)
                   block_index d block_count (i + 1)
          }
        }
      }
      else Some (PSA_SUCCESS, f))"

text \<open>The range check shared by reading and writing.\<close>

definition block_range_ok :: "('p, 'b) rpmb_frontend \<Rightarrow> u16 \<Rightarrow> size_t \<Rightarrow> bool" where
  "block_range_ok f block_index block_count =
     (let (overflow, last_block) = ADD_OVERFLOW (unat block_index) block_count
      in unat block_index < rfe_block_count f \<and> \<not> overflow \<and> last_block \<le> rfe_block_count f)"

definition rpmb_frontend_write ::
  "'p rpmb_platform_interface \<Rightarrow> 'b rpmb_backend_interface \<Rightarrow> ('p, 'b) rpmb_frontend option \<Rightarrow> u16 \<Rightarrow> bytes \<Rightarrow>
    size_t \<Rightarrow> (psa_status \<times> ('p, 'b) rpmb_frontend option) option" where
  "rpmb_frontend_write pif bif context block_index d block_count =
     (case context of
        None \<Rightarrow> Some (PSA_ERROR_INVALID_ARGUMENT, None)
      | Some f \<Rightarrow>
          if \<not> rfe_initialized f then Some (PSA_ERROR_BAD_STATE, Some f)
          else if \<not> block_range_ok f block_index block_count then Some (PSA_ERROR_INVALID_ARGUMENT, Some f)
          else if block_count = 0 then Some (PSA_SUCCESS, Some f)
          else do {
            (status, f1) \<leftarrow> rpmb_write_loop pif bif f block_index d block_count 0;
            Some (status, Some f1)
          })"

partial_function (option) rpmb_read_loop ::
  "rpmb_data_frame list \<Rightarrow> bytes \<Rightarrow> u16 \<Rightarrow> size_t \<Rightarrow> bytes \<Rightarrow> u16 \<Rightarrow> (psa_status \<times> bytes) option" where
  "rpmb_read_loop frames nonce block_index block_count d i =
     (if unat i < block_count
      then do {
        frame \<leftarrow> array_get frames (int (unat i));
        if rf_nonce frame \<noteq> nonce then Some (PSA_ERROR_INVALID_SIGNATURE, d)
        else if u16_from_rpmb_field (rf_address frame) \<noteq> block_index
          \<or> unat (u16_from_rpmb_field (rf_block_count frame)) \<noteq> block_count
          \<or> u16_from_rpmb_field (rf_op_result frame) \<noteq> RPMB_RES_OK
          \<or> u16_from_rpmb_field (rf_msg_type frame) \<noteq> RPMB_RESP_TYPE_AUTHENTICATED_DATA_READ
        then Some (PSA_ERROR_INVALID_ARGUMENT, d)
        else do {
          d1 \<leftarrow> mem_write d (unat i * RPMB_DATA_SIZE) (rf_data frame);
          rpmb_read_loop frames nonce block_index block_count d1 (i + 1)
        }
      }
      else Some (PSA_SUCCESS, d))"

definition rpmb_frontend_read ::
  "(size_t \<Rightarrow> bool) \<Rightarrow> 'p rpmb_platform_interface \<Rightarrow> 'b rpmb_backend_interface \<Rightarrow> ('p, 'b) rpmb_frontend option \<Rightarrow>
    u16 \<Rightarrow> bytes \<Rightarrow> size_t \<Rightarrow> (psa_status \<times> bytes \<times> ('p, 'b) rpmb_frontend option) option" where
  "rpmb_frontend_read alloc_ok pif bif context block_index d block_count =
     (case context of
        None \<Rightarrow> Some (PSA_ERROR_INVALID_ARGUMENT, d, None)
      | Some f \<Rightarrow>
          if \<not> rfe_initialized f then Some (PSA_ERROR_BAD_STATE, d, Some f)
          else if \<not> block_range_ok f block_index block_count then Some (PSA_ERROR_INVALID_ARGUMENT, d, Some f)
          else if block_count = 0 then Some (PSA_SUCCESS, d, Some f)
          else if \<not> alloc_ok (block_count * RPMB_FRAME_SIZE) then Some (PSA_ERROR_INSUFFICIENT_MEMORY, d, Some f)
          else do {
            (status, nonce, f1) \<leftarrow> rpmb_get_nonce pif f;
            if status \<noteq> PSA_SUCCESS then Some (status, d, Some f1)
            else do {
              let request = zero_frame\<lparr>rf_nonce := nonce, rf_address := u16_to_rpmb_field block_index,
                    rf_block_count := u16_to_rpmb_field (word_of_nat block_count),
                    rf_msg_type := u16_to_rpmb_field RPMB_REQ_TYPE_AUTHENTICATED_DATA_READ\<rparr>;
              (status, frames, k, f2) \<leftarrow>
                frontend_request bif f1 (request # replicate (block_count - 1) zero_frame) 1 block_count;
              if status \<noteq> PSA_SUCCESS then Some (status, d, Some f2)
              else if k \<noteq> block_count then Some (PSA_ERROR_INSUFFICIENT_DATA, d, Some f2)
              else do {
                covered \<leftarrow> mem_read frames 0 block_count;
                (status, mac, f3) \<leftarrow> rpmb_calculate_mac pif f2 covered;
                if status \<noteq> PSA_SUCCESS then Some (status, d, Some f3)
                else do {
                  final \<leftarrow> array_get frames (int (block_count - 1));
                  if mac \<noteq> rf_key_mac final then Some (PSA_ERROR_INVALID_SIGNATURE, d, Some f3)
                  else do {
                    (status, d1) \<leftarrow> rpmb_read_loop frames nonce block_index block_count d 0;
                    Some (status, d1, Some f3)
                  }
                }
              }
            }
          })"


section \<open>Crypto and platform\<close>

text \<open>What the PSA Crypto API documents of a multi-part hash: the operation absorbs its input and the
  end gives the hash of it. \<open>absorbed\<close> reads the input out of the library's state.\<close>

definition crypto_works :: "'c psa_crypto_api \<Rightarrow> (bytes \<Rightarrow> bytes) \<Rightarrow> ('c \<Rightarrow> bytes) \<Rightarrow> bool" where
  "crypto_works api sha absorbed \<longleftrightarrow>
     (\<forall>c. \<exists>c'. psa_hash_setup api c = (PSA_SUCCESS, c') \<and> absorbed c' = [])
     \<and> (\<forall>c d. \<exists>c'. psa_hash_update api c d = (PSA_SUCCESS, c') \<and> absorbed c' = absorbed c @ d)
     \<and> (\<forall>c. \<exists>c'. psa_hash_finish api c RPMB_KEY_MAC_SIZE = (PSA_SUCCESS, sha (absorbed c), RPMB_KEY_MAC_SIZE, c'))
     \<and> (\<forall>c n. \<exists>d c'. psa_generate_random api c n = (PSA_SUCCESS, d, c') \<and> length d = n)"

lemma hash_updates_works:
  assumes "crypto_works api sha absorbed"
  shows "\<exists>c'. hash_updates api c ds = (PSA_SUCCESS, c') \<and> absorbed c' = absorbed c @ concat ds"
proof (induction ds arbitrary: c)
  case Nil
  then show ?case by simp
next
  case (Cons d ds)
  obtain c1 where c1: "psa_hash_update api c d = (PSA_SUCCESS, c1)" "absorbed c1 = absorbed c @ d"
    using assms unfolding crypto_works_def by meson
  with Cons.IH [of c1] show ?case by auto
qed

lemma hash_pieces_works:
  assumes "crypto_works api sha absorbed" and "length old = RPMB_KEY_MAC_SIZE"
  shows "\<exists>c'. hash_pieces api c ds old = (PSA_SUCCESS, sha (concat ds), c')"
proof -
  obtain c1 where c1: "psa_hash_setup api c = (PSA_SUCCESS, c1)" "absorbed c1 = []"
    using assms(1) unfolding crypto_works_def by meson
  obtain c2 where c2: "hash_updates api c1 ds = (PSA_SUCCESS, c2)" "absorbed c2 = concat ds"
    using hash_updates_works [OF assms(1), of c1 ds] c1(2) by auto
  obtain c3 where "psa_hash_finish api c2 RPMB_KEY_MAC_SIZE = (PSA_SUCCESS, sha (absorbed c2), RPMB_KEY_MAC_SIZE, c3)"
    using assms(1) unfolding crypto_works_def by meson
  with c1 c2 assms(2) show ?thesis
    by (simp add: hash_pieces_def)
qed

text \<open>So the default platform computes the MAC the device computes.\<close>

lemma default_calculate_mac:
  assumes "crypto_works api sha absorbed" and "rfe_platform f = Some c"
  shows "\<exists>c'. rpmb_calculate_mac (rpmb_platform_default_interface api) f frames
    = Some (PSA_SUCCESS, frames_mac sha (rfe_key f) frames, f\<lparr>rfe_platform := Some c'\<rparr>)"
  using hash_pieces_works [OF assms(1), of "replicate RPMB_KEY_MAC_SIZE 0" c "rfe_key f # map frame_tail frames"] assms(2)
  by (auto simp: rpmb_calculate_mac_def rpmb_platform_default_interface_def rpmb_platform_calculate_mac_def frames_mac_def)

lemma default_get_nonce:
  assumes "crypto_works api sha absorbed" and "rfe_platform f = Some c"
  shows "\<exists>nonce c'. rpmb_get_nonce (rpmb_platform_default_interface api) f
    = Some (PSA_SUCCESS, nonce, f\<lparr>rfe_platform := Some c'\<rparr>) \<and> length nonce = RPMB_NONCE_SIZE"
proof -
  obtain d c' where "psa_generate_random api c RPMB_NONCE_SIZE = (PSA_SUCCESS, d, c')" "length d = RPMB_NONCE_SIZE"
    using assms(1) unfolding crypto_works_def by meson
  with assms(2) show ?thesis
    by (auto simp: rpmb_get_nonce_def rpmb_platform_default_interface_def rpmb_platform_get_nonce_def)
qed


section \<open>What a successful read vouches for\<close>

lemma u16_suc: "unat (i :: u16) < n \<Longrightarrow> n < 65536 \<Longrightarrow> unat (i + 1) = Suc (unat i)"
  by (simp add: unat_word_ariths)

text \<open>The frames that pass the checks of the read loop.\<close>

definition frame_answers :: "bytes \<Rightarrow> u16 \<Rightarrow> size_t \<Rightarrow> rpmb_data_frame \<Rightarrow> bool" where
  "frame_answers nonce block_index block_count frame \<longleftrightarrow>
     rf_nonce frame = nonce \<and> u16_from_rpmb_field (rf_address frame) = block_index
     \<and> unat (u16_from_rpmb_field (rf_block_count frame)) = block_count
     \<and> u16_from_rpmb_field (rf_op_result frame) = RPMB_RES_OK
     \<and> u16_from_rpmb_field (rf_msg_type frame) = RPMB_RESP_TYPE_AUTHENTICATED_DATA_READ"

lemma read_loop_done:
  "n \<le> unat i \<Longrightarrow> rpmb_read_loop frames nonce bi n d i = Some (PSA_SUCCESS, d)"
  by (subst rpmb_read_loop.simps) simp

lemma read_loop_step:
  assumes "unat i < n" and "n \<le> length frames"
  shows "rpmb_read_loop frames nonce bi n d i =
    (let frame = frames ! unat i
     in if rf_nonce frame \<noteq> nonce then Some (PSA_ERROR_INVALID_SIGNATURE, d)
        else if \<not> frame_answers nonce bi n frame then Some (PSA_ERROR_INVALID_ARGUMENT, d)
        else do {
          d1 \<leftarrow> mem_write d (unat i * RPMB_DATA_SIZE) (rf_data frame);
          rpmb_read_loop frames nonce bi n d1 (i + 1)
        })"
proof -
  have g: "array_get frames (int (unat i)) = Some (frames ! unat i)"
    using assms by (intro array_get_int) simp
  show ?thesis
    using assms(1)
    by (subst rpmb_read_loop.simps)
      (simp only: g bind.simps if_True simp_thms frame_answers_def Let_def, simp)
qed

lemma read_loop_success:
  assumes "\<forall>f \<in> set frames. frame_ok f" and "length frames = n"
    and "rpmb_read_loop frames nonce bi n d i = Some (PSA_SUCCESS, d')" and "unat i < n"
  shows "n < 65536 \<and> (\<forall>f \<in> set (drop (unat i) frames). frame_answers nonce bi n f)
    \<and> unat i * RPMB_DATA_SIZE + length (concat (map rf_data (drop (unat i) frames))) \<le> length d
    \<and> d' = splice d (unat i * RPMB_DATA_SIZE) (concat (map rf_data (drop (unat i) frames)))"
  using assms(3,4)
proof (induction "n - unat i" arbitrary: i d)
  case 0
  then show ?case by simp
next
  case (Suc k)
  let ?f = "frames ! unat i" and ?o = "unat i * RPMB_DATA_SIZE"
  have f: "frame_ok ?f"
    using assms(1,2) Suc.prems(2) by simp
  have ans: "frame_answers nonce bi n ?f"
    and "\<exists>d1. mem_write d ?o (rf_data ?f) = Some d1 \<and> rpmb_read_loop frames nonce bi n d1 (i + 1) = Some (PSA_SUCCESS, d')"
    using Suc.prems assms(2) by (auto simp: read_loop_step Let_def bind_eq_Some_conv split: if_splits)
  then obtain d1 where d1: "mem_write d ?o (rf_data ?f) = Some d1"
    "rpmb_read_loop frames nonce bi n d1 (i + 1) = Some (PSA_SUCCESS, d')"
    by blast
  have fit: "?o + RPMB_DATA_SIZE \<le> length d" and d1': "d1 = splice d ?o (rf_data ?f)" and l: "length (rf_data ?f) = RPMB_DATA_SIZE"
    using mem_write_SomeD [OF d1(1)] f by (auto simp: frame_ok_def)
  have n: "n < 65536"
    using ans unsigned_less [of "u16_from_rpmb_field (rf_block_count ?f)", where ?'a = nat]
    by (simp add: frame_answers_def)
  then have s: "unat (i + 1) = Suc (unat i)"
    using Suc.prems(2) by (intro u16_suc)
  have dr: "drop (unat i) frames = ?f # drop (Suc (unat i)) frames"
    using Suc.prems(2) assms(2) by (simp add: Cons_nth_drop_Suc)
  show ?case
  proof (cases "Suc (unat i) < n")
    case True
    have "k = n - unat (i + 1)"
      using Suc.hyps(2) s by simp
    then have "n < 65536 \<and> (\<forall>f \<in> set (drop (Suc (unat i)) frames). frame_answers nonce bi n f)
      \<and> Suc (unat i) * RPMB_DATA_SIZE + length (concat (map rf_data (drop (Suc (unat i)) frames))) \<le> length d1
      \<and> d' = splice d1 (Suc (unat i) * RPMB_DATA_SIZE) (concat (map rf_data (drop (Suc (unat i)) frames)))"
      using Suc.hyps(1) [OF _ d1(2)] True s by simp
    moreover have "splice (splice d ?o (rf_data ?f)) (?o + length (rf_data ?f)) e = splice d ?o (rf_data ?f @ e)"
      if "?o + length (rf_data ?f) + length e \<le> length d" for e
      using that by (rule splice_splice_adjacent)
    ultimately show ?thesis
      using ans dr l fit d1' by (simp add: add.commute add.left_commute)
  next
    case False
    then have e: "n = Suc (unat i)"
      using Suc.prems(2) by simp
    then have "d' = d1"
      using d1(2) s by (simp add: read_loop_done)
    with e ans dr l fit d1' n assms(2) show ?thesis
      by simp
  qed
qed


text \<open>The memory of a call holds frames and stays where it is: what the C type of the response
  pointer says. \<open>ok\<close> is what the backend needs for it, if anything.\<close>

definition backend_typed :: "('b \<Rightarrow> bool) \<Rightarrow> 'b rpmb_backend_interface \<Rightarrow> bool" where
  "backend_typed ok bif \<longleftrightarrow>
     (\<forall>b dev_id mem req n resp m st mem' k b'.
        ok b \<longrightarrow> call_ok mem req n resp m \<longrightarrow>
        rbi_data_request bif b dev_id mem req n resp m = Some (st, mem', k, b') \<longrightarrow>
        length mem' = length mem \<and> (\<forall>f \<in> set mem'. frame_ok f) \<and> ok b')"

lemma emulated_backend_typed: "hash_sized sha \<Longrightarrow> backend_typed emulated_ok (rpmb_backend_emulated_interface sha)"
  unfolding backend_typed_def
proof (intro allI impI)
  fix b dev_id mem req n resp m st mem' k b'
  assume a: "hash_sized sha" "emulated_ok b" "call_ok mem req n resp m"
    "rbi_data_request (rpmb_backend_emulated_interface sha) b dev_id mem req n resp m = Some (st, mem', k, b')"
  have "call_result b mem m (rpmb_backend_emulated_data_request sha b dev_id mem req n resp m)"
    using a(2,3,1) by (rule data_request_returns)
  with a(4) show "length mem' = length mem \<and> (\<forall>f \<in> set mem'. frame_ok f) \<and> emulated_ok b'"
    by (simp add: rpmb_backend_emulated_interface_def call_result_def)
qed

lemma frontend_request_typed:
  assumes "backend_typed ok bif" and "rfe_backend f = Some b" and "ok b" and "call_ok mem 0 n 0 m"
    and "frontend_request bif f mem n m = Some (st, mem', k, f')"
  shows "length mem' = length mem" and "\<forall>f \<in> set mem'. frame_ok f"
    and "rfe_key f' = rfe_key f" and "rfe_platform f' = rfe_platform f"
proof -
  obtain b' where r: "rbi_data_request bif b (rfe_dev_id f) mem 0 n 0 m = Some (st, mem', k, b')"
    and f': "f' = f\<lparr>rfe_backend := Some b'\<rparr>"
    using assms(2,5) by (auto simp: frontend_request_def rpmb_backend_data_request_def bind_eq_Some_conv)
  show "length mem' = length mem" and "\<forall>f \<in> set mem'. frame_ok f"
    using assms(1,3,4) r unfolding backend_typed_def by blast+
  show "rfe_key f' = rfe_key f" and "rfe_platform f' = rfe_platform f"
    by (simp_all add: f')
qed

text \<open>The request of a read, as the frontend puts it into the frames it hands to the backend.\<close>

definition read_request :: "bytes \<Rightarrow> u16 \<Rightarrow> size_t \<Rightarrow> rpmb_data_frame list" where
  "read_request nonce bi n =
     zero_frame\<lparr>rf_nonce := nonce, rf_address := u16_to_rpmb_field bi, rf_block_count := u16_to_rpmb_field (word_of_nat n),
       rf_msg_type := u16_to_rpmb_field RPMB_REQ_TYPE_AUTHENTICATED_DATA_READ\<rparr> # replicate (n - 1) zero_frame"

text \<open>
  Property C3. Whatever the backend answers, and so also when messages to the device are forged,
  replayed or corrupted, a read that reports success has asked the backend once, with the nonce this very call drew,
  and the frames the backend answered pass every check: the last one carries the MAC of all of them under the
  frontend's key, and each has this nonce, the requested address and number of blocks, the result OK and the type of
  a read response. The data returned is exactly the data of the frames answered. So an answer that
  fails one of these tests never gives success.
\<close>

theorem rpmb_read_authentic:
  assumes "crypto_works api sha absorbed" and "backend_typed ok bif" and "rfe_platform f = Some c" and "0 < n"
    and "rfe_backend f = Some b" and "ok b"
    and "rpmb_frontend_read alloc_ok (rpmb_platform_default_interface api) bif (Some f) bi d n
      = Some (PSA_SUCCESS, d', f')"
  shows "\<exists>nonce f1 frames b'.
      rpmb_get_nonce (rpmb_platform_default_interface api) f = Some (PSA_SUCCESS, nonce, f1)
    \<and> rbi_data_request bif b (rfe_dev_id f) (read_request nonce bi n) 0 1 0 n = Some (PSA_SUCCESS, frames, n, b')
    \<and> length frames = n \<and> rf_key_mac (last frames) = frames_mac sha (rfe_key f) frames
    \<and> (\<forall>frame \<in> set frames. frame_answers nonce bi n frame)
    \<and> d' = splice d 0 (concat (map rf_data frames))"
proof -
  let ?pif = "rpmb_platform_default_interface api"
  obtain nonce c1 where nonce: "rpmb_get_nonce ?pif f = Some (PSA_SUCCESS, nonce, f\<lparr>rfe_platform := Some c1\<rparr>)"
    and ln: "length nonce = RPMB_NONCE_SIZE"
    using default_get_nonce [OF assms(1,3)] by blast
  let ?f1 = "f\<lparr>rfe_platform := Some c1\<rparr>"
  let ?r = "zero_frame\<lparr>rf_nonce := nonce, rf_address := u16_to_rpmb_field bi,
    rf_block_count := u16_to_rpmb_field (word_of_nat n),
    rf_msg_type := u16_to_rpmb_field RPMB_REQ_TYPE_AUTHENTICATED_DATA_READ\<rparr>"
  have typed: "call_ok (?r # replicate (n - 1) zero_frame) 0 1 0 n"
    using ln assms(4) by (auto simp: call_ok_def frame_ok_def zero_frame_def)
  obtain frames f2 where req: "frontend_request bif ?f1 (?r # replicate (n - 1) zero_frame) 1 n = Some (PSA_SUCCESS, frames, n, f2)"
    and rest: "do {
        covered \<leftarrow> mem_read frames 0 n;
        (status, mac, f3) \<leftarrow> rpmb_calculate_mac ?pif f2 covered;
        if status \<noteq> PSA_SUCCESS then Some (status, d, Some f3)
        else do {
          final \<leftarrow> array_get frames (int (n - 1));
          if mac \<noteq> rf_key_mac final then Some (PSA_ERROR_INVALID_SIGNATURE, d, Some f3)
          else do {
            (status, d1) \<leftarrow> rpmb_read_loop frames nonce bi n d 0;
            Some (status, d1, Some f3)
          }
        }
      } = Some (PSA_SUCCESS, d', f')"
    using assms(4,7) nonce unfolding rpmb_frontend_read_def
    by (auto simp: bind_eq_Some_conv split: if_splits)
  have b: "rfe_backend ?f1 = Some b"
    using assms(5) by simp
  note t = frontend_request_typed [OF assms(2) b assms(6) typed req]
  have len: "length frames = n"
    using t(1) assms(4) by simp
  obtain c2 where "rpmb_calculate_mac ?pif f2 frames = Some (PSA_SUCCESS, frames_mac sha (rfe_key f) frames, f2\<lparr>rfe_platform := Some c2\<rparr>)"
    using default_calculate_mac [OF assms(1), of f2 c1 frames] t(3,4) by auto
  moreover have "array_get frames (int (n - 1)) = Some (frames ! (n - 1))"
    using len assms(4) by (intro array_get_int) simp
  moreover have "last frames = frames ! (n - 1)" and "mem_read frames 0 n = Some frames"
    using len assms(4) by (auto simp: mem_read_def slice_def last_conv_nth)
  ultimately have mac: "rf_key_mac (last frames) = frames_mac sha (rfe_key f) frames"
    and loop: "rpmb_read_loop frames nonce bi n d 0 = Some (PSA_SUCCESS, d')"
    using rest by (auto simp: bind_eq_Some_conv split: if_splits)
  have "(\<forall>frame \<in> set frames. frame_answers nonce bi n frame) \<and> d' = splice d 0 (concat (map rf_data frames))"
    using read_loop_success [OF t(2) len loop] assms(4) by simp
  moreover have "\<exists>b'. rbi_data_request bif b (rfe_dev_id f) (read_request nonce bi n) 0 1 0 n = Some (PSA_SUCCESS, frames, n, b')"
    using req b by (auto simp: frontend_request_def rpmb_backend_data_request_def read_request_def bind_eq_Some_conv)
  ultimately show ?thesis using nonce len mac by blast
qed


section \<open>Frontend and device together\<close>

text \<open>The frontend and the device agree: same key, same counter, same extent.\<close>

definition in_sync :: "('c, rpmb_backend_emulated) rpmb_frontend \<Rightarrow> rpmb_backend_emulated \<Rightarrow> bool" where
  "in_sync f b \<longleftrightarrow>
     rfe_initialized f \<and> rfe_backend f = Some b \<and> rfe_platform f \<noteq> None \<and> rfe_dev_id f = 0
     \<and> emulated_ok b \<and> rbe_key_programmed b \<and> rbe_key b = rfe_key f
     \<and> rbe_write_counter b = rfe_write_counter f \<and> rbe_buffer_size b = rfe_block_count f * RPMB_DATA_SIZE"

text \<open>One authenticated write and the request for its result, answered by the device.\<close>

lemma emulated_write_and_result:
  assumes "rpmb_emulated_authenticated_data_write sha b w = Some b'"
    and "u16_from_rpmb_field (rf_msg_type w) = RPMB_REQ_TYPE_AUTHENTICATED_DATA_WRITE"
  shows "rpmb_backend_emulated_data_request sha b 0
      [w, zero_frame\<lparr>rf_msg_type := u16_to_rpmb_field RPMB_REQ_TYPE_RESULT_READ_REQUEST\<rparr>] 0 2 0 1
    = Some (PSA_SUCCESS, [rbe_result b', zero_frame\<lparr>rf_msg_type := u16_to_rpmb_field RPMB_REQ_TYPE_RESULT_READ_REQUEST\<rparr>], 1, b')"
  using assms unfolding rpmb_backend_emulated_data_request_def
  by (subst numeral_2_eq_2) (simp add: array_get_def mem_write_def splice_def)

text \<open>One round of the write loop against the device.\<close>

lemma write_loop_round:
  assumes crypto: "crypto_works api sha absorbed" "hash_sized sha" and sync: "in_sync f b"
    and c: "rfe_write_counter f \<noteq> 0xffffffff" and i: "unat i < n"
    and range: "unat bi + unat i < rfe_block_count f" "unat bi + unat i < 65536"
    and d: "(unat i + 1) * RPMB_DATA_SIZE \<le> length d"
  obtains f' b' where
    "rpmb_write_loop (rpmb_platform_default_interface api) (rpmb_backend_emulated_interface sha) f bi d n i
      = rpmb_write_loop (rpmb_platform_default_interface api) (rpmb_backend_emulated_interface sha) f' bi d n (i + 1)"
    and "in_sync f' b'" and "rfe_block_count f' = rfe_block_count f"
    and "rfe_write_counter f' = rfe_write_counter f + 1"
    and "rbe_buffer b' = Some (splice (the (rbe_buffer b)) ((unat bi + unat i) * RPMB_DATA_SIZE)
      (slice d (unat i * RPMB_DATA_SIZE) RPMB_DATA_SIZE))"
proof -
  let ?pif = "rpmb_platform_default_interface api" and ?bif = "rpmb_backend_emulated_interface sha"
  let ?blk = "slice d (unat i * RPMB_DATA_SIZE) RPMB_DATA_SIZE"
  let ?p = "zero_frame\<lparr>rf_data := ?blk, rf_write_counter := u32_to_rpmb_field (rfe_write_counter f),
     rf_address := u16_to_rpmb_field (bi + i), rf_block_count := u16_to_rpmb_field 1,
     rf_msg_type := u16_to_rpmb_field RPMB_REQ_TYPE_AUTHENTICATED_DATA_WRITE\<rparr>"
  let ?w = "write_frame sha (rfe_key f) (rfe_write_counter f) (bi + i) ?blk"
  have sum: "unat (bi + i) = unat bi + unat i"
    using range(2) by (simp add: unat_word_ariths)
  obtain cs where cs: "rfe_platform f = Some cs"
    using sync by (auto simp: in_sync_def)
  have rd: "mem_read d (unat i * RPMB_DATA_SIZE) RPMB_DATA_SIZE = Some ?blk" and lb: "length ?blk = RPMB_DATA_SIZE"
    using d by (simp_all add: mem_read_in)
  obtain c1 where mac: "rpmb_calculate_mac ?pif f [?p]
      = Some (PSA_SUCCESS, frames_mac sha (rfe_key f) [?p], f\<lparr>rfe_platform := Some c1\<rparr>)"
    using default_calculate_mac [OF crypto(1) cs, of "[?p]"] by blast
  have w: "?p\<lparr>rf_key_mac := frames_mac sha (rfe_key f) [?p]\<rparr> = ?w"
    by (simp add: write_frame_def Let_def)
  have b: "emulated_ok b" "rbe_key_programmed b" "rbe_key b = rfe_key f" "rbe_write_counter b = rfe_write_counter f"
    "rbe_buffer_size b = rfe_block_count f * RPMB_DATA_SIZE"
    using sync by (simp_all add: in_sync_def)
  have acc: "check_write_request sha b ?w = RPMB_RES_OK"
    using write_frame_accepted [of b "bi + i" sha ?blk] b c range(1) sum by simp
  let ?r1 = "\<lambda>b'. zero_frame\<lparr>rf_msg_type := u16_to_rpmb_field RPMB_RESP_TYPE_AUTHENTICATED_DATA_WRITE,
     rf_address := u16_to_rpmb_field (bi + i), rf_write_counter := u32_to_rpmb_field (rbe_write_counter b')\<rparr>"
  obtain b' where b': "rpmb_emulated_authenticated_data_write sha b ?w = Some b'" "emulated_ok b'"
    "rbe_key b' = rbe_key b" "rbe_key_programmed b'" "rbe_buffer_size b' = rbe_buffer_size b"
    "rbe_buffer b' = Some (splice (the (rbe_buffer b)) ((unat bi + unat i) * RPMB_DATA_SIZE) ?blk)"
    "rbe_write_counter b' = rbe_write_counter b + 1"
    and res: "rbe_result b' = (?r1 b')\<lparr>rf_key_mac := calculate_mac sha b [?r1 b'],
       rf_op_result := u16_to_rpmb_field RPMB_RES_OK\<rparr>"
    using data_write_returns [OF b(1) write_frame_ok [OF crypto(2) lb, of "rfe_key f" "rfe_write_counter f" "bi + i"] crypto(2)]
      acc b(2) sum by (auto simp: Let_def)
  let ?f2 = "f\<lparr>rfe_platform := Some c1, rfe_backend := Some b'\<rparr>"
  have req: "\<exists>mem. frontend_request ?bif (f\<lparr>rfe_platform := Some c1\<rparr>)
      [?w, zero_frame\<lparr>rf_msg_type := u16_to_rpmb_field RPMB_REQ_TYPE_RESULT_READ_REQUEST\<rparr>] 2 1
      = Some (PSA_SUCCESS, rbe_result b' # mem, 1, ?f2)"
    using emulated_write_and_result [OF b'(1)] sync
    by (auto simp: frontend_request_def rpmb_backend_data_request_def rpmb_backend_emulated_interface_def in_sync_def)
  obtain c2 where mac2: "rpmb_calculate_mac ?pif ?f2 [rbe_result b']
      = Some (PSA_SUCCESS, frames_mac sha (rfe_key f) [rbe_result b'], ?f2\<lparr>rfe_platform := Some c2\<rparr>)"
    using default_calculate_mac [OF crypto(1), of ?f2 c1 "[rbe_result b']"] by auto
  have zero: "u16_to_rpmb_field RPMB_RES_OK = rf_op_result zero_frame"
    by (simp add: u16_to_rpmb_field_def zero_frame_def numeral_2_eq_2)
  have same: "(?r1 b')\<lparr>rf_op_result := u16_to_rpmb_field RPMB_RES_OK\<rparr> = ?r1 b'"
    unfolding zero by simp
  have own: "frames_mac sha (rfe_key f) [rbe_result b'] = rf_key_mac (rbe_result b')"
    using b(3) unfolding res calculate_mac_def by (simp add: frames_mac_def frame_tail_def zero)
  let ?f3 = "?f2\<lparr>rfe_platform := Some c2, rfe_write_counter := rfe_write_counter f + 1\<rparr>"
  have "rpmb_write_loop ?pif ?bif f bi d n i = rpmb_write_loop ?pif ?bif ?f3 bi d n (i + 1)"
    using i rd mac w req mac2 own b'(7) b(4) sum
    by (subst rpmb_write_loop.simps) (auto simp: Let_def array_get_def res)
  moreover have "in_sync ?f3 b'"
    using sync b b' by (simp add: in_sync_def)
  ultimately show thesis
    using that [of ?f3 b'] b'(6) by simp
qed


text \<open>The loop from round \<open>i\<close> on writes the remaining blocks one after the other. There have to be
  counter values left for them.\<close>

lemma splice_adjacent_slices:
  assumes "base + (i + 1) * RPMB_DATA_SIZE \<le> length buf" and "n * RPMB_DATA_SIZE \<le> length d" and "i < n"
    and "base + n * RPMB_DATA_SIZE \<le> length buf"
  shows "splice (splice buf (base + i * RPMB_DATA_SIZE) (slice d (i * RPMB_DATA_SIZE) RPMB_DATA_SIZE))
      (base + (i + 1) * RPMB_DATA_SIZE) (slice d ((i + 1) * RPMB_DATA_SIZE) ((n - (i + 1)) * RPMB_DATA_SIZE))
    = splice buf (base + i * RPMB_DATA_SIZE) (slice d (i * RPMB_DATA_SIZE) ((n - i) * RPMB_DATA_SIZE))"
proof -
  have a: "i * RPMB_DATA_SIZE + (RPMB_DATA_SIZE + (n - (i + 1)) * RPMB_DATA_SIZE) = n * RPMB_DATA_SIZE"
  proof -
    obtain k where "n = Suc (i + k)"
      using less_imp_Suc_add [OF assms(3)] by blast
    then show ?thesis
      by (simp add: add_mult_distrib)
  qed
  have l1: "length (slice d (i * RPMB_DATA_SIZE) RPMB_DATA_SIZE) = RPMB_DATA_SIZE"
    and l2: "length (slice d ((i + 1) * RPMB_DATA_SIZE) ((n - (i + 1)) * RPMB_DATA_SIZE)) = (n - (i + 1)) * RPMB_DATA_SIZE"
    using a assms(2) by simp_all
  have e: "(n - i) * RPMB_DATA_SIZE = RPMB_DATA_SIZE + (n - (i + 1)) * RPMB_DATA_SIZE"
    using assms(3) by (simp flip: mult_Suc)
  have s: "slice d (i * RPMB_DATA_SIZE) RPMB_DATA_SIZE @ slice d (i * RPMB_DATA_SIZE + RPMB_DATA_SIZE) ((n - (i + 1)) * RPMB_DATA_SIZE)
    = slice d (i * RPMB_DATA_SIZE) ((n - i) * RPMB_DATA_SIZE)"
    unfolding e using a assms(2) by (intro slice_append) simp
  show ?thesis
    using splice_splice_adjacent [of "base + i * RPMB_DATA_SIZE" "slice d (i * RPMB_DATA_SIZE) RPMB_DATA_SIZE"
        "slice d ((i + 1) * RPMB_DATA_SIZE) ((n - (i + 1)) * RPMB_DATA_SIZE)" buf] l1 l2 a s assms(4)
    by (simp add: add.commute add.left_commute)
qed

lemma write_loop_writes:
  assumes crypto: "crypto_works api sha absorbed" "hash_sized sha" and "in_sync f b"
    and "unat (rfe_write_counter f) + (n - unat i) < 2 ^ 32" and "unat i \<le> n" and "n < 65536"
    and "unat bi + n \<le> rfe_block_count f" and "unat bi + n \<le> 65536" and "n * RPMB_DATA_SIZE \<le> length d"
  shows "\<exists>f' b'. rpmb_write_loop (rpmb_platform_default_interface api) (rpmb_backend_emulated_interface sha) f bi d n i
      = Some (PSA_SUCCESS, f') \<and> in_sync f' b' \<and> rfe_block_count f' = rfe_block_count f
    \<and> unat (rfe_write_counter f') = unat (rfe_write_counter f) + (n - unat i)
    \<and> rbe_buffer b' = Some (splice (the (rbe_buffer b)) ((unat bi + unat i) * RPMB_DATA_SIZE)
        (slice d (unat i * RPMB_DATA_SIZE) ((n - unat i) * RPMB_DATA_SIZE)))"
  using assms(3-)
proof (induction "n - unat i" arbitrary: f b i)
  case 0
  obtain buf where "rbe_buffer b = Some buf"
    using 0(2) by (auto simp: in_sync_def elim: emulated_okE)
  with 0 show ?case
    by (subst rpmb_write_loop.simps) auto
next
  case (Suc k)
  have i: "unat i < n"
    using Suc.hyps(2) by simp
  have c: "rfe_write_counter f \<noteq> 0xffffffff"
    using Suc.prems(2) Suc.hyps(2) by auto
  have "(unat i + 1) * RPMB_DATA_SIZE \<le> n * RPMB_DATA_SIZE"
    using i by (intro mult_le_mono1) simp
  then have d: "(unat i + 1) * RPMB_DATA_SIZE \<le> length d"
    using Suc.prems(7) by linarith
  obtain f1 b1 where r: "rpmb_write_loop (rpmb_platform_default_interface api) (rpmb_backend_emulated_interface sha) f bi d n i
      = rpmb_write_loop (rpmb_platform_default_interface api) (rpmb_backend_emulated_interface sha) f1 bi d n (i + 1)"
    "in_sync f1 b1" "rfe_block_count f1 = rfe_block_count f" "rfe_write_counter f1 = rfe_write_counter f + 1"
    "rbe_buffer b1 = Some (splice (the (rbe_buffer b)) ((unat bi + unat i) * RPMB_DATA_SIZE)
      (slice d (unat i * RPMB_DATA_SIZE) RPMB_DATA_SIZE))"
    using write_loop_round [OF crypto Suc.prems(1) c i _ _ d, of bi] Suc.prems(5,6) i by auto
  have s: "unat (i + 1) = unat i + 1"
    using u16_suc [OF i Suc.prems(4)] by simp
  have c1: "unat (rfe_write_counter f1) = Suc (unat (rfe_write_counter f))"
    unfolding r(4) using c by (rule counter_increment(2))
  have k: "k = n - unat (i + 1)" and cnt: "unat (rfe_write_counter f1) + (n - unat (i + 1)) < 2 ^ 32"
    using Suc.hyps(2) Suc.prems(2) s c1 by simp_all
  have le: "unat (i + 1) \<le> n"
    using s i by simp
  note ih = Suc.hyps(1) [OF k r(2) cnt le Suc.prems(4), unfolded r(3), OF Suc.prems(5-7)]
  obtain buf where buf: "rbe_buffer b = Some buf" "length buf = rfe_block_count f * RPMB_DATA_SIZE"
    using Suc.prems(1) by (auto simp: in_sync_def elim: emulated_okE)
  have "(unat bi + n) * RPMB_DATA_SIZE \<le> length buf"
    unfolding buf(2) using Suc.prems(5) by (rule mult_le_mono1)
  then have fit: "unat bi * RPMB_DATA_SIZE + n * RPMB_DATA_SIZE \<le> length buf"
    and fit1: "unat bi * RPMB_DATA_SIZE + (unat i + 1) * RPMB_DATA_SIZE \<le> length buf"
    using \<open>(unat i + 1) * RPMB_DATA_SIZE \<le> n * RPMB_DATA_SIZE\<close> by (simp_all add: add_mult_distrib)
  have bufs: "splice (the (rbe_buffer b1)) ((unat bi + unat (i + 1)) * RPMB_DATA_SIZE)
      (slice d (unat (i + 1) * RPMB_DATA_SIZE) ((n - unat (i + 1)) * RPMB_DATA_SIZE))
    = splice (the (rbe_buffer b)) ((unat bi + unat i) * RPMB_DATA_SIZE)
      (slice d (unat i * RPMB_DATA_SIZE) ((n - unat i) * RPMB_DATA_SIZE))"
    using splice_adjacent_slices [OF fit1 Suc.prems(7) i fit]
    by (simp only: r(5) buf(1) option.sel s add_mult_distrib add.assoc)
  have cnts: "unat (rfe_write_counter f1) + (n - unat (i + 1)) = unat (rfe_write_counter f) + (n - unat i)"
    using c1 s i by simp
  show ?case
    using ih unfolding r(1) bufs cnts .
qed


text \<open>Reading in sync: the device accepts the request, and every check passes.\<close>

lemma frames_answer_read:
  assumes "rf_nonce r = nonce" and "rf_address r = u16_to_rpmb_field bi"
    and "rf_block_count r = u16_to_rpmb_field (word_of_nat n)" and "n < 65536"
  shows "frame_answers nonce bi n ((read_frame r x)\<lparr>rf_key_mac := m\<rparr>)" and "frame_answers nonce bi n (read_frame r x)"
  using assms by (simp_all add: frame_answers_def read_frame_def unat_of_nat)

lemma read_loop_copies:
  assumes "length frames = n" and "n < 65536" and "\<forall>f \<in> set frames. frame_ok f \<and> frame_answers nonce bi n f"
    and "unat i \<le> n" and "n * RPMB_DATA_SIZE \<le> length d"
  shows "\<exists>d'. rpmb_read_loop frames nonce bi n d i = Some (PSA_SUCCESS, d')"
  using assms(4,5)
proof (induction "n - unat i" arbitrary: i d)
  case 0
  then show ?case by (simp add: read_loop_done)
next
  case (Suc k)
  have i: "unat i < n"
    using Suc.hyps(2) by simp
  have s: "unat (i + 1) = Suc (unat i)"
    using u16_suc [OF i assms(2)] .
  have f: "frame_ok (frames ! unat i)" "frame_answers nonce bi n (frames ! unat i)"
    using assms(1,3) i by simp_all
  have "Suc (unat i) * RPMB_DATA_SIZE \<le> n * RPMB_DATA_SIZE"
    using i by (intro mult_le_mono1) simp
  then have fit: "unat i * RPMB_DATA_SIZE + length (rf_data (frames ! unat i)) \<le> length d"
    using Suc.prems(2) f(1) by (simp add: frame_ok_def)
  have "rpmb_read_loop frames nonce bi n d i
      = rpmb_read_loop frames nonce bi n (splice d (unat i * RPMB_DATA_SIZE) (rf_data (frames ! unat i))) (i + 1)"
    using i assms(1) f(2) fit by (subst read_loop_step) (auto simp: Let_def mem_write_in frame_answers_def)
  moreover have "\<exists>d'. rpmb_read_loop frames nonce bi n (splice d (unat i * RPMB_DATA_SIZE) (rf_data (frames ! unat i))) (i + 1)
      = Some (PSA_SUCCESS, d')"
    using Suc.hyps(2) Suc.prems(2) s i fit by (intro Suc.hyps(1)) simp_all
  ultimately show ?case by simp
qed

lemma concat_blocks:
  assumes "length d = n * RPMB_DATA_SIZE"
  shows "concat (map (\<lambda>j. slice d (j * RPMB_DATA_SIZE) RPMB_DATA_SIZE) [0..<n]) = d"
  using assms
proof (induction n arbitrary: d)
  case 0
  then show ?case by simp
next
  case (Suc n)
  have "slice d (j * RPMB_DATA_SIZE) RPMB_DATA_SIZE = slice (take (n * RPMB_DATA_SIZE) d) (j * RPMB_DATA_SIZE) RPMB_DATA_SIZE"
    if "j < n" for j
  proof -
    have "Suc j * RPMB_DATA_SIZE \<le> n * RPMB_DATA_SIZE"
      using that by (intro mult_le_mono1) simp
    then show ?thesis
      by (simp add: slice_def drop_take min_def)
  qed
  then have m: "map (\<lambda>j. slice d (j * RPMB_DATA_SIZE) RPMB_DATA_SIZE) [0..<n]
    = map (\<lambda>j. slice (take (n * RPMB_DATA_SIZE) d) (j * RPMB_DATA_SIZE) RPMB_DATA_SIZE) [0..<n]"
    by simp
  have "concat (map (\<lambda>j. slice (take (n * RPMB_DATA_SIZE) d) (j * RPMB_DATA_SIZE) RPMB_DATA_SIZE) [0..<n])
    = take (n * RPMB_DATA_SIZE) d"
    using Suc.prems by (intro Suc.IH) simp
  moreover have "slice d (n * RPMB_DATA_SIZE) RPMB_DATA_SIZE = drop (n * RPMB_DATA_SIZE) d"
    using Suc.prems by (simp add: slice_def)
  ultimately have "concat (map (\<lambda>j. slice d (j * RPMB_DATA_SIZE) RPMB_DATA_SIZE) [0..<n]) @ slice d (n * RPMB_DATA_SIZE) RPMB_DATA_SIZE = d"
    unfolding m by simp
  then show ?case by simp
qed

lemma read_response_data:
  assumes "length d = n * RPMB_DATA_SIZE" and "0 < n"
  shows "concat (map rf_data (read_response sha key r d n)) = d"
    and "frames_mac sha key (read_response sha key r d n) = rf_key_mac (last (read_response sha key r d n))"
proof -
  let ?fs = "map (\<lambda>j. read_frame r (slice d (j * RPMB_DATA_SIZE) RPMB_DATA_SIZE)) [0..<n]"
  have r: "read_response sha key r d n = ?fs[n - 1 := (?fs ! (n - 1))\<lparr>rf_key_mac := frames_mac sha key ?fs\<rparr>]"
    by (simp add: read_response_def Let_def)
  have keep: "map g (?fs[n - 1 := (?fs ! (n - 1))\<lparr>rf_key_mac := x\<rparr>]) = map g ?fs"
    if "\<And>f. g (f\<lparr>rf_key_mac := x\<rparr>) = g f" for x and g :: "rpmb_data_frame \<Rightarrow> bytes"
    using that by (intro nth_equalityI) (auto simp: nth_list_update)
  show "concat (map rf_data (read_response sha key r d n)) = d"
  proof -
    have k: "map rf_data (?fs[n - 1 := (?fs ! (n - 1))\<lparr>rf_key_mac := frames_mac sha key ?fs\<rparr>]) = map rf_data ?fs"
      by (rule keep) simp
    show ?thesis
      unfolding r k using concat_blocks [OF assms(1)] by (simp add: read_frame_def comp_def)
  qed
  have "frames_mac sha key (read_response sha key r d n) = frames_mac sha key ?fs"
    unfolding r frames_mac_def by (subst keep) (simp_all add: frame_tail_def)
  then show "frames_mac sha key (read_response sha key r d n) = rf_key_mac (last (read_response sha key r d n))"
    using assms(2) by (simp add: r last_list_update last_conv_nth)
qed


lemma read_in_sync:
  assumes crypto: "crypto_works api sha absorbed" "hash_sized sha" and sync: "in_sync f b"
    and n: "0 < n" "n < 65536" "unat bi + n \<le> rfe_block_count f" "rfe_block_count f < 2 ^ 63"
    and alloc: "alloc_ok (n * RPMB_FRAME_SIZE)" and d: "n * RPMB_DATA_SIZE \<le> length d"
  shows "\<exists>f'. rpmb_frontend_read alloc_ok (rpmb_platform_default_interface api) (rpmb_backend_emulated_interface sha)
      (Some f) bi d n
    = Some (PSA_SUCCESS, splice d 0 (slice (the (rbe_buffer b)) (unat bi * RPMB_DATA_SIZE) (n * RPMB_DATA_SIZE)), Some f')
    \<and> in_sync f' b"
proof -
  let ?pif = "rpmb_platform_default_interface api" and ?bif = "rpmb_backend_emulated_interface sha"
  obtain cs where cs: "rfe_platform f = Some cs"
    using sync by (auto simp: in_sync_def)
  obtain nonce c1 where nonce: "rpmb_get_nonce ?pif f = Some (PSA_SUCCESS, nonce, f\<lparr>rfe_platform := Some c1\<rparr>)"
    and ln: "length nonce = RPMB_NONCE_SIZE"
    using default_get_nonce [OF crypto(1) cs] by blast
  let ?f1 = "f\<lparr>rfe_platform := Some c1\<rparr>"
  let ?r = "zero_frame\<lparr>rf_nonce := nonce, rf_address := u16_to_rpmb_field bi,
    rf_block_count := u16_to_rpmb_field (word_of_nat n),
    rf_msg_type := u16_to_rpmb_field RPMB_REQ_TYPE_AUTHENTICATED_DATA_READ\<rparr>"
  let ?mem = "?r # replicate (n - 1) zero_frame"
  have b: "emulated_ok b" "rbe_key_programmed b" "rbe_key b = rfe_key f"
    "rbe_buffer_size b = rfe_block_count f * RPMB_DATA_SIZE" "rfe_backend f = Some b" "rfe_dev_id f = 0"
    using sync by (simp_all add: in_sync_def)
  obtain buf where buf: "rbe_buffer b = Some buf" "length buf = rbe_buffer_size b"
    using b(1) by (rule emulated_okE)
  have un: "unat (word_of_nat n :: u16) = n"
    using n(2) by (simp add: unat_of_nat)
  have fit: "unat bi * RPMB_DATA_SIZE + n * RPMB_DATA_SIZE \<le> rbe_buffer_size b"
    unfolding b(4) using mult_le_mono1 [OF n(3), of RPMB_DATA_SIZE] by (simp add: add_mult_distrib)
  have lt: "unat bi * RPMB_DATA_SIZE < rbe_buffer_size b"
    using fit n(1) by linarith
  have word0: "(word_of_nat n :: u16) \<noteq> 0"
    using un n(1) by auto
  have bnd: "unat bi < 65536"
    using unsigned_less [of bi, where ?'a = nat] by simp
  have chk: "check_read_request b ?r = (RPMB_RES_OK, unat bi * RPMB_DATA_SIZE)"
    using lt fit word0 un n(2) bnd
    by (simp add: check_read_request_def rpmb_address_exact Let_def ADD_OVERFLOW_def MUL_OVERFLOW_def arith64)
  let ?d = "slice buf (unat bi * RPMB_DATA_SIZE) (n * RPMB_DATA_SIZE)"
  let ?fs = "read_response sha (rfe_key f) ?r ?d n"
  have ld: "length ?d = n * RPMB_DATA_SIZE"
    using fit buf(2) by simp
  have "rpmb_emulated_authenticated_data_read sha b ?mem 0 0 n = Some (PSA_SUCCESS, splice ?mem 0 ?fs, n)"
    using data_read_success [OF b(1,2), of 0 ?mem "unat bi * RPMB_DATA_SIZE" n n 0 sha] chk un n(1) buf(1) b(3)
    by (simp add: frame_address_def)
  moreover have "splice ?mem 0 ?fs = ?fs"
    using n(1) by (simp add: splice_def)
  ultimately have req: "frontend_request ?bif ?f1 ?mem 1 n = Some (PSA_SUCCESS, ?fs, n, ?f1\<lparr>rfe_backend := Some b\<rparr>)"
    using b(5,6) n(1)
    by (simp add: frontend_request_def rpmb_backend_data_request_def rpmb_backend_emulated_interface_def
        rpmb_backend_emulated_data_request_def array_get_def)
  have "frame_ok ?r"
    using ln by (simp add: frame_ok_def zero_frame_def)
  then have ok: "\<forall>x \<in> set ?fs. frame_ok x"
    using ld crypto(2) n(1) by (rule read_response_ok)
  have ans: "\<forall>x \<in> set ?fs. frame_answers nonce bi n x"
    using frames_answer_read [of ?r nonce bi n] n(1,2)
    by (auto simp: read_response_def Let_def in_set_conv_nth nth_list_update)
  let ?f2 = "?f1\<lparr>rfe_backend := Some b\<rparr>"
  obtain c2 where mac: "rpmb_calculate_mac ?pif ?f2 ?fs
      = Some (PSA_SUCCESS, rf_key_mac (last ?fs), ?f2\<lparr>rfe_platform := Some c2\<rparr>)"
    using default_calculate_mac [OF crypto(1), of ?f2 c1 ?fs] read_response_data(2) [OF ld n(1), of sha "rfe_key f" ?r] by auto
  obtain d' where loop: "rpmb_read_loop ?fs nonce bi n d 0 = Some (PSA_SUCCESS, d')"
    using read_loop_copies [of ?fs n nonce bi 0 d] ok ans n(2) d by auto
  have d': "d' = splice d 0 ?d"
    using read_loop_success [OF ok length_read_response loop] n(1) read_response_data(1) [OF ld n(1)] by simp
  have "array_get ?fs (int (n - 1)) = Some (last ?fs)"
    using n(1) array_get_int [of "n - 1" ?fs] by (simp add: last_conv_nth flip: length_0_conv)
  moreover have "mem_read ?fs 0 n = Some ?fs"
    by (simp add: mem_read_def slice_def)
  moreover have "block_range_ok f bi n"
    using n by (simp add: block_range_ok_def ADD_OVERFLOW_def arith64)
  moreover have "rfe_initialized f"
    using sync by (simp add: in_sync_def)
  ultimately have "rpmb_frontend_read alloc_ok ?pif ?bif (Some f) bi d n
    = Some (PSA_SUCCESS, splice d 0 ?d, Some (?f2\<lparr>rfe_platform := Some c2\<rparr>))"
    using nonce req mac loop d' n(1) alloc by (simp add: rpmb_frontend_read_def)
  moreover have "in_sync (?f2\<lparr>rfe_platform := Some c2\<rparr>) b"
    using sync by (simp add: in_sync_def)
  ultimately show ?thesis
    using buf(1) by auto
qed


section \<open>Initialisation\<close>

text \<open>Reading the counter: refused by a device without a key, and taken over from one with the
  frontend's key.\<close>

lemma emulated_read_counter:
  assumes "u16_from_rpmb_field (rf_msg_type r) = RPMB_REQ_TYPE_READ_WRITE_COUNTER"
  shows "rpmb_backend_emulated_data_request sha b 0 [r] 0 1 0 1
    = Some (PSA_SUCCESS, [rpmb_emulated_read_write_counter sha b r], 1, b)"
  using assms by (simp add: rpmb_backend_emulated_data_request_def array_get_def mem_write_def splice_def)

lemma read_counter_of_device:
  assumes crypto: "crypto_works api sha absorbed" and f: "rfe_platform f = Some c" "rfe_backend f = Some b" "rfe_dev_id f = 0"
    and key: "rbe_key_programmed b \<Longrightarrow> rbe_key b = rfe_key f"
  shows "\<exists>c'. rpmb_read_write_counter (rpmb_platform_default_interface api) (rpmb_backend_emulated_interface sha) f
    = (if rbe_key_programmed b
       then Some (PSA_SUCCESS, f\<lparr>rfe_platform := Some c', rfe_write_counter := rbe_write_counter b\<rparr>)
       else Some (PSA_ERROR_STORAGE_FAILURE, f\<lparr>rfe_platform := Some c'\<rparr>))"
proof -
  let ?pif = "rpmb_platform_default_interface api" and ?bif = "rpmb_backend_emulated_interface sha"
  obtain nonce c1 where nonce: "rpmb_get_nonce ?pif f = Some (PSA_SUCCESS, nonce, f\<lparr>rfe_platform := Some c1\<rparr>)"
    using default_get_nonce [OF crypto f(1)] by blast
  let ?r = "zero_frame\<lparr>rf_nonce := nonce, rf_msg_type := u16_to_rpmb_field RPMB_REQ_TYPE_READ_WRITE_COUNTER\<rparr>"
  let ?a = "rpmb_emulated_read_write_counter sha b ?r"
  have req: "frontend_request ?bif (f\<lparr>rfe_platform := Some c1\<rparr>) [?r] 1 1 = Some (PSA_SUCCESS, [?a], 1, f\<lparr>rfe_platform := Some c1\<rparr>)"
    using emulated_read_counter [of ?r sha b] f
    by (simp add: frontend_request_def rpmb_backend_data_request_def rpmb_backend_emulated_interface_def)
  show ?thesis
  proof (cases "rbe_key_programmed b")
    case False
    then have "rf_op_result ?a = u16_to_rpmb_field RPMB_RES_KEY_NOT_PROGRAMMED"
      by (simp add: rpmb_emulated_read_write_counter_def Let_def)
    with False nonce req show ?thesis
      by (auto simp: rpmb_read_write_counter_def array_get_def)
  next
    case True
    obtain c2 where mac: "rpmb_calculate_mac ?pif (f\<lparr>rfe_platform := Some c1\<rparr>) [?a]
        = Some (PSA_SUCCESS, frames_mac sha (rfe_key f) [?a], f\<lparr>rfe_platform := Some c2\<rparr>)"
      using default_calculate_mac [OF crypto, of "f\<lparr>rfe_platform := Some c1\<rparr>" c1 "[?a]"] by auto
    have "rf_op_result ?a = u16_to_rpmb_field RPMB_RES_OK"
      "rf_msg_type ?a = u16_to_rpmb_field RPMB_RESP_TYPE_READ_WRITE_COUNTER" "rf_nonce ?a = nonce"
      "rf_write_counter ?a = u32_to_rpmb_field (rbe_write_counter b)"
      "rf_key_mac ?a = frames_mac sha (rfe_key f) [?a]"
      using True key by (simp_all add: rpmb_emulated_read_write_counter_def Let_def calculate_mac_def)
    with True nonce req mac show ?thesis
      by (auto simp: rpmb_read_write_counter_def array_get_def)
  qed
qed

lemma write_key_to_device:
  assumes "rfe_backend f = Some b" and "rfe_dev_id f = 0" and "\<not> rbe_key_programmed b"
  shows "\<exists>b'. rpmb_write_key (rpmb_backend_emulated_interface sha) f = Some (PSA_SUCCESS, f\<lparr>rfe_backend := Some b'\<rparr>)
    \<and> rbe_key_programmed b' \<and> rbe_key b' = rfe_key f \<and> rbe_buffer b' = rbe_buffer b
    \<and> rbe_buffer_size b' = rbe_buffer_size b \<and> rbe_write_counter b' = rbe_write_counter b
    \<and> frame_ok (rbe_result b')"
proof -
  let ?k = "zero_frame\<lparr>rf_key_mac := rfe_key f, rf_msg_type := u16_to_rpmb_field RPMB_REQ_TYPE_AUTHENTICATION_KEY_WRITE\<rparr>"
  let ?q = "zero_frame\<lparr>rf_msg_type := u16_to_rpmb_field RPMB_REQ_TYPE_RESULT_READ_REQUEST\<rparr>"
  let ?b = "rpmb_emulated_authentication_key_write b ?k"
  have "rpmb_backend_emulated_data_request sha b 0 [?k, ?q] 0 2 0 1 = Some (PSA_SUCCESS, [rbe_result ?b, ?q], 1, ?b)"
    unfolding rpmb_backend_emulated_data_request_def
    by (subst numeral_2_eq_2) (simp add: array_get_def mem_write_def splice_def)
  with assms show ?thesis
    by (auto simp: rpmb_write_key_def frontend_request_def rpmb_backend_data_request_def rpmb_backend_emulated_interface_def
        rpmb_emulated_authentication_key_write_def array_get_def frame_ok_def zero_frame_def)
qed

lemma init_in_sync:
  assumes crypto: "crypto_works api sha absorbed" and b: "emulated_ok b" "\<not> rbe_key_programmed b"
    and size: "rbe_buffer_size b = unat (m :: byte) * RPMB_SIZE_MULT_UNIT" "m \<noteq> 0"
    and f: "rfe_platform f = Some c" "rfe_backend f = Some b" "rfe_dev_id f = 0" "length (rfe_key f) = RPMB_KEY_MAC_SIZE"
  shows "\<exists>f' b'. rpmb_frontend_init True (rpmb_platform_default_interface api) (rpmb_backend_emulated_interface sha) f
      = Some (PSA_SUCCESS, f') \<and> in_sync f' b' \<and> rbe_buffer b' = rbe_buffer b \<and> rfe_block_count f' = unat m * 512
    \<and> rfe_write_counter f' = rbe_write_counter b"
proof -
  let ?pif = "rpmb_platform_default_interface api" and ?bif = "rpmb_backend_emulated_interface sha"
  let ?cid = "test_cid[RPMB_CID_PRODUCT_REVISION := 0, RPMB_CID_CRC7 := 0]"
  have info: "rpmb_backend_get_dev_info ?bif b 0 = Some (PSA_SUCCESS, \<lparr>rdi_cid = test_cid, rdi_rpmb_size_mult = m\<rparr>, b)"
    using size(1) by (simp add: rpmb_backend_get_dev_info_def rpmb_backend_emulated_interface_def rpmb_backend_emulated_get_dev_info_def)
  have "unat m < 256"
    by (rule unat_byte_less)
  then have mul: "MUL_OVERFLOW (unat m) (RPMB_SIZE_MULT_UNIT div RPMB_DATA_SIZE) = (False, unat m * 512)"
    by (simp add: MUL_OVERFLOW_def arith64)
  let ?f2 = "f\<lparr>rfe_backend := Some b, rfe_block_count := unat m * 512\<rparr>"
  obtain c1 where key: "rpmb_derive_key ?pif ?f2 ?cid (rfe_key f)
      = Some (PSA_SUCCESS, sha (dummy_huk @ ?cid), ?f2\<lparr>rfe_platform := Some c1\<rparr>)"
    using hash_pieces_works [OF crypto f(4), of c "[dummy_huk, ?cid]"] f(1)
    by (auto simp: rpmb_derive_key_def rpmb_platform_default_interface_def rpmb_platform_derive_key_def)
  let ?f4 = "?f2\<lparr>rfe_platform := Some c1, rfe_key := sha (dummy_huk @ ?cid)\<rparr>"
  obtain c2 where unset: "rpmb_is_key_set ?pif ?bif ?f4 = Some (False, ?f4\<lparr>rfe_platform := Some c2\<rparr>)"
    using read_counter_of_device [OF crypto, of ?f4 c1 b] b(2) f by (auto simp: rpmb_is_key_set_def)
  let ?f5 = "?f4\<lparr>rfe_platform := Some c2\<rparr>"
  obtain b' where wk: "rpmb_write_key ?bif ?f5 = Some (PSA_SUCCESS, ?f5\<lparr>rfe_backend := Some b'\<rparr>)"
    and b': "rbe_key_programmed b'" "rbe_key b' = rfe_key ?f5" "rbe_buffer b' = rbe_buffer b"
      "rbe_buffer_size b' = rbe_buffer_size b" "rbe_write_counter b' = rbe_write_counter b" "frame_ok (rbe_result b')"
    using write_key_to_device [of ?f5 b sha] b(2) f by auto
  let ?f6 = "?f5\<lparr>rfe_backend := Some b'\<rparr>"
  obtain c3 where rc: "rpmb_read_write_counter ?pif ?bif ?f6
      = Some (PSA_SUCCESS, ?f6\<lparr>rfe_platform := Some c3, rfe_write_counter := rbe_write_counter b'\<rparr>)"
    using read_counter_of_device [OF crypto, of ?f6 c2 b'] b' f by auto
  let ?f7 = "?f6\<lparr>rfe_platform := Some c3, rfe_write_counter := rbe_write_counter b', rfe_initialized := True\<rparr>"
  have "rpmb_frontend_init True ?pif ?bif f = Some (PSA_SUCCESS, ?f7)"
    using f info size(2) mul key unset wk rc by (simp add: rpmb_frontend_init_def Let_def)
  moreover have "in_sync ?f7 b'"
    using b b' f size(1) by (simp add: in_sync_def emulated_ok_def split: option.splits)
  ultimately show ?thesis
    using b' by auto
qed


text \<open>
  Property C15. End to end on a blank device: initialisation derives the key, programs it and takes
  over the counter; writing \<open>n\<close> blocks succeeds, and reading them back returns the bytes
  written. The block numbers have to fit the 16-bit address field and the counter must not
  be used up.
\<close>

theorem rpmb_frontend_round_trip:
  assumes "crypto_works api sha absorbed" and "hash_sized sha"
    and "rpmb_backend_emulated_init alloc_ok (Some b0) size_mult = (True, Some b)"
    and "\<not> rbe_key_programmed b0" and "frame_ok (rbe_result b0)" and "unat (rbe_write_counter b0) + n < 2 ^ 32"
    and "rpmb_frontend_create (Some g) (Some p) (Some b) 0 = (PSA_SUCCESS, Some f)"
    and "0 < n" and "n < 65536" and "unat bi + n \<le> unat size_mult * 512" and "unat bi + n \<le> 65536"
    and "length d = n * RPMB_DATA_SIZE" and "length out = n * RPMB_DATA_SIZE" and "alloc_ok (n * RPMB_FRAME_SIZE)"
  shows "\<exists>f1 f2 f3.
      rpmb_frontend_init True (rpmb_platform_default_interface api) (rpmb_backend_emulated_interface sha) f
        = Some (PSA_SUCCESS, f1)
    \<and> rpmb_frontend_write (rpmb_platform_default_interface api) (rpmb_backend_emulated_interface sha) (Some f1) bi d n
        = Some (PSA_SUCCESS, Some f2)
    \<and> rpmb_frontend_read alloc_ok (rpmb_platform_default_interface api) (rpmb_backend_emulated_interface sha) (Some f2) bi out n
        = Some (PSA_SUCCESS, d, f3)"
proof -
  have b: "emulated_ok b"
    using assms(3,5) by (rule emulated_init_ok)
  have b': "\<not> rbe_key_programmed b" "rbe_write_counter b = rbe_write_counter b0"
    "rbe_buffer_size b = unat size_mult * RPMB_SIZE_MULT_UNIT" "size_mult \<noteq> 0"
    using assms(3,4) by (auto simp: rpmb_backend_emulated_init_def Let_def split: if_splits)
  have f: "rfe_platform f = Some p" "rfe_backend f = Some b" "rfe_dev_id f = 0" "length (rfe_key f) = RPMB_KEY_MAC_SIZE"
    using assms(7) by (auto simp: rpmb_frontend_create_def zero_frontend_def)
  obtain f1 b1 where i: "rpmb_frontend_init True (rpmb_platform_default_interface api) (rpmb_backend_emulated_interface sha) f
      = Some (PSA_SUCCESS, f1)" "in_sync f1 b1" "rfe_block_count f1 = unat size_mult * 512"
      "rfe_write_counter f1 = rbe_write_counter b"
    using init_in_sync [OF assms(1) b b'(1,3,4) f] by blast
  have bc: "rfe_block_count f1 < 2 ^ 63"
    using i(3) unat_byte_less [of size_mult] by simp
  have range: "block_range_ok f1 bi n" and range': "unat bi + n \<le> rfe_block_count f1"
    using assms(8,10) i(3) bc by (simp_all add: block_range_ok_def ADD_OVERFLOW_def arith64)
  obtain f2 b2 where w: "rpmb_write_loop (rpmb_platform_default_interface api) (rpmb_backend_emulated_interface sha) f1 bi d n 0
      = Some (PSA_SUCCESS, f2)" "in_sync f2 b2" "rfe_block_count f2 = rfe_block_count f1"
      "rbe_buffer b2 = Some (splice (the (rbe_buffer b1)) (unat bi * RPMB_DATA_SIZE) d)"
    using write_loop_writes [OF assms(1,2) i(2), of n 0 bi d] assms(6,9,11,12) i(4) b'(2) range' slice_all [of d]
    by auto
  obtain buf where buf: "rbe_buffer b1 = Some buf" "length buf = rfe_block_count f1 * RPMB_DATA_SIZE"
    using i(2) by (auto simp: in_sync_def elim: emulated_okE)
  have "unat bi * RPMB_DATA_SIZE + length d \<le> length buf"
    unfolding buf(2) assms(12) using mult_le_mono1 [OF range', of RPMB_DATA_SIZE] by (simp add: add_mult_distrib)
  then have got: "slice (the (rbe_buffer b2)) (unat bi * RPMB_DATA_SIZE) (n * RPMB_DATA_SIZE) = d"
    using slice_splice_same [of "unat bi * RPMB_DATA_SIZE" d buf] w(4) buf(1) assms(12) by simp
  have "splice out 0 d = d"
    using assms(12,13) by (simp add: splice_def)
  moreover have "rpmb_frontend_write (rpmb_platform_default_interface api) (rpmb_backend_emulated_interface sha) (Some f1) bi d n
      = Some (PSA_SUCCESS, Some f2)"
    using i(2) range assms(8) w(1) by (simp add: rpmb_frontend_write_def in_sync_def)
  ultimately show ?thesis
    using i(1) read_in_sync [OF assms(1,2) w(2) assms(8,9), of bi alloc_ok out] range' bc w(3) assms(13,14) got
    by auto
qed

text \<open>A stand-in for the crypto library: the state is the input absorbed so far.\<close>

definition sample_api :: "bytes psa_crypto_api" where
  "sample_api =
     \<lparr>psa_hash_setup = (\<lambda>c. (PSA_SUCCESS, [])), psa_hash_update = (\<lambda>c d. (PSA_SUCCESS, c @ d)),
      psa_hash_finish = (\<lambda>c n. (PSA_SUCCESS, sample_sha c, RPMB_KEY_MAC_SIZE, [])),
      psa_generate_random = (\<lambda>c n. (PSA_SUCCESS, replicate n 9, c))\<rparr>"

lemma sample_api_works: "crypto_works sample_api sample_sha (\<lambda>c. c)"
  by (simp add: crypto_works_def sample_api_def)

theorem rpmb_frontend_round_trip_witness:
  "\<exists>f1 f2 f3.
      rpmb_frontend_init True (rpmb_platform_default_interface sample_api) (rpmb_backend_emulated_interface sample_sha)
        (zero_frontend\<lparr>rfe_platform := Some [], rfe_backend := Some sample_device\<rparr>) = Some (PSA_SUCCESS, f1)
    \<and> rpmb_frontend_write (rpmb_platform_default_interface sample_api) (rpmb_backend_emulated_interface sample_sha)
        (Some f1) 510 (replicate 512 7) 2 = Some (PSA_SUCCESS, Some f2)
    \<and> rpmb_frontend_read (\<lambda>_. True) (rpmb_platform_default_interface sample_api)
        (rpmb_backend_emulated_interface sample_sha) (Some f2) 510 (replicate 512 0) 2
        = Some (PSA_SUCCESS, replicate 512 7, f3)"
  using rpmb_frontend_round_trip [OF sample_api_works sample_sha_sized sample_device_init,
      of 2 zero_frontend "[]" "zero_frontend\<lparr>rfe_platform := Some [], rfe_backend := Some sample_device\<rparr>" 510
        "replicate 512 7" "replicate 512 0"]
  by (simp add: blank_device_def rpmb_frontend_create_def zero_frontend_def)

text \<open>A frontend in sync with the device \<open>keyed_device\<close>.\<close>

definition sample_frontend :: "(bytes, rpmb_backend_emulated) rpmb_frontend" where
  "sample_frontend = zero_frontend\<lparr>rfe_platform := Some [], rfe_backend := Some keyed_device, rfe_initialized := True,
     rfe_block_count := 512\<rparr>"

lemma sample_frontend_fields [simp]:
  "rfe_platform sample_frontend = Some []" "rfe_backend sample_frontend = Some keyed_device"
  "rfe_block_count sample_frontend = 512" "rfe_initialized sample_frontend"
  "rfe_key sample_frontend = replicate RPMB_KEY_MAC_SIZE 0" "rfe_write_counter sample_frontend = 0"
  "rfe_dev_id sample_frontend = 0"
  by (simp_all add: sample_frontend_def zero_frontend_def)

lemma sample_frontend_sync: "in_sync sample_frontend keyed_device"
  by (simp add: in_sync_def keyed_device_ok)

theorem rpmb_read_authentic_witness:
  "\<exists>d' f' nonce f1 frames b'.
      rpmb_frontend_read (\<lambda>_. True) (rpmb_platform_default_interface sample_api) (rpmb_backend_emulated_interface sample_sha)
        (Some sample_frontend) 4 (replicate 256 1) 1 = Some (PSA_SUCCESS, d', f')
    \<and> rpmb_get_nonce (rpmb_platform_default_interface sample_api) sample_frontend = Some (PSA_SUCCESS, nonce, f1)
    \<and> rbi_data_request (rpmb_backend_emulated_interface sample_sha) keyed_device 0 (read_request nonce 4 1) 0 1 0 1
        = Some (PSA_SUCCESS, frames, 1, b')
    \<and> length frames = 1 \<and> rf_key_mac (last frames) = frames_mac sample_sha (replicate RPMB_KEY_MAC_SIZE 0) frames
    \<and> (\<forall>frame \<in> set frames. frame_answers nonce 4 1 frame)
    \<and> d' = splice (replicate 256 1) 0 (concat (map rf_data frames))"
proof -
  obtain d' f' where r: "rpmb_frontend_read (\<lambda>_. True) (rpmb_platform_default_interface sample_api)
      (rpmb_backend_emulated_interface sample_sha) (Some sample_frontend) 4 (replicate 256 1) 1 = Some (PSA_SUCCESS, d', f')"
    using read_in_sync [OF sample_api_works sample_sha_sized sample_frontend_sync, of 1 4 "\<lambda>_. True" "replicate 256 1"] by auto
  then show ?thesis
    using rpmb_read_authentic [OF sample_api_works emulated_backend_typed [OF sample_sha_sized] _ _ _ _ r] keyed_device_ok
    by simp
qed


section \<open>Refused writes\<close>

text \<open>The response the device signs for a write, and the one it sends.\<close>

definition signed_response :: "u16 \<Rightarrow> u32 \<Rightarrow> rpmb_data_frame" where
  "signed_response address counter = zero_frame\<lparr>rf_msg_type := u16_to_rpmb_field RPMB_RESP_TYPE_AUTHENTICATED_DATA_WRITE,
     rf_address := u16_to_rpmb_field address, rf_write_counter := u32_to_rpmb_field counter\<rparr>"

text \<open>
  Property C38. The device computes the MAC of a write response before it stores the result code in
  it. So when it refuses a write, here because the counter is out of step, its response does
  not verify, and the frontend reports \<open>PSA_ERROR_INVALID_SIGNATURE\<close> and not the result, unless
  the hash happens to agree on the two frames.
\<close>

theorem rpmb_refused_write_unverifiable:
  assumes "crypto_works api sha absorbed" and "hash_sized sha"
    and "in_sync (f\<lparr>rfe_write_counter := rbe_write_counter b\<rparr>) b"
    and "rfe_write_counter f \<noteq> rbe_write_counter b" and "rbe_write_counter b \<noteq> 0xffffffff"
    and "frames_mac sha (rfe_key f) [signed_response bi (rbe_write_counter b)]
      \<noteq> frames_mac sha (rfe_key f) [(signed_response bi (rbe_write_counter b))
          \<lparr>rf_op_result := u16_to_rpmb_field RPMB_RES_COUNTER_FAILURE\<rparr>]"
    and "0 < n" and "unat bi + n \<le> rfe_block_count f" and "rfe_block_count f < 2 ^ 63" and "RPMB_DATA_SIZE \<le> length d"
  shows "\<exists>f'. rpmb_frontend_write (rpmb_platform_default_interface api) (rpmb_backend_emulated_interface sha) (Some f) bi d n
    = Some (PSA_ERROR_INVALID_SIGNATURE, Some f')"
proof -
  let ?pif = "rpmb_platform_default_interface api" and ?bif = "rpmb_backend_emulated_interface sha"
  let ?blk = "slice d 0 RPMB_DATA_SIZE"
  let ?w = "write_frame sha (rfe_key f) (rfe_write_counter f) bi ?blk"
  let ?p = "zero_frame\<lparr>rf_data := ?blk, rf_write_counter := u32_to_rpmb_field (rfe_write_counter f),
     rf_address := u16_to_rpmb_field bi, rf_block_count := u16_to_rpmb_field 1,
     rf_msg_type := u16_to_rpmb_field RPMB_REQ_TYPE_AUTHENTICATED_DATA_WRITE\<rparr>"
  obtain cs where cs: "rfe_platform f = Some cs"
    using assms(3) by (auto simp: in_sync_def)
  have b: "emulated_ok b" "rbe_key_programmed b" "rbe_key b = rfe_key f" "rfe_backend f = Some b" "rfe_dev_id f = 0"
    "rbe_buffer_size b = rfe_block_count f * RPMB_DATA_SIZE" "rfe_initialized f"
    using assms(3) by (simp_all add: in_sync_def)
  have lb: "length ?blk = RPMB_DATA_SIZE" and rd: "mem_read d 0 RPMB_DATA_SIZE = Some ?blk"
    using assms(10) by (simp_all add: mem_read_in)
  obtain c1 where mac: "rpmb_calculate_mac ?pif f [?p]
      = Some (PSA_SUCCESS, frames_mac sha (rfe_key f) [?p], f\<lparr>rfe_platform := Some c1\<rparr>)"
    using default_calculate_mac [OF assms(1) cs, of "[?p]"] by blast
  have w: "?p\<lparr>rf_key_mac := frames_mac sha (rfe_key f) [?p]\<rparr> = ?w"
    by (simp add: write_frame_def Let_def)
  have "check_write_request sha b ?w = RPMB_RES_COUNTER_FAILURE"
    using assms(4,5,7,8) b(3,6)
    by (simp add: check_write_request_def rpmb_address_exact write_frame_def calculate_mac_def Let_def)
  then obtain b' where b': "rpmb_emulated_authenticated_data_write sha b ?w = Some b'"
    and res: "rbe_result b' = (signed_response bi (rbe_write_counter b))
      \<lparr>rf_key_mac := frames_mac sha (rfe_key f) [signed_response bi (rbe_write_counter b)],
       rf_op_result := u16_to_rpmb_field RPMB_RES_COUNTER_FAILURE\<rparr>"
    using data_write_returns [OF b(1) write_frame_ok [OF assms(2) lb, of "rfe_key f" "rfe_write_counter f" bi] assms(2)] b(2,3)
    by (auto simp: Let_def calculate_mac_def signed_response_def)
  let ?f2 = "f\<lparr>rfe_platform := Some c1, rfe_backend := Some b'\<rparr>"
  have req: "\<exists>mem. frontend_request ?bif (f\<lparr>rfe_platform := Some c1\<rparr>)
      [?w, zero_frame\<lparr>rf_msg_type := u16_to_rpmb_field RPMB_REQ_TYPE_RESULT_READ_REQUEST\<rparr>] 2 1
      = Some (PSA_SUCCESS, rbe_result b' # mem, 1, ?f2)"
    using emulated_write_and_result [OF b'] b(4,5)
    by (auto simp: frontend_request_def rpmb_backend_data_request_def rpmb_backend_emulated_interface_def)
  obtain c2 where mac2: "rpmb_calculate_mac ?pif ?f2 [rbe_result b']
      = Some (PSA_SUCCESS, frames_mac sha (rfe_key f) [rbe_result b'], ?f2\<lparr>rfe_platform := Some c2\<rparr>)"
    using default_calculate_mac [OF assms(1), of ?f2 c1 "[rbe_result b']"] by auto
  have "frames_mac sha (rfe_key f) [rbe_result b'] \<noteq> rf_key_mac (rbe_result b')"
    using assms(6) unfolding res by (simp add: frames_mac_def frame_tail_def)
  then have "rpmb_write_loop ?pif ?bif f bi d n 0 = Some (PSA_ERROR_INVALID_SIGNATURE, ?f2\<lparr>rfe_platform := Some c2\<rparr>)"
    using assms(7) rd mac w req mac2
    by (subst rpmb_write_loop.simps) (auto simp: Let_def array_get_def)
  moreover have "block_range_ok f bi n"
    using assms(7-9) by (simp add: block_range_ok_def ADD_OVERFLOW_def arith64)
  ultimately show ?thesis
    using b(7) assms(7) by (simp add: rpmb_frontend_write_def)
qed

theorem rpmb_refused_write_unverifiable_witness:
  "\<exists>f'. rpmb_frontend_write (rpmb_platform_default_interface sample_api) (rpmb_backend_emulated_interface sample_sha)
      (Some (sample_frontend\<lparr>rfe_write_counter := 5\<rparr>)) 4 (replicate 256 1) 1 = Some (PSA_ERROR_INVALID_SIGNATURE, Some f')"
proof -
  have "frames_mac sample_sha (replicate RPMB_KEY_MAC_SIZE 0) [signed_response 4 0] ! 2
      \<noteq> frames_mac sample_sha (replicate RPMB_KEY_MAC_SIZE 0)
          [(signed_response 4 0)\<lparr>rf_op_result := u16_to_rpmb_field RPMB_RES_COUNTER_FAILURE\<rparr>] ! 2"
    by (simp add: frames_mac_def frame_tail_def signed_response_def zero_frame_def sample_sha_def
        u16_to_rpmb_field_def nth_append)
  then have "frames_mac sample_sha (replicate RPMB_KEY_MAC_SIZE 0) [signed_response 4 0]
      \<noteq> frames_mac sample_sha (replicate RPMB_KEY_MAC_SIZE 0)
          [(signed_response 4 0)\<lparr>rf_op_result := u16_to_rpmb_field RPMB_RES_COUNTER_FAILURE\<rparr>]"
    by metis
  moreover have "in_sync (sample_frontend\<lparr>rfe_write_counter := 5, rfe_write_counter := rbe_write_counter keyed_device\<rparr>) keyed_device"
    using sample_frontend_sync by (simp add: in_sync_def)
  ultimately show ?thesis
    using rpmb_refused_write_unverifiable [OF sample_api_works sample_sha_sized,
        where f = "sample_frontend\<lparr>rfe_write_counter := 5\<rparr>" and b = keyed_device and bi = 4 and n = 1
          and d = "replicate 256 1"] by simp
qed

end
