(* ===== verification/RpmbBlockStore.thy ===== *)
theory RpmbBlockStore
  imports RpmbFrontend BlockDevice
begin

text \<open>
  The block store over replay protected memory (\<open>rpmb_block_store.c\<close>): a block device whose
  blocks are the RPMB blocks of a frontend. The frontend takes a 16-bit block number, so the
  64-bit \<open>lba\<close> is truncated at the call.
\<close>

section \<open>Operations\<close>

record ('p, 'b) rpmb_block_store =
  rps_base_block_device :: block_device
  rps_frontend :: "('p, 'b) rpmb_frontend option"

definition rpmb_block_store_get_partition_info ::
  "('p, 'b) rpmb_block_store \<Rightarrow> uuid_octets \<Rightarrow>
    (psa_status \<times> storage_partition_info option \<times> ('p, 'b) rpmb_block_store) option" where
  "rpmb_block_store_get_partition_info r partition_guid =
     (let (st, info) = block_device_get_partition_info (rps_base_block_device r) partition_guid
      in Some (st, info, r))"

definition rpmb_block_store_open ::
  "('p, 'b) rpmb_block_store \<Rightarrow> u32 \<Rightarrow> uuid_octets \<Rightarrow>
    (psa_status \<times> storage_partition_handle_t \<times> ('p, 'b) rpmb_block_store) option" where
  "rpmb_block_store_open r client_id partition_guid =
     (let (st, h, bd) = block_device_open (rps_base_block_device r) client_id partition_guid
      in Some (st, h, r\<lparr>rps_base_block_device := bd\<rparr>))"

definition rpmb_block_store_close ::
  "('p, 'b) rpmb_block_store \<Rightarrow> u32 \<Rightarrow> storage_partition_handle_t \<Rightarrow>
    (psa_status \<times> ('p, 'b) rpmb_block_store) option" where
  "rpmb_block_store_close r client_id handle =
     Some (block_device_close (rps_base_block_device r) client_id handle, r)"

definition rpmb_block_store_read ::
  "(size_t \<Rightarrow> bool) \<Rightarrow> 'p rpmb_platform_interface \<Rightarrow> 'b rpmb_backend_interface \<Rightarrow> ('p, 'b) rpmb_block_store \<Rightarrow> u32 \<Rightarrow>
    storage_partition_handle_t \<Rightarrow> lba_t \<Rightarrow> size_t \<Rightarrow> size_t \<Rightarrow> (psa_status \<times> bytes \<times> ('p, 'b) rpmb_block_store) option" where
  "rpmb_block_store_read alloc_ok pif bif r client_id handle lba offset buffer_size =
     (if RPMB_DATA_SIZE \<le> offset then Some (PSA_ERROR_INVALID_ARGUMENT, [], r)
      else if fst (ADD_OVERFLOW offset buffer_size) then Some (PSA_ERROR_INVALID_ARGUMENT, [], r)
      else
        (let status = block_device_check_access_permitted (rps_base_block_device r) client_id handle
         in if status \<noteq> PSA_SUCCESS then Some (status, [], r)
            else if \<not> storage_partition_is_lba_legal (bd_storage_partition (rps_base_block_device r)) lba
            then Some (PSA_ERROR_INVALID_ARGUMENT, [], r)
            else do {
              (status, temp, f) \<leftarrow>
                rpmb_frontend_read alloc_ok pif bif (rps_frontend r) (word_of_nat lba) (replicate RPMB_DATA_SIZE 0) 1;
              let r1 = r\<lparr>rps_frontend := f\<rparr>;
              if status \<noteq> PSA_SUCCESS then Some (status, [], r1)
              else do {
                d \<leftarrow> mem_read temp offset (min buffer_size (sub64 RPMB_DATA_SIZE offset));
                Some (PSA_SUCCESS, d, r1)
              }
            }))"

text \<open>\<open>num_written\<close> is what the caller's variable holds before the call: the store adds to it.\<close>

definition rpmb_block_store_write ::
  "(size_t \<Rightarrow> bool) \<Rightarrow> 'p rpmb_platform_interface \<Rightarrow> 'b rpmb_backend_interface \<Rightarrow> ('p, 'b) rpmb_block_store \<Rightarrow> u32 \<Rightarrow>
    storage_partition_handle_t \<Rightarrow> lba_t \<Rightarrow> size_t \<Rightarrow> bytes \<Rightarrow> size_t \<Rightarrow> (psa_status \<times> size_t \<times> ('p, 'b) rpmb_block_store) option" where
  "rpmb_block_store_write alloc_ok pif bif r client_id handle lba offset d num_written =
     (let status = block_device_check_access_permitted (rps_base_block_device r) client_id handle
      in if status \<noteq> PSA_SUCCESS then Some (status, num_written, r)
         else if \<not> storage_partition_is_lba_legal (bd_storage_partition (rps_base_block_device r)) lba
         then Some (PSA_ERROR_INVALID_ARGUMENT, num_written, r)
         else do {
           let copy_length = min (length d) (sub64 RPMB_DATA_SIZE offset);
           (status, temp, r1) \<leftarrow>
             (if copy_length \<noteq> RPMB_DATA_SIZE
              then do {
                (status, temp, f) \<leftarrow>
                  rpmb_frontend_read alloc_ok pif bif (rps_frontend r) (word_of_nat lba) (replicate RPMB_DATA_SIZE 0) 1;
                Some (status, temp, r\<lparr>rps_frontend := f\<rparr>)
              }
              else Some (PSA_SUCCESS, replicate RPMB_DATA_SIZE 0, r));
           if status \<noteq> PSA_SUCCESS then Some (status, num_written, r1)
           else do {
             temp1 \<leftarrow> mem_write temp offset (take copy_length d);
             (status, f) \<leftarrow> rpmb_frontend_write pif bif (rps_frontend r1) (word_of_nat lba) temp1 1;
             let r2 = r1\<lparr>rps_frontend := f\<rparr>;
             if status \<noteq> PSA_SUCCESS then Some (status, num_written, r2)
             else Some (PSA_SUCCESS, add64 num_written copy_length, r2)
           }
         })"

definition rpmb_block_store_erase ::
  "('p, 'b) rpmb_block_store \<Rightarrow> u32 \<Rightarrow> storage_partition_handle_t \<Rightarrow> lba_t \<Rightarrow> size_t \<Rightarrow>
    (psa_status \<times> ('p, 'b) rpmb_block_store) option" where
  "rpmb_block_store_erase r client_id handle begin_lba num_blocks = Some (PSA_SUCCESS, r)"

definition rpmb_block_store_init ::
  "('p, 'b) rpmb_block_store \<Rightarrow> uuid_octets option \<Rightarrow> ('p, 'b) rpmb_frontend \<Rightarrow> bool \<times> ('p, 'b) rpmb_block_store" where
  "rpmb_block_store_init r disk_guid frontend =
     (let r1 = r\<lparr>rps_frontend := Some frontend\<rparr>;
          (status, num_blocks) = rpmb_frontend_block_count frontend;
          (status2, block_size) = rpmb_frontend_block_size frontend
      in if status \<noteq> PSA_SUCCESS then (False, r1)
         else if status2 \<noteq> PSA_SUCCESS then (False, r1)
         else (True, r1\<lparr>rps_base_block_device := block_device_init disk_guid (the num_blocks) block_size\<rparr>))"

definition rpmb_block_store_deinit :: "('p, 'b) rpmb_block_store \<Rightarrow> ('p, 'b) rpmb_block_store" where
  "rpmb_block_store_deinit r =
     r\<lparr>rps_base_block_device := block_device_deinit (rps_base_block_device r)\<rparr>"


section \<open>Reading and writing blocks\<close>

lemma write_in_sync:
  assumes "crypto_works api sha absorbed" and "hash_sized sha" and "in_sync f b"
    and "rfe_write_counter f \<noteq> 0xffffffff" and "unat bi < rfe_block_count f" and "rfe_block_count f < 2 ^ 63"
    and "length d = RPMB_DATA_SIZE"
  obtains f' b' where
    "rpmb_frontend_write (rpmb_platform_default_interface api) (rpmb_backend_emulated_interface sha) (Some f) bi d 1
      = Some (PSA_SUCCESS, Some f')"
    and "in_sync f' b'" and "rfe_block_count f' = rfe_block_count f"
    and "rbe_buffer b' = Some (splice (the (rbe_buffer b)) (unat bi * RPMB_DATA_SIZE) d)"
proof -
  have "unat (rfe_write_counter f) + (1 - unat (0 :: u16)) < 2 ^ 32"
    using counter_increment(2) [OF assms(4)] unsigned_less [of "rfe_write_counter f + 1", where ?'a = nat] by simp
  moreover have "unat bi + 1 \<le> 65536"
    using unsigned_less [of bi, where ?'a = nat] by simp
  ultimately obtain f' b' where w: "rpmb_write_loop (rpmb_platform_default_interface api) (rpmb_backend_emulated_interface sha) f bi d 1 0
      = Some (PSA_SUCCESS, f')" "in_sync f' b'" "rfe_block_count f' = rfe_block_count f"
      "rbe_buffer b' = Some (splice (the (rbe_buffer b)) (unat bi * RPMB_DATA_SIZE) d)"
    using write_loop_writes [OF assms(1-3), of 1 0 bi d] assms(5,7) slice_all [of d] by auto
  moreover have "block_range_ok f bi 1" and "rfe_initialized f"
    using assms(3,5,6) by (simp_all add: block_range_ok_def ADD_OVERFLOW_def arith64 in_sync_def)
  ultimately show thesis
    by (intro that [of f' b']) (simp_all add: rpmb_frontend_write_def)
qed

text \<open>The store is set up over a frontend that is in sync with a device whose blocks can all be
  addressed, and the client has access.\<close>

definition rpmb_store_ready ::
  "(bytes, rpmb_backend_emulated) rpmb_block_store \<Rightarrow> rpmb_backend_emulated \<Rightarrow> u32 \<Rightarrow> bool" where
  "rpmb_store_ready r b client_id \<longleftrightarrow>
     (\<exists>f. rps_frontend r = Some f \<and> in_sync f b \<and> rfe_block_count f \<le> 65536
        \<and> prt_num_blocks (bd_storage_partition (rps_base_block_device r)) = rfe_block_count f)
     \<and> block_device_check_access_permitted (rps_base_block_device r) client_id BLOCK_DEVICE_PARTITION_HANDLE = PSA_SUCCESS"

text \<open>The write has no check of its offset, unlike the read. From the end of the block on,
  \<open>sizeof(temp) - offset\<close> wraps and the copy runs past the block buffer on the stack.\<close>

theorem rpmb_store_write_overruns:
  assumes "block_device_check_access_permitted (rps_base_block_device r) client_id handle = PSA_SUCCESS"
    and "storage_partition_is_lba_legal (bd_storage_partition (rps_base_block_device r)) lba"
    and "RPMB_DATA_SIZE < offset" and "offset < 2 ^ 64" and "length d = RPMB_DATA_SIZE"
  shows "rpmb_block_store_write alloc_ok pif bif r client_id handle lba offset d num_written = None"
proof -
  have "sub64 RPMB_DATA_SIZE offset = 2 ^ 64 + RPMB_DATA_SIZE - offset"
    using assms(3,4) by (simp add: sub64_def)
  then have "min (length d) (sub64 RPMB_DATA_SIZE offset) = RPMB_DATA_SIZE"
    using assms(4,5) by simp
  then show ?thesis
    using assms(1,2,3,5) by (simp add: rpmb_block_store_write_def mem_write_def)
qed


text \<open>Within a block, what is written is read back, whatever part of the block it is.\<close>

lemma rpmb_store_read_ready:
  assumes "crypto_works api sha absorbed" and "hash_sized sha" and "rpmb_store_ready r b c" and "alloc_ok RPMB_FRAME_SIZE"
    and "storage_partition_is_lba_legal (bd_storage_partition (rps_base_block_device r)) lba"
  obtains f where
    "rpmb_frontend_read alloc_ok (rpmb_platform_default_interface api) (rpmb_backend_emulated_interface sha)
       (rps_frontend r) (word_of_nat lba) (replicate RPMB_DATA_SIZE 0) 1
     = Some (PSA_SUCCESS, slice (the (rbe_buffer b)) (lba * RPMB_DATA_SIZE) RPMB_DATA_SIZE, Some f)"
    and "rpmb_store_ready (r\<lparr>rps_frontend := Some f\<rparr>) b c"
    and "\<exists>f0. rps_frontend r = Some f0 \<and> rfe_write_counter f = rfe_write_counter f0"
proof -
  obtain f where f: "rps_frontend r = Some f" "in_sync f b" "rfe_block_count f \<le> 65536"
    "prt_num_blocks (bd_storage_partition (rps_base_block_device r)) = rfe_block_count f"
    and acc: "block_device_check_access_permitted (rps_base_block_device r) c BLOCK_DEVICE_PARTITION_HANDLE = PSA_SUCCESS"
    using assms(3) by (auto simp: rpmb_store_ready_def)
  have lba: "lba < rfe_block_count f"
    using assms(5) f(4) by (simp add: storage_partition_is_lba_legal_def)
  then have u: "unat (word_of_nat lba :: u16) = lba"
    using f(3) by (simp add: unat_of_nat)
  obtain buf where buf: "rbe_buffer b = Some buf" "length buf = rfe_block_count f * RPMB_DATA_SIZE"
    using f(2) by (auto simp: in_sync_def elim: emulated_okE)
  have "Suc lba * RPMB_DATA_SIZE \<le> rfe_block_count f * RPMB_DATA_SIZE"
    using lba by (intro mult_le_mono1) simp
  then have l: "length (slice buf (lba * RPMB_DATA_SIZE) RPMB_DATA_SIZE) = RPMB_DATA_SIZE"
    using buf(2) by simp
  then have s: "splice (replicate RPMB_DATA_SIZE 0) 0 (slice buf (lba * RPMB_DATA_SIZE) RPMB_DATA_SIZE)
      = slice buf (lba * RPMB_DATA_SIZE) RPMB_DATA_SIZE"
    by (simp add: splice_def)
  obtain f' where r: "rpmb_frontend_read alloc_ok (rpmb_platform_default_interface api) (rpmb_backend_emulated_interface sha)
      (Some f) (word_of_nat lba) (replicate RPMB_DATA_SIZE 0) 1
     = Some (PSA_SUCCESS, slice buf (lba * RPMB_DATA_SIZE) RPMB_DATA_SIZE, Some f')" "in_sync f' b"
    using read_in_sync [OF assms(1,2) f(2), of 1 "word_of_nat lba" alloc_ok "replicate RPMB_DATA_SIZE 0"]
      lba u f(3) assms(4) buf(1) s by auto
  have c: "rfe_block_count f' = rfe_block_count f" "rfe_write_counter f' = rfe_write_counter f"
    using r(2) f(2) by (simp_all add: in_sync_def)
  show thesis
    by (rule that [of f']) (use r f acc c buf in \<open>auto simp: rpmb_store_ready_def\<close>)
qed


text \<open>The block buffer a write starts from: zeros when it will be overwritten whole, else what the
  block holds.\<close>

lemma rpmb_store_write_buffer:
  assumes crypto: "crypto_works api sha absorbed" "hash_sized sha" and ready: "rpmb_store_ready r b c"
    and alloc: "alloc_ok RPMB_FRAME_SIZE"
    and lba: "storage_partition_is_lba_legal (bd_storage_partition (rps_base_block_device r)) lba"
  shows "\<exists>temp f0. (if n \<noteq> RPMB_DATA_SIZE
        then do {
          (status, temp, f) \<leftarrow>
            rpmb_frontend_read alloc_ok (rpmb_platform_default_interface api) (rpmb_backend_emulated_interface sha)
              (rps_frontend r) (word_of_nat lba) (replicate RPMB_DATA_SIZE 0) 1;
          Some (status, temp, r\<lparr>rps_frontend := f\<rparr>)
        }
        else Some (PSA_SUCCESS, replicate RPMB_DATA_SIZE 0, r)) = Some (PSA_SUCCESS, temp, r\<lparr>rps_frontend := Some f0\<rparr>)
    \<and> length temp = RPMB_DATA_SIZE \<and> in_sync f0 b \<and> rfe_block_count f0 \<le> 65536
    \<and> prt_num_blocks (bd_storage_partition (rps_base_block_device r)) = rfe_block_count f0"
proof (cases "n = RPMB_DATA_SIZE")
  case True
  obtain f where f: "rps_frontend r = Some f" "in_sync f b" "rfe_block_count f \<le> 65536"
    "prt_num_blocks (bd_storage_partition (rps_base_block_device r)) = rfe_block_count f"
    using ready by (auto simp: rpmb_store_ready_def)
  have "r = r\<lparr>rps_frontend := Some f\<rparr>"
    using f(1) by (cases r) simp
  with True f show ?thesis
    by (intro exI [of _ "replicate RPMB_DATA_SIZE 0"] exI [of _ f]) simp
next
  case False
  let ?pif = "rpmb_platform_default_interface api" and ?bif = "rpmb_backend_emulated_interface sha"
  obtain f where f: "rpmb_frontend_read alloc_ok ?pif ?bif (rps_frontend r) (word_of_nat lba) (replicate RPMB_DATA_SIZE 0) 1
     = Some (PSA_SUCCESS, slice (the (rbe_buffer b)) (lba * RPMB_DATA_SIZE) RPMB_DATA_SIZE, Some f)"
    "rpmb_store_ready (r\<lparr>rps_frontend := Some f\<rparr>) b c"
    using rpmb_store_read_ready [where alloc_ok = alloc_ok, OF crypto ready alloc lba] by blast
  have sync: "in_sync f b" "rfe_block_count f \<le> 65536"
    "prt_num_blocks (bd_storage_partition (rps_base_block_device r)) = rfe_block_count f"
    using f(2) by (auto simp: rpmb_store_ready_def)
  obtain buf where buf: "rbe_buffer b = Some buf" "length buf = rfe_block_count f * RPMB_DATA_SIZE"
    using sync(1) by (auto simp: in_sync_def elim: emulated_okE)
  have "Suc lba * RPMB_DATA_SIZE \<le> rfe_block_count f * RPMB_DATA_SIZE"
    using lba sync(3) by (intro mult_le_mono1) (simp add: storage_partition_is_lba_legal_def)
  with f(1) False sync buf show ?thesis
    by auto
qed

theorem rpmb_store_round_trip:
  assumes crypto: "crypto_works api sha absorbed" "hash_sized sha" and ready: "rpmb_store_ready r b c"
    and alloc: "alloc_ok RPMB_FRAME_SIZE"
    and lba: "storage_partition_is_lba_legal (bd_storage_partition (rps_base_block_device r)) lba"
    and off: "offset < RPMB_DATA_SIZE" and n: "n = min (length d) (RPMB_DATA_SIZE - offset)"
    and cnt: "rbe_write_counter b \<noteq> 0xffffffff"
  shows "\<exists>r1 r2.
      rpmb_block_store_write alloc_ok (rpmb_platform_default_interface api) (rpmb_backend_emulated_interface sha) r c
        BLOCK_DEVICE_PARTITION_HANDLE lba offset d 0 = Some (PSA_SUCCESS, n, r1)
    \<and> rpmb_block_store_read alloc_ok (rpmb_platform_default_interface api) (rpmb_backend_emulated_interface sha) r1 c
        BLOCK_DEVICE_PARTITION_HANDLE lba offset n = Some (PSA_SUCCESS, take n d, r2)"
proof -
  let ?pif = "rpmb_platform_default_interface api" and ?bif = "rpmb_backend_emulated_interface sha"
  let ?part = "bd_storage_partition (rps_base_block_device r)"
  have sub: "sub64 RPMB_DATA_SIZE offset = RPMB_DATA_SIZE - offset"
    using off by (simp add: arith64)
  then have cl: "min (length d) (sub64 RPMB_DATA_SIZE offset) = n" and nb: "n < 2 ^ 64"
    by (simp_all add: n)
  have acc: "block_device_check_access_permitted (rps_base_block_device r) c BLOCK_DEVICE_PARTITION_HANDLE = PSA_SUCCESS"
    using ready by (simp add: rpmb_store_ready_def)
  obtain temp f0 where t: "(if n \<noteq> RPMB_DATA_SIZE
        then do {
          (status, temp, f) \<leftarrow>
            rpmb_frontend_read alloc_ok ?pif ?bif (rps_frontend r) (word_of_nat lba) (replicate RPMB_DATA_SIZE 0) 1;
          Some (status, temp, r\<lparr>rps_frontend := f\<rparr>)
        }
        else Some (PSA_SUCCESS, replicate RPMB_DATA_SIZE 0, r)) = Some (PSA_SUCCESS, temp, r\<lparr>rps_frontend := Some f0\<rparr>)"
      "length temp = RPMB_DATA_SIZE" "in_sync f0 b" "rfe_block_count f0 \<le> 65536"
      "prt_num_blocks ?part = rfe_block_count f0"
    using rpmb_store_write_buffer [where alloc_ok = alloc_ok, OF crypto ready alloc lba, of n] by blast
  have lt: "lba < rfe_block_count f0" and u: "unat (word_of_nat lba :: u16) = lba"
    using lba t(4,5) by (simp_all add: storage_partition_is_lba_legal_def unat_of_nat)
  let ?temp1 = "splice temp offset (take n d)"
  have w: "mem_write temp offset (take n d) = Some ?temp1" "length ?temp1 = RPMB_DATA_SIZE"
    using t(2) n off by (simp_all add: mem_write_in)
  obtain f1 b1 where f1: "rpmb_frontend_write ?pif ?bif (Some f0) (word_of_nat lba) ?temp1 1 = Some (PSA_SUCCESS, Some f1)"
    "in_sync f1 b1" "rfe_block_count f1 = rfe_block_count f0"
    "rbe_buffer b1 = Some (splice (the (rbe_buffer b)) (lba * RPMB_DATA_SIZE) ?temp1)"
    using write_in_sync [OF crypto t(3) _ _ _ w(2), of "word_of_nat lba"] lt u t(3,4) cnt by (auto simp: in_sync_def)
  let ?r1 = "r\<lparr>rps_frontend := Some f1\<rparr>"
  have "rpmb_block_store_write alloc_ok ?pif ?bif r c BLOCK_DEVICE_PARTITION_HANDLE lba offset d 0 = Some (PSA_SUCCESS, n, ?r1)"
    using acc lba t(1) w(1) f1(1) nb by (simp add: rpmb_block_store_write_def cl Let_def arith64)
  moreover have ready1: "rpmb_store_ready ?r1 b1 c"
    using acc f1 t(4,5) by (simp add: rpmb_store_ready_def)
  obtain f2 where f2: "rpmb_frontend_read alloc_ok ?pif ?bif (rps_frontend ?r1) (word_of_nat lba) (replicate RPMB_DATA_SIZE 0) 1
     = Some (PSA_SUCCESS, slice (the (rbe_buffer b1)) (lba * RPMB_DATA_SIZE) RPMB_DATA_SIZE, Some f2)"
    using rpmb_store_read_ready [where alloc_ok = alloc_ok, OF crypto ready1 alloc, of lba] lba by auto
  obtain buf where buf: "rbe_buffer b = Some buf" "length buf = rfe_block_count f0 * RPMB_DATA_SIZE"
    using t(3) by (auto simp: in_sync_def elim: emulated_okE)
  have "Suc lba * RPMB_DATA_SIZE \<le> rfe_block_count f0 * RPMB_DATA_SIZE"
    using lt by (intro mult_le_mono1) simp
  then have blk: "slice (the (rbe_buffer b1)) (lba * RPMB_DATA_SIZE) RPMB_DATA_SIZE = ?temp1"
    using slice_splice_same [of "lba * RPMB_DATA_SIZE" ?temp1 buf] f1(4) buf w(2) by simp
  have ln: "length (take n d) = n" and fit: "offset + n \<le> RPMB_DATA_SIZE"
    using n off by simp_all
  then have "mem_read ?temp1 offset n = Some (take n d)"
    using slice_splice_same [of offset "take n d" temp] w(2) t(2) by (simp add: mem_read_in)
  then have "rpmb_block_store_read alloc_ok ?pif ?bif ?r1 c BLOCK_DEVICE_PARTITION_HANDLE lba offset n
      = Some (PSA_SUCCESS, take n d, ?r1\<lparr>rps_frontend := Some f2\<rparr>)"
    using acc lba f2 blk off fit n by (simp add: rpmb_block_store_read_def sub ADD_OVERFLOW_def min_def)
  ultimately show ?thesis by blast
qed

end
