(* ===== verification/FwDirectory.thy ===== *)
theory FwDirectory
  imports Prelude
begin

text \<open>
  The firmware directory of the update agent (\<open>fw_directory.c\<close>): what is known about the images
  of the booted firmware. It is filled by an inspector at start and read by everything else.
\<close>

section \<open>Status codes and data\<close>

text \<open>\<open>protocols/service/fwu/status.h\<close>\<close>

type_synonym fwu_status = int

abbreviation FWU_STATUS_SUCCESS :: fwu_status where "FWU_STATUS_SUCCESS \<equiv> 0"
abbreviation FWU_STATUS_UNKNOWN :: fwu_status where "FWU_STATUS_UNKNOWN \<equiv> - 1"
abbreviation FWU_STATUS_BUSY :: fwu_status where "FWU_STATUS_BUSY \<equiv> - 2"
abbreviation FWU_STATUS_OUT_OF_BOUNDS :: fwu_status where "FWU_STATUS_OUT_OF_BOUNDS \<equiv> - 3"
abbreviation FWU_STATUS_DENIED :: fwu_status where "FWU_STATUS_DENIED \<equiv> - 6"
abbreviation FWU_STATUS_NOT_AVAILABLE :: fwu_status where "FWU_STATUS_NOT_AVAILABLE \<equiv> - 8"

abbreviation FWU_MAX_FW_DIRECTORY_ENTRIES :: nat where "FWU_MAX_FW_DIRECTORY_ENTRIES \<equiv> 20"

type_synonym fw_uuid = bytes

datatype install_type =
  INSTALL_TYPE_WHOLE_VOLUME | INSTALL_TYPE_SUB_VOLUME | INSTALL_TYPE_WHOLE_VOLUME_COPY

record boot_info =
  bi_boot_index :: u32
  bi_active_index :: u32
  bi_previous_active_index :: u32

record image_info =
  ii_img_type_uuid :: fw_uuid
  ii_max_size :: size_t
  ii_lowest_accepted_version :: u32
  ii_active_version :: u32
  ii_permissions :: u32
  ii_image_index :: u32
  ii_location_id :: u32
  ii_install_type :: install_type

record fw_directory =
  fd_boot_info :: boot_info
  fd_num_images :: nat
  fd_entries :: "image_info list"

definition zero_image_info :: image_info where
  "zero_image_info =
     \<lparr>ii_img_type_uuid = replicate 16 0, ii_max_size = 0, ii_lowest_accepted_version = 0, ii_active_version = 0,
      ii_permissions = 0, ii_image_index = 0, ii_location_id = 0, ii_install_type = INSTALL_TYPE_WHOLE_VOLUME\<rparr>"

definition zero_boot_info :: boot_info where
  "zero_boot_info = \<lparr>bi_boot_index = 0, bi_active_index = 0, bi_previous_active_index = 0\<rparr>"


section \<open>Operations\<close>

definition fw_directory_init :: fw_directory where
  "fw_directory_init =
     \<lparr>fd_boot_info = zero_boot_info, fd_num_images = 0,
      fd_entries = replicate FWU_MAX_FW_DIRECTORY_ENTRIES zero_image_info\<rparr>"

definition fw_directory_deinit :: "fw_directory \<Rightarrow> fw_directory" where
  "fw_directory_deinit dir = dir"

definition fw_directory_set_boot_info :: "fw_directory \<Rightarrow> boot_info \<Rightarrow> fw_directory" where
  "fw_directory_set_boot_info dir info = dir\<lparr>fd_boot_info := info\<rparr>"

definition fw_directory_add_image_info :: "fw_directory \<Rightarrow> image_info \<Rightarrow> fwu_status \<times> fw_directory" where
  "fw_directory_add_image_info dir info =
     (if fd_num_images dir < FWU_MAX_FW_DIRECTORY_ENTRIES
      then (FWU_STATUS_SUCCESS,
            dir\<lparr>fd_entries := (fd_entries dir)
                  [fd_num_images dir := info\<lparr>ii_image_index := word_of_nat (fd_num_images dir)\<rparr>],
                fd_num_images := fd_num_images dir + 1\<rparr>)
      else (FWU_STATUS_UNKNOWN, dir))"

text \<open>The search gives the entry itself; the C function points into the table, whose entries are not changed once added.\<close>

fun find_image_from :: "fw_directory \<Rightarrow> fw_uuid \<Rightarrow> nat \<Rightarrow> nat \<Rightarrow> image_info option" where
  "find_image_from dir uuid i 0 = None"
| "find_image_from dir uuid i (Suc n) =
     (if uuid = ii_img_type_uuid (fd_entries dir ! i) then Some (fd_entries dir ! i)
      else find_image_from dir uuid (i + 1) n)"

definition fw_directory_find_image_info :: "fw_directory \<Rightarrow> fw_uuid \<Rightarrow> image_info option" where
  "fw_directory_find_image_info dir uuid = find_image_from dir uuid 0 (fd_num_images dir)"

definition fw_directory_get_boot_info :: "fw_directory \<Rightarrow> boot_info" where
  "fw_directory_get_boot_info dir = fd_boot_info dir"

definition fw_directory_get_image_info :: "fw_directory \<Rightarrow> nat \<Rightarrow> image_info option" where
  "fw_directory_get_image_info dir index =
     (if index < fd_num_images dir then Some (fd_entries dir ! index) else None)"

definition fw_directory_num_images :: "fw_directory \<Rightarrow> nat" where
  "fw_directory_num_images dir = fd_num_images dir"


section \<open>The directory is a list of numbered images\<close>

definition fw_images :: "fw_directory \<Rightarrow> image_info list" where
  "fw_images dir = take (fd_num_images dir) (fd_entries dir)"

definition fw_directory_ok :: "fw_directory \<Rightarrow> bool" where
  "fw_directory_ok dir \<longleftrightarrow>
     fd_num_images dir \<le> FWU_MAX_FW_DIRECTORY_ENTRIES \<and> length (fd_entries dir) = FWU_MAX_FW_DIRECTORY_ENTRIES
     \<and> (\<forall>i < fd_num_images dir. ii_image_index (fd_entries dir ! i) = word_of_nat i)"

lemma fw_directory_init_ok [simp]: "fw_directory_ok fw_directory_init"
  by (simp add: fw_directory_ok_def fw_directory_init_def)

lemma fw_directory_set_boot_info_ok [simp]:
  "fw_directory_ok (fw_directory_set_boot_info dir b) = fw_directory_ok dir"
  "fw_images (fw_directory_set_boot_info dir b) = fw_images dir"
  "fd_num_images (fw_directory_set_boot_info dir b) = fd_num_images dir"
  by (simp_all add: fw_directory_ok_def fw_directory_set_boot_info_def fw_images_def)

lemma length_fw_images [simp]: "fw_directory_ok dir \<Longrightarrow> length (fw_images dir) = fd_num_images dir"
  by (simp add: fw_directory_ok_def fw_images_def)

lemma fw_directory_add_ok:
  assumes "fw_directory_ok dir" and "fd_num_images dir < FWU_MAX_FW_DIRECTORY_ENTRIES"
  shows "fw_directory_ok (snd (fw_directory_add_image_info dir info))"
    and "fw_images (snd (fw_directory_add_image_info dir info))
      = fw_images dir @ [info\<lparr>ii_image_index := word_of_nat (fd_num_images dir)\<rparr>]"
  using assms
  by (auto simp: fw_directory_ok_def fw_directory_add_image_info_def fw_images_def nth_list_update less_Suc_eq
      take_Suc_conv_app_nth)

lemma find_image_from_eq:
  "find_image_from dir uuid i n
    = find (\<lambda>e. ii_img_type_uuid e = uuid) (map (\<lambda>k. fd_entries dir ! k) [i..<i + n])"
  by (induction n arbitrary: i) (auto simp: upt_conv_Cons simp del: upt_Suc)

lemma fw_directory_find_eq:
  assumes "fw_directory_ok dir"
  shows "fw_directory_find_image_info dir uuid = find (\<lambda>e. ii_img_type_uuid e = uuid) (fw_images dir)"
proof -
  have "map (\<lambda>k. fd_entries dir ! k) [0..<fd_num_images dir] = fw_images dir"
    using assms by (intro nth_equalityI) (simp_all add: fw_directory_ok_def fw_images_def)
  then show ?thesis
    by (simp add: fw_directory_find_image_info_def find_image_from_eq)
qed

lemma fw_directory_get_eq:
  "fw_directory_ok dir \<Longrightarrow>
    fw_directory_get_image_info dir i = (if i < length (fw_images dir) then Some (fw_images dir ! i) else None)"
  by (simp add: fw_directory_get_image_info_def fw_images_def fw_directory_ok_def)

text \<open>An image that is found carries its own position, which is below the limit.\<close>

lemma fw_directory_find_index:
  assumes "fw_directory_ok dir" and "fw_directory_find_image_info dir uuid = Some info"
  obtains i where "i < fd_num_images dir" and "info = fw_images dir ! i" and "unat (ii_image_index info) = i"
    and "i < FWU_MAX_FW_DIRECTORY_ENTRIES"
proof -
  obtain i where i: "i < length (fw_images dir)" "info = fw_images dir ! i"
    using assms by (auto simp: fw_directory_find_eq find_Some_iff)
  then have "ii_image_index info = word_of_nat i" and n: "i < FWU_MAX_FW_DIRECTORY_ENTRIES" "i < fd_num_images dir"
    using assms(1) by (auto simp: fw_directory_ok_def fw_images_def)
  then have "unat (ii_image_index info) = i"
    by (simp add: unat_of_nat)
  with i n that show thesis by blast
qed

end
