(* ===== verification/StreamManager.thy ===== *)
theory StreamManager
  imports FwDirectory
begin

text \<open>
  The stream manager of the update agent (\<open>stream_manager.c\<close>): a pool of stream contexts on a free
  list and a doubly linked list of open streams, handles with a rolling count, and recycling of
  the oldest stream when the pool is used up.

  A pointer to a context is its index in the pool; \<open>None\<close> is NULL. A source buffer, a firmware
  store and an installer are known by their addresses, the type variables \<open>'a\<close>, \<open>'f\<close> and \<open>'i\<close>;
  \<open>mem\<close> gives the present contents of the buffers. Closing and writing an install stream calls
  the firmware store, whose operations and state \<open>'w\<close> are parameters.
\<close>

section \<open>State\<close>

datatype fwu_stream_type = FWU_STREAM_TYPE_NONE | FWU_STREAM_TYPE_BUFFER | FWU_STREAM_TYPE_INSTALL

record 'a buffer_variant =
  bv_pos :: size_t
  bv_data :: 'a
  bv_data_len :: size_t

record ('f, 'i) install_variant =
  iv_fw_store :: 'f
  iv_installer :: 'i
  iv_image_info :: image_info

text \<open>The union: only the variant that was stored last can be read.\<close>

datatype ('a, 'f, 'i) stream_variant =
    Unset
  | Buffer (buffer: "'a buffer_variant")
  | Install (install: "('f, 'i) install_variant")

record ('a, 'f, 'i) stream_context =
  sc_type :: fwu_stream_type
  sc_handle :: u32
  sc_next :: "nat option"
  sc_prev :: "nat option"
  sc_variant :: "('a, 'f, 'i) stream_variant"

record ('a, 'f, 'i) stream_manager =
  sm_contexts :: "('a, 'f, 'i) stream_context list"
  sm_free :: "nat option"
  sm_active_head :: "nat option"
  sm_active_tail :: "nat option"
  sm_rolling_count :: u16

abbreviation FWU_STREAM_MANAGER_POOL_SIZE :: nat where "FWU_STREAM_MANAGER_POOL_SIZE \<equiv> 4"

text \<open>What the stream manager calls of the firmware store.\<close>

record ('f, 'i, 'w) fw_store_streams =
  fss_commit_image :: "'f \<Rightarrow> 'i \<Rightarrow> image_info \<Rightarrow> bool \<Rightarrow> 'w \<Rightarrow> (fwu_status \<times> 'w) option"
  fss_write_image :: "'f \<Rightarrow> 'i \<Rightarrow> bytes \<Rightarrow> 'w \<Rightarrow> (fwu_status \<times> 'w) option"


section \<open>Operations\<close>

text \<open>Access to a context through a pointer; outside the pool it is undefined.\<close>

definition ctx_upd ::
  "('a, 'f, 'i) stream_manager \<Rightarrow> nat \<Rightarrow> (('a, 'f, 'i) stream_context \<Rightarrow> ('a, 'f, 'i) stream_context) \<Rightarrow>
    ('a, 'f, 'i) stream_manager option" where
  "ctx_upd sm k f =
     (if k < length (sm_contexts sm)
      then Some (sm\<lparr>sm_contexts := (sm_contexts sm)[k := f (sm_contexts sm ! k)]\<rparr>) else None)"

definition generate_handle :: "('a, 'f, 'i) stream_manager \<Rightarrow> nat \<Rightarrow> u32 \<times> ('a, 'f, 'i) stream_manager" where
  "generate_handle sm k =
     (or (and (word_of_nat k) 0xffff) (push_bit 16 (ucast (sm_rolling_count sm))),
      sm\<lparr>sm_rolling_count := sm_rolling_count sm + 1\<rparr>)"

definition index_from_handle :: "u32 \<Rightarrow> nat" where
  "index_from_handle handle = unat (and handle 0xffff)"

definition add_to_free_list ::
  "('a, 'f, 'i) stream_manager \<Rightarrow> nat \<Rightarrow> ('a, 'f, 'i) stream_manager option" where
  "add_to_free_list sm k =
     do {
       sm1 \<leftarrow> ctx_upd sm k (\<lambda>c. c\<lparr>sc_type := FWU_STREAM_TYPE_NONE, sc_handle := 0, sc_next := sm_free sm,
                                    sc_prev := None\<rparr>);
       Some (sm1\<lparr>sm_free := Some k\<rparr>)
     }"

definition free_stream_context ::
  "('a, 'f, 'i) stream_manager \<Rightarrow> nat \<Rightarrow> ('a, 'f, 'i) stream_manager option" where
  "free_stream_context sm k =
     do {
       c \<leftarrow> array_get (sm_contexts sm) (int k);
       sm1 \<leftarrow> (case sc_prev c of
                 Some p \<Rightarrow> ctx_upd sm p (\<lambda>x. x\<lparr>sc_next := sc_next c\<rparr>)
               | None \<Rightarrow> Some (sm\<lparr>sm_active_head := sc_next c\<rparr>));
       sm2 \<leftarrow> (case sc_next c of
                 Some n \<Rightarrow> ctx_upd sm1 n (\<lambda>x. x\<lparr>sc_prev := sc_prev c\<rparr>)
               | None \<Rightarrow> Some (sm1\<lparr>sm_active_tail := sc_prev c\<rparr>));
       add_to_free_list sm2 k
     }"

definition get_active_context :: "('a, 'f, 'i) stream_manager \<Rightarrow> u32 \<Rightarrow> nat option" where
  "get_active_context sm handle =
     (let index = index_from_handle handle
      in if index < FWU_STREAM_MANAGER_POOL_SIZE
            \<and> sc_type (sm_contexts sm ! index) \<noteq> FWU_STREAM_TYPE_NONE
            \<and> sc_handle (sm_contexts sm ! index) = handle
         then Some index else None)"

definition stream_manager_close ::
  "('f, 'i, 'w) fw_store_streams \<Rightarrow> ('a, 'f, 'i) stream_manager \<Rightarrow> u32 \<Rightarrow> bool \<Rightarrow> 'w \<Rightarrow>
    (fwu_status \<times> ('a, 'f, 'i) stream_manager \<times> 'w) option" where
  "stream_manager_close fss sm handle accepted w =
     (case get_active_context sm handle of
        None \<Rightarrow> Some (FWU_STATUS_UNKNOWN, sm, w)
      | Some k \<Rightarrow>
          do {
            c \<leftarrow> array_get (sm_contexts sm) (int k);
            (status, w1) \<leftarrow>
              (if sc_type c = FWU_STREAM_TYPE_INSTALL
               then (case sc_variant c of
                       Install v \<Rightarrow>
                         fss_commit_image fss (iv_fw_store v) (iv_installer v) (iv_image_info v) accepted w
                     | _ \<Rightarrow> None)
               else Some (FWU_STATUS_SUCCESS, w));
            sm1 \<leftarrow> free_stream_context sm k;
            Some (status, sm1, w1)
          })"

definition alloc_stream_context ::
  "('f, 'i, 'w) fw_store_streams \<Rightarrow> ('a, 'f, 'i) stream_manager \<Rightarrow> fwu_stream_type \<Rightarrow> 'w \<Rightarrow>
    ((nat \<times> u32) option \<times> ('a, 'f, 'i) stream_manager \<times> 'w) option" where
  "alloc_stream_context fss sm type w =
     do {
       (sm1, w1) \<leftarrow>
         (case (sm_free sm, sm_active_tail sm) of
            (None, Some t) \<Rightarrow>
              do {
                c \<leftarrow> array_get (sm_contexts sm) (int t);
                (_, sm1, w1) \<leftarrow> stream_manager_close fss sm (sc_handle c) False w;
                Some (sm1, w1)
              }
          | _ \<Rightarrow> Some (sm, w));
       (case sm_free sm1 of
          None \<Rightarrow> Some (None, sm1, w1)
        | Some k \<Rightarrow>
            do {
              c \<leftarrow> array_get (sm_contexts sm1) (int k);
              let sm2 = sm1\<lparr>sm_free := sc_next c\<rparr>;
              sm3 \<leftarrow> ctx_upd sm2 k (\<lambda>x. x\<lparr>sc_next := sm_active_head sm2, sc_prev := None\<rparr>);
              let sm4 = sm3\<lparr>sm_active_head := Some k\<rparr>;
              let sm5 = (if sm_active_tail sm4 = None then sm4\<lparr>sm_active_tail := Some k\<rparr> else sm4);
              sm6 \<leftarrow> (case sm_active_head sm2 of
                        Some n \<Rightarrow> ctx_upd sm5 n (\<lambda>x. x\<lparr>sc_prev := Some k\<rparr>)
                      | None \<Rightarrow> Some sm5);
              let (handle, sm7) = generate_handle sm6 k;
              sm8 \<leftarrow> ctx_upd sm7 k (\<lambda>x. x\<lparr>sc_type := type, sc_handle := handle\<rparr>);
              Some (Some (k, handle), sm8, w1)
            })
     }"

fun init_loop :: "('a, 'f, 'i) stream_manager \<Rightarrow> nat \<Rightarrow> nat \<Rightarrow> ('a, 'f, 'i) stream_manager option" where
  "init_loop sm i 0 = Some sm"
| "init_loop sm i (Suc n) = do { sm1 \<leftarrow> add_to_free_list sm i; init_loop sm1 (i + 1) n }"

definition stream_manager_init ::
  "('a, 'f, 'i) stream_manager \<Rightarrow> ('a, 'f, 'i) stream_manager option" where
  "stream_manager_init sm =
     init_loop (sm\<lparr>sm_free := None, sm_active_head := None, sm_active_tail := None, sm_rolling_count := 0\<rparr>)
       0 FWU_STREAM_MANAGER_POOL_SIZE"

definition stream_manager_deinit :: "('a, 'f, 'i) stream_manager \<Rightarrow> ('a, 'f, 'i) stream_manager" where
  "stream_manager_deinit sm = sm"

text \<open>Freeing every context that passes a test, in the order of the pool: the loop at the start of
  both open functions and in the cancellation.\<close>

fun free_matching ::
  "(('a, 'f, 'i) stream_context \<Rightarrow> bool) \<Rightarrow> ('a, 'f, 'i) stream_manager \<Rightarrow> nat \<Rightarrow> nat \<Rightarrow>
    ('a, 'f, 'i) stream_manager option" where
  "free_matching P sm i 0 = Some sm"
| "free_matching P sm i (Suc n) =
     do {
       c \<leftarrow> array_get (sm_contexts sm) (int i);
       sm1 \<leftarrow> (if P c then free_stream_context sm i else Some sm);
       free_matching P sm1 (i + 1) n
     }"

definition reads_buffer :: "'a \<Rightarrow> ('a, 'f, 'i) stream_context \<Rightarrow> bool" where
  "reads_buffer d c \<longleftrightarrow>
     sc_type c = FWU_STREAM_TYPE_BUFFER \<and> (case sc_variant c of Buffer v \<Rightarrow> bv_data v = d | _ \<Rightarrow> False)"

definition installs_with :: "'f \<Rightarrow> 'i \<Rightarrow> ('a, 'f, 'i) stream_context \<Rightarrow> bool" where
  "installs_with fw_store installer c \<longleftrightarrow>
     sc_type c = FWU_STREAM_TYPE_INSTALL
     \<and> (case sc_variant c of Install v \<Rightarrow> iv_fw_store v = fw_store \<and> iv_installer v = installer | _ \<Rightarrow> False)"

definition open_stream ::
  "('f, 'i, 'w) fw_store_streams \<Rightarrow> ('a, 'f, 'i) stream_manager \<Rightarrow> fwu_stream_type \<Rightarrow> ('a, 'f, 'i) stream_variant \<Rightarrow> 'w \<Rightarrow>
    (fwu_status \<times> u32 option \<times> ('a, 'f, 'i) stream_manager \<times> 'w) option" where
  "open_stream fss sm type v w =
     do {
       (r, sm1, w1) \<leftarrow> alloc_stream_context fss sm type w;
       (case r of
          None \<Rightarrow> Some (FWU_STATUS_UNKNOWN, None, sm1, w1)
        | Some (k, handle) \<Rightarrow>
            do {
              sm2 \<leftarrow> ctx_upd sm1 k (\<lambda>c. c\<lparr>sc_variant := v\<rparr>);
              Some (FWU_STATUS_SUCCESS, Some handle, sm2, w1)
            })
     }"

definition stream_manager_open_buffer_stream ::
  "('f, 'i, 'w) fw_store_streams \<Rightarrow> ('a, 'f, 'i) stream_manager \<Rightarrow> 'a \<Rightarrow> size_t \<Rightarrow> 'w \<Rightarrow>
    (fwu_status \<times> u32 option \<times> ('a, 'f, 'i) stream_manager \<times> 'w) option" where
  "stream_manager_open_buffer_stream fss sm d data_len w =
     do {
       sm1 \<leftarrow> free_matching (reads_buffer d) sm 0 FWU_STREAM_MANAGER_POOL_SIZE;
       open_stream fss sm1 FWU_STREAM_TYPE_BUFFER (Buffer \<lparr>bv_pos = 0, bv_data = d, bv_data_len = data_len\<rparr>) w
     }"

definition stream_manager_open_install_stream ::
  "('f, 'i, 'w) fw_store_streams \<Rightarrow> ('a, 'f, 'i) stream_manager \<Rightarrow> 'f \<Rightarrow> 'i \<Rightarrow> image_info \<Rightarrow> 'w \<Rightarrow>
    (fwu_status \<times> u32 option \<times> ('a, 'f, 'i) stream_manager \<times> 'w) option" where
  "stream_manager_open_install_stream fss sm fw_store installer info w =
     do {
       sm1 \<leftarrow> free_matching (installs_with fw_store installer) sm 0 FWU_STREAM_MANAGER_POOL_SIZE;
       open_stream fss sm1 FWU_STREAM_TYPE_INSTALL
         (Install \<lparr>iv_fw_store = fw_store, iv_installer = installer, iv_image_info = info\<rparr>) w
     }"

definition stream_manager_cancel_streams ::
  "('a, 'f, 'i) stream_manager \<Rightarrow> fwu_stream_type \<Rightarrow> ('a, 'f, 'i) stream_manager option" where
  "stream_manager_cancel_streams sm type =
     free_matching (\<lambda>c. sc_type c = type) sm 0 FWU_STREAM_MANAGER_POOL_SIZE"

definition stream_manager_is_open_streams :: "('a, 'f, 'i) stream_manager \<Rightarrow> fwu_stream_type \<Rightarrow> bool" where
  "stream_manager_is_open_streams sm type =
     list_ex (\<lambda>c. sc_type c = type) (take FWU_STREAM_MANAGER_POOL_SIZE (sm_contexts sm))"

definition stream_manager_write ::
  "('f, 'i, 'w) fw_store_streams \<Rightarrow> ('a, 'f, 'i) stream_manager \<Rightarrow> u32 \<Rightarrow> bytes \<Rightarrow> 'w \<Rightarrow> (fwu_status \<times> 'w) option" where
  "stream_manager_write fss sm handle d w =
     (case get_active_context sm handle of
        None \<Rightarrow> Some (FWU_STATUS_UNKNOWN, w)
      | Some k \<Rightarrow>
          do {
            c \<leftarrow> array_get (sm_contexts sm) (int k);
            if sc_type c = FWU_STREAM_TYPE_INSTALL
            then (case sc_variant c of
                    Install v \<Rightarrow> fss_write_image fss (iv_fw_store v) (iv_installer v) d w
                  | _ \<Rightarrow> None)
            else Some (FWU_STATUS_UNKNOWN, w)
          })"

text \<open>The result has the bytes read and the total length.\<close>

definition stream_manager_read ::
  "('a \<Rightarrow> bytes) \<Rightarrow> ('a, 'f, 'i) stream_manager \<Rightarrow> u32 \<Rightarrow> size_t \<Rightarrow>
    (fwu_status \<times> (bytes \<times> size_t) option \<times> ('a, 'f, 'i) stream_manager) option" where
  "stream_manager_read mem sm handle buf_size =
     (case get_active_context sm handle of
        None \<Rightarrow> Some (FWU_STATUS_UNKNOWN, None, sm)
      | Some k \<Rightarrow>
          do {
            c \<leftarrow> array_get (sm_contexts sm) (int k);
            if sc_type c = FWU_STREAM_TYPE_BUFFER
            then (case sc_variant c of
                    Buffer v \<Rightarrow>
                      do {
                        let remaining_len = sub64 (bv_data_len v) (bv_pos v);
                        let len_to_read = (if remaining_len \<le> buf_size then remaining_len else buf_size);
                        d \<leftarrow> mem_read (mem (bv_data v)) (bv_pos v) len_to_read;
                        sm1 \<leftarrow> ctx_upd sm k (\<lambda>c. c\<lparr>sc_variant := Buffer (v\<lparr>bv_pos := add64 (bv_pos v) len_to_read\<rparr>)\<rparr>);
                        Some (FWU_STATUS_SUCCESS, Some (d, bv_data_len v), sm1)
                      }
                  | _ \<Rightarrow> None)
            else Some (FWU_STATUS_DENIED, None, sm)
          })"


section \<open>The lists of the pool\<close>

definition first_of :: "nat list \<Rightarrow> nat option \<Rightarrow> nat option" where
  "first_of xs n = (case xs of [] \<Rightarrow> n | x # _ \<Rightarrow> Some x)"

definition last_of :: "nat option \<Rightarrow> nat list \<Rightarrow> nat option" where
  "last_of p xs = (if xs = [] then p else Some (last xs))"

text \<open>A segment of the doubly linked list, between what precedes and what follows it.\<close>

fun dseg :: "('a, 'f, 'i) stream_context list \<Rightarrow> nat option \<Rightarrow> nat list \<Rightarrow> nat option \<Rightarrow> bool" where
  "dseg C p [] n = True"
| "dseg C p (x # xs) n = (sc_prev (C ! x) = p \<and> sc_next (C ! x) = first_of xs n \<and> dseg C (Some x) xs n)"

fun fchain :: "('a, 'f, 'i) stream_context list \<Rightarrow> nat list \<Rightarrow> nat option \<Rightarrow> bool" where
  "fchain C [] h = (h = None)"
| "fchain C (x # xs) h = (h = Some x \<and> fchain C xs (sc_next (C ! x)))"

lemma first_of_simps [simp]:
  "first_of [] n = n" "first_of (x # xs) n = Some x"
  by (simp_all add: first_of_def)

lemma last_of_simps [simp]:
  "last_of p [] = p" "last_of p (xs @ [x]) = Some x" "last_of p (x # xs) = last_of (Some x) xs"
  by (simp_all add: last_of_def)

lemma first_of_append [simp]: "first_of (xs @ ys) n = first_of xs (first_of ys n)"
  by (cases xs) simp_all

lemma last_of_append [simp]: "last_of p (xs @ ys) = last_of (last_of p xs) ys"
  by (simp add: last_of_def)

lemma end_of_SomeD:
  "last_of None xs = Some x \<Longrightarrow> x \<in> set xs" "first_of xs None = Some x \<Longrightarrow> x \<in> set xs"
  by (auto simp: last_of_def first_of_def split: if_splits list.splits)

lemma dseg_append [simp]:
  "dseg C p (xs @ ys) n \<longleftrightarrow> dseg C p xs (first_of ys n) \<and> dseg C (last_of p xs) ys n"
  by (induction xs arbitrary: p) auto

lemma dseg_frame:
  assumes "dseg C p xs n"
    and "\<And>x. x \<in> set xs \<Longrightarrow> sc_next (C' ! x) = sc_next (C ! x) \<and> sc_prev (C' ! x) = sc_prev (C ! x)"
  shows "dseg C' p xs n"
  using assms by (induction xs arbitrary: p) auto

lemma fchain_frame:
  assumes "fchain C xs h" and "\<And>x. x \<in> set xs \<Longrightarrow> sc_next (C' ! x) = sc_next (C ! x)"
  shows "fchain C' xs h"
  using assms by (induction xs arbitrary: h) auto

text \<open>A context that holds an open stream: its handle leads back to it and its variant is the one
  of its type.\<close>

definition context_open ::
  "nat \<Rightarrow> u32 \<times> fwu_stream_type \<times> ('a, 'f, 'i) stream_variant \<Rightarrow> bool" where
  "context_open k =
     (\<lambda>(handle, type, variant).
        index_from_handle handle = k
        \<and> (case type of
             FWU_STREAM_TYPE_NONE \<Rightarrow> False
           | FWU_STREAM_TYPE_BUFFER \<Rightarrow>
               (case variant of Buffer v \<Rightarrow> bv_pos v \<le> bv_data_len v \<and> bv_data_len v < 2 ^ 64 | _ \<Rightarrow> False)
           | FWU_STREAM_TYPE_INSTALL \<Rightarrow> (case variant of Install v \<Rightarrow> True | _ \<Rightarrow> False)))"

text \<open>The stream a context holds, without the links.\<close>

definition stream_at ::
  "('a, 'f, 'i) stream_manager \<Rightarrow> nat \<Rightarrow> u32 \<times> fwu_stream_type \<times> ('a, 'f, 'i) stream_variant" where
  "stream_at sm k =
     (sc_handle (sm_contexts sm ! k), sc_type (sm_contexts sm ! k), sc_variant (sm_contexts sm ! k))"

text \<open>The pool with the open contexts \<open>act\<close>, the latest first, and the free contexts \<open>fr\<close>.\<close>

definition pool :: "('a, 'f, 'i) stream_manager \<Rightarrow> nat list \<Rightarrow> nat list \<Rightarrow> bool" where
  "pool sm act fr \<longleftrightarrow>
     length (sm_contexts sm) = FWU_STREAM_MANAGER_POOL_SIZE
     \<and> distinct (act @ fr) \<and> set (act @ fr) = {..<FWU_STREAM_MANAGER_POOL_SIZE}
     \<and> sm_active_head sm = first_of act None \<and> sm_active_tail sm = last_of None act
     \<and> dseg (sm_contexts sm) None act None \<and> fchain (sm_contexts sm) fr (sm_free sm)
     \<and> (\<forall>k\<in>set fr. sc_type (sm_contexts sm ! k) = FWU_STREAM_TYPE_NONE)
     \<and> (\<forall>k\<in>set act. context_open k (stream_at sm k))"

lemma pool_bounds: "pool sm act fr \<Longrightarrow> k \<in> set act \<union> set fr \<Longrightarrow> k < length (sm_contexts sm)"
  by (auto simp: pool_def)

text \<open>Setting a link through a pointer that may be NULL.\<close>

definition set_next ::
  "('a, 'f, 'i) stream_context list \<Rightarrow> nat option \<Rightarrow> nat option \<Rightarrow> ('a, 'f, 'i) stream_context list" where
  "set_next C p v = (case p of None \<Rightarrow> C | Some x \<Rightarrow> C[x := (C ! x)\<lparr>sc_next := v\<rparr>])"

definition set_prev ::
  "('a, 'f, 'i) stream_context list \<Rightarrow> nat option \<Rightarrow> nat option \<Rightarrow> ('a, 'f, 'i) stream_context list" where
  "set_prev C p v = (case p of None \<Rightarrow> C | Some x \<Rightarrow> C[x := (C ! x)\<lparr>sc_prev := v\<rparr>])"

lemma set_link_length [simp]:
  "length (set_next C p v) = length C" "length (set_prev C p v) = length C"
  by (simp_all add: set_next_def set_prev_def split: option.split)

lemma set_link_other [simp]:
  "p \<noteq> Some x \<Longrightarrow> set_next C p v ! x = C ! x" "p \<noteq> Some x \<Longrightarrow> set_prev C p v ! x = C ! x"
  by (auto simp: set_next_def set_prev_def nth_update_if split: option.split)

lemma set_link_keeps [simp]:
  "sc_prev (set_next C p v ! x) = sc_prev (C ! x)" "sc_next (set_prev C p v ! x) = sc_next (C ! x)"
  "sc_type (set_next C p v ! x) = sc_type (C ! x)" "sc_type (set_prev C p v ! x) = sc_type (C ! x)"
  "sc_handle (set_next C p v ! x) = sc_handle (C ! x)" "sc_handle (set_prev C p v ! x) = sc_handle (C ! x)"
  "sc_variant (set_next C p v ! x) = sc_variant (C ! x)" "sc_variant (set_prev C p v ! x) = sc_variant (C ! x)"
  by (auto simp: set_next_def set_prev_def nth_update_if split: option.split)

lemma dseg_set_next:
  assumes "dseg C p xs n" and "distinct xs" and "set xs \<subseteq> {..<length C}"
  shows "dseg (set_next C (last_of None xs) m) p xs m"
proof (cases xs rule: rev_cases)
  case (snoc ys y)
  have "dseg (set_next C (Some y) m) p ys (Some y)"
    by (rule dseg_frame [of C]) (use assms snoc in \<open>auto simp: set_next_def nth_update_if\<close>)
  then show ?thesis using snoc assms by (simp add: set_next_def)
qed simp

lemma dseg_set_prev:
  assumes "dseg C p xs n" and "distinct xs" and "set xs \<subseteq> {..<length C}"
  shows "dseg (set_prev C (first_of xs None) q) q xs n"
proof (cases xs)
  case (Cons y ys)
  have "dseg (set_prev C (Some y) q) (Some y) ys n"
    by (rule dseg_frame [of C]) (use assms Cons in \<open>auto simp: set_prev_def nth_update_if\<close>)
  then show ?thesis using Cons assms by (simp add: set_prev_def)
qed simp

lemma dseg_unlink:
  assumes "dseg C None (as @ k # bs) None" and "distinct (as @ k # bs)" and "set (as @ k # bs) \<subseteq> {..<length C}"
  shows "dseg (set_prev (set_next C (last_of None as) (first_of bs None)) (first_of bs None) (last_of None as))
           None (as @ bs) None"
proof -
  let ?n = "first_of bs None" and ?p = "last_of None as"
  have off: "?p \<noteq> Some x" if "x \<in> set bs" for x
    using that assms(2) by (auto dest: end_of_SomeD)
  have off': "?n \<noteq> Some x" if "x \<in> set as" for x
    using that assms(2) by (cases bs) auto
  let ?C = "set_next C ?p ?n"
  have "dseg ?C None as ?n"
    by (rule dseg_set_next [of C _ _ "Some k"]) (use assms in auto)
  then have front: "dseg (set_prev ?C ?n ?p) None as ?n"
    by (rule dseg_frame) (use off' in auto)
  have "dseg ?C (Some k) bs None"
    by (rule dseg_frame [of C]) (use assms(1) in simp, simp add: off)
  then have "dseg (set_prev ?C ?n ?p) ?p bs None"
    by (rule dseg_set_prev) (use assms in auto)
  then show ?thesis using front by simp
qed

lemma free_stream_context_eq:
  assumes "pool sm (as @ k # bs) fr"
  defines "C \<equiv> set_prev (set_next (sm_contexts sm) (last_of None as) (first_of bs None)) (first_of bs None) (last_of None as)"
  shows "free_stream_context sm k =
    Some (sm\<lparr>sm_contexts := C[k := (C ! k)\<lparr>sc_type := FWU_STREAM_TYPE_NONE, sc_handle := 0, sc_next := sm_free sm,
                                          sc_prev := None\<rparr>],
             sm_active_head := first_of (as @ bs) None, sm_active_tail := last_of None (as @ bs), sm_free := Some k\<rparr>)"
proof -
  have bounds: "k < length (sm_contexts sm)" "set as \<union> set bs \<subseteq> {..<length (sm_contexts sm)}"
    using pool_bounds [OF assms(1)] by auto
  have links: "sc_prev (sm_contexts sm ! k) = last_of None as" "sc_next (sm_contexts sm ! k) = first_of bs None"
    using assms(1) by (auto simp: pool_def)
  have ends: "sm_active_head sm = first_of (as @ [k]) None" "sm_active_tail sm = last_of None (k # bs)"
    using assms(1) by (simp_all add: pool_def)
  show ?thesis
    using bounds links ends
    by (cases sm; cases as rule: rev_cases; cases bs)
       (simp_all add: free_stream_context_def array_get_int ctx_upd_def add_to_free_list_def C_def set_next_def
          set_prev_def)
qed

lemma free_stream_context_pool:
  assumes "pool sm (as @ k # bs) fr"
  obtains sm' where "free_stream_context sm k = Some sm'" and "pool sm' (as @ bs) (k # fr)"
    and "\<forall>x. x \<noteq> k \<longrightarrow> stream_at sm' x = stream_at sm x" and "sm_rolling_count sm' = sm_rolling_count sm"
proof -
  define C where "C = set_prev (set_next (sm_contexts sm) (last_of None as) (first_of bs None)) (first_of bs None) (last_of None as)"
  define sm' where "sm' = sm\<lparr>sm_contexts := C[k := (C ! k)\<lparr>sc_type := FWU_STREAM_TYPE_NONE, sc_handle := 0,
      sc_next := sm_free sm, sc_prev := None\<rparr>],
    sm_active_head := first_of (as @ bs) None, sm_active_tail := last_of None (as @ bs), sm_free := Some k\<rparr>"
  have eq: "free_stream_context sm k = Some sm'"
    using free_stream_context_eq [OF assms] by (simp add: sm'_def C_def)
  have len: "length C = 4" and k: "k < 4" and dist: "distinct (as @ k # bs @ fr)"
    using assms by (auto simp: pool_def C_def)
  have keep: "stream_at sm' x = stream_at sm x" if "x \<noteq> k" for x
    using that by (simp add: stream_at_def sm'_def C_def)
  have "dseg C None (as @ bs) None"
    unfolding C_def by (rule dseg_unlink [where k = k]) (use assms in \<open>auto simp: pool_def\<close>)
  then have seg: "dseg (sm_contexts sm') None (as @ bs) None"
    by (rule dseg_frame) (use dist in \<open>auto simp: sm'_def nth_update_if\<close>)
  have off: "last_of None as \<noteq> Some x" "first_of bs None \<noteq> Some x" if "x \<in> set fr" for x
    using that dist by (auto dest: end_of_SomeD)
  have chain: "fchain (sm_contexts sm') fr (sm_free sm)"
  proof (rule fchain_frame [of "sm_contexts sm"])
    show "sc_next (sm_contexts sm' ! x) = sc_next (sm_contexts sm ! x)" if "x \<in> set fr" for x
      using that off [OF that] dist by (auto simp: sm'_def C_def nth_update_if)
  qed (use assms in \<open>simp add: pool_def\<close>)
  have "pool sm' (as @ bs) (k # fr)"
    unfolding pool_def
  proof (intro conjI ballI)
    show "set ((as @ bs) @ k # fr) = {..<FWU_STREAM_MANAGER_POOL_SIZE}" "distinct ((as @ bs) @ k # fr)"
      using assms by (auto simp: pool_def)
    show "sc_type (sm_contexts sm' ! x) = FWU_STREAM_TYPE_NONE" if "x \<in> set (k # fr)" for x
      using that assms k len by (cases "x = k") (auto simp: pool_def sm'_def C_def)
    show "context_open x (stream_at sm' x)" if "x \<in> set (as @ bs)" for x
    proof -
      have "x \<noteq> k" using that dist by auto
      then show ?thesis using that assms keep [of x] by (simp add: pool_def)
    qed
  qed (use seg chain len k in \<open>auto simp: sm'_def\<close>)
  then show ?thesis using that eq keep by (simp add: sm'_def)
qed


section \<open>Handles\<close>

lemma low_half: "and (x :: u32) 0xffff = take_bit 16 x"
  by (simp add: take_bit_eq_mask mask_eq_decr_exp)

definition handle_count :: "u32 \<Rightarrow> u16" where
  "handle_count handle = ucast (drop_bit 16 handle)"

lemma generate_handle_parts:
  assumes "k < FWU_STREAM_MANAGER_POOL_SIZE" and "generate_handle sm k = (handle, sm')"
  shows "index_from_handle handle = k" and "handle_count handle = sm_rolling_count sm"
proof -
  have h: "handle = or (take_bit 16 (word_of_nat k)) (push_bit 16 (ucast (sm_rolling_count sm)))"
    using assms(2) by (simp add: generate_handle_def low_half)
  have "take_bit 16 handle = (word_of_nat k :: u32)"
    using assms(1) unfolding h
    by (simp add: take_bit_push_bit take_bit_nat_eq_self flip: of_nat_take_bit)
  then show "index_from_handle handle = k"
    using assms(1) by (simp add: index_from_handle_def low_half unat_of_nat take_bit_nat_eq_self)
  show "handle_count handle = sm_rolling_count sm"
    unfolding handle_count_def h
    by (rule bit_word_eqI) (auto simp: bit_simps)
qed



section \<open>The open streams\<close>

fun walk :: "('a, 'f, 'i) stream_context list \<Rightarrow> nat option \<Rightarrow> nat \<Rightarrow> nat list" where
  "walk C h 0 = []"
| "walk C h (Suc n) = (case h of None \<Rightarrow> [] | Some k \<Rightarrow> k # walk C (sc_next (C ! k)) n)"

definition active :: "('a, 'f, 'i) stream_manager \<Rightarrow> nat list" where
  "active sm = walk (sm_contexts sm) (sm_active_head sm) FWU_STREAM_MANAGER_POOL_SIZE"

text \<open>The open streams, the latest first: handle, type and variant.\<close>

definition open_streams ::
  "('a, 'f, 'i) stream_manager \<Rightarrow> (u32 \<times> fwu_stream_type \<times> ('a, 'f, 'i) stream_variant) list" where
  "open_streams sm = map (stream_at sm) (active sm)"

definition manager_ok :: "('a, 'f, 'i) stream_manager \<Rightarrow> bool" where
  "manager_ok sm \<longleftrightarrow> (\<exists>act fr. pool sm act fr)"

lemma walk_None [simp]: "walk C None n = []"
  by (cases n) simp_all

lemma walk_dseg: "dseg C p xs None \<Longrightarrow> length xs \<le> n \<Longrightarrow> walk C (first_of xs None) n = xs"
proof (induction xs arbitrary: p n)
  case (Cons x xs)
  then show ?case by (cases n) auto
qed simp

lemma pool_length:
  assumes "pool sm act fr"
  shows "length act + length fr = FWU_STREAM_MANAGER_POOL_SIZE"
proof -
  have "card (set (act @ fr)) = 4" using assms by (simp add: pool_def)
  moreover have "card (set (act @ fr)) = length (act @ fr)"
    using assms by (intro distinct_card) (simp add: pool_def)
  ultimately show ?thesis by simp
qed

lemma active_pool: "pool sm act fr \<Longrightarrow> active sm = act"
  unfolding active_def using pool_length [of sm act fr] walk_dseg [of "sm_contexts sm" None act 4]
  by (simp add: pool_def)

lemma open_streams_pool: "pool sm act fr \<Longrightarrow> open_streams sm = map (stream_at sm) act"
  by (simp add: open_streams_def active_pool)

lemma manager_okI: "pool sm act fr \<Longrightarrow> manager_ok sm"
  by (auto simp: manager_ok_def)

lemma manager_okE:
  assumes "manager_ok sm"
  obtains fr where "pool sm (active sm) fr"
  using assms active_pool by (fastforce simp: manager_ok_def)

lemma stream_manager_init_ok:
  assumes "length (sm_contexts sm) = FWU_STREAM_MANAGER_POOL_SIZE"
  shows "\<exists>sm'. stream_manager_init sm = Some sm' \<and> manager_ok sm' \<and> open_streams sm' = []"
proof -
  obtain a b c d where C: "sm_contexts sm = [a, b, c, d]"
    using assms by (auto simp: numeral_eq_Suc length_Suc_conv)
  obtain sm' where sm': "stream_manager_init sm = Some sm'" and "pool sm' [] [3, 2, 1, 0]"
    by (auto simp: stream_manager_init_def C numeral_eq_Suc add_to_free_list_def ctx_upd_def pool_def lessThan_Suc)
  then show ?thesis using manager_okI open_streams_pool by fastforce
qed

lemma get_active_context_pool:
  assumes "pool sm act fr"
  shows "get_active_context sm handle = Some k \<longleftrightarrow> k \<in> set act \<and> sc_handle (sm_contexts sm ! k) = handle"
proof -
  have ty: "sc_type (sm_contexts sm ! x) \<noteq> FWU_STREAM_TYPE_NONE \<longleftrightarrow> x \<in> set act" if "x < 4" for x
  proof -
    have "x \<in> set act \<or> x \<in> set fr" using assms that by (auto simp: pool_def)
    then show ?thesis using assms by (auto simp: pool_def context_open_def stream_at_def)
  qed
  have "k \<in> set act \<Longrightarrow> index_from_handle (sc_handle (sm_contexts sm ! k)) = k \<and> k < 4
      \<and> sc_type (sm_contexts sm ! k) \<noteq> FWU_STREAM_TYPE_NONE"
    using assms by (auto simp: pool_def context_open_def stream_at_def)
  then show ?thesis by (auto simp: get_active_context_def Let_def ty split: if_splits)
qed


lemma open_stream_eq:
  assumes "pool sm act (k # fr)" and "generate_handle sm k = (handle, sm1)"
  shows "open_stream fss sm type v w =
    Some (FWU_STATUS_SUCCESS, Some handle,
      sm\<lparr>sm_contexts := (set_prev (sm_contexts sm) (first_of act None) (Some k))
            [k := \<lparr>sc_type = type, sc_handle = handle, sc_next = first_of act None, sc_prev = None, sc_variant = v\<rparr>],
         sm_free := first_of fr None, sm_active_head := Some k, sm_active_tail := last_of None (k # act),
         sm_rolling_count := sm_rolling_count sm + 1\<rparr>, w)"
proof -
  obtain C f h t r where sm: "sm = \<lparr>sm_contexts = C, sm_free = f, sm_active_head = h, sm_active_tail = t, sm_rolling_count = r\<rparr>"
    by (cases sm)
  have facts: "f = Some k" "sc_next (C ! k) = first_of fr None" "h = first_of act None" "t = last_of None act"
    "k < length C" "k \<notin> set act" "set act \<subseteq> {..<length C}"
    using assms(1) unfolding sm by (cases fr; force simp: pool_def)+
  have handle: "handle = fst (generate_handle sm k)" "\<And>sm'. sm_rolling_count sm' = r \<Longrightarrow> fst (generate_handle sm' k) = handle"
    using assms(2) by (simp_all add: generate_handle_def sm)
  show ?thesis
  proof (cases act)
    case Nil
    then show ?thesis using facts unfolding handle(1) sm
      by (cases "C ! k")
         (simp add: open_stream_def alloc_stream_context_def array_get_int ctx_upd_def generate_handle_def set_prev_def)
  next
    case (Cons b bs)
    then show ?thesis using facts unfolding handle(1) sm
      by (cases "C ! k"; cases "last_of (Some b) bs")
         (auto simp add: open_stream_def alloc_stream_context_def array_get_int ctx_upd_def generate_handle_def set_prev_def
            list_update_swap [of k b] last_of_def)
  qed
qed

lemma open_stream_pool:
  assumes "pool sm act (k # fr)" and "generate_handle sm k = (handle, sm1)"
    and "context_open k (handle, type, v)"
  obtains sm' where "open_stream fss sm type v w = Some (FWU_STATUS_SUCCESS, Some handle, sm', w)"
    and "pool sm' (k # act) fr" and "stream_at sm' k = (handle, type, v)"
    and "\<forall>x. x \<noteq> k \<longrightarrow> stream_at sm' x = stream_at sm x"
    and "sm_rolling_count sm' = sm_rolling_count sm + 1"
proof -
  let ?C = "set_prev (sm_contexts sm) (first_of act None) (Some k)"
  let ?c = "\<lparr>sc_type = type, sc_handle = handle, sc_next = first_of act None, sc_prev = None, sc_variant = v\<rparr>"
  define sm' where "sm' = sm\<lparr>sm_contexts := ?C[k := ?c],
         sm_free := first_of fr None, sm_active_head := Some k, sm_active_tail := last_of None (k # act),
         sm_rolling_count := sm_rolling_count sm + 1\<rparr>"
  have len: "length (sm_contexts sm) = 4" and k: "k < 4" and dist: "distinct (k # act @ fr)"
    and set: "set (k # act @ fr) = {..<4}"
    using assms(1) by (auto simp: pool_def)
  have keep: "stream_at sm' x = stream_at sm x" if "x \<noteq> k" for x
    using that by (simp add: stream_at_def sm'_def)
  have new: "stream_at sm' k = (handle, type, v)"
    using k len by (simp add: stream_at_def sm'_def)
  have "dseg ?C (Some k) act None"
    by (rule dseg_set_prev [of _ None]) (use assms(1) in \<open>auto simp: pool_def\<close>)
  then have "dseg (sm_contexts sm') (Some k) act None"
    by (rule dseg_frame) (use dist in \<open>auto simp: sm'_def nth_update_if\<close>)
  then have seg: "dseg (sm_contexts sm') None (k # act) None"
    using k len by (simp add: sm'_def)
  have old: "fchain (sm_contexts sm) fr (first_of fr None)"
    using assms(1) by (cases fr) (auto simp: pool_def)
  have chain: "fchain (sm_contexts sm') fr (first_of fr None)"
    by (rule fchain_frame [OF old]) (use dist in \<open>auto simp: sm'_def nth_update_if\<close>)
  have "pool sm' (k # act) fr"
    unfolding pool_def
  proof (intro conjI ballI)
    show "sc_type (sm_contexts sm' ! x) = FWU_STREAM_TYPE_NONE" if "x \<in> set fr" for x
      using that assms(1) dist by (auto simp: pool_def sm'_def nth_update_if)
    show "context_open x (stream_at sm' x)" if "x \<in> set (k # act)" for x
      using that assms(1,3) new keep [of x] by (cases "x = k") (auto simp: pool_def)
  qed (use seg chain len k dist set in \<open>auto simp: sm'_def\<close>)
  then show ?thesis
    using that new keep open_stream_eq [OF assms(1,2), of fss type v w] by (simp add: sm'_def)
qed

end
