(* ===== verification/StreamRefinement.thy ===== *)
theory StreamRefinement
  imports StreamManager
begin

text \<open>
  The stream manager as a bounded list of open streams, the latest first: what each operation of
  \<open>stream_manager.c\<close> does to that list, and how long a stale handle stays invalid.
\<close>

section \<open>The operations on the open streams\<close>

lemma stream_index:
  "pool sm act fr \<Longrightarrow> k \<in> set act \<Longrightarrow> index_from_handle (fst (stream_at sm k)) = k"
  by (simp add: pool_def context_open_def stream_at_def)

lemma pool_open: "pool sm act fr \<Longrightarrow> k \<in> set act \<Longrightarrow> context_open k (stream_at sm k)"
  by (simp add: pool_def)

lemma open_streams_distinct:
  assumes "manager_ok sm"
  shows "distinct (map fst (open_streams sm))" and "distinct (map (index_from_handle \<circ> fst) (open_streams sm))"
proof -
  obtain fr where pool: "pool sm (active sm) fr" using assms by (rule manager_okE)
  have "map (index_from_handle \<circ> fst) (open_streams sm) = active sm"
    unfolding open_streams_def map_map by (rule map_idI) (simp add: stream_index [OF pool])
  moreover have "distinct (active sm)" using pool by (simp add: pool_def)
  ultimately show i: "distinct (map (index_from_handle \<circ> fst) (open_streams sm))" by simp
  then show "distinct (map fst (open_streams sm))" by (auto simp: distinct_map dest: inj_on_imageI2)
qed

lemma free_stream_context_streams:
  assumes "manager_ok sm" and "k \<in> set (active sm)"
  obtains sm' where "free_stream_context sm k = Some sm'" and "manager_ok sm'"
    and "open_streams sm' = filter (\<lambda>s. fst s \<noteq> fst (stream_at sm k)) (open_streams sm)"
    and "\<forall>x. x \<noteq> k \<longrightarrow> stream_at sm' x = stream_at sm x" and "sm_rolling_count sm' = sm_rolling_count sm"
proof -
  obtain fr where pool: "pool sm (active sm) fr" using assms(1) by (rule manager_okE)
  obtain as bs where act: "active sm = as @ k # bs" using assms(2) by (meson split_list)
  obtain sm' where sm': "free_stream_context sm k = Some sm'" "pool sm' (as @ bs) (k # fr)"
    "\<forall>x. x \<noteq> k \<longrightarrow> stream_at sm' x = stream_at sm x" "sm_rolling_count sm' = sm_rolling_count sm"
    by (rule free_stream_context_pool [OF pool [unfolded act]])
  have k: "k \<notin> set (as @ bs)" using pool by (auto simp: act pool_def)
  have other: "fst (stream_at sm x) \<noteq> fst (stream_at sm k)" if "x \<in> set (as @ bs)" for x
  proof
    assume "fst (stream_at sm x) = fst (stream_at sm k)"
    moreover have "index_from_handle (fst (stream_at sm x)) = x" "index_from_handle (fst (stream_at sm k)) = k"
      using stream_index [OF pool, of x] stream_index [OF pool, of k] that by (auto simp: act)
    ultimately have "x = k" by metis
    then show False using that k by blast
  qed
  have "open_streams sm' = map (stream_at sm) (as @ bs)"
    unfolding open_streams_pool [OF sm'(2)] by (rule map_cong [OF refl]) (use sm'(3) k in auto)
  also have "\<dots> = filter (\<lambda>s. fst s \<noteq> fst (stream_at sm k)) (open_streams sm)"
    using other by (auto simp: open_streams_def act intro!: filter_True [symmetric])
  finally show ?thesis using that [OF sm'(1) manager_okI [OF sm'(2)] _ sm'(3,4)] by simp
qed

lemma get_active_context_streams:
  assumes "manager_ok sm"
  shows "get_active_context sm handle =
    (case find (\<lambda>s. fst s = handle) (open_streams sm) of
       None \<Rightarrow> None
     | Some s \<Rightarrow> Some (index_from_handle handle))"
proof -
  obtain fr where pool: "pool sm (active sm) fr" using assms by (rule manager_okE)
  show ?thesis
  proof (cases "get_active_context sm handle")
    case None
    then have "find (\<lambda>s. fst s = handle) (open_streams sm) = None"
      using get_active_context_pool [OF pool, of handle]
      by (auto simp: find_None_iff open_streams_def stream_at_def)
    then show ?thesis using None by simp
  next
    case (Some k)
    then have k: "k \<in> set (active sm)" "fst (stream_at sm k) = handle"
      using get_active_context_pool [OF pool, of handle k] by (auto simp: stream_at_def)
    then have "find (\<lambda>s. fst s = handle) (open_streams sm) \<noteq> None"
      by (auto simp: find_None_iff open_streams_def)
    then show ?thesis using Some k stream_index [OF pool k(1)] by auto
  qed
qed

text \<open>What closing a stream asks of the firmware store.\<close>

definition commit_stream ::
  "('f, 'i, 'w) fw_store_streams \<Rightarrow> u32 \<times> fwu_stream_type \<times> ('a, 'f, 'i) stream_variant \<Rightarrow> bool \<Rightarrow> 'w \<Rightarrow>
    (fwu_status \<times> 'w) option" where
  "commit_stream fss s accepted w =
     (case snd (snd s) of
        Install v \<Rightarrow> fss_commit_image fss (iv_fw_store v) (iv_installer v) (iv_image_info v) accepted w
      | _ \<Rightarrow> Some (FWU_STATUS_SUCCESS, w))"

lemma stream_manager_close_streams:
  assumes "manager_ok sm"
  shows "stream_manager_close fss sm handle accepted w =
    (case find (\<lambda>s. fst s = handle) (open_streams sm) of
       None \<Rightarrow> Some (FWU_STATUS_UNKNOWN, sm, w)
     | Some s \<Rightarrow>
         do {
           (status, w1) \<leftarrow> commit_stream fss s accepted w;
           sm1 \<leftarrow> free_stream_context sm (index_from_handle handle);
           Some (status, sm1, w1)
         })"
proof (cases "find (\<lambda>s. fst s = handle) (open_streams sm)")
  case None
  then show ?thesis by (simp add: stream_manager_close_def get_active_context_streams [OF assms])
next
  case (Some s)
  obtain fr where pool: "pool sm (active sm) fr" using assms by (rule manager_okE)
  have "s \<in> set (open_streams sm)" "fst s = handle"
    using Some by (auto simp: find_Some_iff)
  then obtain k where k: "k \<in> set (active sm)" "s = stream_at sm k"
    by (auto simp: open_streams_def)
  then have idx: "index_from_handle handle = k" using stream_index [OF pool] \<open>fst s = handle\<close> by auto
  have "context_open k s" using k pool by (simp add: pool_def)
  then show ?thesis
    using Some pool_bounds [OF pool, of k] k idx
    by (simp add: stream_manager_close_def get_active_context_streams [OF assms] array_get_int)
       (auto simp: stream_at_def context_open_def commit_stream_def
          split: fwu_stream_type.splits stream_variant.splits)
qed


text \<open>A test on the content of a context that no free context passes.\<close>

definition tests_stream ::
  "(('a, 'f, 'i) stream_context \<Rightarrow> bool) \<Rightarrow> (u32 \<times> fwu_stream_type \<times> ('a, 'f, 'i) stream_variant \<Rightarrow> bool) \<Rightarrow> bool" where
  "tests_stream P Q \<longleftrightarrow>
     (\<forall>c. P c = Q (sc_handle c, sc_type c, sc_variant c)) \<and> (\<forall>c. P c \<longrightarrow> sc_type c \<noteq> FWU_STREAM_TYPE_NONE)"

lemma free_matching_streams:
  assumes "manager_ok sm" and "i + n \<le> FWU_STREAM_MANAGER_POOL_SIZE"
    and "tests_stream P Q"
  shows "\<exists>sm'. free_matching P sm i n = Some sm' \<and> manager_ok sm'
    \<and> open_streams sm' =
        filter (\<lambda>s. index_from_handle (fst s) \<in> {i..<i + n} \<longrightarrow> \<not> Q s) (open_streams sm)
    \<and> sm_rolling_count sm' = sm_rolling_count sm"
  using assms(1,2)
proof (induction n arbitrary: sm i)
  case 0
  then show ?case by simp
next
  case (Suc n)
  obtain fr where pool: "pool sm (active sm) fr" using Suc.prems(1) by (rule manager_okE)
  have i: "array_get (sm_contexts sm) (int i) = Some (sm_contexts sm ! i)"
    using Suc.prems(2) pool by (simp add: array_get_int pool_def)
  have Pi: "P (sm_contexts sm ! i) = Q (stream_at sm i)"
    using assms(3) by (simp add: tests_stream_def stream_at_def)
  let ?R = "\<lambda>s. index_from_handle (fst s) \<in> {Suc i..<Suc i + n} \<longrightarrow> \<not> Q s"
  show ?case
  proof (cases "P (sm_contexts sm ! i)")
    case True
    have "i \<in> set (active sm @ fr)" using pool Suc.prems(2) by (simp add: pool_def)
    moreover have "sc_type (sm_contexts sm ! i) \<noteq> FWU_STREAM_TYPE_NONE"
      using True assms(3) by (simp add: tests_stream_def)
    ultimately have act: "i \<in> set (active sm)" using pool by (auto simp: pool_def)
    obtain sm1 where sm1: "free_stream_context sm i = Some sm1" "manager_ok sm1"
      "open_streams sm1 = filter (\<lambda>s. fst s \<noteq> fst (stream_at sm i)) (open_streams sm)"
      "sm_rolling_count sm1 = sm_rolling_count sm"
      by (rule free_stream_context_streams [OF Suc.prems(1) act]) blast
    obtain sm' where sm': "free_matching P sm1 (Suc i) n = Some sm'" "manager_ok sm'"
      "open_streams sm' = filter ?R (open_streams sm1)" "sm_rolling_count sm' = sm_rolling_count sm1"
      using Suc.IH [OF sm1(2), of "Suc i"] Suc.prems(2) by auto
    have "filter ?R (open_streams sm1) =
        filter (\<lambda>s. index_from_handle (fst s) \<in> {i..<i + Suc n} \<longrightarrow> \<not> Q s) (open_streams sm)"
      unfolding sm1(3) filter_filter
    proof (rule filter_cong [OF refl])
      fix s assume "s \<in> set (open_streams sm)"
      then obtain k where k: "k \<in> set (active sm)" "s = stream_at sm k" by (auto simp: open_streams_def)
      then have idx: "index_from_handle (fst s) = k" using stream_index [OF pool] by simp
      then have "fst s \<noteq> fst (stream_at sm i) \<longleftrightarrow> k \<noteq> i"
        using stream_index [OF pool act] k(2) by metis
      then show "(fst s \<noteq> fst (stream_at sm i) \<and> ?R s) =
          (index_from_handle (fst s) \<in> {i..<i + Suc n} \<longrightarrow> \<not> Q s)"
        using True k(2) idx by (auto simp: Pi)
    qed
    then show ?thesis using sm1 sm' i True by simp
  next
    case False
    obtain sm' where sm': "free_matching P sm (Suc i) n = Some sm'" "manager_ok sm'"
      "open_streams sm' = filter ?R (open_streams sm)" "sm_rolling_count sm' = sm_rolling_count sm"
      using Suc.IH [OF Suc.prems(1), of "Suc i"] Suc.prems(2) by auto
    have "filter ?R (open_streams sm) =
        filter (\<lambda>s. index_from_handle (fst s) \<in> {i..<i + Suc n} \<longrightarrow> \<not> Q s) (open_streams sm)"
    proof (rule filter_cong [OF refl])
      fix s assume "s \<in> set (open_streams sm)"
      then obtain k where k: "k \<in> set (active sm)" "s = stream_at sm k" by (auto simp: open_streams_def)
      then have "index_from_handle (fst s) = k" using stream_index [OF pool] by simp
      then show "?R s = (index_from_handle (fst s) \<in> {i..<i + Suc n} \<longrightarrow> \<not> Q s)"
        using False k(2) by (cases "k = i") (auto simp: Pi)
    qed
    then show ?thesis using sm' i False by simp
  qed
qed

lemma stream_index_bound:
  assumes "manager_ok sm" and "s \<in> set (open_streams sm)"
  shows "index_from_handle (fst s) < FWU_STREAM_MANAGER_POOL_SIZE"
proof -
  obtain fr where pool: "pool sm (active sm) fr" using assms(1) by (rule manager_okE)
  obtain k where "k \<in> set (active sm)" "s = stream_at sm k" using assms(2) by (auto simp: open_streams_def)
  then show ?thesis using stream_index [OF pool, of k] pool by (auto simp: pool_def)
qed

lemma free_matching_all:
  assumes "manager_ok sm"
    and "tests_stream P Q"
  obtains sm' where "free_matching P sm 0 FWU_STREAM_MANAGER_POOL_SIZE = Some sm'" and "manager_ok sm'"
    and "open_streams sm' = filter (\<lambda>s. \<not> Q s) (open_streams sm)"
    and "sm_rolling_count sm' = sm_rolling_count sm"
proof -
  have "filter (\<lambda>s. index_from_handle (fst s) \<in> {0..<0 + 4} \<longrightarrow> \<not> Q s) (open_streams sm) =
      filter (\<lambda>s. \<not> Q s) (open_streams sm)"
    using stream_index_bound [OF assms(1)] by (intro filter_cong) auto
  then show ?thesis
    using free_matching_streams [OF assms(1) _ assms(2), of 0 4] that by auto
qed

lemma find_key: "distinct (map fst xs) \<Longrightarrow> s \<in> set xs \<Longrightarrow> find (\<lambda>x. fst x = fst s) xs = Some s"
  by (induction xs) (auto simp: image_iff)

lemma filter_key_last:
  assumes "distinct (map fst (xs @ [s]))"
  shows "filter (\<lambda>x. fst x \<noteq> fst s) (xs @ [s]) = xs"
proof -
  have "filter (\<lambda>x. fst x \<noteq> fst s) xs = xs"
    by (rule filter_True) (use assms in \<open>auto simp: image_iff\<close>)
  then show ?thesis by simp
qed

text \<open>Making room: the oldest stream is closed, not accepted, when the pool is used up.\<close>

definition evict ::
  "('f, 'i, 'w) fw_store_streams \<Rightarrow> (u32 \<times> fwu_stream_type \<times> ('a, 'f, 'i) stream_variant) list \<Rightarrow> 'w \<Rightarrow>
    ((u32 \<times> fwu_stream_type \<times> ('a, 'f, 'i) stream_variant) list \<times> 'w) option" where
  "evict fss ss w =
     (if length ss < FWU_STREAM_MANAGER_POOL_SIZE then Some (ss, w)
      else do { (_, w1) \<leftarrow> commit_stream fss (last ss) False w; Some (butlast ss, w1) })"

lemma open_stream_room:
  assumes "manager_ok sm" and "length (open_streams sm) < FWU_STREAM_MANAGER_POOL_SIZE"
    and fits: "\<And>k handle. index_from_handle handle = k \<Longrightarrow> context_open k (handle, type, v)"
  obtains handle sm' where "open_stream fss sm type v w = Some (FWU_STATUS_SUCCESS, Some handle, sm', w)"
    and "manager_ok sm'" and "open_streams sm' = (handle, type, v) # open_streams sm"
    and "handle \<notin> fst ` set (open_streams sm)" and "handle_count handle = sm_rolling_count sm" and "sm_rolling_count sm' = sm_rolling_count sm + 1"
proof -
  obtain fr where pool: "pool sm (active sm) fr" using assms(1) by (rule manager_okE)
  have "fr \<noteq> []" using pool_length [OF pool] assms(2) by (auto simp: open_streams_def)
  then obtain k fr' where fr: "fr = k # fr'" by (cases fr) auto
  obtain handle sm1 where h: "generate_handle sm k = (handle, sm1)" by (cases "generate_handle sm k")
  have k: "k < 4" "k \<notin> set (active sm)" using pool by (auto simp: fr pool_def)
  note parts = generate_handle_parts [OF k(1) h]
  obtain sm' where sm': "open_stream fss sm type v w = Some (FWU_STATUS_SUCCESS, Some handle, sm', w)"
    "pool sm' (k # active sm) fr'" "stream_at sm' k = (handle, type, v)"
    "\<forall>x. x \<noteq> k \<longrightarrow> stream_at sm' x = stream_at sm x"
    "sm_rolling_count sm' = sm_rolling_count sm + 1"
    by (rule open_stream_pool [OF pool [unfolded fr] h fits [OF parts(1)]])
  have "map (stream_at sm') (active sm) = map (stream_at sm) (active sm)"
    using sm'(4) k(2) by (intro map_cong) auto
  then have streams: "open_streams sm' = (handle, type, v) # open_streams sm"
    using open_streams_pool [OF sm'(2)] sm'(3) by (simp add: open_streams_def)
  have ok: "manager_ok sm'" by (rule manager_okI [OF sm'(2)])
  have fresh: "handle \<notin> fst ` set (open_streams sm)"
    using open_streams_distinct(1) [OF ok] by (simp add: streams)
  show ?thesis by (rule that [OF sm'(1) ok streams fresh parts(2) sm'(5)])
qed

lemma open_stream_closes_tail:
  assumes "sm_free sm = None" and "sm_active_tail sm = Some t" and "t < length (sm_contexts sm)"
  shows "open_stream fss sm type v w =
    do {
      (_, sm1, w1) \<leftarrow> stream_manager_close fss sm (sc_handle (sm_contexts sm ! t)) False w;
      if sm_free sm1 = None then Some (FWU_STATUS_UNKNOWN, None, sm1, w1) else open_stream fss sm1 type v w1
    }"
  using assms
  by (cases "stream_manager_close fss sm (sc_handle (sm_contexts sm ! t)) False w")
     (auto simp: open_stream_def alloc_stream_context_def array_get_int split: option.split)

lemma open_stream_full:
  assumes "manager_ok sm" and "length (open_streams sm) = FWU_STREAM_MANAGER_POOL_SIZE"
  obtains sm1 where "manager_ok sm1" and "open_streams sm1 = butlast (open_streams sm)"
    and "sm_rolling_count sm1 = sm_rolling_count sm"
    and "open_stream fss sm type v w =
      do { (_, w1) \<leftarrow> commit_stream fss (last (open_streams sm)) False w; open_stream fss sm1 type v w1 }"
proof -
  obtain fr where pool: "pool sm (active sm) fr" using assms(1) by (rule manager_okE)
  have len: "length (active sm) = 4" using assms(2) by (simp add: open_streams_def)
  then obtain as t where act: "active sm = as @ [t]" by (cases "active sm" rule: rev_cases) auto
  have fr: "fr = []" using pool_length [OF pool] len by simp
  have t: "sm_free sm = None" "sm_active_tail sm = Some t" "t < length (sm_contexts sm)"
    using pool by (auto simp: act fr pool_def)
  have mem: "t \<in> set (active sm)" by (simp add: act)
  obtain sm1 where sm1: "free_stream_context sm t = Some sm1" "manager_ok sm1"
    "open_streams sm1 = filter (\<lambda>s. fst s \<noteq> fst (stream_at sm t)) (open_streams sm)"
    "sm_rolling_count sm1 = sm_rolling_count sm"
    by (rule free_stream_context_streams [OF assms(1) mem])
  have split: "open_streams sm = map (stream_at sm) as @ [stream_at sm t]"
    by (simp add: open_streams_def act)
  have dist: "distinct (map fst (open_streams sm))" by (rule open_streams_distinct [OF assms(1)])
  have streams: "open_streams sm1 = butlast (open_streams sm)"
    using filter_key_last [of "map (stream_at sm) as" "stream_at sm t"] dist sm1(3) by (simp add: split)
  have find: "find (\<lambda>s. fst s = fst (stream_at sm t)) (open_streams sm) = Some (stream_at sm t)"
    by (rule find_key [OF dist]) (simp add: split)
  have handle: "sc_handle (sm_contexts sm ! t) = fst (stream_at sm t)" by (simp add: stream_at_def)
  have index: "index_from_handle (fst (stream_at sm t)) = t" using stream_index [OF pool, of t] act by simp
  obtain fr1 where "pool sm1 (active sm1) fr1" using sm1(2) by (rule manager_okE)
  moreover have "length (active sm1) = 3"
    using arg_cong [OF streams, of length] assms(2) by (simp add: open_streams_def)
  ultimately have "sm_free sm1 \<noteq> None"
    using pool_length [of sm1 "active sm1" fr1] by (cases fr1) (auto simp: pool_def)
  then have "open_stream fss sm type v w =
      do { (_, w1) \<leftarrow> commit_stream fss (last (open_streams sm)) False w; open_stream fss sm1 type v w1 }"
    using find index sm1(1)
    by (cases "commit_stream fss (stream_at sm t) False w")
       (auto simp: open_stream_closes_tail [OF t] handle stream_manager_close_streams [OF assms(1)] split)
  then show ?thesis using that sm1(2,4) streams by blast
qed

lemma open_stream_streams:
  assumes "manager_ok sm"
    and fits: "\<And>k handle. index_from_handle handle = k \<Longrightarrow> context_open k (handle, type, v)"
  shows "case evict fss (open_streams sm) w of
      None \<Rightarrow> open_stream fss sm type v w = None
    | Some (ss, w1) \<Rightarrow>
        \<exists>handle sm'. open_stream fss sm type v w = Some (FWU_STATUS_SUCCESS, Some handle, sm', w1)
          \<and> manager_ok sm' \<and> open_streams sm' = (handle, type, v) # ss \<and> handle \<notin> fst ` set ss
          \<and> handle_count handle = sm_rolling_count sm \<and> sm_rolling_count sm' = sm_rolling_count sm + 1"
proof (cases "length (open_streams sm) < FWU_STREAM_MANAGER_POOL_SIZE")
  case True
  obtain handle sm' where "open_stream fss sm type v w = Some (FWU_STATUS_SUCCESS, Some handle, sm', w)"
    "manager_ok sm'" "open_streams sm' = (handle, type, v) # open_streams sm" "handle \<notin> fst ` set (open_streams sm)"
    "handle_count handle = sm_rolling_count sm" "sm_rolling_count sm' = sm_rolling_count sm + 1"
    by (rule open_stream_room [OF assms(1) True fits])
  then show ?thesis using True by (simp add: evict_def)
next
  case False
  obtain fr where pool: "pool sm (active sm) fr" using assms(1) by (rule manager_okE)
  have full: "length (open_streams sm) = FWU_STREAM_MANAGER_POOL_SIZE"
    using False pool_length [OF pool] by (simp add: open_streams_def)
  obtain sm1 where sm1: "manager_ok sm1" "open_streams sm1 = butlast (open_streams sm)"
    "sm_rolling_count sm1 = sm_rolling_count sm"
    "open_stream fss sm type v w =
      do { (_, w1) \<leftarrow> commit_stream fss (last (open_streams sm)) False w; open_stream fss sm1 type v w1 }"
    by (rule open_stream_full [OF assms(1) full])
  show ?thesis
  proof (cases "commit_stream fss (last (open_streams sm)) False w")
    case None
    then show ?thesis using False sm1(4) by (simp add: evict_def)
  next
    case (Some r)
    obtain st w1 where r: "r = (st, w1)" by (cases r)
    have room: "length (open_streams sm1) < FWU_STREAM_MANAGER_POOL_SIZE" using sm1(2) full by simp
    obtain handle sm' where "open_stream fss sm1 type v w1 = Some (FWU_STATUS_SUCCESS, Some handle, sm', w1)"
      "manager_ok sm'" "open_streams sm' = (handle, type, v) # open_streams sm1" "handle \<notin> fst ` set (open_streams sm1)"
      "handle_count handle = sm_rolling_count sm1" "sm_rolling_count sm' = sm_rolling_count sm1 + 1"
      by (rule open_stream_room [OF sm1(1) room fits])
    then show ?thesis using False Some r sm1 by (simp add: evict_def)
  qed
qed

text \<open>The streams that an open function cancels first: those on the same source.\<close>

definition same_buffer :: "'a \<Rightarrow> u32 \<times> fwu_stream_type \<times> ('a, 'f, 'i) stream_variant \<Rightarrow> bool" where
  "same_buffer d = (\<lambda>(_, type, variant).
     type = FWU_STREAM_TYPE_BUFFER \<and> (case variant of Buffer v \<Rightarrow> bv_data v = d | _ \<Rightarrow> False))"

definition same_installer :: "'f \<Rightarrow> 'i \<Rightarrow> u32 \<times> fwu_stream_type \<times> ('a, 'f, 'i) stream_variant \<Rightarrow> bool" where
  "same_installer fw_store installer = (\<lambda>(_, type, variant).
     type = FWU_STREAM_TYPE_INSTALL
     \<and> (case variant of Install v \<Rightarrow> iv_fw_store v = fw_store \<and> iv_installer v = installer | _ \<Rightarrow> False))"

lemma tests_stream_simps:
  "tests_stream (reads_buffer d) (same_buffer d)"
  "tests_stream (installs_with fw_store installer) (same_installer fw_store installer)"
  "type \<noteq> FWU_STREAM_TYPE_NONE \<Longrightarrow> tests_stream (\<lambda>c. sc_type c = type) (\<lambda>(_, t, _). t = type)"
  by (auto simp: tests_stream_def reads_buffer_def same_buffer_def installs_with_def same_installer_def)

lemma open_buffer_stream_streams:
  fixes sm :: "('a, 'f, 'i) stream_manager"
  assumes "manager_ok sm" and "data_len < 2 ^ 64"
  shows "case evict fss (filter (\<lambda>s. \<not> same_buffer d s) (open_streams sm)) w of
      None \<Rightarrow> stream_manager_open_buffer_stream fss sm d data_len w = None
    | Some (ss, w1) \<Rightarrow>
        \<exists>handle sm'. stream_manager_open_buffer_stream fss sm d data_len w = Some (FWU_STATUS_SUCCESS, Some handle, sm', w1)
          \<and> manager_ok sm'
          \<and> open_streams sm' =
              (handle, FWU_STREAM_TYPE_BUFFER, Buffer \<lparr>bv_pos = 0, bv_data = d, bv_data_len = data_len\<rparr>) # ss
          \<and> handle \<notin> fst ` set ss \<and> handle_count handle = sm_rolling_count sm \<and> sm_rolling_count sm' = sm_rolling_count sm + 1"
proof -
  obtain sm1 where sm1: "free_matching (reads_buffer d) sm 0 FWU_STREAM_MANAGER_POOL_SIZE = Some sm1" "manager_ok sm1"
    "open_streams sm1 = filter (\<lambda>s. \<not> same_buffer d s) (open_streams sm)"
    "sm_rolling_count sm1 = sm_rolling_count sm"
    by (rule free_matching_all [OF assms(1) tests_stream_simps(1)])
  have "index_from_handle h = k \<Longrightarrow> context_open k (h, FWU_STREAM_TYPE_BUFFER,
      Buffer \<lparr>bv_pos = 0, bv_data = d, bv_data_len = data_len\<rparr> :: ('a, 'f, 'i) stream_variant)" for k h
    using assms(2) by (simp add: context_open_def)
  note step = open_stream_streams [OF sm1(2) this, of fss w]
  have eq: "stream_manager_open_buffer_stream fss sm d data_len w =
      open_stream fss sm1 FWU_STREAM_TYPE_BUFFER (Buffer \<lparr>bv_pos = 0, bv_data = d, bv_data_len = data_len\<rparr>) w"
    by (simp add: stream_manager_open_buffer_stream_def sm1(1))
  show ?thesis unfolding eq by (rule step [unfolded sm1(3,4)])
qed

lemma open_install_stream_streams:
  fixes sm :: "('a, 'f, 'i) stream_manager"
  assumes "manager_ok sm"
  shows "case evict fss (filter (\<lambda>s. \<not> same_installer fw_store installer s) (open_streams sm)) w of
      None \<Rightarrow> stream_manager_open_install_stream fss sm fw_store installer info w = None
    | Some (ss, w1) \<Rightarrow>
        \<exists>handle sm'. stream_manager_open_install_stream fss sm fw_store installer info w =
            Some (FWU_STATUS_SUCCESS, Some handle, sm', w1)
          \<and> manager_ok sm'
          \<and> open_streams sm' =
              (handle, FWU_STREAM_TYPE_INSTALL,
                Install \<lparr>iv_fw_store = fw_store, iv_installer = installer, iv_image_info = info\<rparr>) # ss
          \<and> handle \<notin> fst ` set ss \<and> handle_count handle = sm_rolling_count sm \<and> sm_rolling_count sm' = sm_rolling_count sm + 1"
proof -
  obtain sm1 where sm1: "free_matching (installs_with fw_store installer) sm 0 FWU_STREAM_MANAGER_POOL_SIZE = Some sm1"
    "manager_ok sm1" "open_streams sm1 = filter (\<lambda>s. \<not> same_installer fw_store installer s) (open_streams sm)"
    "sm_rolling_count sm1 = sm_rolling_count sm"
    by (rule free_matching_all [OF assms(1) tests_stream_simps(2)])
  have "index_from_handle h = k \<Longrightarrow> context_open k (h, FWU_STREAM_TYPE_INSTALL,
      Install \<lparr>iv_fw_store = fw_store, iv_installer = installer, iv_image_info = info\<rparr> :: ('a, 'f, 'i) stream_variant)" for k h
    by (simp add: context_open_def)
  note step = open_stream_streams [OF sm1(2) this, of fss w]
  have eq: "stream_manager_open_install_stream fss sm fw_store installer info w =
      open_stream fss sm1 FWU_STREAM_TYPE_INSTALL
        (Install \<lparr>iv_fw_store = fw_store, iv_installer = installer, iv_image_info = info\<rparr>) w"
    by (simp add: stream_manager_open_install_stream_def sm1(1))
  show ?thesis unfolding eq by (rule step [unfolded sm1(3,4)])
qed

lemma cancel_streams_streams:
  assumes "manager_ok sm" and "type \<noteq> FWU_STREAM_TYPE_NONE"
  obtains sm' where "stream_manager_cancel_streams sm type = Some sm'" and "manager_ok sm'"
    and "open_streams sm' = filter (\<lambda>s. fst (snd s) \<noteq> type) (open_streams sm)"
    and "sm_rolling_count sm' = sm_rolling_count sm"
  by (rule free_matching_all [OF assms(1) tests_stream_simps(3) [OF assms(2)]])
     (simp add: stream_manager_cancel_streams_def case_prod_beta)

lemma is_open_streams_streams:
  assumes "manager_ok sm" and "type \<noteq> FWU_STREAM_TYPE_NONE"
  shows "stream_manager_is_open_streams sm type \<longleftrightarrow> (\<exists>s\<in>set (open_streams sm). fst (snd s) = type)"
proof -
  obtain fr where pool: "pool sm (active sm) fr" using assms(1) by (rule manager_okE)
  have "stream_manager_is_open_streams sm type \<longleftrightarrow> (\<exists>k<4. sc_type (sm_contexts sm ! k) = type)"
    using pool by (simp add: stream_manager_is_open_streams_def list_ex_length pool_def)
  also have "\<dots> \<longleftrightarrow> (\<exists>k\<in>set (active sm @ fr). sc_type (sm_contexts sm ! k) = type)"
    using pool by (simp add: pool_def Bex_def)
  also have "\<dots> \<longleftrightarrow> (\<exists>k\<in>set (active sm). sc_type (sm_contexts sm ! k) = type)"
    using pool assms(2) by (auto simp: pool_def)
  finally show ?thesis by (auto simp: open_streams_def stream_at_def)
qed

lemma close_streams:
  assumes "manager_ok sm" and "stream_manager_close fss sm handle accepted w = Some (status, sm', w')"
  shows "manager_ok sm'" and "open_streams sm' = filter (\<lambda>s. fst s \<noteq> handle) (open_streams sm)"
    and "sm_rolling_count sm' = sm_rolling_count sm"
proof -
  have "manager_ok sm' \<and> open_streams sm' = filter (\<lambda>s. fst s \<noteq> handle) (open_streams sm)
      \<and> sm_rolling_count sm' = sm_rolling_count sm"
  proof (cases "find (\<lambda>s. fst s = handle) (open_streams sm)")
    case None
    then have "filter (\<lambda>s. fst s \<noteq> handle) (open_streams sm) = open_streams sm"
      by (auto simp: find_None_iff intro!: filter_True)
    then show ?thesis
      using assms None by (simp add: stream_manager_close_streams [OF assms(1)])
  next
    case (Some s)
    have "s \<in> set (open_streams sm)" and s: "fst s = handle" using Some by (auto simp: find_Some_iff)
    then obtain k where k: "k \<in> set (active sm)" "s = stream_at sm k" by (auto simp: open_streams_def)
    obtain fr where pool: "pool sm (active sm) fr" using assms(1) by (rule manager_okE)
    have "index_from_handle handle = k" using stream_index [OF pool k(1)] k(2) s by simp
    then have "free_stream_context sm k = Some sm'"
      using assms(2) Some by (auto simp: stream_manager_close_streams [OF assms(1)] bind_eq_Some_conv)
    moreover obtain sm1 where "free_stream_context sm k = Some sm1" "manager_ok sm1"
      "open_streams sm1 = filter (\<lambda>s. fst s \<noteq> fst (stream_at sm k)) (open_streams sm)"
      "sm_rolling_count sm1 = sm_rolling_count sm"
      by (rule free_stream_context_streams [OF assms(1) k(1)])
    ultimately show ?thesis using k(2) s by simp
  qed
  then show "manager_ok sm'" and "open_streams sm' = filter (\<lambda>s. fst s \<noteq> handle) (open_streams sm)"
    and "sm_rolling_count sm' = sm_rolling_count sm" by simp_all
qed

lemma close_returns:
  assumes "manager_ok sm" and "find (\<lambda>s. fst s = handle) (open_streams sm) = Some s" and "commit_stream fss s accepted w = Some (st, w')"
  obtains sm' where "stream_manager_close fss sm handle accepted w = Some (st, sm', w')"
proof -
  have s: "s \<in> set (open_streams sm)" "fst s = handle" using assms(2) by (auto simp: find_Some_iff)
  then obtain k where k: "k \<in> set (active sm)" "s = stream_at sm k" by (auto simp: open_streams_def)
  obtain fr where pool: "pool sm (active sm) fr" using assms(1) by (rule manager_okE)
  have "index_from_handle handle = k" using stream_index [OF pool k(1)] k(2) s(2) by simp
  moreover obtain sm' where "free_stream_context sm k = Some sm'" by (rule free_stream_context_streams [OF assms(1) k(1)])
  ultimately show ?thesis using that assms(2,3) by (simp add: stream_manager_close_streams [OF assms(1)])
qed

text \<open>Changing the variant of an open stream.\<close>

lemma set_variant_streams:
  assumes "manager_ok sm" and "k \<in> set (active sm)" and "stream_at sm k = (handle, type, v)"
    and "context_open k (handle, type, v')"
  obtains sm' where "ctx_upd sm k (\<lambda>c. c\<lparr>sc_variant := v'\<rparr>) = Some sm'" and "manager_ok sm'"
    and "open_streams sm' = map (\<lambda>s. if fst s = handle then (handle, type, v') else s) (open_streams sm)"
    and "sm_rolling_count sm' = sm_rolling_count sm"
proof -
  obtain fr where pool: "pool sm (active sm) fr" using assms(1) by (rule manager_okE)
  let ?C = "sm_contexts sm"
  define sm' where "sm' = sm\<lparr>sm_contexts := ?C[k := (?C ! k)\<lparr>sc_variant := v'\<rparr>]\<rparr>"
  have k: "k < length ?C" using pool_bounds [OF pool] assms(2) by simp
  have at: "stream_at sm' x = (if x = k then (handle, type, v') else stream_at sm x)" for x
    using k assms(3) by (auto simp: sm'_def stream_at_def)
  have links: "sc_next (sm_contexts sm' ! x) = sc_next (?C ! x)" "sc_prev (sm_contexts sm' ! x) = sc_prev (?C ! x)"
    "sc_type (sm_contexts sm' ! x) = sc_type (?C ! x)" for x
    using k by (auto simp: sm'_def nth_update_if)
  have "pool sm' (active sm) fr"
    unfolding pool_def
  proof (intro conjI ballI)
    show "dseg (sm_contexts sm') None (active sm) None"
      by (rule dseg_frame [of ?C]) (use pool links in \<open>auto simp: pool_def\<close>)
    show "fchain (sm_contexts sm') fr (sm_free sm')"
      by (rule fchain_frame [of ?C]) (use pool links in \<open>auto simp: pool_def sm'_def\<close>)
    show "context_open x (stream_at sm' x)" if "x \<in> set (active sm)" for x
      using that pool assms(4) by (cases "x = k") (auto simp: at pool_def)
    show "sc_type (sm_contexts sm' ! x) = FWU_STREAM_TYPE_NONE" if "x \<in> set fr" for x
      using that pool by (simp add: links pool_def)
  qed (use pool in \<open>auto simp: pool_def sm'_def\<close>)
  note pool' = this
  have "fst (stream_at sm x) = handle \<longleftrightarrow> x = k" if "x \<in> set (active sm)" for x
    using stream_index [OF pool that] stream_index [OF pool assms(2)] assms(3) by (metis fst_conv)
  then have "open_streams sm' = map (\<lambda>s. if fst s = handle then (handle, type, v') else s) (open_streams sm)"
    unfolding open_streams_pool [OF pool'] open_streams_pool [OF pool] map_map by (intro map_cong) (auto simp: at)
  then show ?thesis
    using that [of sm'] manager_okI [OF pool'] k by (simp add: ctx_upd_def sm'_def)
qed

text \<open>Reading: the bytes from the position on, and the position moves.\<close>

lemma read_streams:
  fixes sm :: "('a, 'f, 'i) stream_manager"
  assumes "manager_ok sm" and "find (\<lambda>s. fst s = handle) (open_streams sm) = Some (handle, FWU_STREAM_TYPE_BUFFER, Buffer v)"
    and "bv_pos v + min (bv_data_len v - bv_pos v) buf_size \<le> length (mem (bv_data v))"
  obtains sm' where "stream_manager_read mem sm handle buf_size =
      Some (FWU_STATUS_SUCCESS,
        Some (slice (mem (bv_data v)) (bv_pos v) (min (bv_data_len v - bv_pos v) buf_size), bv_data_len v), sm')"
    and "manager_ok sm'"
    and "open_streams sm' =
      map (\<lambda>s. if fst s = handle
               then (handle, FWU_STREAM_TYPE_BUFFER, Buffer (v\<lparr>bv_pos := bv_pos v + min (bv_data_len v - bv_pos v) buf_size\<rparr>))
               else s) (open_streams sm)"
    and "sm_rolling_count sm' = sm_rolling_count sm"
proof -
  obtain fr where pool: "pool sm (active sm) fr" using assms(1) by (rule manager_okE)
  have "(handle, FWU_STREAM_TYPE_BUFFER, Buffer v) \<in> set (open_streams sm)"
    using assms(2) by (auto simp: find_Some_iff)
  then obtain k where k: "k \<in> set (active sm)" "stream_at sm k = (handle, FWU_STREAM_TYPE_BUFFER, Buffer v)"
    by (auto simp: open_streams_def)
  have idx: "index_from_handle handle = k" using stream_index [OF pool k(1)] k(2) by simp
  have pos: "bv_pos v \<le> bv_data_len v" "bv_data_len v < 2 ^ 64"
    using pool_open [OF pool k(1)] k(2) by (auto simp: context_open_def)
  let ?n = "min (bv_data_len v - bv_pos v) buf_size"
  let ?v = "Buffer (v\<lparr>bv_pos := bv_pos v + ?n\<rparr>)"
  have ctx: "context_open k (handle, FWU_STREAM_TYPE_BUFFER, ?v :: ('a, 'f, 'i) stream_variant)"
    using pos idx by (simp add: context_open_def)
  obtain sm' where sm': "ctx_upd sm k (\<lambda>c. c\<lparr>sc_variant := ?v\<rparr>) = Some sm'" "manager_ok sm'"
    "open_streams sm' = map (\<lambda>s. if fst s = handle then (handle, FWU_STREAM_TYPE_BUFFER, ?v) else s) (open_streams sm)"
    "sm_rolling_count sm' = sm_rolling_count sm"
    by (rule set_variant_streams [OF assms(1) k ctx])
  have c: "array_get (sm_contexts sm) (int k) = Some (sm_contexts sm ! k)"
    "sc_type (sm_contexts sm ! k) = FWU_STREAM_TYPE_BUFFER" "sc_variant (sm_contexts sm ! k) = Buffer v"
    using pool_bounds [OF pool] k by (auto simp: array_get_int stream_at_def)
  have arith: "sub64 (bv_data_len v) (bv_pos v) = bv_data_len v - bv_pos v" "add64 (bv_pos v) ?n = bv_pos v + ?n"
    using pos by (simp_all add: sub64_exact add64_exact)
  have "stream_manager_read mem sm handle buf_size =
      Some (FWU_STATUS_SUCCESS, Some (slice (mem (bv_data v)) (bv_pos v) ?n, bv_data_len v), sm')"
    using sm'(1) assms(2,3) pos arith
    by (simp add: stream_manager_read_def get_active_context_streams [OF assms(1)] idx c Let_def min_def mem_read_in
          split: if_splits)
  then show ?thesis using that sm'(2-4) by blast
qed


section \<open>Sequences of calls\<close>

datatype ('a, 'f, 'i) stream_call =
    Open_buffer 'a size_t
  | Open_install 'f 'i image_info
  | Close u32 bool
  | Cancel fwu_stream_type
  | Write u32 bytes
  | Read u32 size_t

fun stream_call_exec ::
  "('f, 'i, 'w) fw_store_streams \<Rightarrow> ('a \<Rightarrow> bytes) \<Rightarrow> ('a, 'f, 'i) stream_call \<Rightarrow> ('a, 'f, 'i) stream_manager \<times> 'w \<Rightarrow>
    (('a, 'f, 'i) stream_manager \<times> 'w) option" where
  "stream_call_exec fss mem (Open_buffer d n) (sm, w) =
     map_option (\<lambda>(_, _, r). r) (stream_manager_open_buffer_stream fss sm d n w)"
| "stream_call_exec fss mem (Open_install f i info) (sm, w) =
     map_option (\<lambda>(_, _, r). r) (stream_manager_open_install_stream fss sm f i info w)"
| "stream_call_exec fss mem (Close handle accepted) (sm, w) =
     map_option snd (stream_manager_close fss sm handle accepted w)"
| "stream_call_exec fss mem (Cancel type) (sm, w) =
     map_option (\<lambda>sm'. (sm', w)) (stream_manager_cancel_streams sm type)"
| "stream_call_exec fss mem (Write handle d) (sm, w) =
     map_option (\<lambda>(_, w'). (sm, w')) (stream_manager_write fss sm handle d w)"
| "stream_call_exec fss mem (Read handle n) (sm, w) =
     map_option (\<lambda>(_, _, sm'). (sm', w)) (stream_manager_read mem sm handle n)"

fun stream_calls ::
  "('f, 'i, 'w) fw_store_streams \<Rightarrow> ('a \<Rightarrow> bytes) \<Rightarrow> ('a, 'f, 'i) stream_call list \<Rightarrow> ('a, 'f, 'i) stream_manager \<times> 'w \<Rightarrow>
    (('a, 'f, 'i) stream_manager \<times> 'w) option" where
  "stream_calls fss mem [] s = Some s"
| "stream_calls fss mem (c # cs) s = do { s1 \<leftarrow> stream_call_exec fss mem c s; stream_calls fss mem cs s1 }"

fun opens_stream :: "('a, 'f, 'i) stream_call \<Rightarrow> bool" where
  "opens_stream (Open_buffer _ _) = True"
| "opens_stream (Open_install _ _ _) = True"
| "opens_stream _ = False"

text \<open>Lengths are of type \<open>size_t\<close>, and the type of a cancelled stream is never \<open>NONE\<close>.\<close>

fun call_typed :: "('a, 'f, 'i) stream_call \<Rightarrow> bool" where
  "call_typed (Open_buffer _ n) = (n < 2 ^ 64)"
| "call_typed (Cancel type) = (type \<noteq> FWU_STREAM_TYPE_NONE)"
| "call_typed _ = True"

lemma evict_subset: "evict fss ss w = Some (ss', w') \<Longrightarrow> set ss' \<subseteq> set ss"
  by (auto simp: evict_def bind_eq_Some_conv dest: in_set_butlastD split: if_splits)

definition call_effect :: "bool \<Rightarrow> ('a, 'f, 'i) stream_manager \<Rightarrow> ('a, 'f, 'i) stream_manager \<Rightarrow> bool" where
  "call_effect opened sm sm' \<longleftrightarrow>
     manager_ok sm'
     \<and> (\<forall>s'\<in>set (open_streams sm').
          fst s' \<in> fst ` set (open_streams sm) \<or> opened \<and> handle_count (fst s') = sm_rolling_count sm)
     \<and> sm_rolling_count sm' = sm_rolling_count sm + (if opened then 1 else 0)"

lemma call_effect_openI:
  assumes "evict fss (filter P (open_streams sm)) w = Some (ss, w1)" and "manager_ok sm'"
    and "open_streams sm' = (handle, r) # ss" and "handle_count handle = sm_rolling_count sm"
    and "sm_rolling_count sm' = sm_rolling_count sm + 1"
  shows "call_effect True sm sm'"
proof -
  have "set ss \<subseteq> set (open_streams sm)" using evict_subset [OF assms(1)] by auto
  then show ?thesis using assms(2-5) by (auto simp: call_effect_def)
qed

lemma open_buffer_effect:
  assumes "manager_ok sm" and "data_len < 2 ^ 64"
    and "stream_manager_open_buffer_stream fss sm d data_len w = Some (st, h, sm', w')"
  shows "call_effect True sm sm'"
  using open_buffer_stream_streams [OF assms(1,2), of fss d w] assms(3)
  by (auto split: option.splits prod.splits intro: call_effect_openI)

lemma open_install_effect:
  assumes "manager_ok sm"
    and "stream_manager_open_install_stream fss sm f i info w = Some (st, h, sm', w')"
  shows "call_effect True sm sm'"
  using open_install_stream_streams [OF assms(1), of fss f i info w] assms(2)
  by (auto split: option.splits prod.splits intro: call_effect_openI)

lemma close_effect:
  assumes "manager_ok sm" and "stream_manager_close fss sm handle accepted w = Some (status, sm', w')"
  shows "call_effect False sm sm'"
  using close_streams [OF assms] by (auto simp: call_effect_def)

lemma cancel_effect:
  assumes "manager_ok sm" and "type \<noteq> FWU_STREAM_TYPE_NONE" and "stream_manager_cancel_streams sm type = Some sm'"
  shows "call_effect False sm sm'"
  by (rule cancel_streams_streams [OF assms(1,2)]) (use assms(3) in \<open>auto simp: call_effect_def\<close>)

lemma read_effect:
  assumes "manager_ok sm" and "stream_manager_read mem sm handle n = Some (st, r, sm')"
  shows "call_effect False sm sm'"
proof (cases "find (\<lambda>s. fst s = handle) (open_streams sm)")
  case None
  then show ?thesis
    using assms by (auto simp: stream_manager_read_def get_active_context_streams call_effect_def)
next
  case (Some s)
  obtain fr where pool: "pool sm (active sm) fr" using assms(1) by (rule manager_okE)
  have "s \<in> set (open_streams sm)" and s: "fst s = handle" using Some by (auto simp: find_Some_iff)
  then obtain k where k: "k \<in> set (active sm)" "s = stream_at sm k" by (auto simp: open_streams_def)
  have idx: "index_from_handle handle = k" using stream_index [OF pool k(1)] k(2) s by simp
  have act: "get_active_context sm handle = Some k"
    by (simp add: get_active_context_streams [OF assms(1)] Some idx)
  have c: "array_get (sm_contexts sm) (int k) = Some (sm_contexts sm ! k)"
    using pool_bounds [OF pool] k(1) by (simp add: array_get_int)
  show ?thesis
  proof (cases "sc_type (sm_contexts sm ! k) = FWU_STREAM_TYPE_BUFFER")
    case False
    then show ?thesis using assms by (auto simp: stream_manager_read_def act c call_effect_def)
  next
    case True
    then obtain v where v: "s = (handle, FWU_STREAM_TYPE_BUFFER, Buffer v)" "bv_pos v \<le> bv_data_len v" "bv_data_len v < 2 ^ 64"
      using pool_open [OF pool k(1)] k(2) s
      by (auto simp: context_open_def stream_at_def split: stream_variant.splits)
    then have "sc_variant (sm_contexts sm ! k) = Buffer v" using k(2) by (simp add: stream_at_def)
    then have bound: "bv_pos v + min (bv_data_len v - bv_pos v) n \<le> length (mem (bv_data v))"
      using assms(2) True v(2,3)
      by (auto simp: stream_manager_read_def act c Let_def bind_eq_Some_conv sub64_exact min_def
            dest!: mem_read_SomeD split: if_splits)
    show ?thesis
      by (rule read_streams [where mem = mem and buf_size = n, OF assms(1) Some [unfolded v(1)] bound])
         (use assms(2) in \<open>auto simp: call_effect_def split: if_splits intro: rev_image_eqI\<close>)
  qed
qed

lemma call_effect_refl: "manager_ok sm \<Longrightarrow> call_effect False sm sm"
  by (simp add: call_effect_def)

lemma stream_call_effect:
  assumes "manager_ok sm" and "call_typed c" and "stream_call_exec fss mem c (sm, w) = Some (sm', w')"
  shows "call_effect (opens_stream c) sm sm'"
  using assms
  by (cases c)
     (auto dest: open_buffer_effect open_install_effect close_effect cancel_effect read_effect
        intro: call_effect_refl)

lemma stream_calls_stale:
  assumes "manager_ok sm" and "list_all call_typed cs" and "stream_calls fss mem cs (sm, w) = Some (sm', w')"
    and "handle \<notin> fst ` set (open_streams sm)"
    and "length (filter opens_stream cs) \<le> unat (handle_count handle - sm_rolling_count sm)"
  shows "manager_ok sm' \<and> handle \<notin> fst ` set (open_streams sm')"
  using assms
proof (induction cs arbitrary: sm w)
  case (Cons c cs)
  obtain sm1 w1 where step: "stream_call_exec fss mem c (sm, w) = Some (sm1, w1)"
    and rest: "stream_calls fss mem cs (sm1, w1) = Some (sm', w')"
    using Cons.prems(3) by (auto simp: bind_eq_Some_conv)
  have eff: "call_effect (opens_stream c) sm sm1"
    using stream_call_effect [OF Cons.prems(1) _ step] Cons.prems(2) by simp
  let ?d = "handle_count handle - sm_rolling_count sm"
  have near: "length (filter opens_stream cs) \<le> unat (handle_count handle - sm_rolling_count sm1)"
    and free: "opens_stream c \<Longrightarrow> handle_count handle \<noteq> sm_rolling_count sm"
  proof (atomize (full), cases "opens_stream c")
    case True
    then have "1 \<le> unat ?d" using Cons.prems(5) by simp
    then have "unat (?d - 1) = unat ?d - 1" and "?d \<noteq> 0"
      by (auto simp: unat_sub word_le_nat_alt)
    then show "length (filter opens_stream cs) \<le> unat (handle_count handle - sm_rolling_count sm1) \<and>
        (opens_stream c \<longrightarrow> handle_count handle \<noteq> sm_rolling_count sm)"
      using True eff Cons.prems(5) by (auto simp: call_effect_def algebra_simps)
  next
    case False
    then show "length (filter opens_stream cs) \<le> unat (handle_count handle - sm_rolling_count sm1) \<and>
        (opens_stream c \<longrightarrow> handle_count handle \<noteq> sm_rolling_count sm)"
      using eff Cons.prems(5) by (auto simp: call_effect_def)
  qed
  have "handle \<notin> fst ` set (open_streams sm1)"
    using eff Cons.prems(4) free by (auto simp: call_effect_def)
  then show ?case
    using Cons.IH [OF _ _ rest _ near] Cons.prems(2) eff by (simp add: call_effect_def)
qed simp

lemma stream_calls_count:
  assumes "manager_ok sm" and "list_all call_typed cs" and "stream_calls fss mem cs (sm, w) = Some (sm', w')"
  shows "manager_ok sm' \<and> sm_rolling_count sm' = sm_rolling_count sm + of_nat (length (filter opens_stream cs))"
  using assms
proof (induction cs arbitrary: sm w)
  case (Cons c cs)
  obtain sm1 w1 where step: "stream_call_exec fss mem c (sm, w) = Some (sm1, w1)"
    and rest: "stream_calls fss mem cs (sm1, w1) = Some (sm', w')"
    using Cons.prems(3) by (auto simp: bind_eq_Some_conv)
  have eff: "call_effect (opens_stream c) sm sm1" using stream_call_effect [OF Cons.prems(1) _ step] Cons.prems(2) by simp
  show ?case using Cons.IH [OF _ _ rest] Cons.prems(2) eff by (auto simp: call_effect_def)
qed simp

text \<open>A stream is opened, for a buffer or for an installation, and its handle returned.\<close>

definition stream_opened ::
  "('f, 'i, 'w) fw_store_streams \<Rightarrow> ('a, 'f, 'i) stream_manager \<Rightarrow> 'w \<Rightarrow> u32 \<Rightarrow> ('a, 'f, 'i) stream_manager \<Rightarrow> 'w \<Rightarrow> bool" where
  "stream_opened fss sm w handle sm' w' \<longleftrightarrow>
     (\<exists>d len st. len < 2 ^ 64 \<and> stream_manager_open_buffer_stream fss sm d len w = Some (st, Some handle, sm', w'))
     \<or> (\<exists>f i info st. stream_manager_open_install_stream fss sm f i info w = Some (st, Some handle, sm', w'))"

lemma stream_opened_count:
  assumes "manager_ok sm" and "stream_opened fss sm w handle sm' w'"
  shows "manager_ok sm' \<and> handle_count handle = sm_rolling_count sm \<and> sm_rolling_count sm' = sm_rolling_count sm + 1"
  using assms(2) unfolding stream_opened_def
proof (elim disjE exE conjE)
  fix d len st assume "len < 2 ^ 64" and o: "stream_manager_open_buffer_stream fss sm d len w = Some (st, Some handle, sm', w')"
  from open_buffer_stream_streams [OF assms(1) this(1), of fss d w] o show ?thesis by (auto split: option.splits)
next
  fix f i info st assume o: "stream_manager_open_install_stream fss sm f i info w = Some (st, Some handle, sm', w')"
  from open_install_stream_streams [OF assms(1), of fss f i info w] o show ?thesis by (auto split: option.splits)
qed

lemma unat_minus_one_sub: "k \<le> 65535 \<Longrightarrow> unat (- 1 - of_nat k :: u16) = 65535 - k"
proof -
  assume k: "k \<le> 65535"
  have "(- 1 - of_nat k :: u16) = of_nat (65535 - k)" using k by (simp add: of_nat_diff)
  then show ?thesis by (simp add: unat_of_nat take_bit_nat_eq_self)
qed

lemma not_active_iff:
  assumes "manager_ok sm"
  shows "get_active_context sm handle = None \<longleftrightarrow> handle \<notin> fst ` set (open_streams sm)"
proof -
  have "get_active_context sm handle = None \<longleftrightarrow> find (\<lambda>s. fst s = handle) (open_streams sm) = None"
    by (simp add: get_active_context_streams [OF assms] split: option.split)
  also have "\<dots> \<longleftrightarrow> handle \<notin> fst ` set (open_streams sm)"
    unfolding find_None_iff by blast
  finally show ?thesis .
qed


section \<open>Properties\<close>

definition blank_manager :: "('a, 'f, 'i) stream_manager" where
  "blank_manager =
     \<lparr>sm_contexts = replicate 4 \<lparr>sc_type = FWU_STREAM_TYPE_NONE, sc_handle = 0, sc_next = None, sc_prev = None, sc_variant = Unset\<rparr>,
      sm_free = None, sm_active_head = None, sm_active_tail = None, sm_rolling_count = 0\<rparr>"

definition started_manager :: "('a, 'f, 'i) stream_manager" where
  "started_manager = the (stream_manager_init blank_manager)"

definition sample_fss :: "(nat, nat, unit) fw_store_streams" where
  "sample_fss = \<lparr>fss_commit_image = (\<lambda>_ _ _ _ w. Some (0, w)), fss_write_image = (\<lambda>_ _ _ w. Some (0, w))\<rparr>"

lemma blank_manager_length: "length (sm_contexts blank_manager) = FWU_STREAM_MANAGER_POOL_SIZE"
  by (simp add: blank_manager_def)

lemma started_manager_ok: "manager_ok started_manager" "open_streams started_manager = []"
  unfolding started_manager_def using stream_manager_init_ok [OF blank_manager_length] by (metis option.sel)+

lemma started_manager_count: "sm_rolling_count started_manager = 0"
  by (simp add: started_manager_def blank_manager_def stream_manager_init_def numeral_eq_Suc add_to_free_list_def ctx_upd_def)

text \<open>Property C8. Opening a stream always succeeds, whatever the clients left open. The streams on the
  same buffer, or on the same firmware store and installer, are cancelled without a commit; if the pool is still
  used up, exactly the oldest stream is closed and its image committed as not accepted; the new stream
  becomes the latest, at the start of the data, under a handle that no open stream has; the
  other streams keep their handles, positions and order. The call
  is undefined only where the commit in the firmware store is.\<close>

theorem stream_open_refines:
  assumes "manager_ok sm" and "data_len < 2 ^ 64"
  shows "(case evict fss (filter (\<lambda>s. \<not> same_buffer d s) (open_streams sm)) w of
      None \<Rightarrow> stream_manager_open_buffer_stream fss sm d data_len w = None
    | Some (ss, w1) \<Rightarrow>
        \<exists>handle sm'. stream_manager_open_buffer_stream fss sm d data_len w = Some (FWU_STATUS_SUCCESS, Some handle, sm', w1)
          \<and> manager_ok sm' \<and> handle \<notin> fst ` set ss
          \<and> open_streams sm' =
              (handle, FWU_STREAM_TYPE_BUFFER, Buffer \<lparr>bv_pos = 0, bv_data = d, bv_data_len = data_len\<rparr>) # ss)
    \<and> (case evict fss (filter (\<lambda>s. \<not> same_installer fw_store installer s) (open_streams sm)) w of
      None \<Rightarrow> stream_manager_open_install_stream fss sm fw_store installer info w = None
    | Some (ss, w1) \<Rightarrow>
        \<exists>handle sm'. stream_manager_open_install_stream fss sm fw_store installer info w =
            Some (FWU_STATUS_SUCCESS, Some handle, sm', w1)
          \<and> manager_ok sm' \<and> handle \<notin> fst ` set ss
          \<and> open_streams sm' =
              (handle, FWU_STREAM_TYPE_INSTALL,
                Install \<lparr>iv_fw_store = fw_store, iv_installer = installer, iv_image_info = info\<rparr>) # ss)"
  using open_buffer_stream_streams [OF assms, of fss d w]
    open_install_stream_streams [OF assms(1), of fss fw_store installer info w]
  by (intro conjI) (fastforce split: option.splits prod.splits)+

theorem stream_open_refines_witness:
  "\<exists>handle sm'. stream_manager_open_buffer_stream sample_fss
       (started_manager :: (nat, nat, nat) stream_manager) 7 100 () = Some (FWU_STATUS_SUCCESS, Some handle, sm', ())
     \<and> open_streams sm' =
         [(handle, FWU_STREAM_TYPE_BUFFER, Buffer \<lparr>bv_pos = 0, bv_data = 7, bv_data_len = 100\<rparr>)]"
  using stream_open_refines [OF started_manager_ok(1), of 100
      sample_fss "7 :: nat" "()" "0 :: nat" "0 :: nat" zero_image_info]
  by (auto simp: started_manager_ok(2) evict_def)

text \<open>Property C13. The handle of a closed stream is not taken for a live one. A stream is opened and its handle issued;
  later, after any sequence of calls of any clients, the stream is no longer open, be it closed, cancelled or recycled. Then every
  operation rejects the handle, through any further sequence of calls, as long as not more than 65535 streams have been
  opened since it was issued: the protection that the comment in \<open>generate_handle\<close> promises is that of a 16-bit
  counter, not more.\<close>

theorem stale_handle_rejected:
  assumes "manager_ok sm" and "stream_opened fss sm w handle sm1 w1"
    and "stream_calls fss mem calls1 (sm1, w1) = Some (sm2, w2)" and "get_active_context sm2 handle = None"
    and "stream_calls fss mem calls2 (sm2, w2) = Some (sm3, w3)" and "list_all call_typed (calls1 @ calls2)"
    and "length (filter opens_stream (calls1 @ calls2)) \<le> 65535"
  shows "get_active_context sm3 handle = None \<and> manager_ok sm3
    \<and> stream_manager_close fss sm3 handle accepted w3 = Some (FWU_STATUS_UNKNOWN, sm3, w3)
    \<and> stream_manager_write fss sm3 handle d w3 = Some (FWU_STATUS_UNKNOWN, w3)
    \<and> stream_manager_read mem sm3 handle n = Some (FWU_STATUS_UNKNOWN, None, sm3)"
proof -
  let ?k = "length (filter opens_stream calls1)"
  note 1 = stream_opened_count [OF assms(1,2)]
  have 2: "manager_ok sm2" "sm_rolling_count sm2 = sm_rolling_count sm1 + of_nat ?k"
    using stream_calls_count [OF _ _ assms(3)] 1 assms(6) by simp_all
  have "handle_count handle - sm_rolling_count sm2 = - 1 - of_nat ?k" using 1 2(2) by simp
  moreover have "unat (- 1 - of_nat ?k :: u16) = 65535 - ?k" using assms(7) by (rule_tac unat_minus_one_sub) simp
  ultimately have "length (filter opens_stream calls2) \<le> unat (handle_count handle - sm_rolling_count sm2)"
    using assms(7) by simp
  then have "manager_ok sm3 \<and> handle \<notin> fst ` set (open_streams sm3)"
    using stream_calls_stale [OF 2(1) _ assms(5)] assms(4,6) 2(1) by (simp add: not_active_iff)
  then have "get_active_context sm3 handle = None" "manager_ok sm3" by (simp_all add: not_active_iff)
  then show ?thesis by (simp add: stream_manager_close_def stream_manager_write_def stream_manager_read_def)
qed

text \<open>A stream is opened and closed, and another is opened for the same buffer.\<close>

theorem stale_handle_rejected_witness:
  "\<exists>handle sm1 sm2 sm3. stream_manager_open_buffer_stream sample_fss (started_manager :: (nat, nat, nat) stream_manager) 7 100 ()
       = Some (FWU_STATUS_SUCCESS, Some handle, sm1, ())
     \<and> stream_calls sample_fss (\<lambda>_. []) [Close handle True] (sm1, ()) = Some (sm2, ())
     \<and> stream_calls sample_fss (\<lambda>_. []) [Open_buffer 7 100] (sm2, ()) = Some (sm3, ())
     \<and> get_active_context sm3 handle = None"
proof -
  obtain handle sm1 where sm1: "stream_manager_open_buffer_stream sample_fss
      (started_manager :: (nat, nat, nat) stream_manager) 7 100 () = Some (FWU_STATUS_SUCCESS, Some handle, sm1, ())"
    "manager_ok sm1" "open_streams sm1 = [(handle, FWU_STREAM_TYPE_BUFFER, Buffer \<lparr>bv_pos = 0, bv_data = 7, bv_data_len = 100\<rparr>)]"
    using open_buffer_stream_streams [OF started_manager_ok(1), of 100 sample_fss "7 :: nat" "()"]
    by (auto simp: started_manager_ok(2) evict_def)
  have o: "stream_opened sample_fss started_manager () handle sm1 ()"
  proof -
    have "(100 :: size_t) < 2 ^ 64" by simp
    then show ?thesis unfolding stream_opened_def using sm1(1) by blast
  qed
  obtain sm2 where c: "stream_manager_close sample_fss sm1 handle True () = Some (FWU_STATUS_SUCCESS, sm2, ())"
  proof (rule close_returns [OF sm1(2)])
    show "find (\<lambda>s. fst s = handle) (open_streams sm1)
        = Some (handle, FWU_STREAM_TYPE_BUFFER, Buffer \<lparr>bv_pos = 0, bv_data = 7, bv_data_len = 100\<rparr>)" by (simp add: sm1(3))
    show "commit_stream sample_fss (handle, FWU_STREAM_TYPE_BUFFER, Buffer \<lparr>bv_pos = 0, bv_data = 7, bv_data_len = 100\<rparr>) True ()
        = Some (FWU_STATUS_SUCCESS, ())" by (simp add: commit_stream_def)
  qed (rule that)
  note sm2 = close_streams [OF sm1(2) c]
  have none: "open_streams sm2 = []" using sm2(2) sm1(3) by simp
  obtain h3 sm3 where sm3: "stream_manager_open_buffer_stream sample_fss sm2 7 100 () = Some (FWU_STATUS_SUCCESS, Some h3, sm3, ())"
    using open_buffer_stream_streams [OF sm2(1), of 100 sample_fss "7 :: nat" "()"] none by (auto simp: evict_def)
  have "get_active_context sm2 handle = None" using none sm2(1) by (simp add: not_active_iff)
  moreover have 1: "stream_calls sample_fss (\<lambda>_. []) [Close handle True] (sm1, ()) = Some (sm2, ())" using c by simp
  moreover have 2: "stream_calls sample_fss (\<lambda>_. []) [Open_buffer 7 100] (sm2, ()) = Some (sm3, ())" using sm3 by simp
  ultimately have "get_active_context sm3 handle = None"
    using stale_handle_rejected [OF started_manager_ok(1) o 1 _ 2] by simp
  with sm1(1) 1 2 show ?thesis by blast
qed

end
