(* ===== verification/BankTracker.thy ===== *)
theory BankTracker
  imports FwDirectory
begin

text \<open>
  The A/B bank scheme (\<open>bank_scheme.h\<close>), the numbering of volumes (\<open>volume_id.h\<close>) and the bank
  tracker (\<open>bank_tracker.c\<close>), which records for each bank whether it holds content and which of
  its images are accepted. An index out of range fails an assertion, the result \<open>None\<close>.
\<close>

section \<open>Banks and volumes\<close>

abbreviation BANK_SCHEME_NUM_BANKS :: nat where "BANK_SCHEME_NUM_BANKS \<equiv> 2"

definition bank_scheme_next_index :: "u32 \<Rightarrow> u32" where
  "bank_scheme_next_index bank_index = (if bank_index = 0 then 1 else 0)"

abbreviation BANKED_VOLUME_ID_PRIMARY_METADATA :: u32 where "BANKED_VOLUME_ID_PRIMARY_METADATA \<equiv> 0xffff0000"
abbreviation BANKED_VOLUME_ID_BACKUP_METADATA :: u32 where "BANKED_VOLUME_ID_BACKUP_METADATA \<equiv> 0xffff0001"
abbreviation BANKED_USAGE_ID_FW_BANK_A :: u32 where "BANKED_USAGE_ID_FW_BANK_A \<equiv> 0"
abbreviation BANKED_USAGE_ID_FW_BANK_B :: u32 where "BANKED_USAGE_ID_FW_BANK_B \<equiv> 1"

definition banked_volume_id :: "u32 \<Rightarrow> u32 \<Rightarrow> u32" where
  "banked_volume_id location_id usage_id = or (push_bit 16 location_id) (and usage_id 0xffff)"

definition banked_usage_id :: "u32 \<Rightarrow> u32" where
  "banked_usage_id bank_index =
     (if bank_index = 0 then BANKED_USAGE_ID_FW_BANK_A else BANKED_USAGE_ID_FW_BANK_B)"

lemma bank_cases:
  assumes "(b :: u32) < 2"
  shows "b = 0 \<or> b = 1"
proof -
  have "unat b < 2" using assms by (simp add: word_less_nat_alt)
  then have "unat b = unat (0 :: u32) \<or> unat b = unat (1 :: u32)" by auto
  then show ?thesis using unsigned_word_eqI by blast
qed

lemma bank_scheme_next_index_other [simp]: "bank_scheme_next_index b \<noteq> b" "b \<noteq> bank_scheme_next_index b"
  by (auto simp: bank_scheme_next_index_def)

lemma bank_scheme_next_index_twice [simp]: "b < 2 \<Longrightarrow> bank_scheme_next_index (bank_scheme_next_index b) = b"
  using bank_cases [of b] by (auto simp: bank_scheme_next_index_def)

lemma bank_scheme_next_index_less [simp]: "bank_scheme_next_index b < 2"
  by (simp add: bank_scheme_next_index_def)

text \<open>The volume of a bank differs from the volume of the other bank at the same location.\<close>

lemma banked_volume_id_parts:
  "and (banked_volume_id location_id usage_id) 0xffff = and usage_id 0xffff"
proof -
  have mask: "and x 0xffff = take_bit 16 x" for x :: u32
    by (simp add: take_bit_eq_mask mask_eq_decr_exp)
  show ?thesis
    unfolding banked_volume_id_def mask by (simp add: take_bit_push_bit)
qed

lemma banked_volumes_differ:
  assumes "b < 2" and "b' < 2" and "b \<noteq> b'"
  shows "banked_volume_id l (banked_usage_id b) \<noteq> banked_volume_id l' (banked_usage_id b')"
proof -
  have "b = 0 \<and> b' \<noteq> 0 \<or> b \<noteq> 0 \<and> b' = 0"
    using bank_cases [OF assms(1)] bank_cases [OF assms(2)] assms(3) by auto
  then have "and (banked_usage_id b) 0xffff \<noteq> and (banked_usage_id b') 0xffff"
    by (auto simp: banked_usage_id_def)
  then show ?thesis using banked_volume_id_parts by metis
qed


section \<open>Bank tracker\<close>

record bank_state =
  bs_is_content :: bool
  bs_is_accepted :: "bool list"

type_synonym bank_tracker = "bank_state list"

definition bank_tracker_init :: bank_tracker where
  "bank_tracker_init =
     replicate BANK_SCHEME_NUM_BANKS
       \<lparr>bs_is_content = False, bs_is_accepted = replicate FWU_MAX_FW_DIRECTORY_ENTRIES False\<rparr>"

definition bank_tracker_deinit :: "bank_tracker \<Rightarrow> bank_tracker" where
  "bank_tracker_deinit bt = bt"

text \<open>Access to the state of a bank, behind the assertion on the index.\<close>

definition bank_upd :: "bank_tracker \<Rightarrow> u32 \<Rightarrow> (bank_state \<Rightarrow> bank_state) \<Rightarrow> bank_tracker option" where
  "bank_upd bt b f =
     (if unat b < BANK_SCHEME_NUM_BANKS then Some (bt[unat b := f (bt ! unat b)]) else None)"

definition bank_tracker_accept :: "bank_tracker \<Rightarrow> u32 \<Rightarrow> u32 \<Rightarrow> bank_tracker option" where
  "bank_tracker_accept bt b i =
     (if unat i < FWU_MAX_FW_DIRECTORY_ENTRIES
      then bank_upd bt b (\<lambda>s. s\<lparr>bs_is_accepted := (bs_is_accepted s)[unat i := True]\<rparr>) else None)"

definition bank_tracker_copy_accept :: "bank_tracker \<Rightarrow> u32 \<Rightarrow> u32 \<Rightarrow> u32 \<Rightarrow> bank_tracker option" where
  "bank_tracker_copy_accept bt from_b to_b i =
     (if unat from_b < BANK_SCHEME_NUM_BANKS \<and> unat i < FWU_MAX_FW_DIRECTORY_ENTRIES
      then bank_upd bt to_b
             (\<lambda>s. s\<lparr>bs_is_accepted := (bs_is_accepted s)[unat i := bs_is_accepted (bt ! unat from_b) ! unat i]\<rparr>)
      else None)"

definition bank_tracker_set_no_content :: "bank_tracker \<Rightarrow> u32 \<Rightarrow> bank_tracker option" where
  "bank_tracker_set_no_content bt b =
     bank_upd bt b (\<lambda>s. s\<lparr>bs_is_content := False, bs_is_accepted := replicate FWU_MAX_FW_DIRECTORY_ENTRIES False\<rparr>)"

definition bank_tracker_set_holds_content :: "bank_tracker \<Rightarrow> u32 \<Rightarrow> bank_tracker option" where
  "bank_tracker_set_holds_content bt b = bank_upd bt b (\<lambda>s. s\<lparr>bs_is_content := True\<rparr>)"

definition bank_tracker_set_holds_accepted_content :: "bank_tracker \<Rightarrow> u32 \<Rightarrow> bank_tracker option" where
  "bank_tracker_set_holds_accepted_content bt b =
     bank_upd bt b (\<lambda>s. s\<lparr>bs_is_content := True, bs_is_accepted := replicate FWU_MAX_FW_DIRECTORY_ENTRIES True\<rparr>)"

definition bank_tracker_is_content :: "bank_tracker \<Rightarrow> u32 \<Rightarrow> bool option" where
  "bank_tracker_is_content bt b =
     (if unat b < BANK_SCHEME_NUM_BANKS then Some (bs_is_content (bt ! unat b)) else None)"

definition bank_tracker_is_accepted :: "bank_tracker \<Rightarrow> u32 \<Rightarrow> u32 \<Rightarrow> bool option" where
  "bank_tracker_is_accepted bt b i =
     (if unat b < BANK_SCHEME_NUM_BANKS \<and> unat i < FWU_MAX_FW_DIRECTORY_ENTRIES
      then Some (bs_is_accepted (bt ! unat b) ! unat i) else None)"

definition bank_tracker_is_all_accepted :: "bank_tracker \<Rightarrow> u32 \<Rightarrow> nat \<Rightarrow> bool option" where
  "bank_tracker_is_all_accepted bt b num_images =
     (if unat b < BANK_SCHEME_NUM_BANKS \<and> num_images \<le> FWU_MAX_FW_DIRECTORY_ENTRIES
      then Some (list_all (\<lambda>a. a) (take num_images (bs_is_accepted (bt ! unat b)))) else None)"


section \<open>The tracker as two tables\<close>

definition bank_tracker_ok :: "bank_tracker \<Rightarrow> bool" where
  "bank_tracker_ok bt \<longleftrightarrow>
     length bt = BANK_SCHEME_NUM_BANKS
     \<and> (\<forall>s\<in>set bt. length (bs_is_accepted s) = FWU_MAX_FW_DIRECTORY_ENTRIES)"

lemma bank_tracker_init_ok [simp]: "bank_tracker_ok bank_tracker_init"
  by (simp add: bank_tracker_ok_def bank_tracker_init_def)

lemma bank_upd_ok:
  assumes "bank_tracker_ok bt" and "bank_upd bt b f = Some bt'"
    and "\<And>s. length (bs_is_accepted s) = FWU_MAX_FW_DIRECTORY_ENTRIES \<Longrightarrow>
      length (bs_is_accepted (f s)) = FWU_MAX_FW_DIRECTORY_ENTRIES"
  shows "bank_tracker_ok bt'"
  using assms
  by (auto simp: bank_tracker_ok_def bank_upd_def split: if_splits dest!: set_update_subset_insert [THEN subsetD])

lemma bank_tracker_ops_ok:
  assumes "bank_tracker_ok bt"
  shows "bank_tracker_accept bt b i = Some bt' \<Longrightarrow> bank_tracker_ok bt'"
    and "bank_tracker_copy_accept bt a b i = Some bt' \<Longrightarrow> bank_tracker_ok bt'"
    and "bank_tracker_set_no_content bt b = Some bt' \<Longrightarrow> bank_tracker_ok bt'"
    and "bank_tracker_set_holds_content bt b = Some bt' \<Longrightarrow> bank_tracker_ok bt'"
    and "bank_tracker_set_holds_accepted_content bt b = Some bt' \<Longrightarrow> bank_tracker_ok bt'"
  unfolding bank_tracker_accept_def bank_tracker_copy_accept_def bank_tracker_set_no_content_def
    bank_tracker_set_holds_content_def bank_tracker_set_holds_accepted_content_def
  by (auto elim!: bank_upd_ok [OF assms] split: if_splits)

end
