(* ===== verification/Metadata.thy ===== *)
theory Metadata
  imports BankTracker VolumeIndex Volume
begin

text \<open>
  The firmware update metadata that the update agent leaves for the boot loader: the serializer
  interface (\<open>metadata_serializer.h\<close>) and its two versions (\<open>metadata_serializer_v1.c\<close>,
  \<open>metadata_serializer_v2.c\<close>) over the packed structures of \<open>protocols/service/fwu\<close>. The buffers are
  raw memory. The storage identifiers of the images come from the volumes, whose state \<open>'w\<close> is
  passed along.
\<close>

section \<open>Interface\<close>

record 'w metadata_serializer =
  ms_serialize :: "u32 \<Rightarrow> u32 \<Rightarrow> fw_directory \<Rightarrow> bank_tracker \<Rightarrow> bytes \<Rightarrow> size_t \<Rightarrow> 'w \<Rightarrow>
    (fwu_status \<times> bytes \<times> size_t \<times> 'w) option"
  ms_size :: "fw_directory \<Rightarrow> size_t"
  ms_max_size :: size_t
  ms_deserialize_bank_info :: "bank_tracker \<Rightarrow> bytes \<Rightarrow> size_t \<Rightarrow> bank_tracker option"
  ms_deserialize_active_indices :: "bytes \<Rightarrow> size_t \<Rightarrow> (u32 \<times> u32) option"

text \<open>A field of a packed structure.\<close>

definition put_field :: "bytes \<Rightarrow> nat \<Rightarrow> nat \<Rightarrow> nat \<Rightarrow> bytes option" where
  "put_field buf off k n = mem_write buf off (le_bytes k n)"

definition get_field :: "bytes \<Rightarrow> nat \<Rightarrow> nat \<Rightarrow> nat option" where
  "get_field buf off k = map_option le_val (mem_read buf off k)"

text \<open>The 16 octets of a \<open>struct uuid_octets\<close>.\<close>

definition octets :: "fw_uuid \<Rightarrow> bytes" where
  "octets uuid = take 16 (uuid @ replicate 16 0)"

lemma length_octets [simp]: "length (octets u) = 16"
  by (simp add: octets_def)


section \<open>Image entries\<close>

text \<open>An entry has the same layout in both versions: type and location identifiers, and for each of the
  two banks the identifier of the image, the accepted flag and a reserved word.\<close>

abbreviation FWU_IMAGE_ENTRY_SIZE :: nat where "FWU_IMAGE_ENTRY_SIZE \<equiv> 80"
abbreviation FWU_IMG_BANK_INFO :: nat where "FWU_IMG_BANK_INFO \<equiv> 32"
abbreviation FWU_IMG_BANK_INFO_SIZE :: nat where "FWU_IMG_BANK_INFO_SIZE \<equiv> 24"

text \<open>The identifiers of the volume of a bank, zero when there is none. \<open>with_parent\<close> says whether the pointer to
  the location is passed on.\<close>

definition bank_storage_ids ::
  "('v, 'w) volume_funcs \<Rightarrow> 'v volume_index \<Rightarrow> image_info \<Rightarrow> u32 \<Rightarrow> bool \<Rightarrow> fw_uuid \<Rightarrow> 'w \<Rightarrow>
    (fw_uuid \<times> fw_uuid \<times> 'w) option" where
  "bank_storage_ids vf idx info bank_index with_parent location_uuid w =
     (case volume_index_find idx (banked_volume_id (ii_location_id info) (banked_usage_id bank_index)) of
        (status, volume) \<Rightarrow>
          if status = 0 \<and> volume \<noteq> None
          then do {
            (st, ids, w1) \<leftarrow> volume_get_storage_ids vf (the volume) w;
            case ids of
              Some (img, parent) \<Rightarrow> Some (img, if with_parent then parent else location_uuid, w1)
            | None \<Rightarrow> Some ([], location_uuid, w1)
          }
          else Some ([], location_uuid, w))"

definition serialize_bank_info ::
  "('v, 'w) volume_funcs \<Rightarrow> 'v volume_index \<Rightarrow> bank_tracker \<Rightarrow> nat \<Rightarrow> image_info \<Rightarrow> nat \<Rightarrow> nat \<Rightarrow> bool \<Rightarrow>
    bytes \<times> fw_uuid \<times> 'w \<Rightarrow> (bytes \<times> fw_uuid \<times> 'w) option" where
  "serialize_bank_info vf idx bt image_index info entry bank_index with_parent s =
     (case s of (buf, location_uuid, w) \<Rightarrow> do {
        (img_uuid, location_uuid, w) \<leftarrow>
          bank_storage_ids vf idx info (word_of_nat bank_index) with_parent location_uuid w;
        let bank_info = entry + FWU_IMG_BANK_INFO + FWU_IMG_BANK_INFO_SIZE * bank_index;
        buf \<leftarrow> mem_write buf bank_info (octets img_uuid);
        buf \<leftarrow> put_field buf (bank_info + 20) 4 0;
        accepted \<leftarrow> bank_tracker_is_accepted bt (word_of_nat bank_index) (word_of_nat image_index);
        buf \<leftarrow> put_field buf (bank_info + 16) 4 (if accepted then 1 else 0);
        Some (buf, location_uuid, w)
      })"

text \<open>The body of the loop over the images, with the loop over the two banks written out.\<close>

definition serialize_image_entry ::
  "(nat \<Rightarrow> bool) \<Rightarrow> ('v, 'w) volume_funcs \<Rightarrow> 'v volume_index \<Rightarrow> bank_tracker \<Rightarrow> nat \<Rightarrow> image_info \<Rightarrow> nat \<Rightarrow>
    bytes \<Rightarrow> 'w \<Rightarrow> (bytes \<times> 'w) option" where
  "serialize_image_entry with_parent vf idx bt image_index info entry buf w =
     do {
       s \<leftarrow> serialize_bank_info vf idx bt image_index info entry 0 (with_parent 0) (buf, [], w);
       (buf, location_uuid, w) \<leftarrow> serialize_bank_info vf idx bt image_index info entry 1 (with_parent 1) s;
       buf \<leftarrow> mem_write buf entry (octets (ii_img_type_uuid info));
       buf \<leftarrow> mem_write buf (entry + 16) (octets location_uuid);
       Some (buf, w)
     }"


section \<open>Version 1\<close>

abbreviation FWU_METADATA_V1_IMG_ENTRY :: nat where "FWU_METADATA_V1_IMG_ENTRY \<equiv> 16"

function serialize_image_entries_v1 ::
  "('v, 'w) volume_funcs \<Rightarrow> 'v volume_index \<Rightarrow> fw_directory \<Rightarrow> bank_tracker \<Rightarrow> nat \<Rightarrow> bytes \<Rightarrow> 'w \<Rightarrow>
    (fwu_status \<times> bytes \<times> 'w) option" where
  "serialize_image_entries_v1 vf idx fw_dir bt image_index buf w =
     (case fw_directory_get_image_info fw_dir image_index of
        None \<Rightarrow> Some (FWU_STATUS_SUCCESS, buf, w)
      | Some image_info \<Rightarrow> do {
          (buf, w) \<leftarrow> serialize_image_entry (\<lambda>_. True) vf idx bt image_index image_info
            (FWU_METADATA_V1_IMG_ENTRY + FWU_IMAGE_ENTRY_SIZE * image_index) buf w;
          serialize_image_entries_v1 vf idx fw_dir bt (image_index + 1) buf w
        })"
  by pat_completeness auto

termination serialize_image_entries_v1
  by (relation "measure (\<lambda>(vf, idx, fw_dir, bt, i, buf, w). fd_num_images fw_dir - i)")
    (auto simp: fw_directory_get_image_info_def split: if_splits)

declare serialize_image_entries_v1.simps [simp del]

definition metadata_serializer_size_v1 :: "fw_directory \<Rightarrow> size_t" where
  "metadata_serializer_size_v1 fw_dir =
     FWU_METADATA_V1_IMG_ENTRY + fw_directory_num_images fw_dir * FWU_IMAGE_ENTRY_SIZE"

definition metadata_serializer_max_size_v1 :: size_t where
  "metadata_serializer_max_size_v1 =
     FWU_METADATA_V1_IMG_ENTRY + FWU_MAX_FW_DIRECTORY_ENTRIES * FWU_IMAGE_ENTRY_SIZE"

definition metadata_serializer_serialize_v1 ::
  "('v, 'w) volume_funcs \<Rightarrow> 'v volume_index \<Rightarrow> u32 \<Rightarrow> u32 \<Rightarrow> fw_directory \<Rightarrow> bank_tracker \<Rightarrow> bytes \<Rightarrow> size_t \<Rightarrow> 'w \<Rightarrow>
    (fwu_status \<times> bytes \<times> size_t \<times> 'w) option" where
  "metadata_serializer_serialize_v1 vf idx active_index previous_active_index fw_dir bt buf buf_size w =
     (if metadata_serializer_size_v1 fw_dir \<le> buf_size
      then do {
        buf \<leftarrow> put_field buf 0 4 0;
        buf \<leftarrow> put_field buf 4 4 1;
        buf \<leftarrow> put_field buf 8 4 (unat active_index);
        buf \<leftarrow> put_field buf 12 4 (unat previous_active_index);
        (status, buf, w) \<leftarrow> serialize_image_entries_v1 vf idx fw_dir bt 0 buf w;
        Some (status, buf, if status = FWU_STATUS_SUCCESS then metadata_serializer_size_v1 fw_dir else 0, w)
      }
      else Some (FWU_STATUS_UNKNOWN, buf, 0, w))"

definition set_holds_content_at :: "bytes \<Rightarrow> nat \<Rightarrow> bank_tracker \<Rightarrow> bank_tracker option" where
  "set_holds_content_at buf off bt = do {
     index \<leftarrow> get_field buf off 4;
     if index < BANK_SCHEME_NUM_BANKS then bank_tracker_set_holds_content bt (word_of_nat index) else Some bt
   }"

text \<open>The accept state of one bank of one image. The loops have the number of rounds left as their argument.\<close>

definition deserialize_accepted :: "bytes \<Rightarrow> nat \<Rightarrow> nat \<Rightarrow> nat \<Rightarrow> bank_tracker \<Rightarrow> bank_tracker option" where
  "deserialize_accepted buf bank_info bank_index image_index bt = do {
     accepted \<leftarrow> get_field buf (bank_info + 16) 4;
     if accepted \<noteq> 0 then bank_tracker_accept bt (word_of_nat bank_index) (word_of_nat image_index) else Some bt
   }"

fun deserialize_banks :: "bytes \<Rightarrow> nat \<Rightarrow> nat \<Rightarrow> nat \<Rightarrow> nat \<Rightarrow> nat \<Rightarrow> bank_tracker \<Rightarrow> bank_tracker option" where
  "deserialize_banks buf bank_infos bank_size bank_index image_index 0 bt = Some bt"
| "deserialize_banks buf bank_infos bank_size bank_index image_index (Suc n) bt = do {
     bt \<leftarrow> deserialize_accepted buf (bank_infos + bank_index * bank_size) bank_index image_index bt;
     deserialize_banks buf bank_infos bank_size (bank_index + 1) image_index n bt
   }"

fun deserialize_images ::
  "bytes \<Rightarrow> nat \<Rightarrow> nat \<Rightarrow> nat \<Rightarrow> nat \<Rightarrow> nat \<Rightarrow> nat \<Rightarrow> bank_tracker \<Rightarrow> bank_tracker option" where
  "deserialize_images buf entries entry_size bank_size num_banks image_index 0 bt = Some bt"
| "deserialize_images buf entries entry_size bank_size num_banks image_index (Suc n) bt = do {
     bt \<leftarrow> deserialize_banks buf (entries + image_index * entry_size + FWU_IMG_BANK_INFO) bank_size 0 image_index num_banks bt;
     deserialize_images buf entries entry_size bank_size num_banks (image_index + 1) n bt
   }"

definition metadata_serializer_deserialize_bank_info_v1 ::
  "bank_tracker \<Rightarrow> bytes \<Rightarrow> size_t \<Rightarrow> bank_tracker option" where
  "metadata_serializer_deserialize_bank_info_v1 bt buf metadata_len = do {
     bt \<leftarrow> set_holds_content_at buf 8 bt;
     bt \<leftarrow> set_holds_content_at buf 12 bt;
     if FWU_METADATA_V1_IMG_ENTRY \<le> metadata_len
     then deserialize_images buf FWU_METADATA_V1_IMG_ENTRY FWU_IMAGE_ENTRY_SIZE FWU_IMG_BANK_INFO_SIZE
            BANK_SCHEME_NUM_BANKS 0 ((metadata_len - FWU_METADATA_V1_IMG_ENTRY) div FWU_IMAGE_ENTRY_SIZE) bt
     else Some bt
   }"

definition deserialize_active_indices :: "nat \<Rightarrow> bytes \<Rightarrow> size_t \<Rightarrow> (u32 \<times> u32) option" where
  "deserialize_active_indices least buf metadata_len =
     (if least \<le> metadata_len
      then do {
        active_index \<leftarrow> get_field buf 8 4;
        previous_active_index \<leftarrow> get_field buf 12 4;
        Some (word_of_nat active_index, word_of_nat previous_active_index)
      }
      else None)"

definition metadata_serializer_deserialize_active_indices_v1 :: "bytes \<Rightarrow> size_t \<Rightarrow> (u32 \<times> u32) option" where
  "metadata_serializer_deserialize_active_indices_v1 = deserialize_active_indices FWU_METADATA_V1_IMG_ENTRY"

definition metadata_serializer_v1 :: "('v, 'w) volume_funcs \<Rightarrow> 'v volume_index \<Rightarrow> 'w metadata_serializer" where
  "metadata_serializer_v1 vf idx =
     \<lparr>ms_serialize = metadata_serializer_serialize_v1 vf idx, ms_size = metadata_serializer_size_v1,
      ms_max_size = metadata_serializer_max_size_v1,
      ms_deserialize_bank_info = metadata_serializer_deserialize_bank_info_v1,
      ms_deserialize_active_indices = metadata_serializer_deserialize_active_indices_v1\<rparr>"


section \<open>Version 2\<close>

abbreviation FWU_METADATA_V2_SIZE :: nat where "FWU_METADATA_V2_SIZE \<equiv> 32"
abbreviation FWU_FW_STORE_DESC_IMG_ENTRY :: nat where "FWU_FW_STORE_DESC_IMG_ENTRY \<equiv> 8"
abbreviation FWU_METADATA_V2_BANK_STATE :: nat where "FWU_METADATA_V2_BANK_STATE \<equiv> 24"
abbreviation FWU_METADATA_V2_BANK_STATE_INVALID :: nat where "FWU_METADATA_V2_BANK_STATE_INVALID \<equiv> 0xff"
abbreviation FWU_METADATA_V2_BANK_STATE_VALID :: nat where "FWU_METADATA_V2_BANK_STATE_VALID \<equiv> 0xfe"
abbreviation FWU_METADATA_V2_BANK_STATE_ACCEPTED :: nat where "FWU_METADATA_V2_BANK_STATE_ACCEPTED \<equiv> 0xfc"

definition metadata_serializer_size_v2 :: "fw_directory \<Rightarrow> size_t" where
  "metadata_serializer_size_v2 fw_dir =
     FWU_METADATA_V2_SIZE + FWU_FW_STORE_DESC_IMG_ENTRY + FWU_IMAGE_ENTRY_SIZE * fw_directory_num_images fw_dir"

definition metadata_serializer_max_size_v2 :: size_t where
  "metadata_serializer_max_size_v2 =
     FWU_METADATA_V2_SIZE + FWU_FW_STORE_DESC_IMG_ENTRY + FWU_IMAGE_ENTRY_SIZE * FWU_MAX_FW_DIRECTORY_ENTRIES"

text \<open>The loop runs while the index is below the field \<open>num_images\<close>, which the entries do not overlap; its
  number of rounds is the last argument.\<close>

fun serialize_image_entries_v2 ::
  "('v, 'w) volume_funcs \<Rightarrow> 'v volume_index \<Rightarrow> nat \<Rightarrow> fw_directory \<Rightarrow> bank_tracker \<Rightarrow> nat \<Rightarrow> bytes \<Rightarrow> 'w \<Rightarrow> nat \<Rightarrow>
    (fwu_status \<times> bytes \<times> 'w) option" where
  "serialize_image_entries_v2 vf idx desc fw_dir bt image_index buf w 0 = Some (FWU_STATUS_SUCCESS, buf, w)"
| "serialize_image_entries_v2 vf idx desc fw_dir bt image_index buf w (Suc n) = do {
     image_info \<leftarrow> fw_directory_get_image_info fw_dir image_index;
     (buf, w) \<leftarrow> serialize_image_entry (\<lambda>bank_index. bank_index = 0) vf idx bt image_index image_info
       (desc + FWU_FW_STORE_DESC_IMG_ENTRY + FWU_IMAGE_ENTRY_SIZE * image_index) buf w;
     serialize_image_entries_v2 vf idx desc fw_dir bt (image_index + 1) buf w n
   }"

definition serialize_fw_store_desc ::
  "('v, 'w) volume_funcs \<Rightarrow> 'v volume_index \<Rightarrow> fw_directory \<Rightarrow> bank_tracker \<Rightarrow> nat \<Rightarrow> bytes \<Rightarrow> 'w \<Rightarrow>
    (fwu_status \<times> bytes \<times> 'w) option" where
  "serialize_fw_store_desc vf idx fw_dir bt desc buf w = do {
     buf \<leftarrow> put_field buf desc 1 BANK_SCHEME_NUM_BANKS;
     buf \<leftarrow> put_field buf (desc + 2) 2 (fw_directory_num_images fw_dir);
     buf \<leftarrow> put_field buf (desc + 4) 2 FWU_IMAGE_ENTRY_SIZE;
     buf \<leftarrow> put_field buf (desc + 6) 2 FWU_IMG_BANK_INFO_SIZE;
     num_images \<leftarrow> get_field buf (desc + 2) 2;
     serialize_image_entries_v2 vf idx desc fw_dir bt 0 buf w num_images
   }"

definition bank_state_of :: "bank_tracker \<Rightarrow> fw_directory \<Rightarrow> nat \<Rightarrow> nat option" where
  "bank_state_of bt fw_dir bank_index =
     (if bank_index < BANK_SCHEME_NUM_BANKS
      then do {
        all_accepted \<leftarrow> bank_tracker_is_all_accepted bt (word_of_nat bank_index) (fw_directory_num_images fw_dir);
        is_content \<leftarrow> bank_tracker_is_content bt (word_of_nat bank_index);
        Some (if all_accepted then FWU_METADATA_V2_BANK_STATE_ACCEPTED
              else if is_content then FWU_METADATA_V2_BANK_STATE_VALID else FWU_METADATA_V2_BANK_STATE_INVALID)
      }
      else Some FWU_METADATA_V2_BANK_STATE_INVALID)"

fun serialize_bank_states :: "bank_tracker \<Rightarrow> fw_directory \<Rightarrow> nat \<Rightarrow> nat \<Rightarrow> bytes \<Rightarrow> bytes option" where
  "serialize_bank_states bt fw_dir bank_index 0 buf = Some buf"
| "serialize_bank_states bt fw_dir bank_index (Suc n) buf = do {
     state \<leftarrow> bank_state_of bt fw_dir bank_index;
     buf \<leftarrow> put_field buf (FWU_METADATA_V2_BANK_STATE + bank_index) 1 state;
     serialize_bank_states bt fw_dir (bank_index + 1) n buf
   }"

definition metadata_serializer_serialize_v2 ::
  "('v, 'w) volume_funcs \<Rightarrow> 'v volume_index \<Rightarrow> u32 \<Rightarrow> u32 \<Rightarrow> fw_directory \<Rightarrow> bank_tracker \<Rightarrow> bytes \<Rightarrow> size_t \<Rightarrow> 'w \<Rightarrow>
    (fwu_status \<times> bytes \<times> size_t \<times> 'w) option" where
  "metadata_serializer_serialize_v2 vf idx active_index previous_active_index fw_dir bt buf buf_size w =
     (let serialized_size = metadata_serializer_size_v2 fw_dir
      in if serialized_size \<le> buf_size
         then do {
           buf \<leftarrow> put_field buf 0 4 0;
           buf \<leftarrow> put_field buf 4 4 2;
           buf \<leftarrow> put_field buf 16 4 serialized_size;
           buf \<leftarrow> put_field buf 20 2 FWU_METADATA_V2_SIZE;
           buf \<leftarrow> put_field buf 8 4 (unat active_index);
           buf \<leftarrow> put_field buf 12 4 (unat previous_active_index);
           buf \<leftarrow> serialize_bank_states bt fw_dir 0 4 buf;
           descriptor_offset \<leftarrow> get_field buf 20 2;
           (status, buf, w) \<leftarrow>
             (if descriptor_offset < serialized_size
              then serialize_fw_store_desc vf idx fw_dir bt descriptor_offset buf w
              else Some (FWU_STATUS_SUCCESS, buf, w));
           Some (status, buf, if status = FWU_STATUS_SUCCESS then serialized_size else 0, w)
         }
         else Some (FWU_STATUS_UNKNOWN, buf, 0, w))"

fun deserialize_bank_states :: "bytes \<Rightarrow> nat \<Rightarrow> nat \<Rightarrow> bank_tracker \<Rightarrow> bank_tracker option" where
  "deserialize_bank_states buf bank_index 0 bt = Some bt"
| "deserialize_bank_states buf bank_index (Suc n) bt = do {
     state \<leftarrow> get_field buf (FWU_METADATA_V2_BANK_STATE + bank_index) 1;
     bt \<leftarrow> (if state = FWU_METADATA_V2_BANK_STATE_ACCEPTED
             then bank_tracker_set_holds_accepted_content bt (word_of_nat bank_index)
             else if state = FWU_METADATA_V2_BANK_STATE_VALID
             then bank_tracker_set_holds_content bt (word_of_nat bank_index)
             else Some bt);
     deserialize_bank_states buf (bank_index + 1) n bt
   }"

definition metadata_serializer_deserialize_bank_info_v2 ::
  "bank_tracker \<Rightarrow> bytes \<Rightarrow> size_t \<Rightarrow> bank_tracker option" where
  "metadata_serializer_deserialize_bank_info_v2 bt buf metadata_len = do {
     desc \<leftarrow> get_field buf 20 2;
     metadata_size \<leftarrow> get_field buf 16 4;
     if metadata_len < desc \<or> metadata_len < metadata_size then Some bt
     else do {
       bt \<leftarrow> deserialize_bank_states buf 0 BANK_SCHEME_NUM_BANKS bt;
       if desc + FWU_FW_STORE_DESC_IMG_ENTRY \<le> metadata_size
       then do {
         let total_img_entries_size = metadata_size - desc - FWU_FW_STORE_DESC_IMG_ENTRY;
         num_banks \<leftarrow> get_field buf desc 1;
         num_images \<leftarrow> get_field buf (desc + 2) 2;
         img_entry_size \<leftarrow> get_field buf (desc + 4) 2;
         bank_info_entry_size \<leftarrow> get_field buf (desc + 6) 2;
         if img_entry_size < FWU_IMAGE_ENTRY_SIZE \<or> bank_info_entry_size < FWU_IMG_BANK_INFO_SIZE
           \<or> BANK_SCHEME_NUM_BANKS < num_banks
           \<or> img_entry_size < FWU_IMG_BANK_INFO + num_banks * bank_info_entry_size
           \<or> FWU_MAX_FW_DIRECTORY_ENTRIES < num_images
           \<or> total_img_entries_size < num_images * img_entry_size
         then Some bt
         else deserialize_images buf (desc + FWU_FW_STORE_DESC_IMG_ENTRY) img_entry_size bank_info_entry_size
                num_banks 0 num_images bt
       }
       else Some bt
     }
   }"

definition metadata_serializer_deserialize_active_indices_v2 :: "bytes \<Rightarrow> size_t \<Rightarrow> (u32 \<times> u32) option" where
  "metadata_serializer_deserialize_active_indices_v2 = deserialize_active_indices FWU_METADATA_V2_SIZE"

definition metadata_serializer_v2 :: "('v, 'w) volume_funcs \<Rightarrow> 'v volume_index \<Rightarrow> 'w metadata_serializer" where
  "metadata_serializer_v2 vf idx =
     \<lparr>ms_serialize = metadata_serializer_serialize_v2 vf idx, ms_size = metadata_serializer_size_v2,
      ms_max_size = metadata_serializer_max_size_v2,
      ms_deserialize_bank_info = metadata_serializer_deserialize_bank_info_v2,
      ms_deserialize_active_indices = metadata_serializer_deserialize_active_indices_v2\<rparr>"

end
