(* ===== verification/MetadataFields.thy ===== *)
theory MetadataFields
  imports Metadata
begin

text \<open>
  What the two metadata formats promise: serializing always succeeds in a buffer of the maximum size and
  what it wrote reads back, whatever is later put into the CRC field; reading a buffer with arbitrary
  contents never leaves the buffer and never fails an assertion. The locale \<open>metadata_format\<close> is the
  contract the metadata manager relies on, and both versions are interpretations of it.
\<close>

section \<open>Fields and regions of memory\<close>

definition unchanged :: "nat \<Rightarrow> nat \<Rightarrow> bytes \<Rightarrow> bytes \<Rightarrow> bool" where
  "unchanged off n m m' \<longleftrightarrow>
     length m' = length m \<and> (\<forall>k < length m. k < off \<or> off + n \<le> k \<longrightarrow> m' ! k = m ! k)"

lemma unchanged_length: "unchanged off n m m' \<Longrightarrow> length m' = length m"
  by (simp add: unchanged_def)

lemma unchanged_refl [simp]: "unchanged off n m m"
  by (simp add: unchanged_def)

lemma unchanged_trans [trans]: "unchanged off n a b \<Longrightarrow> unchanged off n b c \<Longrightarrow> unchanged off n a c"
  by (simp add: unchanged_def)

lemma unchanged_mono: "unchanged off n a b \<Longrightarrow> off' \<le> off \<Longrightarrow> off + n \<le> off' + n' \<Longrightarrow> unchanged off' n' a b"
  by (auto simp: unchanged_def)

lemma unchanged_splice:
  "off + length d \<le> length m \<Longrightarrow> unchanged off (length d) m (splice m off d)"
  by (auto simp: unchanged_def nth_splice)

lemma unchanged_slice:
  assumes "unchanged off n m m'" and "o1 + k \<le> off \<or> off + n \<le> o1" and "o1 + k \<le> length m"
  shows "slice m' o1 k = slice m o1 k"
  using assms by (intro nth_equalityI) (auto simp: unchanged_def nth_slice)

lemma unchanged_field:
  assumes "unchanged off n m m'" and "o1 + k \<le> off \<or> off + n \<le> o1" and "o1 + k \<le> length m"
  shows "get_field m' o1 k = get_field m o1 k"
  using assms unchanged_slice [OF assms] by (simp add: get_field_def mem_read_in unchanged_length)

lemma get_field_in: "off + k \<le> length m \<Longrightarrow> get_field m off k = Some (le_val (slice m off k))"
  by (simp add: get_field_def mem_read_in)

lemma put_field_returns:
  assumes "off + k \<le> length m"
  shows "\<exists>m'. put_field m off k n = Some m' \<and> unchanged off k m m' \<and> get_field m' off k = Some (n mod 256 ^ k)"
  using assms unchanged_splice [of off "le_bytes k n" m] slice_splice_same [of off "le_bytes k n" m]
  by (simp add: put_field_def mem_write_in get_field_in le_val_le_bytes_mod)

lemma mem_write_returns:
  assumes "off + length d \<le> length m"
  shows "\<exists>m'. mem_write m off d = Some m' \<and> unchanged off (length d) m m'"
  using assms unchanged_splice [of off d m] by (simp add: mem_write_in)


section \<open>Bank tracker by bank and image\<close>

definition accepted_in :: "bank_tracker \<Rightarrow> nat \<Rightarrow> nat \<Rightarrow> bool" where
  "accepted_in bt b i \<longleftrightarrow> bs_is_accepted (bt ! b) ! i"

definition content_in :: "bank_tracker \<Rightarrow> nat \<Rightarrow> bool" where
  "content_in bt b \<longleftrightarrow> bs_is_content (bt ! b)"

lemma unat_small [simp]: "n < 20 \<Longrightarrow> unat (word_of_nat n :: u32) = n"
  by (simp add: unat_of_nat take_bit_nat_eq_self)

lemma bank_tracker_ok_nth:
  "bank_tracker_ok bt \<longleftrightarrow> length bt = 2 \<and> (\<forall>b < 2. length (bs_is_accepted (bt ! b)) = FWU_MAX_FW_DIRECTORY_ENTRIES)"
  by (auto simp: bank_tracker_ok_def all_set_conv_all_nth)

lemma bank_tracker_queries:
  assumes "bank_tracker_ok bt" and "b < 2"
  shows "i < 20 \<Longrightarrow> bank_tracker_is_accepted bt (word_of_nat b) (word_of_nat i) = Some (accepted_in bt b i)"
    and "bank_tracker_is_content bt (word_of_nat b) = Some (content_in bt b)"
    and "n \<le> 20 \<Longrightarrow> bank_tracker_is_all_accepted bt (word_of_nat b) n = Some (\<forall>i < n. accepted_in bt b i)"
  using assms
  by (auto simp: bank_tracker_is_accepted_def bank_tracker_is_content_def bank_tracker_is_all_accepted_def
      accepted_in_def content_in_def bank_tracker_ok_def list_all_length)

lemma bank_tracker_accept_effect:
  assumes "bank_tracker_ok bt" and "b < 2" and "i < 20"
  shows "\<exists>bt'. bank_tracker_accept bt (word_of_nat b) (word_of_nat i) = Some bt' \<and> bank_tracker_ok bt'
    \<and> (\<forall>c. content_in bt' c = content_in bt c)
    \<and> (\<forall>c j. accepted_in bt' c j = (accepted_in bt c j \<or> c = b \<and> j = i))"
  using assms
  by (auto simp: bank_tracker_accept_def bank_upd_def bank_tracker_ok_nth accepted_in_def content_in_def nth_update_if)

lemma bank_tracker_content_effect:
  assumes "bank_tracker_ok bt" and "b < 2"
  shows "\<exists>bt'. bank_tracker_set_holds_content bt (word_of_nat b) = Some bt' \<and> bank_tracker_ok bt'
    \<and> (\<forall>c. content_in bt' c = (content_in bt c \<or> c = b))
    \<and> (\<forall>c j. accepted_in bt' c j = accepted_in bt c j)"
  using assms
  by (auto simp: bank_tracker_set_holds_content_def bank_upd_def bank_tracker_ok_nth accepted_in_def content_in_def
      nth_update_if)

lemma bank_tracker_accepted_content_effect:
  assumes "bank_tracker_ok bt" and "b < 2"
  shows "\<exists>bt'. bank_tracker_set_holds_accepted_content bt (word_of_nat b) = Some bt' \<and> bank_tracker_ok bt'
    \<and> (\<forall>c. content_in bt' c = (content_in bt c \<or> c = b))
    \<and> (\<forall>c j. j < 20 \<longrightarrow> accepted_in bt' c j = (accepted_in bt c j \<or> c = b))"
  using assms
  by (auto simp: bank_tracker_set_holds_accepted_content_def bank_upd_def bank_tracker_ok_nth accepted_in_def
      content_in_def nth_update_if)


section \<open>Reading\<close>

text \<open>The accepted flag of bank \<open>b\<close> of image \<open>j\<close>.\<close>

definition accepted_field :: "bytes \<Rightarrow> nat \<Rightarrow> nat \<Rightarrow> nat \<Rightarrow> nat \<Rightarrow> nat \<Rightarrow> nat option" where
  "accepted_field buf entries entry_size bank_size j b =
     get_field buf (entries + j * entry_size + FWU_IMG_BANK_INFO + b * bank_size + 16) 4"

lemma deserialize_accepted_effect:
  assumes "bank_tracker_ok bt" and "b < 2" and "i < 20" and "get_field buf (bank_info + 16) 4 = Some x"
  shows "\<exists>bt'. deserialize_accepted buf bank_info b i bt = Some bt' \<and> bank_tracker_ok bt'
    \<and> (\<forall>c. content_in bt' c = content_in bt c)
    \<and> (\<forall>c j. accepted_in bt' c j = (accepted_in bt c j \<or> x \<noteq> 0 \<and> c = b \<and> j = i))"
  using assms bank_tracker_accept_effect [OF assms(1-3)] by (auto simp: deserialize_accepted_def)

lemma deserialize_banks_effect:
  assumes "bank_tracker_ok bt" and "b + n \<le> 2" and "i < 20"
    and "\<forall>c. b \<le> c \<and> c < b + n \<longrightarrow> get_field buf (bank_infos + c * bank_size + 16) 4 = Some (x c)"
  shows "\<exists>bt'. deserialize_banks buf bank_infos bank_size b i n bt = Some bt' \<and> bank_tracker_ok bt'
    \<and> (\<forall>c. content_in bt' c = content_in bt c)
    \<and> (\<forall>c j. accepted_in bt' c j = (accepted_in bt c j \<or> b \<le> c \<and> c < b + n \<and> x c \<noteq> 0 \<and> j = i))"
  using assms
proof (induction n arbitrary: b bt)
  case (Suc n)
  then obtain bt1 where 1: "deserialize_accepted buf (bank_infos + b * bank_size) b i bt = Some bt1" "bank_tracker_ok bt1"
    "\<forall>c. content_in bt1 c = content_in bt c"
    "\<forall>c j. accepted_in bt1 c j = (accepted_in bt c j \<or> x b \<noteq> 0 \<and> c = b \<and> j = i)"
    using deserialize_accepted_effect [of bt b i buf "bank_infos + b * bank_size" "x b"] by auto
  obtain bt2 where 2: "deserialize_banks buf bank_infos bank_size (b + 1) i n bt1 = Some bt2" "bank_tracker_ok bt2"
    "\<forall>c. content_in bt2 c = content_in bt1 c"
    "\<forall>c j. accepted_in bt2 c j = (accepted_in bt1 c j \<or> b + 1 \<le> c \<and> c < b + 1 + n \<and> x c \<noteq> 0 \<and> j = i)"
    using Suc.IH [of bt1 "b + 1"] Suc.prems 1(2) by auto
  have "accepted_in bt2 c j = (accepted_in bt c j \<or> b \<le> c \<and> c < b + Suc n \<and> x c \<noteq> 0 \<and> j = i)" for c j
    unfolding 2(4) [rule_format] 1(4) [rule_format] by (cases "c = b") auto
  then show ?case using 1 2 by simp
qed auto

lemma deserialize_images_effect:
  assumes "bank_tracker_ok bt" and "num_banks \<le> 2" and "i + n \<le> 20"
    and "\<forall>j c. i \<le> j \<and> j < i + n \<and> c < num_banks \<longrightarrow> accepted_field buf entries entry_size bank_size j c = Some (x j c)"
  shows "\<exists>bt'. deserialize_images buf entries entry_size bank_size num_banks i n bt = Some bt' \<and> bank_tracker_ok bt'
    \<and> (\<forall>c. content_in bt' c = content_in bt c)
    \<and> (\<forall>c j. accepted_in bt' c j = (accepted_in bt c j \<or> i \<le> j \<and> j < i + n \<and> c < num_banks \<and> x j c \<noteq> 0))"
  using assms
proof (induction n arbitrary: i bt)
  case (Suc n)
  then obtain bt1 where 1:
    "deserialize_banks buf (entries + i * entry_size + FWU_IMG_BANK_INFO) bank_size 0 i num_banks bt = Some bt1"
    "bank_tracker_ok bt1" "\<forall>c. content_in bt1 c = content_in bt c"
    "\<forall>c j. accepted_in bt1 c j = (accepted_in bt c j \<or> c < num_banks \<and> x i c \<noteq> 0 \<and> j = i)"
    using deserialize_banks_effect
      [of bt 0 num_banks i buf "entries + i * entry_size + FWU_IMG_BANK_INFO" bank_size "x i"]
    by (auto simp: accepted_field_def)
  obtain bt2 where 2: "deserialize_images buf entries entry_size bank_size num_banks (i + 1) n bt1 = Some bt2"
    "bank_tracker_ok bt2" "\<forall>c. content_in bt2 c = content_in bt1 c"
    "\<forall>c j. accepted_in bt2 c j = (accepted_in bt1 c j \<or> i + 1 \<le> j \<and> j < i + 1 + n \<and> c < num_banks \<and> x j c \<noteq> 0)"
    using Suc.IH [of bt1 "i + 1"] Suc.prems 1(2) by auto
  have "accepted_in bt2 c j = (accepted_in bt c j \<or> i \<le> j \<and> j < i + Suc n \<and> c < num_banks \<and> x j c \<noteq> 0)" for c j
    unfolding 2(4) [rule_format] 1(4) [rule_format] by (cases "j = i") auto
  then show ?case using 1 2 by simp
qed auto

text \<open>Every flag lies in the buffer when the entries do and the flags lie in their entries.\<close>

lemma accepted_field_in:
  assumes "j < n" and "c < num_banks" and "24 \<le> bank_size" and "32 + num_banks * bank_size \<le> entry_size"
    and "entries + n * entry_size \<le> length buf"
  shows "\<exists>x. accepted_field buf entries entry_size bank_size j c = Some x"
proof -
  have "Suc c * bank_size \<le> num_banks * bank_size" and "Suc j * entry_size \<le> n * entry_size"
    using assms(1,2) mult_le_mono1 [of "Suc c" num_banks] mult_le_mono1 [of "Suc j" n] by (simp_all only: Suc_le_eq)
  then have "entries + j * entry_size + 32 + c * bank_size + 16 + 4 \<le> length buf"
    using assms(3-5) by simp
  then show ?thesis by (simp add: accepted_field_def get_field_in)
qed

lemma set_holds_content_at_effect:
  assumes "bank_tracker_ok bt" and "get_field buf off 4 = Some x"
  shows "\<exists>bt'. set_holds_content_at buf off bt = Some bt' \<and> bank_tracker_ok bt'
    \<and> (\<forall>c < 2. content_in bt' c = (content_in bt c \<or> c = x)) \<and> (\<forall>c j. accepted_in bt' c j = accepted_in bt c j)"
  using assms bank_tracker_content_effect [OF assms(1), of x] by (auto simp: set_holds_content_at_def)

definition restore_bank_state :: "nat \<Rightarrow> bank_tracker \<Rightarrow> nat \<Rightarrow> bank_tracker option" where
  "restore_bank_state x bt b =
     (if x = 0xfc then bank_tracker_set_holds_accepted_content bt (word_of_nat b)
      else if x = 0xfe then bank_tracker_set_holds_content bt (word_of_nat b) else Some bt)"

lemma restore_bank_state_effect:
  assumes "bank_tracker_ok bt" and "b < 2"
  shows "\<exists>bt'. restore_bank_state x bt b = Some bt' \<and> bank_tracker_ok bt'
    \<and> (\<forall>c. content_in bt' c = (content_in bt c \<or> c = b \<and> (x = 0xfc \<or> x = 0xfe)))
    \<and> (\<forall>c j. j < 20 \<longrightarrow> accepted_in bt' c j = (accepted_in bt c j \<or> c = b \<and> x = 0xfc))"
proof -
  consider "x = 0xfc" | "x = 0xfe" | "x \<noteq> 0xfc" "x \<noteq> 0xfe" by blast
  then show ?thesis
  proof cases
    case 1
    with bank_tracker_accepted_content_effect [OF assms] show ?thesis by (simp add: restore_bank_state_def)
  next
    case 2
    with bank_tracker_content_effect [OF assms] show ?thesis by (auto simp: restore_bank_state_def)
  qed (simp add: restore_bank_state_def assms)
qed

lemma deserialize_bank_states_effect:
  assumes "bank_tracker_ok bt" and "b + n \<le> 2"
    and "\<forall>c. b \<le> c \<and> c < b + n \<longrightarrow> get_field buf (FWU_METADATA_V2_BANK_STATE + c) 1 = Some (x c)"
  shows "\<exists>bt'. deserialize_bank_states buf b n bt = Some bt' \<and> bank_tracker_ok bt'
    \<and> (\<forall>c. content_in bt' c = (content_in bt c \<or> b \<le> c \<and> c < b + n \<and> (x c = 0xfc \<or> x c = 0xfe)))
    \<and> (\<forall>c j. j < 20 \<longrightarrow> accepted_in bt' c j = (accepted_in bt c j \<or> b \<le> c \<and> c < b + n \<and> x c = 0xfc))"
  using assms
proof (induction n arbitrary: b bt)
  case (Suc n)
  have xb: "get_field buf (FWU_METADATA_V2_BANK_STATE + b) 1 = Some (x b)" using Suc.prems(3) by simp
  obtain bt1 where 1: "restore_bank_state (x b) bt b = Some bt1"
    "bank_tracker_ok bt1" "\<forall>c. content_in bt1 c = (content_in bt c \<or> c = b \<and> (x b = 0xfc \<or> x b = 0xfe))"
    "\<forall>c j. j < 20 \<longrightarrow> accepted_in bt1 c j = (accepted_in bt c j \<or> c = b \<and> x b = 0xfc)"
    using restore_bank_state_effect [OF Suc.prems(1), of b "x b"] Suc.prems(2) by (auto simp del: One_nat_def)
  have rest: "b + 1 + n \<le> 2"
    "\<forall>c. b + 1 \<le> c \<and> c < b + 1 + n \<longrightarrow> get_field buf (FWU_METADATA_V2_BANK_STATE + c) 1 = Some (x c)"
    using Suc.prems(2,3) by auto
  obtain bt2 where 2: "deserialize_bank_states buf (b + 1) n bt1 = Some bt2" "bank_tracker_ok bt2"
    "\<forall>c. content_in bt2 c = (content_in bt1 c \<or> b + 1 \<le> c \<and> c < b + 1 + n \<and> (x c = 0xfc \<or> x c = 0xfe))"
    "\<forall>c j. j < 20 \<longrightarrow> accepted_in bt2 c j = (accepted_in bt1 c j \<or> b + 1 \<le> c \<and> c < b + 1 + n \<and> x c = 0xfc)"
    using Suc.IH [OF 1(2) rest] by blast
  have "content_in bt2 c = (content_in bt c \<or> b \<le> c \<and> c < b + Suc n \<and> (x c = 0xfc \<or> x c = 0xfe))" for c
    unfolding 2(3) [rule_format] 1(3) [rule_format] by (cases "c = b") auto
  moreover have "accepted_in bt2 c j = (accepted_in bt c j \<or> b \<le> c \<and> c < b + Suc n \<and> x c = 0xfc)" if "j < 20" for c j
    unfolding 2(4) [rule_format, OF that] 1(4) [rule_format, OF that] by (cases "c = b") auto
  moreover have "deserialize_bank_states buf b (Suc n) bt = Some bt2"
    using 1(1) 2(1) xb by (simp add: restore_bank_state_def)
  ultimately show ?case using 2(2) by simp
qed auto

end
