(* ===== verification/BlockVolumes.thy ===== *)
theory BlockVolumes
  imports Volume BlockVolume
begin

text \<open>
  Block volumes behind the volume interface: the functions a \<open>block_volume\<close> registers
  (\<open>block_volume.c\<close>), one block volume per address, and the proof that volumes over RAM block
  devices fulfil the contract \<open>volume_files\<close>. The volumes are those whose devices have a property \<open>Q\<close>,
  given the identifier of the volume, that opening keeps: with no property at all calls may be refused; devices that
  admit the client and have the identifier the volume asks for work every time (\<open>working_volumes\<close>).
\<close>

text \<open>Lifting a function of one volume to the state of all volumes.\<close>

definition on_volume :: "('v \<Rightarrow> 'b) \<Rightarrow> 'v \<Rightarrow> ('b \<Rightarrow> ('r \<times> 'b) option) \<Rightarrow> ('r \<times> ('v \<Rightarrow> 'b)) option" where
  "on_volume w v f = do { (r, b) \<leftarrow> f (w v); Some (r, w(v := b)) }"

definition block_volume_funcs :: "('v, 'v \<Rightarrow> 's block_volume) volume_funcs" where
  "block_volume_funcs =
     \<lparr>vf_open = (\<lambda>v w. on_volume w v block_volume_open),
      vf_close = (\<lambda>v w. on_volume w v block_volume_close),
      vf_seek = (\<lambda>v mode off w. on_volume w v (\<lambda>b. Some (block_volume_seek b mode off))),
      vf_size = (\<lambda>v w. case block_volume_size (w v) of (st, n) \<Rightarrow> Some (st, n, w)),
      vf_read = (\<lambda>v buf len w. do { (st, buf1, k, b) \<leftarrow> block_volume_read (w v) buf len; Some (st, buf1, k, w(v := b)) }),
      vf_write = (\<lambda>v buf len w. do { (st, k, b) \<leftarrow> block_volume_write (w v) buf len; Some (st, k, w(v := b)) }),
      vf_erase = (\<lambda>v. Some (\<lambda>w. on_volume w v block_volume_erase)),
      vf_get_storage_ids =
        (\<lambda>v. Some (\<lambda>w. do { (st, ids, b) \<leftarrow> block_volume_get_storage_ids (w v);
                           Some (st, ids, w(v := b)) }))\<rparr>"

section \<open>One volume over a RAM device\<close>

definition ram_device_inv :: "(block_device \<Rightarrow> bool) \<Rightarrow> ram_block_store \<Rightarrow> bool" where
  "ram_device_inv Q r \<longleftrightarrow> ram_inv r \<and> Q (rbs_base_block_device r)"

abbreviation ram_vol_ok :: "(uuid_octets \<Rightarrow> block_device \<Rightarrow> bool) \<Rightarrow> ram_block_store block_volume \<Rightarrow> bool" where
  "ram_vol_ok Q v \<equiv>
     volume_ok ram_block_store_interface (ram_device_inv (Q (bv_partition_guid v))) ram_acc ram_nblocks ram_bsize v"

text \<open>A volume that is not open is empty, or its extent is that of the device and only the access is missing.\<close>

definition ram_vol_shaped :: "ram_block_store block_volume \<Rightarrow> bool" where
  "ram_vol_shaped v \<longleftrightarrow>
     bv_size v = 0
     \<or> spi_num_blocks (bv_partition_info v) = ram_nblocks (bv_store v) (bv_partition_handle v)
       \<and> spi_block_size (bv_partition_info v) = ram_bsize (bv_store v) (bv_partition_handle v)
       \<and> bv_size v = spi_num_blocks (bv_partition_info v) * spi_block_size (bv_partition_info v)
       \<and> bv_file_pos v \<le> bv_size v"

definition ram_vol_based :: "(uuid_octets \<Rightarrow> block_device \<Rightarrow> bool) \<Rightarrow> ram_block_store block_volume \<Rightarrow> bool" where
  "ram_vol_based Q v \<longleftrightarrow>
     bv_block_store v = Some ram_block_store_interface \<and> ram_device_inv (Q (bv_partition_guid v)) (bv_store v)
     \<and> ram_vol_shaped v"

abbreviation ram_mem :: "ram_block_store block_volume \<Rightarrow> bytes" where
  "ram_mem v \<equiv> ram_contents (bv_store v) 0"

lemma ram_vol_ok_based: "ram_vol_ok Q v \<Longrightarrow> ram_vol_based Q v"
  by (auto simp: volume_ok_def ram_vol_based_def ram_vol_shaped_def)

lemma ram_vol_based_cases:
  assumes "ram_vol_based Q v"
  shows "bv_size v = 0 \<or> ram_vol_ok Q v \<or> ram_acc (bv_store v) 0 (bv_partition_handle v) \<noteq> PSA_SUCCESS"
  using assms unfolding ram_vol_based_def ram_vol_shaped_def volume_ok_def by metis

lemma ram_store_keeps_memory:
  "ram_block_store_get_partition_info r g = Some (st, io, r') \<Longrightarrow> rbs_ram_back_store r' = rbs_ram_back_store r"
  "ram_block_store_open r c g = Some (st, h, r') \<Longrightarrow> rbs_ram_back_store r' = rbs_ram_back_store r"
  "ram_block_store_close r c h = Some (st, r') \<Longrightarrow> rbs_ram_back_store r' = rbs_ram_back_store r"
  by (auto simp: ram_block_store_get_partition_info_def ram_block_store_open_def ram_block_store_close_def
      split: prod.splits)

text \<open>What a call does to the device under the store.\<close>

lemma ram_store_keeps_device:
  "bsi_get_partition_info ram_block_store_interface r g = Some (st, io, r') \<Longrightarrow> rbs_base_block_device r' = rbs_base_block_device r"
  "bsi_close ram_block_store_interface r c h = Some (st, r') \<Longrightarrow> rbs_base_block_device r' = rbs_base_block_device r"
  "bsi_read ram_block_store_interface r c h lba off n = Some (st, d, r') \<Longrightarrow> rbs_base_block_device r' = rbs_base_block_device r"
  "bsi_write ram_block_store_interface r c h lba off b = Some (st, k, r') \<Longrightarrow> rbs_base_block_device r' = rbs_base_block_device r"
  "bsi_erase ram_block_store_interface r c h lba n = Some (st, r') \<Longrightarrow> rbs_base_block_device r' = rbs_base_block_device r"
  by (auto simp: ram_block_store_interface_def ram_block_store_get_partition_info_def ram_block_store_close_def
      ram_block_store_read_def ram_block_store_write_def ram_block_store_erase_def Let_def
      split: prod.splits if_splits bind_splits)

lemma ram_store_opens_device:
  assumes "bsi_open ram_block_store_interface r c g = Some (st, h, r')"
  shows "block_device_open (rbs_base_block_device r) c g = (st, h, rbs_base_block_device r')"
  using assms by (auto simp: ram_block_store_interface_def ram_block_store_open_def split: prod.splits)

lemma block_volume_read_guid:
  assumes "block_volume_read v buf n = Some (st, buf1, k, v')"
  shows "bv_partition_guid v' = bv_partition_guid v"
proof -
  have "block_volume_read_loop v len b br = Some y \<Longrightarrow> bv_partition_guid (snd (snd (snd y))) = bv_partition_guid v" for len b br y
    by (erule block_volume_read_loop.raw_induct [rotated])
      (auto split: if_splits prod.splits bind_splits)
  then show ?thesis using assms by (force simp: block_volume_read_def split: if_splits)
qed

lemma block_volume_write_guid:
  assumes "block_volume_write v buf n = Some (st, k, v')"
  shows "bv_partition_guid v' = bv_partition_guid v"
proof -
  have "block_volume_write_loop v len b br = Some y \<Longrightarrow> bv_partition_guid (snd (snd y)) = bv_partition_guid v" for len b br y
    by (erule block_volume_write_loop.raw_induct [rotated])
      (auto split: if_splits prod.splits bind_splits)
  then show ?thesis using assms by (force simp: block_volume_write_def split: if_splits)
qed

lemma block_volume_other_guid:
  "block_volume_open v = Some (st, v') \<Longrightarrow> bv_partition_guid v' = bv_partition_guid v"
  "block_volume_close v = Some (st, v') \<Longrightarrow> bv_partition_guid v' = bv_partition_guid v"
  "block_volume_erase v = Some (st, v') \<Longrightarrow> bv_partition_guid v' = bv_partition_guid v"
  by (auto simp: block_volume_open_def block_volume_close_def block_volume_erase_def Let_def
      split: if_splits prod.splits bind_splits)

locale ram_devices =
  fixes Q :: "uuid_octets \<Rightarrow> block_device \<Rightarrow> bool"
  assumes device_kept: "block_device_ok bd \<Longrightarrow> Q g bd \<Longrightarrow> block_device_open bd c g' = (st, h, bd') \<Longrightarrow> Q g bd'"

sublocale ram_devices \<subseteq> dev: block_store_contents ram_block_store_interface "ram_device_inv (Q g)" ram_acc ram_nblocks
  ram_bsize ram_contents RAM_BLOCK_STORE_ERASED_VALUE
  for g
proof (unfold_locales, goal_cases)
  case (1 r c h)
  then show ?case using ram.extent_bound [of r c h] by (simp add: ram_device_inv_def)
next
  case (2 r g')
  then show ?case
    using ram.info_returns [of r g'] ram_store_keeps_device(1) by (fastforce simp: ram_device_inv_def)
next
  case (3 r c g')
  then obtain st h r' where o: "bsi_open ram_block_store_interface r c g' = Some (st, h, r')" "ram_inv r'"
    "extent_kept ram_acc ram_nblocks ram_bsize r r'" "st = PSA_SUCCESS \<longrightarrow> ram_acc r' c h = PSA_SUCCESS"
    using ram.open_returns [of r c g'] by (auto simp: ram_device_inv_def)
  then show ?case
    using device_kept [OF _ _ ram_store_opens_device [OF o(1)]] 3 by (auto simp: ram_device_inv_def ram_inv_def)
next
  case (4 r c h)
  then show ?case
    using ram.close_returns [of r c h] ram_store_keeps_device(2) by (fastforce simp: ram_device_inv_def)
next
  case (5 r c h lba off n)
  then show ?case
    using ram.read_returns [of r c h lba off n] ram_store_keeps_device(3) by (fastforce simp: ram_device_inv_def)
next
  case (6 r c h lba off d)
  then show ?case
    using ram.write_returns [of r c h lba off d] ram_store_keeps_device(4) by (fastforce simp: ram_device_inv_def)
next
  case (7 r c h lba n)
  then show ?case
    using ram.erase_returns [of r c h lba n] ram_store_keeps_device(5) by (fastforce simp: ram_device_inv_def)
next
  case (8 r c h)
  then show ?case using ram.contents_extent [of r c h] by (simp add: ram_device_inv_def)
next
  case (9 r g' st io r')
  then show ?case using ram.info_keeps [of r g'] by (simp add: ram_device_inv_def)
next
  case (10 r c g' st h r')
  then show ?case using ram.open_keeps [of r c g'] by (simp add: ram_device_inv_def)
next
  case (11 r c h st r')
  then show ?case using ram.close_keeps [of r c h] by (simp add: ram_device_inv_def)
next
  case (12 r c h lba off n st d r')
  then show ?case using ram.read_gives [of r c h lba off n] by (simp add: ram_device_inv_def)
next
  case (13 r c h lba off d st k r')
  then show ?case using ram.write_puts [of r c h lba off d] by (simp add: ram_device_inv_def)
next
  case (14 r c h lba n st r')
  then show ?case using ram.erase_clears [of r c h lba n] by (simp add: ram_device_inv_def)
next
  case (15 r g' info r1 c h r2)
  then show ?case using ram.open_matches_info [of r g' info r1 c h r2] by (simp add: ram_device_inv_def)
qed

context ram_devices
begin

lemma ram_volume_open_shaped:
  assumes "ram_vol_based Q v" and "block_volume_open v = Some (st, v')"
  shows "ram_vol_shaped v'"
proof -
  let ?bd = "rbs_base_block_device (bv_store v)"
  have ok: "block_device_ok ?bd" and i: "bv_block_store v = Some ram_block_store_interface" and sh: "ram_vol_shaped v"
    using assms(1) by (simp_all add: ram_vol_based_def ram_device_inv_def ram_inv_def)
  obtain st2 h bd where o: "block_device_open ?bd 0 (bv_partition_guid v) = (st2, h, bd)" by (rule prod_cases3)
  have "mul64 (prt_block_size (bd_storage_partition ?bd)) (prt_num_blocks (bd_storage_partition ?bd))
      = prt_num_blocks (bd_storage_partition ?bd) * prt_block_size (bd_storage_partition ?bd)"
    using ok by (simp add: block_device_ok_def mul64_exact mult.commute)
  then show ?thesis
    using assms(2) i sh o block_device_open_facts [OF ok o]
    by (cases "storage_partition_is_guid_matched (bd_storage_partition ?bd) (bv_partition_guid v)")
      (auto simp: block_volume_open_def block_store_wrappers ram_block_store_interface_def
        ram_block_store_get_partition_info_def block_device_get_partition_info_def ram_block_store_open_def
        ram_vol_shaped_def Let_def)
qed

lemma ram_volume_opens:
  assumes "ram_vol_based Q v"
  shows "\<exists>st v'. block_volume_open v = Some (st, v') \<and> ram_vol_based Q v' \<and> ram_mem v' = ram_mem v
    \<and> (st = 0 \<longrightarrow> ram_vol_ok Q v' \<and> bv_file_pos v' = 0)"
proof -
  let ?inv = "ram_device_inv (Q (bv_partition_guid v))"
  have i: "bv_block_store v = Some ram_block_store_interface" and inv: "?inv (bv_store v)"
    using assms by (simp_all add: ram_vol_based_def)
  obtain st io s1 where g: "ram_block_store_get_partition_info (bv_store v) (bv_partition_guid v) = Some (st, io, s1)"
    and s1: "?inv s1" and io: "st = PSA_SUCCESS \<longleftrightarrow> io \<noteq> None"
    using dev.info_returns [OF inv, of "bv_partition_guid v"] by (auto simp: ram_block_store_interface_def)
  obtain st2 h s2 where o: "ram_block_store_open s1 0 (bv_partition_guid v) = Some (st2, h, s2)" and s2: "?inv s2"
    using dev.open_returns [OF s1, of 0 "bv_partition_guid v"] by (auto simp: ram_block_store_interface_def)
  obtain st' v' where op: "block_volume_open v = Some (st', v')" and v': "?inv (bv_store v')"
    and "bv_block_store v' = Some ram_block_store_interface"
    and mem: "rbs_ram_back_store (bv_store v') = rbs_ram_back_store (bv_store v)"
    using g o io s1 s2 i ram_store_keeps_memory(1) [OF g] ram_store_keeps_memory(2) [OF o]
    by (auto simp: block_volume_open_def block_store_wrappers ram_block_store_interface_def Let_def
        split: option.splits)
  then show ?thesis
    using dev.volume_opens [OF i inv, of v'] block_volume_other_guid(1) [OF op] ram_volume_open_shaped [OF assms op]
    by (auto simp: ram_vol_based_def)
qed

lemma ram_volume_closes:
  assumes "ram_vol_based Q v"
  shows "\<exists>st v'. block_volume_close v = Some (st, v') \<and> ram_vol_based Q v' \<and> ram_mem v' = ram_mem v"
  using assms
  by (auto simp: block_volume_close_def block_store_wrappers ram_block_store_interface_def ram_block_store_close_def
      ram_vol_based_def ram_vol_shaped_def Let_def)

lemma ram_volume_erases:
  assumes "ram_vol_ok Q v"
  shows "\<exists>st v'. block_volume_erase v = Some (st, v') \<and> ram_vol_ok Q v' \<and> bv_file_pos v' = bv_file_pos v
    \<and> length (ram_mem v') = length (ram_mem v)"
proof -
  let ?s = "bv_store v"
  have i: "bv_block_store v = Some ram_block_store_interface" and inv: "ram_device_inv (Q (bv_partition_guid v)) ?s"
    and acc: "ram_acc ?s 0 (bv_partition_handle v) = PSA_SUCCESS"
    using assms by (simp_all add: volume_ok_def)
  obtain st s where e: "bsi_erase ram_block_store_interface ?s 0 (bv_partition_handle v) 0 UINT32_MAX = Some (st, s)"
    and s: "ram_device_inv (Q (bv_partition_guid v)) s" and kept: "extent_kept ram_acc ram_nblocks ram_bsize ?s s"
    using dev.erase_returns [OF inv, of 0 "bv_partition_handle v" 0 UINT32_MAX] by auto
  have ok: "ram_vol_ok Q (v\<lparr>bv_store := s\<rparr>)"
    using assms kept s by (auto simp: volume_ok_def extent_kept_def)
  have "length (ram_contents s 0) = length (ram_contents ?s 0)"
    using dev.volume_bounds(2) [OF ok] dev.volume_bounds(2) [OF assms] by simp
  then show ?thesis
    using e i ok by (cases "st = PSA_SUCCESS") (auto simp: block_volume_erase_def block_store_erase_def Let_def)
qed

lemma ram_volume_reads:
  assumes "ram_vol_ok Q v" and "n \<le> length buf" and "n < 2 ^ 64"
  shows "\<exists>st buf1 k v'. block_volume_read v buf n = Some (st, buf1, k, v') \<and> ram_vol_ok Q v' \<and> ram_mem v' = ram_mem v
    \<and> length buf1 = length buf \<and> (spi_block_size (bv_partition_info v) \<noteq> 0 \<longrightarrow> st = 0)
    \<and> (st = 0 \<longrightarrow> k = min n (length (ram_mem v) - bv_file_pos v)
         \<and> buf1 = splice buf 0 (slice (ram_mem v) (bv_file_pos v) k) \<and> bv_file_pos v' = bv_file_pos v + k)"
proof (cases "spi_block_size (bv_partition_info v) = 0")
  case True
  then show ?thesis using assms(1) by (simp add: block_volume_read_def)
next
  case False
  note b = dev.volume_bounds [OF assms(1)]
  have pos: "bv_file_pos v \<le> length (ram_mem v)" using assms(1) b(2) by (simp add: volume_ok_def)
  let ?k = "min n (length (ram_mem v) - bv_file_pos v)"
  have f: "file_read (volume_file ram_contents v) n =
      (slice (ram_mem v) (bv_file_pos v) ?k, (ram_mem v, bv_file_pos v + ?k))"
    by (simp add: file_read_def volume_file_def Let_def)
  have len: "length (slice (ram_mem v) (bv_file_pos v) ?k) = ?k" using pos by (intro length_slice) simp
  obtain v' where v': "block_volume_read v buf n = Some (0, splice buf 0 (slice (ram_mem v) (bv_file_pos v) ?k), ?k, v')"
    "volume_ok ram_block_store_interface (ram_device_inv (Q (bv_partition_guid v))) ram_acc ram_nblocks ram_bsize v'"
    "volume_file ram_contents v' = (ram_mem v, bv_file_pos v + ?k)"
    using dev.volume_reads_file [OF assms False f] len by auto
  then show ?thesis
    using block_volume_read_guid [OF v'(1)] len assms(2) by (auto simp: volume_file_def intro!: length_splice)
qed

lemma ram_volume_writes:
  assumes "ram_vol_ok Q v" and "n \<le> length buf" and "n < 2 ^ 64"
  shows "\<exists>st k v'. block_volume_write v buf n = Some (st, k, v') \<and> ram_vol_ok Q v'
    \<and> length (ram_mem v') = length (ram_mem v) \<and> (spi_block_size (bv_partition_info v) \<noteq> 0 \<longrightarrow> st = 0)
    \<and> (st = 0 \<longrightarrow> k = min n (length (ram_mem v) - bv_file_pos v)
         \<and> ram_mem v' = splice (ram_mem v) (bv_file_pos v) (take k buf) \<and> bv_file_pos v' = bv_file_pos v + k)"
proof (cases "spi_block_size (bv_partition_info v) = 0")
  case True
  then show ?thesis using assms(1) by (simp add: block_volume_write_def)
next
  case False
  note b = dev.volume_bounds [OF assms(1)]
  have pos: "bv_file_pos v \<le> length (ram_mem v)" using assms(1) b(2) by (simp add: volume_ok_def)
  let ?k = "min n (length (ram_mem v) - bv_file_pos v)"
  have f: "file_write (volume_file ram_contents v) (take n buf) =
      (?k, (splice (ram_mem v) (bv_file_pos v) (take ?k buf), bv_file_pos v + ?k))"
    using assms(2) by (simp add: file_write_def volume_file_def Let_def min_absorb2 take_take)
  obtain v' where v': "block_volume_write v buf n = Some (0, ?k, v')"
    "volume_ok ram_block_store_interface (ram_device_inv (Q (bv_partition_guid v))) ram_acc ram_nblocks ram_bsize v'"
    "volume_file ram_contents v' = (splice (ram_mem v) (bv_file_pos v) (take ?k buf), bv_file_pos v + ?k)"
    using dev.volume_writes_file [OF assms False f] by auto
  then show ?thesis
    using block_volume_write_guid [OF v'(1)] pos assms(2) by (auto simp: volume_file_def intro!: length_splice)
qed

text \<open>On a volume that is not open.\<close>

lemma ram_vol_based_store:
  assumes "ram_vol_based Q v" and "ram_device_inv (Q (bv_partition_guid v)) s"
    and "rbs_base_block_device s = rbs_base_block_device (bv_store v)"
  shows "ram_vol_based Q (v\<lparr>bv_store := s\<rparr>)" and "length (ram_contents s 0) = length (ram_mem v)"
  using assms by (auto simp: ram_vol_based_def ram_vol_shaped_def ram_device_inv_def ram_inv_def split: option.splits)

lemma block_volume_next_len: "block_volume_next v todo = (lba, off, k) \<Longrightarrow> k \<le> todo"
  by (auto simp: block_volume_next_def Let_def split: if_splits)

lemma ram_volume_erases_any:
  assumes "ram_vol_based Q v"
  shows "\<exists>st v'. block_volume_erase v = Some (st, v') \<and> ram_vol_based Q v' \<and> length (ram_mem v') = length (ram_mem v)"
proof -
  have i: "bv_block_store v = Some ram_block_store_interface" and inv: "ram_device_inv (Q (bv_partition_guid v)) (bv_store v)"
    using assms by (simp_all add: ram_vol_based_def)
  obtain st s where e: "bsi_erase ram_block_store_interface (bv_store v) 0 (bv_partition_handle v) 0 UINT32_MAX = Some (st, s)"
    and s: "ram_device_inv (Q (bv_partition_guid v)) s"
    using dev.erase_returns [OF inv, of 0 "bv_partition_handle v" 0 UINT32_MAX] by auto
  note b = ram_vol_based_store [OF assms s ram_store_keeps_device(5) [OF e]]
  show ?thesis
    using e i b by (cases "st = PSA_SUCCESS") (auto simp: block_volume_erase_def block_store_erase_def Let_def)
qed

lemma ram_volume_reads_any:
  assumes "ram_vol_based Q v" and "n \<le> length buf" and "n < 2 ^ 64"
  shows "\<exists>st buf1 k v'. block_volume_read v buf n = Some (st, buf1, k, v') \<and> ram_vol_based Q v' \<and> ram_mem v' = ram_mem v
    \<and> length buf1 = length buf"
proof -
  have i: "bv_block_store v = Some ram_block_store_interface" and inv: "ram_device_inv (Q (bv_partition_guid v)) (bv_store v)"
    using assms by (simp_all add: ram_vol_based_def)
  consider "ram_vol_ok Q v" | "bv_size v = 0" | "ram_acc (bv_store v) 0 (bv_partition_handle v) \<noteq> PSA_SUCCESS"
    using ram_vol_based_cases [OF assms(1)] by argo
  then show ?thesis
  proof cases
    case 1
    then show ?thesis using ram_volume_reads [OF 1 assms(2,3)] ram_vol_ok_based by blast
  next
    case 2
    then show ?thesis
      using assms(1) by (auto simp: block_volume_read_def block_volume_read_loop.simps)
  next
    case 3
    obtain lba off k where n: "block_volume_next v n = (lba, off, k)" by (rule prod_cases3)
    obtain st d s where r: "bsi_read ram_block_store_interface (bv_store v) 0 (bv_partition_handle v) lba off k = Some (st, d, s)"
      and s: "ram_device_inv (Q (bv_partition_guid v)) s" and st: "st \<noteq> PSA_SUCCESS"
      using dev.read_returns [OF inv, of 0 "bv_partition_handle v" lba off k] 3 by (auto simp: io_status_def)
    have "rbs_ram_back_store s = rbs_ram_back_store (bv_store v)"
      using r by (auto simp: ram_block_store_interface_def ram_block_store_read_def Let_def split: if_splits bind_splits)
    then show ?thesis
      using r st i n assms(1) ram_vol_based_store(1) [OF assms(1) s ram_store_keeps_device(3) [OF r]]
      by (auto simp: block_volume_read_def block_volume_read_loop.simps block_store_read_def)
  qed
qed

lemma ram_volume_writes_any:
  assumes "ram_vol_based Q v" and "n \<le> length buf" and "n < 2 ^ 64"
  shows "\<exists>st k v'. block_volume_write v buf n = Some (st, k, v') \<and> ram_vol_based Q v'
    \<and> length (ram_mem v') = length (ram_mem v)"
proof -
  have i: "bv_block_store v = Some ram_block_store_interface" and inv: "ram_device_inv (Q (bv_partition_guid v)) (bv_store v)"
    using assms by (simp_all add: ram_vol_based_def)
  consider "ram_vol_ok Q v" | "bv_size v = 0" | "ram_acc (bv_store v) 0 (bv_partition_handle v) \<noteq> PSA_SUCCESS"
    using ram_vol_based_cases [OF assms(1)] by argo
  then show ?thesis
  proof cases
    case 1
    then show ?thesis using ram_volume_writes [OF 1 assms(2,3)] ram_vol_ok_based by blast
  next
    case 2
    then show ?thesis
      using assms(1) by (auto simp: block_volume_write_def block_volume_write_loop.simps)
  next
    case 3
    obtain lba off k where n: "block_volume_next v n = (lba, off, k)" by (rule prod_cases3)
    then have k: "mem_read buf 0 k = Some (slice buf 0 k)"
      using block_volume_next_len [OF n] assms(2) by (simp add: mem_simps)
    obtain st m s where r: "bsi_write ram_block_store_interface (bv_store v) 0 (bv_partition_handle v) lba off (slice buf 0 k)
        = Some (st, m, s)"
      and s: "ram_device_inv (Q (bv_partition_guid v)) s" and st: "st \<noteq> PSA_SUCCESS"
      using dev.write_returns [OF inv, of 0 "bv_partition_handle v" lba off "slice buf 0 k"] 3 by (auto simp: io_status_def)
    show ?thesis
      using r st i n k assms(1) ram_vol_based_store [OF assms(1) s ram_store_keeps_device(4) [OF r]]
      by (auto simp: block_volume_write_def block_volume_write_loop.simps block_store_write_def)
  qed
qed

end


section \<open>The contract\<close>

definition ram_volumes_ok ::
  "(uuid_octets \<Rightarrow> block_device \<Rightarrow> bool) \<Rightarrow> ('v \<Rightarrow> ram_block_store block_volume) \<Rightarrow> bool" where
  "ram_volumes_ok Q w \<longleftrightarrow> (\<forall>v. ram_vol_based Q (w v))"

definition ram_volume_data :: "('v \<Rightarrow> ram_block_store block_volume) \<Rightarrow> 'v \<Rightarrow> bytes" where
  "ram_volume_data w v = ram_mem (w v)"

definition ram_volume_pos ::
  "(uuid_octets \<Rightarrow> block_device \<Rightarrow> bool) \<Rightarrow> ('v \<Rightarrow> ram_block_store block_volume) \<Rightarrow> 'v \<Rightarrow> nat option" where
  "ram_volume_pos Q w v = (if ram_vol_ok Q (w v) then Some (bv_file_pos (w v)) else None)"

lemma ram_volumes_upd:
  "ram_volumes_ok Q w \<Longrightarrow> ram_vol_based Q b \<Longrightarrow> ram_volumes_ok Q (w(v := b))"
  "ram_volume_data (w(v := b)) v = ram_mem b"
  "length (ram_mem b) = length (ram_mem (w v)) \<Longrightarrow> only_volume ram_volume_data (ram_volume_pos Q) v w (w(v := b))"
  by (auto simp: ram_volumes_ok_def ram_volume_data_def ram_volume_pos_def only_volume_def)

lemma ram_volume_pos_Some: "ram_volume_pos Q w v = Some p \<Longrightarrow> ram_vol_ok Q (w v) \<and> bv_file_pos (w v) = p"
  by (simp add: ram_volume_pos_def split: if_splits)

lemmas block_volume_calls = volume_open_def volume_close_def volume_size_def volume_read_def volume_write_def
  volume_erase_def block_volume_funcs_def on_volume_def block_volume_size_def

sublocale ram_devices \<subseteq> files: volume_files block_volume_funcs "ram_volumes_ok Q" ram_volume_data "ram_volume_pos Q"
proof (unfold_locales, goal_cases)
  case (1 w v)
  then have "ram_vol_based Q (w v)" by (simp add: ram_volumes_ok_def)
  from ram_volume_opens [OF this] obtain st b where b: "block_volume_open (w v) = Some (st, b)" "ram_vol_based Q b"
    "ram_mem b = ram_mem (w v)" "st = 0 \<longrightarrow> ram_vol_ok Q b \<and> bv_file_pos b = 0" by blast
  then have "only_volume ram_volume_data (ram_volume_pos Q) v w (w(v := b))" by (intro ram_volumes_upd(3)) simp
  then show ?case
    using b ram_volumes_upd(1) [OF 1 b(2), of v]
    by (simp add: block_volume_calls ram_volume_data_def ram_volume_pos_def)
next
  case (2 w v)
  then have "ram_vol_based Q (w v)" by (simp add: ram_volumes_ok_def)
  from ram_volume_closes [OF this] obtain st b where b: "block_volume_close (w v) = Some (st, b)" "ram_vol_based Q b"
    "ram_mem b = ram_mem (w v)" by blast
  then have "only_volume ram_volume_data (ram_volume_pos Q) v w (w(v := b))" by (intro ram_volumes_upd(3)) simp
  then show ?case
    using b ram_volumes_upd(1) [OF 2 b(2), of v] by (simp add: block_volume_calls ram_volume_data_def)
next
  case (3 w v p)
  then show ?case
    using dev.volume_bounds(2) [of "bv_partition_guid (w v)" "w v"] ram_volume_pos_Some [OF 3(2)]
    by (simp add: block_volume_calls ram_volume_data_def)
next
  case (4 w v p)
  have ok: "ram_vol_ok Q (w v)" and p: "bv_file_pos (w v) = p" using ram_volume_pos_Some [OF 4(2)] by auto
  from ram_volume_erases [OF ok] obtain st b where b: "block_volume_erase (w v) = Some (st, b)" "ram_vol_ok Q b"
    "bv_file_pos b = bv_file_pos (w v)" "length (ram_mem b) = length (ram_mem (w v))" by blast
  show ?case
    using b p ram_volumes_upd(1) [OF 4(1) ram_vol_ok_based [of Q, OF b(2)], of v] ram_volumes_upd(3) [of b w v, OF b(4)]
    by (simp add: block_volume_calls ram_volume_pos_def)
next
  case (5 w v p n buf)
  have ok: "ram_vol_ok Q (w v)" and p: "bv_file_pos (w v) = p" using ram_volume_pos_Some [OF 5(2)] by auto
  from ram_volume_reads [OF ok 5(3,4)] obtain st buf1 k b where b: "block_volume_read (w v) buf n = Some (st, buf1, k, b)"
    "ram_vol_ok Q b" "ram_mem b = ram_mem (w v)" "length buf1 = length buf"
    "st = 0 \<longrightarrow> k = min n (length (ram_mem (w v)) - bv_file_pos (w v))
         \<and> buf1 = splice buf 0 (slice (ram_mem (w v)) (bv_file_pos (w v)) k) \<and> bv_file_pos b = bv_file_pos (w v) + k"
    by blast
  have "only_volume ram_volume_data (ram_volume_pos Q) v w (w(v := b))" using b(3) by (intro ram_volumes_upd(3)) simp
  then show ?case
    using b p ram_volumes_upd(1) [OF 5(1) ram_vol_ok_based [of Q, OF b(2)], of v]
    by (simp add: block_volume_calls ram_volume_pos_def ram_volume_data_def)
next
  case (6 w v p n buf)
  have ok: "ram_vol_ok Q (w v)" and p: "bv_file_pos (w v) = p" using ram_volume_pos_Some [OF 6(2)] by auto
  from ram_volume_writes [OF ok 6(3,4)] obtain st k b where b: "block_volume_write (w v) buf n = Some (st, k, b)"
    "ram_vol_ok Q b" "length (ram_mem b) = length (ram_mem (w v))"
    "st = 0 \<longrightarrow> k = min n (length (ram_mem (w v)) - bv_file_pos (w v))
         \<and> ram_mem b = splice (ram_mem (w v)) (bv_file_pos (w v)) (take k buf) \<and> bv_file_pos b = bv_file_pos (w v) + k"
    by blast
  show ?case
    using b p ram_volumes_upd(1) [OF 6(1) ram_vol_ok_based [of Q, OF b(2)], of v] ram_volumes_upd(3) [of b w v, OF b(3)]
    by (simp add: block_volume_calls ram_volume_pos_def ram_volume_data_def)
next
  case (7 w n buf v)
  then have "ram_vol_based Q (w v)" by (simp add: ram_volumes_ok_def)
  from ram_volume_reads_any [OF this 7(2,3)] obtain st buf1 k b where b: "block_volume_read (w v) buf n = Some (st, buf1, k, b)"
    "ram_vol_based Q b" "ram_mem b = ram_mem (w v)" "length buf1 = length buf" by blast
  then have "only_volume ram_volume_data (ram_volume_pos Q) v w (w(v := b))" by (intro ram_volumes_upd(3)) simp
  then show ?case
    using b ram_volumes_upd(1) [OF 7(1) b(2), of v] by (simp add: block_volume_calls ram_volume_data_def)
next
  case (8 w n buf v)
  then have "ram_vol_based Q (w v)" by (simp add: ram_volumes_ok_def)
  from ram_volume_writes_any [OF this 8(2,3)] obtain st k b where b: "block_volume_write (w v) buf n = Some (st, k, b)"
    "ram_vol_based Q b" "length (ram_mem b) = length (ram_mem (w v))" by blast
  then show ?case
    using ram_volumes_upd(1) [OF 8(1) b(2), of v] ram_volumes_upd(3) [of b w v, OF b(3)] by (simp add: block_volume_calls)
next
  case (9 w v)
  then have "ram_vol_based Q (w v)" by (simp add: ram_volumes_ok_def)
  from ram_volume_erases_any [OF this] obtain st b where b: "block_volume_erase (w v) = Some (st, b)"
    "ram_vol_based Q b" "length (ram_mem b) = length (ram_mem (w v))" by blast
  then show ?case
    using ram_volumes_upd(1) [OF 9 b(2), of v] ram_volumes_upd(3) [of b w v, OF b(3)] by (simp add: block_volume_calls)
next
  case (10 w v)
  then show ?case by (simp add: block_volume_calls)
next
  case (11 w v p)
  then show ?case
    using dev.volume_bounds [of "bv_partition_guid (w v)" "w v"] ram_volume_pos_Some [OF 11(2)]
    by (auto simp: ram_volume_data_def volume_ok_def)
next
  case (12 w v)
  then show ?case
    by (cases "block_device_get_partition_info (rbs_base_block_device (bv_store (w v))) (bv_partition_guid (w v))")
      (auto simp: block_volume_funcs_def volume_get_storage_ids_def block_volume_get_storage_ids_def
        block_store_get_partition_info_def ram_block_store_interface_def ram_block_store_get_partition_info_def
        block_device_get_partition_info_def ram_volumes_ok_def ram_vol_based_def Let_def split: if_splits)
qed

text \<open>Any device.\<close>

definition any_device :: "uuid_octets \<Rightarrow> block_device \<Rightarrow> bool" where
  "any_device g bd = True"

interpretation any_ram: ram_devices any_device
  by unfold_locales (simp add: any_device_def)

text \<open>Devices that are not empty, have the identifier the volume asks for and have admitted client 0.\<close>

definition admitted_device :: "uuid_octets \<Rightarrow> block_device \<Rightarrow> bool" where
  "admitted_device g bd \<longleftrightarrow>
     prt_guid (bd_storage_partition bd) = g \<and> 0 \<in> acl_members (prt_acl (bd_storage_partition bd))
     \<and> 0 < prt_num_blocks (bd_storage_partition bd) \<and> 0 < prt_block_size (bd_storage_partition bd)"

interpretation admitted_ram: ram_devices admitted_device
  by unfold_locales (auto simp: admitted_device_def block_device_open_facts)

lemma admitted_volume_opens:
  assumes "ram_vol_based admitted_device v" and "block_volume_open v = Some (st, v')"
  shows "st = 0"
proof -
  let ?bd = "rbs_base_block_device (bv_store v)"
  have i: "bv_block_store v = Some ram_block_store_interface" and a: "admitted_device (bv_partition_guid v) ?bd"
    using assms(1) by (simp_all add: ram_vol_based_def ram_device_inv_def)
  then have "storage_partition_acl_check (prt_acl (bd_storage_partition ?bd)) 0"
    by (simp add: admitted_device_def acl_check_members)
  then show ?thesis
    using i a assms(2)
    by (simp add: block_volume_open_def block_store_wrappers ram_block_store_interface_def
        ram_block_store_get_partition_info_def ram_block_store_open_def block_device_get_partition_info_def
        block_device_open_def storage_partition_is_guid_matched_def storage_partition_is_open_permitted_def
        storage_partition_acl_authorize_def admitted_device_def Let_def)
qed

lemma admitted_volume_sizes:
  assumes "ram_vol_ok admitted_device v"
  shows "0 < spi_num_blocks (bv_partition_info v)" and "0 < spi_block_size (bv_partition_info v)"
  using assms by (auto simp: volume_ok_def ram_device_inv_def admitted_device_def)

interpretation ram_working: working_volumes block_volume_funcs "ram_volumes_ok admitted_device" ram_volume_data
  "ram_volume_pos admitted_device"
proof (unfold_locales, goal_cases)
  case (1 w v st w1)
  then show ?case
    using admitted_volume_opens [of "w v"]
    by (auto simp: ram_volumes_ok_def block_volume_calls split: bind_splits)
next
  case (2 w v p st w1)
  have ok: "ram_vol_ok admitted_device (w v)" using ram_volume_pos_Some [OF 2(2)] by simp
  obtain v' where "block_volume_erase (w v) = Some (0, v')"
    using admitted_ram.dev.volume_erases [OF ok admitted_volume_sizes(1) [OF ok]] by blast
  then show ?case using 2(3) by (simp add: block_volume_calls)
next
  case (3 w v p n buf st b1 k w1)
  have ok: "ram_vol_ok admitted_device (w v)" using ram_volume_pos_Some [OF 3(2)] by simp
  then show ?case
    using admitted_ram.ram_volume_reads [OF ok 3(3,4)] admitted_volume_sizes(2) [OF ok] 3(5)
    by (auto simp: block_volume_calls)
next
  case (4 w v p n buf st k w1)
  have ok: "ram_vol_ok admitted_device (w v)" using ram_volume_pos_Some [OF 4(2)] by simp
  then show ?case
    using admitted_ram.ram_volume_writes [OF ok 4(3,4)] admitted_volume_sizes(2) [OF ok] 4(5)
    by (auto simp: block_volume_calls)
next
  case (5 w v p st n w1)
  then show ?case by (simp add: block_volume_calls)
next
  case (6 w v p st w1)
  have "ram_vol_ok admitted_device (w v)" using ram_volume_pos_Some [OF 6(2)] by simp
  then show ?case
    using 6(3)
    by (auto simp: block_volume_calls block_volume_close_def volume_ok_def block_store_wrappers ram_block_store_interface_def
        ram_block_store_close_def block_device_close_def Let_def split: bind_splits)
qed

text \<open>Concrete volumes, each over a RAM device of its own with 128 blocks of 32 bytes that client 0 has opened before.\<close>

definition sample_ram_volumes :: "'v \<Rightarrow> ram_block_store block_volume" where
  "sample_ram_volumes v =
     \<lparr>bv_file_pos = 0, bv_size = 0, bv_block_store = Some ram_block_store_interface,
      bv_store =
        \<lparr>rbs_base_block_device = snd (snd (block_device_open (block_device_init (Some null_uuid) 128 32) 0 null_uuid)),
         rbs_ram_back_store = Some (replicate 4096 RAM_BLOCK_STORE_ERASED_VALUE)\<rparr>,
      bv_partition_guid = null_uuid, bv_partition_handle = 0,
      bv_partition_info =
        \<lparr>spi_num_blocks = 0, spi_block_size = 0, spi_partition_guid = null_uuid, spi_parent_guid = null_uuid\<rparr>\<rparr>"

lemma sample_ram_volumes_admitted [simp]: "ram_volumes_ok admitted_device sample_ram_volumes"
proof -
  obtain st h bd where o: "block_device_open (block_device_init (Some null_uuid) 128 32) 0 null_uuid = (st, h, bd)"
    using prod_cases3 by blast
  have st: "st = PSA_SUCCESS" using o block_device_open_first [of null_uuid 128 32 0] by simp
  note f = block_device_open_facts [OF block_device_init_ok o]
  have "prt_num_blocks (bd_storage_partition (block_device_init (Some null_uuid) 128 32)) = 128"
    "prt_block_size (bd_storage_partition (block_device_init (Some null_uuid) 128 32)) = 32"
    "prt_guid (bd_storage_partition (block_device_init (Some null_uuid) 128 32)) = null_uuid"
    by (simp_all add: block_device_init_def storage_partition_init_def)
  with f st show ?thesis
    by (simp add: ram_volumes_ok_def ram_vol_based_def sample_ram_volumes_def ram_device_inv_def ram_inv_def
        admitted_device_def ram_vol_shaped_def o)
qed

lemma sample_ram_volumes_ok [simp]: "ram_volumes_ok any_device sample_ram_volumes"
  using sample_ram_volumes_admitted
  by (auto simp: ram_volumes_ok_def ram_vol_based_def ram_device_inv_def any_device_def)

lemma sample_ram_volumes_data [simp]: "ram_volume_data sample_ram_volumes v = replicate 4096 RAM_BLOCK_STORE_ERASED_VALUE"
  by (simp add: ram_volume_data_def sample_ram_volumes_def)

end
