(* ===== verification/MetadataFormat.thy ===== *)
theory MetadataFormat
  imports MetadataFields BlockVolumes
begin

text \<open>
  What the two metadata formats promise: serializing always succeeds in a buffer of the maximum size and
  what it wrote reads back, whatever is later put into the CRC field; reading a buffer with arbitrary
  contents never leaves the buffer and never fails an assertion. The locale \<open>metadata_format\<close> is the
  contract the metadata manager relies on, and both versions fulfil it over any volumes.
\<close>

section \<open>Writing\<close>

definition entry_accepts :: "bytes \<Rightarrow> nat \<Rightarrow> bank_tracker \<Rightarrow> nat \<Rightarrow> bool" where
  "entry_accepts m entries bt j \<longleftrightarrow> (\<forall>b < 2. accepted_field m entries 80 24 j b = Some (of_bool (accepted_in bt b j)))"

lemma unchanged_entry:
  assumes "unchanged off n m m'" and "entry_accepts m entries bt j" and "entries + 80 * j + 80 \<le> length m"
    and "entries + 80 * j + 80 \<le> off \<or> off + n \<le> entries + 80 * j"
  shows "entry_accepts m' entries bt j"
  unfolding entry_accepts_def
proof (intro allI impI)
  fix b :: nat assume b: "b < 2"
  have "accepted_field m' entries 80 24 j b = accepted_field m entries 80 24 j b"
    unfolding accepted_field_def using assms(3,4) b by (intro unchanged_field [OF assms(1)]) auto
  then show "accepted_field m' entries 80 24 j b = Some (of_bool (accepted_in bt b j))"
    using assms(2) b by (simp add: entry_accepts_def)
qed

text \<open>A list of fields with their values that a buffer holds.\<close>

definition holds :: "bytes \<Rightarrow> (nat \<times> nat \<times> nat) list \<Rightarrow> bool" where
  "holds m fs \<longleftrightarrow> (\<forall>(off, k, n) \<in> set fs. off + k \<le> length m \<and> get_field m off k = Some n)"

definition apart :: "nat \<Rightarrow> nat \<Rightarrow> (nat \<times> nat \<times> nat) list \<Rightarrow> bool" where
  "apart off n fs \<longleftrightarrow> (\<forall>(off', k, v) \<in> set fs. off' + k \<le> off \<or> off + n \<le> off')"

lemma apart_simps [simp]:
  "apart off n []"
  "apart off n ((off', k, v) # fs) \<longleftrightarrow> (off' + k \<le> off \<or> off + n \<le> off') \<and> apart off n fs"
  by (auto simp: apart_def)

lemma holds_simps [simp]:
  "holds m []"
  "holds m ((off, k, n) # fs) \<longleftrightarrow> off + k \<le> length m \<and> get_field m off k = Some n \<and> holds m fs"
  by (auto simp: holds_def)

lemma unchanged_holds:
  assumes "unchanged off n m m'" and "holds m fs" and "apart off n fs"
  shows "holds m' fs"
proof -
  have "off' + k \<le> length m' \<and> get_field m' off' k = Some v" if "(off', k, v) \<in> set fs" for off' k v
  proof -
    have "off' + k \<le> length m \<and> get_field m off' k = Some v" using assms(2) that by (auto simp: holds_def)
    moreover have "off' + k \<le> off \<or> off + n \<le> off'" using assms(3) that by (auto simp: apart_def)
    ultimately show ?thesis using unchanged_field [OF assms(1), of off' k] unchanged_length [OF assms(1)] by simp
  qed
  then show ?thesis by (auto simp: holds_def)
qed

lemma put_field_holds:
  assumes "holds m fs" and "off + k \<le> length m" and "apart off k fs" and "n < 256 ^ k"
  shows "\<exists>m'. put_field m off k n = Some m' \<and> length m' = length m \<and> unchanged off k m m' \<and> holds m' ((off, k, n) # fs)"
proof -
  obtain m' where m': "put_field m off k n = Some m'" "unchanged off k m m'" "get_field m' off k = Some n"
    using put_field_returns [OF assms(2), of n] assms(4) by auto
  then show ?thesis using unchanged_holds [OF m'(2) assms(1,3)] unchanged_length [OF m'(2)] assms(2) by simp
qed

text \<open>Two buffers that agree behind the CRC field.\<close>

definition same_tail :: "nat \<Rightarrow> bytes \<Rightarrow> bytes \<Rightarrow> bool" where
  "same_tail n m m' \<longleftrightarrow> n \<le> length m \<and> n \<le> length m' \<and> slice m 4 (n - 4) = slice m' 4 (n - 4)"

lemma same_tail_field:
  assumes "same_tail n m m'" and "4 \<le> off" and "off + k \<le> n"
  shows "get_field m' off k = get_field m off k"
proof -
  have "slice x off k = slice (slice x 4 (n - 4)) (off - 4) k" for x :: bytes
    using assms(2,3) by (simp add: slice_slice)
  then show ?thesis using assms by (simp add: same_tail_def get_field_in)
qed

lemma same_tail_holds:
  assumes "same_tail n m m'" and "holds m fs" and "\<forall>(off, k, v) \<in> set fs. 4 \<le> off \<and> off + k \<le> n"
  shows "holds m' fs"
  using assms same_tail_field [OF assms(1)] by (fastforce simp: holds_def same_tail_def)

lemma same_tail_entry:
  assumes "same_tail n m m'" and "entry_accepts m entries bt j" and "4 \<le> entries" and "entries + 80 * j + 80 \<le> n"
  shows "entry_accepts m' entries bt j"
  unfolding entry_accepts_def
proof (intro allI impI)
  fix b :: nat assume b: "b < 2"
  have "accepted_field m' entries 80 24 j b = accepted_field m entries 80 24 j b"
    unfolding accepted_field_def using assms(3,4) b by (intro same_tail_field [OF assms(1)]) auto
  then show "accepted_field m' entries 80 24 j b = Some (of_bool (accepted_in bt b j))"
    using assms(2) b by (simp add: entry_accepts_def)
qed

lemma unat_u32_less: "unat (a :: u32) < 256 ^ 4"
  using unsigned_less [of a, where ?'a = nat] by simp

text \<open>The fixed part of the version 2 metadata.\<close>

definition bank_state_val :: "bank_tracker \<Rightarrow> fw_directory \<Rightarrow> nat \<Rightarrow> nat" where
  "bank_state_val bt dir b =
     (if \<forall>i < fd_num_images dir. accepted_in bt b i then 0xfc else if content_in bt b then 0xfe else 0xff)"

definition header_v2 :: "u32 \<Rightarrow> u32 \<Rightarrow> fw_directory \<Rightarrow> bank_tracker \<Rightarrow> (nat \<times> nat \<times> nat) list" where
  "header_v2 a p dir bt =
     [(25, 1, bank_state_val bt dir 1), (24, 1, bank_state_val bt dir 0), (12, 4, unat p), (8, 4, unat a),
      (20, 2, 32), (16, 4, metadata_serializer_size_v2 dir)]"

definition desc_v2 :: "fw_directory \<Rightarrow> (nat \<times> nat \<times> nat) list" where
  "desc_v2 dir = [(38, 2, 24), (36, 2, 80), (34, 2, fd_num_images dir), (32, 1, 2)]"

lemma serialize_bank_states_returns:
  assumes "bank_tracker_ok bt" and "fd_num_images dir \<le> 20" and "28 \<le> length m"
  shows "\<exists>m'. serialize_bank_states bt dir 0 4 m = Some m' \<and> unchanged 24 4 m m'
    \<and> holds m' [(25, 1, bank_state_val bt dir 1), (24, 1, bank_state_val bt dir 0)]"
proof -
  have st: "bank_state_of bt dir b = Some (bank_state_val bt dir b)" if "b < 2" for b
    using bank_tracker_queries [OF assms(1) that] assms(2) that
    by (simp add: bank_state_of_def bank_state_val_def fw_directory_num_images_def)
  have st': "bank_state_of bt dir 2 = Some 0xff" "bank_state_of bt dir 3 = Some 0xff"
    by (simp_all add: bank_state_of_def)
  have small: "bank_state_val bt dir b < 256 ^ 1" for b by (simp add: bank_state_val_def)
  obtain b1 where 1: "put_field m 24 1 (bank_state_val bt dir 0) = Some b1" "length b1 = length m" "unchanged 24 1 m b1"
    "holds b1 [(24, 1, bank_state_val bt dir 0)]"
    using put_field_holds [of m "[]" 24 1, OF _ _ _ small [of 0]] assms(3) by auto
  obtain b2 where 2: "put_field b1 25 1 (bank_state_val bt dir 1) = Some b2" "length b2 = length m" "unchanged 25 1 b1 b2"
    "holds b2 [(25, 1, bank_state_val bt dir 1), (24, 1, bank_state_val bt dir 0)]"
    using put_field_holds [OF 1(4), of 25 1, OF _ _ small [of 1]] assms(3) 1(2) by auto
  obtain b3 where 3: "put_field b2 26 1 0xff = Some b3" "length b3 = length m" "unchanged 26 1 b2 b3"
    "holds b3 [(26, 1, 0xff), (25, 1, bank_state_val bt dir 1), (24, 1, bank_state_val bt dir 0)]"
    using put_field_holds [OF 2(4), of 26 1 "0xff"] assms(3) 2(2) by auto
  obtain b4 where 4: "put_field b3 27 1 0xff = Some b4" "unchanged 27 1 b3 b4"
    "holds b4 [(27, 1, 0xff), (26, 1, 0xff), (25, 1, bank_state_val bt dir 1), (24, 1, bank_state_val bt dir 0)]"
    using put_field_holds [OF 3(4), of 27 1 "0xff"] assms(3) 3(2) by auto
  have "unchanged 24 4 m b4"
    by (rule unchanged_trans [OF unchanged_trans [OF unchanged_trans]], rule unchanged_mono [OF 1(3)], simp, simp,
        rule unchanged_mono [OF 2(3)], simp, simp, rule unchanged_mono [OF 3(3)], simp, simp,
        rule unchanged_mono [OF 4(2)]) simp_all
  moreover have "serialize_bank_states bt dir 0 4 m = Some b4"
    using st [of 0] st [of 1] st' 1(1) 2(1) 3(1) 4(1) by (simp add: eval_nat_numeral)
  ultimately show ?thesis using 4(3) by simp
qed

context volume_files
begin

lemma bank_storage_ids_returns:
  assumes "wok w"
  shows "\<exists>img loc' w1. bank_storage_ids vf idx info b p loc w = Some (img, loc', w1) \<and> wok w1
    \<and> stored w1 = stored w \<and> pos w1 = pos w"
proof (cases "volume_index_find idx (banked_volume_id (ii_location_id info) (banked_usage_id b))")
  case (Pair st v)
  show ?thesis
  proof (cases "st = 0 \<and> v \<noteq> None")
    case True
    obtain st' ids w1 where "volume_get_storage_ids vf (the v) w = Some (st', ids, w1)" "wok w1"
      "stored w1 = stored w" "pos w1 = pos w"
      using storage_ids [OF assms, of "the v"] by blast
    then show ?thesis using Pair True by (cases ids) (auto simp: bank_storage_ids_def)
  next
    case False
    then show ?thesis using Pair assms by (auto simp: bank_storage_ids_def)
  qed
qed

lemma serialize_bank_info_returns:
  assumes "wok w" and "bank_tracker_ok bt" and "b < 2" and "i < 20" and "entry + 32 + 24 * b + 24 \<le> length buf"
  shows "\<exists>buf' loc' w'. serialize_bank_info vf idx bt i info entry b p (buf, loc, w) = Some (buf', loc', w')
    \<and> wok w' \<and> stored w' = stored w \<and> pos w' = pos w \<and> unchanged (entry + (32 + 24 * b)) 24 buf buf'
    \<and> get_field buf' (entry + (48 + 24 * b)) 4 = Some (of_bool (accepted_in bt b i))"
proof -
  let ?o = "entry + 32 + 24 * b" and ?x = "of_bool (accepted_in bt b i) :: nat"
  obtain img loc' w1 where s: "bank_storage_ids vf idx info (word_of_nat b) p loc w = Some (img, loc', w1)" "wok w1"
    "stored w1 = stored w" "pos w1 = pos w"
    using bank_storage_ids_returns [OF assms(1)] by blast
  obtain b1 where 1: "mem_write buf ?o (octets img) = Some b1" "unchanged ?o 16 buf b1"
    using mem_write_returns [of ?o "octets img" buf] assms(5) by auto
  obtain b2 where 2: "put_field b1 (?o + 20) 4 0 = Some b2" "unchanged (?o + 20) 4 b1 b2"
    using put_field_returns [of "?o + 20" 4 b1 0] assms(5) unchanged_length [OF 1(2)] by auto
  have "?o + 16 + 4 \<le> length b2" using assms(5) unchanged_length [OF 1(2)] unchanged_length [OF 2(2)] by simp
  from put_field_returns [OF this, of ?x] obtain b3 where 3: "put_field b2 (?o + 16) 4 ?x = Some b3"
    "unchanged (?o + 16) 4 b2 b3" "get_field b3 (?o + 16) 4 = Some (?x mod 256 ^ 4)" by blast
  have eq: "?o + 16 = entry + (48 + 24 * b)" "?o = entry + (32 + 24 * b)" by simp_all
  have "unchanged ?o 24 buf b3"
    by (rule unchanged_trans [OF unchanged_trans], rule unchanged_mono [OF 1(2)], simp, simp,
        rule unchanged_mono [OF 2(2)], simp, simp, rule unchanged_mono [OF 3(2)]) simp_all
  from this [unfolded eq(2)] show ?thesis
    using s 1(1) 2(1) 3(1) 3(3) [unfolded eq(1)] bank_tracker_queries(1) [OF assms(2,3,4)]
    by (cases "accepted_in bt b i") (simp_all add: serialize_bank_info_def Let_def)
qed

lemma serialize_image_entry_returns:
  assumes "wok w" and "bank_tracker_ok bt" and "i < 20" and "entries + 80 * i + 80 \<le> length buf"
  shows "\<exists>buf' w'. serialize_image_entry p vf idx bt i info (entries + 80 * i) buf w = Some (buf', w')
    \<and> wok w' \<and> stored w' = stored w \<and> pos w' = pos w \<and> unchanged (entries + 80 * i) 80 buf buf'
    \<and> entry_accepts buf' entries bt i"
proof -
  let ?e = "entries + 80 * i"
  obtain b1 l1 w1 where 1: "serialize_bank_info vf idx bt i info ?e 0 (p 0) (buf, [], w) = Some (b1, l1, w1)"
    "wok w1" "stored w1 = stored w" "pos w1 = pos w" "unchanged (?e + 32) 24 buf b1"
    "get_field b1 (?e + 48) 4 = Some (of_bool (accepted_in bt 0 i))"
    using serialize_bank_info_returns [OF assms(1,2) _ assms(3), of 0 ?e buf idx info "p 0" "[]"] assms(4) by auto
  note l1 = unchanged_length [OF 1(5)]
  obtain b2 l2 w2 where 2: "serialize_bank_info vf idx bt i info ?e 1 (p 1) (b1, l1, w1) = Some (b2, l2, w2)"
    "wok w2" "stored w2 = stored w1" "pos w2 = pos w1" "unchanged (?e + 56) 24 b1 b2"
    "get_field b2 (?e + 72) 4 = Some (of_bool (accepted_in bt 1 i))"
    using serialize_bank_info_returns [OF 1(2) assms(2) _ assms(3), of 1 ?e b1 idx info "p 1" l1] assms(4) l1 by auto
  note l2 = unchanged_length [OF 2(5)]
  obtain b3 where 3: "mem_write b2 ?e (octets (ii_img_type_uuid info)) = Some b3" "unchanged ?e 16 b2 b3"
    using mem_write_returns [of ?e "octets (ii_img_type_uuid info)" b2] assms(4) l1 l2 by auto
  note l3 = unchanged_length [OF 3(2)]
  obtain b4 where 4: "mem_write b3 (?e + 16) (octets l2) = Some b4" "unchanged (?e + 16) 16 b3 b4"
    using mem_write_returns [of "?e + 16" "octets l2" b3] assms(4) l1 l2 l3 by auto
  have f1: "get_field b4 (?e + 48) 4 = get_field b1 (?e + 48) 4"
    using unchanged_field [OF 4(2), of "?e + 48" 4] unchanged_field [OF 3(2), of "?e + 48" 4]
      unchanged_field [OF 2(5), of "?e + 48" 4] assms(4) l1 l2 l3 by simp
  have f2: "get_field b4 (?e + 72) 4 = get_field b2 (?e + 72) 4"
    using unchanged_field [OF 4(2), of "?e + 72" 4] unchanged_field [OF 3(2), of "?e + 72" 4] assms(4) l1 l2 l3 by simp
  have "accepted_field b4 entries 80 24 i b = Some (of_bool (accepted_in bt b i))" if "b < 2" for b
  proof -
    have "b = 0 \<or> b = 1" using that by auto
    then show ?thesis using f1 f2 1(6) 2(6) by (auto simp: accepted_field_def ac_simps)
  qed
  moreover have "unchanged ?e 80 buf b4"
    by (rule unchanged_trans [OF unchanged_trans [OF unchanged_trans]], rule unchanged_mono [OF 1(5)], simp, simp,
        rule unchanged_mono [OF 2(5)], simp, simp, rule unchanged_mono [OF 3(2)], simp, simp,
        rule unchanged_mono [OF 4(2)]) simp_all
  ultimately show ?thesis
    using 1(1-4) 2(1-4) 3(1) 4(1) by (simp add: serialize_image_entry_def entry_accepts_def)
qed

lemma entries_step:
  assumes "unchanged (base + 80 * i) 80 m m1" and "entry_accepts m1 base bt i"
    and "unchanged (base + 80 * (i + 1)) (80 * k) m1 m2" and "\<forall>j. i + 1 \<le> j \<and> j < i + 1 + k \<longrightarrow> entry_accepts m2 base bt j"
    and "base + 80 * (i + 1 + k) \<le> length m"
  shows "unchanged (base + 80 * i) (80 * (k + 1)) m m2" and "\<forall>j. i \<le> j \<and> j < i + (k + 1) \<longrightarrow> entry_accepts m2 base bt j"
proof -
  have "unchanged (base + 80 * i) (80 * (k + 1)) m m1" by (rule unchanged_mono [OF assms(1)]) simp_all
  moreover have "unchanged (base + 80 * i) (80 * (k + 1)) m1 m2" by (rule unchanged_mono [OF assms(3)]) simp_all
  ultimately show "unchanged (base + 80 * i) (80 * (k + 1)) m m2" by (rule unchanged_trans)
  have "entry_accepts m2 base bt i"
    using unchanged_entry [OF assms(3,2)] assms(5) unchanged_length [OF assms(1)] by simp
  then show "\<forall>j. i \<le> j \<and> j < i + (k + 1) \<longrightarrow> entry_accepts m2 base bt j"
    using assms(4) by (metis Suc_eq_plus1 add.assoc add.commute le_antisym not_less_eq_eq)
qed

lemma serialize_image_entries_v2_returns:
  assumes "wok w" and "bank_tracker_ok bt" and "i + n = fd_num_images dir" and "fd_num_images dir \<le> 20"
    and "desc + 8 + 80 * fd_num_images dir \<le> length buf"
  shows "\<exists>buf' w'. serialize_image_entries_v2 vf idx desc dir bt i buf w n = Some (0, buf', w')
    \<and> wok w' \<and> stored w' = stored w \<and> pos w' = pos w \<and> unchanged (desc + 8 + 80 * i) (80 * n) buf buf'
    \<and> (\<forall>j. i \<le> j \<and> j < i + n \<longrightarrow> entry_accepts buf' (desc + 8) bt j)"
  using assms
proof (induction n arbitrary: i buf w)
  case (Suc n)
  have info: "fw_directory_get_image_info dir i = Some (fd_entries dir ! i)"
    using Suc.prems(3) by (simp add: fw_directory_get_image_info_def)
  have room: "i < 20" "desc + 8 + 80 * i + 80 \<le> length buf" using Suc.prems(3-5) by simp_all
  obtain b1 w1 where 1:
    "serialize_image_entry (\<lambda>b. b = 0) vf idx bt i (fd_entries dir ! i) (desc + 8 + 80 * i) buf w = Some (b1, w1)"
    "wok w1" "stored w1 = stored w" "pos w1 = pos w" "unchanged (desc + 8 + 80 * i) 80 buf b1"
    "entry_accepts b1 (desc + 8) bt i"
    using serialize_image_entry_returns [OF Suc.prems(1,2) room] by blast
  have more: "i + 1 + n = fd_num_images dir" "desc + 8 + 80 * fd_num_images dir \<le> length b1"
    using Suc.prems(3,5) unchanged_length [OF 1(5)] by simp_all
  obtain b2 w2 where 2: "serialize_image_entries_v2 vf idx desc dir bt (i + 1) b1 w1 n = Some (0, b2, w2)"
    "wok w2" "stored w2 = stored w1" "pos w2 = pos w1" "unchanged (desc + 8 + 80 * (i + 1)) (80 * n) b1 b2"
    "\<forall>j. i + 1 \<le> j \<and> j < i + 1 + n \<longrightarrow> entry_accepts b2 (desc + 8) bt j"
    using Suc.IH [OF 1(2) Suc.prems(2) more(1) Suc.prems(4) more(2)] by blast
  show ?case
    using info 1(1-4) 2(1-4) entries_step [OF 1(5,6) 2(5,6)] Suc.prems(3,5) by simp
qed auto

lemma serialize_image_entries_v1_returns:
  assumes "wok w" and "bank_tracker_ok bt" and "i + n = fd_num_images dir" and "fd_num_images dir \<le> 20"
    and "16 + 80 * fd_num_images dir \<le> length buf"
  shows "\<exists>buf' w'. serialize_image_entries_v1 vf idx dir bt i buf w = Some (0, buf', w')
    \<and> wok w' \<and> stored w' = stored w \<and> pos w' = pos w \<and> unchanged (16 + 80 * i) (80 * n) buf buf'
    \<and> (\<forall>j. i \<le> j \<and> j < i + n \<longrightarrow> entry_accepts buf' 16 bt j)"
  using assms
proof (induction n arbitrary: i buf w)
  case 0
  then have "serialize_image_entries_v1 vf idx dir bt i buf w = Some (0, buf, w)"
    by (subst serialize_image_entries_v1.simps) (simp add: fw_directory_get_image_info_def)
  then show ?case using 0 by auto
next
  case (Suc n)
  have info: "fw_directory_get_image_info dir i = Some (fd_entries dir ! i)"
    using Suc.prems(3) by (simp add: fw_directory_get_image_info_def)
  have room: "i < 20" "16 + 80 * i + 80 \<le> length buf" using Suc.prems(3-5) by simp_all
  obtain b1 w1 where 1:
    "serialize_image_entry (\<lambda>_. True) vf idx bt i (fd_entries dir ! i) (16 + 80 * i) buf w = Some (b1, w1)"
    "wok w1" "stored w1 = stored w" "pos w1 = pos w" "unchanged (16 + 80 * i) 80 buf b1" "entry_accepts b1 16 bt i"
    using serialize_image_entry_returns [OF Suc.prems(1,2) room] by blast
  have more: "i + 1 + n = fd_num_images dir" "16 + 80 * fd_num_images dir \<le> length b1"
    using Suc.prems(3,5) unchanged_length [OF 1(5)] by simp_all
  obtain b2 w2 where 2: "serialize_image_entries_v1 vf idx dir bt (i + 1) b1 w1 = Some (0, b2, w2)"
    "wok w2" "stored w2 = stored w1" "pos w2 = pos w1" "unchanged (16 + 80 * (i + 1)) (80 * n) b1 b2"
    "\<forall>j. i + 1 \<le> j \<and> j < i + 1 + n \<longrightarrow> entry_accepts b2 16 bt j"
    using Suc.IH [OF 1(2) Suc.prems(2) more(1) Suc.prems(4) more(2)] by blast
  show ?case
    using info 1(1-4) 2(1-4) entries_step [OF 1(5,6) 2(5,6)] Suc.prems(3,5)
    by (simp add: serialize_image_entries_v1.simps [of vf idx dir bt i])
qed

lemma serialize_v1_returns:
  assumes "wok w" and "fd_num_images dir \<le> 20" and "bank_tracker_ok bt"
    and "16 + 80 * fd_num_images dir \<le> buf_size" and "buf_size \<le> length buf"
  shows "\<exists>buf' w'. metadata_serializer_serialize_v1 vf idx a p dir bt buf buf_size w
      = Some (0, buf', metadata_serializer_size_v1 dir, w')
    \<and> wok w' \<and> stored w' = stored w \<and> pos w' = pos w \<and> length buf' = length buf
    \<and> holds buf' [(12, 4, unat p), (8, 4, unat a), (4, 4, 1)] \<and> (\<forall>j < fd_num_images dir. entry_accepts buf' 16 bt j)"
proof -
  have len: "16 \<le> length buf" using assms(4,5) by simp
  obtain b1 where 1: "put_field buf 0 4 0 = Some b1" "length b1 = length buf"
    using put_field_holds [of buf "[]" 0 4 0] len by auto
  obtain b2 where 2: "put_field b1 4 4 1 = Some b2" "length b2 = length buf" "holds b2 [(4, 4, 1)]"
    using put_field_holds [of b1 "[]" 4 4 1] len 1(2) by auto
  obtain b3 where 3: "put_field b2 8 4 (unat a) = Some b3" "length b3 = length buf" "holds b3 [(8, 4, unat a), (4, 4, 1)]"
    using put_field_holds [OF 2(3), of 8 4 "unat a"] len 2(2) unat_u32_less [of a] by auto
  obtain b4 where 4: "put_field b3 12 4 (unat p) = Some b4" "length b4 = length buf"
    "holds b4 [(12, 4, unat p), (8, 4, unat a), (4, 4, 1)]"
    using put_field_holds [OF 3(3), of 12 4 "unat p"] len 3(2) unat_u32_less [of p] by auto
  have room: "0 + fd_num_images dir = fd_num_images dir" "16 + 80 * fd_num_images dir \<le> length b4"
    using 4(2) assms(4,5) by simp_all
  obtain b5 w5 where 5: "serialize_image_entries_v1 vf idx dir bt 0 b4 w = Some (0, b5, w5)"
    "wok w5" "stored w5 = stored w" "pos w5 = pos w" "unchanged 16 (80 * fd_num_images dir) b4 b5"
    "\<forall>j < fd_num_images dir. entry_accepts b5 16 bt j"
    using serialize_image_entries_v1_returns [OF assms(1,3) room(1) assms(2) room(2), of idx] by auto
  have "holds b5 [(12, 4, unat p), (8, 4, unat a), (4, 4, 1)]"
    by (rule unchanged_holds [OF 5(5) 4(3)]) simp
  then show ?thesis
    using 1(1) 2(1) 3(1) 4(1,2) 5(1-4,6) assms(4) unchanged_length [OF 5(5)]
    by (simp add: metadata_serializer_serialize_v1_def metadata_serializer_size_v1_def fw_directory_num_images_def
        del: holds_simps)
qed

lemma serialize_fw_store_desc_returns:
  assumes "wok w" and "fd_num_images dir \<le> 20" and "bank_tracker_ok bt" and "40 + 80 * fd_num_images dir \<le> length m"
    and "holds m (header_v2 a p dir bt)"
  shows "\<exists>m' w'. serialize_fw_store_desc vf idx dir bt 32 m w = Some (0, m', w')
    \<and> wok w' \<and> stored w' = stored w \<and> pos w' = pos w \<and> length m' = length m
    \<and> holds m' (desc_v2 dir @ header_v2 a p dir bt) \<and> (\<forall>j < fd_num_images dir. entry_accepts m' 40 bt j)"
proof -
  have len: "40 \<le> length m" using assms(4) by simp
  note h = assms(5) [unfolded header_v2_def]
  obtain b1 where 1: "put_field m 32 1 2 = Some b1" "length b1 = length m" "holds b1 ((32, 1, 2) # header_v2 a p dir bt)"
    using put_field_holds [OF assms(5), of 32 1 2] len by (auto simp: header_v2_def simp del: holds_simps)
  obtain b2 where 2: "put_field b1 34 2 (fd_num_images dir) = Some b2" "length b2 = length m"
    "holds b2 ((34, 2, fd_num_images dir) # (32, 1, 2) # header_v2 a p dir bt)"
    using put_field_holds [OF 1(3), of 34 2 "fd_num_images dir"] len 1(2) assms(2)
    by (auto simp: header_v2_def simp del: holds_simps)
  obtain b3 where 3: "put_field b2 36 2 80 = Some b3" "length b3 = length m"
    "holds b3 ((36, 2, 80) # (34, 2, fd_num_images dir) # (32, 1, 2) # header_v2 a p dir bt)"
    using put_field_holds [OF 2(3), of 36 2 80] len 2(2) by (auto simp: header_v2_def simp del: holds_simps)
  obtain b4 where 4: "put_field b3 38 2 24 = Some b4" "length b4 = length m"
    "holds b4 (desc_v2 dir @ header_v2 a p dir bt)"
    using put_field_holds [OF 3(3), of 38 2 24] len 3(2)
    by (auto simp: header_v2_def desc_v2_def simp del: holds_simps)
  have room: "0 + fd_num_images dir = fd_num_images dir" "32 + 8 + 80 * fd_num_images dir \<le> length b4"
    using 4(2) assms(4) by simp_all
  obtain b5 w5 where 5: "serialize_image_entries_v2 vf idx 32 dir bt 0 b4 w (fd_num_images dir) = Some (0, b5, w5)"
    "wok w5" "stored w5 = stored w" "pos w5 = pos w" "unchanged 40 (80 * fd_num_images dir) b4 b5"
    "\<forall>j < fd_num_images dir. entry_accepts b5 40 bt j"
    using serialize_image_entries_v2_returns [OF assms(1,3) room(1) assms(2) room(2), of idx] by auto
  have "holds b5 (desc_v2 dir @ header_v2 a p dir bt)"
    by (rule unchanged_holds [OF 5(5) 4(3)]) (simp add: header_v2_def desc_v2_def)
  moreover have "get_field b4 34 2 = Some (fd_num_images dir)" using 4(3) by (simp add: desc_v2_def)
  ultimately show ?thesis
    using 1(1) 2(1) 3(1) 4(1,2) 5(1-4,6) unchanged_length [OF 5(5)]
    by (simp add: serialize_fw_store_desc_def fw_directory_num_images_def)
qed

lemma serialize_v2_returns:
  assumes "wok w" and "fd_num_images dir \<le> 20" and "bank_tracker_ok bt"
    and "40 + 80 * fd_num_images dir \<le> buf_size" and "buf_size \<le> length buf"
  shows "\<exists>buf' w'. metadata_serializer_serialize_v2 vf idx a p dir bt buf buf_size w
      = Some (0, buf', metadata_serializer_size_v2 dir, w')
    \<and> wok w' \<and> stored w' = stored w \<and> pos w' = pos w \<and> length buf' = length buf
    \<and> holds buf' (desc_v2 dir @ header_v2 a p dir bt) \<and> (\<forall>j < fd_num_images dir. entry_accepts buf' 40 bt j)"
proof -
  let ?s = "metadata_serializer_size_v2 dir"
  have size: "?s = 40 + 80 * fd_num_images dir"
    by (simp add: metadata_serializer_size_v2_def fw_directory_num_images_def)
  have len: "40 \<le> length buf" and small: "?s < 256 ^ 4" using assms(2,4,5) size by simp_all
  obtain b1 where 1: "put_field buf 0 4 0 = Some b1" "length b1 = length buf"
    using put_field_holds [of buf "[]" 0 4 0] len by auto
  obtain b2 where 2: "put_field b1 4 4 2 = Some b2" "length b2 = length buf"
    using put_field_holds [of b1 "[]" 4 4 2] len 1(2) by auto
  obtain b3 where 3: "put_field b2 16 4 ?s = Some b3" "length b3 = length buf" "holds b3 [(16, 4, ?s)]"
    using put_field_holds [of b2 "[]" 16 4 ?s, OF _ _ _ small] len 2(2) by auto
  obtain b4 where 4: "put_field b3 20 2 32 = Some b4" "length b4 = length buf" "holds b4 [(20, 2, 32), (16, 4, ?s)]"
    using put_field_holds [OF 3(3), of 20 2 32] len 3(2) by auto
  obtain b5 where 5: "put_field b4 8 4 (unat a) = Some b5" "length b5 = length buf"
    "holds b5 [(8, 4, unat a), (20, 2, 32), (16, 4, ?s)]"
    using put_field_holds [OF 4(3), of 8 4 "unat a", OF _ _ unat_u32_less] len 4(2) by auto
  obtain b6 where 6: "put_field b5 12 4 (unat p) = Some b6" "length b6 = length buf"
    "holds b6 [(12, 4, unat p), (8, 4, unat a), (20, 2, 32), (16, 4, ?s)]"
    using put_field_holds [OF 5(3), of 12 4 "unat p", OF _ _ unat_u32_less] len 5(2) by auto
  obtain b7 where 7: "serialize_bank_states bt dir 0 4 b6 = Some b7" "unchanged 24 4 b6 b7"
    "holds b7 [(25, 1, bank_state_val bt dir 1), (24, 1, bank_state_val bt dir 0)]"
    using serialize_bank_states_returns [OF assms(3,2), of b6] len 6(2) by auto
  have h: "holds b7 (header_v2 a p dir bt)"
    using unchanged_holds [OF 7(2) 6(3)] 7(3) by (simp add: header_v2_def)
  have l7: "length b7 = length buf" using unchanged_length [OF 7(2)] 6(2) by simp
  have "40 + 80 * fd_num_images dir \<le> length b7" using l7 assms(4,5) by simp
  from serialize_fw_store_desc_returns [OF assms(1-3) this h]
  obtain b8 w8 where 8: "serialize_fw_store_desc vf idx dir bt 32 b7 w = Some (0, b8, w8)"
    "wok w8" "stored w8 = stored w" "pos w8 = pos w" "length b8 = length b7"
    "holds b8 (desc_v2 dir @ header_v2 a p dir bt)" "\<forall>j < fd_num_images dir. entry_accepts b8 40 bt j" by blast
  have "get_field b7 20 2 = Some 32" using h by (simp add: header_v2_def)
  then show ?thesis
    using 1(1) 2(1) 3(1) 4(1) 5(1) 6(1) 7(1) 8 l7 assms(4) size
    by (simp add: metadata_serializer_serialize_v2_def Let_def)
qed

end


section \<open>Reading back\<close>

lemma tracker_init_empty: "b < 2 \<Longrightarrow> j < 20 \<Longrightarrow> \<not> accepted_in bank_tracker_init b j" "b < 2 \<Longrightarrow> \<not> content_in bank_tracker_init b"
  by (simp_all add: accepted_in_def content_in_def bank_tracker_init_def)

lemma entries_read_back:
  assumes "bank_tracker_ok bt0" and "n \<le> 20" and "\<forall>j < n. entry_accepts m entries bt j"
  shows "\<exists>bt'. deserialize_images m entries 80 24 2 0 n bt0 = Some bt' \<and> bank_tracker_ok bt'
    \<and> (\<forall>c. content_in bt' c = content_in bt0 c)
    \<and> (\<forall>c < 2. \<forall>j. accepted_in bt' c j = (accepted_in bt0 c j \<or> j < n \<and> accepted_in bt c j))"
proof -
  have "\<forall>j c. 0 \<le> j \<and> j < 0 + n \<and> c < 2 \<longrightarrow> accepted_field m entries 80 24 j c = Some (of_bool (accepted_in bt c j))"
    using assms(3) by (simp add: entry_accepts_def)
  from deserialize_images_effect [OF assms(1) order_refl _ this] assms(2) show ?thesis by auto
qed

lemma deserialize_v1_read_back:
  assumes "holds m [(12, 4, unat p), (8, 4, unat a)]" and "n \<le> 20" and "\<forall>j < n. entry_accepts m 16 bt j"
  shows "\<exists>bt'. metadata_serializer_deserialize_bank_info_v1 bank_tracker_init m (16 + 80 * n) = Some bt'
    \<and> bank_tracker_ok bt' \<and> (\<forall>b < 2. content_in bt' b = (b = unat a \<or> b = unat p))
    \<and> (\<forall>b < 2. \<forall>j < n. accepted_in bt' b j = accepted_in bt b j)"
proof -
  have f: "get_field m 8 4 = Some (unat a)" "get_field m 12 4 = Some (unat p)" using assms(1) by simp_all
  obtain bt1 where 1: "set_holds_content_at m 8 bank_tracker_init = Some bt1" "bank_tracker_ok bt1"
    "\<forall>c < 2. content_in bt1 c = (content_in bank_tracker_init c \<or> c = unat a)"
    "\<forall>c j. accepted_in bt1 c j = accepted_in bank_tracker_init c j"
    using set_holds_content_at_effect [OF bank_tracker_init_ok f(1)] by blast
  obtain bt2 where 2: "set_holds_content_at m 12 bt1 = Some bt2" "bank_tracker_ok bt2"
    "\<forall>c < 2. content_in bt2 c = (content_in bt1 c \<or> c = unat p)" "\<forall>c j. accepted_in bt2 c j = accepted_in bt1 c j"
    using set_holds_content_at_effect [OF 1(2) f(2)] by blast
  obtain bt3 where 3: "deserialize_images m 16 80 24 2 0 n bt2 = Some bt3" "bank_tracker_ok bt3"
    "\<forall>c. content_in bt3 c = content_in bt2 c"
    "\<forall>c < 2. \<forall>j. accepted_in bt3 c j = (accepted_in bt2 c j \<or> j < n \<and> accepted_in bt c j)"
    using entries_read_back [OF 2(2) assms(2,3)] by blast
  have "accepted_in bt3 b j = accepted_in bt b j" if "b < 2" "j < n" for b j
    using 3(4) 2(4) 1(4) tracker_init_empty(1) [of b j] that assms(2) by simp
  moreover have "content_in bt3 b = (b = unat a \<or> b = unat p)" if "b < 2" for b
    using 3(3) 2(3) 1(3) tracker_init_empty(2) [of b] that by simp
  ultimately show ?thesis
    using 1(1) 2(1) 3(1,2) by (simp add: metadata_serializer_deserialize_bank_info_v1_def)
qed

lemma deserialize_v2_read_back:
  assumes "holds m (desc_v2 dir @ header_v2 a p dir bt)" and "fd_num_images dir \<le> 20"
    and "\<forall>j < fd_num_images dir. entry_accepts m 40 bt j"
  shows "\<exists>bt'. metadata_serializer_deserialize_bank_info_v2 bank_tracker_init m (40 + 80 * fd_num_images dir) = Some bt'
    \<and> bank_tracker_ok bt'
    \<and> (\<forall>b < 2. content_in bt' b = (content_in bt b \<or> (\<forall>i < fd_num_images dir. accepted_in bt b i)))
    \<and> (\<forall>b < 2. \<forall>j < fd_num_images dir. accepted_in bt' b j = accepted_in bt b j)"
proof -
  let ?x = "bank_state_val bt dir"
  have size: "metadata_serializer_size_v2 dir = 40 + 80 * fd_num_images dir"
    by (simp add: metadata_serializer_size_v2_def fw_directory_num_images_def)
  have "get_field m 24 1 = Some (?x 0)" "get_field m 25 1 = Some (?x 1)" using assms(1) by (simp_all add: desc_v2_def header_v2_def)
  then have states: "\<forall>c. 0 \<le> c \<and> c < 0 + 2 \<longrightarrow> get_field m (FWU_METADATA_V2_BANK_STATE + c) 1 = Some (?x c)"
    by (auto simp: numeral_2_eq_2 less_Suc_eq)
  have fields: "get_field m 20 2 = Some 32" "get_field m 16 4 = Some (40 + 80 * fd_num_images dir)"
    "get_field m 32 1 = Some 2" "get_field m 34 2 = Some (fd_num_images dir)" "get_field m 36 2 = Some 80"
    "get_field m 38 2 = Some 24"
    using assms(1) size by (simp_all add: desc_v2_def header_v2_def)
  obtain bt1 where 1: "deserialize_bank_states m 0 2 bank_tracker_init = Some bt1" "bank_tracker_ok bt1"
    "\<forall>c. content_in bt1 c = (content_in bank_tracker_init c \<or> 0 \<le> c \<and> c < 0 + 2 \<and> (?x c = 0xfc \<or> ?x c = 0xfe))"
    "\<forall>c j. j < 20 \<longrightarrow> accepted_in bt1 c j = (accepted_in bank_tracker_init c j \<or> 0 \<le> c \<and> c < 0 + 2 \<and> ?x c = 0xfc)"
    using deserialize_bank_states_effect [OF bank_tracker_init_ok _ states] by auto
  obtain bt3 where 3: "deserialize_images m 40 80 24 2 0 (fd_num_images dir) bt1 = Some bt3" "bank_tracker_ok bt3"
    "\<forall>c. content_in bt3 c = content_in bt1 c"
    "\<forall>c < 2. \<forall>j. accepted_in bt3 c j = (accepted_in bt1 c j \<or> j < fd_num_images dir \<and> accepted_in bt c j)"
    using entries_read_back [OF 1(2) assms(2,3)] by blast
  have "accepted_in bt3 b j = accepted_in bt b j" if "b < 2" "j < fd_num_images dir" for b j
    using 3(4) 1(4) tracker_init_empty(1) [of b j] that assms(2) by (auto simp: bank_state_val_def split: if_splits)
  moreover have "content_in bt3 b = (content_in bt b \<or> (\<forall>i < fd_num_images dir. accepted_in bt b i))" if "b < 2" for b
    using 3(3) 1(3) tracker_init_empty(2) [of b] that by (auto simp: bank_state_val_def)
  ultimately show ?thesis
    using 1(1) 3(1,2) fields assms(2) by (simp add: metadata_serializer_deserialize_bank_info_v2_def Let_def)
qed

text \<open>Arbitrary contents.\<close>

lemma deserialize_images_safe:
  assumes "bank_tracker_ok bt" and "num_banks \<le> 2" and "n \<le> 20" and "24 \<le> bank_size"
    and "32 + num_banks * bank_size \<le> entry_size" and "entries + n * entry_size \<le> length m"
  shows "\<exists>bt'. deserialize_images m entries entry_size bank_size num_banks 0 n bt = Some bt' \<and> bank_tracker_ok bt'"
proof -
  have "\<forall>j c. 0 \<le> j \<and> j < 0 + n \<and> c < num_banks \<longrightarrow>
      accepted_field m entries entry_size bank_size j c = Some (the (accepted_field m entries entry_size bank_size j c))"
    using accepted_field_in [OF _ _ assms(4-6)] by fastforce
  from deserialize_images_effect [OF assms(1,2) _ this] assms(3) show ?thesis by auto
qed

lemma deserialize_v1_safe:
  assumes "bank_tracker_ok bt" and "16 \<le> length m" and "len \<le> length m" and "length m \<le> 16 + 80 * 20"
  shows "\<exists>bt'. metadata_serializer_deserialize_bank_info_v1 bt m len = Some bt' \<and> bank_tracker_ok bt'"
proof -
  obtain bt1 where 1: "set_holds_content_at m 8 bt = Some bt1" "bank_tracker_ok bt1"
    using set_holds_content_at_effect [OF assms(1) get_field_in, of 8 m] assms(2) by auto
  obtain bt2 where 2: "set_holds_content_at m 12 bt1 = Some bt2" "bank_tracker_ok bt2"
    using set_holds_content_at_effect [OF 1(2) get_field_in, of 12 m] assms(2) by auto
  have "(len - 16) div 80 \<le> 20" "16 + (len - 16) div 80 * 80 \<le> length m"
    using assms(2-4) by linarith+
  then show ?thesis
    using 1 2 deserialize_images_safe [OF 2(2), of 2 "(len - 16) div 80" 24 80 16 m]
    by (simp add: metadata_serializer_deserialize_bank_info_v1_def)
qed

lemma deserialize_v2_safe:
  assumes "bank_tracker_ok bt" and "32 \<le> length m" and "len \<le> length m"
  shows "\<exists>bt'. metadata_serializer_deserialize_bank_info_v2 bt m len = Some bt' \<and> bank_tracker_ok bt'"
proof -
  obtain desc where d: "get_field m 20 2 = Some desc" using get_field_in [of 20 2 m] assms(2) by auto
  obtain size where s: "get_field m 16 4 = Some size" using get_field_in [of 16 4 m] assms(2) by auto
  have "\<forall>c. 0 \<le> c \<and> c < 0 + 2 \<longrightarrow> get_field m (FWU_METADATA_V2_BANK_STATE + c) 1 = Some (le_val (slice m (24 + c) 1))"
    using assms(2) by (simp add: get_field_in)
  from deserialize_bank_states_effect [OF assms(1) _ this]
  obtain bt1 where 1: "deserialize_bank_states m 0 2 bt = Some bt1" "bank_tracker_ok bt1" by auto
  show ?thesis
  proof (cases "len < desc \<or> len < size \<or> size < desc + 8")
    case True
    then show ?thesis using d s 1 assms(1) by (auto simp: metadata_serializer_deserialize_bank_info_v2_def)
  next
    case False
    then have "desc + 8 \<le> length m" and sz: "size \<le> length m" "desc + 8 \<le> size" using assms(3) by simp_all
    then obtain nb ni es bs where f: "get_field m desc 1 = Some nb" "get_field m (desc + 2) 2 = Some ni"
      "get_field m (desc + 4) 2 = Some es" "get_field m (desc + 6) 2 = Some bs"
      using get_field_in [of desc 1 m] get_field_in [of "desc + 2" 2 m] get_field_in [of "desc + 4" 2 m]
        get_field_in [of "desc + 6" 2 m] by auto
    show ?thesis
    proof (cases "es < 80 \<or> bs < 24 \<or> 2 < nb \<or> es < 32 + nb * bs \<or> 20 < ni \<or> size - desc - 8 < ni * es")
      case True
      then show ?thesis using d s 1 f False by (simp add: metadata_serializer_deserialize_bank_info_v2_def Let_def)
    next
      case ok: False
      have "\<exists>bt'. deserialize_images m (desc + 8) es bs nb 0 ni bt1 = Some bt' \<and> bank_tracker_ok bt'"
        using ok sz by (intro deserialize_images_safe [OF 1(2)]) auto
      then show ?thesis using d s 1 f False ok by (auto simp: metadata_serializer_deserialize_bank_info_v2_def Let_def)
    qed
  qed
qed


section \<open>The contract\<close>

definition read_back :: "'w metadata_serializer \<Rightarrow> bytes \<Rightarrow> u32 \<Rightarrow> u32 \<Rightarrow> fw_directory \<Rightarrow> bank_tracker \<Rightarrow> bool" where
  "read_back ms m a p dir bt \<longleftrightarrow>
     ms_deserialize_active_indices ms m (ms_size ms dir) = Some (a, p)
     \<and> (\<exists>bt'. ms_deserialize_bank_info ms bank_tracker_init m (ms_size ms dir) = Some bt' \<and> bank_tracker_ok bt'
          \<and> (\<forall>b < 2. \<forall>i < fd_num_images dir. accepted_in bt' b i = accepted_in bt b i))"

locale metadata_format =
  fixes ms :: "'w metadata_serializer" and wok :: "'w \<Rightarrow> bool" and same :: "'w \<Rightarrow> 'w \<Rightarrow> bool"
  assumes size_bounds: "fd_num_images dir \<le> FWU_MAX_FW_DIRECTORY_ENTRIES \<Longrightarrow> 16 \<le> ms_size ms dir \<and> ms_size ms dir \<le> ms_max_size ms"
    and max_size_small: "ms_max_size ms < 2 ^ 32"
    and serializes: "wok w \<Longrightarrow> fd_num_images dir \<le> FWU_MAX_FW_DIRECTORY_ENTRIES \<Longrightarrow> bank_tracker_ok bt \<Longrightarrow> length buf = ms_max_size ms \<Longrightarrow>
      \<exists>buf' w'. ms_serialize ms a p dir bt buf (ms_max_size ms) w = Some (FWU_STATUS_SUCCESS, buf', ms_size ms dir, w')
        \<and> wok w' \<and> same w w' \<and> length buf' = length buf
        \<and> (\<forall>m. same_tail (ms_size ms dir) buf' m \<longrightarrow> read_back ms m a p dir bt)"
    and reads_banks: "bank_tracker_ok bt \<Longrightarrow> length m = ms_max_size ms \<Longrightarrow> len \<le> ms_max_size ms \<Longrightarrow>
      \<exists>bt'. ms_deserialize_bank_info ms bt m len = Some bt' \<and> bank_tracker_ok bt'"
    and reads_indices: "fd_num_images dir \<le> FWU_MAX_FW_DIRECTORY_ENTRIES \<Longrightarrow> length m = ms_max_size ms \<Longrightarrow>
      \<exists>a p. ms_deserialize_active_indices ms m (ms_size ms dir) = Some (a, p)"

lemma metadata_serializer_v1_fields [simp]:
  "ms_serialize (metadata_serializer_v1 vf idx) = metadata_serializer_serialize_v1 vf idx"
  "ms_size (metadata_serializer_v1 vf idx) = metadata_serializer_size_v1"
  "ms_max_size (metadata_serializer_v1 vf idx) = metadata_serializer_max_size_v1"
  "ms_deserialize_bank_info (metadata_serializer_v1 vf idx) = metadata_serializer_deserialize_bank_info_v1"
  "ms_deserialize_active_indices (metadata_serializer_v1 vf idx) = metadata_serializer_deserialize_active_indices_v1"
  by (simp_all add: metadata_serializer_v1_def)

lemma metadata_serializer_v2_fields [simp]:
  "ms_serialize (metadata_serializer_v2 vf idx) = metadata_serializer_serialize_v2 vf idx"
  "ms_size (metadata_serializer_v2 vf idx) = metadata_serializer_size_v2"
  "ms_max_size (metadata_serializer_v2 vf idx) = metadata_serializer_max_size_v2"
  "ms_deserialize_bank_info (metadata_serializer_v2 vf idx) = metadata_serializer_deserialize_bank_info_v2"
  "ms_deserialize_active_indices (metadata_serializer_v2 vf idx) = metadata_serializer_deserialize_active_indices_v2"
  by (simp_all add: metadata_serializer_v2_def)

lemma active_indices_read_back:
  assumes "holds m [(12, 4, unat p), (8, 4, unat a)]" and "least \<le> len"
  shows "deserialize_active_indices least m len = Some (a, p)"
  using assms by (simp add: deserialize_active_indices_def)

lemma active_indices_safe:
  assumes "16 \<le> length m" and "least \<le> len"
  shows "\<exists>a p. deserialize_active_indices least m len = Some (a, p)"
  using assms by (simp add: deserialize_active_indices_def get_field_in)

lemma size_v1: "metadata_serializer_size_v1 dir = 16 + 80 * fd_num_images dir"
  by (simp add: metadata_serializer_size_v1_def fw_directory_num_images_def)

lemma size_v2: "metadata_serializer_size_v2 dir = 40 + 80 * fd_num_images dir"
  by (simp add: metadata_serializer_size_v2_def fw_directory_num_images_def)

lemma read_back_v1:
  assumes "fd_num_images dir \<le> 20" and "holds b [(12, 4, unat p), (8, 4, unat a), (4, 4, 1)]"
    and "\<forall>j < fd_num_images dir. entry_accepts b 16 bt j" and "same_tail (metadata_serializer_size_v1 dir) b m"
  shows "read_back (metadata_serializer_v1 vf idx) m a p dir bt"
proof -
  have h: "holds m [(12, 4, unat p), (8, 4, unat a)]"
    by (rule same_tail_holds [OF assms(4)]) (use assms(2) in \<open>simp_all add: size_v1\<close>)
  have e: "\<forall>j < fd_num_images dir. entry_accepts m 16 bt j"
    using assms(3) by (auto intro!: same_tail_entry [OF assms(4)] simp: size_v1)
  show ?thesis
    using deserialize_v1_read_back [OF h assms(1) e] active_indices_read_back [OF h]
    by (auto simp: read_back_def metadata_serializer_deserialize_active_indices_v1_def size_v1)
qed

lemma read_back_v2:
  assumes "fd_num_images dir \<le> 20" and "holds b (desc_v2 dir @ header_v2 a p dir bt)"
    and "\<forall>j < fd_num_images dir. entry_accepts b 40 bt j" and "same_tail (metadata_serializer_size_v2 dir) b m"
  shows "read_back (metadata_serializer_v2 vf idx) m a p dir bt"
proof -
  have h: "holds m (desc_v2 dir @ header_v2 a p dir bt)"
    by (rule same_tail_holds [OF assms(4,2)]) (simp add: size_v2 desc_v2_def header_v2_def)
  then have i: "holds m [(12, 4, unat p), (8, 4, unat a)]" by (simp add: desc_v2_def header_v2_def)
  have e: "\<forall>j < fd_num_images dir. entry_accepts m 40 bt j"
    using assms(3) by (auto intro!: same_tail_entry [OF assms(4)] simp: size_v2)
  show ?thesis
    using deserialize_v2_read_back [OF h assms(1) e] active_indices_read_back [OF i]
    by (auto simp: read_back_def metadata_serializer_deserialize_active_indices_v2_def size_v2)
qed

sublocale volume_files \<subseteq> v1: metadata_format "metadata_serializer_v1 vf idx" wok "\<lambda>w w'. stored w' = stored w \<and> pos w' = pos w"
  for idx
proof (unfold_locales, goal_cases)
  case (3 w dir bt buf a p)
  then have room: "16 + 80 * fd_num_images dir \<le> metadata_serializer_max_size_v1" "metadata_serializer_max_size_v1 \<le> length buf"
    by (simp_all add: metadata_serializer_max_size_v1_def)
  obtain b w' where r: "metadata_serializer_serialize_v1 vf idx a p dir bt buf metadata_serializer_max_size_v1 w
      = Some (0, b, metadata_serializer_size_v1 dir, w')" "wok w'" "stored w' = stored w" "pos w' = pos w"
    "length b = length buf" "holds b [(12, 4, unat p), (8, 4, unat a), (4, 4, 1)]"
    "\<forall>j < fd_num_images dir. entry_accepts b 16 bt j"
    using serialize_v1_returns [OF 3(1,2,3) room, of idx a p] by blast
  then show ?case using read_back_v1 [OF 3(2) r(6,7), where vf = vf and idx = idx] by simp
next
  case (4 bt m len)
  then show ?case
    using deserialize_v1_safe [of bt m len] by (simp add: metadata_serializer_max_size_v1_def)
next
  case (5 dir m)
  then show ?case
    using active_indices_safe [of m 16] by (simp add: metadata_serializer_max_size_v1_def
        metadata_serializer_deserialize_active_indices_v1_def size_v1)
qed (simp_all add: metadata_serializer_max_size_v1_def size_v1)

sublocale volume_files \<subseteq> v2: metadata_format "metadata_serializer_v2 vf idx" wok "\<lambda>w w'. stored w' = stored w \<and> pos w' = pos w"
  for idx
proof (unfold_locales, goal_cases)
  case (3 w dir bt buf a p)
  then have room: "40 + 80 * fd_num_images dir \<le> metadata_serializer_max_size_v2" "metadata_serializer_max_size_v2 \<le> length buf"
    by (simp_all add: metadata_serializer_max_size_v2_def)
  obtain b w' where r: "metadata_serializer_serialize_v2 vf idx a p dir bt buf metadata_serializer_max_size_v2 w
      = Some (0, b, metadata_serializer_size_v2 dir, w')" "wok w'" "stored w' = stored w" "pos w' = pos w"
    "length b = length buf" "holds b (desc_v2 dir @ header_v2 a p dir bt)"
    "\<forall>j < fd_num_images dir. entry_accepts b 40 bt j"
    using serialize_v2_returns [OF 3(1,2,3) room, of idx a p] by blast
  then show ?case using read_back_v2 [OF 3(2) r(6,7), where vf = vf and idx = idx] by simp
next
  case (4 bt m len)
  then show ?case
    using deserialize_v2_safe [of bt m len] by (simp add: metadata_serializer_max_size_v2_def)
next
  case (5 dir m)
  then show ?case
    using active_indices_safe [of m 32] by (simp add: metadata_serializer_max_size_v2_def
        metadata_serializer_deserialize_active_indices_v2_def size_v2)
qed (simp_all add: metadata_serializer_max_size_v2_def size_v2)


section \<open>Properties\<close>

lemma same_tail_crc:
  assumes "4 \<le> n" and "n \<le> length b"
  shows "same_tail n b (splice b 0 (le_bytes 4 crc))"
  using assms by (simp add: same_tail_def slice_splice_disjoint)

text \<open>Property C10. The metadata of either version, over volumes on RAM devices, is written completely into a buffer of the
  maximum size, and what was written reads back after the CRC has been put into its field: the active and the
  previous active index, and for every image of the directory the accept state in both banks.\<close>

theorem metadata_round_trip:
  assumes "ms = metadata_serializer_v1 block_volume_funcs idx \<or> ms = metadata_serializer_v2 block_volume_funcs idx"
    and "ram_volumes_ok any_device w" and "fd_num_images dir \<le> FWU_MAX_FW_DIRECTORY_ENTRIES" and "bank_tracker_ok bt"
    and "length buf = ms_max_size ms"
  shows "\<exists>buf' w' bt'. ms_serialize ms a p dir bt buf (ms_max_size ms) w = Some (FWU_STATUS_SUCCESS, buf', ms_size ms dir, w')
    \<and> ms_deserialize_active_indices ms (splice buf' 0 (le_bytes 4 crc)) (ms_size ms dir) = Some (a, p)
    \<and> ms_deserialize_bank_info ms bank_tracker_init (splice buf' 0 (le_bytes 4 crc)) (ms_size ms dir) = Some bt'
    \<and> (\<forall>b < BANK_SCHEME_NUM_BANKS. \<forall>i < fd_num_images dir.
         bank_tracker_is_accepted bt' (word_of_nat b) (word_of_nat i)
           = bank_tracker_is_accepted bt (word_of_nat b) (word_of_nat i))"
proof -
  obtain buf' w' where s: "ms_serialize ms a p dir bt buf (ms_max_size ms) w = Some (0, buf', ms_size ms dir, w')"
    "length buf' = length buf" "\<forall>m. same_tail (ms_size ms dir) buf' m \<longrightarrow> read_back ms m a p dir bt"
    using assms(1) any_ram.files.v1.serializes [OF assms(2-4)] any_ram.files.v2.serializes [OF assms(2-4)] assms(5) by blast
  have "16 \<le> ms_size ms dir" "ms_size ms dir \<le> length buf'"
    using assms(1) any_ram.files.v1.size_bounds [OF assms(3)] any_ram.files.v2.size_bounds [OF assms(3)] s(2) assms(5) by auto
  then have "read_back ms (splice buf' 0 (le_bytes 4 crc)) a p dir bt"
    using s(3) same_tail_crc [of "ms_size ms dir" buf' crc] by simp
  then show ?thesis
    using s(1) assms(3,4) by (fastforce simp: read_back_def bank_tracker_queries(1))
qed

theorem metadata_round_trip_witness:
  "\<exists>buf' w' bt'. ms_serialize (metadata_serializer_v2 block_volume_funcs (volume_index_init :: nat volume_index)) 1 0
        fw_directory_init bank_tracker_init (replicate 1640 0) 1640 sample_ram_volumes = Some (0, buf', 40, w')
    \<and> metadata_serializer_deserialize_active_indices_v2 (splice buf' 0 (le_bytes 4 7)) 40 = Some (1, 0)
    \<and> metadata_serializer_deserialize_bank_info_v2 bank_tracker_init (splice buf' 0 (le_bytes 4 7)) 40 = Some bt'"
  using metadata_round_trip [of "metadata_serializer_v2 block_volume_funcs volume_index_init" volume_index_init
      sample_ram_volumes fw_directory_init bank_tracker_init "replicate 1640 0" 1 0 7]
  by (simp add: metadata_serializer_max_size_v2_def size_v2 fw_directory_init_def)

text \<open>Property C11. Reading the bank information from a metadata buffer of either version is safe for arbitrary contents and
  any length up to the size of the buffer: no access lies outside the buffer, no assertion of the bank
  tracker fails, and the tracker stays well formed.\<close>

theorem metadata_read_safe:
  assumes "ms = metadata_serializer_v1 vf idx \<or> ms = metadata_serializer_v2 vf idx"
    and "bank_tracker_ok bt" and "length m = ms_max_size ms" and "len \<le> ms_max_size ms"
  shows "\<exists>bt'. ms_deserialize_bank_info ms bt m len = Some bt' \<and> bank_tracker_ok bt'"
  using assms deserialize_v1_safe [OF assms(2), of m len] deserialize_v2_safe [OF assms(2), of m len]
  by (auto simp: metadata_serializer_max_size_v1_def metadata_serializer_max_size_v2_def)

theorem metadata_read_safe_witness:
  "\<exists>bt'. metadata_serializer_deserialize_bank_info_v2 bank_tracker_init (replicate 1640 0xff) 1000 = Some bt'
    \<and> bank_tracker_ok bt'"
  using metadata_read_safe [of "metadata_serializer_v2 block_volume_funcs volume_index_init" block_volume_funcs
      volume_index_init bank_tracker_init "replicate 1640 0xff" 1000]
  by (simp add: metadata_serializer_max_size_v2_def)

end
