(* ===== verification/Crc32.thy ===== *)
theory Crc32
  imports Prelude
begin

unbundle bit_operations_syntax

text \<open>
  The CRC-32 of the firmware metadata (\<open>common/crc32/crc32.c\<close>): the table-driven software routine
  and the routine over the CRC instruction of the processor, a parameter. The table is shown to be the one of the
  reflected polynomial \<open>0xEDB88320\<close>, both routines compute the bit-serial CRC, and
  a change confined to four consecutive bytes always changes the result.
\<close>

section \<open>Code\<close>

definition crc32_tab :: "u32 list" where
  "crc32_tab =
     [0x00000000, 0x77073096, 0xee0e612c, 0x990951ba, 0x076dc419, 0x706af48f, 0xe963a535, 0x9e6495a3,
      0x0edb8832, 0x79dcb8a4, 0xe0d5e91e, 0x97d2d988, 0x09b64c2b, 0x7eb17cbd, 0xe7b82d07, 0x90bf1d91,
      0x1db71064, 0x6ab020f2, 0xf3b97148, 0x84be41de, 0x1adad47d, 0x6ddde4eb, 0xf4d4b551, 0x83d385c7,
      0x136c9856, 0x646ba8c0, 0xfd62f97a, 0x8a65c9ec, 0x14015c4f, 0x63066cd9, 0xfa0f3d63, 0x8d080df5,
      0x3b6e20c8, 0x4c69105e, 0xd56041e4, 0xa2677172, 0x3c03e4d1, 0x4b04d447, 0xd20d85fd, 0xa50ab56b,
      0x35b5a8fa, 0x42b2986c, 0xdbbbc9d6, 0xacbcf940, 0x32d86ce3, 0x45df5c75, 0xdcd60dcf, 0xabd13d59,
      0x26d930ac, 0x51de003a, 0xc8d75180, 0xbfd06116, 0x21b4f4b5, 0x56b3c423, 0xcfba9599, 0xb8bda50f,
      0x2802b89e, 0x5f058808, 0xc60cd9b2, 0xb10be924, 0x2f6f7c87, 0x58684c11, 0xc1611dab, 0xb6662d3d,
      0x76dc4190, 0x01db7106, 0x98d220bc, 0xefd5102a, 0x71b18589, 0x06b6b51f, 0x9fbfe4a5, 0xe8b8d433,
      0x7807c9a2, 0x0f00f934, 0x9609a88e, 0xe10e9818, 0x7f6a0dbb, 0x086d3d2d, 0x91646c97, 0xe6635c01,
      0x6b6b51f4, 0x1c6c6162, 0x856530d8, 0xf262004e, 0x6c0695ed, 0x1b01a57b, 0x8208f4c1, 0xf50fc457,
      0x65b0d9c6, 0x12b7e950, 0x8bbeb8ea, 0xfcb9887c, 0x62dd1ddf, 0x15da2d49, 0x8cd37cf3, 0xfbd44c65,
      0x4db26158, 0x3ab551ce, 0xa3bc0074, 0xd4bb30e2, 0x4adfa541, 0x3dd895d7, 0xa4d1c46d, 0xd3d6f4fb,
      0x4369e96a, 0x346ed9fc, 0xad678846, 0xda60b8d0, 0x44042d73, 0x33031de5, 0xaa0a4c5f, 0xdd0d7cc9,
      0x5005713c, 0x270241aa, 0xbe0b1010, 0xc90c2086, 0x5768b525, 0x206f85b3, 0xb966d409, 0xce61e49f,
      0x5edef90e, 0x29d9c998, 0xb0d09822, 0xc7d7a8b4, 0x59b33d17, 0x2eb40d81, 0xb7bd5c3b, 0xc0ba6cad,
      0xedb88320, 0x9abfb3b6, 0x03b6e20c, 0x74b1d29a, 0xead54739, 0x9dd277af, 0x04db2615, 0x73dc1683,
      0xe3630b12, 0x94643b84, 0x0d6d6a3e, 0x7a6a5aa8, 0xe40ecf0b, 0x9309ff9d, 0x0a00ae27, 0x7d079eb1,
      0xf00f9344, 0x8708a3d2, 0x1e01f268, 0x6906c2fe, 0xf762575d, 0x806567cb, 0x196c3671, 0x6e6b06e7,
      0xfed41b76, 0x89d32be0, 0x10da7a5a, 0x67dd4acc, 0xf9b9df6f, 0x8ebeeff9, 0x17b7be43, 0x60b08ed5,
      0xd6d6a3e8, 0xa1d1937e, 0x38d8c2c4, 0x4fdff252, 0xd1bb67f1, 0xa6bc5767, 0x3fb506dd, 0x48b2364b,
      0xd80d2bda, 0xaf0a1b4c, 0x36034af6, 0x41047a60, 0xdf60efc3, 0xa867df55, 0x316e8eef, 0x4669be79,
      0xcb61b38c, 0xbc66831a, 0x256fd2a0, 0x5268e236, 0xcc0c7795, 0xbb0b4703, 0x220216b9, 0x5505262f,
      0xc5ba3bbe, 0xb2bd0b28, 0x2bb45a92, 0x5cb36a04, 0xc2d7ffa7, 0xb5d0cf31, 0x2cd99e8b, 0x5bdeae1d,
      0x9b64c2b0, 0xec63f226, 0x756aa39c, 0x026d930a, 0x9c0906a9, 0xeb0e363f, 0x72076785, 0x05005713,
      0x95bf4a82, 0xe2b87a14, 0x7bb12bae, 0x0cb61b38, 0x92d28e9b, 0xe5d5be0d, 0x7cdcefb7, 0x0bdbdf21,
      0x86d3d2d4, 0xf1d4e242, 0x68ddb3f8, 0x1fda836e, 0x81be16cd, 0xf6b9265b, 0x6fb077e1, 0x18b74777,
      0x88085ae6, 0xff0f6a70, 0x66063bca, 0x11010b5c, 0x8f659eff, 0xf862ae69, 0x616bffd3, 0x166ccf45,
      0xa00ae278, 0xd70dd2ee, 0x4e048354, 0x3903b3c2, 0xa7672661, 0xd06016f7, 0x4969474d, 0x3e6e77db,
      0xaed16a4a, 0xd9d65adc, 0x40df0b66, 0x37d83bf0, 0xa9bcae53, 0xdebb9ec5, 0x47b2cf7f, 0x30b5ffe9,
      0xbdbdf21c, 0xcabac28a, 0x53b39330, 0x24b4a3a6, 0xbad03605, 0xcdd70693, 0x54de5729, 0x23d967bf,
      0xb3667a2e, 0xc4614ab8, 0x5d681b02, 0x2a6f2b94, 0xb40bbe37, 0xc30c8ea1, 0x5a05df1b, 0x2d02ef8d]"

fun crc32_sw_loop :: "u32 \<Rightarrow> bytes \<Rightarrow> u32" where
  "crc32_sw_loop crc [] = crc"
| "crc32_sw_loop crc (b # bs) =
     crc32_sw_loop (crc32_tab ! unat ((crc XOR ucast b) AND 0xff) XOR drop_bit 8 crc) bs"

text \<open>The buffer with its size; \<open>None\<close> is the NULL pointer.\<close>

definition crc32_sw :: "u32 \<Rightarrow> bytes option \<Rightarrow> u32" where
  "crc32_sw crc_prev buf = (case buf of None \<Rightarrow> 0 | Some bs \<Rightarrow> NOT (crc32_sw_loop (NOT crc_prev) bs))"

text \<open>\<open>crc32b\<close> is the instruction \<open>__crc32b\<close>.\<close>

fun crc32_armv8a_loop :: "(u32 \<Rightarrow> byte \<Rightarrow> u32) \<Rightarrow> u32 \<Rightarrow> bytes \<Rightarrow> u32" where
  "crc32_armv8a_loop crc32b crc [] = crc"
| "crc32_armv8a_loop crc32b crc (b # bs) = crc32_armv8a_loop crc32b (crc32b crc b) bs"

definition crc32_armv8a :: "(u32 \<Rightarrow> byte \<Rightarrow> u32) \<Rightarrow> u32 \<Rightarrow> bytes option \<Rightarrow> u32" where
  "crc32_armv8a crc32b crc_prev buf =
     (case buf of None \<Rightarrow> 0 | Some bs \<Rightarrow> NOT (crc32_armv8a_loop crc32b (NOT crc_prev) bs))"

text \<open>\<open>crc32_init\<close> chooses the routine that the pointer \<open>crc32\<close> leads to.\<close>

definition crc32_init :: "(u32 \<Rightarrow> byte \<Rightarrow> u32) option \<Rightarrow> u32 \<Rightarrow> bytes option \<Rightarrow> u32" where
  "crc32_init hw = (case hw of Some crc32b \<Rightarrow> crc32_armv8a crc32b | None \<Rightarrow> crc32_sw)"

definition tf_crc32 :: "(u32 \<Rightarrow> bytes option \<Rightarrow> u32) \<Rightarrow> u32 \<Rightarrow> bytes option \<Rightarrow> u32" where
  "tf_crc32 crc32 crc buf = crc32 crc buf"


section \<open>The bit-serial reference\<close>

text \<open>One step of the shift register of the reflected polynomial.\<close>

definition crc_step :: "u32 \<Rightarrow> u32" where
  "crc_step c = drop_bit 1 c XOR (if bit c 0 then 0xEDB88320 else 0)"

fun crc_bits :: "u32 \<Rightarrow> bytes \<Rightarrow> u32" where
  "crc_bits c [] = c"
| "crc_bits c (b # bs) = crc_bits ((crc_step ^^ 8) (c XOR ucast b)) bs"

definition crc32_reference :: "u32 \<Rightarrow> bytes \<Rightarrow> u32" where
  "crc32_reference prev bs = NOT (crc_bits (NOT prev) bs)"

lemma crc_step_xor: "crc_step (a XOR b) = crc_step a XOR crc_step b"
  by (auto simp: crc_step_def bit_xor_iff drop_bit_xor ac_simps)

lemma crc_steps_xor: "(crc_step ^^ n) (a XOR b) = (crc_step ^^ n) a XOR (crc_step ^^ n) b"
  by (induction n arbitrary: a b) (simp_all add: crc_step_xor)

text \<open>Without low bits the step is a shift.\<close>

lemma crc_steps_shift: "take_bit n c = 0 \<Longrightarrow> (crc_step ^^ n) c = drop_bit n c"
proof (induction n arbitrary: c)
  case (Suc n)
  have low: "\<not> bit c k" if "k < Suc n" for k
    using arg_cong [OF Suc.prems, of "\<lambda>x. bit x k"] that by (simp add: bit_take_bit_iff)
  have step: "crc_step c = drop_bit 1 c" using low [of 0] by (simp add: crc_step_def)
  have "take_bit n (drop_bit 1 c) = 0"
    by (rule bit_word_eqI) (use low in \<open>auto simp: bit_take_bit_iff bit_drop_bit_eq\<close>)
  then show ?case
    using Suc.IH [of "drop_bit 1 c"] by (simp add: funpow_Suc_right step del: funpow.simps)
qed simp

lemma crc32_tab_length: "length crc32_tab = 256"
  by (simp add: crc32_tab_def)

lemma crc_step_8:
  "(crc_step ^^ 8) c = crc_step (crc_step (crc_step (crc_step (crc_step (crc_step (crc_step (crc_step c)))))))"
  by (simp add: eval_nat_numeral)

lemma crc32_tab_list:
  "map (crc_step ^^ 8)
      [0, 1, 2, 3, 4, 5, 6, 7, 8, 9, 10, 11, 12, 13, 14, 15,
       16, 17, 18, 19, 20, 21, 22, 23, 24, 25, 26, 27, 28, 29, 30, 31,
       32, 33, 34, 35, 36, 37, 38, 39, 40, 41, 42, 43, 44, 45, 46, 47,
       48, 49, 50, 51, 52, 53, 54, 55, 56, 57, 58, 59, 60, 61, 62, 63,
       64, 65, 66, 67, 68, 69, 70, 71, 72, 73, 74, 75, 76, 77, 78, 79,
       80, 81, 82, 83, 84, 85, 86, 87, 88, 89, 90, 91, 92, 93, 94, 95,
       96, 97, 98, 99, 100, 101, 102, 103, 104, 105, 106, 107, 108, 109, 110, 111,
       112, 113, 114, 115, 116, 117, 118, 119, 120, 121, 122, 123, 124, 125, 126, 127,
       128, 129, 130, 131, 132, 133, 134, 135, 136, 137, 138, 139, 140, 141, 142, 143,
       144, 145, 146, 147, 148, 149, 150, 151, 152, 153, 154, 155, 156, 157, 158, 159,
       160, 161, 162, 163, 164, 165, 166, 167, 168, 169, 170, 171, 172, 173, 174, 175,
       176, 177, 178, 179, 180, 181, 182, 183, 184, 185, 186, 187, 188, 189, 190, 191,
       192, 193, 194, 195, 196, 197, 198, 199, 200, 201, 202, 203, 204, 205, 206, 207,
       208, 209, 210, 211, 212, 213, 214, 215, 216, 217, 218, 219, 220, 221, 222, 223,
       224, 225, 226, 227, 228, 229, 230, 231, 232, 233, 234, 235, 236, 237, 238, 239,
       240, 241, 242, 243, 244, 245, 246, 247, 248, 249, 250, 251, 252, 253, 254, 255]
    = crc32_tab"
  unfolding crc32_tab_def by (simp add: crc_step_8 crc_step_def)

lemma small_words:
  "map word_of_nat [0..<256] =
      [0, 1, 2, 3, 4, 5, 6, 7, 8, 9, 10, 11, 12, 13, 14, 15,
       16, 17, 18, 19, 20, 21, 22, 23, 24, 25, 26, 27, 28, 29, 30, 31,
       32, 33, 34, 35, 36, 37, 38, 39, 40, 41, 42, 43, 44, 45, 46, 47,
       48, 49, 50, 51, 52, 53, 54, 55, 56, 57, 58, 59, 60, 61, 62, 63,
       64, 65, 66, 67, 68, 69, 70, 71, 72, 73, 74, 75, 76, 77, 78, 79,
       80, 81, 82, 83, 84, 85, 86, 87, 88, 89, 90, 91, 92, 93, 94, 95,
       96, 97, 98, 99, 100, 101, 102, 103, 104, 105, 106, 107, 108, 109, 110, 111,
       112, 113, 114, 115, 116, 117, 118, 119, 120, 121, 122, 123, 124, 125, 126, 127,
       128, 129, 130, 131, 132, 133, 134, 135, 136, 137, 138, 139, 140, 141, 142, 143,
       144, 145, 146, 147, 148, 149, 150, 151, 152, 153, 154, 155, 156, 157, 158, 159,
       160, 161, 162, 163, 164, 165, 166, 167, 168, 169, 170, 171, 172, 173, 174, 175,
       176, 177, 178, 179, 180, 181, 182, 183, 184, 185, 186, 187, 188, 189, 190, 191,
       192, 193, 194, 195, 196, 197, 198, 199, 200, 201, 202, 203, 204, 205, 206, 207,
       208, 209, 210, 211, 212, 213, 214, 215, 216, 217, 218, 219, 220, 221, 222, 223,
       224, 225, 226, 227, 228, 229, 230, 231, 232, 233, 234, 235, 236, 237, 238, 239,
       240, 241, 242, 243, 244, 245, 246, 247, 248, 249, 250, 251, 252, 253, 254, 255 :: u32]"
proof -
  have "[0..<256] = 0 # 1 # [2..<256]" by (simp add: upt_rec)
  then show ?thesis by simp
qed

lemma crc32_tab_steps:
  assumes "x < 256"
  shows "crc32_tab ! x = (crc_step ^^ 8) (word_of_nat x)"
proof -
  have eq: "crc32_tab = map (crc_step ^^ 8) (map word_of_nat [0..<256])"
    unfolding small_words crc32_tab_list ..
  show ?thesis using assms by (subst eq) simp
qed

lemma xor_right_cancel: "(a :: u32) XOR e = b XOR e \<Longrightarrow> a = b"
  by (drule arg_cong [where f = "\<lambda>x. x XOR e"]) (simp add: xor.assoc)

lemma low_byte: "(x :: u32) AND 0xff = take_bit 8 x"
  by (simp add: take_bit_eq_mask mask_eq_decr_exp)

text \<open>Eight steps: the table entry of the low byte, and the rest shifted.\<close>

lemma crc_step_table: "(crc_step ^^ 8) c = crc32_tab ! unat (c AND 0xff) XOR drop_bit 8 c"
proof -
  let ?low = "take_bit 8 c" and ?high = "push_bit 8 (drop_bit 8 c)"
  have split: "c = ?low XOR ?high"
    by (rule bit_word_eqI) (auto simp: bit_simps)
  have "unat ?low < 2 ^ 8" by (simp only: unsigned_take_bit_eq take_bit_nat_less_exp)
  then have "crc32_tab ! unat ?low = (crc_step ^^ 8) ?low"
    using crc32_tab_steps [of "unat ?low"] by simp
  moreover have "(crc_step ^^ 8) ?high = drop_bit 8 c"
  proof -
    have "take_bit 8 ?high = 0" by (simp add: take_bit_push_bit)
    then have "(crc_step ^^ 8) ?high = drop_bit 8 ?high" by (rule crc_steps_shift)
    also have "\<dots> = drop_bit 8 c" by (rule bit_word_eqI) (auto simp: bit_simps dest: bit_imp_le_length)
    finally show ?thesis .
  qed
  ultimately show ?thesis
    unfolding low_byte using crc_steps_xor [of 8 ?low ?high] split by simp
qed

lemma drop_bit_byte [simp]: "drop_bit 8 (ucast (b :: byte) :: u32) = 0"
  by (rule bit_word_eqI) (auto simp: bit_simps dest: bit_imp_le_length)

lemma crc32_sw_loop_bits: "crc32_sw_loop c bs = crc_bits c bs"
  by (induction bs arbitrary: c) (simp_all add: crc_step_table)

lemma crc_bits_append: "crc_bits c (a @ b) = crc_bits (crc_bits c a) b"
  by (induction a arbitrary: c) simp_all

text \<open>The top bit of a step tells the bit that was shifted out, so a step can be undone.\<close>

lemma crc_step_inj: "crc_step a = crc_step b \<Longrightarrow> a = b"
proof -
  assume eq: "crc_step a = crc_step b"
  have top: "bit (crc_step x) 31 \<longleftrightarrow> bit x 0" for x
    by (auto simp: crc_step_def bit_simps dest: bit_imp_le_length)
  then have low: "bit a 0 = bit b 0" using eq by metis
  then have "drop_bit 1 a = drop_bit 1 b"
    using eq by (auto simp: crc_step_def dest: xor_right_cancel)
  then have "bit a (Suc n) = bit b (Suc n)" for n
    by (metis bit_drop_bit_eq comp_apply plus_1_eq_Suc)
  then show "a = b"
    using low by (intro bit_word_eqI) (metis not0_implies_Suc)
qed

lemma crc_steps_inj: "(crc_step ^^ n) a = (crc_step ^^ n) b \<Longrightarrow> a = b"
  by (induction n arbitrary: a b) (auto dest: crc_step_inj simp: funpow_swap1)

lemma crc_bits_inj: "crc_bits c bs = crc_bits d bs \<Longrightarrow> c = d"
proof (induction bs arbitrary: c d)
  case (Cons b bs)
  then have "(crc_step ^^ 8) (c XOR ucast b) = (crc_step ^^ 8) (d XOR ucast b)" by simp
  then have "c XOR ucast b = d XOR ucast b" by (rule crc_steps_inj)
  then show ?case by (rule xor_right_cancel)
qed simp

text \<open>Up to four bytes enter the register side by side.\<close>

fun crc_word :: "bytes \<Rightarrow> u32" where
  "crc_word [] = 0"
| "crc_word (b # bs) = ucast b XOR push_bit 8 (crc_word bs)"

lemma crc_word_small: "length bs \<le> 4 \<Longrightarrow> n \<ge> 8 * length bs \<Longrightarrow> \<not> bit (crc_word bs) n"
  by (induction bs arbitrary: n) (auto simp: bit_simps dest: bit_imp_le_length)

lemma crc_word_bound: "length bs \<le> 3 \<Longrightarrow> bit (crc_word bs) n \<Longrightarrow> n < 24"
  using crc_word_small [of bs n] by (cases "n < 8 * length bs") auto

lemma crc_bits_word:
  "length bs \<le> 4 \<Longrightarrow> crc_bits c bs = (crc_step ^^ (8 * length bs)) (c XOR crc_word bs)"
proof (induction bs arbitrary: c)
  case (Cons b bs)
  have tb: "take_bit 8 (push_bit 8 (crc_word bs)) = 0" by (simp add: take_bit_push_bit)
  have "length bs \<le> 3" using Cons.prems by simp
  then have db: "drop_bit 8 (push_bit 8 (crc_word bs)) = crc_word bs"
    by (intro bit_word_eqI) (auto simp: bit_simps dest: crc_word_bound)
  have "(crc_step ^^ 8) (c XOR crc_word (b # bs)) =
      (crc_step ^^ 8) (c XOR ucast b) XOR crc_word bs"
    using crc_steps_xor [of 8 "c XOR ucast b" "push_bit 8 (crc_word bs)"] crc_steps_shift [OF tb] db
    by (simp add: xor.assoc)
  then have "(crc_step ^^ (8 * length bs)) ((crc_step ^^ 8) (c XOR crc_word (b # bs))) = crc_bits c (b # bs)"
    using Cons by simp
  moreover have "8 * length (b # bs) = 8 * length bs + 8" by simp
  ultimately show ?case by (simp only: funpow_add comp_apply)
qed simp

lemma crc_word_inj: "length x = length y \<Longrightarrow> length x \<le> 4 \<Longrightarrow> crc_word x = crc_word y \<Longrightarrow> x = y"
proof (induction x y rule: list_induct2)
  case (Cons a x b y)
  have low: "take_bit 8 (crc_word (e # z)) = (ucast e :: u32)" for e :: byte and z
    by (rule bit_word_eqI) (auto simp: bit_simps dest: bit_imp_le_length)
  have high: "drop_bit 8 (crc_word (e # z)) = crc_word z" if "length z \<le> 3" for e z
    using that by (intro bit_word_eqI) (auto simp: bit_simps dest: bit_imp_le_length crc_word_bound)
  have "(ucast a :: u32) = ucast b" using low [of a x] low [of b y] Cons.prems(2) by metis
  then have "a = b" by (auto simp: bit_eq_iff bit_simps dest: bit_imp_le_length)
  moreover have "length x \<le> 3" "length y \<le> 3" using Cons.prems Cons.hyps by simp_all
  then have "crc_word x = crc_word y" using high [of x a] high [of y b] Cons.prems(2) by metis
  ultimately show ?case using Cons by simp
qed simp


section \<open>Properties\<close>

text \<open>Property C18. The software routine and the routine over the CRC instruction compute the bit-serial CRC-32 of
  the reflected polynomial \<open>0xEDB88320\<close>, so it does not matter which one \<open>crc32_init\<close> selects, and the
  CRC of data in two parts is the CRC of the second part started with that of the first. The instruction is
  assumed to do what its documentation says: fold one byte into the register.\<close>

theorem crc32_equals_reference:
  assumes "\<And>c b. crc32b c b = (crc_step ^^ 8) (c XOR ucast b)"
  shows "crc32_sw prev (Some bs) = crc32_reference prev bs \<and>
    crc32_init (Some crc32b) prev (Some bs) = crc32_reference prev bs \<and>
    crc32_sw (crc32_sw prev (Some as)) (Some bs) = crc32_sw prev (Some (as @ bs))"
proof -
  have "crc32_armv8a_loop crc32b c bs = crc_bits c bs" for c
    by (induction bs arbitrary: c) (simp_all add: assms)
  then show ?thesis
    by (simp add: crc32_init_def crc32_sw_def crc32_armv8a_def crc32_reference_def crc32_sw_loop_bits crc_bits_append)
qed

theorem crc32_equals_reference_witness:
  "crc32_init (Some (\<lambda>c b. (crc_step ^^ 8) (c XOR ucast b))) 0 (Some [0x31, 0x32]) = crc32_sw 0 (Some [0x31, 0x32])"
  using crc32_equals_reference [of "\<lambda>c b. (crc_step ^^ 8) (c XOR ucast b)" 0 "[0x31, 0x32]"]
  by (simp add: crc32_init_def)

text \<open>Property C17. A corruption of the data that is confined to at most four consecutive bytes always changes the
  CRC, wherever it is and whatever the bytes become.\<close>

theorem crc32_detects_burst:
  assumes "length x = length y" and "length x \<le> 4" and "x \<noteq> y"
  shows "crc32_sw prev (Some (before @ x @ after)) \<noteq> crc32_sw prev (Some (before @ y @ after))"
proof
  assume "crc32_sw prev (Some (before @ x @ after)) = crc32_sw prev (Some (before @ y @ after))"
  then have "crc_bits (crc_bits (NOT prev) (before @ x)) after = crc_bits (crc_bits (NOT prev) (before @ y)) after"
    by (simp add: crc32_sw_def crc32_sw_loop_bits crc_bits_append)
  then have "crc_bits (crc_bits (NOT prev) before) x = crc_bits (crc_bits (NOT prev) before) y"
    using crc_bits_inj by (fastforce simp: crc_bits_append)
  then have "crc_word x XOR crc_bits (NOT prev) before = crc_word y XOR crc_bits (NOT prev) before"
    using assms(1,2) crc_steps_inj [of "8 * length y"] by (simp add: crc_bits_word xor.commute)
  then have "crc_word x = crc_word y" by (rule xor_right_cancel)
  then show False using crc_word_inj [OF assms(1,2)] assms(3) by blast
qed

theorem crc32_detects_burst_witness:
  "crc32_sw 0 (Some [1, 2, 3]) \<noteq> crc32_sw 0 (Some [1, 7, 3])"
  using crc32_detects_burst [of "[2]" "[7]" 0 "[1]" "[3]"] by simp

end
