(* ===== verification/MetadataManager.thy ===== *)
theory MetadataManager
  imports MetadataFormat Crc32
begin

text \<open>
  The metadata manager (\<open>metadata_manager.c\<close>): it keeps a cached copy of the metadata, loads it from the
  primary or the backup volume, repairs the copy that is damaged and stores an update, primary first.
  The CRC routine selected at start, the volume functions, the volume index and what \<open>malloc\<close> returns (\<open>None\<close>
  is NULL) are arguments.
\<close>

section \<open>Operations\<close>

type_synonym crc_routine = "u32 \<Rightarrow> bytes option \<Rightarrow> u32"

record ('v, 'w) metadata_manager =
  mm_primary_metadata_volume :: "'v option"
  mm_backup_metadata_volume :: "'v option"
  mm_serializer :: "'w metadata_serializer"
  mm_is_dirty :: bool
  mm_is_valid :: bool
  mm_stored_crc :: u32
  mm_metadata_len :: size_t
  mm_metadata_max_len :: size_t
  mm_metadata_cache :: "bytes option"

text \<open>The CRC of the data behind the CRC field, and the field.\<close>

definition calc_crc :: "crc_routine \<Rightarrow> bytes \<Rightarrow> size_t \<Rightarrow> u32 option" where
  "calc_crc crc32 buf len = map_option (\<lambda>d. crc32 0 (Some d)) (mem_read buf 4 (sub64 len 4))"

definition crc_field :: "bytes \<Rightarrow> u32 option" where
  "crc_field buf = map_option word_of_nat (get_field buf 0 4)"

definition load_and_check_metadata ::
  "crc_routine \<Rightarrow> ('v, 'w) volume_funcs \<Rightarrow> 'v \<Rightarrow> bytes \<Rightarrow> size_t \<Rightarrow> 'w \<Rightarrow> (fwu_status \<times> bytes \<times> 'w) option" where
  "load_and_check_metadata crc32 vf volume buf expected_len w = do {
     (status, w) \<leftarrow> volume_open vf volume w;
     if status = 0
     then do {
       (status, buf, len, w) \<leftarrow> volume_read vf volume buf expected_len w;
       status \<leftarrow> (if status = 0
         then do {
           calc \<leftarrow> calc_crc crc32 buf expected_len;
           expected \<leftarrow> crc_field buf;
           Some (if calc = expected then FWU_STATUS_SUCCESS else FWU_STATUS_UNKNOWN)
         }
         else Some status);
       (_, w) \<leftarrow> volume_close vf volume w;
       Some (status, buf, w)
     }
     else Some (status, buf, w)
   }"

definition store_metadata ::
  "('v, 'w) volume_funcs \<Rightarrow> 'v \<Rightarrow> bytes \<Rightarrow> size_t \<Rightarrow> 'w \<Rightarrow> (fwu_status \<times> 'w) option" where
  "store_metadata vf volume data data_len w = do {
     (status, w) \<leftarrow> volume_open vf volume w;
     if status = 0
     then do {
       (status, w) \<leftarrow> volume_erase vf volume w;
       (status, w) \<leftarrow> (if status = 0
         then do {
           (status, written_len, w) \<leftarrow> volume_write vf volume data data_len w;
           Some (status, w)
         }
         else Some (status, w));
       (_, w) \<leftarrow> volume_close vf volume w;
       Some (status, w)
     }
     else Some (status, w)
   }"

definition metadata_manager_init ::
  "'v volume_index \<Rightarrow> (size_t \<Rightarrow> bytes option) \<Rightarrow> 'w metadata_serializer \<Rightarrow> fwu_status \<times> ('v, 'w) metadata_manager" where
  "metadata_manager_init idx malloc serializer =
     (let cache = malloc (ms_max_size serializer)
      in (if cache \<noteq> None then FWU_STATUS_SUCCESS else FWU_STATUS_UNKNOWN,
          \<lparr>mm_primary_metadata_volume = snd (volume_index_find idx BANKED_VOLUME_ID_PRIMARY_METADATA),
           mm_backup_metadata_volume = snd (volume_index_find idx BANKED_VOLUME_ID_BACKUP_METADATA),
           mm_serializer = serializer, mm_is_dirty = False, mm_is_valid = False, mm_stored_crc = 0,
           mm_metadata_len = 0, mm_metadata_max_len = ms_max_size serializer, mm_metadata_cache = cache\<rparr>))"

definition metadata_manager_deinit :: "('v, 'w) metadata_manager \<Rightarrow> ('v, 'w) metadata_manager" where
  "metadata_manager_deinit mm = mm\<lparr>mm_metadata_cache := None\<rparr>"

text \<open>The three parts of \<open>metadata_manager_check_and_repair\<close> after its early returns: loading the primary copy,
  checking or loading the backup copy, and repairing. A status of a volume that is not there stays \<open>FWU_STATUS_UNKNOWN\<close>.\<close>

definition load_primary ::
  "crc_routine \<Rightarrow> ('v, 'w) volume_funcs \<Rightarrow> ('v, 'w) metadata_manager \<Rightarrow> 'w \<Rightarrow>
    (fwu_status \<times> ('v, 'w) metadata_manager \<times> 'w) option" where
  "load_primary crc32 vf mm w =
     (case mm_primary_metadata_volume mm of
        None \<Rightarrow> Some (FWU_STATUS_UNKNOWN, mm, w)
      | Some volume \<Rightarrow> do {
          cache \<leftarrow> mm_metadata_cache mm;
          (status, cache, w) \<leftarrow> load_and_check_metadata crc32 vf volume cache (mm_metadata_len mm) w;
          Some (status, mm\<lparr>mm_metadata_cache := Some cache, mm_is_valid := (status = FWU_STATUS_SUCCESS)\<rparr>, w)
        })"

definition check_or_load_backup ::
  "crc_routine \<Rightarrow> ('v, 'w) volume_funcs \<Rightarrow> (size_t \<Rightarrow> bytes option) \<Rightarrow> ('v, 'w) metadata_manager \<Rightarrow> 'w \<Rightarrow>
    (fwu_status \<times> ('v, 'w) metadata_manager \<times> 'w) option" where
  "check_or_load_backup crc32 vf malloc mm w =
     (case mm_backup_metadata_volume mm of
        None \<Rightarrow> Some (FWU_STATUS_UNKNOWN, mm, w)
      | Some volume \<Rightarrow> do {
          cache \<leftarrow> mm_metadata_cache mm;
          if mm_is_valid mm
          then
            (case malloc (mm_metadata_len mm) of
               None \<Rightarrow> Some (FWU_STATUS_UNKNOWN, mm, w)
             | Some backup_buf \<Rightarrow> do {
                 (status, backup_buf, w) \<leftarrow> load_and_check_metadata crc32 vf volume backup_buf (mm_metadata_len mm) w;
                 status \<leftarrow> (if status = FWU_STATUS_SUCCESS
                   then do {
                     backup_crc \<leftarrow> crc_field backup_buf;
                     cache_crc \<leftarrow> crc_field cache;
                     Some (if backup_crc \<noteq> cache_crc then FWU_STATUS_UNKNOWN else status)
                   }
                   else Some status);
                 Some (status, mm, w)
               })
          else do {
            (status, cache, w) \<leftarrow> load_and_check_metadata crc32 vf volume cache (mm_metadata_len mm) w;
            Some (status, mm\<lparr>mm_metadata_cache := Some cache, mm_is_valid := (status = FWU_STATUS_SUCCESS)\<rparr>, w)
          }
        })"

definition repair_copy ::
  "('v, 'w) volume_funcs \<Rightarrow> fwu_status \<Rightarrow> 'v option \<Rightarrow> bytes \<Rightarrow> size_t \<Rightarrow> 'w \<Rightarrow> 'w option" where
  "repair_copy vf status volume cache len w =
     (case volume of
        Some v \<Rightarrow> if status \<noteq> FWU_STATUS_SUCCESS then map_option snd (store_metadata vf v cache len w) else Some w
      | None \<Rightarrow> Some w)"

definition metadata_manager_check_and_repair ::
  "crc_routine \<Rightarrow> ('v, 'w) volume_funcs \<Rightarrow> (size_t \<Rightarrow> bytes option) \<Rightarrow> ('v, 'w) metadata_manager \<Rightarrow> fw_directory \<Rightarrow> 'w \<Rightarrow>
    (fwu_status \<times> ('v, 'w) metadata_manager \<times> 'w) option" where
  "metadata_manager_check_and_repair crc32 vf malloc mm fw_dir w =
     (if mm_is_valid mm then Some (FWU_STATUS_SUCCESS, mm, w)
      else if mm_primary_metadata_volume mm = None \<and> mm_backup_metadata_volume mm = None
      then Some (FWU_STATUS_UNKNOWN, mm, w)
      else do {
        let mm = mm\<lparr>mm_metadata_len := ms_size (mm_serializer mm) fw_dir\<rparr>;
        (primary_status, mm, w) \<leftarrow> load_primary crc32 vf mm w;
        (backup_status, mm, w) \<leftarrow> check_or_load_backup crc32 vf malloc mm w;
        if mm_is_valid mm
        then do {
          cache \<leftarrow> mm_metadata_cache mm;
          w \<leftarrow> repair_copy vf primary_status (mm_primary_metadata_volume mm) cache (mm_metadata_len mm) w;
          w \<leftarrow> repair_copy vf backup_status (mm_backup_metadata_volume mm) cache (mm_metadata_len mm) w;
          crc \<leftarrow> crc_field cache;
          Some (FWU_STATUS_SUCCESS, mm\<lparr>mm_stored_crc := crc\<rparr>, w)
        }
        else Some (FWU_STATUS_UNKNOWN, mm, w)
      })"

definition store_copy ::
  "('v, 'w) volume_funcs \<Rightarrow> 'v option \<Rightarrow> bytes \<Rightarrow> size_t \<Rightarrow> 'w \<Rightarrow> (fwu_status \<times> 'w) option" where
  "store_copy vf volume cache len w =
     (case volume of Some v \<Rightarrow> store_metadata vf v cache len w | None \<Rightarrow> Some (FWU_STATUS_SUCCESS, w))"

definition metadata_manager_update ::
  "crc_routine \<Rightarrow> ('v, 'w) volume_funcs \<Rightarrow> ('v, 'w) metadata_manager \<Rightarrow> u32 \<Rightarrow> u32 \<Rightarrow> fw_directory \<Rightarrow> bank_tracker \<Rightarrow> 'w \<Rightarrow>
    (fwu_status \<times> ('v, 'w) metadata_manager \<times> 'w) option" where
  "metadata_manager_update crc32 vf mm active_index previous_active_index fw_dir bt w = do {
     cache \<leftarrow> mm_metadata_cache mm;
     (_, cache, len, w) \<leftarrow> ms_serialize (mm_serializer mm) active_index previous_active_index fw_dir bt cache
       (mm_metadata_max_len mm) w;
     calc \<leftarrow> calc_crc crc32 cache len;
     cache \<leftarrow> put_field cache 0 4 (unat calc);
     let was_valid = mm_is_valid mm;
     let mm = mm\<lparr>mm_metadata_len := len, mm_metadata_cache := Some cache, mm_is_valid := True, mm_is_dirty := True\<rparr>;
     if was_valid \<and> mm_stored_crc mm = calc then Some (FWU_STATUS_SUCCESS, mm, w)
     else do {
       (primary_status, w) \<leftarrow> store_copy vf (mm_primary_metadata_volume mm) cache len w;
       (backup_status, w) \<leftarrow> store_copy vf (mm_backup_metadata_volume mm) cache len w;
       Some (if primary_status \<noteq> FWU_STATUS_SUCCESS then primary_status
             else if backup_status \<noteq> FWU_STATUS_SUCCESS then backup_status else FWU_STATUS_SUCCESS,
             if primary_status = FWU_STATUS_SUCCESS \<and> backup_status = FWU_STATUS_SUCCESS
             then mm\<lparr>mm_stored_crc := calc\<rparr> else mm,
             w)
     }
   }"

definition metadata_manager_fetch ::
  "('v, 'w) metadata_manager \<Rightarrow> fwu_status \<times> (bytes option \<times> size_t \<times> bool) option \<times> ('v, 'w) metadata_manager" where
  "metadata_manager_fetch mm =
     (if mm_is_valid mm
      then (FWU_STATUS_SUCCESS, Some (mm_metadata_cache mm, mm_metadata_len mm, mm_is_dirty mm), mm\<lparr>mm_is_dirty := False\<rparr>)
      else (FWU_STATUS_UNKNOWN, None, mm))"

text \<open>Outer \<open>None\<close> is a failed assertion or an access outside the cache.\<close>

definition metadata_manager_get_active_indices ::
  "('v, 'w) metadata_manager \<Rightarrow> (fwu_status \<times> (u32 \<times> u32) option) option" where
  "metadata_manager_get_active_indices mm =
     (if mm_is_valid mm
      then do {
        cache \<leftarrow> mm_metadata_cache mm;
        indices \<leftarrow> ms_deserialize_active_indices (mm_serializer mm) cache (mm_metadata_len mm);
        Some (FWU_STATUS_SUCCESS, Some indices)
      }
      else Some (FWU_STATUS_UNKNOWN, None))"

definition metadata_manager_cache_invalidate :: "('v, 'w) metadata_manager \<Rightarrow> ('v, 'w) metadata_manager" where
  "metadata_manager_cache_invalidate mm = mm\<lparr>mm_is_valid := False\<rparr>"

definition metadata_manager_preload_bank_tracker ::
  "('v, 'w) metadata_manager \<Rightarrow> bank_tracker \<Rightarrow> bank_tracker option" where
  "metadata_manager_preload_bank_tracker mm bt = do {
     cache \<leftarrow> mm_metadata_cache mm;
     ms_deserialize_bank_info (mm_serializer mm) bt cache (mm_metadata_len mm)
   }"

end
