(* ===== verification/MetadataStorage.thy ===== *)
theory MetadataStorage
  imports MetadataManager
begin

text \<open>
  The two copies of the metadata. Loading a copy gives what the volume holds exactly when
  its CRC fits; storing replaces one copy and leaves every other volume alone; an update stores
  the primary before the backup; the check at the next start finds the copy that is whole and repairs the other.
\<close>

section \<open>One copy\<close>

definition crc_valid :: "crc_routine \<Rightarrow> size_t \<Rightarrow> bytes \<Rightarrow> bool" where
  "crc_valid crc32 len m \<longleftrightarrow> crc32 0 (Some (slice m 4 (len - 4))) = word_of_nat (le_val (slice m 0 4))"

lemma calc_crc_eq: "4 \<le> len \<Longrightarrow> len \<le> length buf \<Longrightarrow> len < 2 ^ 64 \<Longrightarrow> calc_crc crc32 buf len = Some (crc32 0 (Some (slice buf 4 (len - 4))))"
  by (simp add: calc_crc_def sub64_exact mem_read_in)

lemma crc_field_eq: "4 \<le> length buf \<Longrightarrow> crc_field buf = Some (word_of_nat (le_val (slice buf 0 4)))"
  by (simp add: crc_field_def get_field_in)

lemma crc_valid_take:
  assumes "4 \<le> len" and "take len m = take len m'" and "len \<le> length m" and "len \<le> length m'"
  shows "crc_valid crc32 len m = crc_valid crc32 len m'" and "slice m 0 4 = slice m' 0 4" and "slice m 4 (len - 4) = slice m' 4 (len - 4)"
proof -
  have part: "slice x off k = slice (take len x) off k" if "off + k \<le> len" for off k and x :: bytes
    using that by (simp add: slice_def drop_take min_def)
  show a: "slice m 0 4 = slice m' 0 4"
    using part [of 0 4 m] part [of 0 4 m'] assms(1,2) by simp
  show b: "slice m 4 (len - 4) = slice m' 4 (len - 4)"
    using part [of 4 "len - 4" m] part [of 4 "len - 4" m'] assms(1,2) by simp
  show "crc_valid crc32 len m = crc_valid crc32 len m'" by (simp add: crc_valid_def a b)
qed

lemma take_splice_start: "n \<le> length d \<Longrightarrow> k \<le> n \<Longrightarrow> take k (splice m 0 (take n d)) = take k d"
  by (simp add: splice_def min_def)

lemma only_volume_stored:
  assumes "only_volume stored pos v w w'" and "stored w' v = stored w v"
  shows "stored w' = stored w"
  using assms by (auto simp: only_volume_def fun_eq_iff)

context volume_files
begin

lemma load_returns:
  assumes "wok w" and "4 \<le> len" and "len \<le> length buf" and "len < 2 ^ 64"
  shows "\<exists>st buf' w'. load_and_check_metadata crc32 vf v buf len w = Some (st, buf', w') \<and> wok w' \<and> stored w' = stored w
    \<and> length buf' = length buf
    \<and> (st = FWU_STATUS_SUCCESS \<longrightarrow> crc_valid crc32 len buf'
         \<and> (len \<le> length (stored w v) \<longrightarrow> take len buf' = take len (stored w v)))"
proof -
  obtain s1 w1 where 1: "volume_open vf v w = Some (s1, w1)" "wok w1" "only_volume stored pos v w w1"
    "stored w1 v = stored w v" "s1 = 0 \<longrightarrow> pos w1 v = Some 0"
    using opens [OF assms(1)] by blast
  have st1: "stored w1 = stored w" by (rule only_volume_stored [OF 1(3,4)])
  show ?thesis
  proof (cases "s1 = 0")
    case False
    then show ?thesis using 1(1,2) st1 by (simp add: load_and_check_metadata_def)
  next
    case True
    then have "pos w1 v = Some 0" using 1(5) by simp
    from reads [OF 1(2) this assms(3,4)] obtain s2 b2 k w2 where 2: "volume_read vf v buf len w1 = Some (s2, b2, k, w2)"
      "wok w2" "only_volume stored pos v w1 w2" "stored w2 v = stored w1 v" "length b2 = length buf"
      "s2 = 0 \<longrightarrow> k = min len (length (stored w1 v) - 0) \<and> b2 = splice buf 0 (slice (stored w1 v) 0 k) \<and> pos w2 v = Some (0 + k)"
      by blast
    obtain s3 w3 where 3: "volume_close vf v w2 = Some (s3, w3)" "wok w3" "only_volume stored pos v w2 w3"
      "stored w3 v = stored w2 v"
      using closes [OF 2(2)] by blast
    have st: "stored w3 = stored w"
      using only_volume_stored [OF 3(3,4)] only_volume_stored [OF 2(3,4)] st1 by simp
    have "take len b2 = take len (stored w v)" if "s2 = 0" "len \<le> length (stored w v)"
      using 2(6) that st1 by (simp add: splice_def slice_def min_def)
    then show ?thesis
      using True 1(1) 2(1,5) 3(1,2) st assms(2-4)
      by (simp add: load_and_check_metadata_def calc_crc_eq crc_field_eq crc_valid_def)
  qed
qed

lemma store_returns:
  assumes "wok w" and "len \<le> length data" and "len < 2 ^ 64"
  shows "\<exists>st w'. store_metadata vf v data len w = Some (st, w') \<and> wok w'
    \<and> (\<forall>u. u \<noteq> v \<longrightarrow> stored w' u = stored w u) \<and> length (stored w' v) = length (stored w v)
    \<and> (st = FWU_STATUS_SUCCESS \<longrightarrow> len \<le> length (stored w v) \<longrightarrow> take len (stored w' v) = take len data)"
proof -
  obtain s1 w1 where 1: "volume_open vf v w = Some (s1, w1)" "wok w1" "only_volume stored pos v w w1"
    "stored w1 v = stored w v" "s1 = 0 \<longrightarrow> pos w1 v = Some 0"
    using opens [OF assms(1)] by blast
  show ?thesis
  proof (cases "s1 = 0")
    case False
    then show ?thesis using 1 by (simp add: store_metadata_def only_volume_def)
  next
    case True
    then have "pos w1 v = Some 0" using 1(5) by simp
    from erases [OF 1(2) this] obtain s2 w2 where 2: "volume_erase vf v w1 = Some (s2, w2)" "wok w2"
      "only_volume stored pos v w1 w2" "pos w2 v = Some 0" by blast
    have v2: "only_volume stored pos v w w2" by (rule only_volume_trans [OF 1(3) 2(3)])
    obtain s3 k w3 where 3: "volume_write vf v data len w2 = Some (s3, k, w3)" "wok w3" "only_volume stored pos v w2 w3"
      "s3 = 0 \<longrightarrow> k = min len (length (stored w2 v) - 0) \<and> stored w3 v = splice (stored w2 v) 0 (take k data)
         \<and> pos w3 v = Some (0 + k)"
      using writes [OF 2(2,4) assms(2,3)] by blast
    have v3: "only_volume stored pos v w w3" by (rule only_volume_trans [OF v2 3(3)])
    define s4 w4 where "s4 = (if s2 = 0 then s3 else s2)" and "w4 = (if s2 = 0 then w3 else w2)"
    then have w4: "wok w4" "only_volume stored pos v w w4" using 2(2) 3(2) v2 v3 by simp_all
    obtain s5 w5 where 5: "volume_close vf v w4 = Some (s5, w5)" "wok w5" "only_volume stored pos v w4 w5"
      "stored w5 v = stored w4 v"
      using closes [OF w4(1)] by blast
    have "store_metadata vf v data len w = Some (s4, w5)"
      using True 1(1) 2(1) 3(1) 5(1) by (auto simp: store_metadata_def s4_def w4_def)
    moreover have "only_volume stored pos v w w5" by (rule only_volume_trans [OF w4(2) 5(3)])
    moreover have "take len (stored w5 v) = take len data" if "s4 = 0" "len \<le> length (stored w v)"
    proof -
      have s: "s2 = 0" "s3 = 0" using that(1) by (simp_all add: s4_def split: if_splits)
      moreover have "length (stored w2 v) = length (stored w v)" using v2 by (simp add: only_volume_def)
      ultimately show ?thesis
        using 3(4) 5(4) that(2) take_splice_start [of len data len "stored w2 v"] assms(2) by (simp add: w4_def)
    qed
    ultimately show ?thesis using 5(2) by (auto simp: only_volume_def)
  qed
qed

end

context working_volumes
begin

lemma load_works:
  assumes "wok w" and "4 \<le> len" and "len \<le> length buf" and "len < 2 ^ 64" and "len \<le> length (stored w v)"
  shows "\<exists>buf' w'. load_and_check_metadata crc32 vf v buf len w
      = Some (if crc_valid crc32 len (stored w v) then FWU_STATUS_SUCCESS else FWU_STATUS_UNKNOWN, buf', w')
    \<and> wok w' \<and> stored w' = stored w \<and> length buf' = length buf \<and> take len buf' = take len (stored w v)"
proof -
  obtain s1 w1 where 1: "volume_open vf v w = Some (s1, w1)" "wok w1" "only_volume stored pos v w w1"
    "stored w1 v = stored w v" "s1 = 0 \<longrightarrow> pos w1 v = Some 0"
    using opens [OF assms(1)] by blast
  have s1: "s1 = 0" by (rule open_works [OF assms(1) 1(1)])
  have st1: "stored w1 = stored w" by (rule only_volume_stored [OF 1(3,4)])
  have p1: "pos w1 v = Some 0" using 1(5) s1 by simp
  from reads [OF 1(2) p1 assms(3,4)] obtain s2 b2 k w2 where 2: "volume_read vf v buf len w1 = Some (s2, b2, k, w2)"
    "wok w2" "only_volume stored pos v w1 w2" "stored w2 v = stored w1 v" "length b2 = length buf"
    "s2 = 0 \<longrightarrow> k = min len (length (stored w1 v) - 0) \<and> b2 = splice buf 0 (slice (stored w1 v) 0 k) \<and> pos w2 v = Some (0 + k)"
    by blast
  have s2: "s2 = 0" by (rule read_works [OF 1(2) p1 assms(3,4) 2(1)])
  obtain s3 w3 where 3: "volume_close vf v w2 = Some (s3, w3)" "wok w3" "only_volume stored pos v w2 w3"
    "stored w3 v = stored w2 v"
    using closes [OF 2(2)] by blast
  have st: "stored w3 = stored w"
    using only_volume_stored [OF 3(3,4)] only_volume_stored [OF 2(3,4)] st1 by simp
  have t: "take len b2 = take len (stored w v)"
    using 2(6) s2 assms(5) st1 by (simp add: splice_def slice_def min_def)
  then have "crc_valid crc32 len b2 = crc_valid crc32 len (stored w v)"
    using crc_valid_take(1) [OF assms(2) t] 2(5) assms(3,5) by simp
  then show ?thesis
    using s1 s2 1(1) 2(1,5) 3(1,2) st t assms(2-4)
    by (simp add: load_and_check_metadata_def calc_crc_eq crc_field_eq crc_valid_def)
qed

lemma store_works:
  assumes "wok w" and "len \<le> length data" and "len < 2 ^ 64"
  shows "\<exists>w'. store_metadata vf v data len w = Some (FWU_STATUS_SUCCESS, w')"
proof -
  obtain w1 where 1: "volume_open vf v w = Some (0, w1)" "wok w1" "pos w1 v = Some 0"
    using opens [OF assms(1)] open_works [OF assms(1)] by blast
  obtain w2 where 2: "volume_erase vf v w1 = Some (0, w2)" "wok w2" "pos w2 v = Some 0"
    using erases [OF 1(2,3)] erase_works [OF 1(2,3)] by blast
  obtain k w3 where 3: "volume_write vf v data len w2 = Some (0, k, w3)" "wok w3"
    using writes [OF 2(2,3) assms(2,3)] write_works [OF 2(2,3) assms(2,3)] by blast
  obtain s w4 where 4: "volume_close vf v w3 = Some (s, w4)" using closes [OF 3(2)] by blast
  show ?thesis using 1 2 3 4 by (simp add: store_metadata_def)
qed

lemma repair_copy_works:
  assumes "wok w" and "len \<le> length data" and "len < 2 ^ 64" and "len \<le> length (stored w v)"
  shows "\<exists>w'. repair_copy vf st (Some v) data len w = Some w' \<and> wok w'
    \<and> (\<forall>u. u \<noteq> v \<longrightarrow> stored w' u = stored w u) \<and> length (stored w' v) = length (stored w v)
    \<and> (if st = FWU_STATUS_SUCCESS then stored w' v = stored w v else take len (stored w' v) = take len data)"
  using store_works [OF assms(1-3), of v] store_returns [OF assms(1-3), of v] assms(1,4)
  by (auto simp: repair_copy_def)

end


section \<open>Check and repair\<close>

definition manager_ready :: "'w metadata_serializer \<Rightarrow> 'v \<Rightarrow> 'v \<Rightarrow> ('v, 'w) metadata_manager \<Rightarrow> bool" where
  "manager_ready ms p b mm \<longleftrightarrow>
     mm_serializer mm = ms \<and> mm_metadata_max_len mm = ms_max_size ms
     \<and> mm_primary_metadata_volume mm = Some p \<and> mm_backup_metadata_volume mm = Some b \<and> p \<noteq> b
     \<and> (case mm_metadata_cache mm of Some c \<Rightarrow> length c = ms_max_size ms | None \<Rightarrow> False)"

text \<open>The manager holds the metadata \<open>img\<close>.\<close>

definition manager_holds :: "('v, 'w) metadata_manager \<Rightarrow> bytes \<Rightarrow> bool" where
  "manager_holds mm img \<longleftrightarrow>
     mm_is_valid mm \<and> mm_metadata_len mm = length img
     \<and> (case mm_metadata_cache mm of Some c \<Rightarrow> take (length img) c = img | None \<Rightarrow> False)"

definition malloc_ok :: "(size_t \<Rightarrow> bytes option) \<Rightarrow> bool" where
  "malloc_ok malloc \<longleftrightarrow> (\<forall>n m. malloc n = Some m \<longrightarrow> length m = n)"

context working_volumes
begin

lemma load_primary_works:
  assumes "wok w" and "manager_ready ms p b mm" and "mm_metadata_len mm = len" and "4 \<le> len" and "len \<le> ms_max_size ms"
    and "ms_max_size ms < 2 ^ 64" and "len \<le> length (stored w p)"
  shows "\<exists>c mm' w'. load_primary crc32 vf mm w
      = Some (if crc_valid crc32 len (stored w p) then FWU_STATUS_SUCCESS else FWU_STATUS_UNKNOWN, mm', w')
    \<and> wok w' \<and> stored w' = stored w \<and> manager_ready ms p b mm' \<and> mm_metadata_len mm' = len
    \<and> mm_is_valid mm' = crc_valid crc32 len (stored w p)
    \<and> mm_metadata_cache mm' = Some c \<and> take len c = take len (stored w p)"
proof -
  obtain c where c: "mm_metadata_cache mm = Some c" "length c = ms_max_size ms" "mm_primary_metadata_volume mm = Some p"
    using assms(2) by (auto simp: manager_ready_def split: option.splits)
  have "len \<le> length c" "len < 2 ^ 64" using c(2) assms(5,6) by simp_all
  from load_works [OF assms(1,4) this assms(7), of crc32]
  obtain c' w' where l: "load_and_check_metadata crc32 vf p c len w
      = Some (if crc_valid crc32 len (stored w p) then FWU_STATUS_SUCCESS else FWU_STATUS_UNKNOWN, c', w')"
    "wok w'" "stored w' = stored w" "length c' = length c" "take len c' = take len (stored w p)" by blast
  show ?thesis
    using l(1) c assms(2,3) by (simp add: load_primary_def l(2-5) manager_ready_def)
qed

lemma check_or_load_backup_works:
  assumes "wok w" and "manager_ready ms p b mm" and "mm_metadata_len mm = len" and "4 \<le> len" and "len \<le> ms_max_size ms"
    and "ms_max_size ms < 2 ^ 64" and "len \<le> length (stored w b)" and "malloc_ok malloc" and "mm_metadata_cache mm = Some c"
  shows "\<exists>st c' mm' w'. check_or_load_backup crc32 vf malloc mm w = Some (st, mm', w')
    \<and> wok w' \<and> stored w' = stored w \<and> manager_ready ms p b mm' \<and> mm_metadata_len mm' = len
    \<and> mm_is_valid mm' = (mm_is_valid mm \<or> crc_valid crc32 len (stored w b)) \<and> mm_metadata_cache mm' = Some c'
    \<and> (if mm_is_valid mm then c' = c \<and> (st = FWU_STATUS_SUCCESS \<longrightarrow> crc_valid crc32 len (stored w b)
           \<and> (word_of_nat (le_val (slice (stored w b) 0 4)) :: u32) = word_of_nat (le_val (slice c 0 4)))
       else take len c' = take len (stored w b) \<and> (st = FWU_STATUS_SUCCESS \<longleftrightarrow> crc_valid crc32 len (stored w b)))"
proof -
  have c: "length c = ms_max_size ms" "mm_backup_metadata_volume mm = Some b"
    using assms(2,9) by (auto simp: manager_ready_def)
  have lc: "len \<le> length c" and l64: "len < 2 ^ 64" using c(1) assms(5,6) by simp_all
  let ?s = "if crc_valid crc32 len (stored w b) then FWU_STATUS_SUCCESS else FWU_STATUS_UNKNOWN"
  show ?thesis
  proof (cases "mm_is_valid mm")
    case True
    show ?thesis
    proof (cases "malloc len")
      case None
      then show ?thesis using True assms(1-3,9) c by (simp add: check_or_load_backup_def)
    next
      case (Some bb)
      then have lb: "len \<le> length bb" using assms(8) by (auto simp: malloc_ok_def)
      from load_works [OF assms(1,4) lb l64 assms(7), of crc32]
      obtain b' w' where l: "load_and_check_metadata crc32 vf b bb len w = Some (?s, b', w')"
        "wok w'" "stored w' = stored w" "length b' = length bb" "take len b' = take len (stored w b)" by blast
      have "slice b' 0 4 = slice (stored w b) 0 4"
        using crc_valid_take(2) [OF assms(4) l(5)] l(4) lb assms(7) by simp
      moreover have "4 \<le> length b'" "4 \<le> length c" using l(4) lb lc assms(4) by simp_all
      ultimately show ?thesis
        using True Some l(1-3) c assms(2,3,9) by (auto simp: check_or_load_backup_def crc_field_eq)
    qed
  next
    case False
    from load_works [OF assms(1,4) lc l64 assms(7), of crc32]
    obtain c' w' where l: "load_and_check_metadata crc32 vf b c len w = Some (?s, c', w')"
      "wok w'" "stored w' = stored w" "length c' = length c" "take len c' = take len (stored w b)" by blast
    show ?thesis
      using False l c assms(2,3,9) by (simp add: check_or_load_backup_def manager_ready_def)
  qed
qed

text \<open>The copy that is used: the primary one when it is valid. Afterwards both volumes hold it, except that a
  valid backup with the same CRC is not looked at any further.\<close>

lemma check_and_repair_works:
  fixes crc32 :: crc_routine
  assumes "wok w" and "manager_ready ms p b mm" and "\<not> mm_is_valid mm" and "len = ms_size ms dir" and "4 \<le> len"
    and "len \<le> ms_max_size ms" and "ms_max_size ms < 2 ^ 64" and "len \<le> length (stored w p)"
    and "len \<le> length (stored w b)" and "malloc_ok malloc"
  defines "P \<equiv> crc_valid crc32 len (stored w p)" and "B \<equiv> crc_valid crc32 len (stored w b)"
  defines "img \<equiv> take len (stored w (if P then p else b))"
  shows "\<exists>mm' w'. metadata_manager_check_and_repair crc32 vf malloc mm dir w
      = Some (if P \<or> B then FWU_STATUS_SUCCESS else FWU_STATUS_UNKNOWN, mm', w')
    \<and> wok w' \<and> manager_ready ms p b mm' \<and> (\<forall>u. u \<noteq> p \<and> u \<noteq> b \<longrightarrow> stored w' u = stored w u)
    \<and> (P \<or> B \<longrightarrow> manager_holds mm' img \<and> take len (stored w' p) = img
         \<and> mm_stored_crc mm' = word_of_nat (le_val (slice img 0 4))
         \<and> (take len (stored w' b) = img \<or> P \<and> B \<and> stored w' b = stored w b
              \<and> (word_of_nat (le_val (slice (stored w b) 0 4)) :: u32) = word_of_nat (le_val (slice (stored w p) 0 4))))
    \<and> (\<not> P \<and> \<not> B \<longrightarrow> stored w' = stored w)"
proof -
  let ?m0 = "mm\<lparr>mm_metadata_len := len\<rparr>"
  have r0: "manager_ready ms p b ?m0" using assms(2) by (simp add: manager_ready_def)
  have pb: "p \<noteq> b" and vols: "mm_primary_metadata_volume mm = Some p" "mm_serializer mm = ms"
    using assms(2) by (auto simp: manager_ready_def)
  have "mm_metadata_len ?m0 = len" by simp
  from load_primary_works [OF assms(1) r0 this assms(5-8), of crc32]
  obtain c1 m1 w1 where 1: "load_primary crc32 vf ?m0 w = Some (if P then FWU_STATUS_SUCCESS else FWU_STATUS_UNKNOWN, m1, w1)"
    "wok w1" "stored w1 = stored w" "manager_ready ms p b m1" "mm_metadata_len m1 = len" "mm_is_valid m1 = P"
    "mm_metadata_cache m1 = Some c1" "take len c1 = take len (stored w p)"
    unfolding P_def by blast
  have lb: "len \<le> length (stored w1 b)" using assms(9) 1(3) by simp
  from check_or_load_backup_works [OF 1(2,4,5) assms(5-7) lb assms(10) 1(7), of crc32]
  obtain st c2 m2 w2 where 2: "check_or_load_backup crc32 vf malloc m1 w1 = Some (st, m2, w2)"
    "wok w2" "stored w2 = stored w" "manager_ready ms p b m2" "mm_metadata_len m2 = len" "mm_is_valid m2 = (P \<or> B)"
    "mm_metadata_cache m2 = Some c2"
    "if P then c2 = c1 \<and> (st = FWU_STATUS_SUCCESS \<longrightarrow> B
         \<and> (word_of_nat (le_val (slice (stored w b) 0 4)) :: u32) = word_of_nat (le_val (slice c1 0 4)))
     else take len c2 = take len (stored w b) \<and> (st = FWU_STATUS_SUCCESS \<longleftrightarrow> B)"
    unfolding 1(3,6) B_def by blast
  have c2: "take len c2 = img" using 1(8) 2(8) by (auto simp: img_def)
  have l2: "length c2 = ms_max_size ms" using 2(4,7) by (simp add: manager_ready_def)
  have vol2: "mm_primary_metadata_volume m2 = Some p" "mm_backup_metadata_volume m2 = Some b"
    using 2(4) by (simp_all add: manager_ready_def)
  have len2: "len \<le> length c2" "len < 2 ^ 64" using l2 assms(6,7) by simp_all
  have limg: "length img = len" using c2 len2(1) by auto
  show ?thesis
  proof (cases "P \<or> B")
    case False
    then show ?thesis
      using 1(1) 2(1-4,6) assms(2-4) vols by (simp add: metadata_manager_check_and_repair_def Let_def)
  next
    case True
    let ?sp = "if P then FWU_STATUS_SUCCESS else FWU_STATUS_UNKNOWN"
    have "len \<le> length (stored w2 p)" using 2(3) assms(8) by simp
    from repair_copy_works [OF 2(2) len2 this, of ?sp]
    obtain w3 where 3: "repair_copy vf ?sp (Some p) c2 len w2 = Some w3" "wok w3" "\<forall>u. u \<noteq> p \<longrightarrow> stored w3 u = stored w2 u"
      "if ?sp = FWU_STATUS_SUCCESS then stored w3 p = stored w2 p else take len (stored w3 p) = take len c2" by blast
    have "len \<le> length (stored w3 b)" using 3(3) pb 2(3) assms(9) by auto
    from repair_copy_works [OF 3(2) len2 this, of st]
    obtain w4 where 4: "repair_copy vf st (Some b) c2 len w3 = Some w4" "wok w4" "\<forall>u. u \<noteq> b \<longrightarrow> stored w4 u = stored w3 u"
      "if st = FWU_STATUS_SUCCESS then stored w4 b = stored w3 b else take len (stored w4 b) = take len c2" by blast
    have first: "take len (stored w4 p) = img"
      using 4(3) 3(4) 2(3) c2 pb by (cases P) (auto simp: img_def)
    have crcp: "slice c1 0 4 = slice (stored w p) 0 4" if "P"
      using crc_valid_take(2) [OF assms(5) 1(8)] len2(1) 2(8) that assms(8) by simp
    have second: "take len (stored w4 b) = img \<or> P \<and> B \<and> stored w4 b = stored w b
        \<and> (word_of_nat (le_val (slice (stored w b) 0 4)) :: u32) = word_of_nat (le_val (slice (stored w p) 0 4))"
    proof (cases "st = FWU_STATUS_SUCCESS")
      case stored: True
      then have "stored w4 b = stored w b" using 4(4) 3(3) 2(3) pb by auto
      then show ?thesis using stored 2(8) crcp by (cases P) (auto simp: img_def)
    next
      case False
      then show ?thesis using 4(4) c2 by simp
    qed
    have "crc_field c2 = Some (word_of_nat (le_val (slice img 0 4)))"
      using crc_field_eq [of c2] len2(1) assms(5) c2 by (simp add: slice_def min_def flip: c2)
    then have "metadata_manager_check_and_repair crc32 vf malloc mm dir w
        = Some (FWU_STATUS_SUCCESS, m2\<lparr>mm_stored_crc := word_of_nat (le_val (slice img 0 4))\<rparr>, w4)"
      using 1(1) 2(1,5-7) 3(1) 4(1) vol2 vols True assms(2-4)
      by (simp add: metadata_manager_check_and_repair_def Let_def)
    moreover have "manager_holds (m2\<lparr>mm_stored_crc := word_of_nat (le_val (slice img 0 4))\<rparr>) img"
      using 2(5-7) True c2 limg by (simp add: manager_holds_def)
    ultimately show ?thesis
      using 4(2,3) 3(3) 2(3,4) first second True by (auto simp: manager_ready_def)
  qed
qed

end



section \<open>Update\<close>

lemma manager_holds_unique: "manager_holds mm a \<Longrightarrow> manager_holds mm b \<Longrightarrow> a = b"
  by (auto simp: manager_holds_def split: option.splits)

lemma crc_field_inj:
  assumes "(word_of_nat (le_val x) :: u32) = word_of_nat (le_val y)" and "length x = 4" and "length y = 4"
  shows "x = y"
proof -
  have "le_val x < 2 ^ 32" "le_val y < 2 ^ 32" using le_val_bound [of x] le_val_bound [of y] assms(2,3) by simp_all
  then have "le_val x = le_val y"
    using arg_cong [OF assms(1), of unat] by (simp add: unat_of_nat take_bit_nat_eq_self)
  then show ?thesis using le_bytes_le_val [of x] le_bytes_le_val [of y] assms(2,3) by metis
qed

locale metadata_files = volume_files vf wok stored pos +
  format: metadata_format ms wok "\<lambda>w w'. stored w' = stored w \<and> pos w' = pos w" for vf wok stored pos ms
begin

text \<open>What an update puts into the cache, and the two stores that follow. The cache is filled whether or not the copies can be
  stored.\<close>

lemma update_unfold:
  fixes crc32 :: crc_routine
  assumes "wok w" and "manager_ready ms p b mm" and "fd_num_images dir \<le> FWU_MAX_FW_DIRECTORY_ENTRIES" and "bank_tracker_ok bt"
  defines "n \<equiv> ms_size ms dir"
  obtains c mm1 w1 where "wok w1" and "stored w1 = stored w" and "n \<le> length c" and "n < 2 ^ 64"
    and "crc_valid crc32 n (take n c)"
    and "\<forall>m. n \<le> length m \<and> take n m = take n c \<longrightarrow> read_back ms m ai pi dir bt"
    and "\<And>x. manager_ready ms p b (mm1\<lparr>mm_stored_crc := x\<rparr>) \<and> manager_holds (mm1\<lparr>mm_stored_crc := x\<rparr>) (take n c)"
    and "mm_stored_crc mm1 = mm_stored_crc mm"
    and "metadata_manager_update crc32 vf mm ai pi dir bt w =
      (let crc = word_of_nat (le_val (slice (take n c) 0 4)) in
       if mm_is_valid mm \<and> mm_stored_crc mm = crc then Some (FWU_STATUS_SUCCESS, mm1, w1)
       else do {
         (primary_status, w) \<leftarrow> store_copy vf (Some p) c n w1;
         (backup_status, w) \<leftarrow> store_copy vf (Some b) c n w;
         Some (if primary_status \<noteq> FWU_STATUS_SUCCESS then primary_status
               else if backup_status \<noteq> FWU_STATUS_SUCCESS then backup_status else FWU_STATUS_SUCCESS,
               if primary_status = FWU_STATUS_SUCCESS \<and> backup_status = FWU_STATUS_SUCCESS
               then mm1\<lparr>mm_stored_crc := crc\<rparr> else mm1,
               w)
       })"
proof -
  obtain c where c: "mm_metadata_cache mm = Some c" "length c = ms_max_size ms"
    using assms(2) by (auto simp: manager_ready_def split: option.splits)
  have mm: "mm_serializer mm = ms" "mm_metadata_max_len mm = ms_max_size ms" "mm_primary_metadata_volume mm = Some p"
    "mm_backup_metadata_volume mm = Some b" "p \<noteq> b"
    using assms(2) by (simp_all add: manager_ready_def)
  obtain c1 w1 where s: "ms_serialize ms ai pi dir bt c (ms_max_size ms) w = Some (FWU_STATUS_SUCCESS, c1, n, w1)"
    "wok w1" "stored w1 = stored w" "length c1 = length c" "\<forall>m. same_tail n c1 m \<longrightarrow> read_back ms m ai pi dir bt"
    using format.serializes [OF assms(1,3,4) c(2), of ai pi] unfolding n_def by blast
  have n: "16 \<le> n" "n \<le> length c1" "n < 2 ^ 64"
    using format.size_bounds [OF assms(3)] format.max_size_small c(2) s(4) by (auto simp: n_def)
  define crc where "crc = crc32 0 (Some (slice c1 4 (n - 4)))"
  have calc: "calc_crc crc32 c1 n = Some crc" using calc_crc_eq [of n c1 crc32] n by (simp add: crc_def)
  obtain c2 where p2: "put_field c1 0 4 (unat crc) = Some c2" "unchanged 0 4 c1 c2" "get_field c2 0 4 = Some (unat crc)"
    using put_field_returns [of 0 4 c1 "unat crc"] n unat_u32_less [of crc] by auto
  have l2: "length c2 = length c1" by (rule unchanged_length [OF p2(2)])
  have tail: "slice c2 4 (n - 4) = slice c1 4 (n - 4)" by (rule unchanged_slice [OF p2(2)]) (use n in auto)
  have img: "slice (take n c2) 0 4 = slice c2 0 4" "slice (take n c2) 4 (n - 4) = slice c2 4 (n - 4)"
    using n l2 crc_valid_take(2,3) [of n "take n c2" c2] by simp_all
  have f0: "le_val (slice c2 0 4) = unat crc" using p2(3) l2 n by (simp add: get_field_in)
  have valid: "crc_valid crc32 n (take n c2)" using f0 img tail by (simp add: crc_valid_def crc_def)
  have reads: "read_back ms m ai pi dir bt" if "n \<le> length m" "take n m = take n c2" for m
  proof -
    have "slice m 4 (n - 4) = slice c2 4 (n - 4)" using crc_valid_take(3) [of n m c2] that n l2 by simp
    then show ?thesis using s(5) that(1) n tail by (simp add: same_tail_def)
  qed
  define mm1 where "mm1 = mm\<lparr>mm_metadata_len := n, mm_metadata_cache := Some c2, mm_is_valid := True, mm_is_dirty := True\<rparr>"
  have good: "manager_ready ms p b (mm1\<lparr>mm_stored_crc := x\<rparr>) \<and> manager_holds (mm1\<lparr>mm_stored_crc := x\<rparr>) (take n c2)" for x
    using mm c(2) s(4) l2 n(2) by (simp add: mm1_def manager_holds_def manager_ready_def)
  show ?thesis
  proof (rule that [of w1 c2 mm1])
    show "metadata_manager_update crc32 vf mm ai pi dir bt w =
      (let crc = word_of_nat (le_val (slice (take n c2) 0 4)) in
       if mm_is_valid mm \<and> mm_stored_crc mm = crc then Some (FWU_STATUS_SUCCESS, mm1, w1)
       else do {
         (primary_status, w) \<leftarrow> store_copy vf (Some p) c2 n w1;
         (backup_status, w) \<leftarrow> store_copy vf (Some b) c2 n w;
         Some (if primary_status \<noteq> FWU_STATUS_SUCCESS then primary_status
               else if backup_status \<noteq> FWU_STATUS_SUCCESS then backup_status else FWU_STATUS_SUCCESS,
               if primary_status = FWU_STATUS_SUCCESS \<and> backup_status = FWU_STATUS_SUCCESS
               then mm1\<lparr>mm_stored_crc := crc\<rparr> else mm1,
               w)
       })"
      unfolding mm1_def using c(1) mm(1-4) s(1) calc p2(1) f0 img(1) by (simp add: metadata_manager_update_def Let_def)
  qed (use s(2,3) n(2,3) l2 valid reads good mm1_def in auto)
qed

end

locale metadata_storage = working_volumes vf wok stored pos + metadata_files vf wok stored pos ms for vf wok stored pos ms
begin

lemma store_both_works:
  assumes "wok w" and "p \<noteq> b" and "len \<le> length c" and "len < 2 ^ 64" and "len \<le> length (stored w p)"
    and "len \<le> length (stored w b)"
  shows "\<exists>w1 w2. store_copy vf (Some p) c len w = Some (FWU_STATUS_SUCCESS, w1) \<and> wok w1
    \<and> store_copy vf (Some b) c len w1 = Some (FWU_STATUS_SUCCESS, w2) \<and> wok w2
    \<and> take len (stored w2 p) = take len c \<and> take len (stored w2 b) = take len c
    \<and> (\<forall>u. u \<noteq> p \<and> u \<noteq> b \<longrightarrow> stored w2 u = stored w u)
    \<and> length (stored w2 p) = length (stored w p) \<and> length (stored w2 b) = length (stored w b)"
proof -
  obtain w1 where 1: "store_metadata vf p c len w = Some (FWU_STATUS_SUCCESS, w1)" "wok w1"
    "\<forall>u. u \<noteq> p \<longrightarrow> stored w1 u = stored w u" "length (stored w1 p) = length (stored w p)"
    "take len (stored w1 p) = take len c"
    using store_works [OF assms(1,3,4), of p] store_returns [OF assms(1,3,4), of p] assms(5) by auto
  have b1: "stored w1 b = stored w b" using 1(3) assms(2) by auto
  obtain w2 where 2: "store_metadata vf b c len w1 = Some (FWU_STATUS_SUCCESS, w2)" "wok w2"
    "\<forall>u. u \<noteq> b \<longrightarrow> stored w2 u = stored w1 u" "length (stored w2 b) = length (stored w1 b)"
    "take len (stored w2 b) = take len c"
    using store_works [OF 1(2) assms(3,4), of b] store_returns [OF 1(2) assms(3,4), of b] assms(6) b1 by auto
  show ?thesis using 1 2 b1 assms(2) by (auto simp: store_copy_def)
qed

text \<open>An update that is not interrupted.\<close>

lemma update_works:
  fixes crc32 :: crc_routine
  assumes "wok w" and "manager_ready ms p b mm" and "fd_num_images dir \<le> FWU_MAX_FW_DIRECTORY_ENTRIES" and "bank_tracker_ok bt"
    and "ms_size ms dir \<le> length (stored w p)" and "ms_size ms dir \<le> length (stored w b)"
  shows "\<exists>img mm' w'. metadata_manager_update crc32 vf mm ai pi dir bt w = Some (FWU_STATUS_SUCCESS, mm', w')
    \<and> wok w' \<and> manager_ready ms p b mm' \<and> manager_holds mm' img \<and> length img = ms_size ms dir
    \<and> crc_valid crc32 (ms_size ms dir) img
    \<and> mm_stored_crc mm' = word_of_nat (le_val (slice img 0 4))
    \<and> (\<forall>u. u \<noteq> p \<and> u \<noteq> b \<longrightarrow> stored w' u = stored w u)
    \<and> (if mm_is_valid mm \<and> mm_stored_crc mm = word_of_nat (le_val (slice img 0 4)) then stored w' = stored w
       else take (ms_size ms dir) (stored w' p) = img \<and> take (ms_size ms dir) (stored w' b) = img)"
proof -
  let ?n = "ms_size ms dir"
  obtain c mm1 w1 where u: "wok w1" "stored w1 = stored w" "?n \<le> length c" "?n < 2 ^ 64" "crc_valid crc32 ?n (take ?n c)"
    "\<And>x. manager_ready ms p b (mm1\<lparr>mm_stored_crc := x\<rparr>) \<and> manager_holds (mm1\<lparr>mm_stored_crc := x\<rparr>) (take ?n c)"
    "mm_stored_crc mm1 = mm_stored_crc mm"
    "metadata_manager_update crc32 vf mm ai pi dir bt w =
      (let crc = word_of_nat (le_val (slice (take ?n c) 0 4)) in
       if mm_is_valid mm \<and> mm_stored_crc mm = crc then Some (FWU_STATUS_SUCCESS, mm1, w1)
       else do {
         (primary_status, w) \<leftarrow> store_copy vf (Some p) c ?n w1;
         (backup_status, w) \<leftarrow> store_copy vf (Some b) c ?n w;
         Some (if primary_status \<noteq> FWU_STATUS_SUCCESS then primary_status
               else if backup_status \<noteq> FWU_STATUS_SUCCESS then backup_status else FWU_STATUS_SUCCESS,
               if primary_status = FWU_STATUS_SUCCESS \<and> backup_status = FWU_STATUS_SUCCESS
               then mm1\<lparr>mm_stored_crc := crc\<rparr> else mm1,
               w)
       })"
    by (rule update_unfold [OF assms(1-4), of crc32 ai pi]) blast
  define img crc where "img = take ?n c" and "crc = (word_of_nat (le_val (slice img 0 4)) :: u32)"
  have pb: "p \<noteq> b" using assms(2) by (simp add: manager_ready_def)
  have room: "?n \<le> length (stored w1 p)" "?n \<le> length (stored w1 b)" using assms(5,6) u(2) by simp_all
  obtain w2 w3 where st: "store_copy vf (Some p) c ?n w1 = Some (FWU_STATUS_SUCCESS, w2)"
    "store_copy vf (Some b) c ?n w2 = Some (FWU_STATUS_SUCCESS, w3)" "wok w3"
    "take ?n (stored w3 p) = img" "take ?n (stored w3 b) = img" "\<forall>u. u \<noteq> p \<and> u \<noteq> b \<longrightarrow> stored w3 u = stored w u"
    using store_both_works [OF u(1) pb u(3,4) room] u(2) by (auto simp: img_def)
  have up: "metadata_manager_update crc32 vf mm ai pi dir bt w =
      (if mm_is_valid mm \<and> mm_stored_crc mm = crc then Some (FWU_STATUS_SUCCESS, mm1, w1)
       else Some (FWU_STATUS_SUCCESS, mm1\<lparr>mm_stored_crc := crc\<rparr>, w3))"
    using u(8) st(1,2) by (simp add: crc_def img_def Let_def)
  have good: "manager_ready ms p b (mm1\<lparr>mm_stored_crc := x\<rparr>)" "manager_holds (mm1\<lparr>mm_stored_crc := x\<rparr>) img" for x
    using u(6) by (simp_all add: img_def)
  have len: "length img = ?n" "crc_valid crc32 ?n img" using u(3,5) by (simp_all add: img_def)
  show ?thesis
  proof (cases "mm_is_valid mm \<and> mm_stored_crc mm = crc")
    case True
    then have same: "mm1\<lparr>mm_stored_crc := crc\<rparr> = mm1" "mm_stored_crc mm1 = crc" using u(7) by simp_all
    show ?thesis
      by (intro exI [of _ img] exI [of _ mm1] exI [of _ w1])
        (use up True good [of crc, unfolded same] same(2) len u(1,2) in \<open>simp add: crc_def\<close>)
  next
    case False
    show ?thesis
      by (intro exI [of _ img] exI [of _ "mm1\<lparr>mm_stored_crc := crc\<rparr>"] exI [of _ w3])
        (use up False good [of crc] len st(3-6) in \<open>auto simp: crc_def\<close>)
  qed
qed

text \<open>The start after an update that may have been interrupted: the backup still holds the old metadata or the primary already
  holds the new, and a copy with a fitting CRC is one of the two versions.\<close>

lemma recovers:
  fixes crc32 :: crc_routine
  assumes "wok w" and "manager_ready ms p b mm" and "\<not> mm_is_valid mm" and "malloc_ok malloc"
    and "fd_num_images dir \<le> FWU_MAX_FW_DIRECTORY_ENTRIES"
    and "length old = ms_size ms dir" and "crc_valid crc32 (ms_size ms dir) old"
    and "length new = ms_size ms dir" and "crc_valid crc32 (ms_size ms dir) new"
    and "\<forall>m. ms_size ms dir \<le> length m \<and> take (ms_size ms dir) m = new \<longrightarrow> read_back ms m ai pi dir bt"
    and long: "ms_size ms dir \<le> length (stored w p)" "ms_size ms dir \<le> length (stored w b)"
    and cut: "take (ms_size ms dir) (stored w b) = old \<or> take (ms_size ms dir) (stored w p) = new"
    and torn: "\<forall>v \<in> {p, b}. crc_valid crc32 (ms_size ms dir) (stored w v) \<longrightarrow> take (ms_size ms dir) (stored w v) \<in> {old, new}"
  shows "\<exists>img mm' w'. metadata_manager_check_and_repair crc32 vf malloc mm dir w = Some (FWU_STATUS_SUCCESS, mm', w')
    \<and> img \<in> {old, new} \<and> manager_holds mm' img
    \<and> take (ms_size ms dir) (stored w' p) = img
    \<and> (take (ms_size ms dir) (stored w' b) = img \<or> slice old 0 4 = slice new 0 4)
    \<and> (take (ms_size ms dir) (stored w p) = new \<longrightarrow> img = new)
    \<and> (img = new \<longrightarrow> metadata_manager_get_active_indices mm' = Some (FWU_STATUS_SUCCESS, Some (ai, pi)))"
proof -
  let ?n = "ms_size ms dir"
  have n: "4 \<le> ?n" "?n \<le> ms_max_size ms" "ms_max_size ms < 2 ^ 64"
    using format.size_bounds [OF assms(5)] format.max_size_small by auto
  let ?P = "crc_valid crc32 ?n (stored w p)" and ?B = "crc_valid crc32 ?n (stored w b)"
  have same: "crc_valid crc32 ?n (stored w v) = crc_valid crc32 ?n m" "slice (stored w v) 0 4 = slice m 0 4"
    if "take ?n (stored w v) = m" "length m = ?n" "?n \<le> length (stored w v)" for v m
    using crc_valid_take(1) [OF n(1), of "stored w v" m crc32] crc_valid_take(2) [OF n(1), of "stored w v" m] that by simp_all
  have PB: "?P \<or> ?B" using cut same long assms(6-9) by metis
  define img where "img = take ?n (stored w (if ?P then p else b))"
  obtain mm' w' where r: "metadata_manager_check_and_repair crc32 vf malloc mm dir w = Some (FWU_STATUS_SUCCESS, mm', w')"
    "manager_ready ms p b mm'" "manager_holds mm' img" "take ?n (stored w' p) = img"
    "take ?n (stored w' b) = img \<or> ?P \<and> ?B \<and> stored w' b = stored w b
       \<and> (word_of_nat (le_val (slice (stored w b) 0 4)) :: u32) = word_of_nat (le_val (slice (stored w p) 0 4))"
    using check_and_repair_works [OF assms(1-3) refl n long assms(4), of crc32] PB unfolding img_def by auto
  have in_set: "img \<in> {old, new}" using torn PB by (auto simp: img_def)
  have first: "take ?n (stored w p) = new \<longrightarrow> img = new" using same(1) [of p new] assms(8,9) long by (simp add: img_def)
  have "take ?n (stored w' b) = img \<or> slice old 0 4 = slice new 0 4" if eq: "?P" "?B" "stored w' b = stored w b"
    "(word_of_nat (le_val (slice (stored w b) 0 4)) :: u32) = word_of_nat (le_val (slice (stored w p) 0 4))"
  proof -
    have "slice (stored w b) 0 4 = slice (stored w p) 0 4"
      by (rule crc_field_inj [OF eq(4)]) (use long n(1) in simp_all)
    moreover have "take ?n (stored w b) \<in> {old, new}" "take ?n (stored w p) \<in> {old, new}" using torn eq(1,2) by auto
    ultimately have "take ?n (stored w b) = take ?n (stored w p) \<or> slice old 0 4 = slice new 0 4"
      using same(2) long assms(6,8) by (metis insert_iff singletonD)
    then show ?thesis using eq(1,3) by (simp add: img_def)
  qed
  then have second: "take ?n (stored w' b) = img \<or> slice old 0 4 = slice new 0 4" using r(5) by blast
  have "metadata_manager_get_active_indices mm' = Some (FWU_STATUS_SUCCESS, Some (ai, pi))" if is_new: "img = new"
  proof -
    obtain c where c: "mm_metadata_cache mm' = Some c" "take ?n c = new" "mm_metadata_len mm' = ?n" "mm_is_valid mm'"
      "length c = ms_max_size ms" "mm_serializer mm' = ms"
      using r(2) r(3) [unfolded is_new] assms(8) by (auto simp: manager_holds_def manager_ready_def split: option.splits)
    then have "read_back ms c ai pi dir bt" using assms(10) n(2) by simp
    then show ?thesis using c by (simp add: metadata_manager_get_active_indices_def read_back_def)
  qed
  with r(1,3,4) in_set first second show ?thesis by blast
qed

end

interpretation ram_metadata_v1: metadata_storage block_volume_funcs "ram_volumes_ok admitted_device" ram_volume_data
  "ram_volume_pos admitted_device" "metadata_serializer_v1 block_volume_funcs idx" for idx
  by unfold_locales

interpretation ram_metadata_v2: metadata_storage block_volume_funcs "ram_volumes_ok admitted_device" ram_volume_data
  "ram_volume_pos admitted_device" "metadata_serializer_v2 block_volume_funcs idx" for idx
  by unfold_locales


text \<open>A manager before its first check, with volume 0 as the primary and volume 2 as the backup.\<close>

definition sample_manager :: "'w metadata_serializer \<Rightarrow> (nat, 'w) metadata_manager" where
  "sample_manager ms =
     \<lparr>mm_primary_metadata_volume = Some 0, mm_backup_metadata_volume = Some 2, mm_serializer = ms, mm_is_dirty = False,
      mm_is_valid = False, mm_stored_crc = 0, mm_metadata_len = 0, mm_metadata_max_len = ms_max_size ms,
      mm_metadata_cache = Some (replicate (ms_max_size ms) 0)\<rparr>"

lemma sample_manager_ready [simp]: "manager_ready ms 0 2 (sample_manager ms)" "\<not> mm_is_valid (sample_manager ms)"
  by (simp_all add: manager_ready_def sample_manager_def)

end
