(* ===== verification/PowerFailure.thy ===== *)
theory PowerFailure
  imports MetadataStorage
begin

text \<open>
  An update of the metadata that loses its power. The volume functions are wrapped so that the power fails during one of
  the calls: the volume that was being erased or written is left with arbitrary contents, and from then on no call
  has an effect. The routines of the metadata manager run unchanged over the wrapped functions, and what they leave on
  the volumes is what the next start, over the working functions, finds.
\<close>


section \<open>Losing power\<close>

text \<open>The number of calls that are still completed before the one during which the power fails.\<close>

datatype power = On nat | Off

definition powered ::
  "'r \<Rightarrow> ('w \<Rightarrow> 'w) \<Rightarrow> ('w \<Rightarrow> ('r \<times> 'w) option) \<Rightarrow> 'w \<times> power \<Rightarrow> ('r \<times> 'w \<times> power) option" where
  "powered dead torn f s =
     (case snd s of
        Off \<Rightarrow> Some (dead, fst s, Off)
      | On 0 \<Rightarrow> Some (dead, torn (fst s), Off)
      | On (Suc n) \<Rightarrow> do { (r, w) \<leftarrow> f (fst s); Some (r, w, On n) })"

text \<open>A result of three parts.\<close>

definition powered3 ::
  "'q \<Rightarrow> 'r \<Rightarrow> ('w \<Rightarrow> 'w) \<Rightarrow> ('w \<Rightarrow> ('q \<times> 'r \<times> 'w) option) \<Rightarrow> 'w \<times> power \<Rightarrow> ('q \<times> 'r \<times> 'w \<times> power) option" where
  "powered3 dead r torn f s = do {
     ((st, r), s) \<leftarrow> powered (dead, r) torn (\<lambda>w. do { (st, r, w) \<leftarrow> f w; Some ((st, r), w) }) s;
     Some (st, r, s)
   }"

text \<open>\<open>tear v\<close> is what the failure does to a volume that is being erased or written. Asking for the size changes nothing
  and is not counted.\<close>

definition powered_funcs :: "('v, 'w) volume_funcs \<Rightarrow> ('v \<Rightarrow> 'w \<Rightarrow> 'w) \<Rightarrow> ('v, 'w \<times> power) volume_funcs" where
  "powered_funcs vf tear =
     \<lparr>vf_open = (\<lambda>v. powered (- EIO) id (vf_open vf v)),
      vf_close = (\<lambda>v. powered (- EIO) id (vf_close vf v)),
      vf_seek = (\<lambda>v m off. powered (- EIO) id (vf_seek vf v m off)),
      vf_size = (\<lambda>v s. if snd s = Off then Some (- EIO, 0, s)
        else do { (st, n, w) \<leftarrow> vf_size vf v (fst s); Some (st, n, w, snd s) }),
      vf_read = (\<lambda>v buf n s. do {
        (st, (b, k), s) \<leftarrow> powered3 (- EIO) (buf, 0) id
          (\<lambda>w. do { (st, b, k, w) \<leftarrow> vf_read vf v buf n w; Some (st, (b, k), w) }) s;
        Some (st, b, k, s) }),
      vf_write = (\<lambda>v buf n. powered3 (- EIO) 0 (tear v) (vf_write vf v buf n)),
      vf_erase = (\<lambda>v. map_option (powered (- EIO) (tear v)) (vf_erase vf v)),
      vf_get_storage_ids = (\<lambda>v. map_option (powered3 (- EIO) None id) (vf_get_storage_ids vf v))\<rparr>"

lemma powered_simps [simp]:
  "powered dead torn f (w, Off) = Some (dead, w, Off)"
  "powered dead torn f (w, On 0) = Some (dead, torn w, Off)"
  "powered dead torn f (w, On (Suc n)) = do { (r, w) \<leftarrow> f w; Some (r, w, On n) }"
  "powered3 dead r torn f' (w, Off) = Some (dead, r, w, Off)"
  "powered3 dead r torn f' (w, On 0) = Some (dead, r, torn w, Off)"
  "powered3 dead r torn f' (w, On (Suc n)) = do { (st, r, w) \<leftarrow> f' w; Some (st, r, w, On n) }"
  by (simp_all add: powered_def powered3_def split: bind_splits)

text \<open>A call that returns with the power on is a call of the wrapped function.\<close>

lemma powered_on:
  "powered dead torn f (w, q) = Some (r, w', q') \<Longrightarrow> q' \<noteq> Off \<Longrightarrow> q \<noteq> Off \<and> f w = Some (r, w')"
  "powered3 dead r3 torn f' (w, q) = Some (st, k, w', q') \<Longrightarrow> q' \<noteq> Off \<Longrightarrow> q \<noteq> Off \<and> f' w = Some (st, k, w')"
  by (cases q; cases "case q of On n \<Rightarrow> n | Off \<Rightarrow> 0"; auto split: bind_splits)+

text \<open>A call that returns with the power off has failed: the power was off before, or went during the call.\<close>

lemma powered_off:
  "powered dead torn f (w, q) = Some (r, w', Off) \<Longrightarrow> r = dead \<and> (q = Off \<and> w' = w \<or> q \<noteq> Off \<and> w' = torn w)"
  "powered3 dead r3 torn f' (w, q) = Some (st, k, w', Off) \<Longrightarrow> st = dead \<and> (q = Off \<and> w' = w \<or> q \<noteq> Off \<and> w' = torn w)"
  by (cases q; cases "case q of On n \<Rightarrow> n | Off \<Rightarrow> 0"; auto split: bind_splits)+

lemmas powered_calls = volume_open_def volume_close_def volume_size_def volume_read_def volume_write_def
  volume_erase_def volume_get_storage_ids_def powered_funcs_def

lemma power_cases:
  obtains "q = Off" | "q = On 0" | n where "q = On (Suc n)"
  by (metis power.exhaust old.nat.exhaust)

text \<open>The power stays on through a store only if the store is completed, and with the power off nothing is stored.\<close>

lemma store_metadata_off: "store_metadata (powered_funcs vf tear) v data len (w, Off) = Some (- EIO, w, Off)"
  by (simp add: store_metadata_def powered_calls)

lemma volume_erase_on:
  assumes "volume_erase (powered_funcs vf tear) v (w, q) = Some (st, w', q')" and "q' \<noteq> Off"
  shows "q \<noteq> Off \<and> volume_erase vf v w = Some (st, w')"
  using assms powered_on(1) by (fastforce simp: powered_calls split: option.splits)

lemma store_metadata_on:
  assumes "store_metadata (powered_funcs vf tear) v data len (w, q) = Some (st, w', q')" and "q' \<noteq> Off"
  shows "store_metadata vf v data len w = Some (st, w')"
proof -
  let ?vf = "powered_funcs vf tear"
  have on: "\<And>v w q st w' q'. volume_open ?vf v (w, q) = Some (st, w', q') \<Longrightarrow> q' \<noteq> Off \<Longrightarrow> q \<noteq> Off \<and> volume_open vf v w = Some (st, w')"
    "\<And>v w q st w' q'. volume_close ?vf v (w, q) = Some (st, w', q') \<Longrightarrow> q' \<noteq> Off \<Longrightarrow> q \<noteq> Off \<and> volume_close vf v w = Some (st, w')"
    "\<And>v b n w q st k w' q'. volume_write ?vf v b n (w, q) = Some (st, k, w', q') \<Longrightarrow> q' \<noteq> Off \<Longrightarrow>
      q \<noteq> Off \<and> volume_write vf v b n w = Some (st, k, w')"
    using powered_on by (simp_all add: powered_calls)
  obtain s1 w1 q1 where 1: "volume_open ?vf v (w, q) = Some (s1, w1, q1)"
    using assms(1) by (auto simp: store_metadata_def split: bind_splits)
  show ?thesis
  proof (cases "s1 = 0")
    case False
    then show ?thesis using assms 1 on(1) [OF 1] by (simp add: store_metadata_def)
  next
    case True
    obtain s2 w2 q2 where 2: "volume_erase ?vf v (w1, q1) = Some (s2, w2, q2)"
      using assms(1) 1 True by (auto simp: store_metadata_def split: bind_splits)
    show ?thesis
    proof (cases "s2 = 0")
      case False
      then obtain s4 where 4: "volume_close ?vf v (w2, q2) = Some (s4, w', q')" "st = s2"
        using assms(1) 1 2 True by (auto simp: store_metadata_def split: bind_splits)
      note c = on(2) [OF 4(1) assms(2)]
      note e = volume_erase_on [OF 2 c [THEN conjunct1]]
      show ?thesis using True False 4(2) c e on(1) [OF 1 e [THEN conjunct1]] by (simp add: store_metadata_def)
    next
      case wrote: True
      obtain s3 k w3 q3 s4 where 3: "volume_write ?vf v data len (w2, q2) = Some (s3, k, w3, q3)"
        and 4: "volume_close ?vf v (w3, q3) = Some (s4, w', q')" "st = s3"
        using assms(1) 1 2 True wrote by (auto simp: store_metadata_def split: bind_splits)
      note c = on(2) [OF 4(1) assms(2)]
      note wr = on(3) [OF 3 c [THEN conjunct1]]
      note e = volume_erase_on [OF 2 wr [THEN conjunct1]]
      show ?thesis using True wrote 4(2) c wr e on(1) [OF 1 e [THEN conjunct1]] by (simp add: store_metadata_def)
    qed
  qed
qed


section \<open>Volumes that may be torn\<close>

locale torn_volumes = working_volumes vf wok stored pos for vf :: "('v, 'w) volume_funcs" and wok stored pos +
  fixes tear :: "'v \<Rightarrow> 'w \<Rightarrow> 'w"
  assumes tears: "wok w \<Longrightarrow> wok (tear v w) \<and> only_volume stored pos v w (tear v w) \<and> pos (tear v w) v = pos w v"

text \<open>The contents a volume may be left with.\<close>

definition torn_contents ::
  "('w \<Rightarrow> bool) \<Rightarrow> ('w \<Rightarrow> 'v \<Rightarrow> bytes) \<Rightarrow> ('v \<Rightarrow> 'w \<Rightarrow> 'w) \<Rightarrow> 'v \<Rightarrow> bytes set" where
  "torn_contents wok stored tear v = {stored (tear v w) v | w. wok w}"

text \<open>Whatever happens, the wrapped volumes are files: a call that fails may damage its own volume and no other.\<close>

sublocale torn_volumes \<subseteq> pow: volume_files "powered_funcs vf tear" "\<lambda>s. wok (fst s)" "\<lambda>s. stored (fst s)" "\<lambda>s. pos (fst s)"
proof (unfold_locales, goal_cases)
  case (1 s v)
  then show ?case using opens [of "fst s" v]
    by (cases s; cases "snd s" rule: power_cases) (auto simp: powered_calls only_volume_def)
next
  case (2 s v)
  then show ?case using closes [of "fst s" v]
    by (cases s; cases "snd s" rule: power_cases) (auto simp: powered_calls only_volume_def)
next
  case (3 s v p)
  then show ?case using sizes [of "fst s" v p] by (cases s) (auto simp: powered_calls)
next
  case (4 s v p)
  then show ?case using erases [of "fst s" v p] tears [of "fst s" v]
    by (cases s; cases "snd s" rule: power_cases; cases "vf_erase vf v") (auto simp: powered_calls only_volume_def)
next
  case (5 s v p n buf)
  then show ?case using reads [of "fst s" v p n buf]
    by (cases s; cases "snd s" rule: power_cases) (auto simp: powered_calls only_volume_def)
next
  case (6 s v p n buf)
  then show ?case using writes [of "fst s" v p n buf] tears [of "fst s" v]
    by (cases s; cases "snd s" rule: power_cases) (auto simp: powered_calls only_volume_def)
next
  case (7 s n buf v)
  then show ?case using reads_any [of "fst s" n buf v]
    by (cases s; cases "snd s" rule: power_cases) (auto simp: powered_calls only_volume_def)
next
  case (8 s n buf v)
  then show ?case using writes_any [of "fst s" n buf v] tears [of "fst s" v]
    by (cases s; cases "snd s" rule: power_cases) (auto simp: powered_calls only_volume_def)
next
  case (9 s v)
  then show ?case using erases_any [of "fst s" v] tears [of "fst s" v]
    by (cases s; cases "snd s" rule: power_cases; cases "vf_erase vf v") (auto simp: powered_calls only_volume_def)
next
  case (10 s v)
  then show ?case using sizes_any [of "fst s" v] by (cases s) (auto simp: powered_calls)
next
  case (11 s v p)
  then show ?case using bounded by simp
next
  case (12 s v)
  then show ?case using storage_ids [of "fst s" v]
    by (cases s; cases "snd s" rule: power_cases; cases "vf_get_storage_ids vf v") (auto simp: powered_calls)
qed

context torn_volumes
begin

lemma write_outcome:
  assumes "wok w" and "pos w v = Some 0" and "len \<le> length data" and "len < 2 ^ 64" and "len \<le> length (stored w v)" and "q \<noteq> Off"
    and "volume_write (powered_funcs vf tear) v data len (w, q) = Some (st, k, w1, q1)"
    and "volume_close (powered_funcs vf tear) v (w1, q1) = Some (st2, w2, q2)"
  shows "stored w2 v \<in> torn_contents wok stored tear v \<or> take len (stored w2 v) = take len data"
proof -
  obtain st0 k0 s1 where r: "volume_write (powered_funcs vf tear) v data len (w, q) = Some (st0, k0, s1)" "wok (fst s1)"
    using pow.writes_any [of "(w, q)" len data v] assms(1,3,4) by auto
  then have "wok w1" using assms(7) by auto
  then have c: "stored w2 v = stored w1 v" using pow.closes [of "(w1, q1)" v] assms(8) by auto
  show ?thesis
  proof (cases "q1 = Off")
    case True
    then have "w1 = tear v w" using powered_off(2) assms(6,7) by (fastforce simp: powered_calls)
    then show ?thesis using c assms(1) by (auto simp: torn_contents_def)
  next
    case False
    then have "volume_write vf v data len w = Some (st, k, w1)" using powered_on(2) assms(7) by (fastforce simp: powered_calls)
    then have "stored w1 v = splice (stored w v) 0 (take len data)"
      using writes [OF assms(1,2,3,4)] write_works [OF assms(1,2,3,4)] assms(5) by auto
    then show ?thesis using c assms(3,5) by (simp add: splice_def)
  qed
qed

text \<open>A store does nothing, is torn, or is completed.\<close>

lemma store_outcome:
  assumes "wok w" and "len \<le> length data" and "len < 2 ^ 64" and "len \<le> length (stored w v)"
    and "store_metadata (powered_funcs vf tear) v data len (w, q) = Some (st, w', q')"
  shows "stored w' v = stored w v \<or> stored w' v \<in> torn_contents wok stored tear v
    \<or> take len (stored w' v) = take len data"
proof -
  let ?vf = "powered_funcs vf tear"
  obtain s1 w1 q1 where 1: "volume_open ?vf v (w, q) = Some (s1, w1, q1)" "wok w1" "stored w1 v = stored w v"
    "s1 = 0 \<longrightarrow> pos w1 v = Some 0"
    using pow.opens [of "(w, q)" v] assms(1) by auto
  show ?thesis
  proof (cases "s1 = 0")
    case False
    then show ?thesis using 1 assms(5) by (simp add: store_metadata_def)
  next
    case True
    have q1: "q1 \<noteq> Off" using powered_off(1) 1(1) True by (fastforce simp: powered_calls)
    have pos1: "pos w1 v = Some 0" using 1(4) True by simp
    obtain s2 w2 q2 where 2: "volume_erase ?vf v (w1, q1) = Some (s2, w2, q2)" "wok w2" "only_volume stored pos v w1 w2" "pos w2 v = Some 0"
      using pow.erases [of "(w1, q1)" v 0] 1(2) pos1 by (auto simp: only_volume_def)
    show ?thesis
    proof (cases "q2 = Off")
      case off: True
      then have t: "s2 \<noteq> 0" "w2 = tear v w1"
        using powered_off(1) 2(1) q1 by (auto simp: powered_calls split: option.splits dest!: powered_off(1))
      then show ?thesis
        using 1 2(1) True off assms(5) by (auto simp: store_metadata_def powered_calls torn_contents_def)
    next
      case False
      have s2: "s2 = 0" using volume_erase_on [OF 2(1) False] erase_works [OF 1(2) pos1] by blast
      obtain s3 k w3 q3 s4 where 3: "volume_write ?vf v data len (w2, q2) = Some (s3, k, w3, q3)"
        "volume_close ?vf v (w3, q3) = Some (s4, w', q')"
        using assms(5) 1(1) 2(1) True s2 by (auto simp: store_metadata_def split: bind_splits)
      have "len \<le> length (stored w2 v)" using 2(3) 1(3) assms(4) by (simp add: only_volume_def)
      from write_outcome [OF 2(2,4) assms(2,3) this False 3] show ?thesis by blast
    qed
  qed
qed

lemma store_interrupted:
  assumes "wok w" and "len \<le> length data" and "len < 2 ^ 64" and "len \<le> length (stored w v)"
  shows "\<exists>st w' q'. store_copy (powered_funcs vf tear) (Some v) data len (w, q) = Some (st, w', q') \<and> wok w'
    \<and> (\<forall>u. u \<noteq> v \<longrightarrow> stored w' u = stored w u) \<and> length (stored w' v) = length (stored w v)
    \<and> (q' \<noteq> Off \<longrightarrow> q \<noteq> Off \<and> take len (stored w' v) = take len data) \<and> (q = Off \<longrightarrow> w' = w)
    \<and> (stored w' v = stored w v \<or> stored w' v \<in> torn_contents wok stored tear v \<or> take len (stored w' v) = take len data)"
proof -
  obtain st w' q' where r: "store_metadata (powered_funcs vf tear) v data len (w, q) = Some (st, w', q')" "wok w'"
    "\<forall>u. u \<noteq> v \<longrightarrow> stored w' u = stored w u" "length (stored w' v) = length (stored w v)"
    using pow.store_returns [of "(w, q)" len data v] assms(1-3) by auto
  have "take len (stored w' v) = take len data" if "q' \<noteq> Off"
    using store_works [OF assms(1-3), of v] store_returns [OF assms(1-3), of v] store_metadata_on [OF r(1) that] assms(4) by auto
  then show ?thesis
    using r store_metadata_off [of vf tear v data len w] store_outcome [OF assms r(1)] by (cases "q = Off") (auto simp: store_copy_def)
qed

lemma both_interrupted:
  assumes "wok w" and "p \<noteq> b" and "len \<le> length data" and "len < 2 ^ 64"
    and "len \<le> length (stored w p)" and "len \<le> length (stored w b)"
  shows "\<exists>st1 s1 st2 w2 q2. store_copy (powered_funcs vf tear) (Some p) data len (w, q) = Some (st1, s1)
    \<and> store_copy (powered_funcs vf tear) (Some b) data len s1 = Some (st2, w2, q2) \<and> wok w2
    \<and> (\<forall>u. u \<noteq> p \<and> u \<noteq> b \<longrightarrow> stored w2 u = stored w u) \<and> (\<forall>u. length (stored w2 u) = length (stored w u))
    \<and> (stored w2 b = stored w b \<or> take len (stored w2 p) = take len data)
    \<and> (q2 \<noteq> Off \<longrightarrow> take len (stored w2 p) = take len data \<and> take len (stored w2 b) = take len data)
    \<and> (\<forall>v \<in> {p, b}. stored w2 v = stored w v \<or> stored w2 v \<in> torn_contents wok stored tear v
         \<or> take len (stored w2 v) = take len data)"
proof -
  obtain st1 w1 q1 where 1: "store_copy (powered_funcs vf tear) (Some p) data len (w, q) = Some (st1, w1, q1)" "wok w1"
    "\<forall>u. u \<noteq> p \<longrightarrow> stored w1 u = stored w u" "length (stored w1 p) = length (stored w p)"
    "q1 \<noteq> Off \<longrightarrow> take len (stored w1 p) = take len data"
    "stored w1 p = stored w p \<or> stored w1 p \<in> torn_contents wok stored tear p \<or> take len (stored w1 p) = take len data"
    using store_interrupted [OF assms(1,3,4,5)] by blast
  have b1: "len \<le> length (stored w1 b)" using 1(3) assms(2,6) by simp
  obtain st2 w2 q2 where 2: "store_copy (powered_funcs vf tear) (Some b) data len (w1, q1) = Some (st2, w2, q2)" "wok w2"
    "\<forall>u. u \<noteq> b \<longrightarrow> stored w2 u = stored w1 u" "length (stored w2 b) = length (stored w1 b)"
    "q2 \<noteq> Off \<longrightarrow> q1 \<noteq> Off \<and> take len (stored w2 b) = take len data" "q1 = Off \<longrightarrow> w2 = w1"
    "stored w2 b = stored w1 b \<or> stored w2 b \<in> torn_contents wok stored tear b \<or> take len (stored w2 b) = take len data"
    using store_interrupted [OF 1(2) assms(3,4) b1] by blast
  have "length (stored w2 u) = length (stored w u)" for u
    using 1(3,4) 2(3,4) by (cases "u = b"; cases "u = p") auto
  then show ?thesis
    using 1 2 assms(2) by (intro exI [of _ st1] exI [of _ "(w1, q1)"] exI [of _ st2] exI [of _ w2] exI [of _ q2]) auto
qed

end


section \<open>The metadata manager over them\<close>

text \<open>\<open>ms'\<close> is the serializer \<open>ms\<close> over the wrapped functions: it writes the same format.\<close>

locale torn_metadata = torn_volumes vf wok stored pos tear + metadata_storage vf wok stored pos ms
  + pm: metadata_files "powered_funcs vf tear" "\<lambda>s. wok (fst s)" "\<lambda>s. stored (fst s)" "\<lambda>s. pos (fst s)" ms'
  for vf :: "('v, 'w) volume_funcs" and wok stored pos tear ms ms' +
  assumes same_size: "ms_size ms' = ms_size ms"
    and same_reading: "read_back ms' m ai pi dir bt \<Longrightarrow> read_back ms m ai pi dir bt"
begin

text \<open>What the routines of the manager leave on the two volumes when the power fails: the backup is not touched before
  the primary holds the new metadata.\<close>

lemma update_interrupted:
  fixes crc32 :: crc_routine
  assumes "wok w" and "manager_ready ms' p b mm" and "fd_num_images dir \<le> FWU_MAX_FW_DIRECTORY_ENTRIES" and "bank_tracker_ok bt"
    and "ms_size ms dir \<le> length (stored w p)" and "ms_size ms dir \<le> length (stored w b)"
  shows "\<exists>st mm1 new w' q'. metadata_manager_update crc32 (powered_funcs vf tear) mm ai pi dir bt (w, q) = Some (st, mm1, w', q')
    \<and> wok w' \<and> manager_holds mm1 new \<and> length new = ms_size ms dir \<and> crc_valid crc32 (ms_size ms dir) new
    \<and> (\<forall>m. ms_size ms dir \<le> length m \<and> take (ms_size ms dir) m = new \<longrightarrow> read_back ms m ai pi dir bt)
    \<and> (\<forall>u. u \<noteq> p \<and> u \<noteq> b \<longrightarrow> stored w' u = stored w u) \<and> (\<forall>u. length (stored w' u) = length (stored w u))
    \<and> (stored w' b = stored w b \<or> take (ms_size ms dir) (stored w' p) = new)
    \<and> (q' \<noteq> Off \<longrightarrow> take (ms_size ms dir) (stored w' p) = new
         \<or> mm_is_valid mm \<and> mm_stored_crc mm = word_of_nat (le_val (slice new 0 4)))
    \<and> (\<forall>v \<in> {p, b}. stored w' v = stored w v \<or> stored w' v \<in> torn_contents wok stored tear v
         \<or> take (ms_size ms dir) (stored w' v) = new)"
proof -
  let ?n = "ms_size ms dir" and ?vf = "powered_funcs vf tear"
  have ok: "wok (fst (w, q))" using assms(1) by simp
  obtain c mm1 s1 where u: "wok (fst s1)" "stored (fst s1) = stored w" "?n \<le> length c" "?n < 2 ^ 64"
    "crc_valid crc32 ?n (take ?n c)"
    "\<forall>m. ?n \<le> length m \<and> take ?n m = take ?n c \<longrightarrow> read_back ms' m ai pi dir bt"
    "\<And>x. manager_ready ms' p b (mm1\<lparr>mm_stored_crc := x\<rparr>) \<and> manager_holds (mm1\<lparr>mm_stored_crc := x\<rparr>) (take ?n c)"
    "metadata_manager_update crc32 ?vf mm ai pi dir bt (w, q) =
      (let crc = word_of_nat (le_val (slice (take ?n c) 0 4)) in
       if mm_is_valid mm \<and> mm_stored_crc mm = crc then Some (FWU_STATUS_SUCCESS, mm1, s1)
       else do {
         (primary_status, w) \<leftarrow> store_copy ?vf (Some p) c ?n s1;
         (backup_status, w) \<leftarrow> store_copy ?vf (Some b) c ?n w;
         Some (if primary_status \<noteq> FWU_STATUS_SUCCESS then primary_status
               else if backup_status \<noteq> FWU_STATUS_SUCCESS then backup_status else FWU_STATUS_SUCCESS,
               if primary_status = FWU_STATUS_SUCCESS \<and> backup_status = FWU_STATUS_SUCCESS
               then mm1\<lparr>mm_stored_crc := crc\<rparr> else mm1,
               w)
       })"
    by (rule pm.update_unfold [OF ok assms(2-4), of crc32 ai pi, unfolded same_size]) (simp only: fst_conv, blast)
  obtain w1 q1 where s1: "s1 = (w1, q1)" by (rule prod.exhaust)
  define new crc where "new = take ?n c" and "crc = (word_of_nat (le_val (slice new 0 4)) :: u32)"
  have pb: "p \<noteq> b" using assms(2) by (simp add: manager_ready_def)
  have w1: "wok w1" "stored w1 = stored w" using u(1,2) s1 by simp_all
  have holds: "manager_holds m new" if "m = mm1\<lparr>mm_stored_crc := x\<rparr>" for m x using u(7) that by (simp add: new_def)
  have same: "mm1 = mm1\<lparr>mm_stored_crc := mm_stored_crc mm1\<rparr>" by simp
  have facts: "length new = ?n" "crc_valid crc32 ?n new" "\<forall>m. ?n \<le> length m \<and> take ?n m = new \<longrightarrow> read_back ms m ai pi dir bt"
    using u(3,5,6) same_reading by (simp_all add: new_def)
  show ?thesis
  proof (cases "mm_is_valid mm \<and> mm_stored_crc mm = crc")
    case True
    then have "metadata_manager_update crc32 ?vf mm ai pi dir bt (w, q) = Some (FWU_STATUS_SUCCESS, mm1, w1, q1)"
      using u(8) by (simp add: s1 crc_def new_def Let_def)
    then show ?thesis using w1 holds [OF same] facts True by (auto simp: crc_def)
  next
    case False
    have room: "?n \<le> length (stored w1 p)" "?n \<le> length (stored w1 b)" using assms(5,6) w1(2) by simp_all
    obtain st1 s2 st2 w2 q2 where st: "store_copy ?vf (Some p) c ?n (w1, q1) = Some (st1, s2)"
      "store_copy ?vf (Some b) c ?n s2 = Some (st2, w2, q2)" "wok w2"
      "\<forall>u. u \<noteq> p \<and> u \<noteq> b \<longrightarrow> stored w2 u = stored w u" "\<forall>u. length (stored w2 u) = length (stored w u)"
      "stored w2 b = stored w b \<or> take ?n (stored w2 p) = new" "q2 \<noteq> Off \<longrightarrow> take ?n (stored w2 p) = new"
      "\<forall>v \<in> {p, b}. stored w2 v = stored w v \<or> stored w2 v \<in> torn_contents wok stored tear v \<or> take ?n (stored w2 v) = new"
      using both_interrupted [OF w1(1) pb u(3,4) room, of q1] w1(2) unfolding new_def by metis
    define m where "m = (if st1 = FWU_STATUS_SUCCESS \<and> st2 = FWU_STATUS_SUCCESS then mm1\<lparr>mm_stored_crc := crc\<rparr> else mm1)"
    have "\<exists>st. metadata_manager_update crc32 ?vf mm ai pi dir bt (w, q) = Some (st, m, w2, q2)"
      using u(8) False st(1,2) by (auto simp: s1 crc_def new_def m_def Let_def)
    then obtain st where m: "metadata_manager_update crc32 ?vf mm ai pi dir bt (w, q) = Some (st, m, w2, q2)" by blast
    have "manager_holds m new" using holds [OF same] holds [OF refl, of crc] by (simp add: m_def)
    with m show ?thesis using st(3-8) facts by blast
  qed
qed

lemma survives_power_failure:
  fixes crc32 :: crc_routine
  assumes "wok w" and "manager_ready ms' p b mm" and "fd_num_images dir \<le> FWU_MAX_FW_DIRECTORY_ENTRIES" and "bank_tracker_ok bt"
    and "length old = ms_size ms dir" and "take (ms_size ms dir) (stored w p) = old"
    and "take (ms_size ms dir) (stored w b) = old" and "crc_valid crc32 (ms_size ms dir) old"
    and "mm_is_valid mm \<longrightarrow> mm_stored_crc mm = word_of_nat (le_val (slice old 0 4))"
    and "manager_ready ms p b mm2" and "\<not> mm_is_valid mm2" and "malloc_ok malloc"
    and "\<And>v x. x \<in> torn_contents wok stored tear v \<Longrightarrow> T v x"
  shows "\<exists>st mm1 new w' q'. metadata_manager_update crc32 (powered_funcs vf tear) mm ai pi dir bt (w, q) = Some (st, mm1, w', q')
    \<and> manager_holds mm1 new \<and> (\<forall>u. u \<noteq> p \<and> u \<noteq> b \<longrightarrow> stored w' u = stored w u)
    \<and> (\<forall>u. length (stored w' u) = length (stored w u))
    \<and> (\<forall>v \<in> {p, b}. take (ms_size ms dir) (stored w' v) \<in> {old, new} \<or> T v (stored w' v))
    \<and> ((\<forall>v \<in> {p, b}. crc_valid crc32 (ms_size ms dir) (stored w' v) \<longrightarrow> take (ms_size ms dir) (stored w' v) \<in> {old, new}) \<longrightarrow>
       (\<exists>img mm3 w3. metadata_manager_check_and_repair crc32 vf malloc mm2 dir w' = Some (FWU_STATUS_SUCCESS, mm3, w3)
         \<and> img \<in> {old, new} \<and> manager_holds mm3 img
         \<and> take (ms_size ms dir) (stored w3 p) = img
         \<and> (take (ms_size ms dir) (stored w3 b) = img \<or> slice old 0 4 = slice new 0 4)
         \<and> (q' \<noteq> Off \<longrightarrow> img = new \<or> slice old 0 4 = slice new 0 4)
         \<and> (img = new \<longrightarrow> metadata_manager_get_active_indices mm3 = Some (FWU_STATUS_SUCCESS, Some (ai, pi)))))"
proof -
  let ?n = "ms_size ms dir"
  have long: "?n \<le> length (stored w p)" "?n \<le> length (stored w b)"
    using arg_cong [OF assms(6), of length] arg_cong [OF assms(7), of length] assms(5) by simp_all
  obtain st mm1 new w' q' where u: "metadata_manager_update crc32 (powered_funcs vf tear) mm ai pi dir bt (w, q) = Some (st, mm1, w', q')"
    "wok w'" "manager_holds mm1 new" "length new = ?n" "crc_valid crc32 ?n new"
    "\<forall>m. ?n \<le> length m \<and> take ?n m = new \<longrightarrow> read_back ms m ai pi dir bt"
    "\<forall>u. u \<noteq> p \<and> u \<noteq> b \<longrightarrow> stored w' u = stored w u" "\<forall>u. length (stored w' u) = length (stored w u)"
    "stored w' b = stored w b \<or> take ?n (stored w' p) = new"
    "q' \<noteq> Off \<longrightarrow> take ?n (stored w' p) = new \<or> mm_is_valid mm \<and> mm_stored_crc mm = word_of_nat (le_val (slice new 0 4))"
    "\<forall>v \<in> {p, b}. stored w' v = stored w v \<or> stored w' v \<in> torn_contents wok stored tear v \<or> take ?n (stored w' v) = new"
    using update_interrupted [OF assms(1-4) long, of crc32 ai pi q] by blast
  have long': "?n \<le> length (stored w' p)" "?n \<le> length (stored w' b)" using long u(8) by simp_all
  have cut: "take ?n (stored w' b) = old \<or> take ?n (stored w' p) = new" using u(9) assms(7) by auto
  have "4 \<le> ?n" using format.size_bounds [OF assms(3)] by simp
  then have "slice old 0 4 = slice new 0 4" if "mm_is_valid mm \<and> mm_stored_crc mm = word_of_nat (le_val (slice new 0 4))"
    using assms(5,9) u(4) that by (intro crc_field_inj) simp_all
  then have stored: "q' \<noteq> Off \<longrightarrow> take ?n (stored w' p) = new \<or> slice old 0 4 = slice new 0 4" using u(10) by blast
  note r = recovers [OF u(2) assms(10-12,3,5,8) u(4-6) long' cut]
  have copies: "\<forall>v \<in> {p, b}. take ?n (stored w' v) \<in> {old, new} \<or> T v (stored w' v)"
    using u(11) assms(6,7,13) by auto
  show ?thesis using u(1,3,7,8) copies stored r by blast
qed

end


section \<open>RAM devices\<close>

text \<open>Every byte of a torn volume is whatever \<open>g\<close> makes of the contents; only the length is that of the device.\<close>

definition torn_bytes :: "('v \<Rightarrow> bytes \<Rightarrow> nat \<Rightarrow> byte) \<Rightarrow> 'v \<Rightarrow> bytes \<Rightarrow> bytes" where
  "torn_bytes g v m = map (g v m) [0..<length m]"

definition ram_tear ::
  "('v \<Rightarrow> bytes \<Rightarrow> nat \<Rightarrow> byte) \<Rightarrow> 'v \<Rightarrow> ('v \<Rightarrow> ram_block_store block_volume) \<Rightarrow> 'v \<Rightarrow> ram_block_store block_volume" where
  "ram_tear g v w =
     w(v := w v\<lparr>bv_store := (bv_store (w v))\<lparr>rbs_ram_back_store := Some (torn_bytes g v (ram_volume_data w v))\<rparr>\<rparr>)"

interpretation ram_torn: torn_volumes block_volume_funcs "ram_volumes_ok admitted_device" ram_volume_data
  "ram_volume_pos admitted_device" "ram_tear g" for g
proof (unfold_locales, goal_cases)
  case (1 w v)
  let ?m = "torn_bytes g v (ram_volume_data w v)"
  define b where "b = w v\<lparr>bv_store := (bv_store (w v))\<lparr>rbs_ram_back_store := Some ?m\<rparr>\<rparr>"
  have t: "ram_tear g v w = w(v := b)" and len: "length ?m = length (ram_mem (w v))"
    by (simp_all add: ram_tear_def b_def torn_bytes_def ram_volume_data_def)
  have based: "ram_vol_based admitted_device (w v)" using 1 by (simp add: ram_volumes_ok_def)
  have dev: "ram_device_inv (admitted_device (bv_partition_guid (w v))) (bv_store b)"
    using based len by (auto simp: b_def ram_vol_based_def ram_device_inv_def ram_inv_def split: option.splits)
  have "ram_vol_based admitted_device b" using based dev by (simp add: b_def ram_vol_based_def ram_vol_shaped_def)
  moreover have "length (ram_mem b) = length (ram_mem (w v))" using len by (simp add: b_def)
  moreover have "ram_vol_ok admitted_device b = ram_vol_ok admitted_device (w v)"
    using based dev by (simp add: b_def volume_ok_def ram_vol_based_def)
  ultimately show ?case
    using 1 by (simp add: t ram_volumes_upd ram_volume_pos_def) (simp add: b_def)
qed

lemma ram_torn_contents:
  "x \<in> torn_contents wok ram_volume_data (ram_tear g) v \<Longrightarrow> \<exists>m. x = torn_bytes g v m"
  by (auto simp: torn_contents_def ram_tear_def ram_volume_data_def)

lemma same_format:
  "ms_size (metadata_serializer_v1 vf idx) = ms_size (metadata_serializer_v1 vf' idx)"
  "ms_size (metadata_serializer_v2 vf idx) = ms_size (metadata_serializer_v2 vf' idx)"
  "read_back (metadata_serializer_v1 vf idx) m ai pi dir bt \<Longrightarrow> read_back (metadata_serializer_v1 vf' idx) m ai pi dir bt"
  "read_back (metadata_serializer_v2 vf idx) m ai pi dir bt \<Longrightarrow> read_back (metadata_serializer_v2 vf' idx) m ai pi dir bt"
  by (simp_all add: metadata_serializer_v1_def metadata_serializer_v2_def read_back_def)

interpretation ram_torn_v1: torn_metadata block_volume_funcs "ram_volumes_ok admitted_device" ram_volume_data
  "ram_volume_pos admitted_device" "ram_tear g" "metadata_serializer_v1 block_volume_funcs idx"
  "metadata_serializer_v1 (powered_funcs block_volume_funcs (ram_tear g)) idx" for g idx
  by unfold_locales (rule same_format, erule same_format)

interpretation ram_torn_v2: torn_metadata block_volume_funcs "ram_volumes_ok admitted_device" ram_volume_data
  "ram_volume_pos admitted_device" "ram_tear g" "metadata_serializer_v2 block_volume_funcs idx"
  "metadata_serializer_v2 (powered_funcs block_volume_funcs (ram_tear g)) idx" for g idx
  by unfold_locales (rule same_format, erule same_format)


section \<open>Properties\<close>

text \<open>Property C9. An update of the metadata is atomic under power failure. Two volumes on working RAM devices hold the same
  valid metadata \<open>old\<close>, and the manager is not valid or has recorded the CRC of \<open>old\<close>. The power fails at any
  call of the update to a volume function, or not at all, and leaves a volume that was being erased or written with arbitrary
  contents. Then the update ends with some metadata \<open>new\<close> in its cache, each of the two volumes holds \<open>old\<close>, \<open>new\<close> or the arbitrary
  contents, no other volume has changed, and every volume has its size. Provided that damage is detected, that is, that a copy with a fitting CRC is \<open>old\<close> or \<open>new\<close>, the check at the next start succeeds with
  \<open>old\<close> or \<open>new\<close>, never a mixture; the primary, and the backup unless the CRCs of the two versions coincide, hold that version
  afterwards; it is \<open>new\<close> if the power did not fail, again unless the CRCs coincide; and \<open>new\<close> gives the new bank indices.
  That the two copies are never damaged together follows from the order in which the update stores them.\<close>

theorem metadata_survives_power_failure:
  assumes "ms = metadata_serializer_v1 block_volume_funcs idx
        \<and> ms' = metadata_serializer_v1 (powered_funcs block_volume_funcs (ram_tear g)) idx
      \<or> ms = metadata_serializer_v2 block_volume_funcs idx
        \<and> ms' = metadata_serializer_v2 (powered_funcs block_volume_funcs (ram_tear g)) idx"
    and "ram_volumes_ok admitted_device w" and "manager_ready ms' p b mm"
    and "fd_num_images dir \<le> FWU_MAX_FW_DIRECTORY_ENTRIES" and "bank_tracker_ok bt" and "length old = ms_size ms dir"
    and "take (ms_size ms dir) (ram_volume_data w p) = old" and "take (ms_size ms dir) (ram_volume_data w b) = old"
    and "crc_valid crc32 (ms_size ms dir) old"
    and "mm_is_valid mm \<longrightarrow> mm_stored_crc mm = word_of_nat (le_val (slice old 0 4))"
    and "manager_ready ms p b mm2" and "\<not> mm_is_valid mm2" and "malloc_ok malloc"
  shows "\<exists>st mm1 new w' q'.
    metadata_manager_update crc32 (powered_funcs block_volume_funcs (ram_tear g)) mm ai pi dir bt (w, q) = Some (st, mm1, w', q')
    \<and> manager_holds mm1 new \<and> (\<forall>u. u \<noteq> p \<and> u \<noteq> b \<longrightarrow> ram_volume_data w' u = ram_volume_data w u)
    \<and> (\<forall>u. length (ram_volume_data w' u) = length (ram_volume_data w u))
    \<and> (\<forall>v \<in> {p, b}. take (ms_size ms dir) (ram_volume_data w' v) \<in> {old, new} \<or> (\<exists>m. ram_volume_data w' v = torn_bytes g v m))
    \<and> ((\<forall>v \<in> {p, b}. crc_valid crc32 (ms_size ms dir) (ram_volume_data w' v) \<longrightarrow>
          take (ms_size ms dir) (ram_volume_data w' v) \<in> {old, new}) \<longrightarrow>
       (\<exists>img mm3 w3. metadata_manager_check_and_repair crc32 block_volume_funcs malloc mm2 dir w' = Some (FWU_STATUS_SUCCESS, mm3, w3)
         \<and> img \<in> {old, new} \<and> manager_holds mm3 img
         \<and> take (ms_size ms dir) (ram_volume_data w3 p) = img
         \<and> (take (ms_size ms dir) (ram_volume_data w3 b) = img \<or> slice old 0 4 = slice new 0 4)
         \<and> (q' \<noteq> Off \<longrightarrow> img = new \<or> slice old 0 4 = slice new 0 4)
         \<and> (img = new \<longrightarrow> metadata_manager_get_active_indices mm3 = Some (FWU_STATUS_SUCCESS, Some (ai, pi)))))"
  using assms(1)
proof
  assume v: "ms = metadata_serializer_v1 block_volume_funcs idx
      \<and> ms' = metadata_serializer_v1 (powered_funcs block_volume_funcs (ram_tear g)) idx"
  note e = v [THEN conjunct1] v [THEN conjunct2]
  show ?thesis unfolding e by (rule ram_torn_v1.survives_power_failure [OF assms(2-13) [unfolded e] ram_torn_contents])
next
  assume v: "ms = metadata_serializer_v2 block_volume_funcs idx
      \<and> ms' = metadata_serializer_v2 (powered_funcs block_volume_funcs (ram_tear g)) idx"
  note e = v [THEN conjunct1] v [THEN conjunct2]
  show ?thesis unfolding e by (rule ram_torn_v2.survives_power_failure [OF assms(2-13) [unfolded e] ram_torn_contents])
qed

text \<open>A device that reads as zeros where it was interrupted: the CRC of 36 zeros is not zero.\<close>

lemma zeros_detected:
  assumes "length (torn_bytes (\<lambda>v m i. 0) v m) \<ge> 40"
  shows "\<not> crc_valid crc32_sw 40 (torn_bytes (\<lambda>v m i. 0) v m)"
proof -
  have z: "torn_bytes (\<lambda>v m i. 0) v m = replicate (length m) 0" by (simp add: torn_bytes_def map_replicate_const)
  have crc: "crc32_sw 0 (Some (replicate 36 0)) \<noteq> word_of_nat (le_val (replicate 4 0))" by code_simp
  have "slice (replicate (length m) (0 :: byte)) 4 36 = replicate 36 0" "slice (replicate (length m) (0 :: byte)) 0 4 = replicate 4 0"
    using assms by (simp_all add: torn_bytes_def slice_def)
  then show ?thesis using crc by (simp add: z crc_valid_def)
qed

theorem metadata_survives_power_failure_witness:
  "\<exists>w mm old new mm1 w' img mm3 w3. ram_volumes_ok admitted_device (w :: nat \<Rightarrow> ram_block_store block_volume)
    \<and> metadata_manager_update crc32_sw block_volume_funcs
        (sample_manager (metadata_serializer_v2 block_volume_funcs volume_index_init)) 0 1 fw_directory_init bank_tracker_init
        sample_ram_volumes = Some (FWU_STATUS_SUCCESS, mm, w)
    \<and> manager_holds mm old
    \<and> (\<exists>st q. metadata_manager_update crc32_sw (powered_funcs block_volume_funcs (ram_tear (\<lambda>v m i. 0)))
         (sample_manager (metadata_serializer_v2 (powered_funcs block_volume_funcs (ram_tear (\<lambda>v m i. 0))) volume_index_init)) 1 0
         fw_directory_init bank_tracker_init (w, On 2) = Some (st, mm1, w', q))
    \<and> manager_holds mm1 new
    \<and> metadata_manager_check_and_repair crc32_sw block_volume_funcs (\<lambda>n. None)
        (sample_manager (metadata_serializer_v2 block_volume_funcs volume_index_init)) fw_directory_init w'
        = Some (FWU_STATUS_SUCCESS, mm3, w3)
    \<and> manager_holds mm3 img \<and> img \<in> {old, new} \<and> take 40 (ram_volume_data w3 0) = img"
proof -
  let ?g = "\<lambda>(v :: nat) (m :: bytes) (i :: nat). 0 :: byte"
  let ?ms = "metadata_serializer_v2 block_volume_funcs volume_index_init"
  let ?ms' = "metadata_serializer_v2 (powered_funcs block_volume_funcs (ram_tear ?g)) volume_index_init"
  have sz: "ms_size ?ms fw_directory_init = 40" "fd_num_images fw_directory_init \<le> FWU_MAX_FW_DIRECTORY_ENTRIES"
    by (simp_all add: size_v2 fw_directory_init_def)
  obtain old mm w where 1: "metadata_manager_update crc32_sw block_volume_funcs (sample_manager ?ms) 0 1 fw_directory_init
      bank_tracker_init sample_ram_volumes = Some (FWU_STATUS_SUCCESS, mm, w)"
    "ram_volumes_ok admitted_device w" "manager_holds mm old" "length old = 40"
    "crc_valid crc32_sw 40 old" "take 40 (ram_volume_data w 0) = old" "take 40 (ram_volume_data w 2) = old"
    using ram_metadata_v2.update_works [of sample_ram_volumes volume_index_init 0 2 "sample_manager ?ms" fw_directory_init
        bank_tracker_init crc32_sw 0 1] sz by auto
  have long: "40 \<le> length (ram_volume_data w 0)" "40 \<le> length (ram_volume_data w 2)"
    using arg_cong [OF 1(6), of length] arg_cong [OF 1(7), of length] 1(4) by simp_all
  have m: "malloc_ok (\<lambda>n. None)" by (simp add: malloc_ok_def)
  have v: "?ms = metadata_serializer_v1 block_volume_funcs volume_index_init
        \<and> ?ms' = metadata_serializer_v1 (powered_funcs block_volume_funcs (ram_tear ?g)) volume_index_init
      \<or> ?ms = metadata_serializer_v2 block_volume_funcs volume_index_init \<and> ?ms' = ?ms'" by simp
  have nv: "mm_is_valid (sample_manager ?ms') \<longrightarrow> mm_stored_crc (sample_manager ?ms') = word_of_nat (le_val (slice old 0 4))"
    by simp
  obtain st mm1 new w' q where 2: "metadata_manager_update crc32_sw (powered_funcs block_volume_funcs (ram_tear ?g))
      (sample_manager ?ms') 1 0 fw_directory_init bank_tracker_init (w, On 2) = Some (st, mm1, w', q)"
    "manager_holds mm1 new" "\<forall>u. length (ram_volume_data w' u) = length (ram_volume_data w u)"
    "\<forall>v \<in> {0, 2}. take 40 (ram_volume_data w' v) \<in> {old, new} \<or> (\<exists>m. ram_volume_data w' v = torn_bytes ?g v m)"
    "(\<forall>v \<in> {0, 2}. crc_valid crc32_sw 40 (ram_volume_data w' v) \<longrightarrow> take 40 (ram_volume_data w' v) \<in> {old, new}) \<longrightarrow>
       (\<exists>img mm3 w3. metadata_manager_check_and_repair crc32_sw block_volume_funcs (\<lambda>n. None) (sample_manager ?ms) fw_directory_init w'
           = Some (FWU_STATUS_SUCCESS, mm3, w3) \<and> img \<in> {old, new} \<and> manager_holds mm3 img
         \<and> take 40 (ram_volume_data w3 0) = img)"
    using metadata_survives_power_failure [OF v 1(2) sample_manager_ready(1) sz(2) bank_tracker_init_ok, of old crc32_sw,
        unfolded sz(1), OF 1(4,6,7,5) nv sample_manager_ready m, of 1 0 "On 2"] by blast
  have "\<forall>v \<in> {0, 2}. crc_valid crc32_sw 40 (ram_volume_data w' v) \<longrightarrow> take 40 (ram_volume_data w' v) \<in> {old, new}"
    using 2(3,4) long zeros_detected by (metis insert_iff singletonD)
  then show ?thesis using 1(1-3) 2(1,2,5) by blast
qed

end
