(* ===== verification/Uuid.thy ===== *)
theory Uuid
  imports Prelude
begin

text \<open>
  UUIDs (\<open>components/common/uuid/uuid.c\<close>): the canonical text form, the octets in the standard order, and the GUID order in
  which the first three sections are byte-reversed. A string is the bytes of its memory, the terminator included;
  reading past the end of it is \<open>None\<close>.
\<close>

section \<open>Operations\<close>

abbreviation UUID_OCTETS_LEN :: nat where "UUID_OCTETS_LEN \<equiv> 16"
abbreviation UUID_CANONICAL_FORM_LEN :: nat where "UUID_CANONICAL_FORM_LEN \<equiv> 36"

text \<open>A string literal with its terminator.\<close>

definition c_literal :: "string \<Rightarrow> bytes" where
  "c_literal s = map of_char s @ [0]"

definition hex_to_nibble :: "byte \<Rightarrow> byte" where
  "hex_to_nibble hex = (if 0x30 \<le> hex \<and> hex \<le> 0x39 then hex - 0x30 else (or hex 0x20 - 0x61) + 10)"

definition nibble_to_hex :: "byte \<Rightarrow> byte" where
  "nibble_to_hex n = (let nibble = and n 0x0f in if nibble \<le> 9 then 0x30 + nibble else 0x61 + nibble - 10)"

definition hex_to_byte :: "byte \<Rightarrow> byte \<Rightarrow> byte" where
  "hex_to_byte h l = or (push_bit 4 (hex_to_nibble h)) (and (hex_to_nibble l) 0x0f)"

text \<open>\<open>isxdigit\<close> of the C library, in the C locale.\<close>

definition isxdigit :: "byte \<Rightarrow> bool" where
  "isxdigit c \<longleftrightarrow> 0x30 \<le> c \<and> c \<le> 0x39 \<or> 0x41 \<le> c \<and> c \<le> 0x46 \<or> 0x61 \<le> c \<and> c \<le> 0x66"

definition valid_char_at :: "bytes \<Rightarrow> nat \<Rightarrow> bool" where
  "valid_char_at s i = (if i = 8 \<or> i = 13 \<or> i = 18 \<or> i = 23 then s ! i = 0x2d else isxdigit (s ! i))"

definition uuid_is_valid :: "bytes \<Rightarrow> size_t option" where
  "uuid_is_valid canonical_form =
     (if 0 \<in> set (take UUID_CANONICAL_FORM_LEN canonical_form) then Some 0
      else if length canonical_form < UUID_CANONICAL_FORM_LEN then None
      else Some (if list_all (valid_char_at canonical_form) [0..<UUID_CANONICAL_FORM_LEN]
                 then UUID_CANONICAL_FORM_LEN else 0))"

definition uuid_get_nil :: bytes where
  "uuid_get_nil = replicate UUID_OCTETS_LEN 0"

text \<open>Two structures of 16 octets.\<close>

definition uuid_is_equal :: "bytes \<Rightarrow> bytes \<Rightarrow> bool" where
  "uuid_is_equal a b \<longleftrightarrow> take UUID_OCTETS_LEN a = take UUID_OCTETS_LEN b"

definition uuid_is_nil :: "bytes \<Rightarrow> bool" where
  "uuid_is_nil octets = uuid_is_equal uuid_get_nil octets"

text \<open>One of the five loops of \<open>uuid_parse_to_octets\<close>: \<open>n\<close> octets from the characters at \<open>pos\<close>.\<close>

fun parse_section :: "bytes \<Rightarrow> nat \<Rightarrow> nat \<Rightarrow> bytes" where
  "parse_section s pos 0 = []"
| "parse_section s pos (Suc n) = hex_to_byte (s ! pos) (s ! (pos + 1)) # parse_section s (pos + 2) n"

definition uuid_parse_to_octets :: "bytes \<Rightarrow> bytes \<Rightarrow> size_t \<Rightarrow> (size_t \<times> bytes) option" where
  "uuid_parse_to_octets canonical_form buf buf_size = do {
     valid_chars \<leftarrow> uuid_is_valid canonical_form;
     if buf_size < UUID_OCTETS_LEN \<or> valid_chars \<noteq> UUID_CANONICAL_FORM_LEN then Some (0, buf)
     else do {
       buf \<leftarrow> mem_write buf 0 (parse_section canonical_form 0 4);
       buf \<leftarrow> mem_write buf 4 (parse_section canonical_form 9 2);
       buf \<leftarrow> mem_write buf 6 (parse_section canonical_form 14 2);
       buf \<leftarrow> mem_write buf 8 (parse_section canonical_form 19 2);
       buf \<leftarrow> mem_write buf 10 (parse_section canonical_form 24 6);
       Some (valid_chars, buf)
     }
   }"

definition uuid_reverse_octets :: "bytes \<Rightarrow> bytes \<Rightarrow> size_t \<Rightarrow> bytes option" where
  "uuid_reverse_octets u buf buf_size =
     (if UUID_OCTETS_LEN \<le> buf_size
      then mem_write buf 0 [u ! 3, u ! 2, u ! 1, u ! 0, u ! 5, u ! 4, u ! 7, u ! 6, u ! 8, u ! 9,
             u ! 10, u ! 11, u ! 12, u ! 13, u ! 14, u ! 15]
      else Some buf)"

text \<open>\<open>junk\<close> is the contents of the local structure before it is filled.\<close>

definition uuid_parse_to_guid_octets :: "bytes \<Rightarrow> bytes \<Rightarrow> bytes \<Rightarrow> size_t \<Rightarrow> (size_t \<times> bytes) option" where
  "uuid_parse_to_guid_octets junk canonical_form buf buf_size = do {
     (valid_chars, standard_encoding) \<leftarrow> uuid_parse_to_octets canonical_form junk UUID_OCTETS_LEN;
     if valid_chars = UUID_CANONICAL_FORM_LEN
     then do { buf \<leftarrow> uuid_reverse_octets standard_encoding buf buf_size; Some (valid_chars, buf) }
     else Some (valid_chars, buf)
   }"

text \<open>The assertion of the two conversions from a trusted string.\<close>

definition uuid_octets_from_canonical :: "bytes \<Rightarrow> bytes \<Rightarrow> bytes option" where
  "uuid_octets_from_canonical octets canonical_form = do {
     (valid_chars, octets) \<leftarrow> uuid_parse_to_octets canonical_form octets UUID_OCTETS_LEN;
     if valid_chars = UUID_CANONICAL_FORM_LEN then Some octets else None
   }"

definition uuid_guid_octets_from_canonical :: "bytes \<Rightarrow> bytes \<Rightarrow> bytes \<Rightarrow> bytes option" where
  "uuid_guid_octets_from_canonical junk octets canonical_form = do {
     (valid_chars, octets) \<leftarrow> uuid_parse_to_guid_octets junk canonical_form octets UUID_OCTETS_LEN;
     if valid_chars = UUID_CANONICAL_FORM_LEN then Some octets else None
   }"

text \<open>The characters are stored one after the other, so the array is the list built so far.\<close>

fun canonical_loop :: "bytes \<Rightarrow> nat \<Rightarrow> nat \<Rightarrow> bytes \<Rightarrow> bytes" where
  "canonical_loop u octet_index 0 cs = cs"
| "canonical_loop u octet_index (Suc n) cs =
     (let cs = cs @ [nibble_to_hex (drop_bit 4 (u ! octet_index)), nibble_to_hex (and (u ! octet_index) 0x0f)];
          octet_index = octet_index + 1;
          cs = (if octet_index = 4 \<or> octet_index = 6 \<or> octet_index = 8 \<or> octet_index = 10 then cs @ [0x2d] else cs)
      in canonical_loop u octet_index n cs)"

definition uuid_canonical_from_octets :: "bytes \<Rightarrow> bytes" where
  "uuid_canonical_from_octets u = canonical_loop u 0 UUID_OCTETS_LEN [] @ [0]"

definition uuid_canonical_from_guid_octets :: "bytes \<Rightarrow> bytes \<Rightarrow> bytes option" where
  "uuid_canonical_from_guid_octets junk u = do {
     reversed \<leftarrow> uuid_reverse_octets u junk UUID_OCTETS_LEN;
     Some (uuid_canonical_from_octets reversed)
   }"


section \<open>Nibbles\<close>

lemma nibble_cases:
  assumes "(n :: byte) \<le> 15"
  shows "n \<in> {0, 1, 2, 3, 4, 5, 6, 7, 8, 9, 10, 11, 12, 13, 14, 15}"
proof -
  have "unat n \<le> 15" using assms by (simp add: word_le_nat_alt)
  then have "unat n \<in> {0, 1, 2, 3, 4, 5, 6, 7, 8, 9, 10, 11, 12, 13, 14, 15}"
    unfolding insert_iff empty_iff by presburger
  then have "word_of_nat (unat n) \<in> (word_of_nat ` {0, 1, 2, 3, 4, 5, 6, 7, 8, 9, 10, 11, 12, 13, 14, 15} :: byte set)" by blast
  then show ?thesis by simp
qed

lemma nibble_le: "and (b :: byte) 15 \<le> 15" "drop_bit 4 (b :: byte) \<le> 15"
proof -
  show "and b 15 \<le> 15" by (rule word_and_le1)
  have "unat (drop_bit 4 b) = unat b div 16" by (simp add: unsigned_drop_bit_eq drop_bit_eq_div unat_div)
  then show "drop_bit 4 b \<le> 15" using unat_byte_less [of b] by (simp add: word_le_nat_alt)
qed

lemma hex_round_trip [simp]:
  assumes "n \<le> 15"
  shows "hex_to_nibble (nibble_to_hex n) = n" and "isxdigit (nibble_to_hex n)" and "nibble_to_hex n \<noteq> 0"
  using nibble_cases [OF assms] by (auto simp: hex_to_nibble_def nibble_to_hex_def isxdigit_def)

lemma byte_of_nibbles: "or (push_bit 4 (drop_bit 4 b)) (and b 15) = (b :: byte)"
proof -
  have "and b 15 = take_bit 4 b" by (simp add: take_bit_eq_mask mask_eq_decr_exp)
  moreover have "or (push_bit 4 (drop_bit 4 b)) (take_bit 4 b) = b"
    by (rule bit_eqI) (auto simp: bit_simps)
  ultimately show ?thesis by simp
qed

lemma hex_to_byte_round_trip [simp]:
  "hex_to_byte (nibble_to_hex (drop_bit 4 b)) (nibble_to_hex (and b 15)) = b"
  by (simp add: hex_to_byte_def nibble_le byte_of_nibbles and.assoc)

lemma hex_of_byte [simp]:
  "isxdigit (nibble_to_hex (drop_bit 4 b))" "isxdigit (nibble_to_hex (and b 15))"
  "nibble_to_hex (drop_bit 4 b) \<noteq> 0" "nibble_to_hex (and b 15) \<noteq> 0"
  by (simp_all add: nibble_le)


section \<open>Round trips\<close>

text \<open>The two characters of an octet, opaque to the evaluation below.\<close>

definition high_hex :: "byte \<Rightarrow> byte" where
  "high_hex b = nibble_to_hex (drop_bit 4 b)"

definition low_hex :: "byte \<Rightarrow> byte" where
  "low_hex b = nibble_to_hex (and b 15)"

lemma octet_hex [simp]:
  "isxdigit (high_hex b)" "isxdigit (low_hex b)" "0 \<noteq> high_hex b" "0 \<noteq> low_hex b" "hex_to_byte (high_hex b) (low_hex b) = b"
  by (auto simp: high_hex_def low_hex_def dest: sym)

lemma octets_cases:
  assumes "length u = UUID_OCTETS_LEN"
  obtains a b c d e f g h i j k l m n p q where "u = [a, b, c, d, e, f, g, h, i, j, k, l, m, n, p, q :: byte]"
  using assms by (auto simp: numeral_eq_Suc length_Suc_conv)

lemma canonical_loop_Suc:
  "canonical_loop u i (Suc n) cs = canonical_loop u (i + 1) n
     (cs @ [high_hex (u ! i), low_hex (u ! i)] @ (if i + 1 = 4 \<or> i + 1 = 6 \<or> i + 1 = 8 \<or> i + 1 = 10 then [0x2d] else []))"
  by (simp add: high_hex_def low_hex_def Let_def)

lemma canonical_form_eq:
  "uuid_canonical_from_octets [a, b, c, d, e, f, g, h, i, j, k, l, m, n, p, q] =
     [high_hex a, low_hex a, high_hex b, low_hex b, high_hex c, low_hex c, high_hex d, low_hex d, 0x2d,
      high_hex e, low_hex e, high_hex f, low_hex f, 0x2d, high_hex g, low_hex g, high_hex h, low_hex h, 0x2d,
      high_hex i, low_hex i, high_hex j, low_hex j, 0x2d, high_hex k, low_hex k, high_hex l, low_hex l,
      high_hex m, low_hex m, high_hex n, low_hex n, high_hex p, low_hex p, high_hex q, low_hex q, 0]"
proof -
  have "(16 :: nat) = Suc (Suc (Suc (Suc (Suc (Suc (Suc (Suc (Suc (Suc (Suc (Suc (Suc (Suc (Suc (Suc 0)))))))))))))))" by simp
  then show ?thesis
    unfolding uuid_canonical_from_octets_def by (simp only: canonical_loop_Suc) simp
qed

lemma uuid_is_valid_canonical:
  assumes "length u = UUID_OCTETS_LEN"
  shows "uuid_is_valid (uuid_canonical_from_octets u) = Some UUID_CANONICAL_FORM_LEN"
  using assms
proof (rule octets_cases)
  fix a b c d e f g h i j k l m n p q
  assume "u = [a, b, c, d, e, f, g, h, i, j, k, l, m, n, p, q]"
  then show ?thesis
    by (simp add: uuid_is_valid_def canonical_form_eq valid_char_at_def upt_rec)
qed

lemma splice_whole:
  assumes "length buf = 16" and "length a = 4" and "length b = 2" and "length c = 2" and "length d = 2" and "length e = 6"
  shows "do {
       buf \<leftarrow> mem_write buf 0 a;
       buf \<leftarrow> mem_write buf 4 b;
       buf \<leftarrow> mem_write buf 6 c;
       buf \<leftarrow> mem_write buf 8 d;
       buf \<leftarrow> mem_write buf 10 e;
       Some (n, buf)
     } = Some (n, a @ b @ c @ d @ e :: bytes)"
  using assms by (simp add: mem_write_def) (simp add: splice_def)

lemma length_parse_section [simp]: "length (parse_section s pos n) = n"
  by (induction n arbitrary: pos) simp_all

definition octets_of :: "bytes \<Rightarrow> bytes" where
  "octets_of s = parse_section s 0 4 @ parse_section s 9 2 @ parse_section s 14 2 @ parse_section s 19 2 @ parse_section s 24 6"

lemma uuid_parse_to_octets_eq:
  assumes "uuid_is_valid s = Some UUID_CANONICAL_FORM_LEN" and "length buf = UUID_OCTETS_LEN"
  shows "uuid_parse_to_octets s buf UUID_OCTETS_LEN = Some (UUID_CANONICAL_FORM_LEN, octets_of s)"
  using assms by (simp add: uuid_parse_to_octets_def octets_of_def splice_whole)

lemma octets_of_canonical:
  assumes "length u = UUID_OCTETS_LEN"
  shows "octets_of (uuid_canonical_from_octets u) = u"
  using assms
proof (rule octets_cases)
  fix a b c d e f g h i j k l m n p q
  assume "u = [a, b, c, d, e, f, g, h, i, j, k, l, m, n, p, q]"
  then show ?thesis
    by (simp add: octets_of_def canonical_form_eq numeral_eq_Suc del: parse_section.simps)
      (simp add: numeral_eq_Suc)
qed

lemma uuid_reverse_twice:
  assumes "length u = UUID_OCTETS_LEN" and "length junk = UUID_OCTETS_LEN" and "length buf = UUID_OCTETS_LEN"
  obtains r where "uuid_reverse_octets u junk UUID_OCTETS_LEN = Some r" and "length r = UUID_OCTETS_LEN"
    and "uuid_reverse_octets r buf UUID_OCTETS_LEN = Some u"
  using assms(1)
proof (rule octets_cases)
  fix a b c d e f g h i j k l m n p q
  assume "u = [a, b, c, d, e, f, g, h, i, j, k, l, m, n, p, q]"
  then show ?thesis
    using that [of "[d, c, b, a, f, e, h, g, i, j, k, l, m, n, p, q]"] assms(2,3)
    by (simp add: uuid_reverse_octets_def mem_write_def splice_def)
qed

text \<open>Property C39. Octets written in the canonical form and parsed back are the same octets, in the standard and in the
  GUID order, and the canonical form of every UUID passes the validity check.\<close>

theorem uuid_text_round_trip:
  assumes "length u = UUID_OCTETS_LEN" and "length buf = UUID_OCTETS_LEN" and "length junk = UUID_OCTETS_LEN"
  shows "uuid_parse_to_octets (uuid_canonical_from_octets u) buf UUID_OCTETS_LEN = Some (UUID_CANONICAL_FORM_LEN, u)
    \<and> (\<exists>s. uuid_canonical_from_guid_octets junk u = Some s
         \<and> uuid_guid_octets_from_canonical junk buf s = Some u)"
proof -
  obtain r where r: "uuid_reverse_octets u junk UUID_OCTETS_LEN = Some r" "length r = UUID_OCTETS_LEN"
    "uuid_reverse_octets r buf UUID_OCTETS_LEN = Some u"
    using uuid_reverse_twice [OF assms(1,3,2)] .
  note parse = uuid_parse_to_octets_eq [OF uuid_is_valid_canonical]
  have "uuid_parse_to_octets (uuid_canonical_from_octets u) buf UUID_OCTETS_LEN = Some (UUID_CANONICAL_FORM_LEN, u)"
    using parse [OF assms(1,2)] octets_of_canonical [OF assms(1)] by simp
  moreover have "uuid_parse_to_octets (uuid_canonical_from_octets r) junk UUID_OCTETS_LEN = Some (UUID_CANONICAL_FORM_LEN, r)"
    using parse [OF r(2) assms(3)] octets_of_canonical [OF r(2)] by simp
  ultimately show ?thesis
    using r(1,3)
    by (simp add: uuid_canonical_from_guid_octets_def uuid_guid_octets_from_canonical_def uuid_parse_to_guid_octets_def)
qed

theorem uuid_text_round_trip_witness:
  "uuid_parse_to_octets (uuid_canonical_from_octets (replicate 16 0xa5)) (replicate 16 0) UUID_OCTETS_LEN
     = Some (UUID_CANONICAL_FORM_LEN, replicate 16 0xa5)"
  using uuid_text_round_trip [of "replicate 16 0xa5" "replicate 16 0" "replicate 16 0"] by simp


section \<open>What a valid string denotes\<close>

text \<open>Lower case of a hexadecimal digit.\<close>

definition lower_hex :: "byte \<Rightarrow> byte" where
  "lower_hex c = (if 0x41 \<le> c \<and> c \<le> 0x46 then c + 0x20 else c)"

lemma isxdigit_cases:
  assumes "isxdigit c"
  shows "c \<in> {0x30, 0x31, 0x32, 0x33, 0x34, 0x35, 0x36, 0x37, 0x38, 0x39, 0x41, 0x42, 0x43, 0x44, 0x45, 0x46,
    0x61, 0x62, 0x63, 0x64, 0x65, 0x66}"
proof -
  have "unat c \<in> {48, 49, 50, 51, 52, 53, 54, 55, 56, 57, 65, 66, 67, 68, 69, 70, 97, 98, 99, 100, 101, 102}"
    using assms unfolding insert_iff empty_iff isxdigit_def word_le_nat_alt by simp presburger
  then have "word_of_nat (unat c) \<in> (word_of_nat ` {48, 49, 50, 51, 52, 53, 54, 55, 56, 57, 65, 66, 67, 68, 69, 70, 97,
    98, 99, 100, 101, 102} :: byte set)" by blast
  then show ?thesis by simp
qed

lemma hex_text:
  assumes "isxdigit c"
  shows "hex_to_nibble c \<le> 15" and "nibble_to_hex (hex_to_nibble c) = lower_hex c"
  using isxdigit_cases [OF assms] by (auto simp: hex_to_nibble_def nibble_to_hex_def lower_hex_def)

lemma hex_to_byte_text:
  assumes "isxdigit h" and "isxdigit l"
  shows "high_hex (hex_to_byte h l) = lower_hex h" and "low_hex (hex_to_byte h l) = lower_hex l"
proof -
  have *: "drop_bit 4 (or (push_bit 4 x) (and y 15)) = x" "and (or (push_bit 4 x) (and y 15)) 15 = y"
    if "x \<le> 15" "y \<le> 15" for x y :: byte
    using nibble_cases [OF that(1)] nibble_cases [OF that(2)] by auto
  show "high_hex (hex_to_byte h l) = lower_hex h" "low_hex (hex_to_byte h l) = lower_hex l"
    using * [OF hex_text(1) [OF assms(1)] hex_text(1) [OF assms(2)]] hex_text(2) [OF assms(1)] hex_text(2) [OF assms(2)]
    by (simp_all add: high_hex_def low_hex_def hex_to_byte_def)
qed

lemma parse_section_numeral:
  "parse_section s p 2 = [hex_to_byte (s ! p) (s ! (p + 1)), hex_to_byte (s ! (p + 2)) (s ! (p + 3))]"
  "parse_section s p 4 = parse_section s p 2 @ parse_section s (p + 4) 2"
  "parse_section s p 6 = parse_section s p 4 @ parse_section s (p + 8) 2"
  by (simp_all add: numeral_eq_Suc)

text \<open>Writing what was parsed gives the text in lower case.\<close>

lemma canonical_of_octets_of:
  assumes "uuid_is_valid s = Some UUID_CANONICAL_FORM_LEN"
  shows "uuid_canonical_from_octets (octets_of s) = map lower_hex (take UUID_CANONICAL_FORM_LEN s) @ [0]"
proof -
  have len: "36 \<le> length s" and ok: "list_all (valid_char_at s) [0..<36]"
    using assms by (auto simp: uuid_is_valid_def split: if_splits)
  have digits: "isxdigit (s ! i)" if "i < 36" "i \<notin> {8, 13, 18, 23}" for i
    using ok that by (auto simp: list_all_iff valid_char_at_def)
  have dash: "s ! i = 0x2d" if "i \<in> {8, 13, 18, 23}" for i
    using ok that by (auto simp: list_all_iff valid_char_at_def)
  have t: "take 36 s = map (\<lambda>i. s ! i) [0..<36]"
    using len by (intro nth_equalityI) simp_all
  have "lower_hex 0x2d = 0x2d" by (simp add: lower_hex_def)
  then show ?thesis
    using dash [of 8] dash [of 13] dash [of 18] dash [of 23]
    by (simp add: octets_of_def t parse_section_numeral canonical_form_eq hex_to_byte_text digits upt_rec)
      (simp add: numeral_eq_Suc)
qed

end
