(* ===== verification/Installer.thy ===== *)
theory Installer
  imports FwDirectory VolumeIndex Volume Uuid
begin

text \<open>
  Installers (\<open>service/fwu/installer\<close>): the base installer with its interface, the index of registered installers, and the two
  concrete installers, one that writes a raw image into a volume and one that copies a volume.

  The context of a concrete installer is the object around the base installer; the fields of the base installer that
  the concrete operations read (location and install type) do not change after initialisation and are kept in the
  context as well. The volumes are reached through \<open>volume_funcs\<close> and the volume index. A pointer to
  an installer is its position in the list of all installers.
\<close>

section \<open>Base installer\<close>

record ('x, 'w) installer_interface =
  iif_begin :: "'x \<Rightarrow> u32 \<Rightarrow> u32 \<Rightarrow> 'w \<Rightarrow> (fwu_status \<times> 'x \<times> 'w) option"
  iif_finalize :: "'x \<Rightarrow> 'w \<Rightarrow> (fwu_status \<times> 'x \<times> 'w) option"
  iif_abort :: "'x \<Rightarrow> 'w \<Rightarrow> ('x \<times> 'w) option"
  iif_open :: "'x \<Rightarrow> image_info \<Rightarrow> 'w \<Rightarrow> (fwu_status \<times> 'x \<times> 'w) option"
  iif_commit :: "'x \<Rightarrow> 'w \<Rightarrow> (fwu_status \<times> 'x \<times> 'w) option"
  iif_write :: "'x \<Rightarrow> bytes \<Rightarrow> size_t \<Rightarrow> 'w \<Rightarrow> (fwu_status \<times> 'x \<times> 'w) option"
  iif_enumerate :: "'x \<Rightarrow> u32 \<Rightarrow> fw_directory \<Rightarrow> 'w \<Rightarrow> (fwu_status \<times> fw_directory \<times> 'x \<times> 'w) option"

text \<open>The status is kept as an unsigned 32-bit value in the source; only whether it is zero matters.\<close>

record ('x, 'w) installer =
  in_install_type :: install_type
  in_location_id :: u32
  in_location_uuid :: fw_uuid
  in_context :: 'x
  in_interface :: "('x, 'w) installer_interface"
  in_install_status :: fwu_status
  in_is_active :: bool
  in_next :: "nat option"

definition installer_init ::
  "install_type \<Rightarrow> u32 \<Rightarrow> fw_uuid \<Rightarrow> 'x \<Rightarrow> ('x, 'w) installer_interface \<Rightarrow> ('x, 'w) installer" where
  "installer_init install_type location_id location_uuid context interface =
     \<lparr>in_install_type = install_type, in_location_id = location_id, in_location_uuid = location_uuid,
      in_context = context, in_interface = interface, in_install_status = FWU_STATUS_SUCCESS,
      in_is_active = False, in_next = None\<rparr>"

definition installer_is_active :: "('x, 'w) installer \<Rightarrow> bool" where
  "installer_is_active i = in_is_active i"

definition installer_status :: "('x, 'w) installer \<Rightarrow> fwu_status" where
  "installer_status i = in_install_status i"

definition installer_begin ::
  "('x, 'w) installer \<Rightarrow> u32 \<Rightarrow> u32 \<Rightarrow> 'w \<Rightarrow> (fwu_status \<times> ('x, 'w) installer \<times> 'w) option" where
  "installer_begin i current_volume_id update_volume_id w = do {
     let i = i\<lparr>in_install_status := FWU_STATUS_SUCCESS, in_is_active := True\<rparr>;
     (status, x, w) \<leftarrow> iif_begin (in_interface i) (in_context i) current_volume_id update_volume_id w;
     Some (status, i\<lparr>in_context := x\<rparr>, w)
   }"

definition installer_finalize :: "('x, 'w) installer \<Rightarrow> 'w \<Rightarrow> (fwu_status \<times> ('x, 'w) installer \<times> 'w) option" where
  "installer_finalize i w = do {
     (status, x, w) \<leftarrow> iif_finalize (in_interface i) (in_context i) w;
     Some (status, i\<lparr>in_is_active := False, in_context := x\<rparr>, w)
   }"

definition installer_abort :: "('x, 'w) installer \<Rightarrow> 'w \<Rightarrow> (('x, 'w) installer \<times> 'w) option" where
  "installer_abort i w = do {
     (x, w) \<leftarrow> iif_abort (in_interface i) (in_context i) w;
     Some (i\<lparr>in_is_active := False, in_context := x\<rparr>, w)
   }"

text \<open>The first error of a transaction is kept.\<close>

definition note_status :: "fwu_status \<Rightarrow> ('x, 'w) installer \<Rightarrow> ('x, 'w) installer" where
  "note_status status i =
     (if status \<noteq> 0 \<and> in_install_status i = 0 then i\<lparr>in_install_status := status\<rparr> else i)"

definition installer_open :: "('x, 'w) installer \<Rightarrow> image_info \<Rightarrow> 'w \<Rightarrow> (fwu_status \<times> ('x, 'w) installer \<times> 'w) option" where
  "installer_open i info w = do {
     (status, x, w) \<leftarrow> iif_open (in_interface i) (in_context i) info w;
     Some (status, note_status status (i\<lparr>in_context := x\<rparr>), w)
   }"

definition installer_commit :: "('x, 'w) installer \<Rightarrow> 'w \<Rightarrow> (fwu_status \<times> ('x, 'w) installer \<times> 'w) option" where
  "installer_commit i w = do {
     (status, x, w) \<leftarrow> iif_commit (in_interface i) (in_context i) w;
     Some (status, note_status status (i\<lparr>in_context := x\<rparr>), w)
   }"

definition installer_write ::
  "('x, 'w) installer \<Rightarrow> bytes \<Rightarrow> size_t \<Rightarrow> 'w \<Rightarrow> (fwu_status \<times> ('x, 'w) installer \<times> 'w) option" where
  "installer_write i data data_len w = do {
     (status, x, w) \<leftarrow> iif_write (in_interface i) (in_context i) data data_len w;
     Some (status, note_status status (i\<lparr>in_context := x\<rparr>), w)
   }"

definition installer_enumerate ::
  "('x, 'w) installer \<Rightarrow> u32 \<Rightarrow> fw_directory \<Rightarrow> 'w \<Rightarrow> (fwu_status \<times> fw_directory \<times> ('x, 'w) installer \<times> 'w) option" where
  "installer_enumerate i volume_id fw_dir w = do {
     (status, fw_dir, x, w) \<leftarrow> iif_enumerate (in_interface i) (in_context i) volume_id fw_dir w;
     Some (status, fw_dir, i\<lparr>in_context := x\<rparr>, w)
   }"


section \<open>Installer index\<close>

abbreviation INSTALLER_INDEX_LIMIT :: nat where "INSTALLER_INDEX_LIMIT \<equiv> 8"
abbreviation INSTALLER_INDEX_LOCATION_ID_LIMIT :: nat where "INSTALLER_INDEX_LOCATION_ID_LIMIT \<equiv> 8"

text \<open>The entries in use; the arrays of the source have a fixed length and a counter.\<close>

record installer_index =
  ix_installers :: "nat list"
  ix_location_ids :: "u32 list"

definition installer_index_clear :: installer_index where
  "installer_index_clear = \<lparr>ix_installers = [], ix_location_ids = []\<rparr>"

definition installer_index_init :: installer_index where
  "installer_index_init = installer_index_clear"

definition add_location_id :: "installer_index \<Rightarrow> u32 \<Rightarrow> installer_index" where
  "add_location_id ix location_id =
     (if location_id \<in> set (ix_location_ids ix) then ix
      else if length (ix_location_ids ix) < INSTALLER_INDEX_LOCATION_ID_LIMIT
      then ix\<lparr>ix_location_ids := ix_location_ids ix @ [location_id]\<rparr>
      else ix)"

definition installer_index_register ::
  "installer_index \<Rightarrow> ('x, 'w) installer list \<Rightarrow> nat \<Rightarrow> installer_index" where
  "installer_index_register ix is k =
     (if length (ix_installers ix) < INSTALLER_INDEX_LIMIT
      then add_location_id (ix\<lparr>ix_installers := ix_installers ix @ [k]\<rparr>) (in_location_id (is ! k))
      else ix)"

definition installer_index_find ::
  "installer_index \<Rightarrow> ('x, 'w) installer list \<Rightarrow> install_type \<Rightarrow> u32 \<Rightarrow> nat option" where
  "installer_index_find ix is install_type location_id =
     find (\<lambda>k. in_install_type (is ! k) = install_type \<and> in_location_id (is ! k) = location_id) (ix_installers ix)"

definition installer_index_find_by_location_uuid ::
  "installer_index \<Rightarrow> ('x, 'w) installer list \<Rightarrow> fw_uuid \<Rightarrow> nat option" where
  "installer_index_find_by_location_uuid ix is location_uuid =
     find (\<lambda>k. location_uuid = in_location_uuid (is ! k)) (ix_installers ix)"

definition installer_index_get :: "installer_index \<Rightarrow> nat \<Rightarrow> nat option" where
  "installer_index_get ix index =
     (if index < length (ix_installers ix) then Some (ix_installers ix ! index) else None)"

definition installer_index_get_location_ids :: "installer_index \<Rightarrow> u32 list" where
  "installer_index_get_location_ids ix = ix_location_ids ix"


section \<open>Raw installer\<close>

record 'v raw_installer =
  ri_location_uuid :: fw_uuid
  ri_location_id :: u32
  ri_install_type :: install_type
  ri_target_volume :: "'v option"
  ri_commit_count :: u32
  ri_bytes_written :: size_t
  ri_is_open :: bool

text \<open>When the volume is not found the pointer keeps its value.\<close>

definition raw_installer_begin ::
  "'v volume_index \<Rightarrow> 'v raw_installer \<Rightarrow> u32 \<Rightarrow> u32 \<Rightarrow> 'w \<Rightarrow> (fwu_status \<times> 'v raw_installer \<times> 'w) option" where
  "raw_installer_begin idx r current_volume_id update_volume_id w =
     (case volume_index_find idx update_volume_id of (status, volume) \<Rightarrow>
        if status = 0
        then do {
          v \<leftarrow> volume;
          Some (status, r\<lparr>ri_target_volume := Some v, ri_commit_count := 0, ri_is_open := False\<rparr>, w)
        }
        else Some (status, r, w))"

definition raw_installer_finalize ::
  "('v, 'w) volume_funcs \<Rightarrow> 'v raw_installer \<Rightarrow> 'w \<Rightarrow> (fwu_status \<times> 'v raw_installer \<times> 'w) option" where
  "raw_installer_finalize vf r w =
     (if ri_is_open r
      then do {
        v \<leftarrow> ri_target_volume r;
        (_, w) \<leftarrow> volume_close vf v w;
        Some (FWU_STATUS_SUCCESS, r\<lparr>ri_is_open := False\<rparr>, w)
      }
      else Some (FWU_STATUS_SUCCESS, r, w))"

definition raw_installer_abort :: "('v, 'w) volume_funcs \<Rightarrow> 'v raw_installer \<Rightarrow> 'w \<Rightarrow> ('v raw_installer \<times> 'w) option" where
  "raw_installer_abort vf r w = map_option snd (raw_installer_finalize vf r w)"

definition raw_installer_open ::
  "('v, 'w) volume_funcs \<Rightarrow> 'v raw_installer \<Rightarrow> image_info \<Rightarrow> 'w \<Rightarrow> (fwu_status \<times> 'v raw_installer \<times> 'w) option" where
  "raw_installer_open vf r info w =
     (if \<not> ri_is_open r \<and> ri_commit_count r < 1
      then do {
        v \<leftarrow> ri_target_volume r;
        (status, w) \<leftarrow> volume_open vf v w;
        if status = 0
        then do {
          (status, w) \<leftarrow> volume_erase vf v w;
          if status = 0 then Some (status, r\<lparr>ri_is_open := True, ri_bytes_written := 0\<rparr>, w)
          else do { (_, w) \<leftarrow> volume_close vf v w; Some (status, r, w) }
        }
        else Some (status, r, w)
      }
      else Some (FWU_STATUS_DENIED, r, w))"

definition raw_installer_commit ::
  "('v, 'w) volume_funcs \<Rightarrow> 'v raw_installer \<Rightarrow> 'w \<Rightarrow> (fwu_status \<times> 'v raw_installer \<times> 'w) option" where
  "raw_installer_commit vf r w =
     (if ri_is_open r
      then do {
        v \<leftarrow> ri_target_volume r;
        (status, w) \<leftarrow> volume_close vf v w;
        Some (if status = 0 \<and> ri_bytes_written r = 0 then FWU_STATUS_NOT_AVAILABLE else status,
              r\<lparr>ri_commit_count := ri_commit_count r + 1, ri_is_open := False\<rparr>, w)
      }
      else Some (FWU_STATUS_DENIED, r, w))"

definition raw_installer_write ::
  "('v, 'w) volume_funcs \<Rightarrow> 'v raw_installer \<Rightarrow> bytes \<Rightarrow> size_t \<Rightarrow> 'w \<Rightarrow> (fwu_status \<times> 'v raw_installer \<times> 'w) option" where
  "raw_installer_write vf r data data_len w =
     (if ri_is_open r
      then do {
        v \<leftarrow> ri_target_volume r;
        (status, len_written, w) \<leftarrow> volume_write vf v data data_len w;
        Some (if status = 0 \<and> len_written \<noteq> data_len then FWU_STATUS_OUT_OF_BOUNDS else status,
              r\<lparr>ri_bytes_written := add64 (ri_bytes_written r) len_written\<rparr>, w)
      }
      else Some (FWU_STATUS_DENIED, r, w))"

definition raw_installer_enumerate ::
  "('v, 'w) volume_funcs \<Rightarrow> 'v volume_index \<Rightarrow> 'v raw_installer \<Rightarrow> u32 \<Rightarrow> fw_directory \<Rightarrow> 'w \<Rightarrow>
    (fwu_status \<times> fw_directory \<times> 'v raw_installer \<times> 'w) option" where
  "raw_installer_enumerate vf idx r volume_id fw_dir w =
     (case volume_index_find idx volume_id of (status, volume) \<Rightarrow>
        if status \<noteq> 0 then Some (status, fw_dir, r, w)
        else do {
          v \<leftarrow> volume;
          (status, w) \<leftarrow> (if \<not> ri_is_open r then volume_open vf v w else Some (0, w));
          if status \<noteq> 0 then Some (status, fw_dir, r, w)
          else do {
            (status, max_size, w) \<leftarrow> volume_size vf v w;
            if status \<noteq> 0 then Some (status, fw_dir, r, w)
            else do {
              (status, w) \<leftarrow> (if \<not> ri_is_open r then volume_close vf v w else Some (0, w));
              if status \<noteq> 0 then Some (status, fw_dir, r, w)
              else
                (case fw_directory_add_image_info fw_dir
                   (zero_image_info\<lparr>ii_max_size := max_size, ii_img_type_uuid := ri_location_uuid r,
                      ii_location_id := ri_location_id r, ii_install_type := ri_install_type r\<rparr>) of
                   (status, fw_dir) \<Rightarrow> Some (status, fw_dir, r, w))
            }
          }
        })"


section \<open>Copy installer\<close>

record 'v copy_installer =
  ci_destination_volume :: "'v option"
  ci_source_volume :: "'v option"

abbreviation COPY_CHUNK_SIZE :: nat where "COPY_CHUNK_SIZE \<equiv> 4096"

definition close_volumes_on_error ::
  "('v, 'w) volume_funcs \<Rightarrow> 'v \<Rightarrow> 'v \<Rightarrow> 'w \<Rightarrow> (fwu_status \<times> 'w) option" where
  "close_volumes_on_error vf src dst w = do {
     (_, w) \<leftarrow> volume_close vf src w;
     (_, w) \<leftarrow> volume_close vf dst w;
     Some (FWU_STATUS_UNKNOWN, w)
   }"

text \<open>The loop: it makes no progress, and does not end, when a read returns nothing without an error.\<close>

partial_function (option) copy_loop ::
  "('v, 'w) volume_funcs \<Rightarrow> 'v \<Rightarrow> 'v \<Rightarrow> size_t \<Rightarrow> size_t \<Rightarrow> bytes \<Rightarrow> 'w \<Rightarrow> (fwu_status \<times> 'w) option" where
  "copy_loop vf src dst target_copy_len copy_len copy_buf w =
     (if copy_len < target_copy_len
      then do {
        (status, copy_buf, actual_read_len, w) \<leftarrow>
          volume_read vf src copy_buf (min (target_copy_len - copy_len) COPY_CHUNK_SIZE) w;
        if status \<noteq> 0 then Some (status, w)
        else do {
          (status, actual_write_len, w) \<leftarrow> volume_write vf dst copy_buf actual_read_len w;
          if status \<noteq> 0 then Some (status, w)
          else if actual_read_len \<noteq> actual_write_len then Some (FWU_STATUS_UNKNOWN, w)
          else copy_loop vf src dst target_copy_len (add64 copy_len actual_read_len) copy_buf w
        }
      }
      else Some (FWU_STATUS_SUCCESS, w))"

text \<open>\<open>malloc\<close> gives the fresh memory or \<open>None\<close>.\<close>

definition copy_volume_contents ::
  "('v, 'w) volume_funcs \<Rightarrow> (size_t \<Rightarrow> bytes option) \<Rightarrow> 'v \<Rightarrow> 'v \<Rightarrow> size_t \<Rightarrow> 'w \<Rightarrow> (fwu_status \<times> 'w) option" where
  "copy_volume_contents vf malloc src dst target_copy_len w =
     (case malloc COPY_CHUNK_SIZE of
        None \<Rightarrow> Some (FWU_STATUS_UNKNOWN, w)
      | Some copy_buf \<Rightarrow>
          copy_loop vf src dst target_copy_len 0 copy_buf w)"

definition copy_installer_begin ::
  "'v volume_index \<Rightarrow> 'v copy_installer \<Rightarrow> u32 \<Rightarrow> u32 \<Rightarrow> 'w \<Rightarrow> (fwu_status \<times> 'v copy_installer \<times> 'w) option" where
  "copy_installer_begin idx c current_volume_id update_volume_id w =
     (case volume_index_find idx update_volume_id of (status, destination) \<Rightarrow>
        case (if status = 0 then volume_index_find idx current_volume_id else (status, None)) of (status, source) \<Rightarrow>
          Some (status,
                if status \<noteq> 0 then \<lparr>ci_destination_volume = None, ci_source_volume = None\<rparr>
                else \<lparr>ci_destination_volume = destination, ci_source_volume = source\<rparr>, w))"

text \<open>The destination size is taken from the source volume, as in the source code.\<close>

definition copy_installer_finalize ::
  "('v, 'w) volume_funcs \<Rightarrow> (size_t \<Rightarrow> bytes option) \<Rightarrow> 'v copy_installer \<Rightarrow> 'w \<Rightarrow> (fwu_status \<times> 'v copy_installer \<times> 'w) option" where
  "copy_installer_finalize vf malloc c w = do {
     src \<leftarrow> ci_source_volume c;
     dst \<leftarrow> ci_destination_volume c;
     (source_status, w) \<leftarrow> volume_open vf src w;
     if source_status \<noteq> 0 then Some (source_status, c, w)
     else do {
       (destination_status, w) \<leftarrow> volume_open vf dst w;
       if destination_status \<noteq> 0
       then do { (_, w) \<leftarrow> volume_close vf src w; Some (destination_status, c, w) }
       else do {
         (destination_status, w) \<leftarrow> volume_erase vf dst w;
         if destination_status \<noteq> 0
         then do { (status, w) \<leftarrow> close_volumes_on_error vf src dst w; Some (status, c, w) }
         else do {
           (source_status, source_size, w) \<leftarrow> volume_size vf src w;
           if source_status \<noteq> 0
           then do { (status, w) \<leftarrow> close_volumes_on_error vf src dst w; Some (status, c, w) }
           else do {
             (destination_status, destination_size, w) \<leftarrow> volume_size vf src w;
             if destination_status \<noteq> 0
             then do { (status, w) \<leftarrow> close_volumes_on_error vf src dst w; Some (status, c, w) }
             else do {
               (copy_status, w) \<leftarrow> copy_volume_contents vf malloc src dst (min source_size destination_size) w;
               (source_status, w) \<leftarrow> volume_close vf src w;
               (destination_status, w) \<leftarrow> volume_close vf dst w;
               Some (if copy_status \<noteq> 0 then copy_status else if destination_status \<noteq> 0 then destination_status
                     else if source_status \<noteq> 0 then source_status else FWU_STATUS_SUCCESS, c, w)
             }
           }
         }
       }
     }
   }"

definition copy_installer_abort :: "'v copy_installer \<Rightarrow> 'w \<Rightarrow> ('v copy_installer \<times> 'w) option" where
  "copy_installer_abort c w = Some (\<lparr>ci_destination_volume = None, ci_source_volume = None\<rparr>, w)"

definition copy_installer_open ::
  "'v copy_installer \<Rightarrow> image_info \<Rightarrow> 'w \<Rightarrow> (fwu_status \<times> 'v copy_installer \<times> 'w) option" where
  "copy_installer_open c info w = Some (FWU_STATUS_DENIED, c, w)"

definition copy_installer_commit :: "'v copy_installer \<Rightarrow> 'w \<Rightarrow> (fwu_status \<times> 'v copy_installer \<times> 'w) option" where
  "copy_installer_commit c w = Some (FWU_STATUS_DENIED, c, w)"

definition copy_installer_write ::
  "'v copy_installer \<Rightarrow> bytes \<Rightarrow> size_t \<Rightarrow> 'w \<Rightarrow> (fwu_status \<times> 'v copy_installer \<times> 'w) option" where
  "copy_installer_write c data data_len w = Some (FWU_STATUS_DENIED, c, w)"

definition copy_installer_enumerate ::
  "'v copy_installer \<Rightarrow> u32 \<Rightarrow> fw_directory \<Rightarrow> 'w \<Rightarrow> (fwu_status \<times> fw_directory \<times> 'v copy_installer \<times> 'w) option" where
  "copy_installer_enumerate c volume_id fw_dir w = Some (FWU_STATUS_SUCCESS, fw_dir, c, w)"


section \<open>Concrete installers behind the interface\<close>

datatype 'v installer_context = RawContext "'v raw_installer" | CopyContext "'v copy_installer"

type_synonym ('v, 'w) fw_installer = "('v installer_context, 'w) installer"

text \<open>The cast of the context pointer.\<close>

definition on_raw ::
  "('v raw_installer \<Rightarrow> ('s \<times> 'v raw_installer \<times> 'w) option) \<Rightarrow> 'v installer_context \<Rightarrow>
    ('s \<times> 'v installer_context \<times> 'w) option" where
  "on_raw f x = (case x of RawContext r \<Rightarrow> map_option (\<lambda>(st, r, w). (st, RawContext r, w)) (f r) | CopyContext _ \<Rightarrow> None)"

definition on_copy ::
  "('v copy_installer \<Rightarrow> ('s \<times> 'v copy_installer \<times> 'w) option) \<Rightarrow> 'v installer_context \<Rightarrow>
    ('s \<times> 'v installer_context \<times> 'w) option" where
  "on_copy f x = (case x of CopyContext c \<Rightarrow> map_option (\<lambda>(st, c, w). (st, CopyContext c, w)) (f c) | RawContext _ \<Rightarrow> None)"

definition raw_installer_interface ::
  "('v, 'w) volume_funcs \<Rightarrow> 'v volume_index \<Rightarrow> ('v installer_context, 'w) installer_interface" where
  "raw_installer_interface vf idx =
     \<lparr>iif_begin = (\<lambda>x cur upd w. on_raw (\<lambda>r. raw_installer_begin idx r cur upd w) x),
      iif_finalize = (\<lambda>x w. on_raw (\<lambda>r. raw_installer_finalize vf r w) x),
      iif_abort = (\<lambda>x w. map_option snd (on_raw (\<lambda>r. map_option (Pair ()) (raw_installer_abort vf r w)) x)),
      iif_open = (\<lambda>x info w. on_raw (\<lambda>r. raw_installer_open vf r info w) x),
      iif_commit = (\<lambda>x w. on_raw (\<lambda>r. raw_installer_commit vf r w) x),
      iif_write = (\<lambda>x data data_len w. on_raw (\<lambda>r. raw_installer_write vf r data data_len w) x),
      iif_enumerate = (\<lambda>x volume_id dir w. map_option (\<lambda>((st, dir), x, w). (st, dir, x, w))
        (on_raw (\<lambda>r. map_option (\<lambda>(st, dir, r, w). ((st, dir), r, w)) (raw_installer_enumerate vf idx r volume_id dir w)) x))\<rparr>"

definition raw_installer_init ::
  "('v, 'w) volume_funcs \<Rightarrow> 'v volume_index \<Rightarrow> fw_uuid \<Rightarrow> u32 \<Rightarrow> ('v, 'w) fw_installer" where
  "raw_installer_init vf idx location_uuid location_id =
     installer_init INSTALL_TYPE_WHOLE_VOLUME location_id location_uuid
       (RawContext \<lparr>ri_location_uuid = location_uuid, ri_location_id = location_id,
          ri_install_type = INSTALL_TYPE_WHOLE_VOLUME, ri_target_volume = None, ri_commit_count = 0,
          ri_bytes_written = 0, ri_is_open = False\<rparr>)
       (raw_installer_interface vf idx)"

definition copy_installer_interface ::
  "('v, 'w) volume_funcs \<Rightarrow> (size_t \<Rightarrow> bytes option) \<Rightarrow> 'v volume_index \<Rightarrow>
    ('v installer_context, 'w) installer_interface" where
  "copy_installer_interface vf malloc idx =
     \<lparr>iif_begin = (\<lambda>x cur upd w. on_copy (\<lambda>c. copy_installer_begin idx c cur upd w) x),
      iif_finalize = (\<lambda>x w. on_copy (\<lambda>c. copy_installer_finalize vf malloc c w) x),
      iif_abort = (\<lambda>x w. map_option snd (on_copy (\<lambda>c. map_option (Pair ()) (copy_installer_abort c w)) x)),
      iif_open = (\<lambda>x info w. on_copy (\<lambda>c. copy_installer_open c info w) x),
      iif_commit = (\<lambda>x w. on_copy (\<lambda>c. copy_installer_commit c w) x),
      iif_write = (\<lambda>x data data_len w. on_copy (\<lambda>c. copy_installer_write c data data_len w) x),
      iif_enumerate = (\<lambda>x volume_id dir w. map_option (\<lambda>((st, dir), x, w). (st, dir, x, w))
        (on_copy (\<lambda>c. map_option (\<lambda>(st, dir, c, w). ((st, dir), c, w)) (copy_installer_enumerate c volume_id dir w)) x))\<rparr>"

definition copy_installer_init ::
  "('v, 'w) volume_funcs \<Rightarrow> (size_t \<Rightarrow> bytes option) \<Rightarrow> 'v volume_index \<Rightarrow> fw_uuid \<Rightarrow> u32 \<Rightarrow> ('v, 'w) fw_installer" where
  "copy_installer_init vf malloc idx location_uuid location_id =
     installer_init INSTALL_TYPE_WHOLE_VOLUME_COPY location_id location_uuid
       (CopyContext \<lparr>ci_destination_volume = None, ci_source_volume = None\<rparr>)
       (copy_installer_interface vf malloc idx)"


section \<open>Installer factory\<close>

text \<open>\<open>locations.h\<close>\<close>

definition LOCATION_UUID_AP_FW :: bytes where
  "LOCATION_UUID_AP_FW = c_literal ''2451cd6e-90fe-4b15-bf10-a69bce2d4486''"

definition LOCATION_UUID_SCP_FW :: bytes where
  "LOCATION_UUID_SCP_FW = c_literal ''691d5ea3-27fe-4104-badd-7539c00a9095''"

definition LOCATION_UUID_RSE_FW :: bytes where
  "LOCATION_UUID_RSE_FW = c_literal ''c948a156-58cb-4c38-b406-e60bff2223d5''"

text \<open>\<open>junk\<close> is the contents of the local structures before they are filled.\<close>

fun check_supported_locations :: "bytes \<Rightarrow> bytes list \<Rightarrow> fw_uuid \<Rightarrow> bool option" where
  "check_supported_locations junk [] location_uuid = Some False"
| "check_supported_locations junk (s # ss) location_uuid = do {
     comparison_uuid \<leftarrow> uuid_guid_octets_from_canonical junk junk s;
     if uuid_is_equal comparison_uuid location_uuid then Some True
     else check_supported_locations junk ss location_uuid
   }"

text \<open>The build options \<open>RAW_INSTALLER_AVAILABLE\<close> and \<open>COPY_INSTALLER_AVAILABLE\<close>, and whether memory for the object
  is available.\<close>

definition installer_factory_create_installer ::
  "bool \<Rightarrow> bool \<Rightarrow> bool \<Rightarrow> bytes \<Rightarrow> ('v, 'w) volume_funcs \<Rightarrow> (size_t \<Rightarrow> bytes option) \<Rightarrow> 'v volume_index \<Rightarrow>
    install_type \<Rightarrow> u32 \<Rightarrow> fw_uuid \<Rightarrow> ('v, 'w) fw_installer option option" where
  "installer_factory_create_installer raw_available copy_available memory junk vf malloc idx installation_type location_id
       location_uuid =
     (let compatible = [LOCATION_UUID_AP_FW, LOCATION_UUID_SCP_FW, LOCATION_UUID_RSE_FW]
      in case installation_type of
           INSTALL_TYPE_WHOLE_VOLUME \<Rightarrow>
             if raw_available
             then do {
               supported \<leftarrow> check_supported_locations junk compatible location_uuid;
               Some (if supported \<and> memory then Some (raw_installer_init vf idx location_uuid location_id) else None)
             }
             else Some None
         | INSTALL_TYPE_WHOLE_VOLUME_COPY \<Rightarrow>
             if copy_available
             then do {
               supported \<leftarrow> check_supported_locations junk compatible location_uuid;
               Some (if supported \<and> memory then Some (copy_installer_init vf malloc idx location_uuid location_id) else None)
             }
             else Some None
         | INSTALL_TYPE_SUB_VOLUME \<Rightarrow> Some None)"

end
