(* ===== verification/BankedFwStore.thy ===== *)
theory BankedFwStore
  imports Installer MetadataManager
begin

text \<open>
  The banked firmware store (\<open>banked_fw_store.c\<close>): it selects and drives the installers of an update transaction, keeps the
  bank tracker and the metadata in step with it, and chooses the bank an update goes to.

  The record has, besides the fields of \<open>struct fw_store\<close>, the objects its pointers and calls reach: the installers and the
  volumes. The directory it points to belongs to the update agent and is an argument. \<open>None\<close> is a failed assertion, an access
  through a bad pointer or a loop that does not end.
\<close>

section \<open>State\<close>

record ('x, 'v, 'w) fw_store =
  fs_active_installers :: "nat option"
  fs_metadata_manager :: "('v, 'w) metadata_manager"
  fs_bank_tracker :: bank_tracker
  fs_update_index :: u32
  fs_boot_index :: u32
  fs_installers :: "('x, 'w) installer list"
  fs_volumes :: 'w

text \<open>What the platform provides: the CRC routine, the volume functions, memory and the index of registered installers.\<close>

record ('v, 'w) fwu_platform =
  pl_crc32 :: crc_routine
  pl_volume_funcs :: "('v, 'w) volume_funcs"
  pl_malloc :: "size_t \<Rightarrow> bytes option"
  pl_installer_index :: installer_index

definition update_volume_id :: "('x, 'v, 'w) fw_store \<Rightarrow> u32 \<Rightarrow> u32" where
  "update_volume_id s location_id = banked_volume_id location_id (banked_usage_id (fs_update_index s))"

definition current_volume_id :: "('x, 'v, 'w) fw_store \<Rightarrow> u32 \<Rightarrow> u32" where
  "current_volume_id s location_id = banked_volume_id location_id (banked_usage_id (fs_boot_index s))"

text \<open>A call on the installer at \<open>k\<close>.\<close>

definition set_installer :: "nat \<Rightarrow> ('x, 'w) installer \<Rightarrow> ('x, 'v, 'w) fw_store \<Rightarrow> ('x, 'v, 'w) fw_store" where
  "set_installer k i s = s\<lparr>fs_installers := (fs_installers s)[k := i]\<rparr>"

definition on_installer ::
  "(('x, 'w) installer \<Rightarrow> 'w \<Rightarrow> (fwu_status \<times> ('x, 'w) installer \<times> 'w) option) \<Rightarrow> nat \<Rightarrow> ('x, 'v, 'w) fw_store \<Rightarrow>
    (fwu_status \<times> ('x, 'v, 'w) fw_store) option" where
  "on_installer f k s = do {
     i \<leftarrow> array_get (fs_installers s) (int k);
     (status, i, w) \<leftarrow> f i (fs_volumes s);
     Some (status, set_installer k i (s\<lparr>fs_volumes := w\<rparr>))
   }"

text \<open>A call of \<open>metadata_manager_update\<close>.\<close>

definition update_metadata ::
  "('v, 'w) fwu_platform \<Rightarrow> ('x, 'v, 'w) fw_store \<Rightarrow> fw_directory \<Rightarrow> u32 \<Rightarrow> u32 \<Rightarrow> (fwu_status \<times> ('x, 'v, 'w) fw_store) option" where
  "update_metadata pl s fw_dir active_index previous_active_index = do {
     (status, mm, w) \<leftarrow> metadata_manager_update (pl_crc32 pl) (pl_volume_funcs pl) (fs_metadata_manager s) active_index
       previous_active_index fw_dir (fs_bank_tracker s) (fs_volumes s);
     Some (status, s\<lparr>fs_metadata_manager := mm, fs_volumes := w\<rparr>)
   }"


section \<open>Active installers\<close>

definition activate_installer ::
  "('x, 'v, 'w) fw_store \<Rightarrow> nat \<Rightarrow> u32 \<Rightarrow> (fwu_status \<times> ('x, 'v, 'w) fw_store) option" where
  "activate_installer s k location_id = do {
     (status, s) \<leftarrow> on_installer (\<lambda>i. installer_begin i (current_volume_id s location_id) (update_volume_id s location_id)) k s;
     if status = FWU_STATUS_SUCCESS
     then Some (status, (set_installer k ((fs_installers s ! k)\<lparr>in_next := fs_active_installers s\<rparr>) s)\<lparr>fs_active_installers := Some k\<rparr>)
     else Some (status, s)
   }"

function copy_accepted_from ::
  "fw_directory \<Rightarrow> u32 \<Rightarrow> u32 \<Rightarrow> u32 \<Rightarrow> bank_tracker \<Rightarrow> nat \<Rightarrow> bank_tracker option" where
  "copy_accepted_from fw_dir location_id boot_index update_index bt index =
     (case fw_directory_get_image_info fw_dir index of
        None \<Rightarrow> Some bt
      | Some info \<Rightarrow> do {
          bt \<leftarrow> (if ii_location_id info = location_id
                then bank_tracker_copy_accept bt boot_index update_index (ii_image_index info) else Some bt);
          copy_accepted_from fw_dir location_id boot_index update_index bt (index + 1)
        })"
  by pat_completeness auto
termination
  by (relation "measure (\<lambda>(fw_dir, _, _, _, _, index). fd_num_images fw_dir - index)")
    (auto simp: fw_directory_get_image_info_def split: if_splits)

declare copy_accepted_from.simps [simp del]

definition copy_accepted_state_for_location ::
  "('x, 'v, 'w) fw_store \<Rightarrow> fw_directory \<Rightarrow> u32 \<Rightarrow> ('x, 'v, 'w) fw_store option" where
  "copy_accepted_state_for_location s fw_dir location_id = do {
     bt \<leftarrow> copy_accepted_from fw_dir location_id (fs_boot_index s) (fs_update_index s) (fs_bank_tracker s) 0;
     Some (s\<lparr>fs_bank_tracker := bt\<rparr>)
   }"

text \<open>The search of the list of active installers in \<open>install_unchanged_images\<close>.\<close>

partial_function (option) is_installer_found ::
  "('x, 'w) installer list \<Rightarrow> u32 \<Rightarrow> nat option \<Rightarrow> bool option" where
  "is_installer_found is location_id p =
     (case p of
        None \<Rightarrow> Some False
      | Some k \<Rightarrow> do {
          i \<leftarrow> array_get is (int k);
          if in_location_id i = location_id \<and> installer_status i = 0 then Some True
          else is_installer_found is location_id (in_next i)
        })"

fun install_unchanged_from ::
  "('v, 'w) fwu_platform \<Rightarrow> fw_directory \<Rightarrow> ('x, 'v, 'w) fw_store \<Rightarrow> u32 list \<Rightarrow> (fwu_status \<times> ('x, 'v, 'w) fw_store) option" where
  "install_unchanged_from pl fw_dir s [] = Some (FWU_STATUS_SUCCESS, s)"
| "install_unchanged_from pl fw_dir s (location_id # ids) = do {
     found \<leftarrow> is_installer_found (fs_installers s) location_id (fs_active_installers s);
     if found then install_unchanged_from pl fw_dir s ids
     else
       (case installer_index_find (pl_installer_index pl) (fs_installers s) INSTALL_TYPE_WHOLE_VOLUME_COPY location_id of
          None \<Rightarrow> Some (FWU_STATUS_NOT_AVAILABLE, s)
        | Some k \<Rightarrow> do {
            (status, s) \<leftarrow> on_installer (\<lambda>i. installer_begin i (current_volume_id s location_id) (update_volume_id s location_id)) k s;
            if status \<noteq> FWU_STATUS_SUCCESS then Some (status, s)
            else do {
              (status, s) \<leftarrow> on_installer installer_finalize k s;
              if status \<noteq> FWU_STATUS_SUCCESS then Some (status, s)
              else do {
                s \<leftarrow> copy_accepted_state_for_location s fw_dir location_id;
                install_unchanged_from pl fw_dir s ids
              }
            }
          })
   }"

definition install_unchanged_images ::
  "('v, 'w) fwu_platform \<Rightarrow> ('x, 'v, 'w) fw_store \<Rightarrow> fw_directory \<Rightarrow> (fwu_status \<times> ('x, 'v, 'w) fw_store) option" where
  "install_unchanged_images pl s fw_dir =
     install_unchanged_from pl fw_dir s (installer_index_get_location_ids (pl_installer_index pl))"


section \<open>Operations\<close>

text \<open>The objects reached through pointers are as the platform left them.\<close>

definition banked_fw_store_init ::
  "'v volume_index \<Rightarrow> (size_t \<Rightarrow> bytes option) \<Rightarrow> 'w metadata_serializer \<Rightarrow> ('x, 'w) installer list \<Rightarrow> 'w \<Rightarrow>
    fwu_status \<times> ('x, 'v, 'w) fw_store" where
  "banked_fw_store_init idx malloc serializer is w =
     (case metadata_manager_init idx malloc serializer of (status, mm) \<Rightarrow>
        (status,
         \<lparr>fs_active_installers = None, fs_metadata_manager = mm, fs_bank_tracker = bank_tracker_init, fs_update_index = 0,
          fs_boot_index = 0, fs_installers = is, fs_volumes = w\<rparr>))"

definition banked_fw_store_deinit :: "('x, 'v, 'w) fw_store \<Rightarrow> ('x, 'v, 'w) fw_store" where
  "banked_fw_store_deinit s =
     s\<lparr>fs_bank_tracker := bank_tracker_deinit (fs_bank_tracker s),
       fs_metadata_manager := metadata_manager_deinit (fs_metadata_manager s)\<rparr>"

text \<open>The result has the directory with the boot information filled in. When the indices cannot be read the local
  boot information keeps its zeros.\<close>

definition fw_store_synchronize ::
  "('v, 'w) fwu_platform \<Rightarrow> ('x, 'v, 'w) fw_store \<Rightarrow> fw_directory \<Rightarrow> u32 \<Rightarrow>
    (fwu_status \<times> fw_directory \<times> ('x, 'v, 'w) fw_store) option" where
  "fw_store_synchronize pl s fw_dir boot_index = do {
     let s = s\<lparr>fs_boot_index := boot_index, fs_update_index := bank_scheme_next_index boot_index\<rparr>;
     let boot_info = zero_boot_info\<lparr>bi_boot_index := boot_index\<rparr>;
     (status, mm, w) \<leftarrow> metadata_manager_check_and_repair (pl_crc32 pl) (pl_volume_funcs pl) (pl_malloc pl)
       (fs_metadata_manager s) fw_dir (fs_volumes s);
     let s = s\<lparr>fs_metadata_manager := mm, fs_volumes := w\<rparr>;
     if status \<noteq> FWU_STATUS_SUCCESS
     then do {
       let boot_info = boot_info\<lparr>bi_active_index := boot_index, bi_previous_active_index := boot_index\<rparr>;
       bt \<leftarrow> bank_tracker_set_holds_accepted_content (fs_bank_tracker s) (fs_boot_index s);
       (status, s) \<leftarrow> update_metadata pl (s\<lparr>fs_bank_tracker := bt\<rparr>) fw_dir boot_index boot_index;
       Some (status, fw_directory_set_boot_info fw_dir boot_info, s)
     }
     else do {
       (status, indices) \<leftarrow> metadata_manager_get_active_indices (fs_metadata_manager s);
       let boot_info = (case indices of
           Some (active, previous) \<Rightarrow> boot_info\<lparr>bi_active_index := active, bi_previous_active_index := previous\<rparr>
         | None \<Rightarrow> boot_info);
       bt \<leftarrow> metadata_manager_preload_bank_tracker (fs_metadata_manager s) (fs_bank_tracker s);
       let s = s\<lparr>fs_bank_tracker := bt\<rparr>;
       if status = FWU_STATUS_SUCCESS \<and> boot_index \<noteq> bi_active_index boot_info
       then do {
         let boot_info = boot_info\<lparr>bi_active_index := boot_index, bi_previous_active_index := boot_index\<rparr>;
         (status, s) \<leftarrow> update_metadata pl s fw_dir boot_index boot_index;
         Some (status, fw_directory_set_boot_info fw_dir boot_info, s)
       }
       else Some (status, fw_directory_set_boot_info fw_dir boot_info, s)
     }
   }"

definition fw_store_begin_install ::
  "('v, 'w) fwu_platform \<Rightarrow> ('x, 'v, 'w) fw_store \<Rightarrow> fw_directory \<Rightarrow> (fwu_status \<times> ('x, 'v, 'w) fw_store) option" where
  "fw_store_begin_install pl s fw_dir =
     (if fs_active_installers s = None
      then do {
        bt \<leftarrow> bank_tracker_set_no_content (fs_bank_tracker s) (fs_update_index s);
        update_metadata pl (s\<lparr>fs_bank_tracker := bt\<rparr>) fw_dir (fs_boot_index s) (fs_boot_index s)
      }
      else None)"

partial_function (option) fw_store_cancel_install ::
  "('x, 'v, 'w) fw_store \<Rightarrow> ('x, 'v, 'w) fw_store option" where
  "fw_store_cancel_install s =
     (case fs_active_installers s of
        None \<Rightarrow> Some s
      | Some k \<Rightarrow> do {
          i \<leftarrow> array_get (fs_installers s) (int k);
          let s = s\<lparr>fs_active_installers := in_next i\<rparr>;
          (i, w) \<leftarrow> installer_abort i (fs_volumes s);
          fw_store_cancel_install (set_installer k i (s\<lparr>fs_volumes := w\<rparr>))
        })"

text \<open>The second loop of \<open>fw_store_finalize_install\<close>.\<close>

partial_function (option) finalize_active ::
  "fwu_status \<Rightarrow> bool \<Rightarrow> ('x, 'v, 'w) fw_store \<Rightarrow> (fwu_status \<times> bool \<times> ('x, 'v, 'w) fw_store) option" where
  "finalize_active status is_error s =
     (case fs_active_installers s of
        None \<Rightarrow> Some (status, is_error, s)
      | Some k \<Rightarrow> do {
          i \<leftarrow> array_get (fs_installers s) (int k);
          let s = s\<lparr>fs_active_installers := in_next i\<rparr>;
          if \<not> is_error
          then do {
            (status, i, w) \<leftarrow> installer_finalize i (fs_volumes s);
            finalize_active status (status \<noteq> FWU_STATUS_SUCCESS) (set_installer k i (s\<lparr>fs_volumes := w\<rparr>))
          }
          else do {
            (i, w) \<leftarrow> installer_abort i (fs_volumes s);
            finalize_active status is_error (set_installer k i (s\<lparr>fs_volumes := w\<rparr>))
          }
        })"

definition fw_store_finalize_install ::
  "('v, 'w) fwu_platform \<Rightarrow> ('x, 'v, 'w) fw_store \<Rightarrow> fw_directory \<Rightarrow> (fwu_status \<times> ('x, 'v, 'w) fw_store) option" where
  "fw_store_finalize_install pl s fw_dir = do {
     let is_error = (fs_active_installers s = None);
     (status, is_error, s) \<leftarrow>
       (if \<not> is_error
        then do {
          (status, s) \<leftarrow> install_unchanged_images pl s fw_dir;
          Some (status, status \<noteq> FWU_STATUS_SUCCESS, s)
        }
        else Some (FWU_STATUS_NOT_AVAILABLE, is_error, s));
     (status, is_error, s) \<leftarrow> finalize_active status is_error s;
     if is_error then Some (if status \<noteq> FWU_STATUS_SUCCESS then status else FWU_STATUS_NOT_AVAILABLE, s)
     else do {
       bt \<leftarrow> bank_tracker_set_holds_content (fs_bank_tracker s) (fs_update_index s);
       update_metadata pl (s\<lparr>fs_bank_tracker := bt\<rparr>) fw_dir (fs_update_index s) (fs_boot_index s)
     }
   }"

definition fw_store_select_installer ::
  "('v, 'w) fwu_platform \<Rightarrow> ('x, 'v, 'w) fw_store \<Rightarrow> image_info \<Rightarrow> (fwu_status \<times> nat option \<times> ('x, 'v, 'w) fw_store) option" where
  "fw_store_select_installer pl s info =
     (case installer_index_find (pl_installer_index pl) (fs_installers s) (ii_install_type info) (ii_location_id info) of
        None \<Rightarrow> Some (FWU_STATUS_UNKNOWN, None, s)
      | Some k \<Rightarrow> do {
          i \<leftarrow> array_get (fs_installers s) (int k);
          (status, s) \<leftarrow> (if installer_is_active i then Some (FWU_STATUS_SUCCESS, s)
                          else activate_installer s k (ii_location_id info));
          if status = FWU_STATUS_SUCCESS
          then do {
            (status, s) \<leftarrow> on_installer (\<lambda>i. installer_open i info) k s;
            Some (status, if status = FWU_STATUS_SUCCESS then Some k else None, s)
          }
          else Some (status, None, s)
        })"

definition fw_store_write_image ::
  "('x, 'v, 'w) fw_store \<Rightarrow> nat \<Rightarrow> bytes \<Rightarrow> size_t \<Rightarrow> (fwu_status \<times> ('x, 'v, 'w) fw_store) option" where
  "fw_store_write_image s k data data_len = do {
     i \<leftarrow> array_get (fs_installers s) (int k);
     if \<not> installer_is_active i then Some (FWU_STATUS_DENIED, s)
     else on_installer (\<lambda>i. installer_write i data data_len) k s
   }"

definition fw_store_commit_image ::
  "('x, 'v, 'w) fw_store \<Rightarrow> nat \<Rightarrow> image_info \<Rightarrow> bool \<Rightarrow> (fwu_status \<times> ('x, 'v, 'w) fw_store) option" where
  "fw_store_commit_image s k info accepted = do {
     i \<leftarrow> array_get (fs_installers s) (int k);
     if \<not> installer_is_active i then Some (FWU_STATUS_DENIED, s)
     else do {
       (status, s) \<leftarrow> on_installer installer_commit k s;
       if status = FWU_STATUS_SUCCESS \<and> accepted
       then do {
         bt \<leftarrow> bank_tracker_accept (fs_bank_tracker s) (fs_update_index s) (ii_image_index info);
         Some (status, s\<lparr>fs_bank_tracker := bt\<rparr>)
       }
       else Some (status, s)
     }
   }"

definition fw_store_notify_accepted ::
  "('v, 'w) fwu_platform \<Rightarrow> ('x, 'v, 'w) fw_store \<Rightarrow> fw_directory \<Rightarrow> image_info \<Rightarrow> (bool \<times> ('x, 'v, 'w) fw_store) option" where
  "fw_store_notify_accepted pl s fw_dir info = do {
     bt \<leftarrow> bank_tracker_accept (fs_bank_tracker s) (fs_boot_index s) (ii_image_index info);
     (status, s) \<leftarrow> update_metadata pl (s\<lparr>fs_bank_tracker := bt\<rparr>) fw_dir (fs_boot_index s) (fs_update_index s);
     if status = FWU_STATUS_SUCCESS
     then do {
       all_accepted \<leftarrow> bank_tracker_is_all_accepted (fs_bank_tracker s) (fs_boot_index s) (fw_directory_num_images fw_dir);
       Some (all_accepted, s)
     }
     else Some (False, s)
   }"

definition fw_store_is_accepted :: "('x, 'v, 'w) fw_store \<Rightarrow> image_info \<Rightarrow> bool option" where
  "fw_store_is_accepted s info = bank_tracker_is_accepted (fs_bank_tracker s) (fs_boot_index s) (ii_image_index info)"

definition fw_store_is_trial :: "('x, 'v, 'w) fw_store \<Rightarrow> fw_directory \<Rightarrow> bool option" where
  "fw_store_is_trial s fw_dir =
     (let boot_info = fw_directory_get_boot_info fw_dir
      in if bi_boot_index boot_info = bi_active_index boot_info
         then map_option Not (bank_tracker_is_all_accepted (fs_bank_tracker s) (fs_boot_index s) (fw_directory_num_images fw_dir))
         else Some False)"

definition fw_store_commit_to_update :: "('x, 'v, 'w) fw_store \<Rightarrow> fwu_status" where
  "fw_store_commit_to_update s = FWU_STATUS_SUCCESS"

definition fw_store_revert_to_previous ::
  "('v, 'w) fwu_platform \<Rightarrow> ('x, 'v, 'w) fw_store \<Rightarrow> fw_directory \<Rightarrow> (fwu_status \<times> ('x, 'v, 'w) fw_store) option" where
  "fw_store_revert_to_previous pl s fw_dir = do {
     (status, indices) \<leftarrow> metadata_manager_get_active_indices (fs_metadata_manager s);
     if status \<noteq> 0 then Some (status, s)
     else do {
       (active_index, previous_active_index) \<leftarrow> indices;
       let (active_index, previous_active_index) =
         (if active_index = fs_boot_index s then (previous_active_index, fs_boot_index s)
          else (fs_boot_index s, active_index));
       let s = s\<lparr>fs_update_index := bank_scheme_next_index active_index\<rparr>;
       bt \<leftarrow> bank_tracker_set_holds_accepted_content (fs_bank_tracker s) active_index;
       update_metadata pl (s\<lparr>fs_bank_tracker := bt\<rparr>) fw_dir active_index previous_active_index
     }
   }"

definition FWU_METADATA_CANONICAL_UUID :: bytes where
  "FWU_METADATA_CANONICAL_UUID = c_literal ''8a7a84a0-8387-40f6-ab41-a8b9a5a60d23''"

text \<open>The data exported is the metadata cache, known by its length. Inner \<open>None\<close> is an identifier that is not recognised.
  \<open>junk\<close> is the contents of the local structures before they are filled.\<close>

definition fw_store_export ::
  "bytes \<Rightarrow> ('x, 'v, 'w) fw_store \<Rightarrow> fw_uuid \<Rightarrow>
    ((fwu_status \<times> size_t option) option \<times> ('x, 'v, 'w) fw_store) option" where
  "fw_store_export junk s uuid = do {
     target_uuid \<leftarrow> uuid_guid_octets_from_canonical junk junk FWU_METADATA_CANONICAL_UUID;
     if uuid_is_equal uuid target_uuid
     then
       (case metadata_manager_fetch (fs_metadata_manager s) of (status, data, mm) \<Rightarrow>
          Some (Some (status, map_option (\<lambda>(_, data_len, _). data_len) data), s\<lparr>fs_metadata_manager := mm\<rparr>))
     else Some (None, s)
   }"

end
