(* ===== verification/UpdateAgent.thy ===== *)
theory UpdateAgent
  imports BankedFwStore StreamRefinement
begin

text \<open>
  The update agent (\<open>update_agent.c\<close>) with the interface it is called through (\<open>update_agent_interface.c\<close>), the serializer
  of the image directory (\<open>img_dir_serializer.c\<close>) and the firmware inspector that asks the installers
  (\<open>direct_fw_inspector.c\<close>).

  The agent's record contains the firmware store it points to. The two buffers its streams read are the image directory
  buffer and the metadata cache.
\<close>

section \<open>State\<close>

datatype fwu_state =
    FWU_STATE_DEINITIALZED
  | FWU_STATE_INITIALIZING
  | FWU_STATE_REGULAR
  | FWU_STATE_STAGING
  | FWU_STATE_TRIAL_PENDING
  | FWU_STATE_TRIAL

datatype agent_buffer = ImageDirBuf | MetadataCache

record ('x, 'v, 'w) update_agent =
  ua_state :: fwu_state
  ua_fw_store :: "('x, 'v, 'w) fw_store"
  ua_fw_directory :: fw_directory
  ua_stream_manager :: "(agent_buffer, unit, nat) stream_manager"
  ua_image_dir_buf :: "bytes option"
  ua_image_dir_buf_size :: size_t

record fwu_discovery_result =
  dr_service_status :: int
  dr_version_major :: byte
  dr_version_minor :: byte
  dr_max_payload_size :: nat
  dr_flags :: u32
  dr_vendor_specific_flags :: u32

text \<open>The operations of the store that the streams of the agent call.\<close>

definition agent_streams :: "(unit, nat, ('x, 'v, 'w) fw_store) fw_store_streams" where
  "agent_streams =
     \<lparr>fss_commit_image = (\<lambda>_ k info accepted s. fw_store_commit_image s k info accepted),
      fss_write_image = (\<lambda>_ k d s. fw_store_write_image s k d (length d))\<rparr>"

definition agent_memory :: "('x, 'v, 'w) update_agent \<Rightarrow> agent_buffer \<Rightarrow> bytes" where
  "agent_memory a b =
     (case (case b of ImageDirBuf \<Rightarrow> ua_image_dir_buf a | MetadataCache \<Rightarrow> mm_metadata_cache (fs_metadata_manager (ua_fw_store a))) of
        Some m \<Rightarrow> m | None \<Rightarrow> [])"


section \<open>Image directory\<close>

abbreviation FWU_IMAGE_DIRECTORY_VERSION :: nat where "FWU_IMAGE_DIRECTORY_VERSION \<equiv> 2"

text \<open>The fixed part has 24 bytes, an entry 40.\<close>

definition img_dir_serializer_get_len :: "fw_directory \<Rightarrow> size_t" where
  "img_dir_serializer_get_len fw_dir = add64 24 (mul64 40 (fw_directory_num_images fw_dir))"

definition serialize_img_dir_entry ::
  "('x, 'v, 'w) fw_store \<Rightarrow> image_info \<Rightarrow> nat \<Rightarrow> bytes \<Rightarrow> bytes option" where
  "serialize_img_dir_entry s info base buf = do {
     buf \<leftarrow> mem_write buf base (octets (ii_img_type_uuid info));
     buf \<leftarrow> put_field buf (base + 16) 4 (unat (ii_permissions info));
     buf \<leftarrow> put_field buf (base + 20) 4 (ii_max_size info);
     buf \<leftarrow> put_field buf (base + 24) 4 (unat (ii_lowest_accepted_version info));
     buf \<leftarrow> put_field buf (base + 28) 4 (unat (ii_active_version info));
     accepted \<leftarrow> fw_store_is_accepted s info;
     put_field buf (base + 32) 4 (of_bool accepted)
   }"

fun serialize_images ::
  "('x, 'v, 'w) fw_store \<Rightarrow> fw_directory \<Rightarrow> bytes \<Rightarrow> nat \<Rightarrow> nat \<Rightarrow> bytes option" where
  "serialize_images s fw_dir buf image_index 0 = Some buf"
| "serialize_images s fw_dir buf image_index (Suc n) = do {
     info \<leftarrow> fw_directory_get_image_info fw_dir image_index;
     buf \<leftarrow> serialize_img_dir_entry s info (24 + 40 * image_index) buf;
     serialize_images s fw_dir buf (image_index + 1) n
   }"

definition img_dir_serializer_serialize ::
  "fw_directory \<Rightarrow> ('x, 'v, 'w) fw_store \<Rightarrow> bytes \<Rightarrow> size_t \<Rightarrow> (fwu_status \<times> bytes \<times> size_t) option" where
  "img_dir_serializer_serialize fw_dir s buf buf_size =
     (let serialized_len = img_dir_serializer_get_len fw_dir
      in if buf_size < serialized_len then Some (FWU_STATUS_OUT_OF_BOUNDS, buf, 0)
         else do {
           buf \<leftarrow> mem_write buf 0 (replicate serialized_len 0);
           let boot_info = fw_directory_get_boot_info fw_dir;
           buf \<leftarrow> put_field buf 0 4 FWU_IMAGE_DIRECTORY_VERSION;
           buf \<leftarrow> put_field buf 4 4 24;
           buf \<leftarrow> put_field buf 8 4 (fw_directory_num_images fw_dir);
           buf \<leftarrow> put_field buf 12 4 (of_bool (bi_active_index boot_info = bi_boot_index boot_info));
           buf \<leftarrow> put_field buf 16 4 40;
           buf \<leftarrow> put_field buf 20 4 0;
           buf \<leftarrow> serialize_images s fw_dir buf 0 (fw_directory_num_images fw_dir);
           Some (FWU_STATUS_SUCCESS, buf, serialized_len)
         })"


section \<open>Firmware inspector\<close>

function direct_fw_inspector_from ::
  "installer_index \<Rightarrow> u32 \<Rightarrow> nat \<Rightarrow> fw_directory \<Rightarrow> ('x, 'v, 'w) fw_store \<Rightarrow>
    (fwu_status \<times> fw_directory \<times> ('x, 'v, 'w) fw_store) option" where
  "direct_fw_inspector_from ix boot_index index fw_dir s =
     (case installer_index_get ix index of
        None \<Rightarrow> Some (FWU_STATUS_SUCCESS, fw_dir, s)
      | Some k \<Rightarrow> do {
          i \<leftarrow> array_get (fs_installers s) (int k);
          (status, fw_dir, i, w) \<leftarrow> installer_enumerate i
            (banked_volume_id (in_location_id i) (banked_usage_id boot_index)) fw_dir (fs_volumes s);
          let s = set_installer k i (s\<lparr>fs_volumes := w\<rparr>);
          if status \<noteq> FWU_STATUS_SUCCESS then Some (status, fw_dir, s)
          else direct_fw_inspector_from ix boot_index (index + 1) fw_dir s
        })"
  by pat_completeness auto
termination
  by (relation "measure (\<lambda>(ix, _, index, _, _). length (ix_installers ix) - index)")
    (auto simp: installer_index_get_def split: if_splits)

declare direct_fw_inspector_from.simps [simp del]

definition direct_fw_inspector_inspect ::
  "installer_index \<Rightarrow> fw_directory \<Rightarrow> u32 \<Rightarrow> ('x, 'v, 'w) fw_store \<Rightarrow>
    (fwu_status \<times> fw_directory \<times> ('x, 'v, 'w) fw_store) option" where
  "direct_fw_inspector_inspect ix fw_dir boot_index s = direct_fw_inspector_from ix boot_index 0 fw_dir s"


section \<open>Operations of the agent\<close>

definition discover :: "('x, 'v, 'w) update_agent \<Rightarrow> fwu_status \<times> fwu_discovery_result" where
  "discover a =
     (FWU_STATUS_SUCCESS,
      \<lparr>dr_service_status = 0, dr_version_major = 1, dr_version_minor = 0, dr_max_payload_size = 0, dr_flags = 0,
       dr_vendor_specific_flags = 0\<rparr>)"

definition cancel_staging :: "('x, 'v, 'w) update_agent \<Rightarrow> (fwu_status \<times> ('x, 'v, 'w) update_agent) option" where
  "cancel_staging a =
     (if ua_state a = FWU_STATE_STAGING
      then do {
        sm \<leftarrow> stream_manager_cancel_streams (ua_stream_manager a) FWU_STREAM_TYPE_INSTALL;
        s \<leftarrow> fw_store_cancel_install (ua_fw_store a);
        Some (FWU_STATUS_SUCCESS, a\<lparr>ua_stream_manager := sm, ua_fw_store := s, ua_state := FWU_STATE_REGULAR\<rparr>)
      }
      else Some (FWU_STATUS_DENIED, a))"

definition begin_staging ::
  "('v, 'w) fwu_platform \<Rightarrow> ('x, 'v, 'w) update_agent \<Rightarrow> (fwu_status \<times> ('x, 'v, 'w) update_agent) option" where
  "begin_staging pl a = do {
     (_, a) \<leftarrow> cancel_staging a;
     if ua_state a = FWU_STATE_REGULAR
     then do {
       (status, s) \<leftarrow> fw_store_begin_install pl (ua_fw_store a) (ua_fw_directory a);
       let a = a\<lparr>ua_fw_store := s\<rparr>;
       Some (status, if status = FWU_STATUS_SUCCESS then a\<lparr>ua_state := FWU_STATE_STAGING\<rparr> else a)
     }
     else Some (FWU_STATUS_DENIED, a)
   }"

definition end_staging ::
  "('v, 'w) fwu_platform \<Rightarrow> ('x, 'v, 'w) update_agent \<Rightarrow> (fwu_status \<times> ('x, 'v, 'w) update_agent) option" where
  "end_staging pl a =
     (if ua_state a = FWU_STATE_STAGING
      then
        if \<not> stream_manager_is_open_streams (ua_stream_manager a) FWU_STREAM_TYPE_INSTALL
        then do {
          (status, s) \<leftarrow> fw_store_finalize_install pl (ua_fw_store a) (ua_fw_directory a);
          let a = a\<lparr>ua_fw_store := s\<rparr>;
          Some (status, if status = FWU_STATUS_SUCCESS then a\<lparr>ua_state := FWU_STATE_TRIAL_PENDING\<rparr> else a)
        }
        else Some (FWU_STATUS_BUSY, a)
      else Some (FWU_STATUS_DENIED, a))"

definition accept ::
  "('v, 'w) fwu_platform \<Rightarrow> ('x, 'v, 'w) update_agent \<Rightarrow> fw_uuid \<Rightarrow> (fwu_status \<times> ('x, 'v, 'w) update_agent) option" where
  "accept pl a image_type_uuid =
     (if ua_state a = FWU_STATE_TRIAL
      then
        (case fw_directory_find_image_info (ua_fw_directory a) image_type_uuid of
           Some info \<Rightarrow> do {
             (all_accepted, s) \<leftarrow> fw_store_notify_accepted pl (ua_fw_store a) (ua_fw_directory a) info;
             let a = a\<lparr>ua_fw_store := s\<rparr>;
             if all_accepted then Some (fw_store_commit_to_update s, a\<lparr>ua_state := FWU_STATE_REGULAR\<rparr>)
             else Some (FWU_STATUS_SUCCESS, a)
           }
         | None \<Rightarrow> Some (FWU_STATUS_UNKNOWN, a))
      else Some (FWU_STATUS_DENIED, a))"

definition select_previous ::
  "('v, 'w) fwu_platform \<Rightarrow> ('x, 'v, 'w) update_agent \<Rightarrow> (fwu_status \<times> ('x, 'v, 'w) update_agent) option" where
  "select_previous pl a =
     (if ua_state a = FWU_STATE_TRIAL \<or> ua_state a = FWU_STATE_TRIAL_PENDING
      then do {
        (status, s) \<leftarrow> fw_store_revert_to_previous pl (ua_fw_store a) (ua_fw_directory a);
        Some (status, a\<lparr>ua_fw_store := s, ua_state := FWU_STATE_REGULAR\<rparr>)
      }
      else Some (FWU_STATUS_DENIED, a))"

definition FWU_DIRECTORY_CANONICAL_UUID :: bytes where
  "FWU_DIRECTORY_CANONICAL_UUID = c_literal ''deee58d9-5147-4ad3-a290-77666e2341a5''"

definition open_buffer_stream ::
  "('x, 'v, 'w) update_agent \<Rightarrow> agent_buffer \<Rightarrow> size_t \<Rightarrow> (fwu_status \<times> u32 option \<times> ('x, 'v, 'w) update_agent) option" where
  "open_buffer_stream a b len = do {
     (status, handle, sm, s) \<leftarrow> stream_manager_open_buffer_stream agent_streams (ua_stream_manager a) b len (ua_fw_store a);
     Some (status, handle, a\<lparr>ua_stream_manager := sm, ua_fw_store := s\<rparr>)
   }"

text \<open>The three handlers in the chain of \<open>open\<close>: inner \<open>None\<close> is an identifier that is not handled. The local structures
  hold \<open>junk\<close> before they are filled.\<close>

definition open_image_directory ::
  "bytes \<Rightarrow> ('x, 'v, 'w) update_agent \<Rightarrow> fw_uuid \<Rightarrow> ((fwu_status \<times> u32 option \<times> ('x, 'v, 'w) update_agent) option) option" where
  "open_image_directory junk a uuid = do {
     target_uuid \<leftarrow> uuid_guid_octets_from_canonical junk junk FWU_DIRECTORY_CANONICAL_UUID;
     if uuid_is_equal uuid target_uuid
     then do {
       buf \<leftarrow> ua_image_dir_buf a;
       (status, buf, serialized_len) \<leftarrow> img_dir_serializer_serialize (ua_fw_directory a) (ua_fw_store a) buf (ua_image_dir_buf_size a);
       let a = a\<lparr>ua_image_dir_buf := Some buf\<rparr>;
       r \<leftarrow> (if status = FWU_STATUS_SUCCESS then open_buffer_stream a ImageDirBuf serialized_len else Some (status, None, a));
       Some (Some r)
     }
     else Some None
   }"

definition open_fw_store_object ::
  "bytes \<Rightarrow> ('x, 'v, 'w) update_agent \<Rightarrow> fw_uuid \<Rightarrow> ((fwu_status \<times> u32 option \<times> ('x, 'v, 'w) update_agent) option) option" where
  "open_fw_store_object junk a uuid = do {
     (exported, s) \<leftarrow> fw_store_export junk (ua_fw_store a) uuid;
     let a = a\<lparr>ua_fw_store := s\<rparr>;
     (case exported of
        None \<Rightarrow> Some None
      | Some (status, len) \<Rightarrow>
          if status = FWU_STATUS_SUCCESS
          then do { len \<leftarrow> len; r \<leftarrow> open_buffer_stream a MetadataCache len; Some (Some r) }
          else Some (Some (status, None, a)))
   }"

definition open_fw_image ::
  "('v, 'w) fwu_platform \<Rightarrow> ('x, 'v, 'w) update_agent \<Rightarrow> fw_uuid \<Rightarrow>
    ((fwu_status \<times> u32 option \<times> ('x, 'v, 'w) update_agent) option) option" where
  "open_fw_image pl a uuid =
     (case fw_directory_find_image_info (ua_fw_directory a) uuid of
        None \<Rightarrow> Some None
      | Some info \<Rightarrow>
          if ua_state a = FWU_STATE_STAGING
          then do {
            (status, selected, s) \<leftarrow> fw_store_select_installer pl (ua_fw_store a) info;
            let a = a\<lparr>ua_fw_store := s\<rparr>;
            if status = FWU_STATUS_SUCCESS
            then do {
              k \<leftarrow> selected;
              (status, handle, sm, s) \<leftarrow> stream_manager_open_install_stream agent_streams (ua_stream_manager a) () k info
                (ua_fw_store a);
              Some (Some (status, handle, a\<lparr>ua_stream_manager := sm, ua_fw_store := s\<rparr>))
            }
            else Some (Some (status, None, a))
          }
          else Some (Some (FWU_STATUS_DENIED, None, a)))"

definition agent_open ::
  "('v, 'w) fwu_platform \<Rightarrow> bytes \<Rightarrow> ('x, 'v, 'w) update_agent \<Rightarrow> fw_uuid \<Rightarrow>
    (fwu_status \<times> u32 option \<times> ('x, 'v, 'w) update_agent) option" where
  "agent_open pl junk a uuid = do {
     r \<leftarrow> open_image_directory junk a uuid;
     (case r of
        Some r \<Rightarrow> Some r
      | None \<Rightarrow> do {
          r \<leftarrow> open_fw_store_object junk a uuid;
          (case r of
             Some r \<Rightarrow> Some r
           | None \<Rightarrow> do {
               r \<leftarrow> open_fw_image pl a uuid;
               (case r of Some r \<Rightarrow> Some r | None \<Rightarrow> Some (FWU_STATUS_UNKNOWN, None, a))
             })
        })
   }"

text \<open>The result has the two numbers stored for the caller; the progress is not stored after an error.\<close>

definition commit ::
  "('x, 'v, 'w) update_agent \<Rightarrow> u32 \<Rightarrow> bool \<Rightarrow> (fwu_status \<times> (u32 option \<times> u32) \<times> ('x, 'v, 'w) update_agent) option" where
  "commit a handle accepted = do {
     (result, sm, s) \<leftarrow> stream_manager_close agent_streams (ua_stream_manager a) handle accepted (ua_fw_store a);
     Some (result, (if result = 0 then Some 1 else None, 1), a\<lparr>ua_stream_manager := sm, ua_fw_store := s\<rparr>)
   }"

definition write_stream ::
  "('x, 'v, 'w) update_agent \<Rightarrow> u32 \<Rightarrow> bytes \<Rightarrow> (fwu_status \<times> ('x, 'v, 'w) update_agent) option" where
  "write_stream a handle data = do {
     (status, s) \<leftarrow> stream_manager_write agent_streams (ua_stream_manager a) handle data (ua_fw_store a);
     Some (status, a\<lparr>ua_fw_store := s\<rparr>)
   }"

definition read_stream ::
  "('x, 'v, 'w) update_agent \<Rightarrow> u32 \<Rightarrow> size_t \<Rightarrow> (fwu_status \<times> (bytes \<times> size_t) option \<times> ('x, 'v, 'w) update_agent) option" where
  "read_stream a handle buf_size = do {
     (status, r, sm) \<leftarrow> stream_manager_read (agent_memory a) (ua_stream_manager a) handle buf_size;
     Some (status, r, a\<lparr>ua_stream_manager := sm\<rparr>)
   }"


section \<open>Start and stop\<close>

text \<open>What \<open>calloc\<close> gives for the stream manager.\<close>

definition zero_stream_manager :: "(agent_buffer, unit, nat) stream_manager" where
  "zero_stream_manager =
     \<lparr>sm_contexts = replicate FWU_STREAM_MANAGER_POOL_SIZE
        \<lparr>sc_type = FWU_STREAM_TYPE_NONE, sc_handle = 0, sc_next = None, sc_prev = None, sc_variant = Unset\<rparr>,
      sm_free = None, sm_active_head = None, sm_active_tail = None, sm_rolling_count = 0\<rparr>"

text \<open>\<open>mem\<close> says whether the context and the agent can be allocated. The result has the agent, \<open>None\<close> after a failure, and
  the firmware store as it is left.\<close>

definition update_agent_init ::
  "('v, 'w) fwu_platform \<Rightarrow> bool \<times> bool \<Rightarrow> u32 \<Rightarrow>
    (fw_directory \<Rightarrow> u32 \<Rightarrow> ('x, 'v, 'w) fw_store \<Rightarrow> (fwu_status \<times> fw_directory \<times> ('x, 'v, 'w) fw_store) option) \<Rightarrow>
    ('x, 'v, 'w) fw_store \<Rightarrow> (('x, 'v, 'w) update_agent option \<times> ('x, 'v, 'w) fw_store) option" where
  "update_agent_init pl mem boot_index fw_inspect_method s =
     (if \<not> fst mem then Some (None, s)
      else do {
        sm \<leftarrow> stream_manager_init zero_stream_manager;
        (status, fw_dir, s) \<leftarrow> fw_inspect_method fw_directory_init boot_index s;
        if status \<noteq> FWU_STATUS_SUCCESS then Some (None, s)
        else do {
          (status, fw_dir, s) \<leftarrow> fw_store_synchronize pl s fw_dir boot_index;
          if status \<noteq> FWU_STATUS_SUCCESS then Some (None, s)
          else do {
            let size = img_dir_serializer_get_len fw_dir;
            (case pl_malloc pl size of
               None \<Rightarrow> Some (None, s)
             | Some buf \<Rightarrow> do {
                 is_trial \<leftarrow> fw_store_is_trial s fw_dir;
                 if \<not> snd mem then Some (None, s)
                 else Some (Some \<lparr>ua_state = (if is_trial then FWU_STATE_TRIAL else FWU_STATE_REGULAR), ua_fw_store = s,
                        ua_fw_directory = fw_dir, ua_stream_manager = sm, ua_image_dir_buf = Some buf,
                        ua_image_dir_buf_size = size\<rparr>, s)
               })
          }
        }
      })"

text \<open>The context is freed; the store stays.\<close>

definition update_agent_deinit :: "('x, 'v, 'w) update_agent \<Rightarrow> ('x, 'v, 'w) fw_store" where
  "update_agent_deinit a = ua_fw_store a"

end
