(* ===== verification/Installation.thy ===== *)
theory Installation
  imports Installer MetadataStorage
begin

text \<open>
  What the installers do to the volumes. Every operation returns and writes to no volume but the one it was bound to; the copy
  loop ends; a copy makes the destination begin with the contents of the source; a raw installation makes it begin with the data written.
  The contract that the firmware store relies on is the locale \<open>installers\<close>.
\<close>

section \<open>Writing to one volume\<close>

definition writes_only :: "('w \<Rightarrow> 'v \<Rightarrow> bytes) \<Rightarrow> 'v \<Rightarrow> 'w \<Rightarrow> 'w \<Rightarrow> bool" where
  "writes_only stored v w w' \<longleftrightarrow>
     (\<forall>u. u \<noteq> v \<longrightarrow> stored w' u = stored w u) \<and> length (stored w' v) = length (stored w v)"

lemma writes_only_refl [simp]: "stored w' = stored w \<Longrightarrow> writes_only stored v w w'"
  by (simp add: writes_only_def)

lemma writes_only_trans [trans]:
  "writes_only stored v w1 w2 \<Longrightarrow> writes_only stored v w2 w3 \<Longrightarrow> writes_only stored v w1 w3"
  by (simp add: writes_only_def)

lemma only_volume_writes_only: "only_volume stored pos v w w' \<Longrightarrow> writes_only stored v w w'"
  by (simp add: only_volume_def writes_only_def)

lemma only_volume_other: "only_volume stored pos v w w' \<Longrightarrow> u \<noteq> v \<Longrightarrow> stored w' u = stored w u \<and> pos w' u = pos w u"
  by (simp add: only_volume_def)


section \<open>The copy loop\<close>

lemma splice_slice_step:
  assumes "c + k \<le> t" and "t \<le> length src" and "t \<le> length dst"
  shows "splice (splice dst c (slice src c k)) (c + k) (slice src (c + k) (t - (c + k))) = splice dst c (slice src c (t - c))"
proof -
  have l: "length (slice src c k) = k" "length (slice src (c + k) (t - (c + k))) = t - (c + k)"
    using assms by (auto intro!: length_slice)
  have "splice (splice dst c (slice src c k)) (c + length (slice src c k)) (slice src (c + k) (t - (c + k)))
      = splice dst c (slice src c k @ slice src (c + k) (t - (c + k)))"
    by (rule splice_splice_adjacent) (use l assms in simp)
  moreover have "slice src c k @ slice src (c + k) (t - (c + k)) = slice src c (t - c)"
    using slice_append [of c k "t - (c + k)" src] assms by simp
  ultimately show ?thesis using l by simp
qed

context volume_files
begin

text \<open>Over volumes that keep their contract the loop always ends: every round moves on or stops with an error.\<close>

lemma copy_loop_returns:
  assumes "src \<noteq> dst" and "wok w" and "pos w src = Some c" and "pos w dst = Some c" and "c \<le> t"
    and "t \<le> length (stored w src)" and "length buf = COPY_CHUNK_SIZE"
  shows "\<exists>st w'. copy_loop vf src dst t c buf w = Some (st, w') \<and> wok w' \<and> writes_only stored dst w w'
    \<and> (st = 0 \<longrightarrow> t \<le> length (stored w dst) \<and> pos w' src = Some t \<and> pos w' dst = Some t
         \<and> stored w' dst = splice (stored w dst) c (slice (stored w src) c (t - c)))"
  using assms(2-7)
proof (induction "t - c" arbitrary: c w buf rule: less_induct)
  case (less c w buf)
  note b = bounded [OF less.prems(1,2)] bounded [OF less.prems(1,3)]
  show ?case
  proof (cases "c < t")
    case False
    then have "c = t" using less.prems(4) by simp
    then show ?thesis using less.prems b by (simp add: copy_loop.simps)
  next
    case True
    let ?n = "min (t - c) COPY_CHUNK_SIZE"
    have n: "?n \<le> length buf" "?n < 2 ^ 64" "0 < ?n" using less.prems(6) True by auto
    obtain s1 b1 k w1 where 1: "volume_read vf src buf ?n w = Some (s1, b1, k, w1)" "wok w1" "only_volume stored pos src w w1"
      "stored w1 src = stored w src" "length b1 = length buf"
      "s1 = 0 \<longrightarrow> k = min ?n (length (stored w src) - c) \<and> b1 = splice buf 0 (slice (stored w src) c k) \<and> pos w1 src = Some (c + k)"
      using reads [OF less.prems(1,2) n(1,2)] by blast
    show ?thesis
    proof (cases "s1 = 0")
      case False
      then show ?thesis
        using True 1 only_volume_stored [OF 1(3,4)] by (simp add: copy_loop.simps)
    next
      case s1: True
      have k: "k = ?n" and b1: "b1 = splice buf 0 (slice (stored w src) c k)" and p1: "pos w1 src = Some (c + k)"
        using 1(6) s1 less.prems(5) by auto
      have d1: "stored w1 = stored w" "pos w1 dst = Some c"
        using only_volume_stored [OF 1(3,4)] only_volume_other [OF 1(3)] assms(1) less.prems(3) by auto
      have kl: "k \<le> length b1" "k < 2 ^ 64" using k 1(5) n by auto
      have tb: "take k b1 = slice (stored w src) c k"
        using b1 k n less.prems(5) by (simp add: splice_def)
      obtain s2 m w2 where 2: "volume_write vf dst b1 k w1 = Some (s2, m, w2)" "wok w2" "only_volume stored pos dst w1 w2"
        "s2 = 0 \<longrightarrow> m = min k (length (stored w1 dst) - c) \<and> stored w2 dst = splice (stored w1 dst) c (take m b1) \<and> pos w2 dst = Some (c + m)"
        using writes [OF 1(2) d1(2) kl] by blast
      have wo: "writes_only stored dst w w2" using only_volume_writes_only [OF 2(3)] d1(1) by (simp add: writes_only_def)
      show ?thesis
      proof (cases "s2 = 0 \<and> k = m")
        case False
        then show ?thesis
          using True s1 1(1) 2(1,2) wo by (auto simp: copy_loop.simps)
      next
        case both: True
        then have room: "c + k \<le> length (stored w dst)" and d2: "stored w2 dst = splice (stored w dst) c (slice (stored w src) c k)"
          "pos w2 dst = Some (c + k)"
          using 2(4) d1 tb b(2) by auto
        have s2src: "stored w2 src = stored w src" "pos w2 src = Some (c + k)"
          using only_volume_other [OF 2(3)] assms(1) p1 d1(1) by auto
        have add: "add64 c k = c + k" using k b less.prems(4,5) by (intro add64_exact) auto
        have len2: "length (stored w2 dst) = length (stored w dst)" using wo by (simp add: writes_only_def)
        have step: "copy_loop vf src dst t c buf w = copy_loop vf src dst t (c + k) b1 w2"
          using True s1 1(1) 2(1) both add k by (subst copy_loop.simps) simp
        have "t - (c + k) < t - c" "c + k \<le> t" "t \<le> length (stored w2 src)" "length b1 = COPY_CHUNK_SIZE"
          using k n(3) True s2src less.prems(5,6) 1(5) by auto
        from less.hyps [OF this(1) 2(2) s2src(2) d2(2) this(2-4)] obtain st w' where
          r: "copy_loop vf src dst t (c + k) b1 w2 = Some (st, w')" "wok w'" "writes_only stored dst w2 w'"
            "st = 0 \<longrightarrow> t \<le> length (stored w2 dst) \<and> pos w' src = Some t \<and> pos w' dst = Some t
              \<and> stored w' dst = splice (stored w2 dst) (c + k) (slice (stored w2 src) (c + k) (t - (c + k)))"
          by blast
        have "splice (stored w2 dst) (c + k) (slice (stored w2 src) (c + k) (t - (c + k)))
            = splice (stored w dst) c (slice (stored w src) c (t - c))" if "t \<le> length (stored w dst)"
          unfolding d2(1) s2src(1) by (rule splice_slice_step) (use k True less.prems(5) that in auto)
        then show ?thesis using step r writes_only_trans [OF wo r(3)] len2 by auto
      qed
    qed
  qed
qed

lemma close_both:
  assumes "wok w"
  shows "\<exists>s1 w1 s2 w2. volume_close vf u w = Some (s1, w1) \<and> volume_close vf v w1 = Some (s2, w2) \<and> wok w2 \<and> stored w2 = stored w"
proof -
  obtain s1 w1 where 1: "volume_close vf u w = Some (s1, w1)" "wok w1" "only_volume stored pos u w w1" "stored w1 u = stored w u"
    using closes [OF assms] by blast
  obtain s2 w2 where 2: "volume_close vf v w1 = Some (s2, w2)" "wok w2" "only_volume stored pos v w1 w2" "stored w2 v = stored w1 v"
    using closes [OF 1(2)] by blast
  show ?thesis using 1 2 only_volume_stored by metis
qed

lemma copy_contents_returns:
  assumes "src \<noteq> dst" and "wok w" and "pos w src = Some 0" and "pos w dst = Some 0" and "t \<le> length (stored w src)" and "malloc_ok malloc"
  shows "\<exists>st w'. copy_volume_contents vf malloc src dst t w = Some (st, w') \<and> wok w' \<and> writes_only stored dst w w'
    \<and> (st = 0 \<longrightarrow> t \<le> length (stored w dst) \<and> take t (stored w' dst) = take t (stored w src))"
proof (cases "malloc COPY_CHUNK_SIZE")
  case None
  then show ?thesis using assms(2) by (simp add: copy_volume_contents_def)
next
  case (Some buf)
  then have "length buf = COPY_CHUNK_SIZE" using assms(6) by (simp add: malloc_ok_def)
  from copy_loop_returns [OF assms(1-4) le0 assms(5) this] Some show ?thesis
    using assms(5) by (auto simp: copy_volume_contents_def splice_def slice_def)
qed

lemma copy_installer_finalize_returns:
  assumes "src \<noteq> dst" and "wok w" and "ci_source_volume c = Some src" and "ci_destination_volume c = Some dst" and "malloc_ok malloc"
  shows "\<exists>st w'. copy_installer_finalize vf malloc c w = Some (st, c, w') \<and> wok w' \<and> writes_only stored dst w w'
    \<and> (st = 0 \<longrightarrow> length (stored w src) \<le> length (stored w dst) \<and> take (length (stored w src)) (stored w' dst) = stored w src)"
proof -
  obtain s1 w1 where 1: "volume_open vf src w = Some (s1, w1)" "wok w1" "only_volume stored pos src w w1"
    "stored w1 src = stored w src" "s1 = 0 \<longrightarrow> pos w1 src = Some 0"
    using opens [OF assms(2)] by blast
  have st1: "stored w1 = stored w" by (rule only_volume_stored [OF 1(3,4)])
  obtain s2 w2 where 2: "volume_open vf dst w1 = Some (s2, w2)" "wok w2" "only_volume stored pos dst w1 w2"
    "stored w2 dst = stored w1 dst" "s2 = 0 \<longrightarrow> pos w2 dst = Some 0"
    using opens [OF 1(2)] by blast
  have st2: "stored w2 = stored w" using only_volume_stored [OF 2(3,4)] st1 by simp
  obtain s w2' where z: "volume_close vf src w2 = Some (s, w2')" "wok w2'" "stored w2' = stored w"
    using close_both [OF 2(2), of src src] closes [OF 2(2), of src] only_volume_stored st2 by (metis option.inject prod.inject)
  show ?thesis
  proof (cases "s1 = 0 \<and> s2 = 0")
    case False
    then show ?thesis using 1(1,2) 2(1) z st1 assms(3,4) by (auto simp: copy_installer_finalize_def)
  next
    case True
    then have p: "pos w2 src = Some 0" "pos w2 dst = Some 0"
      using 1(5) 2(5) only_volume_other [OF 2(3) assms(1)] by auto
    obtain s3 w3 where 3: "volume_erase vf dst w2 = Some (s3, w3)" "wok w3" "only_volume stored pos dst w2 w3" "pos w3 dst = Some 0"
      using erases [OF 2(2) p(2)] by blast
    have src3: "stored w3 src = stored w src" "pos w3 src = Some 0" using only_volume_other [OF 3(3) assms(1)] st2 p by auto
    have o3: "writes_only stored dst w w3" using only_volume_writes_only [OF 3(3)] st2 by (simp add: writes_only_def)
    obtain c1 x1 c2 x2 where x: "volume_close vf src w3 = Some (c1, x1)" "volume_close vf dst x1 = Some (c2, x2)" "wok x2" "stored x2 = stored w3"
      using close_both [OF 3(2)] by blast
    have err: "close_volumes_on_error vf src dst w3 = Some (FWU_STATUS_UNKNOWN, x2)" using x by (simp add: close_volumes_on_error_def)
    have ox: "writes_only stored dst w x2" using o3 x(4) by (simp add: writes_only_def)
    obtain s4 n where 4: "volume_size vf src w3 = Some (s4, n, w3)" "s4 = 0 \<longrightarrow> n = length (stored w src)"
      using sizes [OF 3(2) src3(2)] src3(1) by auto
    show ?thesis
    proof (cases "s3 = 0 \<and> s4 = 0")
      case False
      then show ?thesis using True 1(1) 2(1) 3(1) 4(1) err x(3) ox assms(3,4) by (auto simp: copy_installer_finalize_def)
    next
      case ok: True
      obtain s5 w5 where 5: "copy_volume_contents vf malloc src dst n w3 = Some (s5, w5)" "wok w5" "writes_only stored dst w3 w5"
        "s5 = 0 \<longrightarrow> n \<le> length (stored w3 dst) \<and> take n (stored w5 dst) = take n (stored w3 src)"
        using copy_contents_returns [OF assms(1) 3(2) src3(2) 3(4), of n malloc] 4(2) ok src3(1) assms(5) by auto
      obtain c1 x1 c2 x2 where x: "volume_close vf src w5 = Some (c1, x1)" "volume_close vf dst x1 = Some (c2, x2)" "wok x2" "stored x2 = stored w5"
        using close_both [OF 5(2)] by blast
      have "writes_only stored dst w x2" using writes_only_trans [OF o3 5(3)] x(4) by (simp add: writes_only_def)
      moreover have "length (stored w3 dst) = length (stored w dst)" using o3 by (simp add: writes_only_def)
      ultimately show ?thesis
        using True ok 1(1) 2(1) 3(1) 4 5(1,4) x src3(1) assms(3,4) by (auto simp: copy_installer_finalize_def)
    qed
  qed
qed


section \<open>The raw installer\<close>

lemma raw_installer_finalize_returns:
  assumes "wok w" and "ri_target_volume r = Some v"
  shows "\<exists>r' w'. raw_installer_finalize vf r w = Some (FWU_STATUS_SUCCESS, r', w') \<and> wok w' \<and> stored w' = stored w
    \<and> ri_target_volume r' = Some v \<and> \<not> ri_is_open r'"
proof -
  obtain s1 w1 where 1: "volume_close vf v w = Some (s1, w1)" "wok w1" "only_volume stored pos v w w1" "stored w1 v = stored w v"
    using closes [OF assms(1)] by blast
  then show ?thesis using only_volume_stored [OF 1(3,4)] assms by (auto simp: raw_installer_finalize_def)
qed

lemma raw_installer_open_returns:
  assumes "wok w" and "ri_target_volume r = Some v"
  shows "\<exists>st r' w'. raw_installer_open vf r info w = Some (st, r', w') \<and> wok w' \<and> writes_only stored v w w'
    \<and> ri_target_volume r' = Some v
    \<and> (st = 0 \<longrightarrow> ri_is_open r' \<and> ri_bytes_written r' = 0 \<and> ri_commit_count r' = ri_commit_count r \<and> pos w' v = Some 0)"
proof -
  obtain s1 w1 where 1: "volume_open vf v w = Some (s1, w1)" "wok w1" "only_volume stored pos v w w1"
    "stored w1 v = stored w v" "s1 = 0 \<longrightarrow> pos w1 v = Some 0"
    using opens [OF assms(1)] by blast
  have st1: "stored w1 = stored w" by (rule only_volume_stored [OF 1(3,4)])
  show ?thesis
  proof (cases "\<not> ri_is_open r \<and> ri_commit_count r < 1 \<and> s1 = 0")
    case False
    then show ?thesis using 1(1,2) st1 assms by (auto simp: raw_installer_open_def)
  next
    case True
    then obtain s2 w2 where 2: "volume_erase vf v w1 = Some (s2, w2)" "wok w2" "only_volume stored pos v w1 w2" "pos w2 v = Some 0"
      using erases [OF 1(2), of v 0] 1(5) by blast
    obtain s3 w3 where 3: "volume_close vf v w2 = Some (s3, w3)" "wok w3" "only_volume stored pos v w2 w3" "stored w3 v = stored w2 v"
      using closes [OF 2(2)] by blast
    have "writes_only stored v w w2" "writes_only stored v w w3"
      using only_volume_writes_only [OF 2(3)] only_volume_stored [OF 3(3,4)] st1 by (simp_all add: writes_only_def)
    then show ?thesis using True 1(1) 2 3(1,2) assms(2) by (cases "s2 = 0") (simp_all add: raw_installer_open_def)
  qed
qed

lemma raw_installer_commit_returns:
  assumes "wok w" and "ri_target_volume r = Some v"
  shows "\<exists>st r' w'. raw_installer_commit vf r w = Some (st, r', w') \<and> wok w' \<and> stored w' = stored w \<and> ri_target_volume r' = Some v"
proof -
  obtain s1 w1 where 1: "volume_close vf v w = Some (s1, w1)" "wok w1" "only_volume stored pos v w w1" "stored w1 v = stored w v"
    using closes [OF assms(1)] by blast
  then show ?thesis using only_volume_stored [OF 1(3,4)] assms by (auto simp: raw_installer_commit_def)
qed

lemma raw_installer_write_returns:
  assumes "wok w" and "ri_target_volume r = Some v" and "n \<le> length d" and "n < 2 ^ 64"
  shows "\<exists>st r' w'. raw_installer_write vf r d n w = Some (st, r', w') \<and> wok w' \<and> writes_only stored v w w' \<and> ri_target_volume r' = Some v"
proof -
  obtain s1 k w1 where 1: "volume_write vf v d n w = Some (s1, k, w1)" "wok w1" "only_volume stored pos v w w1"
    using writes_any [OF assms(1,3,4)] by blast
  then show ?thesis using only_volume_writes_only [OF 1(3)] assms(1,2) by (auto simp: raw_installer_write_def)
qed

end

section \<open>On volumes that work\<close>

text \<open>Writing the pieces of an image one after the other, as long as there is no error.\<close>

fun raw_write_all ::
  "('v, 'w) volume_funcs \<Rightarrow> 'v raw_installer \<Rightarrow> bytes list \<Rightarrow> 'w \<Rightarrow> (fwu_status \<times> 'v raw_installer \<times> 'w) option" where
  "raw_write_all vf r [] w = Some (FWU_STATUS_SUCCESS, r, w)"
| "raw_write_all vf r (d # ds) w = do {
     (st, r, w) \<leftarrow> raw_installer_write vf r d (length d) w;
     if st = FWU_STATUS_SUCCESS then raw_write_all vf r ds w else Some (st, r, w)
   }"

text \<open>A whole installation.\<close>

definition raw_install ::
  "('v, 'w) volume_funcs \<Rightarrow> 'v volume_index \<Rightarrow> 'v raw_installer \<Rightarrow> u32 \<Rightarrow> u32 \<Rightarrow> image_info \<Rightarrow> bytes list \<Rightarrow> 'w \<Rightarrow>
    (fwu_status \<times> 'v raw_installer \<times> 'w) option" where
  "raw_install vf idx r current_id update_id info ds w = do {
     (st, r, w) \<leftarrow> raw_installer_begin idx r current_id update_id w;
     if st \<noteq> 0 then Some (st, r, w)
     else do {
       (st, r, w) \<leftarrow> raw_installer_open vf r info w;
       if st \<noteq> 0 then Some (st, r, w)
       else do {
         (st, r, w) \<leftarrow> raw_write_all vf r ds w;
         if st \<noteq> 0 then Some (st, r, w)
         else do {
           (st, r, w) \<leftarrow> raw_installer_commit vf r w;
           if st \<noteq> 0 then Some (st, r, w) else raw_installer_finalize vf r w
         }
       }
     }
   }"

definition copy_install ::
  "('v, 'w) volume_funcs \<Rightarrow> (size_t \<Rightarrow> bytes option) \<Rightarrow> 'v volume_index \<Rightarrow> 'v copy_installer \<Rightarrow> u32 \<Rightarrow> u32 \<Rightarrow> 'w \<Rightarrow>
    (fwu_status \<times> 'v copy_installer \<times> 'w) option" where
  "copy_install vf malloc idx c current_id update_id w = do {
     (st, c, w) \<leftarrow> copy_installer_begin idx c current_id update_id w;
     if st \<noteq> 0 then Some (st, c, w) else copy_installer_finalize vf malloc c w
   }"

context working_volumes
begin

lemma raw_write_all_works:
  assumes "wok w" and "ri_target_volume r = Some v" and "ri_is_open r" and "pos w v = Some p" and "ri_bytes_written r = p"
    and "p + length (concat ds) \<le> length (stored w v)"
  shows "\<exists>r' w'. raw_write_all vf r ds w = Some (FWU_STATUS_SUCCESS, r', w') \<and> wok w' \<and> writes_only stored v w w'
    \<and> ri_target_volume r' = Some v \<and> ri_is_open r' \<and> pos w' v = Some (p + length (concat ds))
    \<and> ri_bytes_written r' = p + length (concat ds) \<and> stored w' v = splice (stored w v) p (concat ds)"
  using assms
proof (induction ds arbitrary: r w p)
  case Nil
  then show ?case by simp
next
  case (Cons d ds)
  note b = bounded [OF Cons.prems(1,4)]
  have l: "length d < 2 ^ 64" "p + length d + length (concat ds) \<le> length (stored w v)" using Cons.prems(6) b by auto
  obtain k w1 where 1: "volume_write vf v d (length d) w = Some (0, k, w1)" "wok w1" "only_volume stored pos v w w1"
    "k = min (length d) (length (stored w v) - p)" "stored w1 v = splice (stored w v) p (take k d)" "pos w1 v = Some (p + k)"
    using writes [OF Cons.prems(1,4) order.refl l(1)] write_works [OF Cons.prems(1,4) order.refl l(1)] by blast
  have k: "k = length d" using 1(4) l(2) by simp
  define r1 where "r1 = r\<lparr>ri_bytes_written := p + length d\<rparr>"
  have w: "raw_installer_write vf r d (length d) w = Some (FWU_STATUS_SUCCESS, r1, w1)"
    using Cons.prems(2,3,5) 1(1) k b l by (simp add: raw_installer_write_def r1_def add64_exact)
  have l1: "p + length d + length (concat ds) \<le> length (stored w1 v)" using 1(3) l(2) by (simp add: only_volume_def)
  from Cons.IH [of w1 r1 "p + length d"] 1(2,6) k Cons.prems(2,3) l1
  obtain r' w' where r: "raw_write_all vf r1 ds w1 = Some (FWU_STATUS_SUCCESS, r', w')" "wok w'" "writes_only stored v w1 w'"
    "ri_target_volume r' = Some v" "ri_is_open r'" "pos w' v = Some (p + length d + length (concat ds))"
    "ri_bytes_written r' = p + length d + length (concat ds)" "stored w' v = splice (stored w1 v) (p + length d) (concat ds)"
    by (auto simp: r1_def)
  have "splice (stored w1 v) (p + length d) (concat ds) = splice (stored w v) p (d @ concat ds)"
    unfolding 1(5) using splice_splice_adjacent [of p d "concat ds" "stored w v"] k l(2) by simp
  then show ?case
    using w r writes_only_trans [OF only_volume_writes_only [OF 1(3)] r(3)] by (simp add: add.assoc)
qed

lemma raw_install_works:
  assumes "wok w" and "volume_index_find idx update_id = (0, Some v)" and "concat ds \<noteq> []"
    and "length (concat ds) \<le> length (stored w v)"
  shows "\<exists>r' w'. raw_install vf idx r current_id update_id info ds w = Some (FWU_STATUS_SUCCESS, r', w') \<and> wok w'
    \<and> writes_only stored v w w' \<and> take (length (concat ds)) (stored w' v) = concat ds"
proof -
  define r1 where "r1 = r\<lparr>ri_target_volume := Some v, ri_commit_count := 0, ri_is_open := False\<rparr>"
  have b: "raw_installer_begin idx r current_id update_id w = Some (0, r1, w)"
    using assms(2) by (simp add: raw_installer_begin_def r1_def)
  have t1: "ri_target_volume r1 = Some v" by (simp add: r1_def)
  obtain w1 where 1: "volume_open vf v w = Some (0, w1)" "wok w1" "pos w1 v = Some 0"
    using opens [OF assms(1)] open_works [OF assms(1)] by blast
  obtain w2 where 2: "volume_erase vf v w1 = Some (0, w2)"
    using erases [OF 1(2,3)] erase_works [OF 1(2,3)] by blast
  have "raw_installer_open vf r1 info w = Some (0, r1\<lparr>ri_is_open := True, ri_bytes_written := 0\<rparr>, w2)"
    using 1 2 by (simp add: raw_installer_open_def r1_def)
  then obtain r2 where o: "raw_installer_open vf r1 info w = Some (0, r2, w2)" "wok w2" "writes_only stored v w w2"
    "ri_target_volume r2 = Some v" "ri_is_open r2" "ri_bytes_written r2 = 0" "pos w2 v = Some 0"
    using raw_installer_open_returns [OF assms(1) t1, of info] by auto
  have len: "0 + length (concat ds) \<le> length (stored w2 v)" using o(3) assms(4) by (simp add: writes_only_def)
  obtain r3 w3 where wr: "raw_write_all vf r2 ds w2 = Some (FWU_STATUS_SUCCESS, r3, w3)" "wok w3" "writes_only stored v w2 w3"
    "ri_target_volume r3 = Some v" "ri_is_open r3" "pos w3 v = Some (length (concat ds))"
    "ri_bytes_written r3 = length (concat ds)" "stored w3 v = splice (stored w2 v) 0 (concat ds)"
    using raw_write_all_works [OF o(2,4,5,7,6) len] by auto
  obtain w4 where 4: "volume_close vf v w3 = Some (0, w4)"
    using closes [OF wr(2)] close_works [OF wr(2,6)] by blast
  have "raw_installer_commit vf r3 w3 = Some (0, r3\<lparr>ri_commit_count := ri_commit_count r3 + 1, ri_is_open := False\<rparr>, w4)"
    using 4 wr(4,5,7) assms(3) by (simp add: raw_installer_commit_def)
  then obtain r4 where c: "raw_installer_commit vf r3 w3 = Some (0, r4, w4)" "wok w4" "stored w4 = stored w3" "ri_target_volume r4 = Some v"
    using raw_installer_commit_returns [OF wr(2,4)] by auto
  obtain r5 w5 where f: "raw_installer_finalize vf r4 w4 = Some (FWU_STATUS_SUCCESS, r5, w5)" "wok w5" "stored w5 = stored w4"
    using raw_installer_finalize_returns [OF c(2,4)] by blast
  have "writes_only stored v w w5"
    using writes_only_trans [OF o(3) wr(3)] c(3) f(3) by (simp add: writes_only_def)
  then show ?thesis
    using b o(1) wr(1,8) c(1,3) f by (simp add: raw_install_def splice_def)
qed

lemma copy_loop_works:
  assumes "src \<noteq> dst" and "wok w" and "pos w src = Some c" and "pos w dst = Some c" and "c \<le> t"
    and "t \<le> length (stored w src)" and "length buf = COPY_CHUNK_SIZE" and "t \<le> length (stored w dst)"
  shows "\<exists>w'. copy_loop vf src dst t c buf w = Some (FWU_STATUS_SUCCESS, w')"
  using assms(2-8)
proof (induction "t - c" arbitrary: c w buf rule: less_induct)
  case (less c w buf)
  note b = bounded [OF less.prems(1,2)]
  show ?case
  proof (cases "c < t")
    case False
    then show ?thesis by (simp add: copy_loop.simps)
  next
    case True
    let ?n = "min (t - c) COPY_CHUNK_SIZE"
    have n: "?n \<le> length buf" "?n < 2 ^ 64" "0 < ?n" using less.prems(6) True by auto
    obtain s1 b1 m w1 where r: "volume_read vf src buf ?n w = Some (s1, b1, m, w1)" "wok w1" "only_volume stored pos src w w1"
      "stored w1 src = stored w src" "length b1 = length buf"
      "s1 = 0 \<longrightarrow> m = min ?n (length (stored w src) - c) \<and> b1 = splice buf 0 (slice (stored w src) c m) \<and> pos w1 src = Some (c + m)"
      using reads [OF less.prems(1,2) n(1,2)] by blast
    have s1: "s1 = 0" by (rule read_works [OF less.prems(1,2) n(1,2) r(1)])
    then have "m = ?n" using r(6) less.prems(5) by auto
    then have 1: "volume_read vf src buf ?n w = Some (0, b1, ?n, w1)" "wok w1" "only_volume stored pos src w w1"
      "stored w1 src = stored w src" "length b1 = length buf" "pos w1 src = Some (c + ?n)"
      using r s1 by simp_all
    have d1: "stored w1 = stored w" "pos w1 dst = Some c"
      using only_volume_stored [OF 1(3,4)] only_volume_other [OF 1(3)] assms(1) less.prems(3) by auto
    have n1: "?n \<le> length b1" using n 1(5) by simp
    obtain k w2 where 2: "volume_write vf dst b1 ?n w1 = Some (0, k, w2)" "wok w2" "only_volume stored pos dst w1 w2"
      "k = min ?n (length (stored w1 dst) - c)" "pos w2 dst = Some (c + k)"
      using writes [OF 1(2) d1(2) n1 n(2)] write_works [OF 1(2) d1(2) n1 n(2)] by blast
    have k: "k = ?n" using 2(4) d1(1) less.prems(7) by auto
    have s2: "stored w2 src = stored w src" "pos w2 src = Some (c + ?n)" "length (stored w2 dst) = length (stored w dst)"
      using only_volume_other [OF 2(3) assms(1)] 2(3) 1(6) d1(1) by (auto simp: only_volume_def)
    have "add64 c ?n = c + ?n" using b less.prems(4,5) by (intro add64_exact) auto
    then have "copy_loop vf src dst t c buf w = copy_loop vf src dst t (c + ?n) b1 w2"
      using True 1(1) 2(1) k by (subst copy_loop.simps) simp
    moreover have "t - (c + ?n) < t - c" "c + ?n \<le> t" "t \<le> length (stored w2 src)" "length b1 = COPY_CHUNK_SIZE"
      "t \<le> length (stored w2 dst)"
      using n(3) True s2 less.prems(5-7) 1(5) by auto
    ultimately show ?thesis using less.hyps [OF _ 2(2) s2(2) 2(5) [unfolded k]] by simp
  qed
qed

lemma copy_install_works:
  assumes "src \<noteq> dst" and "wok w" and "volume_index_find idx update_id = (0, Some dst)"
    and "volume_index_find idx current_id = (0, Some src)" and "malloc_ok malloc" and "malloc COPY_CHUNK_SIZE \<noteq> None"
    and "length (stored w src) \<le> length (stored w dst)"
  shows "\<exists>c' w'. copy_install vf malloc idx c current_id update_id w = Some (FWU_STATUS_SUCCESS, c', w') \<and> wok w'
    \<and> writes_only stored dst w w' \<and> take (length (stored w src)) (stored w' dst) = stored w src"
proof -
  define c1 where "c1 = \<lparr>ci_destination_volume = Some dst, ci_source_volume = Some src\<rparr>"
  have b: "copy_installer_begin idx c current_id update_id w = Some (0, c1, w)"
    using assms(3,4) by (simp add: copy_installer_begin_def c1_def)
  have c1: "ci_source_volume c1 = Some src" "ci_destination_volume c1 = Some dst" by (simp_all add: c1_def)
  obtain w1 where 1: "volume_open vf src w = Some (0, w1)" "wok w1" "pos w1 src = Some 0" "stored w1 = stored w"
    using opens [OF assms(2), of src] open_works [OF assms(2)] only_volume_stored by metis
  obtain w2 where 2: "volume_open vf dst w1 = Some (0, w2)" "wok w2" "pos w2 dst = Some 0" "stored w2 = stored w" "pos w2 src = Some 0"
    using opens [OF 1(2), of dst] open_works [OF 1(2)] only_volume_stored only_volume_other assms(1) 1(3,4) by metis
  obtain w3 where 3: "volume_erase vf dst w2 = Some (0, w3)" "wok w3" "only_volume stored pos dst w2 w3" "pos w3 dst = Some 0"
    using erases [OF 2(2,3)] erase_works [OF 2(2,3)] by blast
  have s3: "stored w3 src = stored w src" "pos w3 src = Some 0" "length (stored w3 dst) = length (stored w dst)"
    using only_volume_other [OF 3(3) assms(1)] 3(3) 2(4,5) by (auto simp: only_volume_def)
  have 4: "volume_size vf src w3 = Some (0, length (stored w src), w3)"
    using sizes [OF 3(2) s3(2)] size_works [OF 3(2) s3(2)] s3(1) by fastforce
  obtain buf where buf: "malloc COPY_CHUNK_SIZE = Some buf" "length buf = COPY_CHUNK_SIZE"
    using assms(5,6) by (auto simp: malloc_ok_def)
  have t: "length (stored w src) \<le> length (stored w3 src)" "length (stored w src) \<le> length (stored w3 dst)"
    using s3 assms(7) by simp_all
  obtain w5 where 5: "copy_loop vf src dst (length (stored w src)) 0 buf w3 = Some (FWU_STATUS_SUCCESS, w5)" "wok w5"
    "pos w5 src = Some (length (stored w src))" "pos w5 dst = Some (length (stored w src))"
    using copy_loop_works [OF assms(1) 3(2) s3(2) 3(4) le0 t(1) buf(2) t(2)]
      copy_loop_returns [OF assms(1) 3(2) s3(2) 3(4) le0 t(1) buf(2)] by auto
  obtain w6 where 6: "volume_close vf src w5 = Some (0, w6)" "wok w6" "pos w6 dst = Some (length (stored w src))"
    using closes [OF 5(2), of src] close_works [OF 5(2,3)] only_volume_other assms(1) 5(4) by metis
  obtain w7 where 7: "volume_close vf dst w6 = Some (0, w7)"
    using closes [OF 6(2), of dst] close_works [OF 6(2,3)] by blast
  have "copy_installer_finalize vf malloc c1 w = Some (FWU_STATUS_SUCCESS, c1, w7)"
    using c1 1(1) 2(1) 3(1) 4 5(1) 6(1) 7 buf(1) by (simp add: copy_installer_finalize_def copy_volume_contents_def)
  then show ?thesis
    using b copy_installer_finalize_returns [OF assms(1,2) c1 assms(5)] by (auto simp: copy_install_def)
qed

end

section \<open>The contract of an installer\<close>

text \<open>A context fits its interface; after \<open>begin\<close> it is bound to the update volume, and until it is finalized or aborted no
  operation writes to another volume.\<close>

locale installers =
  fixes fits :: "('x, 'w) installer_interface \<Rightarrow> 'x \<Rightarrow> bool" and bound :: "'x \<Rightarrow> 'v \<Rightarrow> bool"
    and wok :: "'w \<Rightarrow> bool" and stored :: "'w \<Rightarrow> 'v \<Rightarrow> bytes" and found :: "u32 \<Rightarrow> 'v option"
  assumes begins: "fits f x \<Longrightarrow> wok w \<Longrightarrow> found upd = Some v \<Longrightarrow> found cur = Some u \<Longrightarrow> u \<noteq> v \<Longrightarrow>
      \<exists>x' w'. iif_begin f x cur upd w = Some (FWU_STATUS_SUCCESS, x', w') \<and> fits f x' \<and> bound x' v \<and> wok w' \<and> stored w' = stored w"
    and opens_image: "fits f x \<Longrightarrow> bound x v \<Longrightarrow> wok w \<Longrightarrow>
      \<exists>st x' w'. iif_open f x info w = Some (st, x', w') \<and> fits f x' \<and> bound x' v \<and> wok w' \<and> writes_only stored v w w'"
    and commits: "fits f x \<Longrightarrow> bound x v \<Longrightarrow> wok w \<Longrightarrow>
      \<exists>st x' w'. iif_commit f x w = Some (st, x', w') \<and> fits f x' \<and> bound x' v \<and> wok w' \<and> writes_only stored v w w'"
    and writes_image: "fits f x \<Longrightarrow> bound x v \<Longrightarrow> wok w \<Longrightarrow> n \<le> length d \<Longrightarrow> n < 2 ^ 64 \<Longrightarrow>
      \<exists>st x' w'. iif_write f x d n w = Some (st, x', w') \<and> fits f x' \<and> bound x' v \<and> wok w' \<and> writes_only stored v w w'"
    and finalizes: "fits f x \<Longrightarrow> bound x v \<Longrightarrow> wok w \<Longrightarrow>
      \<exists>st x' w'. iif_finalize f x w = Some (st, x', w') \<and> fits f x' \<and> wok w' \<and> writes_only stored v w w'"
    and aborts: "fits f x \<Longrightarrow> bound x v \<Longrightarrow> wok w \<Longrightarrow>
      \<exists>x' w'. iif_abort f x w = Some (x', w') \<and> fits f x' \<and> wok w' \<and> stored w' = stored w"

definition context_fits ::
  "('v, 'w) volume_funcs \<Rightarrow> (size_t \<Rightarrow> bytes option) \<Rightarrow> 'v volume_index \<Rightarrow>
    ('v installer_context, 'w) installer_interface \<Rightarrow> 'v installer_context \<Rightarrow> bool" where
  "context_fits vf malloc idx f x \<longleftrightarrow>
     malloc_ok malloc
     \<and> (case x of RawContext _ \<Rightarrow> f = raw_installer_interface vf idx | CopyContext _ \<Rightarrow> f = copy_installer_interface vf malloc idx)"

definition context_bound :: "'v installer_context \<Rightarrow> 'v \<Rightarrow> bool" where
  "context_bound x v \<longleftrightarrow>
     (case x of
        RawContext r \<Rightarrow> ri_target_volume r = Some v
      | CopyContext c \<Rightarrow> ci_destination_volume c = Some v \<and> (\<exists>u. ci_source_volume c = Some u \<and> u \<noteq> v))"

definition volume_at :: "'v volume_index \<Rightarrow> u32 \<Rightarrow> 'v option" where
  "volume_at idx volume_id = (case volume_index_find idx volume_id of (st, v) \<Rightarrow> if st = 0 then v else None)"

lemma volume_at_Some: "volume_at idx volume_id = Some v \<Longrightarrow> volume_index_find idx volume_id = (0, Some v)"
  by (auto simp: volume_at_def split: prod.splits if_splits)

lemma on_context [simp]:
  "on_raw f (RawContext r) = map_option (\<lambda>(st, r, w). (st, RawContext r, w)) (f r)"
  "on_copy g (CopyContext c) = map_option (\<lambda>(st, c, w). (st, CopyContext c, w)) (g c)"
  by (simp_all add: on_raw_def on_copy_def)

lemmas installer_interfaces = raw_installer_interface_def copy_installer_interface_def

sublocale volume_files \<subseteq> inst: installers "context_fits vf malloc idx" context_bound wok stored "volume_at idx" for malloc idx
proof (unfold_locales, goal_cases)
  case (1 f x w upd v cur u)
  then show ?case
    using volume_at_Some [of idx upd v] volume_at_Some [of idx cur u]
    by (cases x) (auto simp: context_fits_def context_bound_def installer_interfaces raw_installer_begin_def copy_installer_begin_def)
next
  case (2 f x v w info)
  show ?case
  proof (cases x)
    case (RawContext r)
    then show ?thesis
      using 2 raw_installer_open_returns [OF 2(3), of r v info] by (auto simp: context_fits_def context_bound_def installer_interfaces)
  next
    case (CopyContext c)
    then show ?thesis
      using 2 by (auto simp: context_fits_def context_bound_def installer_interfaces copy_installer_open_def)
  qed
next
  case (3 f x v w)
  show ?case
  proof (cases x)
    case (RawContext r)
    then show ?thesis
      using 3 raw_installer_commit_returns [OF 3(3), of r v] by (fastforce simp: context_fits_def context_bound_def installer_interfaces)
  next
    case (CopyContext c)
    then show ?thesis
      using 3 by (auto simp: context_fits_def context_bound_def installer_interfaces copy_installer_commit_def)
  qed
next
  case (4 f x v w n d)
  show ?case
  proof (cases x)
    case (RawContext r)
    then show ?thesis
      using 4 raw_installer_write_returns [OF 4(3) _ 4(4,5), of r v] by (auto simp: context_fits_def context_bound_def installer_interfaces)
  next
    case (CopyContext c)
    then show ?thesis
      using 4 by (auto simp: context_fits_def context_bound_def installer_interfaces copy_installer_write_def)
  qed
next
  case (5 f x v w)
  show ?case
  proof (cases x)
    case (RawContext r)
    then show ?thesis
      using 5 raw_installer_finalize_returns [OF 5(3), of r v] by (fastforce simp: context_fits_def context_bound_def installer_interfaces)
  next
    case (CopyContext c)
    then obtain u where u: "ci_destination_volume c = Some v" "ci_source_volume c = Some u" "u \<noteq> v"
      using 5(2) by (auto simp: context_bound_def)
    have "malloc_ok malloc" using 5(1) by (simp add: context_fits_def)
    from copy_installer_finalize_returns [OF u(3) 5(3) u(2,1) this] show ?thesis
      using CopyContext 5(1) by (auto simp: context_fits_def installer_interfaces)
  qed
next
  case (6 f x v w)
  show ?case
  proof (cases x)
    case (RawContext r)
    then show ?thesis
      using 6 raw_installer_finalize_returns [OF 6(3), of r v]
      by (auto simp: context_fits_def context_bound_def installer_interfaces raw_installer_abort_def)
  next
    case (CopyContext c)
    then show ?thesis
      using 6 by (auto simp: context_fits_def installer_interfaces copy_installer_abort_def)
  qed
qed


section \<open>Installation on RAM devices\<close>

text \<open>Property C40. Installation on volumes over RAM devices that admit the client, the current and the update volume being two
  different entries of the volume index. A raw installation of data that is not empty and fits into the update volume, written in any
  number of pieces, succeeds and makes the update volume begin with exactly the data written. A copy installation, when
  its buffer can be allocated and the current volume is not larger than the update volume, ends, succeeds and makes the update
  volume begin with the whole contents of the current volume. Both hold whatever the update volume held before and
  neither changes another volume.\<close>

theorem installers_install:
  assumes "ram_volumes_ok admitted_device w" and "volume_index_find idx update_id = (0, Some v)"
    and "volume_index_find idx current_id = (0, Some u)" and "u \<noteq> v"
    and "concat ds \<noteq> []" and "length (concat ds) \<le> length (ram_volume_data w v)"
    and "malloc_ok malloc" and "malloc COPY_CHUNK_SIZE \<noteq> None" and "length (ram_volume_data w u) \<le> length (ram_volume_data w v)"
  shows "(\<exists>r' w'. raw_install block_volume_funcs idx r current_id update_id info ds w = Some (FWU_STATUS_SUCCESS, r', w')
        \<and> writes_only ram_volume_data v w w' \<and> take (length (concat ds)) (ram_volume_data w' v) = concat ds)
    \<and> (\<exists>c' w'. copy_install block_volume_funcs malloc idx c current_id update_id w = Some (FWU_STATUS_SUCCESS, c', w')
        \<and> writes_only ram_volume_data v w w'
        \<and> take (length (ram_volume_data w u)) (ram_volume_data w' v) = ram_volume_data w u)"
  using ram_working.raw_install_works [OF assms(1,2,5,6)] ram_working.copy_install_works [OF assms(4,1,2,3,7,8,9)] by blast

definition sample_volume_index :: "nat volume_index" where
  "sample_volume_index =
     \<lparr>vi_size = 4,
      vi_entries = [(banked_volume_id 1 0, Some 1), (banked_volume_id 1 1, Some 2), (0xffff0000, Some 3), (0xffff0001, Some 4),
        (0, None), (0, None), (0, None), (0, None)]\<rparr>"

lemma sample_volume_index_find [simp]:
  "volume_index_find sample_volume_index (banked_volume_id 1 0) = (0, Some 1)"
  "volume_index_find sample_volume_index (banked_volume_id 1 1) = (0, Some 2)"
  "volume_index_find sample_volume_index 0xffff0000 = (0, Some 3)"
  "volume_index_find sample_volume_index 0xffff0001 = (0, Some 4)"
  by (simp_all add: volume_index_find_def sample_volume_index_def banked_volume_id_def)

theorem installers_install_witness:
  "(\<exists>r' w'. raw_install block_volume_funcs sample_volume_index
      \<lparr>ri_location_uuid = [], ri_location_id = 1, ri_install_type = INSTALL_TYPE_WHOLE_VOLUME, ri_target_volume = None,
       ri_commit_count = 0, ri_bytes_written = 0, ri_is_open = False\<rparr>
      (banked_volume_id 1 0) (banked_volume_id 1 1) zero_image_info [[7, 8], [9]] sample_ram_volumes
    = Some (FWU_STATUS_SUCCESS, r', w')
    \<and> writes_only ram_volume_data 2 sample_ram_volumes w' \<and> take (length (concat [[7, 8], [9 :: byte]])) (ram_volume_data w' 2) = concat [[7, 8], [9]])
   \<and> (\<exists>c' w'. copy_install block_volume_funcs (\<lambda>n. Some (replicate n 0)) sample_volume_index
        \<lparr>ci_destination_volume = None, ci_source_volume = None\<rparr> (banked_volume_id 1 0) (banked_volume_id 1 1) sample_ram_volumes
      = Some (FWU_STATUS_SUCCESS, c', w')
    \<and> writes_only ram_volume_data 2 sample_ram_volumes w'
    \<and> take (length (ram_volume_data sample_ram_volumes (1 :: nat))) (ram_volume_data w' 2) = ram_volume_data sample_ram_volumes (1 :: nat))"
  by (rule installers_install) (simp_all add: malloc_ok_def)

end
