(* ===== verification/FwStoreSafety.thy ===== *)
theory FwStoreSafety
  imports UpdateAgent Installation
begin

text \<open>
  The firmware store keeps to its volumes. The invariant of the store says that the active installers form a list, that each of
  them is bound to the volume of the update bank at its location and that the metadata can be read. Every operation of the
  store returns, keeps the invariant and writes to no volume but those of the update bank and of the metadata. The proofs
  use the contracts of the volumes, of the metadata format and of the installers.
\<close>

section \<open>Metadata\<close>

definition indices_ok :: "('v, 'w) metadata_manager \<Rightarrow> bool" where
  "indices_ok mm \<longleftrightarrow>
     (\<exists>a p. metadata_manager_get_active_indices mm = Some (FWU_STATUS_SUCCESS, Some (a, p)))"

definition writes_in :: "('w \<Rightarrow> 'v \<Rightarrow> bytes) \<Rightarrow> 'v set \<Rightarrow> 'w \<Rightarrow> 'w \<Rightarrow> bool" where
  "writes_in stored V w w' \<longleftrightarrow> (\<forall>u. u \<notin> V \<longrightarrow> stored w' u = stored w u) \<and> (\<forall>u. length (stored w' u) = length (stored w u))"

lemma writes_in_refl [simp]: "stored w' = stored w \<Longrightarrow> writes_in stored V w w'"
  by (simp add: writes_in_def)

lemma writes_in_trans [trans]: "writes_in stored V w1 w2 \<Longrightarrow> writes_in stored V w2 w3 \<Longrightarrow> writes_in stored V w1 w3"
  by (simp add: writes_in_def)

lemma writes_in_mono: "writes_in stored V w w' \<Longrightarrow> V \<subseteq> V' \<Longrightarrow> writes_in stored V' w w'"
  by (auto simp: writes_in_def)

lemma writes_only_in: "writes_only stored v w w' \<Longrightarrow> v \<in> V \<Longrightarrow> writes_in stored V w w'"
  by (auto simp: writes_only_def writes_in_def)

context metadata_files
begin

lemma store_copy_returns:
  assumes "wok w" and "len \<le> length data" and "len < 2 ^ 64"
  shows "\<exists>st w'. store_copy vf (Some v) data len w = Some (st, w') \<and> wok w' \<and> writes_only stored v w w'"
  using store_returns [OF assms, of v] by (auto simp: store_copy_def writes_only_def)

text \<open>The cache is filled whether or not the copies can be stored.\<close>

lemma update_returns:
  fixes crc32 :: crc_routine
  assumes "wok w" and "manager_ready ms p b mm" and "fd_num_images dir \<le> FWU_MAX_FW_DIRECTORY_ENTRIES" and "bank_tracker_ok bt"
  shows "\<exists>st mm' w'. metadata_manager_update crc32 vf mm ai pi dir bt w = Some (st, mm', w') \<and> wok w' \<and> manager_ready ms p b mm'
    \<and> mm_is_valid mm' \<and> mm_metadata_len mm' = ms_size ms dir
    \<and> metadata_manager_get_active_indices mm' = Some (FWU_STATUS_SUCCESS, Some (ai, pi))
    \<and> writes_in stored {p, b} w w'"
proof -
  let ?n = "ms_size ms dir"
  obtain c mm1 w1 where u: "wok w1" "stored w1 = stored w" "?n \<le> length c" "?n < 2 ^ 64"
    "\<forall>m. ?n \<le> length m \<and> take ?n m = take ?n c \<longrightarrow> read_back ms m ai pi dir bt"
    "\<And>x. manager_ready ms p b (mm1\<lparr>mm_stored_crc := x\<rparr>) \<and> manager_holds (mm1\<lparr>mm_stored_crc := x\<rparr>) (take ?n c)"
    "metadata_manager_update crc32 vf mm ai pi dir bt w =
      (let crc = word_of_nat (le_val (slice (take ?n c) 0 4)) in
       if mm_is_valid mm \<and> mm_stored_crc mm = crc then Some (FWU_STATUS_SUCCESS, mm1, w1)
       else do {
         (primary_status, w) \<leftarrow> store_copy vf (Some p) c ?n w1;
         (backup_status, w) \<leftarrow> store_copy vf (Some b) c ?n w;
         Some (if primary_status \<noteq> FWU_STATUS_SUCCESS then primary_status
               else if backup_status \<noteq> FWU_STATUS_SUCCESS then backup_status else FWU_STATUS_SUCCESS,
               if primary_status = FWU_STATUS_SUCCESS \<and> backup_status = FWU_STATUS_SUCCESS
               then mm1\<lparr>mm_stored_crc := crc\<rparr> else mm1,
               w)
       })"
    by (rule update_unfold [OF assms, of crc32 ai pi]) blast
  define crc where "crc = (word_of_nat (le_val (slice (take ?n c) 0 4)) :: u32)"
  have good: "manager_ready ms p b m \<and> mm_is_valid m \<and> mm_metadata_len m = ?n
      \<and> metadata_manager_get_active_indices m = Some (FWU_STATUS_SUCCESS, Some (ai, pi))" if "m = mm1\<lparr>mm_stored_crc := x\<rparr>" for m x
  proof -
    have g: "manager_ready ms p b m" "manager_holds m (take ?n c)" using u(6) [of x] that by simp_all
    then obtain d where d: "mm_metadata_cache m = Some d" "take ?n d = take ?n c" "mm_metadata_len m = ?n" "mm_is_valid m"
      "length d = ms_max_size ms" "mm_serializer m = ms"
      using u(3) by (auto simp: manager_holds_def manager_ready_def split: option.splits)
    then have "read_back ms d ai pi dir bt" using u(5) format.size_bounds [OF assms(3)] by simp
    then show ?thesis using d g(1) by (simp add: metadata_manager_get_active_indices_def read_back_def)
  qed
  obtain s3 w3 where 3: "store_copy vf (Some p) c ?n w1 = Some (s3, w3)" "wok w3" "writes_only stored p w1 w3"
    using store_copy_returns [OF u(1,3,4)] by blast
  obtain s4 w4 where 4: "store_copy vf (Some b) c ?n w3 = Some (s4, w4)" "wok w4" "writes_only stored b w3 w4"
    using store_copy_returns [OF 3(2) u(3,4)] by blast
  have wr: "writes_in stored {p, b} w w4"
    using writes_in_trans [OF writes_only_in [OF 3(3), of "{p, b}"] writes_only_in [OF 4(3), of "{p, b}"]] u(2)
    by (simp add: writes_in_def)
  have up: "metadata_manager_update crc32 vf mm ai pi dir bt w =
      (if mm_is_valid mm \<and> mm_stored_crc mm = crc then Some (FWU_STATUS_SUCCESS, mm1, w1)
       else Some (if s3 \<noteq> FWU_STATUS_SUCCESS then s3 else if s4 \<noteq> FWU_STATUS_SUCCESS then s4 else FWU_STATUS_SUCCESS,
              if s3 = FWU_STATUS_SUCCESS \<and> s4 = FWU_STATUS_SUCCESS then mm1\<lparr>mm_stored_crc := crc\<rparr> else mm1, w4))"
    using u(7) 3(1) 4(1) by (simp add: crc_def Let_def)
  have same: "mm1 = mm1\<lparr>mm_stored_crc := mm_stored_crc mm1\<rparr>" by simp
  note g = good [OF same] good [OF refl, of crc]
  show ?thesis
  proof (cases "mm_is_valid mm \<and> mm_stored_crc mm = crc")
    case True
    then show ?thesis using up g u(1,2) by simp
  next
    case False
    note up1 = up [unfolded if_not_P [OF False]]
    show ?thesis using up1 g 4(2) wr by (cases "s3 = 0 \<and> s4 = 0") simp_all
  qed
qed

end


section \<open>The invariant of the store\<close>

fun installer_chain :: "('x, 'w) installer list \<Rightarrow> nat list \<Rightarrow> nat option \<Rightarrow> bool" where
  "installer_chain is [] p = (p = None)"
| "installer_chain is (k # ks) p = (p = Some k \<and> k < length is \<and> installer_chain is ks (in_next (is ! k)))"

definition bank_volume :: "(u32 \<Rightarrow> 'v option) \<Rightarrow> u32 \<Rightarrow> u32 \<Rightarrow> 'v option" where
  "bank_volume found bank location_id = found (banked_volume_id location_id (banked_usage_id bank))"

text \<open>Every installer has a volume in each bank at its location.\<close>

definition locations_ok :: "(u32 \<Rightarrow> 'v option) \<Rightarrow> ('x, 'w) installer list \<Rightarrow> bool" where
  "locations_ok found is \<longleftrightarrow>
     (\<forall>i \<in> set is. \<exists>v0 v1. bank_volume found 0 (in_location_id i) = Some v0 \<and> bank_volume found 1 (in_location_id i) = Some v1 \<and> v0 \<noteq> v1)"

definition update_volumes :: "(u32 \<Rightarrow> 'v option) \<Rightarrow> u32 \<Rightarrow> ('x, 'w) installer list \<Rightarrow> 'v set" where
  "update_volumes found bank is = {v. \<exists>i \<in> set is. bank_volume found bank (in_location_id i) = Some v}"

definition active_installer ::
  "('x \<Rightarrow> 'v \<Rightarrow> bool) \<Rightarrow> (u32 \<Rightarrow> 'v option) \<Rightarrow> u32 \<Rightarrow> ('x, 'w) installer \<Rightarrow> bool" where
  "active_installer bound found bank i \<longleftrightarrow>
     in_is_active i \<and> in_install_type i \<noteq> INSTALL_TYPE_WHOLE_VOLUME_COPY
     \<and> (\<exists>v. bank_volume found bank (in_location_id i) = Some v \<and> bound (in_context i) v)"

definition active_list ::
  "('x \<Rightarrow> 'v \<Rightarrow> bool) \<Rightarrow> (u32 \<Rightarrow> 'v option) \<Rightarrow> u32 \<Rightarrow> ('x, 'w) installer list \<Rightarrow> nat option \<Rightarrow> nat list \<Rightarrow> bool" where
  "active_list bound found bank is p ks \<longleftrightarrow>
     installer_chain is ks p \<and> distinct ks
     \<and> (\<forall>k < length is. if k \<in> set ks then active_installer bound found bank (is ! k) else \<not> in_is_active (is ! k))"

definition installers_fit :: "(('x, 'w) installer_interface \<Rightarrow> 'x \<Rightarrow> bool) \<Rightarrow> ('x, 'w) installer list \<Rightarrow> bool" where
  "installers_fit fits is \<longleftrightarrow> (\<forall>i \<in> set is. fits (in_interface i) (in_context i))"

text \<open>What never changes of an installer.\<close>

definition same_installers :: "('x, 'w) installer list \<Rightarrow> ('x, 'w) installer list \<Rightarrow> bool" where
  "same_installers is is' \<longleftrightarrow>
     map (\<lambda>i. (in_location_id i, in_install_type i, in_interface i)) is' = map (\<lambda>i. (in_location_id i, in_install_type i, in_interface i)) is"

lemma same_installers_refl [simp]: "same_installers is is"
  by (simp add: same_installers_def)

lemma same_installers_trans [trans]: "same_installers a b \<Longrightarrow> same_installers b c \<Longrightarrow> same_installers a c"
  by (simp add: same_installers_def)

lemma same_installers_length: "same_installers is is' \<Longrightarrow> length is' = length is"
  unfolding same_installers_def by (rule map_eq_imp_length_eq)

lemma same_installers_update:
  assumes "in_location_id i = in_location_id (is ! k)" and "in_install_type i = in_install_type (is ! k)"
    and "in_interface i = in_interface (is ! k)"
  shows "same_installers is (is[k := i])"
  using assms by (cases "k < length is") (simp_all add: same_installers_def map_update list_update_same_conv list_update_beyond)

lemma same_installers_locations:
  assumes "same_installers is is'"
  shows "in_location_id ` set is' = in_location_id ` set is"
proof -
  have "map fst (map (\<lambda>i. (in_location_id i, in_install_type i, in_interface i)) is')
      = map fst (map (\<lambda>i. (in_location_id i, in_install_type i, in_interface i)) is)"
    using assms by (simp add: same_installers_def)
  then have "set (map in_location_id is') = set (map in_location_id is)" by (simp add: comp_def)
  then show ?thesis by simp
qed

lemma same_installers_volumes:
  assumes "same_installers is is'"
  shows "update_volumes found bank is' = update_volumes found bank is" and "locations_ok found is' = locations_ok found is"
proof -
  have *: "update_volumes found bank xs = {v. \<exists>l \<in> in_location_id ` set xs. bank_volume found bank l = Some v}" for xs :: "('x, 'w) installer list"
    by (auto simp: update_volumes_def)
  show "update_volumes found bank is' = update_volumes found bank is"
    by (simp only: * same_installers_locations [OF assms])
  have *: "locations_ok found xs \<longleftrightarrow> (\<forall>l \<in> in_location_id ` set xs.
      \<exists>v0 v1. bank_volume found 0 l = Some v0 \<and> bank_volume found 1 l = Some v1 \<and> v0 \<noteq> v1)" for xs :: "('x, 'w) installer list"
    by (auto simp: locations_ok_def)
  show "locations_ok found is' = locations_ok found is"
    by (simp only: * same_installers_locations [OF assms])
qed

lemma installer_chain_frame:
  assumes "installer_chain is ks p" and "length is' = length is" and "\<And>k. k \<in> set ks \<Longrightarrow> in_next (is' ! k) = in_next (is ! k)"
  shows "installer_chain is' ks p"
  using assms by (induction ks arbitrary: p) auto

lemma active_list_update:
  assumes "active_list bound found bank is p ks" and "k < length is" and "in_next i = in_next (is ! k)"
    and "if k \<in> set ks then active_installer bound found bank i else \<not> in_is_active i"
  shows "active_list bound found bank (is[k := i]) p ks"
proof -
  have "installer_chain (is[k := i]) ks p"
    by (rule installer_chain_frame [of "is"]) (use assms in \<open>auto simp: active_list_def nth_update_if\<close>)
  then show ?thesis using assms by (auto simp: active_list_def nth_update_if)
qed

lemma active_list_first:
  assumes "active_list bound found bank is (Some k) ks"
  obtains ks' where "ks = k # ks'" and "k < length is" and "k \<notin> set ks'" and "active_installer bound found bank (is ! k)"
proof -
  have c: "installer_chain is ks (Some k)" using assms by (simp add: active_list_def)
  then obtain ks' where ks: "ks = k # ks'" "k < length is" by (cases ks) auto
  then show ?thesis using assms that by (auto simp: active_list_def)
qed

lemma active_list_rest:
  assumes "active_list bound found bank is (Some k) (k # ks)" and "\<not> in_is_active i"
  shows "active_list bound found bank (is[k := i]) (in_next (is ! k)) ks"
proof -
  have "installer_chain (is[k := i]) ks (in_next (is ! k))"
    by (rule installer_chain_frame [of "is"]) (use assms in \<open>auto simp: active_list_def nth_update_if\<close>)
  then show ?thesis using assms by (auto simp: active_list_def nth_update_if)
qed

lemma active_list_push:
  assumes "active_list bound found bank is p ks" and "k < length is" and "k \<notin> set ks" and "active_installer bound found bank i" and "in_next i = p"
  shows "active_list bound found bank (is[k := i]) (Some k) (k # ks)"
proof -
  have "installer_chain (is[k := i]) ks p"
    by (rule installer_chain_frame [of "is"]) (use assms in \<open>auto simp: active_list_def nth_update_if\<close>)
  then show ?thesis using assms by (auto simp: active_list_def nth_update_if)
qed

lemma active_list_empty: "active_list bound found bank is None ks \<longleftrightarrow> ks = [] \<and> (\<forall>i \<in> set is. \<not> in_is_active i)"
  by (cases ks) (auto simp: active_list_def all_set_conv_all_nth)

definition store_ok ::
  "'w metadata_serializer \<Rightarrow> 'v \<Rightarrow> 'v \<Rightarrow> (('x, 'w) installer_interface \<Rightarrow> 'x \<Rightarrow> bool) \<Rightarrow> ('x \<Rightarrow> 'v \<Rightarrow> bool) \<Rightarrow>
    (u32 \<Rightarrow> 'v option) \<Rightarrow> ('w \<Rightarrow> bool) \<Rightarrow> ('x, 'v, 'w) fw_store \<Rightarrow> bool" where
  "store_ok ms p b fits bound found wok s \<longleftrightarrow>
     wok (fs_volumes s) \<and> manager_ready ms p b (fs_metadata_manager s) \<and> mm_is_valid (fs_metadata_manager s)
     \<and> mm_metadata_len (fs_metadata_manager s) \<le> ms_max_size ms \<and> indices_ok (fs_metadata_manager s)
     \<and> bank_tracker_ok (fs_bank_tracker s) \<and> fs_boot_index s < 2 \<and> fs_update_index s = bank_scheme_next_index (fs_boot_index s)
     \<and> installers_fit fits (fs_installers s) \<and> locations_ok found (fs_installers s)
     \<and> (\<exists>ks. active_list bound found (fs_update_index s) (fs_installers s) (fs_active_installers s) ks)"

text \<open>What an operation may do: the banks and the installers stay, and only the volumes of the update bank and of the metadata are
  written.\<close>

definition store_step ::
  "('w \<Rightarrow> 'v \<Rightarrow> bytes) \<Rightarrow> (u32 \<Rightarrow> 'v option) \<Rightarrow> 'v \<Rightarrow> 'v \<Rightarrow> ('x, 'v, 'w) fw_store \<Rightarrow> ('x, 'v, 'w) fw_store \<Rightarrow> bool" where
  "store_step stored found p b s s' \<longleftrightarrow>
     fs_boot_index s' = fs_boot_index s \<and> fs_update_index s' = fs_update_index s
     \<and> same_installers (fs_installers s) (fs_installers s')
     \<and> writes_in stored (update_volumes found (fs_update_index s) (fs_installers s) \<union> {p, b}) (fs_volumes s) (fs_volumes s')"

lemma store_step_refl [simp]: "store_step stored found p b s s"
  by (simp add: store_step_def)

lemma store_step_trans [trans]:
  assumes "store_step stored found p b s1 s2" and "store_step stored found p b s2 s3"
  shows "store_step stored found p b s1 s3"
  using assms same_installers_volumes(1) [of "fs_installers s1" "fs_installers s2" found "fs_update_index s1"]
  by (auto simp: store_step_def intro: same_installers_trans writes_in_trans)

lemma store_step_length: "store_step stored found p b s s' \<Longrightarrow> length (fs_installers s') = length (fs_installers s)"
  unfolding store_step_def using same_installers_length by blast

lemma bank_scheme_next_index_cases: "boot < 2 \<Longrightarrow> boot = 0 \<and> bank_scheme_next_index boot = 1 \<or> boot = 1 \<and> bank_scheme_next_index boot = 0"
  using bank_cases [of boot] by (auto simp: bank_scheme_next_index_def)

lemma locations_ok_banks:
  assumes "locations_ok found is" and "i \<in> set is" and "boot < 2"
  obtains u v where "bank_volume found boot (in_location_id i) = Some u"
    and "bank_volume found (bank_scheme_next_index boot) (in_location_id i) = Some v" and "u \<noteq> v"
  using assms bank_scheme_next_index_cases [OF assms(3)] by (fastforce simp: locations_ok_def)

lemma update_volumesI: "i \<in> set is \<Longrightarrow> bank_volume found bank (in_location_id i) = Some v \<Longrightarrow> v \<in> update_volumes found bank is"
  by (auto simp: update_volumes_def)

lemma installers_fit_update:
  "installers_fit fits is \<Longrightarrow> fits (in_interface i) (in_context i) \<Longrightarrow> installers_fit fits (is[k := i])"
  by (auto simp: installers_fit_def dest!: set_update_subset_insert [THEN subsetD])

lemma volume_id_bank:
  "found (update_volume_id s l) = bank_volume found (fs_update_index s) l"
  "found (current_volume_id s l) = bank_volume found (fs_boot_index s) l"
  by (simp_all add: update_volume_id_def current_volume_id_def bank_volume_def)

lemma installer_index_find_Some:
  "installer_index_find ix is t l = Some k \<Longrightarrow> k \<in> set (ix_installers ix) \<and> in_install_type (is ! k) = t \<and> in_location_id (is ! k) = l"
  by (auto simp: installer_index_find_def find_Some_iff)

lemma bank_tracker_ops_return:
  assumes "bank_tracker_ok bt" and "b < 2"
  shows "unat i < FWU_MAX_FW_DIRECTORY_ENTRIES \<Longrightarrow> \<exists>bt'. bank_tracker_accept bt b i = Some bt' \<and> bank_tracker_ok bt'"
    and "unat i < FWU_MAX_FW_DIRECTORY_ENTRIES \<Longrightarrow> a < 2 \<Longrightarrow> \<exists>bt'. bank_tracker_copy_accept bt a b i = Some bt' \<and> bank_tracker_ok bt'"
    and "\<exists>bt'. bank_tracker_set_no_content bt b = Some bt' \<and> bank_tracker_ok bt'"
    and "\<exists>bt'. bank_tracker_set_holds_content bt b = Some bt' \<and> bank_tracker_ok bt'"
    and "\<exists>bt'. bank_tracker_set_holds_accepted_content bt b = Some bt' \<and> bank_tracker_ok bt'"
proof -
  have u: "bank_upd bt b f = Some (bt[unat b := f (bt ! unat b)])" for f using assms(2) by (simp add: bank_upd_def word_less_nat_alt)
  note ops = bank_tracker_ops_ok [OF assms(1)]
  show "unat i < FWU_MAX_FW_DIRECTORY_ENTRIES \<Longrightarrow> \<exists>bt'. bank_tracker_accept bt b i = Some bt' \<and> bank_tracker_ok bt'"
    using ops(1) [of b i] by (auto simp: u bank_tracker_accept_def)
  show "unat i < FWU_MAX_FW_DIRECTORY_ENTRIES \<Longrightarrow> a < 2 \<Longrightarrow> \<exists>bt'. bank_tracker_copy_accept bt a b i = Some bt' \<and> bank_tracker_ok bt'"
    using ops(2) [of a b i] by (auto simp: u bank_tracker_copy_accept_def word_less_nat_alt)
  show "\<exists>bt'. bank_tracker_set_no_content bt b = Some bt' \<and> bank_tracker_ok bt'"
    using ops(3) [of b] by (auto simp: u bank_tracker_set_no_content_def)
  show "\<exists>bt'. bank_tracker_set_holds_content bt b = Some bt' \<and> bank_tracker_ok bt'"
    using ops(4) [of b] by (auto simp: u bank_tracker_set_holds_content_def)
  show "\<exists>bt'. bank_tracker_set_holds_accepted_content bt b = Some bt' \<and> bank_tracker_ok bt'"
    using ops(5) [of b] by (auto simp: u bank_tracker_set_holds_accepted_content_def)
qed

lemma fw_directory_get_index:
  assumes "fw_directory_ok dir" and "fw_directory_get_image_info dir i = Some info"
  shows "unat (ii_image_index info) < FWU_MAX_FW_DIRECTORY_ENTRIES" and "info \<in> set (fw_images dir)"
proof -
  have i: "i < fd_num_images dir" "info = fw_images dir ! i" "i < FWU_MAX_FW_DIRECTORY_ENTRIES"
    using assms by (auto simp: fw_directory_get_eq fw_directory_ok_def split: if_splits)
  then have "ii_image_index info = word_of_nat i" using assms(1) by (simp add: fw_directory_ok_def fw_images_def)
  then show "unat (ii_image_index info) < FWU_MAX_FW_DIRECTORY_ENTRIES" using i(3) by (simp add: unat_of_nat)
  show "info \<in> set (fw_images dir)" using i assms(1) by simp
qed

lemma guid_octets_return:
  assumes "uuid_is_valid s = Some UUID_CANONICAL_FORM_LEN" and "length junk = UUID_OCTETS_LEN"
  shows "\<exists>u. uuid_guid_octets_from_canonical junk junk s = Some u"
  using uuid_parse_to_octets_eq [OF assms] assms(2)
  by (simp add: uuid_guid_octets_from_canonical_def uuid_parse_to_guid_octets_def uuid_reverse_octets_def mem_write_def)

lemma metadata_uuid_valid: "uuid_is_valid FWU_METADATA_CANONICAL_UUID = Some UUID_CANONICAL_FORM_LEN"
  by code_simp

lemma directory_uuid_valid: "uuid_is_valid FWU_DIRECTORY_CANONICAL_UUID = Some UUID_CANONICAL_FORM_LEN"
  by code_simp

text \<open>What the store finds on its platform.\<close>

definition platform_ok :: "('v, 'w) volume_funcs \<Rightarrow> ('v, 'w) fwu_platform \<Rightarrow> ('x, 'v, 'w) fw_store \<Rightarrow> bool" where
  "platform_ok vf pl s \<longleftrightarrow> pl_volume_funcs pl = vf \<and> (\<forall>k \<in> set (ix_installers (pl_installer_index pl)). k < length (fs_installers s))"


section \<open>Operations on installers\<close>

locale fw_store_parts = metadata_files vf wok stored pos ms + kinds: installers fits bound wok stored found
  for vf :: "('v, 'w) volume_funcs" and wok and stored :: "'w \<Rightarrow> 'v \<Rightarrow> bytes" and pos ms
    and fits :: "('x, 'w) installer_interface \<Rightarrow> 'x \<Rightarrow> bool" and bound found +
  fixes p b :: 'v
begin

abbreviation ok :: "('x, 'v, 'w) fw_store \<Rightarrow> bool" where
  "ok \<equiv> store_ok ms p b fits bound found wok"

abbreviation step :: "('x, 'v, 'w) fw_store \<Rightarrow> ('x, 'v, 'w) fw_store \<Rightarrow> bool" where
  "step \<equiv> store_step stored found p b"

lemma update_metadata_returns:
  assumes "wok (fs_volumes s)" and "manager_ready ms p b (fs_metadata_manager s)" and "bank_tracker_ok (fs_bank_tracker s)"
    and "pl_volume_funcs pl = vf" and "fd_num_images dir \<le> FWU_MAX_FW_DIRECTORY_ENTRIES"
  shows "\<exists>st mm w. update_metadata pl s dir ai pi = Some (st, s\<lparr>fs_metadata_manager := mm, fs_volumes := w\<rparr>) \<and> wok w
    \<and> manager_ready ms p b mm \<and> mm_is_valid mm \<and> mm_metadata_len mm \<le> ms_max_size ms
    \<and> metadata_manager_get_active_indices mm = Some (FWU_STATUS_SUCCESS, Some (ai, pi)) \<and> writes_in stored {p, b} (fs_volumes s) w"
proof -
  obtain st mm w where u: "metadata_manager_update (pl_crc32 pl) vf (fs_metadata_manager s) ai pi dir (fs_bank_tracker s) (fs_volumes s)
      = Some (st, mm, w)" "wok w" "manager_ready ms p b mm" "mm_is_valid mm" "mm_metadata_len mm = ms_size ms dir"
    "metadata_manager_get_active_indices mm = Some (FWU_STATUS_SUCCESS, Some (ai, pi))" "writes_in stored {p, b} (fs_volumes s) w"
    using update_returns [OF assms(1,2,5,3)] by blast
  have "update_metadata pl s dir ai pi = Some (st, s\<lparr>fs_metadata_manager := mm, fs_volumes := w\<rparr>)"
    using u(1) assms(4) by (simp add: update_metadata_def)
  then show ?thesis using u(2-4,6,7) u(5) format.size_bounds [OF assms(5)] by metis
qed

lemma update_metadata_ok:
  assumes "ok s" and "pl_volume_funcs pl = vf" and "fd_num_images dir \<le> FWU_MAX_FW_DIRECTORY_ENTRIES"
  shows "\<exists>st s'. update_metadata pl s dir ai pi = Some (st, s') \<and> ok s' \<and> step s s'
    \<and> fs_active_installers s' = fs_active_installers s
    \<and> metadata_manager_get_active_indices (fs_metadata_manager s') = Some (FWU_STATUS_SUCCESS, Some (ai, pi))"
proof -
  have s: "wok (fs_volumes s)" "manager_ready ms p b (fs_metadata_manager s)" "bank_tracker_ok (fs_bank_tracker s)"
    using assms(1) by (simp_all add: store_ok_def)
  obtain st mm w where u: "update_metadata pl s dir ai pi = Some (st, s\<lparr>fs_metadata_manager := mm, fs_volumes := w\<rparr>)" "wok w"
    "manager_ready ms p b mm" "mm_is_valid mm" "mm_metadata_len mm \<le> ms_max_size ms"
    "metadata_manager_get_active_indices mm = Some (FWU_STATUS_SUCCESS, Some (ai, pi))" "writes_in stored {p, b} (fs_volumes s) w"
    using update_metadata_returns [OF s assms(2,3)] by blast
  have "writes_in stored (update_volumes found (fs_update_index s) (fs_installers s) \<union> {p, b}) (fs_volumes s) w"
    by (rule writes_in_mono [OF u(7)]) auto
  then show ?thesis using assms(1) u by (auto simp: store_ok_def store_step_def indices_ok_def)
qed

text \<open>A call that keeps the installer bound.\<close>

definition keeps_bound :: "(('x, 'w) installer \<Rightarrow> 'w \<Rightarrow> (fwu_status \<times> ('x, 'w) installer \<times> 'w) option) \<Rightarrow> bool" where
  "keeps_bound f \<longleftrightarrow>
     (\<forall>i v w. fits (in_interface i) (in_context i) \<longrightarrow> bound (in_context i) v \<longrightarrow> wok w \<longrightarrow>
        (\<exists>st ist x w'. f i w = Some (st, i\<lparr>in_context := x, in_install_status := ist\<rparr>, w') \<and> fits (in_interface i) x \<and> bound x v
           \<and> wok w' \<and> writes_only stored v w w'))"

lemma note_status_eq: "\<exists>ist. note_status st (i\<lparr>in_context := x\<rparr>) = i\<lparr>in_context := x, in_install_status := ist\<rparr>"
proof (cases "st \<noteq> 0 \<and> in_install_status i = 0")
  case True
  then show ?thesis by (auto simp: note_status_def)
next
  case False
  then have "note_status st (i\<lparr>in_context := x\<rparr>) = i\<lparr>in_context := x, in_install_status := in_install_status i\<rparr>"
    by (auto simp: note_status_def)
  then show ?thesis by blast
qed

lemma keeps_boundI:
  fixes f :: "('x, 'w) installer \<Rightarrow> 'w \<Rightarrow> (fwu_status \<times> ('x, 'w) installer \<times> 'w) option"
  assumes "\<And>i v w. fits (in_interface i) (in_context i) \<Longrightarrow> bound (in_context i) v \<Longrightarrow> wok w \<Longrightarrow>
      \<exists>st x w'. g i w = Some (st, x, w') \<and> fits (in_interface i) x \<and> bound x v \<and> wok w' \<and> writes_only stored v w w'"
    and "\<And>i w. f i w = do { (st, x, w) \<leftarrow> g i w; Some (st, note_status st (i\<lparr>in_context := x\<rparr>), w) }"
  shows "keeps_bound f"
  unfolding keeps_bound_def
proof (intro allI impI)
  fix i :: "('x, 'w) installer" and v w
  assume "fits (in_interface i) (in_context i)" "bound (in_context i) v" "wok w"
  from assms(1) [OF this] obtain st x w' where g: "g i w = Some (st, x, w')" "fits (in_interface i) x" "bound x v" "wok w'"
    "writes_only stored v w w'" by blast
  obtain ist where "note_status st (i\<lparr>in_context := x\<rparr>) = i\<lparr>in_context := x, in_install_status := ist\<rparr>"
    using note_status_eq [of st x i] by blast
  then show "\<exists>st ist x w'. f i w = Some (st, i\<lparr>in_context := x, in_install_status := ist\<rparr>, w') \<and> fits (in_interface i) x \<and> bound x v
      \<and> wok w' \<and> writes_only stored v w w'"
    using g assms(2) [of i w] by auto
qed

lemma keeps_bound_calls:
  "keeps_bound (\<lambda>i. installer_open i info)" "keeps_bound installer_commit"
  "n \<le> length d \<Longrightarrow> n < 2 ^ 64 \<Longrightarrow> keeps_bound (\<lambda>i. installer_write i d n)"
  by (rule keeps_boundI [OF kinds.opens_image] keeps_boundI [OF kinds.commits] keeps_boundI [OF kinds.writes_image],
      assumption+, simp add: installer_open_def installer_commit_def installer_write_def)+

text \<open>The volumes after a call on the installer at \<open>k\<close>.\<close>

lemma installer_step:
  assumes "k < length (fs_installers s)" and "bank_volume found (fs_update_index s) (in_location_id (fs_installers s ! k)) = Some v"
    and "writes_only stored v (fs_volumes s) w" and "in_location_id i = in_location_id (fs_installers s ! k)"
    and "in_install_type i = in_install_type (fs_installers s ! k)" and "in_interface i = in_interface (fs_installers s ! k)"
  shows "step s (set_installer k i (s\<lparr>fs_volumes := w\<rparr>))"
proof -
  have "v \<in> update_volumes found (fs_update_index s) (fs_installers s) \<union> {p, b}"
    using update_volumesI [OF nth_mem [OF assms(1)] assms(2)] by simp
  then show ?thesis
    using writes_only_in [OF assms(3)] same_installers_update [OF assms(4-6)] by (simp add: store_step_def set_installer_def)
qed

lemma on_active:
  assumes "ok s" and "keeps_bound f" and "k < length (fs_installers s)" and "in_is_active (fs_installers s ! k)"
  shows "\<exists>st s'. on_installer f k s = Some (st, s') \<and> ok s' \<and> step s s' \<and> fs_active_installers s' = fs_active_installers s
    \<and> fs_bank_tracker s' = fs_bank_tracker s \<and> fs_metadata_manager s' = fs_metadata_manager s \<and> in_is_active (fs_installers s' ! k)"
proof -
  let ?i = "fs_installers s ! k"
  obtain ks where ks: "active_list bound found (fs_update_index s) (fs_installers s) (fs_active_installers s) ks"
    using assms(1) by (auto simp: store_ok_def)
  have k: "k \<in> set ks" "active_installer bound found (fs_update_index s) ?i"
    using ks assms(3,4) by (auto simp: active_list_def split: if_splits)
  then obtain v where v: "bank_volume found (fs_update_index s) (in_location_id ?i) = Some v" "bound (in_context ?i) v"
    by (auto simp: active_installer_def)
  have fi: "fits (in_interface ?i) (in_context ?i)" "wok (fs_volumes s)"
    using assms(1,3) by (simp_all add: store_ok_def installers_fit_def)
  obtain st ist x w where c: "f ?i (fs_volumes s) = Some (st, ?i\<lparr>in_context := x, in_install_status := ist\<rparr>, w)" "fits (in_interface ?i) x"
    "bound x v" "wok w" "writes_only stored v (fs_volumes s) w"
    using assms(2) fi v(2) unfolding keeps_bound_def by meson
  let ?j = "?i\<lparr>in_context := x, in_install_status := ist\<rparr>"
  have "active_list bound found (fs_update_index s) ((fs_installers s)[k := ?j]) (fs_active_installers s) ks"
    by (rule active_list_update [OF ks assms(3)]) (use k v(1) c(3) in \<open>auto simp: active_installer_def\<close>)
  moreover have st: "step s (set_installer k ?j (s\<lparr>fs_volumes := w\<rparr>))"
    by (rule installer_step [OF assms(3) v(1) c(5)]) simp_all
  ultimately show ?thesis
    using assms(1,3,4) c(1,2,4) installers_fit_update [of fits "fs_installers s" ?j k] same_installers_volumes(2) [of "fs_installers s" "(fs_installers s)[k := ?j]" found]
    by (auto simp: on_installer_def array_get_int store_ok_def store_step_def set_installer_def)
qed

lemma begins_at:
  assumes "ok s" and "k < length (fs_installers s)" and "in_location_id (fs_installers s ! k) = l"
  shows "\<exists>v x w. installer_begin (fs_installers s ! k) (current_volume_id s l) (update_volume_id s l) (fs_volumes s)
      = Some (FWU_STATUS_SUCCESS, (fs_installers s ! k)\<lparr>in_install_status := FWU_STATUS_SUCCESS, in_is_active := True, in_context := x\<rparr>, w)
    \<and> bank_volume found (fs_update_index s) l = Some v \<and> fits (in_interface (fs_installers s ! k)) x \<and> bound x v \<and> wok w
    \<and> stored w = stored (fs_volumes s)"
proof -
  let ?i = "fs_installers s ! k"
  have s: "locations_ok found (fs_installers s)" "fs_boot_index s < 2" "fs_update_index s = bank_scheme_next_index (fs_boot_index s)"
    "fits (in_interface ?i) (in_context ?i)" "wok (fs_volumes s)"
    using assms(1,2) by (simp_all add: store_ok_def installers_fit_def)
  obtain u v where uv: "bank_volume found (fs_boot_index s) l = Some u" "bank_volume found (fs_update_index s) l = Some v" "u \<noteq> v"
    using locations_ok_banks [OF s(1) nth_mem [OF assms(2)] s(2)] assms(3) s(3) by auto
  obtain x w where x: "iif_begin (in_interface ?i) (in_context ?i) (current_volume_id s l) (update_volume_id s l) (fs_volumes s)
      = Some (FWU_STATUS_SUCCESS, x, w)" "fits (in_interface ?i) x" "bound x v" "wok w" "stored w = stored (fs_volumes s)"
    using kinds.begins [OF s(4,5), of "update_volume_id s l" v "current_volume_id s l" u] uv by (auto simp: volume_id_bank)
  then show ?thesis using uv(2) by (auto simp: installer_begin_def)
qed

lemma activate_ok:
  assumes "ok s" and "k < length (fs_installers s)" and "in_location_id (fs_installers s ! k) = l" and "\<not> in_is_active (fs_installers s ! k)"
    and "in_install_type (fs_installers s ! k) \<noteq> INSTALL_TYPE_WHOLE_VOLUME_COPY"
  shows "\<exists>s'. activate_installer s k l = Some (FWU_STATUS_SUCCESS, s') \<and> ok s' \<and> step s s' \<and> in_is_active (fs_installers s' ! k)"
proof -
  let ?i = "fs_installers s ! k"
  obtain v x w where b: "installer_begin ?i (current_volume_id s l) (update_volume_id s l) (fs_volumes s)
      = Some (FWU_STATUS_SUCCESS, ?i\<lparr>in_install_status := FWU_STATUS_SUCCESS, in_is_active := True, in_context := x\<rparr>, w)"
    "bank_volume found (fs_update_index s) l = Some v" "fits (in_interface ?i) x" "bound x v" "wok w" "stored w = stored (fs_volumes s)"
    using begins_at [OF assms(1-3)] by blast
  let ?j = "?i\<lparr>in_install_status := FWU_STATUS_SUCCESS, in_is_active := True, in_context := x, in_next := fs_active_installers s\<rparr>"
  let ?s = "(set_installer k ?j (s\<lparr>fs_volumes := w\<rparr>))\<lparr>fs_active_installers := Some k\<rparr>"
  have a: "activate_installer s k l = Some (FWU_STATUS_SUCCESS, ?s)"
    using assms(2) b(1) by (simp add: activate_installer_def on_installer_def array_get_int set_installer_def)
  obtain ks where ks: "active_list bound found (fs_update_index s) (fs_installers s) (fs_active_installers s) ks"
    using assms(1) by (auto simp: store_ok_def)
  have "k \<notin> set ks" using ks assms(2,4) by (auto simp: active_list_def active_installer_def)
  then have al: "active_list bound found (fs_update_index s) ((fs_installers s)[k := ?j]) (Some k) (k # ks)"
    by (intro active_list_push [OF ks assms(2)]) (use assms(3,5) b in \<open>auto simp: active_installer_def\<close>)
  have "step s (set_installer k ?j (s\<lparr>fs_volumes := w\<rparr>))"
    by (rule installer_step [OF assms(2), of v]) (use assms(3) b in simp_all)
  then have st: "step s ?s" by (simp add: store_step_def)
  then have "ok ?s"
    using assms(1) al b(3,5) installers_fit_update [of fits "fs_installers s" ?j k]
      same_installers_volumes(2) [of "fs_installers s" "(fs_installers s)[k := ?j]" found]
    by (auto simp: store_ok_def store_step_def set_installer_def)
  then show ?thesis using a st assms(2) by (auto simp: set_installer_def)
qed

lemma copy_unchanged_ok:
  assumes "ok s" and "k < length (fs_installers s)" and "in_location_id (fs_installers s ! k) = l"
    and "in_install_type (fs_installers s ! k) = INSTALL_TYPE_WHOLE_VOLUME_COPY"
  shows "\<exists>s1 st s2. on_installer (\<lambda>i. installer_begin i (current_volume_id s l) (update_volume_id s l)) k s = Some (FWU_STATUS_SUCCESS, s1)
    \<and> on_installer installer_finalize k s1 = Some (st, s2) \<and> ok s2 \<and> step s s2 \<and> fs_active_installers s2 = fs_active_installers s"
proof -
  let ?i = "fs_installers s ! k"
  obtain v x w where b: "installer_begin ?i (current_volume_id s l) (update_volume_id s l) (fs_volumes s)
      = Some (FWU_STATUS_SUCCESS, ?i\<lparr>in_install_status := FWU_STATUS_SUCCESS, in_is_active := True, in_context := x\<rparr>, w)"
    "bank_volume found (fs_update_index s) l = Some v" "fits (in_interface ?i) x" "bound x v" "wok w" "stored w = stored (fs_volumes s)"
    using begins_at [OF assms(1-3)] by blast
  obtain st x2 w2 where f: "iif_finalize (in_interface ?i) x w = Some (st, x2, w2)" "fits (in_interface ?i) x2" "wok w2"
    "writes_only stored v w w2"
    using kinds.finalizes [OF b(3-5)] by blast
  let ?j = "?i\<lparr>in_install_status := FWU_STATUS_SUCCESS, in_is_active := False, in_context := x2\<rparr>"
  let ?s1 = "set_installer k (?i\<lparr>in_install_status := FWU_STATUS_SUCCESS, in_is_active := True, in_context := x\<rparr>) (s\<lparr>fs_volumes := w\<rparr>)"
  let ?s2 = "set_installer k ?j (s\<lparr>fs_volumes := w2\<rparr>)"
  have 1: "on_installer (\<lambda>i. installer_begin i (current_volume_id s l) (update_volume_id s l)) k s = Some (FWU_STATUS_SUCCESS, ?s1)"
    using assms(2) b(1) by (simp add: on_installer_def array_get_int)
  have 2: "on_installer installer_finalize k ?s1 = Some (st, ?s2)"
    using assms(2) f(1) by (simp add: on_installer_def array_get_int set_installer_def installer_finalize_def)
  obtain ks where ks: "active_list bound found (fs_update_index s) (fs_installers s) (fs_active_installers s) ks"
    using assms(1) by (auto simp: store_ok_def)
  have "k \<notin> set ks" using ks assms(2,4) by (auto simp: active_list_def active_installer_def)
  then have al: "active_list bound found (fs_update_index s) ((fs_installers s)[k := ?j]) (fs_active_installers s) ks"
    by (intro active_list_update [OF ks assms(2)]) simp_all
  have "writes_only stored v (fs_volumes s) w2" using f(4) b(6) by (simp add: writes_only_def)
  then have st: "step s ?s2"
    by (intro installer_step [OF assms(2)]) (use assms(3) b(2) in simp_all)
  then have "ok ?s2"
    using assms(1) al f(2,3) installers_fit_update [of fits "fs_installers s" ?j k]
      same_installers_volumes(2) [of "fs_installers s" "(fs_installers s)[k := ?j]" found]
    by (auto simp: store_ok_def store_step_def set_installer_def)
  then show ?thesis using 1 2 st by (auto simp: set_installer_def)
qed

text \<open>Taking the first installer off the list.\<close>

lemma pop_ok:
  assumes "ok s" and "active_list bound found (fs_update_index s) (fs_installers s) (fs_active_installers s) (k # ks)"
    and "fits (in_interface (fs_installers s ! k)) x" and "wok w"
    and "bank_volume found (fs_update_index s) (in_location_id (fs_installers s ! k)) = Some v" and "writes_only stored v (fs_volumes s) w"
  defines "s' \<equiv> set_installer k ((fs_installers s ! k)\<lparr>in_is_active := False, in_context := x\<rparr>)
    (s\<lparr>fs_active_installers := in_next (fs_installers s ! k), fs_volumes := w\<rparr>)"
  shows "ok s'" and "step s s'" and "active_list bound found (fs_update_index s') (fs_installers s') (fs_active_installers s') ks"
proof -
  let ?j = "(fs_installers s ! k)\<lparr>in_is_active := False, in_context := x\<rparr>"
  have p: "fs_active_installers s = Some k" "k < length (fs_installers s)" using assms(2) by (simp_all add: active_list_def)
  show al: "active_list bound found (fs_update_index s') (fs_installers s') (fs_active_installers s') ks"
    using active_list_rest [of bound found _ _ k ks ?j] assms(2) p(1) by (simp add: s'_def set_installer_def)
  have "step s (set_installer k ?j (s\<lparr>fs_volumes := w\<rparr>))"
    by (rule installer_step [OF p(2) assms(5,6)]) simp_all
  then show st: "step s s'" by (simp add: store_step_def s'_def set_installer_def)
  show "ok s'"
    using assms(1,3,4) al st installers_fit_update [of fits "fs_installers s" ?j k]
      same_installers_volumes(2) [of "fs_installers s" "fs_installers s'" found]
    by (auto simp: store_ok_def store_step_def s'_def set_installer_def)
qed

lemma active_first_facts:
  assumes "ok s" and "active_list bound found (fs_update_index s) (fs_installers s) (fs_active_installers s) (k # ks)"
  obtains v where "fs_active_installers s = Some k" and "array_get (fs_installers s) (int k) = Some (fs_installers s ! k)"
    and "fits (in_interface (fs_installers s ! k)) (in_context (fs_installers s ! k))" and "wok (fs_volumes s)"
    and "bank_volume found (fs_update_index s) (in_location_id (fs_installers s ! k)) = Some v" and "bound (in_context (fs_installers s ! k)) v"
proof -
  have k: "fs_active_installers s = Some k" "k < length (fs_installers s)" "active_installer bound found (fs_update_index s) (fs_installers s ! k)"
    using assms(2) by (auto simp: active_list_def)
  have "fits (in_interface (fs_installers s ! k)) (in_context (fs_installers s ! k))" "wok (fs_volumes s)"
    using assms(1) k(2) by (simp_all add: store_ok_def installers_fit_def)
  then show ?thesis using k that by (auto simp: active_installer_def array_get_int)
qed

lemma cancel_install_ok:
  assumes "ok s" and "active_list bound found (fs_update_index s) (fs_installers s) (fs_active_installers s) ks"
  shows "\<exists>s'. fw_store_cancel_install s = Some s' \<and> ok s' \<and> step s s' \<and> fs_active_installers s' = None"
  using assms
proof (induction ks arbitrary: s)
  case Nil
  then show ?case by (subst fw_store_cancel_install.simps) (auto simp: active_list_def)
next
  case (Cons k ks)
  obtain v where f: "fs_active_installers s = Some k" "array_get (fs_installers s) (int k) = Some (fs_installers s ! k)"
    "fits (in_interface (fs_installers s ! k)) (in_context (fs_installers s ! k))" "wok (fs_volumes s)"
    "bank_volume found (fs_update_index s) (in_location_id (fs_installers s ! k)) = Some v" "bound (in_context (fs_installers s ! k)) v"
    by (rule active_first_facts [OF Cons.prems])
  obtain x w where a: "iif_abort (in_interface (fs_installers s ! k)) (in_context (fs_installers s ! k)) (fs_volumes s) = Some (x, w)"
    "fits (in_interface (fs_installers s ! k)) x" "wok w" "stored w = stored (fs_volumes s)"
    using kinds.aborts [OF f(3,6,4)] by blast
  let ?s = "set_installer k ((fs_installers s ! k)\<lparr>in_is_active := False, in_context := x\<rparr>)
    (s\<lparr>fs_active_installers := in_next (fs_installers s ! k), fs_volumes := w\<rparr>)"
  note pop = pop_ok [OF Cons.prems a(2,3) f(5) writes_only_refl [OF a(4)]]
  have "fw_store_cancel_install s = fw_store_cancel_install ?s"
    by (subst fw_store_cancel_install.simps) (simp add: f(1,2) a(1) installer_abort_def)
  then show ?case using Cons.IH [OF pop(1,3)] store_step_trans [OF pop(2)] by auto
qed

lemma finalize_active_ok:
  assumes "ok s" and "active_list bound found (fs_update_index s) (fs_installers s) (fs_active_installers s) ks"
  shows "\<exists>st e s'. finalize_active st0 is_error s = Some (st, e, s') \<and> ok s' \<and> step s s' \<and> fs_active_installers s' = None"
  using assms
proof (induction ks arbitrary: s st0 is_error)
  case Nil
  then show ?case by (subst finalize_active.simps) (auto simp: active_list_def)
next
  case (Cons k ks)
  obtain v where f: "fs_active_installers s = Some k" "array_get (fs_installers s) (int k) = Some (fs_installers s ! k)"
    "fits (in_interface (fs_installers s ! k)) (in_context (fs_installers s ! k))" "wok (fs_volumes s)"
    "bank_volume found (fs_update_index s) (in_location_id (fs_installers s ! k)) = Some v" "bound (in_context (fs_installers s ! k)) v"
    by (rule active_first_facts [OF Cons.prems])
  let ?s = "\<lambda>x w. set_installer k ((fs_installers s ! k)\<lparr>in_is_active := False, in_context := x\<rparr>)
    (s\<lparr>fs_active_installers := in_next (fs_installers s ! k), fs_volumes := w\<rparr>)"
  obtain x w where a: "iif_abort (in_interface (fs_installers s ! k)) (in_context (fs_installers s ! k)) (fs_volumes s) = Some (x, w)"
    "fits (in_interface (fs_installers s ! k)) x" "wok w" "stored w = stored (fs_volumes s)"
    using kinds.aborts [OF f(3,6,4)] by blast
  obtain st x2 w2 where fi: "iif_finalize (in_interface (fs_installers s ! k)) (in_context (fs_installers s ! k)) (fs_volumes s) = Some (st, x2, w2)"
    "fits (in_interface (fs_installers s ! k)) x2" "wok w2" "writes_only stored v (fs_volumes s) w2"
    using kinds.finalizes [OF f(3,6,4)] by blast
  note pa = pop_ok [OF Cons.prems a(2,3) f(5) writes_only_refl [OF a(4)]] and pf = pop_ok [OF Cons.prems fi(2,3) f(5) fi(4)]
  have "finalize_active st0 is_error s =
      (if is_error then finalize_active st0 is_error (?s x w) else finalize_active st (st \<noteq> 0) (?s x2 w2))"
    by (subst finalize_active.simps) (simp add: f(1,2) a(1) fi(1) installer_abort_def installer_finalize_def)
  then show ?case
    using Cons.IH [OF pa(1,3), of st0 is_error] Cons.IH [OF pf(1,3), of st "st \<noteq> 0"] store_step_trans [OF pa(2)] store_step_trans [OF pf(2)]
    by (cases is_error) (simp, blast)+
qed


lemma platform_ok_step: "step s s' \<Longrightarrow> platform_ok vf pl s' = platform_ok vf pl s"
  by (simp add: platform_ok_def store_step_length)

lemma tracker_ok:
  assumes "ok s" and "bank_tracker_ok bt"
  shows "ok (s\<lparr>fs_bank_tracker := bt\<rparr>)" and "step s (s\<lparr>fs_bank_tracker := bt\<rparr>)"
  using assms by (auto simp: store_ok_def store_step_def)

lemma ok_banks:
  assumes "ok s"
  shows "fs_boot_index s < 2" and "fs_update_index s < 2" and "bank_tracker_ok (fs_bank_tracker s)"
  using assms by (simp_all add: store_ok_def)

lemma begin_install_ok:
  assumes "ok s" and "platform_ok vf pl s" and "fw_directory_ok dir" and "fs_active_installers s = None"
  shows "\<exists>st s'. fw_store_begin_install pl s dir = Some (st, s') \<and> ok s' \<and> step s s' \<and> fs_active_installers s' = None"
proof -
  obtain bt where bt: "bank_tracker_set_no_content (fs_bank_tracker s) (fs_update_index s) = Some bt" "bank_tracker_ok bt"
    using bank_tracker_ops_return(3) [OF ok_banks(3) [OF assms(1)] ok_banks(2) [OF assms(1)]] by blast
  note t = tracker_ok [OF assms(1) bt(2)]
  obtain st s' where u: "update_metadata pl (s\<lparr>fs_bank_tracker := bt\<rparr>) dir (fs_boot_index s) (fs_boot_index s) = Some (st, s')"
    "ok s'" "step (s\<lparr>fs_bank_tracker := bt\<rparr>) s'" "fs_active_installers s' = None"
    using update_metadata_ok [OF t(1), of pl dir "fs_boot_index s" "fs_boot_index s"] assms ok_banks(1) [OF assms(1)]
    by (auto simp: platform_ok_def fw_directory_ok_def)
  show ?thesis using u(1,2,4) store_step_trans [OF t(2) u(3)] assms(4) bt(1) by (simp add: fw_store_begin_install_def)
qed

lemma select_installer_ok:
  assumes "ok s" and "platform_ok vf pl s" and "ii_install_type info \<noteq> INSTALL_TYPE_WHOLE_VOLUME_COPY"
  shows "\<exists>st sel s'. fw_store_select_installer pl s info = Some (st, sel, s') \<and> ok s' \<and> step s s'
    \<and> (st = FWU_STATUS_SUCCESS \<longrightarrow> (\<exists>k. sel = Some k \<and> k < length (fs_installers s')))"
proof (cases "installer_index_find (pl_installer_index pl) (fs_installers s) (ii_install_type info) (ii_location_id info)")
  case None
  then show ?thesis using assms(1) by (simp add: fw_store_select_installer_def)
next
  case (Some k)
  have k: "k < length (fs_installers s)" "in_install_type (fs_installers s ! k) \<noteq> INSTALL_TYPE_WHOLE_VOLUME_COPY"
    "in_location_id (fs_installers s ! k) = ii_location_id info"
    using installer_index_find_Some [OF Some] assms(2,3) by (auto simp: platform_ok_def)
  obtain s1 where s1: "(if installer_is_active (fs_installers s ! k) then Some (FWU_STATUS_SUCCESS, s)
      else activate_installer s k (ii_location_id info)) = Some (FWU_STATUS_SUCCESS, s1)" "ok s1" "step s s1" "in_is_active (fs_installers s1 ! k)"
    using activate_ok [OF assms(1) k(1,3) _ k(2)] assms(1)
    by (cases "in_is_active (fs_installers s ! k)") (auto simp: installer_is_active_def)
  have k1: "k < length (fs_installers s1)" using store_step_length [OF s1(3)] k(1) by simp
  obtain st s2 where s2: "on_installer (\<lambda>i. installer_open i info) k s1 = Some (st, s2)" "ok s2" "step s1 s2"
    using on_active [OF s1(2) keeps_bound_calls(1) k1 s1(4)] by blast
  have "k < length (fs_installers s2)" using store_step_length [OF s2(3)] k1 by simp
  then show ?thesis
    using Some k(1) s1(1) s2(1,2) store_step_trans [OF s1(3) s2(3)] by (simp add: fw_store_select_installer_def array_get_int)
qed

lemma write_image_ok:
  assumes "ok s" and "k < length (fs_installers s)" and "n \<le> length d" and "n < 2 ^ 64"
  shows "\<exists>st s'. fw_store_write_image s k d n = Some (st, s') \<and> ok s' \<and> step s s'
    \<and> fs_active_installers s' = fs_active_installers s \<and> fs_metadata_manager s' = fs_metadata_manager s"
  using on_active [OF assms(1) keeps_bound_calls(3) [OF assms(3,4)] assms(2)] assms(1,2)
  by (auto simp: fw_store_write_image_def array_get_int installer_is_active_def)

lemma commit_image_ok:
  assumes "ok s" and "k < length (fs_installers s)" and "unat (ii_image_index info) < FWU_MAX_FW_DIRECTORY_ENTRIES"
  shows "\<exists>st s'. fw_store_commit_image s k info accepted = Some (st, s') \<and> ok s' \<and> step s s'
    \<and> fs_active_installers s' = fs_active_installers s \<and> fs_metadata_manager s' = fs_metadata_manager s"
proof (cases "in_is_active (fs_installers s ! k)")
  case False
  then show ?thesis using assms(1,2) by (simp add: fw_store_commit_image_def array_get_int installer_is_active_def)
next
  case True
  obtain st s1 where s1: "on_installer installer_commit k s = Some (st, s1)" "ok s1" "step s s1"
    "fs_active_installers s1 = fs_active_installers s" "fs_metadata_manager s1 = fs_metadata_manager s"
    using on_active [OF assms(1) keeps_bound_calls(2) assms(2) True] by blast
  obtain bt where bt: "bank_tracker_accept (fs_bank_tracker s1) (fs_update_index s1) (ii_image_index info) = Some bt" "bank_tracker_ok bt"
    using bank_tracker_ops_return(1) [OF ok_banks(3) [OF s1(2)] ok_banks(2) [OF s1(2)] assms(3)] by blast
  note t = tracker_ok [OF s1(2) bt(2)]
  show ?thesis
    using True assms(2) s1 bt(1) t(1) store_step_trans [OF s1(3) t(2)]
    by (simp add: fw_store_commit_image_def array_get_int installer_is_active_def)
qed

lemma notify_accepted_ok:
  assumes "ok s" and "platform_ok vf pl s" and "fw_directory_ok dir" and "unat (ii_image_index info) < FWU_MAX_FW_DIRECTORY_ENTRIES"
  shows "\<exists>all s'. fw_store_notify_accepted pl s dir info = Some (all, s') \<and> ok s' \<and> step s s' \<and> fs_active_installers s' = fs_active_installers s"
proof -
  obtain bt where bt: "bank_tracker_accept (fs_bank_tracker s) (fs_boot_index s) (ii_image_index info) = Some bt" "bank_tracker_ok bt"
    using bank_tracker_ops_return(1) [OF ok_banks(3) [OF assms(1)] ok_banks(1) [OF assms(1)] assms(4)] by blast
  note t = tracker_ok [OF assms(1) bt(2)]
  have n: "fd_num_images dir \<le> FWU_MAX_FW_DIRECTORY_ENTRIES" using assms(3) by (simp add: fw_directory_ok_def)
  obtain st s' where u: "update_metadata pl (s\<lparr>fs_bank_tracker := bt\<rparr>) dir (fs_boot_index s) (fs_update_index s) = Some (st, s')"
    "ok s'" "step (s\<lparr>fs_bank_tracker := bt\<rparr>) s'" "fs_active_installers s' = fs_active_installers s"
    using update_metadata_ok [OF t(1) _ n, of pl "fs_boot_index s" "fs_update_index s"] assms(2) by (auto simp: platform_ok_def)
  obtain r where r: "bank_tracker_is_all_accepted (fs_bank_tracker s') (fs_boot_index s') (fd_num_images dir) = Some r"
    using ok_banks(1) [OF u(2)] n by (auto simp: bank_tracker_is_all_accepted_def word_less_nat_alt)
  show ?thesis using bt(1) u(1,2,4) r store_step_trans [OF t(2) u(3)]
    by (auto simp: fw_store_notify_accepted_def fw_directory_num_images_def)
qed

lemma is_installer_found_returns: "installer_chain is ks q \<Longrightarrow> \<exists>r. is_installer_found is l q = Some r"
  by (induction ks arbitrary: q; subst is_installer_found.simps) (auto simp: array_get_int)

lemma copy_accepted_returns:
  assumes "fw_directory_ok dir" and "boot < 2" and "update < 2" and "bank_tracker_ok bt"
  shows "\<exists>bt'. copy_accepted_from dir l boot update bt i = Some bt' \<and> bank_tracker_ok bt'"
  using assms
proof (induction dir l boot update bt i rule: copy_accepted_from.induct)
  case (1 dir l boot update bt i)
  show ?case
  proof (cases "fw_directory_get_image_info dir i")
    case None
    then show ?thesis using 1(5) by (subst copy_accepted_from.simps) simp
  next
    case (Some info)
    have "unat (ii_image_index info) < FWU_MAX_FW_DIRECTORY_ENTRIES" using Some fw_directory_get_index [OF 1(2)] by blast
    then obtain bt' where bt: "(if ii_location_id info = l then bank_tracker_copy_accept bt boot update (ii_image_index info) else Some bt) = Some bt'"
      "bank_tracker_ok bt'"
      using bank_tracker_ops_return(2) [OF 1(5) 1(4) _ 1(3)] 1(5) by (cases "ii_location_id info = l") auto
    show ?thesis using 1(1) [OF Some bt(1) 1(2-4) bt(2)] bt(1) Some by (subst copy_accepted_from.simps) simp
  qed
qed

lemma install_unchanged_ok:
  assumes "ok s" and "platform_ok vf pl s" and "fw_directory_ok dir"
  shows "\<exists>st s'. install_unchanged_from pl dir s ids = Some (st, s') \<and> ok s' \<and> step s s'"
  using assms
proof (induction ids arbitrary: s)
  case Nil
  then show ?case by simp
next
  case (Cons l ids)
  obtain ks where "installer_chain (fs_installers s) ks (fs_active_installers s)"
    using Cons.prems(1) by (auto simp: store_ok_def active_list_def)
  then obtain r where r: "is_installer_found (fs_installers s) l (fs_active_installers s) = Some r"
    using is_installer_found_returns by blast
  show ?case
  proof (cases "r \<or> installer_index_find (pl_installer_index pl) (fs_installers s) INSTALL_TYPE_WHOLE_VOLUME_COPY l = None")
    case True
    then show ?thesis using r Cons.IH [OF Cons.prems] Cons.prems(1) by (cases r) auto
  next
    case False
    then obtain k where f: "\<not> r" "installer_index_find (pl_installer_index pl) (fs_installers s) INSTALL_TYPE_WHOLE_VOLUME_COPY l = Some k"
      by auto
    note k = installer_index_find_Some [OF f(2)]
    obtain s1 st s2 where s2: "on_installer (\<lambda>i. installer_begin i (current_volume_id s l) (update_volume_id s l)) k s = Some (FWU_STATUS_SUCCESS, s1)"
      "on_installer installer_finalize k s1 = Some (st, s2)" "ok s2" "step s s2"
      using copy_unchanged_ok [OF Cons.prems(1), of k l] k Cons.prems(2) by (auto simp: platform_ok_def)
    obtain bt where bt: "copy_accepted_from dir l (fs_boot_index s2) (fs_update_index s2) (fs_bank_tracker s2) 0 = Some bt" "bank_tracker_ok bt"
      using copy_accepted_returns [OF Cons.prems(3) ok_banks [OF s2(3)]] by blast
    note t = tracker_ok [OF s2(3) bt(2)] and st = store_step_trans [OF s2(4) tracker_ok(2) [OF s2(3) bt(2)]]
    note rest = Cons.IH [OF t(1) platform_ok_step [OF st, THEN iffD2, OF Cons.prems(2)] Cons.prems(3)]
    show ?thesis
      using f r s2 bt(1) rest store_step_trans [OF st] by (auto simp: copy_accepted_state_for_location_def)
  qed
qed

lemma finalize_install_ok:
  assumes "ok s" and "platform_ok vf pl s" and "fw_directory_ok dir"
  shows "\<exists>st s'. fw_store_finalize_install pl s dir = Some (st, s') \<and> ok s' \<and> step s s' \<and> fs_active_installers s' = None
    \<and> (st = FWU_STATUS_SUCCESS \<longrightarrow>
         metadata_manager_get_active_indices (fs_metadata_manager s') = Some (FWU_STATUS_SUCCESS, Some (fs_update_index s, fs_boot_index s)))"
proof -
  obtain st1 e1 s1 where 1: "(if fs_active_installers s \<noteq> None
      then do { (status, s) \<leftarrow> install_unchanged_images pl s dir; Some (status, status \<noteq> FWU_STATUS_SUCCESS, s) }
      else Some (FWU_STATUS_NOT_AVAILABLE, True, s)) = Some (st1, e1, s1)" "ok s1" "step s s1"
    using install_unchanged_ok [OF assms, of "installer_index_get_location_ids (pl_installer_index pl)"] assms(1)
    by (cases "fs_active_installers s = None") (auto simp: install_unchanged_images_def)
  obtain ks where "active_list bound found (fs_update_index s1) (fs_installers s1) (fs_active_installers s1) ks"
    using 1(2) by (auto simp: store_ok_def)
  then obtain st2 e2 s2 where 2: "finalize_active st1 e1 s1 = Some (st2, e2, s2)" "ok s2" "step s1 s2" "fs_active_installers s2 = None"
    using finalize_active_ok [OF 1(2)] by blast
  note st = store_step_trans [OF 1(3) 2(3)]
  obtain bt where bt: "bank_tracker_set_holds_content (fs_bank_tracker s2) (fs_update_index s2) = Some bt" "bank_tracker_ok bt"
    using bank_tracker_ops_return(4) [OF ok_banks(3,2) [OF 2(2)]] by blast
  note t = tracker_ok [OF 2(2) bt(2)]
  have n: "pl_volume_funcs pl = vf" "fd_num_images dir \<le> FWU_MAX_FW_DIRECTORY_ENTRIES"
    using assms(2,3) by (simp_all add: platform_ok_def fw_directory_ok_def)
  obtain st3 s3 where 3: "update_metadata pl (s2\<lparr>fs_bank_tracker := bt\<rparr>) dir (fs_update_index s2) (fs_boot_index s2) = Some (st3, s3)"
    "ok s3" "step (s2\<lparr>fs_bank_tracker := bt\<rparr>) s3" "fs_active_installers s3 = None"
    "metadata_manager_get_active_indices (fs_metadata_manager s3) = Some (FWU_STATUS_SUCCESS, Some (fs_update_index s2, fs_boot_index s2))"
    using update_metadata_ok [OF t(1) n, of "fs_update_index s2" "fs_boot_index s2"] 2(4) by auto
  have i: "fs_update_index s2 = fs_update_index s" "fs_boot_index s2 = fs_boot_index s" using st by (simp_all add: store_step_def)
  have "fw_store_finalize_install pl s dir =
      (if e2 then Some (if st2 \<noteq> FWU_STATUS_SUCCESS then st2 else FWU_STATUS_NOT_AVAILABLE, s2) else Some (st3, s3))"
    using 1(1) 2(1) bt(1) 3(1) by (cases "fs_active_installers s = None") (auto simp: fw_store_finalize_install_def split: Option.bind_splits)
  then show ?thesis
    using 2(2,4) 3(2,4,5) st store_step_trans [OF st store_step_trans [OF t(2) 3(3)]] i by (cases e2) simp_all
qed

text \<open>Going back to the previous bank writes the metadata only. The update bank stays the other bank when the active bank is not
  the one that was booted, or there is no other previous bank.\<close>

lemma revert_to_previous_ok:
  assumes "ok s" and "platform_ok vf pl s" and "fw_directory_ok dir"
    and "metadata_manager_get_active_indices (fs_metadata_manager s) = Some (FWU_STATUS_SUCCESS, Some (ai, pi))"
    and "ai = fs_boot_index s \<longrightarrow> pi < 2"
  shows "\<exists>st s'. fw_store_revert_to_previous pl s dir = Some (st, s') \<and> fs_boot_index s' = fs_boot_index s
    \<and> fs_update_index s' = bank_scheme_next_index (if ai = fs_boot_index s then pi else fs_boot_index s)
    \<and> fs_installers s' = fs_installers s \<and> fs_active_installers s' = fs_active_installers s
    \<and> writes_in stored {p, b} (fs_volumes s) (fs_volumes s')
    \<and> ((ai = fs_boot_index s \<longrightarrow> pi = fs_boot_index s) \<longrightarrow> ok s')"
proof -
  let ?a = "if ai = fs_boot_index s then pi else fs_boot_index s" and ?p = "if ai = fs_boot_index s then fs_boot_index s else ai"
  have s: "wok (fs_volumes s)" "manager_ready ms p b (fs_metadata_manager s)" using assms(1) by (simp_all add: store_ok_def)
  have a: "?a < 2" using assms(5) ok_banks(1) [OF assms(1)] by simp
  obtain bt where bt: "bank_tracker_set_holds_accepted_content (fs_bank_tracker s) ?a = Some bt" "bank_tracker_ok bt"
    using bank_tracker_ops_return(5) [OF ok_banks(3) [OF assms(1)] a] by blast
  let ?s = "s\<lparr>fs_update_index := bank_scheme_next_index ?a, fs_bank_tracker := bt\<rparr>"
  obtain st mm w where u: "update_metadata pl ?s dir ?a ?p = Some (st, ?s\<lparr>fs_metadata_manager := mm, fs_volumes := w\<rparr>)" "wok w"
    "manager_ready ms p b mm" "mm_is_valid mm" "mm_metadata_len mm \<le> ms_max_size ms"
    "metadata_manager_get_active_indices mm = Some (FWU_STATUS_SUCCESS, Some (?a, ?p))" "writes_in stored {p, b} (fs_volumes s) w"
    using update_metadata_returns [of ?s pl dir ?a ?p] s bt(2) assms(2,3) by (auto simp: platform_ok_def fw_directory_ok_def)
  have "indices_ok mm" using u(6) by (simp add: indices_ok_def)
  then have "(ai = fs_boot_index s \<longrightarrow> pi = fs_boot_index s) \<longrightarrow> ok (?s\<lparr>fs_metadata_manager := mm, fs_volumes := w\<rparr>)"
    using assms(1) u(2-5) bt(2) by (auto simp: store_ok_def)
  moreover have "fw_store_revert_to_previous pl s dir = Some (st, ?s\<lparr>fs_metadata_manager := mm, fs_volumes := w\<rparr>)"
    using assms(4) bt(1) u(1) by (simp add: fw_store_revert_to_previous_def split: if_splits)
  ultimately show ?thesis using u(7) by simp
qed

lemma export_ok:
  assumes "ok s" and "length junk = UUID_OCTETS_LEN"
  shows "\<exists>r s'. fw_store_export junk s uuid = Some (r, s') \<and> ok s' \<and> step s s' \<and> fs_active_installers s' = fs_active_installers s
    \<and> metadata_manager_get_active_indices (fs_metadata_manager s') = metadata_manager_get_active_indices (fs_metadata_manager s)
    \<and> (r = None \<and> s' = s \<or> (\<exists>len. r = Some (FWU_STATUS_SUCCESS, Some len) \<and> len \<le> ms_max_size ms))"
proof -
  obtain u where u: "uuid_guid_octets_from_canonical junk junk FWU_METADATA_CANONICAL_UUID = Some u"
    using guid_octets_return [OF metadata_uuid_valid assms(2)] by blast
  have i: "metadata_manager_get_active_indices (mm\<lparr>mm_is_dirty := False\<rparr>) = metadata_manager_get_active_indices mm"
    for mm :: "('v, 'w) metadata_manager" by (simp add: metadata_manager_get_active_indices_def)
  have "ok (s\<lparr>fs_metadata_manager := (fs_metadata_manager s)\<lparr>mm_is_dirty := False\<rparr>\<rparr>)"
    using assms(1) by (auto simp: store_ok_def manager_ready_def indices_ok_def i)
  then show ?thesis
    using assms(1) u by (auto simp: fw_store_export_def metadata_manager_fetch_def store_step_def store_ok_def i)
qed

end


section \<open>Stores on RAM devices\<close>

text \<open>The devices may fail, and both formats of the metadata are covered.\<close>

interpretation ram_store_v1: fw_store_parts block_volume_funcs "ram_volumes_ok any_device" ram_volume_data "ram_volume_pos any_device"
  "metadata_serializer_v1 block_volume_funcs idx" "context_fits block_volume_funcs malloc idx" context_bound "volume_at idx" p b
  for malloc idx p b
  by unfold_locales

interpretation ram_store_v2: fw_store_parts block_volume_funcs "ram_volumes_ok any_device" ram_volume_data "ram_volume_pos any_device"
  "metadata_serializer_v2 block_volume_funcs idx" "context_fits block_volume_funcs malloc idx" context_bound "volume_at idx" p b
  for malloc idx p b
  by unfold_locales

end
