(* ===== verification/AgentSafety.thy ===== *)
theory AgentSafety
  imports FwStoreSafety
begin

text \<open>
  The update agent keeps to the update bank. Its calls are a step relation on its state; the invariant says that the firmware
  store is well formed, that every open stream refers to memory and installers that exist, and that installers are
  active in the staging state only. Every call returns and keeps the invariant, with one exception that is a property of its own:
  going back to the previous bank during a trial turns the booted bank into the update bank.
\<close>

section \<open>Calls\<close>

datatype agent_call =
    Discover
  | Begin_staging
  | End_staging
  | Cancel_staging
  | Accept fw_uuid
  | Select_previous
  | Open fw_uuid
  | Commit u32 bool
  | Write_stream u32 bytes
  | Read_stream u32 size_t

fun agent_exec ::
  "('v, 'w) fwu_platform \<Rightarrow> bytes \<Rightarrow> agent_call \<Rightarrow> ('x, 'v, 'w) update_agent \<Rightarrow> ('x, 'v, 'w) update_agent option" where
  "agent_exec pl junk Discover a = Some a"
| "agent_exec pl junk Begin_staging a = map_option snd (begin_staging pl a)"
| "agent_exec pl junk End_staging a = map_option snd (end_staging pl a)"
| "agent_exec pl junk Cancel_staging a = map_option snd (cancel_staging a)"
| "agent_exec pl junk (Accept uuid) a = map_option snd (accept pl a uuid)"
| "agent_exec pl junk Select_previous a = map_option snd (select_previous pl a)"
| "agent_exec pl junk (Open uuid) a = map_option (snd \<circ> snd) (agent_open pl junk a uuid)"
| "agent_exec pl junk (Commit handle accepted) a = map_option (snd \<circ> snd) (commit a handle accepted)"
| "agent_exec pl junk (Write_stream handle d) a = map_option snd (write_stream a handle d)"
| "agent_exec pl junk (Read_stream handle n) a = map_option (snd \<circ> snd) (read_stream a handle n)"

text \<open>The length of the data is of type \<open>size_t\<close>.\<close>

fun agent_call_typed :: "agent_call \<Rightarrow> bool" where
  "agent_call_typed (Write_stream _ d) = (length d < 2 ^ 64)"
| "agent_call_typed _ = True"


section \<open>The invariant\<close>

definition stream_fits ::
  "nat \<Rightarrow> size_t \<Rightarrow> size_t \<Rightarrow> u32 \<times> fwu_stream_type \<times> (agent_buffer, unit, nat) stream_variant \<Rightarrow> bool" where
  "stream_fits num_installers metadata_size dir_size s =
     (case snd (snd s) of
        Unset \<Rightarrow> True
      | Buffer v \<Rightarrow> bv_data_len v \<le> (case bv_data v of ImageDirBuf \<Rightarrow> dir_size | MetadataCache \<Rightarrow> metadata_size)
      | Install v \<Rightarrow> iv_installer v < num_installers \<and> unat (ii_image_index (iv_image_info v)) < FWU_MAX_FW_DIRECTORY_ENTRIES)"

definition directory_installable :: "fw_directory \<Rightarrow> bool" where
  "directory_installable dir \<longleftrightarrow>
     fw_directory_ok dir \<and> (\<forall>info \<in> set (fw_images dir). ii_install_type info \<noteq> INSTALL_TYPE_WHOLE_VOLUME_COPY)"

definition agent_ok ::
  "'w metadata_serializer \<Rightarrow> 'v \<Rightarrow> 'v \<Rightarrow> (('x, 'w) installer_interface \<Rightarrow> 'x \<Rightarrow> bool) \<Rightarrow> ('x \<Rightarrow> 'v \<Rightarrow> bool) \<Rightarrow>
    (u32 \<Rightarrow> 'v option) \<Rightarrow> ('w \<Rightarrow> bool) \<Rightarrow> ('x, 'v, 'w) update_agent \<Rightarrow> bool" where
  "agent_ok ms p b fits bound found wok a \<longleftrightarrow>
     store_ok ms p b fits bound found wok (ua_fw_store a) \<and> directory_installable (ua_fw_directory a)
     \<and> manager_ok (ua_stream_manager a)
     \<and> (\<forall>s \<in> set (open_streams (ua_stream_manager a)).
          stream_fits (length (fs_installers (ua_fw_store a))) (ms_max_size ms) (ua_image_dir_buf_size a) s)
     \<and> (\<exists>buf. ua_image_dir_buf a = Some buf \<and> length buf = ua_image_dir_buf_size a)
     \<and> ua_image_dir_buf_size a = img_dir_serializer_get_len (ua_fw_directory a)
     \<and> (ua_state a \<noteq> FWU_STATE_STAGING \<longrightarrow> fs_active_installers (ua_fw_store a) = None)
     \<and> (ua_state a = FWU_STATE_TRIAL_PENDING \<longrightarrow>
          metadata_manager_get_active_indices (fs_metadata_manager (ua_fw_store a))
            = Some (FWU_STATUS_SUCCESS, Some (fs_update_index (ua_fw_store a), fs_boot_index (ua_fw_store a))))"

definition agent_step ::
  "('w \<Rightarrow> 'v \<Rightarrow> bytes) \<Rightarrow> (u32 \<Rightarrow> 'v option) \<Rightarrow> 'v \<Rightarrow> 'v \<Rightarrow> ('x, 'v, 'w) update_agent \<Rightarrow> ('x, 'v, 'w) update_agent \<Rightarrow> bool" where
  "agent_step stored found p b a a' \<longleftrightarrow>
     store_step stored found p b (ua_fw_store a) (ua_fw_store a') \<and> ua_fw_directory a' = ua_fw_directory a"

lemma agent_step_refl [simp]: "agent_step stored found p b a a"
  by (simp add: agent_step_def)

lemma agent_step_trans [trans]:
  "agent_step stored found p b a1 a2 \<Longrightarrow> agent_step stored found p b a2 a3 \<Longrightarrow> agent_step stored found p b a1 a3"
  unfolding agent_step_def using store_step_trans by metis

lemma directory_installable_find:
  assumes "directory_installable dir" and "fw_directory_find_image_info dir uuid = Some info"
  shows "unat (ii_image_index info) < FWU_MAX_FW_DIRECTORY_ENTRIES" and "ii_install_type info \<noteq> INSTALL_TYPE_WHOLE_VOLUME_COPY"
proof -
  have ok: "fw_directory_ok dir" using assms(1) by (simp add: directory_installable_def)
  show "unat (ii_image_index info) < FWU_MAX_FW_DIRECTORY_ENTRIES"
    by (rule fw_directory_find_index [OF ok assms(2)]) simp
  have "info \<in> set (fw_images dir)" using assms(2) fw_directory_find_eq [OF ok] by (auto simp: find_Some_iff)
  then show "ii_install_type info \<noteq> INSTALL_TYPE_WHOLE_VOLUME_COPY" using assms(1) by (simp add: directory_installable_def)
qed


section \<open>Image directory\<close>

lemma serialize_img_dir_entry_returns:
  assumes "base + 40 \<le> length buf" and "fs_boot_index s < 2" and "unat (ii_image_index info) < FWU_MAX_FW_DIRECTORY_ENTRIES"
  shows "\<exists>buf'. serialize_img_dir_entry s info base buf = Some buf' \<and> length buf' = length buf"
proof -
  obtain r where "fw_store_is_accepted s info = Some r"
    using assms(2,3) by (auto simp: fw_store_is_accepted_def bank_tracker_is_accepted_def word_less_nat_alt)
  then show ?thesis
    using assms(1) by (auto simp: serialize_img_dir_entry_def put_field_def mem_write_in)
qed

lemma serialize_images_returns:
  assumes "fw_directory_ok dir" and "fs_boot_index s < 2" and "24 + 40 * (i + n) \<le> length buf" and "i + n = fd_num_images dir"
  shows "\<exists>buf'. serialize_images s dir buf i n = Some buf' \<and> length buf' = length buf"
  using assms(3,4)
proof (induction n arbitrary: i buf)
  case 0
  then show ?case by simp
next
  case (Suc n)
  obtain info where info: "fw_directory_get_image_info dir i = Some info"
    using Suc.prems(2) assms(1) by (simp add: fw_directory_get_eq)
  obtain buf1 where b: "serialize_img_dir_entry s info (24 + 40 * i) buf = Some buf1" "length buf1 = length buf"
    using serialize_img_dir_entry_returns [of "24 + 40 * i" buf s info] fw_directory_get_index(1) [OF assms(1) info] assms(2) Suc.prems(1)
    by auto
  show ?case using Suc.IH [of "i + 1" buf1] Suc.prems info b by simp
qed

lemma img_dir_serializer_get_len_eq: "fw_directory_ok dir \<Longrightarrow> img_dir_serializer_get_len dir = 24 + 40 * fd_num_images dir"
  by (simp add: img_dir_serializer_get_len_def fw_directory_num_images_def fw_directory_ok_def add64_exact mul64_exact)

lemma img_dir_serializer_serialize_returns:
  assumes "fw_directory_ok dir" and "fs_boot_index s < 2" and "length buf = img_dir_serializer_get_len dir"
  shows "\<exists>buf'. img_dir_serializer_serialize dir s buf (img_dir_serializer_get_len dir) = Some (FWU_STATUS_SUCCESS, buf', img_dir_serializer_get_len dir)
    \<and> length buf' = length buf"
proof -
  have put: "\<exists>m'. put_field m off k n = Some m' \<and> length m' = length m" if "off + k \<le> length m" for m off k n
    using that by (simp add: put_field_def mem_write_in)
  let ?n = "img_dir_serializer_get_len dir" and ?z = "replicate (img_dir_serializer_get_len dir) (0 :: byte)"
  have n: "24 \<le> ?n" "24 + 40 * (0 + fd_num_images dir) \<le> ?n" using img_dir_serializer_get_len_eq [OF assms(1)] by simp_all
  have w: "mem_write buf 0 ?z = Some ?z" using assms(3) by (simp add: mem_write_def splice_def)
  obtain b1 where 1: "put_field ?z 0 4 FWU_IMAGE_DIRECTORY_VERSION = Some b1" "length b1 = ?n" using put [of 0 4 ?z] n by auto
  obtain b2 where 2: "put_field b1 4 4 24 = Some b2" "length b2 = ?n" using put [of 4 4 b1] 1(2) n by auto
  obtain b3 where 3: "put_field b2 8 4 (fw_directory_num_images dir) = Some b3" "length b3 = ?n" using put [of 8 4 b2] 2(2) n by auto
  obtain b4 where 4: "put_field b3 12 4 (of_bool (bi_active_index (fw_directory_get_boot_info dir) = bi_boot_index (fw_directory_get_boot_info dir))) = Some b4"
    "length b4 = ?n" using put [of 12 4 b3] 3(2) n by auto
  obtain b5 where 5: "put_field b4 16 4 40 = Some b5" "length b5 = ?n" using put [of 16 4 b4] 4(2) n by auto
  obtain b6 where 6: "put_field b5 20 4 0 = Some b6" "length b6 = ?n" using put [of 20 4 b5] 5(2) n by auto
  obtain b7 where 7: "serialize_images s dir b6 0 (fd_num_images dir) = Some b7" "length b7 = ?n"
    using serialize_images_returns [OF assms(1,2), of 0 "fd_num_images dir" b6] 6(2) n(2) by auto
  show ?thesis
    using w 1(1) 2(1) 3(1) 4(1) 5(1) 6(1) 7 assms(3)
    by (simp add: img_dir_serializer_serialize_def Let_def fw_directory_num_images_def)
qed


section \<open>Streams\<close>

lemma open_stream_position:
  assumes "manager_ok sm" and "(handle, t, Buffer v) \<in> set (open_streams sm)"
  shows "bv_pos v \<le> bv_data_len v"
proof -
  obtain fr where pool: "pool sm (active sm) fr" using assms(1) by (rule manager_okE)
  obtain k where k: "k \<in> set (active sm)" "stream_at sm k = (handle, t, Buffer v)" using assms(2) by (auto simp: open_streams_def)
  show ?thesis using pool_open [OF pool k(1)] k(2) by (auto simp: context_open_def split: fwu_stream_type.splits)
qed

lemma read_other_stream:
  assumes "manager_ok sm" and "\<nexists>v. find (\<lambda>s. fst s = handle) (open_streams sm) = Some (handle, FWU_STREAM_TYPE_BUFFER, Buffer v)"
  shows "\<exists>st r. stream_manager_read mem sm handle n = Some (st, r, sm)"
proof (cases "get_active_context sm handle")
  case None
  then show ?thesis by (simp add: stream_manager_read_def)
next
  case (Some k)
  obtain fr where pool: "pool sm (active sm) fr" using assms(1) by (rule manager_okE)
  have k: "k \<in> set (active sm)" "sc_handle (sm_contexts sm ! k) = handle" using get_active_context_pool [OF pool] Some by auto
  have c: "array_get (sm_contexts sm) (int k) = Some (sm_contexts sm ! k)" using pool_bounds [OF pool] k(1) by (simp add: array_get_int)
  have x: "stream_at sm k \<in> set (open_streams sm)" using k(1) by (simp add: open_streams_def)
  have "find (\<lambda>s. fst s = handle) (open_streams sm) = Some (stream_at sm k)"
    using find_key [OF open_streams_distinct(1) [OF assms(1)] x] k(2) by (simp add: stream_at_def)
  then have "sc_type (sm_contexts sm ! k) \<noteq> FWU_STREAM_TYPE_BUFFER"
    using assms(2) pool_open [OF pool k(1)] k(2)
    by (auto simp: context_open_def stream_at_def split: fwu_stream_type.splits stream_variant.splits)
  then show ?thesis using Some c by (simp add: stream_manager_read_def)
qed

context fw_store_parts
begin

abbreviation aok :: "('x, 'v, 'w) update_agent \<Rightarrow> bool" where
  "aok \<equiv> agent_ok ms p b fits bound found wok"

abbreviation astep :: "('x, 'v, 'w) update_agent \<Rightarrow> ('x, 'v, 'w) update_agent \<Rightarrow> bool" where
  "astep \<equiv> agent_step stored found p b"

definition quiet :: "('x, 'v, 'w) fw_store \<Rightarrow> ('x, 'v, 'w) fw_store \<Rightarrow> bool" where
  "quiet s s' \<longleftrightarrow> ok s' \<and> step s s' \<and> fs_active_installers s' = fs_active_installers s
     \<and> metadata_manager_get_active_indices (fs_metadata_manager s') = metadata_manager_get_active_indices (fs_metadata_manager s)"

lemma quiet_refl: "ok s \<Longrightarrow> quiet s s"
  by (simp add: quiet_def)

lemma commit_stream_ok:
  assumes "ok s" and "stream_fits (length (fs_installers s)) m d x"
  shows "\<exists>st s'. commit_stream agent_streams x accepted s = Some (st, s') \<and> quiet s s'"
proof (cases "snd (snd x)")
  case (Install v)
  then show ?thesis
    using commit_image_ok [OF assms(1), of "iv_installer v" "iv_image_info v" accepted] assms(2)
    by (auto simp: commit_stream_def agent_streams_def stream_fits_def quiet_def)
qed (use assms(1) in \<open>auto simp: commit_stream_def quiet_def\<close>)

lemma evict_ok:
  assumes "ok s" and "\<forall>x \<in> set xs. stream_fits (length (fs_installers s)) m d x"
  shows "\<exists>ys s'. evict agent_streams xs s = Some (ys, s') \<and> set ys \<subseteq> set xs \<and> quiet s s'"
proof (cases "length xs < FWU_STREAM_MANAGER_POOL_SIZE")
  case True
  then show ?thesis using assms(1) by (simp add: evict_def quiet_refl)
next
  case False
  then have "last xs \<in> set xs" by (intro last_in_set) auto
  then obtain st s' where c: "commit_stream agent_streams (last xs) False s = Some (st, s')" "quiet s s'"
    using commit_stream_ok [OF assms(1), of m d "last xs" False] assms(2) by blast
  then show ?thesis using False by (auto simp: evict_def dest: in_set_butlastD)
qed

text \<open>A new store and new streams that refer to what exists.\<close>

lemma agent_with_streams:
  assumes "aok a" and "quiet (ua_fw_store a) s" and "manager_ok sm"
    and "\<forall>x \<in> set (open_streams sm). stream_fits (length (fs_installers (ua_fw_store a))) (ms_max_size ms) (ua_image_dir_buf_size a) x"
  shows "aok (a\<lparr>ua_stream_manager := sm, ua_fw_store := s\<rparr>)" and "astep a (a\<lparr>ua_stream_manager := sm, ua_fw_store := s\<rparr>)"
proof -
  have "length (fs_installers s) = length (fs_installers (ua_fw_store a))" "fs_update_index s = fs_update_index (ua_fw_store a)"
    "fs_boot_index s = fs_boot_index (ua_fw_store a)"
    using assms(2) store_step_length [of stored found p b "ua_fw_store a" s] by (simp_all add: quiet_def store_step_def)
  then show "aok (a\<lparr>ua_stream_manager := sm, ua_fw_store := s\<rparr>)"
    using assms by (auto simp: agent_ok_def quiet_def)
  show "astep a (a\<lparr>ua_stream_manager := sm, ua_fw_store := s\<rparr>)" using assms(2) by (simp add: agent_step_def quiet_def)
qed

lemma agent_okD:
  assumes "aok a"
  shows "ok (ua_fw_store a)" and "manager_ok (ua_stream_manager a)" and "directory_installable (ua_fw_directory a)"
    and "fw_directory_ok (ua_fw_directory a)"
    and "\<forall>x \<in> set (open_streams (ua_stream_manager a)).
      stream_fits (length (fs_installers (ua_fw_store a))) (ms_max_size ms) (ua_image_dir_buf_size a) x"
  using assms by (auto simp: agent_ok_def directory_installable_def)

lemma evict_filter_ok:
  assumes "aok a"
  shows "\<exists>ys s. evict agent_streams (filter P (open_streams (ua_stream_manager a))) (ua_fw_store a) = Some (ys, s)
    \<and> set ys \<subseteq> set (open_streams (ua_stream_manager a)) \<and> quiet (ua_fw_store a) s"
proof -
  note a = agent_okD [OF assms]
  have "\<forall>x \<in> set (filter P (open_streams (ua_stream_manager a))).
      stream_fits (length (fs_installers (ua_fw_store a))) (ms_max_size ms) (ua_image_dir_buf_size a) x"
    using a(5) by simp
  from evict_ok [OF a(1) this] show ?thesis by (meson filter_is_subset subset_trans)
qed

lemma open_buffer_stream_ok:
  assumes "aok a" and "len \<le> (case d of ImageDirBuf \<Rightarrow> ua_image_dir_buf_size a | MetadataCache \<Rightarrow> ms_max_size ms)" and "len < 2 ^ 64"
  shows "\<exists>st h a'. open_buffer_stream a d len = Some (st, h, a') \<and> aok a' \<and> astep a a'"
proof -
  note a = agent_okD [OF assms(1)]
  obtain ys s where e: "evict agent_streams (filter (\<lambda>s. \<not> same_buffer d s) (open_streams (ua_stream_manager a))) (ua_fw_store a) = Some (ys, s)"
    "set ys \<subseteq> set (open_streams (ua_stream_manager a))" "quiet (ua_fw_store a) s"
    using evict_filter_ok [OF assms(1)] by blast
  obtain h sm where o: "stream_manager_open_buffer_stream agent_streams (ua_stream_manager a) d len (ua_fw_store a)
      = Some (FWU_STATUS_SUCCESS, Some h, sm, s)" "manager_ok sm"
    "open_streams sm = (h, FWU_STREAM_TYPE_BUFFER, Buffer \<lparr>bv_pos = 0, bv_data = d, bv_data_len = len\<rparr>) # ys"
    using open_buffer_stream_streams [OF a(2) assms(3), of agent_streams d "ua_fw_store a"] e(1) by auto
  have "\<forall>x \<in> set (open_streams sm). stream_fits (length (fs_installers (ua_fw_store a))) (ms_max_size ms) (ua_image_dir_buf_size a) x"
    using o(3) e(2) a(5) assms(2) by (auto simp: stream_fits_def)
  then show ?thesis using agent_with_streams [OF assms(1) e(3) o(2)] o(1) by (simp add: open_buffer_stream_def)
qed

lemma commit_ok:
  assumes "aok a"
  shows "\<exists>st r a'. commit a handle accepted = Some (st, r, a') \<and> aok a' \<and> astep a a'"
proof -
  note a = agent_okD [OF assms]
  have "\<exists>st sm s. stream_manager_close agent_streams (ua_stream_manager a) handle accepted (ua_fw_store a) = Some (st, sm, s) \<and> quiet (ua_fw_store a) s"
  proof (cases "find (\<lambda>s. fst s = handle) (open_streams (ua_stream_manager a))")
    case None
    then show ?thesis using a(1) by (simp add: stream_manager_close_streams [OF a(2)] quiet_refl)
  next
    case (Some x)
    then have x: "x \<in> set (open_streams (ua_stream_manager a))" "fst x = handle" by (auto simp: find_Some_iff)
    obtain st s where c: "commit_stream agent_streams x accepted (ua_fw_store a) = Some (st, s)" "quiet (ua_fw_store a) s"
      using commit_stream_ok [OF a(1)] a(5) x(1) by blast
    obtain sm where "stream_manager_close agent_streams (ua_stream_manager a) handle accepted (ua_fw_store a) = Some (st, sm, s)"
      by (rule close_returns [OF a(2) Some c(1)])
    then show ?thesis using c(2) by blast
  qed
  then obtain st sm s where c: "stream_manager_close agent_streams (ua_stream_manager a) handle accepted (ua_fw_store a) = Some (st, sm, s)"
    "quiet (ua_fw_store a) s" by blast
  note sm = close_streams [OF a(2) c(1)]
  show ?thesis using agent_with_streams [OF assms c(2) sm(1)] a(5) sm(2) c(1) by (simp add: commit_def)
qed

lemma write_stream_ok:
  assumes "aok a" and "length d < 2 ^ 64"
  shows "\<exists>st a'. write_stream a handle d = Some (st, a') \<and> aok a' \<and> astep a a'"
proof -
  note a = agent_okD [OF assms(1)]
  let ?sm = "ua_stream_manager a"
  have "\<exists>st s. stream_manager_write agent_streams ?sm handle d (ua_fw_store a) = Some (st, s) \<and> quiet (ua_fw_store a) s"
  proof (cases "get_active_context ?sm handle")
    case None
    then show ?thesis using a(1) by (simp add: stream_manager_write_def quiet_refl)
  next
    case (Some k)
    obtain fr where pool: "pool ?sm (active ?sm) fr" using a(2) by (rule manager_okE)
    have k: "k \<in> set (active ?sm)" using get_active_context_pool [OF pool] Some by blast
    then have x: "stream_at ?sm k \<in> set (open_streams ?sm)" by (simp add: open_streams_def)
    have c: "array_get (sm_contexts ?sm) (int k) = Some (sm_contexts ?sm ! k)" using pool_bounds [OF pool] k by (simp add: array_get_int)
    show ?thesis
    proof (cases "sc_type (sm_contexts ?sm ! k) = FWU_STREAM_TYPE_INSTALL")
      case False
      then show ?thesis using Some c a(1) by (simp add: stream_manager_write_def quiet_refl)
    next
      case True
      then obtain v where v: "sc_variant (sm_contexts ?sm ! k) = Install v"
        using pool_open [OF pool k] by (auto simp: context_open_def stream_at_def split: fwu_stream_type.splits stream_variant.splits)
      then have "iv_installer v < length (fs_installers (ua_fw_store a))"
        using a(5) x by (auto simp: stream_fits_def stream_at_def)
      then show ?thesis
        using write_image_ok [OF a(1), of "iv_installer v" "length d" d] assms(2) Some c True v
        by (auto simp: stream_manager_write_def agent_streams_def quiet_def)
    qed
  qed
  then obtain st s where w: "stream_manager_write agent_streams ?sm handle d (ua_fw_store a) = Some (st, s)" "quiet (ua_fw_store a) s" by blast
  have "a\<lparr>ua_stream_manager := ?sm, ua_fw_store := s\<rparr> = a\<lparr>ua_fw_store := s\<rparr>" by simp
  then show ?thesis using agent_with_streams [OF assms(1) w(2) a(2,5)] w(1) by (simp add: write_stream_def)
qed

lemma agent_memory_length:
  assumes "aok a"
  shows "length (agent_memory a ImageDirBuf) = ua_image_dir_buf_size a" and "length (agent_memory a MetadataCache) = ms_max_size ms"
proof -
  show "length (agent_memory a ImageDirBuf) = ua_image_dir_buf_size a" using assms by (auto simp: agent_memory_def agent_ok_def)
  have "manager_ready ms p b (fs_metadata_manager (ua_fw_store a))" using assms by (simp add: agent_ok_def store_ok_def)
  then show "length (agent_memory a MetadataCache) = ms_max_size ms"
    by (auto simp: agent_memory_def manager_ready_def split: option.splits)
qed

lemma read_stream_ok:
  assumes "aok a"
  shows "\<exists>st r a'. read_stream a handle n = Some (st, r, a') \<and> aok a' \<and> astep a a'"
proof -
  note a = agent_okD [OF assms]
  let ?sm = "ua_stream_manager a"
  have "\<exists>st r sm. stream_manager_read (agent_memory a) ?sm handle n = Some (st, r, sm) \<and> manager_ok sm
    \<and> (\<forall>x \<in> set (open_streams sm). stream_fits (length (fs_installers (ua_fw_store a))) (ms_max_size ms) (ua_image_dir_buf_size a) x)"
  proof (cases "\<exists>v. find (\<lambda>s. fst s = handle) (open_streams ?sm) = Some (handle, FWU_STREAM_TYPE_BUFFER, Buffer v)")
    case True
    then obtain v where v: "find (\<lambda>s. fst s = handle) (open_streams ?sm) = Some (handle, FWU_STREAM_TYPE_BUFFER, Buffer v)" ..
    then have x: "(handle, FWU_STREAM_TYPE_BUFFER, Buffer v) \<in> set (open_streams ?sm)" by (auto simp: find_Some_iff)
    have "bv_data_len v \<le> length (agent_memory a (bv_data v))"
      using bspec [OF a(5) x] agent_memory_length [OF assms] by (cases "bv_data v") (auto simp: stream_fits_def)
    moreover have "bv_pos v \<le> bv_data_len v" using open_stream_position [OF a(2) x] .
    ultimately have "bv_pos v + min (bv_data_len v - bv_pos v) n \<le> length (agent_memory a (bv_data v))" by linarith
    then obtain sm where r: "stream_manager_read (agent_memory a) ?sm handle n = Some (FWU_STATUS_SUCCESS,
        Some (slice (agent_memory a (bv_data v)) (bv_pos v) (min (bv_data_len v - bv_pos v) n), bv_data_len v), sm)" "manager_ok sm"
      "open_streams sm = map (\<lambda>s. if fst s = handle
               then (handle, FWU_STREAM_TYPE_BUFFER, Buffer (v\<lparr>bv_pos := bv_pos v + min (bv_data_len v - bv_pos v) n\<rparr>))
               else s) (open_streams ?sm)"
      by (rule read_streams [OF a(2) v])
    moreover have "\<forall>x \<in> set (open_streams sm). stream_fits (length (fs_installers (ua_fw_store a))) (ms_max_size ms) (ua_image_dir_buf_size a) x"
      using a(5) bspec [OF a(5) x] unfolding r(3) by (auto simp: stream_fits_def)
    ultimately show ?thesis by blast
  next
    case False
    then have "\<exists>st r. stream_manager_read (agent_memory a) ?sm handle n = Some (st, r, ?sm)" by (rule read_other_stream [OF a(2)])
    then show ?thesis using a(2,5) by blast
  qed
  then obtain st r sm where r: "stream_manager_read (agent_memory a) ?sm handle n = Some (st, r, sm)" "manager_ok sm"
    "\<forall>x \<in> set (open_streams sm). stream_fits (length (fs_installers (ua_fw_store a))) (ms_max_size ms) (ua_image_dir_buf_size a) x" by blast
  have "a\<lparr>ua_stream_manager := sm, ua_fw_store := ua_fw_store a\<rparr> = a\<lparr>ua_stream_manager := sm\<rparr>" by simp
  then show ?thesis using agent_with_streams [OF assms quiet_refl [OF a(1)] r(2,3)] r(1) by (simp add: read_stream_def)
qed


section \<open>Staging\<close>

text \<open>A call of the store that ends in a state without active installers.\<close>

lemma agent_with_store:
  assumes "aok a" and "ok s" and "step (ua_fw_store a) s" and "st \<noteq> FWU_STATE_STAGING \<longrightarrow> fs_active_installers s = None"
    and "st = FWU_STATE_TRIAL_PENDING \<longrightarrow> metadata_manager_get_active_indices (fs_metadata_manager s)
      = Some (FWU_STATUS_SUCCESS, Some (fs_update_index s, fs_boot_index s))"
  shows "aok (a\<lparr>ua_fw_store := s, ua_state := st\<rparr>)" and "astep a (a\<lparr>ua_fw_store := s, ua_state := st\<rparr>)"
  using assms store_step_length [OF assms(3)] by (auto simp: agent_ok_def agent_step_def)

lemma agent_keeps_state:
  assumes "aok a" and "ok s" and "step (ua_fw_store a) s" and "ua_state a \<noteq> FWU_STATE_STAGING \<longrightarrow> fs_active_installers s = None"
    and "ua_state a \<noteq> FWU_STATE_TRIAL_PENDING"
  shows "aok (a\<lparr>ua_fw_store := s\<rparr>)" and "astep a (a\<lparr>ua_fw_store := s\<rparr>)"
  using assms store_step_length [OF assms(3)] by (auto simp: agent_ok_def agent_step_def)

lemma cancel_staging_ok:
  assumes "aok a"
  shows "\<exists>st a'. cancel_staging a = Some (st, a') \<and> aok a' \<and> astep a a' \<and> ua_state a' \<noteq> FWU_STATE_STAGING"
proof (cases "ua_state a = FWU_STATE_STAGING")
  case False
  then show ?thesis using assms by (simp add: cancel_staging_def)
next
  case True
  note a = agent_okD [OF assms]
  obtain sm where sm: "stream_manager_cancel_streams (ua_stream_manager a) FWU_STREAM_TYPE_INSTALL = Some sm" "manager_ok sm"
    "open_streams sm = filter (\<lambda>s. fst (snd s) \<noteq> FWU_STREAM_TYPE_INSTALL) (open_streams (ua_stream_manager a))"
    by (rule cancel_streams_streams [OF a(2), of FWU_STREAM_TYPE_INSTALL]) auto
  have 1: "aok (a\<lparr>ua_stream_manager := sm\<rparr>)" "astep a (a\<lparr>ua_stream_manager := sm\<rparr>)"
    using agent_with_streams [OF assms quiet_refl [OF a(1)] sm(2)] sm(3) a(5) by simp_all
  obtain ks where "active_list bound found (fs_update_index (ua_fw_store a)) (fs_installers (ua_fw_store a)) (fs_active_installers (ua_fw_store a)) ks"
    using a(1) by (auto simp: store_ok_def)
  then obtain s where s: "fw_store_cancel_install (ua_fw_store a) = Some s" "ok s" "step (ua_fw_store a) s" "fs_active_installers s = None"
    using cancel_install_ok [OF a(1)] by blast
  have "aok (a\<lparr>ua_stream_manager := sm, ua_fw_store := s, ua_state := FWU_STATE_REGULAR\<rparr>)"
    "astep a (a\<lparr>ua_stream_manager := sm, ua_fw_store := s, ua_state := FWU_STATE_REGULAR\<rparr>)"
    using agent_with_store [OF 1(1), of s FWU_STATE_REGULAR] s(2-4) agent_step_trans [OF 1(2)] by simp_all
  then show ?thesis using True sm(1) s(1) by (simp add: cancel_staging_def)
qed

lemma begin_staging_ok:
  assumes "aok a" and "platform_ok vf pl (ua_fw_store a)"
  shows "\<exists>st a'. begin_staging pl a = Some (st, a') \<and> aok a' \<and> astep a a'"
proof -
  obtain st a1 where 1: "cancel_staging a = Some (st, a1)" "aok a1" "astep a a1" "ua_state a1 \<noteq> FWU_STATE_STAGING"
    using cancel_staging_ok [OF assms(1)] by blast
  note a = agent_okD [OF 1(2)]
  have pl: "platform_ok vf pl (ua_fw_store a1)" using assms(2) 1(3) platform_ok_step by (auto simp: agent_step_def)
  have "fs_active_installers (ua_fw_store a1) = None" using 1(2,4) by (simp add: agent_ok_def)
  then obtain st2 s where 2: "fw_store_begin_install pl (ua_fw_store a1) (ua_fw_directory a1) = Some (st2, s)" "ok s" "step (ua_fw_store a1) s"
    "fs_active_installers s = None"
    using begin_install_ok [OF a(1) pl a(4)] by blast
  have 3: "aok (a1\<lparr>ua_fw_store := s, ua_state := FWU_STATE_STAGING\<rparr>)" "astep a (a1\<lparr>ua_fw_store := s, ua_state := FWU_STATE_STAGING\<rparr>)"
    using agent_with_store [OF 1(2) 2(2,3), of FWU_STATE_STAGING] agent_step_trans [OF 1(3)] by simp_all
  have 4: "ua_state a1 = FWU_STATE_REGULAR \<Longrightarrow> aok (a1\<lparr>ua_fw_store := s\<rparr>) \<and> astep a (a1\<lparr>ua_fw_store := s\<rparr>)"
    using agent_keeps_state [OF 1(2) 2(2,3)] 2(4) agent_step_trans [OF 1(3)] by simp
  show ?thesis using 1 2(1) 3 4 by (auto simp: begin_staging_def Let_def)
qed

lemma end_staging_ok:
  assumes "aok a" and "platform_ok vf pl (ua_fw_store a)"
  shows "\<exists>st a'. end_staging pl a = Some (st, a') \<and> aok a' \<and> astep a a'"
proof -
  note a = agent_okD [OF assms(1)]
  obtain st s where s: "fw_store_finalize_install pl (ua_fw_store a) (ua_fw_directory a) = Some (st, s)" "ok s" "step (ua_fw_store a) s"
    "fs_active_installers s = None" "st = FWU_STATUS_SUCCESS \<longrightarrow> metadata_manager_get_active_indices (fs_metadata_manager s)
      = Some (FWU_STATUS_SUCCESS, Some (fs_update_index (ua_fw_store a), fs_boot_index (ua_fw_store a)))"
    using finalize_install_ok [OF a(1) assms(2) a(4)] by blast
  have i: "fs_update_index s = fs_update_index (ua_fw_store a)" "fs_boot_index s = fs_boot_index (ua_fw_store a)"
    using s(3) by (simp_all add: store_step_def)
  have 1: "st = FWU_STATUS_SUCCESS \<Longrightarrow> aok (a\<lparr>ua_fw_store := s, ua_state := FWU_STATE_TRIAL_PENDING\<rparr>)
      \<and> astep a (a\<lparr>ua_fw_store := s, ua_state := FWU_STATE_TRIAL_PENDING\<rparr>)"
    using agent_with_store [OF assms(1) s(2,3), of FWU_STATE_TRIAL_PENDING] s(4,5) i by simp
  have 2: "ua_state a = FWU_STATE_STAGING \<Longrightarrow> aok (a\<lparr>ua_fw_store := s\<rparr>) \<and> astep a (a\<lparr>ua_fw_store := s\<rparr>)"
    using agent_keeps_state [OF assms(1) s(2,3)] by simp
  show ?thesis using s(1) 1 2 assms(1) by (auto simp: end_staging_def Let_def)
qed

lemma accept_ok:
  assumes "aok a" and "platform_ok vf pl (ua_fw_store a)"
  shows "\<exists>st a'. accept pl a uuid = Some (st, a') \<and> aok a' \<and> astep a a'"
proof (cases "ua_state a = FWU_STATE_TRIAL \<and> fw_directory_find_image_info (ua_fw_directory a) uuid \<noteq> None")
  case False
  then show ?thesis using assms(1) by (auto simp: accept_def)
next
  case True
  then obtain info where info: "ua_state a = FWU_STATE_TRIAL" "fw_directory_find_image_info (ua_fw_directory a) uuid = Some info" by auto
  note a = agent_okD [OF assms(1)]
  obtain all s where s: "fw_store_notify_accepted pl (ua_fw_store a) (ua_fw_directory a) info = Some (all, s)" "ok s" "step (ua_fw_store a) s"
    "fs_active_installers s = fs_active_installers (ua_fw_store a)"
    using notify_accepted_ok [OF a(1) assms(2) a(4) directory_installable_find(1) [OF a(3) info(2)]] by blast
  have n: "fs_active_installers s = None" using assms(1) info(1) s(4) by (simp add: agent_ok_def)
  show ?thesis
    using agent_with_store [OF assms(1) s(2,3), of FWU_STATE_REGULAR] agent_keeps_state [OF assms(1) s(2,3)] n info s(1)
    by (auto simp: accept_def Let_def)
qed

text \<open>During a pending trial the active bank is the update bank, so going back leaves the update bank as it is.\<close>

lemma select_previous_ok:
  assumes "aok a" and "platform_ok vf pl (ua_fw_store a)"
 and "ua_state a \<noteq> FWU_STATE_TRIAL"
  shows "\<exists>st a'. select_previous pl a = Some (st, a') \<and> aok a' \<and> astep a a'"
proof (cases "ua_state a = FWU_STATE_TRIAL_PENDING")
  case False
  then show ?thesis using assms(1,3) by (simp add: select_previous_def)
next
  case True
  note a = agent_okD [OF assms(1)]
  let ?s = "ua_fw_store a"
  have i: "metadata_manager_get_active_indices (fs_metadata_manager ?s) = Some (FWU_STATUS_SUCCESS, Some (fs_update_index ?s, fs_boot_index ?s))"
    using assms(1) True by (simp add: agent_ok_def)
  have u: "fs_update_index ?s = bank_scheme_next_index (fs_boot_index ?s)" using a(1) by (simp add: store_ok_def)
  obtain st s where s: "fw_store_revert_to_previous pl ?s (ua_fw_directory a) = Some (st, s)" "fs_boot_index s = fs_boot_index ?s"
    "fs_update_index s = fs_update_index ?s" "fs_installers s = fs_installers ?s" "fs_active_installers s = fs_active_installers ?s"
    "writes_in stored {p, b} (fs_volumes ?s) (fs_volumes s)" "ok s"
    using revert_to_previous_ok [OF a(1) assms(2) a(4) i] u by auto
  have "step ?s s" using s(2-4,6) by (auto simp: store_step_def intro: writes_in_mono)
  then have "aok (a\<lparr>ua_fw_store := s, ua_state := FWU_STATE_REGULAR\<rparr>)" "astep a (a\<lparr>ua_fw_store := s, ua_state := FWU_STATE_REGULAR\<rparr>)"
    using agent_with_store [OF assms(1) s(7), of FWU_STATE_REGULAR] s(5) assms(1) True by (simp_all add: agent_ok_def)
  then show ?thesis using True s(1) by (simp add: select_previous_def)
qed


section \<open>Opening streams\<close>

lemma open_image_directory_ok:
  assumes "aok a" and "length junk = UUID_OCTETS_LEN"
  shows "\<exists>r. open_image_directory junk a uuid = Some r \<and> (\<forall>st h a'. r = Some (st, h, a') \<longrightarrow> aok a' \<and> astep a a')"
proof -
  note a = agent_okD [OF assms(1)]
  obtain u where u: "uuid_guid_octets_from_canonical junk junk FWU_DIRECTORY_CANONICAL_UUID = Some u"
    using guid_octets_return [OF directory_uuid_valid assms(2)] by blast
  obtain buf where buf: "ua_image_dir_buf a = Some buf" "length buf = ua_image_dir_buf_size a"
    "ua_image_dir_buf_size a = img_dir_serializer_get_len (ua_fw_directory a)"
    using assms(1) by (auto simp: agent_ok_def)
  have len: "length buf = img_dir_serializer_get_len (ua_fw_directory a)" using buf by simp
  obtain buf1 where s: "img_dir_serializer_serialize (ua_fw_directory a) (ua_fw_store a) buf (ua_image_dir_buf_size a)
      = Some (FWU_STATUS_SUCCESS, buf1, ua_image_dir_buf_size a)" "length buf1 = length buf"
    using img_dir_serializer_serialize_returns [OF a(4) ok_banks(1) [OF a(1)] len] buf(3) by auto
  have 1: "aok (a\<lparr>ua_image_dir_buf := Some buf1\<rparr>)" "astep a (a\<lparr>ua_image_dir_buf := Some buf1\<rparr>)"
    using assms(1) s(2) buf by (auto simp: agent_ok_def agent_step_def)
  have "ua_image_dir_buf_size a < 2 ^ 64"
    using buf(3) img_dir_serializer_get_len_eq [OF a(4)] a(4) by (simp add: fw_directory_ok_def)
  then obtain st h a' where o: "open_buffer_stream (a\<lparr>ua_image_dir_buf := Some buf1\<rparr>) ImageDirBuf (ua_image_dir_buf_size a) = Some (st, h, a')"
    "aok a'" "astep (a\<lparr>ua_image_dir_buf := Some buf1\<rparr>) a'"
    using open_buffer_stream_ok [OF 1(1), of "ua_image_dir_buf_size a" ImageDirBuf] by auto
  then show ?thesis using u buf(1) s(1) agent_step_trans [OF 1(2) o(3)] by (auto simp: open_image_directory_def Let_def)
qed

lemma open_fw_store_object_ok:
  assumes "aok a" and "length junk = UUID_OCTETS_LEN"
  shows "\<exists>r. open_fw_store_object junk a uuid = Some r \<and> (\<forall>st h a'. r = Some (st, h, a') \<longrightarrow> aok a' \<and> astep a a')"
proof -
  note a = agent_okD [OF assms(1)]
  obtain r s where s: "fw_store_export junk (ua_fw_store a) uuid = Some (r, s)" "quiet (ua_fw_store a) s"
    "r = None \<and> s = ua_fw_store a \<or> (\<exists>len. r = Some (FWU_STATUS_SUCCESS, Some len) \<and> len \<le> ms_max_size ms)"
    using export_ok [OF a(1) assms(2)] unfolding quiet_def by blast
  have 1: "aok (a\<lparr>ua_fw_store := s\<rparr>)" "astep a (a\<lparr>ua_fw_store := s\<rparr>)"
    using agent_with_streams [OF assms(1) s(2) a(2,5)] by simp_all
  show ?thesis
  proof (cases "r = None")
    case True
    then show ?thesis using s(1) by (simp add: open_fw_store_object_def)
  next
    case False
    then obtain len where len: "r = Some (FWU_STATUS_SUCCESS, Some len)" "len \<le> ms_max_size ms" using s(3) by blast
    then have "len < 2 ^ 64" using format.max_size_small by simp
    then obtain st h a' where o: "open_buffer_stream (a\<lparr>ua_fw_store := s\<rparr>) MetadataCache len = Some (st, h, a')" "aok a'"
      "astep (a\<lparr>ua_fw_store := s\<rparr>) a'"
      using open_buffer_stream_ok [OF 1(1), of len MetadataCache] len(2) by auto
    then show ?thesis using s(1) len(1) agent_step_trans [OF 1(2) o(3)] by (auto simp: open_fw_store_object_def Let_def)
  qed
qed

lemma open_fw_image_ok:
  assumes "aok a" and "platform_ok vf pl (ua_fw_store a)"
  shows "\<exists>r. open_fw_image pl a uuid = Some r \<and> (\<forall>st h a'. r = Some (st, h, a') \<longrightarrow> aok a' \<and> astep a a')"
proof (cases "fw_directory_find_image_info (ua_fw_directory a) uuid = None \<or> ua_state a \<noteq> FWU_STATE_STAGING")
  case True
  then show ?thesis using assms(1) by (cases "fw_directory_find_image_info (ua_fw_directory a) uuid") (auto simp: open_fw_image_def)
next
  case False
  then obtain info where info: "fw_directory_find_image_info (ua_fw_directory a) uuid = Some info" "ua_state a = FWU_STATE_STAGING" by auto
  note a = agent_okD [OF assms(1)]
  note d = directory_installable_find [OF a(3) info(1)]
  obtain st sel s where s: "fw_store_select_installer pl (ua_fw_store a) info = Some (st, sel, s)" "ok s" "step (ua_fw_store a) s"
    "st = FWU_STATUS_SUCCESS \<longrightarrow> (\<exists>k. sel = Some k \<and> k < length (fs_installers s))"
    using select_installer_ok [OF a(1) assms(2) d(2)] by blast
  have 1: "aok (a\<lparr>ua_fw_store := s\<rparr>)" "astep a (a\<lparr>ua_fw_store := s\<rparr>)" using agent_keeps_state [OF assms(1) s(2,3)] info(2) by simp_all
  show ?thesis
  proof (cases "st = FWU_STATUS_SUCCESS")
    case False
    then show ?thesis using info s(1) 1 by (auto simp: open_fw_image_def Let_def)
  next
    case True
    then obtain k where k: "sel = Some k" "k < length (fs_installers s)" using s(4) by blast
    note a1 = agent_okD [OF 1(1)]
    obtain ys s1 where e: "evict agent_streams (filter (\<lambda>s. \<not> same_installer () k s) (open_streams (ua_stream_manager a))) s = Some (ys, s1)"
      "set ys \<subseteq> set (open_streams (ua_stream_manager a))" "quiet s s1"
      using evict_filter_ok [OF 1(1), of "\<lambda>s. \<not> same_installer () k s"] by auto
    obtain h sm where o: "stream_manager_open_install_stream agent_streams (ua_stream_manager a) () k info s = Some (FWU_STATUS_SUCCESS, Some h, sm, s1)"
      "manager_ok sm"
      "open_streams sm = (h, FWU_STREAM_TYPE_INSTALL, Install \<lparr>iv_fw_store = (), iv_installer = k, iv_image_info = info\<rparr>) # ys"
      using open_install_stream_streams [where fss = agent_streams and fw_store = "()" and installer = k and w = s and info = info, OF a(2)] e(1) by auto
    have "\<forall>x \<in> set (open_streams sm). stream_fits (length (fs_installers s)) (ms_max_size ms) (ua_image_dir_buf_size a) x"
      using o(3) e(2) a1(5) k(2) d(1) by (auto simp: stream_fits_def)
    then have "aok (a\<lparr>ua_stream_manager := sm, ua_fw_store := s1\<rparr>)" "astep a (a\<lparr>ua_stream_manager := sm, ua_fw_store := s1\<rparr>)"
      using agent_with_streams [OF 1(1) _ o(2), of s1] e(3) agent_step_trans [OF 1(2)] by simp_all
    then show ?thesis using info s(1) True k(1) o(1) by (simp add: open_fw_image_def Let_def)
  qed
qed

lemma agent_open_ok:
  assumes "aok a" and "platform_ok vf pl (ua_fw_store a)" and "length junk = UUID_OCTETS_LEN"
  shows "\<exists>st h a'. agent_open pl junk a uuid = Some (st, h, a') \<and> aok a' \<and> astep a a'"
proof -
  obtain r1 r2 r3 where r: "open_image_directory junk a uuid = Some r1" "\<forall>st h a'. r1 = Some (st, h, a') \<longrightarrow> aok a' \<and> astep a a'"
    "open_fw_store_object junk a uuid = Some r2" "\<forall>st h a'. r2 = Some (st, h, a') \<longrightarrow> aok a' \<and> astep a a'"
    "open_fw_image pl a uuid = Some r3" "\<forall>st h a'. r3 = Some (st, h, a') \<longrightarrow> aok a' \<and> astep a a'"
    using open_image_directory_ok [OF assms(1,3)] open_fw_store_object_ok [OF assms(1,3)] open_fw_image_ok [OF assms(1,2)] by blast
  then show ?thesis using assms(1) by (cases r1; cases r2; cases r3) (auto simp: agent_open_def)
qed


section \<open>Every call\<close>

lemma agent_exec_ok:
  assumes "aok a" and "platform_ok vf pl (ua_fw_store a)" and "length junk = UUID_OCTETS_LEN" and "agent_call_typed c"
    and "c \<noteq> Select_previous \<or> ua_state a \<noteq> FWU_STATE_TRIAL"
  shows "\<exists>a'. agent_exec pl junk c a = Some a' \<and> aok a' \<and> astep a a'"
proof (cases c)
  case Select_previous
  then show ?thesis using select_previous_ok [OF assms(1,2)] assms(5) by fastforce
qed (use assms begin_staging_ok [OF assms(1,2)] end_staging_ok [OF assms(1,2)] cancel_staging_ok [OF assms(1)] accept_ok [OF assms(1,2)]
    agent_open_ok [OF assms(1-3)] commit_ok [OF assms(1)] write_stream_ok [OF assms(1)] read_stream_ok [OF assms(1)]
    in \<open>fastforce+\<close>)

end

end
