(* ===== verification/Spec2Isabelle.thy ===== *)
theory Spec2Isabelle
  imports LuaClient BlockStorageClient BlockVolume VolumeIndex Tlv TsRpcAbi ConfigStore RpmbBlockStore StreamRefinement PowerFailure AgentSafety
begin

text \<open>
  A verification development for Trusted Services with the Lua secure partition.

  \<^bold>\<open>The program.\<close> Services run in secure partitions. A client builds a request in a shared
  buffer and calls a service endpoint through an RPC caller; the endpoint finds the handler of the
  opcode, the handler reads the request with a serializer, works on the state of the service and
  writes the response and a status. Storage services stand on block stores, which are stacked: a
  RAM or RPMB device below, partitions with access control above it, a remote client of the block
  storage service that is itself a block store, and volumes that present a partition as a file.

  \<^bold>\<open>The theories.\<close> Sources are under \<open>src/components\<close>.
  \<^item> \<open>Prelude\<close>: machine types, \<open>size_t\<close> arithmetic with its wrap-around (\<open>add64\<close>, \<open>mul64\<close>,
    \<open>sub64\<close>; \<open>common/utils\<close>), raw memory (\<open>mem_read\<close>, \<open>mem_write\<close>, where \<open>None\<close> is an access
    outside the object), little-endian fields.
  \<^item> \<open>Rpc\<close>: \<open>rpc/common/endpoint\<close> and \<open>service/common/provider\<close>: requests, handler tables,
    \<open>find_handler\<close>, \<open>receive\<close>, extension of providers. The locale \<open>rpc_service\<close> is the contract of a
    service endpoint.
  \<^item> \<open>RpcCaller\<close>: \<open>rpc/common/caller\<close> and \<open>rpc/direct\<close>: sessions, shared memory, the direct caller.
    The locale \<open>rpc_caller_contract\<close> is what a client relies on; a sublocale shows that a direct caller in
    front of any \<open>rpc_service\<close> gives it.
  \<^item> \<open>ServiceClient\<close>: \<open>service/common/client\<close>.
  \<^item> \<open>LuaProvider\<close>, \<open>LuaClient\<close>: \<open>service/lua\<close>: environment pool with its free list, the four handlers,
    the packed-c serializer, the client, and the client over the direct caller. The Lua interpreter is
    the parameter record \<open>lua_platform\<close>.
  \<^item> \<open>StoragePartition\<close>, \<open>BlockStore\<close>, \<open>BlockDevice\<close>, \<open>PartitionedBlockStore\<close>:
    \<open>service/block_storage/block_store\<close>: access lists, the interface with its locales
    \<open>block_store_geometry\<close> and \<open>block_store_contents\<close>, the RAM and null devices, partitions. Partitions over
    any store with contents are again a store with contents (\<open>sublocale\<close>).
  \<^item> \<open>BlockStorageProvider\<close>, \<open>BlockStorageClient\<close>: the block storage service and its remote client.
  \<^item> \<open>BlockVolume\<close>, \<open>VolumeIndex\<close>: \<open>media/volume\<close>: a partition as a file, and the table of volumes.
  \<^item> \<open>Rpmb\<close>, \<open>RpmbFrontend\<close>, \<open>RpmbBlockStore\<close>: \<open>service/block_storage/block_store/device/rpmb\<close> and
    \<open>service/rpmb\<close>: the emulated replay protected device, the frontend with its platform,
    the block store. Hash and random generator are the parameters \<open>sha\<close> and \<open>psa_crypto_api\<close>.
  \<^item> \<open>Tlv\<close>, \<open>TsRpcAbi\<close>, \<open>ConfigStore\<close>: \<open>common/tlv\<close>, \<open>rpc/ts_rpc/common\<close>, \<open>config/ramstore\<close>.
  \<^item> \<open>Crc32\<close>: \<open>common/crc32\<close>: the table-driven routine, the routine over the CRC instruction (a
    parameter) and the bit-serial reference.
  \<^item> \<open>Volume\<close>, \<open>BlockVolumes\<close>: the calls of \<open>media/volume/volume.c\<close>, the contract \<open>volume_files\<close> of a
    volume, and its interpretation on block volumes over RAM devices.
  \<^item> \<open>FwDirectory\<close>, \<open>StreamManager\<close>, \<open>StreamRefinement\<close>: \<open>service/fwu/agent\<close>: the image directory, the pool
    of streams with its free and active lists, and the refinement of the pool to a list of open streams.
  \<^item> \<open>BankTracker\<close>: \<open>service/fwu/fw_store/banked\<close>: the bank scheme, volume numbers and the bank tracker.

  \<^bold>\<open>Conventions.\<close> A C struct is a record, a struct of function pointers a record of functions, an enum a
  datatype. An operation takes the state and returns the state with its status. The result
  \<open>None\<close> of an operation is undefined behaviour of the C code: access outside an object,
  use of NULL, reading memory that is not there; a theorem that an operation gives \<open>Some\<close> says that this
  does not happen. Loops that advance by what a lower layer reports may run forever
  and are \<open>partial_function (option)\<close>; the theorems about them show that they return. The
  other loops are structural recursions on the number of rounds left.

  \<^bold>\<open>What is shown.\<close> Refinement: the Lua service and the block storage service do what their abstract
  operations do on every request; the remote client is as good as the store behind the service; a
  volume is a file. Invariants and safety: the free list of Lua environments, the partition table,
  the isolation of environments and of partitions, replay protection, authenticity of RPMB reads,
  no access outside a buffer. Round trips through every layer. Error behaviour,
  among it the places where the code loses a resource or grants access it should not.

  \<^bold>\<open>Not modelled.\<close> Cryptography, the Lua interpreter and the FF-A calls are outside the sources. The
  rest of the firmware update service, the UEFI variable service, secure storage, attestation and the crypto service are not modelled yet.
\<close>

end
